(* ===== verification/Prelude.thy ===== *)
theory Prelude
  imports Main "HOL-Library.Word"
begin

text \<open>
  What every component of the model shares: the machine integers, the value a C operation
  yields when it does not return normally, checked access to arrays, and the few facts on
  words and lists that the component proofs use again and again.

  A C function that can fail to return a value (an \<open>assert\<close> that fires, \<open>abort\<close>, \<open>exit\<close>,
  an access outside an array, a shift by too many bits) is a function into \<open>'a result\<close>:
  \<open>Inl\<close> carries the reason, \<open>Inr\<close> the value. Nothing in the model recovers from an \<open>Inl\<close>.
\<close>

unbundle bit_operations_syntax

section \<open>Machine integers\<close>

type_synonym u8 = "8 word"
type_synonym u16 = "16 word"
type_synonym u32 = "32 word"
type_synonym u64 = "64 word"

text \<open>Facts about counters of type \<open>uint8_t\<close>.\<close>

named_theorems u8_simps

lemma unat_of_nat_u8 [u8_simps]: "n < 256 \<Longrightarrow> unat (of_nat n :: u8) = n"
  by (simp add: unat_of_nat)

lemma uint_of_nat_u8 [u8_simps]: "n < 256 \<Longrightarrow> uint (of_nat n :: u8) = int n"
  by (simp add: uint_nat unat_of_nat_u8)

lemma of_nat_u8_le [u8_simps]:
  "m < 256 \<Longrightarrow> n < 256 \<Longrightarrow> (of_nat m :: u8) \<le> of_nat n \<longleftrightarrow> m \<le> n"
  by (simp add: word_le_nat_alt unat_of_nat_u8)

lemma of_nat_u8_eq [u8_simps]:
  "m < 256 \<Longrightarrow> n < 256 \<Longrightarrow> (of_nat m :: u8) = of_nat n \<longleftrightarrow> m = n"
  by (metis unat_of_nat_u8)

lemma of_nat_u8_eq_0 [u8_simps]: "n < 256 \<Longrightarrow> (of_nat n :: u8) = 0 \<longleftrightarrow> n = 0"
  using of_nat_u8_eq [of n 0] by simp

lemma of_nat_u8_inc [u8_simps]: "of_nat n + 1 = 1 + (of_nat n :: u8)"
  by simp

lemma unat_u8_inc [u8_simps]: "Suc n < 256 \<Longrightarrow> unat (1 + of_nat n :: u8) = Suc n"
  using unat_of_nat_u8 [of "Suc n"] by simp

lemma of_nat_u8_le_inc [u8_simps]:
  "m < 256 \<Longrightarrow> Suc n < 256 \<Longrightarrow> (of_nat m :: u8) \<le> 1 + of_nat n \<longleftrightarrow> m \<le> Suc n"
  using of_nat_u8_le [of m "Suc n"] by simp

lemma unat_u8_lt [simp]: "unat (x :: u8) < 256"
  using unsigned_less [where 'a = nat, of x] by simp

lemma u8_le_0 [simp]: "(x :: u8) \<le> 0 \<longleftrightarrow> x = 0"
  by (simp add: word_le_nat_alt unat_eq_zero)

section \<open>Results\<close>

datatype fault =
    AssertFailed    \<comment> \<open>an \<open>assert\<close> of the source fires\<close>
  | OutOfBounds     \<comment> \<open>an access outside the bytes of an array\<close>
  | BadShift        \<comment> \<open>a shift by at least the width of its operand\<close>
  | Aborted         \<comment> \<open>\<open>abort()\<close>\<close>
  | FatalExit       \<comment> \<open>\<open>exit\<close>, directly or through \<open>log_print(FATAL, ..)\<close>\<close>
  | UseAfterFree    \<comment> \<open>an access to an object that was freed\<close>
  | WrongMember     \<comment> \<open>a union read through a member other than the one last written\<close>
  | NullCall        \<comment> \<open>a null pointer used\<close>
  | NoAnswer        \<comment> \<open>the list of answers of the operating system is used up\<close>

type_synonym 'a result = "fault + 'a"

fun bind_res :: "'a result \<Rightarrow> ('a \<Rightarrow> 'b result) \<Rightarrow> 'b result" where
  "bind_res (Inl e) k = Inl e"
| "bind_res (Inr x) k = k x"

lemma bind_res_Inr_iff: "bind_res m k = Inr y \<longleftrightarrow> (\<exists>x. m = Inr x \<and> k x = Inr y)"
  by (cases m) auto

lemma bind_res_InrE:
  assumes "bind_res m k = Inr y"
  obtains x where "m = Inr x" "k x = Inr y"
  using assms by (auto simp: bind_res_Inr_iff)

lemma bind_res_cong [fundef_cong]:
  "m = m' \<Longrightarrow> (\<And>x. m' = Inr x \<Longrightarrow> k x = k' x) \<Longrightarrow> bind_res m k = bind_res m' k'"
  by (cases m) auto

definition returns :: "'a result \<Rightarrow> bool" where
  "returns m \<longleftrightarrow> (case m of Inl _ \<Rightarrow> False | Inr _ \<Rightarrow> True)"

lemma returns_simps [simp]: "returns (Inr x)" "\<not> returns (Inl e)"
  by (simp_all add: returns_def)

lemma returns_iff: "returns m \<longleftrightarrow> (\<exists>x. m = Inr x)"
  by (cases m) auto

section \<open>Arrays\<close>

definition load_at :: "'a list \<Rightarrow> nat \<Rightarrow> 'a result" where
  "load_at a i = (if i < length a then Inr (a ! i) else Inl OutOfBounds)"

definition store_at :: "'a list \<Rightarrow> nat \<Rightarrow> 'a \<Rightarrow> 'a list result" where
  "store_at a i v = (if i < length a then Inr (a[i := v]) else Inl OutOfBounds)"

text \<open>\<open>memcpy\<close> into an array at an offset, and out of one.\<close>

definition store_range :: "'a list \<Rightarrow> nat \<Rightarrow> 'a list \<Rightarrow> 'a list result" where
  "store_range a i vs =
     (if i + length vs \<le> length a then Inr (take i a @ vs @ drop (i + length vs) a)
      else Inl OutOfBounds)"

definition load_range :: "'a list \<Rightarrow> nat \<Rightarrow> nat \<Rightarrow> 'a list result" where
  "load_range a i n = (if i + n \<le> length a then Inr (take n (drop i a)) else Inl OutOfBounds)"

named_theorems array_simps

lemma load_at_in [array_simps]: "i < length a \<Longrightarrow> load_at a i = Inr (a ! i)"
  by (simp add: load_at_def)

lemma store_at_in [array_simps]: "i < length a \<Longrightarrow> store_at a i v = Inr (a[i := v])"
  by (simp add: store_at_def)

lemma load_at_out [array_simps]: "length a \<le> i \<Longrightarrow> load_at a i = Inl OutOfBounds"
  by (simp add: load_at_def)

lemma store_at_out [array_simps]: "length a \<le> i \<Longrightarrow> store_at a i v = Inl OutOfBounds"
  by (simp add: store_at_def)

lemma store_at_Inr_iff: "store_at a i v = Inr a' \<longleftrightarrow> i < length a \<and> a' = a[i := v]"
  by (auto simp: store_at_def)

lemma store_range_in [array_simps]:
  "i + length vs \<le> length a \<Longrightarrow>
   store_range a i vs = Inr (take i a @ vs @ drop (i + length vs) a)"
  by (simp add: store_range_def)

lemma store_range_Inr_iff:
  "store_range a i vs = Inr a' \<longleftrightarrow>
   i + length vs \<le> length a \<and> a' = take i a @ vs @ drop (i + length vs) a"
  by (auto simp: store_range_def)

lemma store_range_length: "store_range a i vs = Inr a' \<Longrightarrow> length a' = length a"
  by (auto simp: store_range_Inr_iff)

lemma list_update_snoc:
  "length xs = i \<Longrightarrow> (xs @ y # ys)[i := v] = xs @ v # ys"
  by (simp add: list_update_append)

section \<open>Four bytes as a number\<close>

text \<open>
  \<open>b[3] | (b[2] << 8) | (b[1] << 16) | (b[0] << 24)\<close>, stored into a \<open>uint32_t\<close>. (The last
  shift is an \<open>int\<close> shifted into its sign bit when \<open>b[0]\<close> is 128 or more; the compilers the
  program is built with let it wrap, and so does the model.)
\<close>

definition be32 :: "u8 \<Rightarrow> u8 \<Rightarrow> u8 \<Rightarrow> u8 \<Rightarrow> u32" where
  "be32 a b c d =
     ucast d OR push_bit 8 (ucast c) OR push_bit 16 (ucast b) OR push_bit 24 (ucast a)"

lemma bit_u8: "bit (x :: u8) n \<Longrightarrow> n < 8"
  using bit_imp_le_length [of x n] by simp

lemma or_plus: "x AND y = 0 \<Longrightarrow> x OR y = x + (y :: 'a :: len word)"
  using word_plus_and_or [of x y] by simp

lemma or_push: "(ucast (d :: u8) :: u32) OR push_bit 8 y = ucast d + push_bit 8 y"
  by (rule or_plus, rule bit_eqI) (auto simp: bit_simps dest: bit_u8)

lemma be32_horner:
  "be32 a b c d =
   ucast d + push_bit 8 (ucast c + push_bit 8 (ucast b + push_bit 8 (ucast a)))"
proof -
  have "be32 a b c d =
      ucast d OR push_bit 8 (ucast c OR push_bit 8 (ucast b OR push_bit 8 (ucast a)))"
    by (simp add: be32_def push_bit_or)
  then show ?thesis
    by (simp only: or_push)
qed

lemma unat_be32:
  "unat (be32 a b c d) = unat a * 2 ^ 24 + unat b * 2 ^ 16 + unat c * 2 ^ 8 + unat d"
proof -
  have *: "unat a < 256" "unat b < 256" "unat c < 256" "unat d < 256"
    by simp_all
  have u: "(ucast x :: u32) = of_nat (unat x)" for x :: u8
    by simp
  have "be32 a b c d = of_nat (unat a * 2 ^ 24 + unat b * 2 ^ 16 + unat c * 2 ^ 8 + unat d)"
    unfolding be32_horner push_bit_eq_mult u by (simp add: algebra_simps)
  moreover have "unat a * 2 ^ 24 + unat b * 2 ^ 16 + unat c * 2 ^ 8 + unat d < 2 ^ LENGTH(32)"
    using * by (simp del: unat_u8_lt)
  ultimately show ?thesis
    by (simp only: unat_of_nat mod_less)
qed

lemma be32_eq_0_iff: "be32 a b c d = 0 \<longleftrightarrow> a = 0 \<and> b = 0 \<and> c = 0 \<and> d = 0"
  by (simp add: unat_be32 unat_eq_zero flip: unat_eq_zero [of "be32 a b c d"])

text \<open>And back: the four bytes of a number.\<close>

lemma ucast_and_FF: "(ucast (x AND 0xFF) :: u8) = ucast (x :: u32)"
proof -
  have "(0xFF :: u32) = mask 8"
    by (simp add: mask_eq_exp_minus_1)
  moreover have "(ucast (x AND mask 8) :: u8) = ucast x"
    by (auto simp: bit_simps intro!: bit_eqI dest: bit_u8)
  ultimately show ?thesis
    by simp
qed

lemma be32_bytes:
  "be32 (ucast (drop_bit 24 n)) (ucast (drop_bit 16 n)) (ucast (drop_bit 8 n)) (ucast n) = n"
proof (rule bit_eqI)
  fix i
  assume "possible_bit TYPE(32 word) i"
  then have i: "i < 32"
    by simp
  then consider "i < 8" | "8 \<le> i" "i < 16" | "16 \<le> i" "i < 24" | "24 \<le> i"
    by linarith
  then show "bit (be32 (ucast (drop_bit 24 n)) (ucast (drop_bit 16 n)) (ucast (drop_bit 8 n))
      (ucast n)) i = bit n i"
    using i by cases (auto simp: be32_def bit_simps)
qed

lemma horner_digits:
  fixes a b :: nat
  assumes "a * 256 + b = a' * 256 + b'" and "b < 256" and "b' < 256"
  shows "a = a'" "b = b'"
  using arg_cong [OF assms(1), of "\<lambda>n. n div 256"] arg_cong [OF assms(1), of "\<lambda>n. n mod 256"]
    assms(2,3)
  by simp_all

lemma be32_inject: "be32 a b c d = be32 a' b' c' d' \<longleftrightarrow> a = a' \<and> b = b' \<and> c = c' \<and> d = d'"
proof
  assume "be32 a b c d = be32 a' b' c' d'"
  then have eq: "((unat a * 256 + unat b) * 256 + unat c) * 256 + unat d =
      ((unat a' * 256 + unat b') * 256 + unat c') * 256 + unat d'"
    using unat_be32 [of a b c d] unat_be32 [of a' b' c' d'] by (simp add: algebra_simps)
  note 1 = horner_digits [OF eq unat_u8_lt unat_u8_lt]
  note 2 = horner_digits [OF 1(1) unat_u8_lt unat_u8_lt]
  note 3 = horner_digits [OF 2(1) unat_u8_lt unat_u8_lt]
  from 1 2 3 show "a = a' \<and> b = b' \<and> c = c' \<and> d = d'"
    by (simp add: word_unat_eq_iff)
qed simp

end
