(* ===== verification/Buffer.thy ===== *)
theory Buffer
  imports Prelude
begin

text \<open>
  The byte buffer of \<^verbatim>\<open>src/buffer.c\<close>: a window \<open>[read, write)\<close> over an array that the
  caller owns. The pointers of \<open>struct buffer\<close> are offsets from \<open>data\<close>; \<open>b_mem\<close> is the
  array \<open>data\<close> points to, with the length it was really allocated with, which need not
  be \<open>limit - data\<close>.
\<close>

section \<open>State and operations\<close>

record buffer =
  b_mem :: "u8 list"
  b_limit :: nat
  b_read :: nat
  b_write :: nat

definition buffer_reset :: "buffer \<Rightarrow> buffer" where
  "buffer_reset b = b\<lparr>b_read := 0, b_write := 0\<rparr>"

definition buffer_init :: "nat \<Rightarrow> u8 list \<Rightarrow> buffer" where
  "buffer_init n data = \<lparr>b_mem = data, b_limit = n, b_read = 0, b_write = 0\<rparr>"

definition buffer_can_write :: "buffer \<Rightarrow> bool" where
  "buffer_can_write b \<longleftrightarrow> 0 < int (b_limit b) - int (b_write b)"

text \<open>The pointer is an offset from \<open>data\<close>; \<open>*nbyte\<close> is the second component.\<close>

definition buffer_write_ptr :: "buffer \<Rightarrow> (nat \<times> nat) result" where
  "buffer_write_ptr b =
     (if b_write b \<le> b_limit b then Inr (b_write b, b_limit b - b_write b)
      else Inl AssertFailed)"

definition buffer_can_read :: "buffer \<Rightarrow> bool" where
  "buffer_can_read b \<longleftrightarrow> 0 < int (b_write b) - int (b_read b)"

definition buffer_read_ptr :: "buffer \<Rightarrow> (nat \<times> nat) result" where
  "buffer_read_ptr b =
     (if b_read b \<le> b_write b then Inr (b_read b, b_write b - b_read b)
      else Inl AssertFailed)"

definition buffer_write_adv :: "buffer \<Rightarrow> int \<Rightarrow> buffer result" where
  "buffer_write_adv b bytes =
     (if bytes > -1 then
        let b = b\<lparr>b_write := b_write b + nat bytes\<rparr> in
        if b_write b \<le> b_limit b then Inr b else Inl AssertFailed
      else Inr b)"

text \<open>\<open>memmove\<close> of the \<open>n\<close> pending bytes to the start of the array.\<close>

definition buffer_compact :: "buffer \<Rightarrow> buffer result" where
  "buffer_compact b =
     (if b_read b = 0 then Inr b
      else if b_read b = b_write b then Inr (b\<lparr>b_read := 0, b_write := 0\<rparr>)
      else
        let n = b_write b - b_read b in
        bind_res (load_range (b_mem b) (b_read b) n) (\<lambda>bs.
        bind_res (store_range (b_mem b) 0 bs) (\<lambda>m.
        Inr (b\<lparr>b_mem := m, b_read := 0, b_write := n\<rparr>))))"

definition buffer_read_adv :: "buffer \<Rightarrow> int \<Rightarrow> buffer result" where
  "buffer_read_adv b bytes =
     (if bytes > -1 then
        let b = b\<lparr>b_read := b_read b + nat bytes\<rparr> in
        if b_read b \<le> b_write b then
          (if b_read b = b_write b then buffer_compact b else Inr b)
        else Inl AssertFailed
      else Inr b)"

definition buffer_read :: "buffer \<Rightarrow> (u8 \<times> buffer) result" where
  "buffer_read b =
     (if buffer_can_read b then
        bind_res (load_at (b_mem b) (b_read b)) (\<lambda>ret.
        bind_res (buffer_read_adv b 1) (\<lambda>b. Inr (ret, b)))
      else Inr (0, b))"

definition buffer_write :: "buffer \<Rightarrow> u8 \<Rightarrow> buffer result" where
  "buffer_write b c =
     (if buffer_can_write b then
        bind_res (store_at (b_mem b) (b_write b) c) (\<lambda>m.
        buffer_write_adv (b\<lparr>b_mem := m\<rparr>) 1)
      else Inr b)"

text \<open>
  What a caller does with a pointer from \<open>buffer_write_ptr\<close>: bytes stored from the write
  offset on (by \<open>recv\<close>, \<open>memcpy\<close> or assignments), before \<open>buffer_write_adv\<close>.
\<close>

definition buffer_poke :: "buffer \<Rightarrow> nat \<Rightarrow> u8 list \<Rightarrow> buffer result" where
  "buffer_poke b off bs = bind_res (store_range (b_mem b) off bs) (\<lambda>m. Inr (b\<lparr>b_mem := m\<rparr>))"

section \<open>The invariant and the bytes pending\<close>

text \<open>
  The program announces buffers that are one byte longer than their arrays, so the invariant
  cannot ask for \<open>limit\<close> bytes. The \<open>shape\<close> of a buffer, which no operation changes, is its limit
  and the size of its array; the \<open>capacity\<close> is what both allow, and a buffer is \<open>whole\<close> when its
  array has the bytes it announces.
\<close>

definition shape :: "buffer \<Rightarrow> nat \<times> nat" where
  "shape b = (b_limit b, length (b_mem b))"

definition capacity :: "buffer \<Rightarrow> nat" where
  "capacity b = min (b_limit b) (length (b_mem b))"

definition whole :: "buffer \<Rightarrow> bool" where
  "whole b \<longleftrightarrow> b_limit b \<le> length (b_mem b)"

text \<open>
  \<open>buffer_ok\<close> is the documented invariant \<open>R <= W <= limit\<close>, with what it needs to be safe
  (\<open>W\<close> does not leave the array) and what the automatic compaction adds (an empty
  window stands at the start of the array). \<open>room\<close> counts the bytes that can be stored, and
  \<open>announced\<close> those that \<open>buffer_write_ptr\<close> answers.
\<close>

definition buffer_ok :: "buffer \<Rightarrow> bool" where
  "buffer_ok b \<longleftrightarrow> b_read b \<le> b_write b \<and> b_write b \<le> capacity b \<and>
     (b_read b = b_write b \<longrightarrow> b_read b = 0)"

definition pending :: "buffer \<Rightarrow> u8 list" where
  "pending b = take (b_write b - b_read b) (drop (b_read b) (b_mem b))"

definition room :: "buffer \<Rightarrow> nat" where
  "room b = capacity b - b_write b"

definition announced :: "buffer \<Rightarrow> nat" where
  "announced b = b_limit b - b_write b"

lemmas buffer_dims = buffer_ok_def room_def announced_def capacity_def shape_def whole_def

lemma shape_eqD:
  assumes "shape b' = shape b"
  shows "shape b' = shape b" "length (b_mem b') = length (b_mem b)"
    "capacity b' = capacity b" "whole b' \<longleftrightarrow> whole b"
  using assms by (auto simp: shape_def capacity_def whole_def)

lemma room_le_announced: "room b \<le> announced b"
  by (auto simp: buffer_dims announced_def capacity_def)

lemma room_whole: "whole b \<Longrightarrow> room b = announced b"
  by (auto simp: buffer_dims announced_def capacity_def whole_def)

lemma length_pending: "buffer_ok b \<Longrightarrow> length (pending b) = b_write b - b_read b"
  by (auto simp: buffer_dims pending_def)

lemma pending_empty_iff: "buffer_ok b \<Longrightarrow> pending b = [] \<longleftrightarrow> b_read b = b_write b"
  using length_pending [of b] by (auto simp: buffer_dims pending_def)

lemma can_read_iff: "buffer_ok b \<Longrightarrow> buffer_can_read b \<longleftrightarrow> pending b \<noteq> []"
  by (auto simp: buffer_can_read_def pending_empty_iff buffer_dims)

lemma can_write_iff: "buffer_can_write b \<longleftrightarrow> 0 < announced b"
  by (auto simp: buffer_can_write_def announced_def)

lemma buffer_init_ok:
  "buffer_ok (buffer_init n data)"
  "pending (buffer_init n data) = []"
  "room (buffer_init n data) = min n (length data)"
  by (simp_all add: buffer_dims buffer_init_def pending_def buffer_dims)

text \<open>A buffer of \<open>n\<close> bytes in which \<open>bs\<close> is pending.\<close>

definition buffer_of :: "nat \<Rightarrow> u8 list \<Rightarrow> buffer" where
  "buffer_of n bs = \<lparr>b_mem = bs @ replicate (n - length bs) 0, b_limit = n, b_read = 0,
     b_write = length bs\<rparr>"

lemma buffer_of_ok [simp]: "length bs \<le> n \<Longrightarrow> buffer_ok (buffer_of n bs)"
  by (auto simp: buffer_of_def buffer_dims)

lemma pending_buffer_of [simp]: "pending (buffer_of n bs) = bs"
  by (simp add: buffer_of_def pending_def)

lemma room_buffer_of [simp]: "room (buffer_of n bs) = n - length bs"
  by (simp add: buffer_of_def buffer_dims)

lemma capacity_buffer_of [simp]: "capacity (buffer_of n bs) = n"
  by (simp add: buffer_of_def capacity_def)

lemma shape_buffer_of [simp]: "length bs \<le> n \<Longrightarrow> shape (buffer_of n bs) = (n, n)"
  by (simp add: buffer_of_def shape_def)

lemma whole_buffer_of [simp]: "length bs \<le> n \<Longrightarrow> whole (buffer_of n bs)"
  by (simp add: buffer_of_def whole_def)

lemma buffer_reset_ok:
  "buffer_ok b \<Longrightarrow> buffer_ok (buffer_reset b)"
  "pending (buffer_reset b) = []"
  "room (buffer_reset b) = capacity b"
  "shape (buffer_reset b) = shape b"
  by (simp_all add: buffer_dims buffer_reset_def pending_def buffer_dims)

lemma buffer_write_ptr_ok:
  "buffer_ok b \<Longrightarrow> buffer_write_ptr b = Inr (b_write b, announced b)"
  by (simp add: buffer_write_ptr_def buffer_dims announced_def capacity_def)

lemma buffer_read_ptr_ok:
  "buffer_ok b \<Longrightarrow> buffer_read_ptr b = Inr (b_read b, length (pending b))"
  by (simp add: buffer_read_ptr_def length_pending) (simp add: buffer_dims)

section \<open>Each operation on the pending bytes\<close>

lemma buffer_compact_ok:
  assumes ok: "buffer_ok b"
  obtains b' where "buffer_compact b = Inr b'" "buffer_ok b'" "pending b' = pending b"
    "b_read b' = 0" "shape b' = shape b" "room b' = capacity b - length (pending b)"
proof (cases "b_read b = 0 \<or> b_read b = b_write b")
  case True
  with ok show ?thesis
    by (intro that [of "if b_read b = 0 then b else b\<lparr>b_read := 0, b_write := 0\<rparr>"])
      (auto simp: buffer_compact_def buffer_dims pending_def buffer_dims)
next
  case False
  let ?n = "b_write b - b_read b"
  let ?m = "take ?n (drop (b_read b) (b_mem b)) @ drop ?n (b_mem b)"
  from ok False have "buffer_compact b = Inr (b\<lparr>b_mem := ?m, b_read := 0, b_write := ?n\<rparr>)"
    by (auto simp: buffer_compact_def load_range_def store_range_def buffer_dims Let_def)
  then show ?thesis
    by (rule that) (use ok False in \<open>auto simp: buffer_dims pending_def buffer_dims\<close>)
qed

lemma buffer_read_adv_ok:
  assumes ok: "buffer_ok b" and n: "n \<le> length (pending b)"
  obtains b' where "buffer_read_adv b (int n) = Inr b'" "buffer_ok b'"
    "pending b' = drop n (pending b)" "shape b' = shape b"
    "room b' = (if n = length (pending b) then capacity b else room b)"
proof -
  let ?b = "b\<lparr>b_read := b_read b + n\<rparr>"
  have le: "b_read ?b \<le> b_write ?b"
    using n ok by (auto simp: length_pending buffer_dims)
  show ?thesis
  proof (cases "b_read ?b = b_write ?b")
    case True
    then have all: "n = length (pending b)"
      using ok by (simp add: length_pending)
    have "buffer_read_adv b (int n) = Inr (?b\<lparr>b_read := 0, b_write := 0\<rparr>)"
      using True ok by (auto simp: buffer_read_adv_def buffer_compact_def Let_def buffer_dims)
    then show ?thesis
      by (rule that) (use ok all in \<open>auto simp: buffer_dims pending_def buffer_dims\<close>)
  next
    case False
    then have "buffer_read_adv b (int n) = Inr ?b"
      using le by (simp add: buffer_read_adv_def Let_def)
    moreover have "n \<noteq> length (pending b)"
      using False le ok by (auto simp: length_pending)
    ultimately show ?thesis
      by (intro that [of ?b])
        (use ok False le in \<open>auto simp: buffer_dims pending_def buffer_dims drop_take add.commute\<close>)
  qed
qed

lemma buffer_read_adv_too_far:
  "buffer_ok b \<Longrightarrow> length (pending b) < n \<Longrightarrow> buffer_read_adv b (int n) = Inl AssertFailed"
  by (auto simp: buffer_read_adv_def length_pending Let_def buffer_dims)

lemma buffer_read_ok:
  assumes ok: "buffer_ok b" and p: "pending b = x # xs"
  obtains b' where "buffer_read b = Inr (x, b')" "buffer_ok b'" "pending b' = xs"
    "shape b' = shape b" "room b' = (if xs = [] then capacity b else room b)"
proof -
  have lt: "b_read b < length (b_mem b)" and x: "b_mem b ! b_read b = x"
  proof -
    show "b_read b < length (b_mem b)"
      using p ok by (cases "b_read b < length (b_mem b)") (auto simp: pending_def)
    then show "b_mem b ! b_read b = x"
      using p by (auto simp: pending_def Cons_nth_drop_Suc [symmetric] take_Cons split: nat.splits)
  qed
  obtain b' where b': "buffer_read_adv b (int 1) = Inr b'" "buffer_ok b'"
      "pending b' = drop 1 (pending b)" "shape b' = shape b"
      "room b' = (if 1 = length (pending b) then capacity b else room b)"
    using buffer_read_adv_ok [OF ok, of 1] p by auto
  then have "buffer_read b = Inr (x, b')"
    using lt x p ok by (simp add: buffer_read_def can_read_iff array_simps)
  then show ?thesis
    by (rule that) (use b' p in auto)
qed

lemma buffer_read_empty: "buffer_ok b \<Longrightarrow> pending b = [] \<Longrightarrow> buffer_read b = Inr (0, b)"
  by (simp add: buffer_read_def can_read_iff)

text \<open>Bytes stored at the write pointer and then announced with \<open>buffer_write_adv\<close>.\<close>

lemma buffer_poke_adv_ok:
  assumes ok: "buffer_ok b" and fit: "length bs \<le> room b" and n: "n = int (length bs)"
  obtains b1 b' where "buffer_poke b (b_write b) bs = Inr b1"
    "buffer_write_adv b1 n = Inr b'" "buffer_ok b'" "pending b' = pending b @ bs"
    "shape b' = shape b" "room b' = room b - length bs"
proof -
  let ?w = "b_write b"
  let ?m = "take ?w (b_mem b) @ bs @ drop (?w + length bs) (b_mem b)"
  let ?b1 = "b\<lparr>b_mem := ?m\<rparr>"
  have in_mem: "?w + length bs \<le> length (b_mem b)"
    using ok fit by (auto simp: buffer_dims)
  then have poke: "buffer_poke b ?w bs = Inr ?b1"
    by (simp add: buffer_poke_def array_simps)
  have adv: "buffer_write_adv ?b1 n = Inr (?b1\<lparr>b_write := ?w + length bs\<rparr>)"
    using ok fit n by (auto simp: buffer_write_adv_def Let_def buffer_dims)
  show ?thesis
    by (rule that [OF poke adv])
      (use ok fit in_mem in \<open>auto simp: buffer_dims pending_def buffer_dims drop_take\<close>)
qed

lemma buffer_write_ok:
  assumes ok: "buffer_ok b" and fit: "0 < room b"
  obtains b' where "buffer_write b c = Inr b'" "buffer_ok b'" "pending b' = pending b @ [c]"
    "shape b' = shape b" "room b' = room b - 1"
proof -
  obtain b1 b' where b': "buffer_poke b (b_write b) [c] = Inr b1"
      "buffer_write_adv b1 1 = Inr b'" "buffer_ok b'" "pending b' = pending b @ [c]"
      "shape b' = shape b" "room b' = room b - length [c]"
    by (rule buffer_poke_adv_ok [OF ok, of "[c]" 1]) (use fit in auto)
  have "b_write b < length (b_mem b)"
    using ok fit by (auto simp: buffer_dims)
  then have "b_mem b1 = (b_mem b)[b_write b := c]" "b1 = b\<lparr>b_mem := b_mem b1\<rparr>"
    using b'(1) by (auto simp: buffer_poke_def array_simps upd_conv_take_nth_drop)
  moreover have "0 < announced b"
    using fit room_le_announced [of b] by simp
  ultimately have "buffer_write b c = Inr b'"
    using b'(2) \<open>b_write b < length (b_mem b)\<close> ok fit
    by (simp add: buffer_write_def can_write_iff array_simps)
  then show ?thesis
    by (rule that) (use b' in auto)
qed

lemma buffer_write_full: "announced b = 0 \<Longrightarrow> buffer_write b c = Inr b"
  by (simp add: buffer_write_def can_write_iff)

section \<open>The interface: a first-in first-out store of bytes\<close>

text \<open>
  What the parsers and the socket handlers rely on. \<open>byte_source\<close> is the reading half,
  \<open>byte_fifo\<close> adds writing; both speak of the bytes held only.
\<close>

fun drain :: "('b \<Rightarrow> (u8 \<times> 'b) result) \<Rightarrow> nat \<Rightarrow> 'b \<Rightarrow> (u8 list \<times> 'b) result" where
  "drain get 0 b = Inr ([], b)"
| "drain get (Suc n) b =
     bind_res (get b) (\<lambda>(x, b). bind_res (drain get n b) (\<lambda>(xs, b). Inr (x # xs, b)))"

fun put_all :: "('b \<Rightarrow> u8 \<Rightarrow> 'b result) \<Rightarrow> u8 list \<Rightarrow> 'b \<Rightarrow> 'b result" where
  "put_all put [] b = Inr b"
| "put_all put (x # xs) b = bind_res (put b x) (put_all put xs)"

locale byte_source =
  fixes ok :: "'b \<Rightarrow> bool"
    and held :: "'b \<Rightarrow> u8 list"
    and can_get :: "'b \<Rightarrow> bool"
    and get :: "'b \<Rightarrow> (u8 \<times> 'b) result"
  assumes can_get_iff: "ok b \<Longrightarrow> can_get b \<longleftrightarrow> held b \<noteq> []"
    and get_head: "ok b \<Longrightarrow> held b = x # xs \<Longrightarrow> \<exists>b'. get b = Inr (x, b') \<and> ok b' \<and> held b' = xs"
begin

lemma drain_held:
  "ok b \<Longrightarrow> n \<le> length (held b) \<Longrightarrow>
   \<exists>b'. drain get n b = Inr (take n (held b), b') \<and> ok b' \<and> held b' = drop n (held b)"
proof (induction n arbitrary: b)
  case (Suc n)
  then obtain x xs where h: "held b = x # xs"
    by (cases "held b") auto
  with get_head Suc.prems obtain b1 where b1: "get b = Inr (x, b1)" "ok b1" "held b1 = xs"
    by blast
  with Suc.IH [of b1] Suc.prems h show ?case
    by fastforce
qed simp

end

locale byte_fifo = byte_source +
  fixes space :: "'b \<Rightarrow> nat"
    and put :: "'b \<Rightarrow> u8 \<Rightarrow> 'b result"
  assumes put_tail: "ok b \<Longrightarrow> 0 < space b \<Longrightarrow>
      \<exists>b'. put b x = Inr b' \<and> ok b' \<and> held b' = held b @ [x] \<and> space b' = space b - 1"
begin

lemma put_all_held:
  "ok b \<Longrightarrow> length xs \<le> space b \<Longrightarrow>
   \<exists>b'. put_all put xs b = Inr b' \<and> ok b' \<and> held b' = held b @ xs"
proof (induction xs arbitrary: b)
  case (Cons x xs)
  then obtain b1 where "put b x = Inr b1" "ok b1" "held b1 = held b @ [x]"
      "space b1 = space b - 1"
    using put_tail [of b x] by auto
  with Cons.IH [of b1] Cons.prems show ?case
    by auto
qed simp

lemma put_then_drain:
  assumes "ok b" and "held b = []" and "length xs \<le> space b"
  shows "\<exists>b1 b2. put_all put xs b = Inr b1 \<and> drain get (length xs) b1 = Inr (xs, b2) \<and>
    ok b2 \<and> held b2 = []"
proof -
  obtain b1 where "put_all put xs b = Inr b1" "ok b1" "held b1 = xs"
    using put_all_held [of b xs] assms by auto
  with drain_held [of b1 "length xs"] show ?thesis
    by auto
qed

end

interpretation bq: byte_fifo buffer_ok pending buffer_can_read buffer_read room buffer_write
proof unfold_locales
  fix b x xs assume "buffer_ok b" "pending b = x # xs"
  then show "\<exists>b'. buffer_read b = Inr (x, b') \<and> buffer_ok b' \<and> pending b' = xs"
    by (blast elim: buffer_read_ok)
next
  fix b x assume "buffer_ok b" "0 < room b"
  then show "\<exists>b'. buffer_write b x = Inr b' \<and> buffer_ok b' \<and> pending b' = pending b @ [x] \<and>
      room b' = room b - 1"
    by (blast elim: buffer_write_ok)
qed (rule can_read_iff)

section \<open>The buffer refines a bounded queue\<close>

text \<open>
  The abstract specification: a list of bytes with a count of the bytes that can still be
  appended. Reading does not give space back until the queue is empty or compacted.
  \<open>None\<close> marks a call that breaks the caller's side of the contract.
\<close>

record byte_queue =
  q_bytes :: "u8 list"
  q_free :: nat
  q_cap :: nat

datatype buffer_op =
    PutByte u8
  | GetByte
  | Fill "u8 list"
  | Discard nat
  | Compact
  | Reset

fun queue_step :: "buffer_op \<Rightarrow> byte_queue \<Rightarrow> (u8 list \<times> byte_queue) option" where
  "queue_step (PutByte c) q =
     (if 0 < q_free q then Some ([], q\<lparr>q_bytes := q_bytes q @ [c], q_free := q_free q - 1\<rparr>)
      else Some ([], q))"
| "queue_step GetByte q =
     (case q_bytes q of
        [] \<Rightarrow> Some ([], q)
      | x # xs \<Rightarrow> Some ([x], q\<lparr>q_bytes := xs, q_free := (if xs = [] then q_cap q else q_free q)\<rparr>))"
| "queue_step (Fill bs) q =
     (if length bs \<le> q_free q
      then Some ([], q\<lparr>q_bytes := q_bytes q @ bs, q_free := q_free q - length bs\<rparr>) else None)"
| "queue_step (Discard n) q =
     (if n \<le> length (q_bytes q)
      then Some ([], q\<lparr>q_bytes := drop n (q_bytes q),
             q_free := (if n = length (q_bytes q) then q_cap q else q_free q)\<rparr>) else None)"
| "queue_step Compact q = Some ([], q\<lparr>q_free := q_cap q - length (q_bytes q)\<rparr>)"
| "queue_step Reset q = Some ([], q\<lparr>q_bytes := [], q_free := q_cap q\<rparr>)"

fun queue_run :: "buffer_op list \<Rightarrow> byte_queue \<Rightarrow> (u8 list \<times> byte_queue) option" where
  "queue_run [] q = Some ([], q)"
| "queue_run (x # xs) q =
     (case queue_step x q of None \<Rightarrow> None | Some (out, q') \<Rightarrow>
      (case queue_run xs q' of None \<Rightarrow> None | Some (outs, q'') \<Rightarrow> Some (out @ outs, q'')))"

text \<open>The same operations on the buffer of the code; \<open>GetByte\<close> tests before it reads.\<close>

fun buffer_step :: "buffer_op \<Rightarrow> buffer \<Rightarrow> (u8 list \<times> buffer) result" where
  "buffer_step (PutByte c) b = bind_res (buffer_write b c) (\<lambda>b. Inr ([], b))"
| "buffer_step GetByte b =
     (if buffer_can_read b then bind_res (buffer_read b) (\<lambda>(x, b). Inr ([x], b)) else Inr ([], b))"
| "buffer_step (Fill bs) b =
     bind_res (buffer_write_ptr b) (\<lambda>(ptr, n).
     bind_res (buffer_poke b ptr bs) (\<lambda>b.
     bind_res (buffer_write_adv b (int (length bs))) (\<lambda>b. Inr ([], b))))"
| "buffer_step (Discard n) b = bind_res (buffer_read_adv b (int n)) (\<lambda>b. Inr ([], b))"
| "buffer_step Compact b = bind_res (buffer_compact b) (\<lambda>b. Inr ([], b))"
| "buffer_step Reset b = Inr ([], buffer_reset b)"

fun buffer_run :: "buffer_op list \<Rightarrow> buffer \<Rightarrow> (u8 list \<times> buffer) result" where
  "buffer_run [] b = Inr ([], b)"
| "buffer_run (x # xs) b =
     bind_res (buffer_step x b) (\<lambda>(out, b).
     bind_res (buffer_run xs b) (\<lambda>(outs, b). Inr (out @ outs, b)))"

definition abs_queue :: "buffer \<Rightarrow> byte_queue" where
  "abs_queue b = \<lparr>q_bytes = pending b, q_free = room b, q_cap = capacity b\<rparr>"

lemma abs_queue_eqI:
  "pending b = xs \<Longrightarrow> room b = n \<Longrightarrow> capacity b = c \<Longrightarrow>
   abs_queue b = \<lparr>q_bytes = xs, q_free = n, q_cap = c\<rparr>"
  by (simp add: abs_queue_def)

lemma buffer_step_refines:
  assumes ok: "buffer_ok b" and wh: "whole b"
    and step: "queue_step x (abs_queue b) = Some (out, q)"
  shows "\<exists>b'. buffer_step x b = Inr (out, b') \<and> buffer_ok b' \<and> whole b' \<and> abs_queue b' = q"
proof (cases x)
  case (PutByte c)
  show ?thesis
  proof (cases "0 < room b")
    case True
    with ok obtain b' where b': "buffer_write b c = Inr b'" "buffer_ok b'"
        "pending b' = pending b @ [c]" "shape b' = shape b" "room b' = room b - 1"
      by (rule buffer_write_ok)
    with PutByte step True wh shape_eqD [OF b'(4)] show ?thesis
      by (auto simp: abs_queue_def)
  next
    case False
    with PutByte step ok wh show ?thesis
      by (auto simp: abs_queue_def buffer_write_full room_whole)
  qed
next
  case GetByte
  show ?thesis
  proof (cases "pending b")
    case Nil
    with GetByte step ok wh show ?thesis
      by (auto simp: abs_queue_def can_read_iff)
  next
    case (Cons y ys)
    with ok obtain b' where b': "buffer_read b = Inr (y, b')" "buffer_ok b'" "pending b' = ys"
        "shape b' = shape b" "room b' = (if ys = [] then capacity b else room b)"
      by (rule buffer_read_ok)
    with GetByte step ok Cons wh shape_eqD [OF b'(4)] show ?thesis
      by (auto simp: abs_queue_def can_read_iff)
  qed
next
  case (Fill bs)
  with step have "length bs \<le> room b"
    by (auto simp: abs_queue_def split: if_splits)
  with ok obtain b1 b' where b': "buffer_poke b (b_write b) bs = Inr b1"
      "buffer_write_adv b1 (int (length bs)) = Inr b'" "buffer_ok b'"
      "pending b' = pending b @ bs" "shape b' = shape b" "room b' = room b - length bs"
    by (rule buffer_poke_adv_ok) simp
  with Fill step ok \<open>length bs \<le> room b\<close> wh shape_eqD [OF b'(5)] show ?thesis
    by (auto simp: abs_queue_def buffer_write_ptr_ok)
next
  case (Discard n)
  with step have "n \<le> length (pending b)"
    by (auto simp: abs_queue_def split: if_splits)
  with ok obtain b' where b': "buffer_read_adv b (int n) = Inr b'" "buffer_ok b'"
      "pending b' = drop n (pending b)" "shape b' = shape b"
      "room b' = (if n = length (pending b) then capacity b else room b)"
    by (rule buffer_read_adv_ok)
  with Discard step wh shape_eqD [OF b'(4)] \<open>n \<le> length (pending b)\<close> show ?thesis
    by (auto simp: abs_queue_def)
next
  case Compact
  obtain b' where b': "buffer_compact b = Inr b'" "buffer_ok b'" "pending b' = pending b"
      "shape b' = shape b" "room b' = capacity b - length (pending b)"
    using ok by (rule buffer_compact_ok)
  with Compact step wh shape_eqD [OF b'(4)] show ?thesis
    by (auto simp: abs_queue_def)
next
  case Reset
  with step ok wh shape_eqD [OF buffer_reset_ok(4)] show ?thesis
    by (auto simp: abs_queue_def buffer_reset_ok)
qed

text \<open>C13. Any sequence of calls on a well-formed buffer that respects the callers' contract
  (never announce more bytes than there is space for, never discard more than is pending)
  returns, keeps the invariant \<open>R <= W <= limit\<close>, and yields exactly the bytes and the final
  contents of the bounded queue it implements.\<close>

theorem buffer_run_refines:
  assumes "buffer_ok b" and "whole b" and "queue_run ops (abs_queue b) = Some (out, q)"
  shows "\<exists>b'. buffer_run ops b = Inr (out, b') \<and> buffer_ok b' \<and> abs_queue b' = q"
  using assms
proof (induction ops arbitrary: b out q)
  case (Cons x xs)
  then obtain o1 q1 o2 where q1: "queue_step x (abs_queue b) = Some (o1, q1)"
      "queue_run xs q1 = Some (o2, q)" "out = o1 @ o2"
    by (auto split: option.splits)
  from buffer_step_refines [OF Cons.prems(1,2) q1(1)] obtain b1 where
    b1: "buffer_step x b = Inr (o1, b1)" "buffer_ok b1" "whole b1" "abs_queue b1 = q1"
    by blast
  with Cons.IH [OF b1(2,3), of o2 q] q1 show ?case
    by auto
qed auto

theorem buffer_run_refines_witness:
  "\<exists>b'. buffer_run [Fill [1, 2, 3], GetByte, PutByte 4, Discard 2, GetByte, Reset]
      (buffer_init 4 [9, 9, 9, 9]) = Inr ([1, 4], b') \<and> buffer_ok b' \<and>
    abs_queue b' = \<lparr>q_bytes = [], q_free = 4, q_cap = 4\<rparr>"
  by (rule buffer_run_refines)
    (simp_all add: buffer_init_def buffer_dims abs_queue_def pending_def buffer_dims)

end
