(* ===== verification/ParserLoop.thy ===== *)
theory ParserLoop
  imports Buffer
begin

text \<open>
  What the ten byte-at-a-time parsers of \<^verbatim>\<open>src/parsers\<close> have in common. Each has a
  \<open>feed\<close> that takes one byte, an \<open>is_done\<close> test that also raises the caller's error flag,
  and a \<open>consume\<close> loop that feeds the pending bytes of a buffer until the test succeeds.
  The loop is the same text in every file, so it is one function here, with the
  parser's operations as arguments; each parser theory instantiates it.

  The locale \<open>byte_parser\<close> is the interface the loop relies on, \<open>counted_field\<close> the interface
  of a parser state that collects a field whose length was announced before.
\<close>

section \<open>The consume loop\<close>

lemma buffer_read_shrinks:
  "buffer_can_read b \<Longrightarrow> buffer_read b = Inr (c, b') \<Longrightarrow>
   b_write b' - b_read b' < b_write b - b_read b"
  by (auto simp: buffer_can_read_def buffer_read_def buffer_read_adv_def buffer_compact_def
      Let_def load_at_def bind_res_Inr_iff split: if_splits)

text \<open>
  \<open>st\<close> reads the parser's state, \<open>done\<close> is the \<open>is_done\<close> function: from a state and the error
  flag (\<open>None\<close> for a null pointer) to the answer and the flag.
\<close>

function consume_loop ::
  "('p \<Rightarrow> u8 \<Rightarrow> 'p result) \<Rightarrow> ('p \<Rightarrow> 's) \<Rightarrow> ('s \<Rightarrow> bool option \<Rightarrow> bool \<times> bool option) \<Rightarrow>
   's \<Rightarrow> buffer \<Rightarrow> 'p \<Rightarrow> bool option \<Rightarrow> ('s \<times> buffer \<times> 'p \<times> bool option) result" where
  "consume_loop feed st done state b p errored =
     (if buffer_can_read b then
        (case buffer_read b of
           Inl e \<Rightarrow> Inl e
         | Inr (c, b) \<Rightarrow>
             (case feed p c of
                Inl e \<Rightarrow> Inl e
              | Inr p \<Rightarrow>
                  let state = st p; (fin, errored) = done state errored in
                  if fin then Inr (state, b, p, errored)
                  else consume_loop feed st done state b p errored))
      else Inr (state, b, p, errored))"
  by pat_completeness auto

termination
  by (relation "measure (\<lambda>(_, _, _, _, b, _, _). b_write b - b_read b)")
    (auto simp: buffer_read_shrinks)

declare consume_loop.simps [simp del]

section \<open>Feeding a list of bytes\<close>

fun feed_list :: "('p \<Rightarrow> u8 \<Rightarrow> 'p result) \<Rightarrow> 'p \<Rightarrow> u8 list \<Rightarrow> 'p result" where
  "feed_list feed p [] = Inr p"
| "feed_list feed p (c # cs) = bind_res (feed p c) (\<lambda>p. feed_list feed p cs)"

lemma feed_list_append [simp]:
  "feed_list feed p (xs @ ys) = bind_res (feed_list feed p xs) (\<lambda>p. feed_list feed p ys)"
proof (induction xs arbitrary: p)
  case (Cons c cs)
  then show ?case by (cases "feed p c") auto
qed simp

text \<open>
  The specification of the loop on lists: the parser that results and the bytes that were
  not looked at.
\<close>

fun parse_run :: "('p \<Rightarrow> u8 \<Rightarrow> 'p result) \<Rightarrow> ('p \<Rightarrow> bool) \<Rightarrow> 'p \<Rightarrow> u8 list \<Rightarrow> ('p \<times> u8 list) result"
  where
  "parse_run feed fin p [] = Inr (p, [])"
| "parse_run feed fin p (c # cs) =
     bind_res (feed p c) (\<lambda>p. if fin p then Inr (p, cs) else parse_run feed fin p cs)"

text \<open>The bytes arrive in segments, as successive reads of the socket deliver them.\<close>

fun parse_segments ::
  "('p \<Rightarrow> u8 \<Rightarrow> 'p result) \<Rightarrow> ('p \<Rightarrow> bool) \<Rightarrow> 'p \<Rightarrow> u8 list list \<Rightarrow> ('p \<times> u8 list) result" where
  "parse_segments feed fin p [] = Inr (p, [])"
| "parse_segments feed fin p (s # ss) =
     bind_res (parse_run feed fin p s) (\<lambda>(p, rest).
       if fin p then Inr (p, rest @ concat ss) else parse_segments feed fin p ss)"

lemma parse_run_append:
  "parse_run feed fin p (xs @ ys) =
   (if xs = [] then parse_run feed fin p ys
    else bind_res (parse_run feed fin p xs) (\<lambda>(q, rest).
      if fin q then Inr (q, rest @ ys) else parse_run feed fin q ys))"
proof (induction xs arbitrary: p)
  case (Cons c cs)
  show ?case
  proof (cases "feed p c")
    case (Inr p1)
    then show ?thesis
      using Cons.IH [of p1] by (cases "cs = []") simp_all
  qed simp
qed simp

lemma parse_run_unfinished:
  "parse_run feed fin p xs = Inr (q, rest) \<Longrightarrow> \<not> fin q \<Longrightarrow> rest = [] \<and> feed_list feed p xs = Inr q"
proof (induction xs arbitrary: p)
  case (Cons c cs)
  then show ?case
    by (auto simp: bind_res_Inr_iff split: if_splits)
qed simp

text \<open>
  Feeding exactly a message whose last byte finishes the parser: the loop stops there and
  leaves what follows.
\<close>

fun quiet :: "('p \<Rightarrow> u8 \<Rightarrow> 'p result) \<Rightarrow> ('p \<Rightarrow> bool) \<Rightarrow> 'p \<Rightarrow> u8 list \<Rightarrow> bool" where
  "quiet feed fin p [] = True"
| "quiet feed fin p (c # cs) =
     (case feed p c of Inl _ \<Rightarrow> False | Inr p \<Rightarrow> \<not> fin p \<and> quiet feed fin p cs)"

lemma parse_run_quiet:
  "quiet feed fin p xs \<Longrightarrow>
   parse_run feed fin p (xs @ ys) = bind_res (feed_list feed p xs) (\<lambda>p. parse_run feed fin p ys)"
proof (induction xs arbitrary: p)
  case (Cons c cs)
  then show ?case by (cases "feed p c") auto
qed simp

text \<open>
  The same with the buffer in between, as the handlers of the server do it: a segment is received
  at the write pointer of the buffer, the loop runs, and the next segment is waited for unless
  the parser is done.
\<close>

fun consume_segments ::
  "('p \<Rightarrow> u8 \<Rightarrow> 'p result) \<Rightarrow> ('p \<Rightarrow> 's) \<Rightarrow> ('s \<Rightarrow> bool option \<Rightarrow> bool \<times> bool option) \<Rightarrow>
   buffer \<Rightarrow> 'p \<Rightarrow> bool option \<Rightarrow> u8 list list \<Rightarrow> ('s \<times> buffer \<times> 'p \<times> bool option) result" where
  "consume_segments feed st done b p e [] = Inr (st p, b, p, e)"
| "consume_segments feed st done b p e (s # ss) =
     bind_res (buffer_poke b (b_write b) s) (\<lambda>b.
     bind_res (buffer_write_adv b (int (length s))) (\<lambda>b.
     bind_res (consume_loop feed st done (st p) b p e) (\<lambda>(state, b, p, e).
     if fst (done state e) then Inr (state, b, p, e)
     else consume_segments feed st done b p e ss)))"

section \<open>The interface of a parser\<close>

text \<open>
  \<open>final\<close> and \<open>failed\<close> classify the states: \<open>is_done\<close> answers whether the state is final and
  raises the flag exactly in the failed ones. A final state stays where it is when it is fed.
\<close>

locale byte_parser =
  fixes feed :: "'p \<Rightarrow> u8 \<Rightarrow> 'p result"
    and st :: "'p \<Rightarrow> 's"
    and is_done :: "'s \<Rightarrow> bool option \<Rightarrow> bool \<times> bool option"
    and final :: "'s \<Rightarrow> bool"
    and failed :: "'s \<Rightarrow> bool"
  assumes done_iff: "is_done s e = (final s, if failed s then map_option (\<lambda>_. True) e else e)"
    and failed_final: "failed s \<Longrightarrow> final s"
    and final_stays: "final (st p) \<Longrightarrow> \<exists>p'. feed p c = Inr p' \<and> st p' = st p"
begin

lemma consume_refines:
  assumes "buffer_ok b"
    and "parse_run feed (\<lambda>p. final (st p)) p (pending b) = Inr (q, rest)"
  shows "\<exists>b'. consume_loop feed st is_done (st p) b p e =
      Inr (st q, b', q,
        if pending b \<noteq> [] \<and> failed (st q) then map_option (\<lambda>_. True) e else e) \<and>
    buffer_ok b' \<and> pending b' = rest \<and> shape b' = shape b"
  using assms
proof (induction "pending b" arbitrary: b p)
  case Nil
  then show ?case
    by (auto simp: consume_loop.simps [of _ _ _ _ b] can_read_iff)
next
  case (Cons c cs)
  obtain b1 where b1: "buffer_read b = Inr (c, b1)" "buffer_ok b1" "pending b1 = cs"
      "shape b1 = shape b"
    using buffer_read_ok [OF Cons.prems(1) Cons.hyps(2) [symmetric]] by metis
  have "parse_run feed (\<lambda>p. final (st p)) p (c # cs) = Inr (q, rest)"
    using Cons.prems(2) Cons.hyps(2) by simp
  then obtain p1 where p1: "feed p c = Inr p1"
      "(if final (st p1) then Inr (p1, cs)
        else parse_run feed (\<lambda>p. final (st p)) p1 cs) = Inr (q, rest)"
    by (cases "feed p c") simp_all
  show ?case
  proof (cases "final (st p1)")
    case True
    with Cons.prems Cons.hyps(2) [symmetric] b1 p1 show ?thesis
      by (auto simp: consume_loop.simps [of _ _ _ _ b] can_read_iff done_iff)
  next
    case False
    with p1 have run: "parse_run feed (\<lambda>p. final (st p)) p1 (pending b1) = Inr (q, rest)"
      using b1 by simp
    have nofail: "\<not> failed (st p1)"
      using False failed_final by blast
    obtain b' where b': "consume_loop feed st is_done (st p1) b1 p1 e =
        Inr (st q, b', q, if pending b1 \<noteq> [] \<and> failed (st q) then map_option (\<lambda>_. True) e else e)"
        "buffer_ok b'" "pending b' = rest" "shape b' = shape b1"
      using Cons.hyps(1) [OF b1(3) [symmetric] b1(2) run] by auto
    have "pending b1 = [] \<Longrightarrow> q = p1"
      using run by simp
    then have "(if pending b1 \<noteq> [] \<and> failed (st q) then map_option (\<lambda>_. True) e else e) =
        (if failed (st q) then map_option (\<lambda>_. True) e else e)"
      using nofail by auto
    with b' b1 p1 False nofail Cons.prems Cons.hyps(2) [symmetric] show ?thesis
      by (auto simp: consume_loop.simps [of _ _ _ _ b] can_read_iff done_iff)
  qed
qed

lemma consume_fault:
  assumes "buffer_ok b"
    and "parse_run feed (\<lambda>p. final (st p)) p (pending b) = Inl f"
  shows "consume_loop feed st is_done (st p) b p e = Inl f"
  using assms
proof (induction "pending b" arbitrary: b p)
  case (Cons c cs)
  obtain b1 where b1: "buffer_read b = Inr (c, b1)" "buffer_ok b1" "pending b1 = cs"
    using buffer_read_ok [OF Cons.prems(1) Cons.hyps(2) [symmetric]] by metis
  note simps = consume_loop.simps [of _ _ _ _ b] can_read_iff [OF Cons.prems(1)] b1 done_iff
  show ?case
  proof (cases "feed p c")
    case (Inl g)
    with Cons.prems Cons.hyps(2) [symmetric] show ?thesis
      by (simp add: simps)
  next
    case (Inr p1)
    with Cons.prems Cons.hyps(2) [symmetric] have nf: "\<not> final (st p1)"
      and run: "parse_run feed (\<lambda>p. final (st p)) p1 (pending b1) = Inl f"
      by (auto simp: b1 split: if_splits)
    have "\<not> failed (st p1)"
      using nf failed_final by blast
    then show ?thesis
      using Cons.hyps(1) [OF b1(3) [symmetric] b1(2) run] Inr nf Cons.hyps(2) [symmetric]
      by (simp add: simps)
  qed
qed simp

lemma final_feed_list: "final (st p) \<Longrightarrow> \<exists>p'. feed_list feed p xs = Inr p' \<and> st p' = st p"
proof (induction xs arbitrary: p)
  case (Cons c cs)
  obtain p1 where p1: "feed p c = Inr p1" "st p1 = st p"
    using final_stays [OF Cons.prems] by blast
  then show ?case
    using Cons.IH [of p1] Cons.prems by auto
qed simp

text \<open>A parser that is not final after \<open>xs\<close> was not final before: the loop gets past \<open>xs\<close>.\<close>

lemma run_past:
  "feed_list feed p xs = Inr q \<Longrightarrow> \<not> final (st q) \<Longrightarrow>
   parse_run feed (\<lambda>p. final (st p)) p (xs @ ys) = parse_run feed (\<lambda>p. final (st p)) q ys"
proof (induction xs arbitrary: p)
  case (Cons c cs)
  then obtain p1 where p1: "feed p c = Inr p1" "feed_list feed p1 cs = Inr q"
    by (auto simp: bind_res_Inr_iff)
  have "\<not> final (st p1)"
  proof
    assume "final (st p1)"
    then obtain p' where "feed_list feed p1 cs = Inr p'" "st p' = st p1"
      using final_feed_list by blast
    then show False
      using p1 \<open>final (st p1)\<close> Cons.prems(2) by simp
  qed
  with p1 Cons.IH Cons.prems(2) show ?case
    by simp
qed simp

lemma run_partial:
  assumes "feed_list feed p xs = Inr q" and "\<not> final (st q)"
  shows "parse_run feed (\<lambda>p. final (st p)) p xs = Inr (q, [])"
  using run_past [OF assms, of "[]"] by simp

lemma butlast_snoc_cases:
  assumes "xs \<noteq> []"
  obtains ys y where "xs = ys @ [y]" "butlast xs = ys"
  using assms by (cases xs rule: rev_cases) auto

lemma run_message:
  assumes q: "feed_list feed p xs = Inr q" "final (st q)" and ne: "xs \<noteq> []"
    and before: "feed_list feed p (butlast xs) = Inr p1" "\<not> final (st p1)"
  shows "parse_run feed (\<lambda>p. final (st p)) p (xs @ rest) = Inr (q, rest)"
proof -
  obtain ys y where ys: "xs = ys @ [y]" "butlast xs = ys"
    using ne by (rule butlast_snoc_cases)
  with q before have "feed p1 y = Inr q"
    by (auto simp: bind_res_Inr_iff)
  with run_past [OF before, of "y # rest"] ys q(2) show ?thesis
    by simp
qed

lemma run_message_fault:
  assumes q: "feed_list feed p xs = Inl f" and ne: "xs \<noteq> []"
    and before: "feed_list feed p (butlast xs) = Inr p1" "\<not> final (st p1)"
  shows "parse_run feed (\<lambda>p. final (st p)) p (xs @ rest) = Inl f"
proof -
  obtain ys y where ys: "xs = ys @ [y]" "butlast xs = ys"
    using ne by (rule butlast_snoc_cases)
  with q before have "feed p1 y = Inl f"
    by (cases "feed p1 y") auto
  with run_past [OF before, of "y # rest"] ys show ?thesis
    by simp
qed

text \<open>How the bytes are split into segments does not matter.\<close>

lemma segments_eq:
  "\<not> final (st p) \<Longrightarrow>
   parse_segments feed (\<lambda>p. final (st p)) p ss = parse_run feed (\<lambda>p. final (st p)) p (concat ss)"
proof (induction ss arbitrary: p)
  case (Cons s ss)
  show ?case
  proof (cases "s = []")
    case True
    with Cons show ?thesis by simp
  next
    case False
    with Cons show ?thesis
      by (cases "parse_run feed (\<lambda>p. final (st p)) p s") (auto simp: parse_run_append)
  qed
qed simp

lemma consume_segments_refines:
  assumes "buffer_ok b" and "pending b = []" and "\<not> final (st p)"
    and "\<forall>s\<in>set ss. length s \<le> capacity b"
    and "parse_run feed (\<lambda>p. final (st p)) p (concat ss) = Inr (q, rest)" and "final (st q)"
  shows "\<exists>b' k. consume_segments feed st is_done b p e ss =
      Inr (st q, b', q, if failed (st q) then map_option (\<lambda>_. True) e else e) \<and>
    buffer_ok b' \<and> shape b' = shape b \<and> pending b' @ concat (drop k ss) = rest"
proof -
  have seg: "parse_segments feed (\<lambda>p. final (st p)) p ss = Inr (q, rest)"
    using segments_eq [OF assms(3)] assms(5) by simp
  have fin: "fst (is_done s e) = final s" for s e
    by (simp add: done_iff)
  show ?thesis
    using seg assms(1-4)
  proof (induction ss arbitrary: b p)
    case Nil
    with assms(6) show ?case by simp
  next
    case (Cons s ss)
    have fit: "length s \<le> room b"
      using Cons.prems(2,3,5) pending_empty_iff [of b] by (auto simp: buffer_dims)
    obtain b1 b2 where b2: "buffer_poke b (b_write b) s = Inr b1"
        "buffer_write_adv b1 (int (length s)) = Inr b2" "buffer_ok b2" "pending b2 = s"
        "shape b2 = shape b"
      using buffer_poke_adv_ok [OF Cons.prems(2) fit refl] Cons.prems(3) by (metis append_Nil)
    obtain p1 r1 where p1: "parse_run feed (\<lambda>p. final (st p)) p s = Inr (p1, r1)"
        "(if final (st p1) then Inr (p1, r1 @ concat ss)
          else parse_segments feed (\<lambda>p. final (st p)) p1 ss) = Inr (q, rest)"
      using Cons.prems(1) by (auto simp: bind_res_Inr_iff split: prod.splits)
    let ?e = "if s \<noteq> [] \<and> failed (st p1) then map_option (\<lambda>_. True) e else e"
    obtain b3 where b3: "consume_loop feed st is_done (st p) b2 p e = Inr (st p1, b3, p1, ?e)"
        "buffer_ok b3" "pending b3 = r1" "shape b3 = shape b"
      using consume_refines [OF b2(3), of p p1 r1 e] p1(1) b2(4,5) by auto
    show ?case
    proof (cases "final (st p1)")
      case True
      then have "s \<noteq> []"
        using p1(1) Cons.prems(4) by auto
      with True b2 b3 p1(2) show ?thesis
        by (intro exI [of _ b3] exI [of _ 1]) (auto simp: fin)
    next
      case False
      then have e: "?e = e"
        using failed_final by auto
      have "pending b3 = []"
        using parse_run_unfinished [OF p1(1)] False b3(3) by simp
      then obtain b' k where b': "consume_segments feed st is_done b3 p1 e ss =
            Inr (st q, b', q, if failed (st q) then map_option (\<lambda>_. True) e else e)"
          "buffer_ok b'" "shape b' = shape b3" "pending b' @ concat (drop k ss) = rest"
        using Cons.IH [OF _ b3(2) _ False] Cons.prems(5) p1(2) False shape_eqD [OF b3(4)] b3(4)
        by auto
      with b2 b3 False e show ?thesis
        by (intro exI [of _ b'] exI [of _ "Suc k"]) (auto simp: fin)
    qed
  qed
qed

end

section \<open>Fields with an announced length\<close>

text \<open>
  Eight states of six parsers collect \<open>n\<close> bytes into an array of 255 and write a zero byte after
  the last one. \<open>at c n r a\<close> is the parser in such a state: \<open>c\<close> the rest of its record, \<open>n\<close> the
  announced length, \<open>r\<close> the bytes stored so far, \<open>a\<close> the array; \<open>fin\<close> is the parser it becomes.
\<close>

locale counted_field =
  fixes feed :: "'p \<Rightarrow> u8 \<Rightarrow> 'p result"
    and at :: "'c \<Rightarrow> nat \<Rightarrow> nat \<Rightarrow> u8 list \<Rightarrow> 'p"
    and fin :: "'c \<Rightarrow> nat \<Rightarrow> u8 list \<Rightarrow> 'p"
  assumes more: "Suc r < n \<Longrightarrow> n < 256 \<Longrightarrow> length a = 255 \<Longrightarrow>
      feed (at c n r a) x = Inr (at c n (Suc r) (a[r := x]))"
    and last: "Suc r = n \<Longrightarrow> n < 255 \<Longrightarrow> length a = 255 \<Longrightarrow>
      feed (at c n r a) x = Inr (fin c n (a[r := x, n := 0]))"
    and last_out: "Suc r = n \<Longrightarrow> n = 255 \<Longrightarrow> length a = 255 \<Longrightarrow>
      feed (at c n r a) x = Inl OutOfBounds"
begin

lemma feed_some:
  "r + length xs < n \<Longrightarrow> n < 256 \<Longrightarrow> length a = 255 \<Longrightarrow>
   feed_list feed (at c n r a) xs =
     Inr (at c n (r + length xs) (take r a @ xs @ drop (r + length xs) a))"
proof (induction xs arbitrary: r a)
  case (Cons x xs)
  then have "feed (at c n r a) x = Inr (at c n (Suc r) (a[r := x]))"
    by (intro more) auto
  with Cons show ?case
    by (simp add: take_Suc_conv_app_nth)
qed simp

lemma split_last:
  assumes "length xs = n" and "0 < n"
  obtains ys y where "xs = ys @ [y]" "Suc (length ys) = n"
  using assms by (cases xs rule: rev_cases) auto

lemma feed_field:
  assumes len: "length xs = n" and n: "0 < n" "n < 255" and a: "length a = 255"
  shows "feed_list feed (at c n 0 a) xs = Inr (fin c n (xs @ 0 # drop (Suc n) a))"
proof -
  obtain ys y where ys: "xs = ys @ [y]" "Suc (length ys) = n"
    using split_last [OF len n(1)] by blast
  let ?a = "ys @ drop (length ys) a"
  have some: "feed_list feed (at c n 0 a) ys = Inr (at c n (length ys) ?a)"
    using feed_some [of 0 ys n a c] ys n a by simp
  have upd: "?a[length ys := y, n := 0] = xs @ 0 # drop (Suc n) a"
  proof -
    have d: "drop (length ys) a = a ! length ys # a ! n # drop (Suc n) a"
      using ys n a by (simp add: Cons_nth_drop_Suc flip: ys(2))
    show ?thesis
      using ys(1) by (simp add: d list_update_append flip: ys(2))
  qed
  have "feed (at c n (length ys) ?a) y = Inr (fin c n (?a[length ys := y, n := 0]))"
    using ys n a by (intro last) auto
  then show ?thesis
    using some ys upd by simp
qed

lemma feed_field_butlast:
  assumes len: "length xs = n" and n: "0 < n" "n < 256" and a: "length a = 255"
  shows "\<exists>a'. length a' = 255 \<and> feed_list feed (at c n 0 a) (butlast xs) = Inr (at c n (n - 1) a')"
  using feed_some [of 0 "butlast xs" n a c] assms
  by (intro exI [of _ "butlast xs @ drop (n - 1) a"]) auto

lemma feed_field_overflow:
  assumes len: "length xs = 255" and a: "length a = 255"
  shows "feed_list feed (at c 255 0 a) xs = Inl OutOfBounds"
proof -
  obtain ys y where ys: "xs = ys @ [y]" "Suc (length ys) = 255"
    using split_last [OF len] by auto
  then have "feed_list feed (at c 255 0 a) ys =
      Inr (at c 255 (length ys) (ys @ drop (length ys) a))"
    using feed_some [of 0 ys 255 a c] a by simp
  moreover have "feed (at c 255 (length ys) (ys @ drop (length ys) a)) y = Inl OutOfBounds"
    using ys a by (intro last_out) auto
  ultimately show ?thesis
    using ys by simp
qed

end

text \<open>
  Such a state inside a parser: it is not final, so the loop goes through the whole field; and
  the field that ends a message leaves the parser final, so the loop stops right behind it.
\<close>

locale parser_field =
  byte_parser feed st is_done final failed + counted_field feed at fin
  for feed :: "'p \<Rightarrow> u8 \<Rightarrow> 'p result" and st :: "'p \<Rightarrow> 's" and is_done final failed
    and at :: "'c \<Rightarrow> nat \<Rightarrow> nat \<Rightarrow> u8 list \<Rightarrow> 'p" and fin +
  assumes at_open: "\<not> final (st (at c n r a))"
begin

lemma run_field_overflow:
  assumes pre: "feed_list feed p pre = Inr (at c 255 0 a)" and a: "length a = 255"
    and xs: "length xs = 255"
  shows "parse_run feed (\<lambda>p. final (st p)) p (pre @ xs @ rest) = Inl OutOfBounds"
proof -
  obtain a' where "feed_list feed (at c 255 0 a) (butlast xs) = Inr (at c 255 254 a')"
    using feed_field_butlast [of xs 255 a c] a xs by auto
  then have "parse_run feed (\<lambda>p. final (st p)) (at c 255 0 a) (xs @ rest) = Inl OutOfBounds"
    by (intro run_message_fault [OF feed_field_overflow [OF xs a]]) (use xs at_open in auto)
  with run_past [OF pre at_open, of "xs @ rest"] show ?thesis
    by simp
qed

end

locale last_field = parser_field +
  assumes fin_final: "final (st (fin c n a))"
begin

lemma run_last_field:
  assumes pre: "feed_list feed p pre = Inr (at c n 0 a)" and a: "length a = 255"
    and xs: "length xs = n" "0 < n" "n < 255"
  shows "parse_run feed (\<lambda>p. final (st p)) p (pre @ xs @ rest) =
    Inr (fin c n (xs @ 0 # drop (Suc n) a), rest)"
proof -
  obtain a' where "feed_list feed (at c n 0 a) (butlast xs) = Inr (at c n (n - 1) a')"
    using feed_field_butlast [of xs n a c] a xs by auto
  then have "parse_run feed (\<lambda>p. final (st p)) (at c n 0 a) (xs @ rest) =
      Inr (fin c n (xs @ 0 # drop (Suc n) a), rest)"
    by (intro run_message [OF feed_field]) (use a xs at_open fin_final in auto)
  with run_past [OF pre at_open, of "xs @ rest"] show ?thesis
    by simp
qed

end

end
