(* ===== verification/HelloParser.thy ===== *)
theory HelloParser
  imports ParserLoop
begin

text \<open>
  The parser of the SOCKS5 greeting, \<^verbatim>\<open>src/parsers/hello.c\<close> and its header:
  version, number of methods, methods. The parser calls \<open>on_auth_method\<close> for each method,
  on data of its user; \<open>hp_data\<close> is the object that \<open>data\<close> points to.
\<close>

section \<open>State and operations\<close>

definition METHOD_NO_AUTH_REQUIRED :: u8 where "METHOD_NO_AUTH_REQUIRED = 0x00"
definition METHOD_AUTH_REQUIRED :: u8 where "METHOD_AUTH_REQUIRED = 0x02"
definition METHOD_NO_ACCEPTABLE_METHODS :: u8 where "METHOD_NO_ACCEPTABLE_METHODS = 0xFF"

lemmas hello_method_defs =
  METHOD_NO_AUTH_REQUIRED_def METHOD_AUTH_REQUIRED_def METHOD_NO_ACCEPTABLE_METHODS_def

datatype hello_state =
    hello_version
  | hello_nmethods
  | hello_methods
  | hello_done
  | hello_error_unsupported_version

record 'd hello_parser =
  hp_on_auth_method :: "('d \<Rightarrow> u8 \<Rightarrow> 'd) option"
  hp_data :: 'd
  hp_state :: hello_state
  hp_remaining :: u8

definition hello_parser_init :: "'d hello_parser \<Rightarrow> 'd hello_parser" where
  "hello_parser_init p = p\<lparr>hp_state := hello_version, hp_remaining := 0\<rparr>"

definition hello_parser_feed :: "'d hello_parser \<Rightarrow> u8 \<Rightarrow> 'd hello_parser result" where
  "hello_parser_feed p b = Inr
     (case hp_state p of
        hello_version \<Rightarrow>
          if b = 0x05 then p\<lparr>hp_state := hello_nmethods\<rparr>
          else p\<lparr>hp_state := hello_error_unsupported_version\<rparr>
      | hello_nmethods \<Rightarrow>
          let p = p\<lparr>hp_remaining := b\<rparr> in
          if b \<le> 0 then p\<lparr>hp_state := hello_done\<rparr> else p\<lparr>hp_state := hello_methods\<rparr>
      | hello_methods \<Rightarrow>
          let p = (case hp_on_auth_method p of
                     None \<Rightarrow> p | Some f \<Rightarrow> p\<lparr>hp_data := f (hp_data p) b\<rparr>);
              p = p\<lparr>hp_remaining := hp_remaining p - 1\<rparr> in
          if hp_remaining p \<le> 0 then p\<lparr>hp_state := hello_done\<rparr> else p
      | hello_done \<Rightarrow> p
      | hello_error_unsupported_version \<Rightarrow> p)"

text \<open>The answer and the object that \<open>errored\<close> points to, if it is not null.\<close>

definition hello_is_done :: "hello_state \<Rightarrow> bool option \<Rightarrow> bool \<times> bool option" where
  "hello_is_done state errored =
     (case state of
        hello_error_unsupported_version \<Rightarrow> (True, map_option (\<lambda>_. True) errored)
      | hello_done \<Rightarrow> (True, errored)
      | _ \<Rightarrow> (False, errored))"

definition hello_error :: "'d hello_parser \<Rightarrow> string" where
  "hello_error p =
     (case hp_state p of hello_error_unsupported_version \<Rightarrow> ''unsupported version'' | _ \<Rightarrow> '''')"

definition hello_consume ::
  "buffer \<Rightarrow> 'd hello_parser \<Rightarrow> bool option \<Rightarrow>
   (hello_state \<times> buffer \<times> 'd hello_parser \<times> bool option) result" where
  "hello_consume buff p errored =
     consume_loop hello_parser_feed hp_state hello_is_done (hp_state p) buff p errored"

definition hello_marshalll :: "buffer \<Rightarrow> u8 \<Rightarrow> (int \<times> buffer) result" where
  "hello_marshalll b meth =
     bind_res (buffer_write_ptr b) (\<lambda>(buff, n).
     if n < 2 then Inr (-1, b)
     else
       bind_res (buffer_poke b buff [0x05, meth]) (\<lambda>b.
       bind_res (buffer_write_adv b 2) (\<lambda>b. Inr (2, b))))"

section \<open>The parser meets the interface\<close>

definition hello_final :: "hello_state \<Rightarrow> bool" where
  "hello_final s \<longleftrightarrow> s = hello_done \<or> s = hello_error_unsupported_version"

definition hello_failed :: "hello_state \<Rightarrow> bool" where
  "hello_failed s \<longleftrightarrow> s = hello_error_unsupported_version"

interpretation hello: byte_parser hello_parser_feed hp_state hello_is_done hello_final hello_failed
proof unfold_locales
  fix s e
  show "hello_is_done s e = (hello_final s, if hello_failed s then map_option (\<lambda>_. True) e else e)"
    by (cases s) (auto simp: hello_is_done_def hello_final_def hello_failed_def)
next
  fix p :: "'a hello_parser" and c
  assume "hello_final (hp_state p)"
  then show "\<exists>p'. hello_parser_feed p c = Inr p' \<and> hp_state p' = hp_state p"
    by (auto simp: hello_final_def hello_parser_feed_def)
qed (simp add: hello_final_def hello_failed_def)

lemma hello_feed_returns: "returns (hello_parser_feed p b)"
  by (simp add: hello_parser_feed_def)

section \<open>What the parser accepts\<close>

lemma hello_feed_methods:
  assumes "hp_state p = hello_methods" and "hp_on_auth_method p = Some f"
    and "hp_remaining p = of_nat (length ms)" and "0 < length ms" and "length ms < 256"
  shows "parse_run hello_parser_feed (\<lambda>p. hello_final (hp_state p)) p (ms @ rest) =
    Inr (p\<lparr>hp_data := foldl f (hp_data p) ms, hp_state := hello_done, hp_remaining := 0\<rparr>, rest)"
  using assms
proof (induction ms arbitrary: p)
  case (Cons m ms)
  have dec: "hp_remaining p - 1 = of_nat (length ms)"
    using Cons.prems(3) by simp
  show ?case
  proof (cases "ms = []")
    case True
    with Cons.prems dec show ?thesis
      by (simp add: hello_parser_feed_def hello_final_def)
  next
    case False
    let ?p = "p\<lparr>hp_data := f (hp_data p) m, hp_remaining := of_nat (length ms)\<rparr>"
    have "of_nat (length ms) \<noteq> (0 :: u8)"
      using False Cons.prems(5) by (simp add: u8_simps)
    then have "hello_parser_feed p m = Inr ?p"
      using Cons.prems dec by (simp add: hello_parser_feed_def)
    then show ?thesis
      using Cons.IH [of ?p] Cons.prems False by (simp add: hello_final_def)
  qed
qed simp

lemma hello_run_greeting:
  assumes "hp_on_auth_method p = Some f" and "length ms < 256"
  shows "parse_run hello_parser_feed (\<lambda>p. hello_final (hp_state p)) (hello_parser_init p)
      (0x05 # of_nat (length ms) # ms @ rest) =
    Inr (p\<lparr>hp_data := foldl f (hp_data p) ms, hp_state := hello_done, hp_remaining := 0\<rparr>, rest)"
proof (cases "ms = []")
  case True
  with assms show ?thesis
    by (simp add: hello_parser_init_def hello_parser_feed_def hello_final_def)
next
  case False
  let ?q = "p\<lparr>hp_remaining := of_nat (length ms), hp_state := hello_methods\<rparr>"
  have "of_nat (length ms) \<noteq> (0 :: u8)"
    using False assms(2) by (simp add: u8_simps)
  with hello_feed_methods [of ?q f ms rest] assms False show ?thesis
    by (simp add: hello_parser_init_def hello_parser_feed_def hello_final_def)
qed

lemma hello_run_bad_version:
  "v \<noteq> 0x05 \<Longrightarrow>
   parse_run hello_parser_feed (\<lambda>p. hello_final (hp_state p)) (hello_parser_init p) (v # rest) =
     Inr (p\<lparr>hp_state := hello_error_unsupported_version, hp_remaining := 0\<rparr>, rest)"
  by (simp add: hello_parser_init_def hello_parser_feed_def hello_final_def)

section \<open>The reply\<close>

lemma hello_marshalll_ok:
  assumes "buffer_ok b" and "2 \<le> room b"
  obtains b' where "hello_marshalll b m = Inr (2, b')" "buffer_ok b'"
    "pending b' = pending b @ [0x05, m]" "shape b' = shape b" "room b' = room b - 2"
proof -
  obtain b1 b' where "buffer_poke b (b_write b) [0x05, m] = Inr b1"
      "buffer_write_adv b1 2 = Inr b'" "buffer_ok b'" "pending b' = pending b @ [0x05, m]"
      "shape b' = shape b" "room b' = room b - 2"
    by (rule buffer_poke_adv_ok [of b "[0x05, m]" 2]) (use assms in auto)
  with assms room_le_announced [of b] show ?thesis
    by (intro that [of b']) (auto simp: hello_marshalll_def buffer_write_ptr_ok)
qed

lemma hello_marshalll_full: "buffer_ok b \<Longrightarrow> announced b < 2 \<Longrightarrow> hello_marshalll b m = Inr (-1, b)"
  by (simp add: hello_marshalll_def buffer_write_ptr_ok)

section \<open>Properties\<close>

text \<open>C30. The greeting parser reads exactly the greeting, however the stream is cut into
  segments: it calls \<open>on_auth_method\<close> for every offered method in order, ends in \<open>hello_done\<close>
  without raising the error flag, and leaves what follows the greeting unread.\<close>

theorem hello_segments_greeting:
  assumes "hp_on_auth_method p = Some f" and "length ms < 256"
    and "buffer_ok b" and "pending b = []" and "\<forall>s\<in>set ss. length s \<le> capacity b"
    and "concat ss = 0x05 # of_nat (length ms) # ms @ rest"
  shows "\<exists>b' k. consume_segments hello_parser_feed hp_state hello_is_done b (hello_parser_init p)
        err ss =
      Inr (hello_done, b', p\<lparr>hp_data := foldl f (hp_data p) ms, hp_state := hello_done,
        hp_remaining := 0\<rparr>, err) \<and>
    buffer_ok b' \<and> shape b' = shape b \<and> pending b' @ concat (drop k ss) = rest"
proof -
  let ?q = "p\<lparr>hp_data := foldl f (hp_data p) ms, hp_state := hello_done, hp_remaining := 0\<rparr>"
  have run: "parse_run hello_parser_feed (\<lambda>p. hello_final (hp_state p)) (hello_parser_init p)
      (concat ss) = Inr (?q, rest)"
    unfolding assms(6) by (rule hello_run_greeting [OF assms(1,2)])
  have "\<not> hello_final (hp_state (hello_parser_init p))"
    by (simp add: hello_final_def hello_parser_init_def)
  from hello.consume_segments_refines [OF assms(3,4) this assms(5) run] show ?thesis
    by (simp add: hello_final_def hello_failed_def)
qed

theorem hello_segments_greeting_witness:
  "\<exists>b' k. consume_segments hello_parser_feed hp_state hello_is_done (buffer_of 4 [])
      (hello_parser_init \<lparr>hp_on_auth_method = Some (\<lambda>d m. d @ [m]), hp_data = [],
        hp_state = hello_done, hp_remaining = 7\<rparr>) (Some False) [[5], [2, 0], [2, 1]] =
    Inr (hello_done, b', \<lparr>hp_on_auth_method = Some (\<lambda>d m. d @ [m]), hp_data = [0, 2],
      hp_state = hello_done, hp_remaining = 0\<rparr>, Some False) \<and>
    buffer_ok b' \<and> shape b' = (4, 4) \<and> pending b' @ concat (drop k [[5], [2, 0], [2, 1]]) = [1]"
  using hello_segments_greeting [of "\<lparr>hp_on_auth_method = Some (\<lambda>d m. d @ [m]), hp_data = [],
        hp_state = hello_done, hp_remaining = 7\<rparr>" "\<lambda>d m. d @ [m]" "[0, 2]" "buffer_of 4 []"
      "[[5], [2, 0], [2, 1]]" "[1]" "Some False"]
  by simp

end
