(* ===== verification/AuthParser.thy ===== *)
theory AuthParser
  imports ParserLoop
begin

text \<open>
  The parser of the username/password message, \<^verbatim>\<open>src/parsers/auth.c\<close> and its header:
  version, length and bytes of the name, length and bytes of the password. The arrays hold
  \<open>MAX_USR_PASS_SIZE\<close> = 255 bytes, and a zero byte is written after the last byte of each.
\<close>

section \<open>State and operations\<close>

definition AUTH_SUCCESS :: u8 where "AUTH_SUCCESS = 0x00"
definition AUTH_FAIL :: u8 where "AUTH_FAIL = 0x01"
definition MAX_USR_PASS_SIZE :: nat where "MAX_USR_PASS_SIZE = 0xFF"

datatype auth_state =
    auth_version
  | auth_userlen
  | auth_username
  | auth_passlen
  | auth_pass
  | auth_done
  | auth_error_unsupported_version
  | auth_error
  | auth_error_user_len
  | auth_error_pass_len

record user =
  au_userlen :: u8
  au_username :: "u8 list"

record pass =
  au_passlen :: u8
  au_passwd :: "u8 list"

record auth_parser =
  ap_state :: auth_state
  ap_user :: user
  ap_pass :: pass
  ap_remaining :: u8
  ap_read :: u8
  ap_version :: u8

text \<open>Every field is written, so the parser that comes in does not matter.\<close>

definition auth_parser_init :: "auth_parser \<Rightarrow> auth_parser" where
  "auth_parser_init p = p\<lparr>
     ap_state := auth_version,
     ap_user := \<lparr>au_userlen = 0, au_username = replicate MAX_USR_PASS_SIZE 0\<rparr>,
     ap_pass := \<lparr>au_passlen = 0, au_passwd = replicate MAX_USR_PASS_SIZE 0\<rparr>,
     ap_version := 0x01, ap_remaining := 0, ap_read := 0\<rparr>"

definition auth_remaining_set :: "auth_parser \<Rightarrow> u8 \<Rightarrow> auth_parser" where
  "auth_remaining_set p n = p\<lparr>ap_remaining := n, ap_read := 0\<rparr>"

definition auth_remaining_is_done :: "auth_parser \<Rightarrow> bool" where
  "auth_remaining_is_done p \<longleftrightarrow> ap_remaining p \<le> ap_read p"

definition auth_store_username :: "auth_parser \<Rightarrow> u8 \<Rightarrow> auth_parser result" where
  "auth_store_username p b =
     bind_res (store_at (au_username (ap_user p)) (unat (ap_read p)) b) (\<lambda>a.
     Inr (p\<lparr>ap_user := (ap_user p)\<lparr>au_username := a\<rparr>\<rparr>))"

definition auth_store_passwd :: "auth_parser \<Rightarrow> u8 \<Rightarrow> auth_parser result" where
  "auth_store_passwd p b =
     bind_res (store_at (au_passwd (ap_pass p)) (unat (ap_read p)) b) (\<lambda>a.
     Inr (p\<lparr>ap_pass := (ap_pass p)\<lparr>au_passwd := a\<rparr>\<rparr>))"

definition auth_parser_feed :: "auth_parser \<Rightarrow> u8 \<Rightarrow> auth_parser result" where
  "auth_parser_feed p b =
     (case ap_state p of
        auth_version \<Rightarrow> Inr
          (if ap_version p = b then p\<lparr>ap_state := auth_userlen\<rparr>
           else p\<lparr>ap_state := auth_error_unsupported_version\<rparr>)
      | auth_userlen \<Rightarrow> Inr
          (if b \<le> 0 then p\<lparr>ap_state := auth_error_user_len\<rparr>
           else
             let p = auth_remaining_set p b;
                 p = p\<lparr>ap_user := (ap_user p)\<lparr>au_userlen := b\<rparr>\<rparr> in
             p\<lparr>ap_state := auth_username\<rparr>)
      | auth_username \<Rightarrow>
          bind_res (auth_store_username p b) (\<lambda>p.
          let p = p\<lparr>ap_read := ap_read p + 1\<rparr> in
          if auth_remaining_is_done p then
            bind_res (auth_store_username p 0) (\<lambda>p. Inr (p\<lparr>ap_state := auth_passlen\<rparr>))
          else Inr (p\<lparr>ap_state := auth_username\<rparr>))
      | auth_passlen \<Rightarrow> Inr
          (if b \<le> 0 then p\<lparr>ap_state := auth_error_pass_len\<rparr>
           else
             let p = auth_remaining_set p b;
                 p = p\<lparr>ap_pass := (ap_pass p)\<lparr>au_passlen := b\<rparr>\<rparr> in
             p\<lparr>ap_state := auth_pass\<rparr>)
      | auth_pass \<Rightarrow>
          bind_res (auth_store_passwd p b) (\<lambda>p.
          let p = p\<lparr>ap_read := ap_read p + 1\<rparr> in
          if auth_remaining_is_done p then
            bind_res (auth_store_passwd p 0) (\<lambda>p. Inr (p\<lparr>ap_state := auth_done\<rparr>))
          else Inr (p\<lparr>ap_state := auth_pass\<rparr>))
      | _ \<Rightarrow> Inr p)"

definition auth_is_done :: "auth_state \<Rightarrow> bool option \<Rightarrow> bool \<times> bool option" where
  "auth_is_done state errored =
     (if state \<in> {auth_error_unsupported_version, auth_error, auth_error_pass_len,
                  auth_error_user_len}
      then (True, map_option (\<lambda>_. True) errored)
      else if state = auth_done then (True, errored)
      else (False, errored))"

definition auth_consume ::
  "buffer \<Rightarrow> auth_parser \<Rightarrow> bool option \<Rightarrow>
   (auth_state \<times> buffer \<times> auth_parser \<times> bool option) result" where
  "auth_consume buff p errored =
     consume_loop auth_parser_feed ap_state auth_is_done (ap_state p) buff p errored"

definition auth_marshall :: "buffer \<Rightarrow> u8 \<Rightarrow> (int \<times> buffer) result" where
  "auth_marshall b status =
     bind_res (buffer_write_ptr b) (\<lambda>(buff, n).
     if n < 2 then Inr (-1, b)
     else
       bind_res (buffer_poke b buff [0x01, status]) (\<lambda>b.
       bind_res (buffer_write_adv b 2) (\<lambda>b. Inr (2, b))))"

section \<open>The parser meets the interfaces\<close>

definition auth_failed :: "auth_state \<Rightarrow> bool" where
  "auth_failed s \<longleftrightarrow> s \<in> {auth_error_unsupported_version, auth_error, auth_error_pass_len,
     auth_error_user_len}"

definition auth_final :: "auth_state \<Rightarrow> bool" where
  "auth_final s \<longleftrightarrow> auth_failed s \<or> s = auth_done"

interpretation auth: byte_parser auth_parser_feed ap_state auth_is_done auth_final auth_failed
proof unfold_locales
  fix s e
  show "auth_is_done s e = (auth_final s, if auth_failed s then map_option (\<lambda>_. True) e else e)"
    by (auto simp: auth_is_done_def auth_final_def auth_failed_def)
next
  fix p :: auth_parser and c
  assume "auth_final (ap_state p)"
  then show "\<exists>p'. auth_parser_feed p c = Inr p' \<and> ap_state p' = ap_state p"
    by (auto simp: auth_final_def auth_failed_def auth_parser_feed_def)
qed (simp add: auth_final_def)

text \<open>A parser in the middle of the name, and in the middle of the password.\<close>

definition auth_at_name :: "auth_parser \<Rightarrow> nat \<Rightarrow> nat \<Rightarrow> u8 list \<Rightarrow> auth_parser" where
  "auth_at_name p n r a = p\<lparr>ap_state := auth_username, ap_user := (ap_user p)\<lparr>au_username := a\<rparr>,
     ap_remaining := of_nat n, ap_read := of_nat r\<rparr>"

definition auth_after_name :: "auth_parser \<Rightarrow> nat \<Rightarrow> u8 list \<Rightarrow> auth_parser" where
  "auth_after_name p n a = (auth_at_name p n n a)\<lparr>ap_state := auth_passlen\<rparr>"

definition auth_at_pass :: "auth_parser \<Rightarrow> nat \<Rightarrow> nat \<Rightarrow> u8 list \<Rightarrow> auth_parser" where
  "auth_at_pass p n r a = p\<lparr>ap_state := auth_pass, ap_pass := (ap_pass p)\<lparr>au_passwd := a\<rparr>,
     ap_remaining := of_nat n, ap_read := of_nat r\<rparr>"

definition auth_after_pass :: "auth_parser \<Rightarrow> nat \<Rightarrow> u8 list \<Rightarrow> auth_parser" where
  "auth_after_pass p n a = (auth_at_pass p n n a)\<lparr>ap_state := auth_done\<rparr>"

lemmas auth_field_defs =
  auth_at_name_def auth_after_name_def auth_at_pass_def auth_after_pass_def

lemmas auth_feed_defs =
  auth_parser_feed_def auth_store_username_def auth_store_passwd_def
  auth_remaining_is_done_def auth_remaining_set_def Let_def

interpretation auth_name: parser_field auth_parser_feed ap_state auth_is_done auth_final auth_failed
    auth_at_name auth_after_name
  by unfold_locales
    (auto simp: auth_field_defs auth_feed_defs array_simps u8_simps auth_final_def auth_failed_def
      intro!: auth_parser.equality)

interpretation auth_password: last_field auth_parser_feed ap_state auth_is_done auth_final auth_failed
    auth_at_pass auth_after_pass
  by unfold_locales
    (auto simp: auth_field_defs auth_feed_defs array_simps u8_simps auth_final_def auth_failed_def
      intro!: auth_parser.equality)

section \<open>What the parser accepts\<close>

text \<open>The message of RFC 1929 and the parser that has read it.\<close>

definition auth_message :: "u8 list \<Rightarrow> u8 list \<Rightarrow> u8 list" where
  "auth_message u w = [0x01, of_nat (length u)] @ u @ [of_nat (length w)] @ w"

definition auth_accepted :: "u8 list \<Rightarrow> u8 list \<Rightarrow> auth_parser" where
  "auth_accepted u w =
     \<lparr>ap_state = auth_done,
      ap_user = \<lparr>au_userlen = of_nat (length u), au_username = u @ 0 # replicate (254 - length u) 0\<rparr>,
      ap_pass = \<lparr>au_passlen = of_nat (length w), au_passwd = w @ 0 # replicate (254 - length w) 0\<rparr>,
      ap_remaining = of_nat (length w), ap_read = of_nat (length w), ap_version = 0x01\<rparr>"

lemma auth_feed_start:
  assumes "0 < n" and "n < 256"
  shows "\<exists>c. feed_list auth_parser_feed (auth_parser_init p) [0x01, of_nat n] =
      Inr (auth_at_name c n 0 (replicate 255 0)) \<and>
    c = (auth_parser_init p)\<lparr>ap_user := \<lparr>au_userlen = of_nat n, au_username = replicate 255 0\<rparr>\<rparr>"
  using assms
  by (auto simp: auth_parser_init_def auth_feed_defs auth_field_defs u8_simps MAX_USR_PASS_SIZE_def)

lemma auth_feed_passlen:
  assumes "0 < n" and "n < 256"
  shows "feed_list auth_parser_feed (auth_after_name c k a) [of_nat n] =
      Inr (auth_at_pass ((auth_after_name c k a)\<lparr>ap_pass := (ap_pass c)\<lparr>au_passlen := of_nat n\<rparr>\<rparr>) n 0
        (au_passwd (ap_pass c)))"
  using assms by (auto simp: auth_feed_defs auth_field_defs u8_simps intro!: auth_parser.equality)

lemma auth_feed_to_pass:
  assumes "0 < length u" "length u < 255" and "0 < n" "n < 256"
  shows "\<exists>c. feed_list auth_parser_feed (auth_parser_init p)
      ([0x01, of_nat (length u)] @ u @ [of_nat n]) = Inr (auth_at_pass c n 0 (replicate 255 0)) \<and>
    ap_user c = \<lparr>au_userlen = of_nat (length u), au_username = u @ 0 # replicate (254 - length u) 0\<rparr> \<and>
    au_passlen (ap_pass c) = of_nat n \<and> ap_version c = 0x01"
proof -
  obtain c where c: "feed_list auth_parser_feed (auth_parser_init p) [0x01, of_nat (length u)] =
        Inr (auth_at_name c (length u) 0 (replicate 255 0))"
      "c = (auth_parser_init p)\<lparr>ap_user :=
        \<lparr>au_userlen = of_nat (length u), au_username = replicate 255 0\<rparr>\<rparr>"
    using auth_feed_start [of "length u" p] assms by auto
  have field: "feed_list auth_parser_feed (auth_at_name c (length u) 0 (replicate 255 0)) u =
      Inr (auth_after_name c (length u) (u @ 0 # replicate (254 - length u) 0))"
    using auth_name.feed_field [of u "length u" "replicate 255 0" c] assms by simp
  let ?c = "(auth_after_name c (length u) (u @ 0 # replicate (254 - length u) 0))
    \<lparr>ap_pass := (ap_pass c)\<lparr>au_passlen := of_nat n\<rparr>\<rparr>"
  from field have "feed_list auth_parser_feed (auth_parser_init p)
      ([0x01, of_nat (length u)] @ u @ [of_nat n]) =
      feed_list auth_parser_feed (auth_after_name c (length u) (u @ 0 # replicate (254 - length u) 0))
        [of_nat n]"
    unfolding feed_list_append c(1) by simp
  also note auth_feed_passlen [OF assms(3,4)]
  finally have run: "feed_list auth_parser_feed (auth_parser_init p)
      ([0x01, of_nat (length u)] @ u @ [of_nat n]) = Inr (auth_at_pass ?c n 0 (au_passwd (ap_pass c)))" .
  have "au_passwd (ap_pass c) = replicate 255 0"
    by (simp add: c(2) auth_parser_init_def MAX_USR_PASS_SIZE_def)
  with run show ?thesis
    by (intro exI [of _ ?c] conjI) (simp_all add: c(2) auth_field_defs auth_parser_init_def)
qed

lemma auth_run_message:
  assumes u: "0 < length u" "length u < 255" and w: "0 < length w" "length w < 255"
  shows "parse_run auth_parser_feed (\<lambda>p. auth_final (ap_state p)) (auth_parser_init p)
      (auth_message u w @ rest) = Inr (auth_accepted u w, rest)"
proof -
  let ?hd = "[0x01, of_nat (length u)] @ u @ [of_nat (length w)]"
  obtain c where c: "feed_list auth_parser_feed (auth_parser_init p) ?hd =
        Inr (auth_at_pass c (length w) 0 (replicate 255 0))"
      "ap_user c = \<lparr>au_userlen = of_nat (length u), au_username = u @ 0 # replicate (254 - length u) 0\<rparr>"
      "au_passlen (ap_pass c) = of_nat (length w)" "ap_version c = 0x01"
    using auth_feed_to_pass [OF u, of "length w" p] w by auto
  have "auth_after_pass c (length w) (w @ 0 # drop (Suc (length w)) (replicate 255 0)) =
      auth_accepted u w"
    using c(2-) by (auto simp: auth_accepted_def auth_field_defs intro!: auth_parser.equality pass.equality)
  with auth_password.run_last_field [OF c(1) _ refl w, of rest] show ?thesis
    by (simp add: auth_message_def)
qed

text \<open>A name or a password of 255 bytes, which the protocol allows, overruns its array.\<close>

lemma auth_run_long_name:
  assumes "length u = 255"
  shows "parse_run auth_parser_feed (\<lambda>p. auth_final (ap_state p)) (auth_parser_init p)
      (0x01 # 0xFF # u @ rest) = Inl OutOfBounds"
  using auth_feed_start [of 255 p] auth_name.run_field_overflow [OF _ _ assms, of _ "[0x01, 0xFF]"]
  by auto

lemma auth_run_long_pass:
  assumes "0 < length u" "length u < 255" and "length w = 255"
  shows "parse_run auth_parser_feed (\<lambda>p. auth_final (ap_state p)) (auth_parser_init p)
      (auth_message u w @ rest) = Inl OutOfBounds"
proof -
  obtain c where "feed_list auth_parser_feed (auth_parser_init p)
      ([0x01, of_nat (length u)] @ u @ [0xFF]) = Inr (auth_at_pass c 255 0 (replicate 255 0))"
    using auth_feed_to_pass [OF assms(1,2), of 255 p] by auto
  from auth_password.run_field_overflow [OF this _ assms(3), of rest] assms(3) show ?thesis
    by (simp add: auth_message_def)
qed

section \<open>The reply\<close>

lemma auth_marshall_ok:
  assumes "buffer_ok b" and "2 \<le> room b"
  obtains b' where "auth_marshall b s = Inr (2, b')" "buffer_ok b'"
    "pending b' = pending b @ [0x01, s]" "shape b' = shape b" "room b' = room b - 2"
proof -
  obtain b1 b' where "buffer_poke b (b_write b) [0x01, s] = Inr b1"
      "buffer_write_adv b1 2 = Inr b'" "buffer_ok b'" "pending b' = pending b @ [0x01, s]"
      "shape b' = shape b" "room b' = room b - 2"
    by (rule buffer_poke_adv_ok [of b "[0x01, s]" 2]) (use assms in auto)
  with assms room_le_announced [of b] show ?thesis
    by (intro that [of b']) (auto simp: auth_marshall_def buffer_write_ptr_ok)
qed

lemma auth_marshall_full: "buffer_ok b \<Longrightarrow> announced b < 2 \<Longrightarrow> auth_marshall b s = Inr (-1, b)"
  by (simp add: auth_marshall_def buffer_write_ptr_ok)

section \<open>Properties\<close>

text \<open>C31. The username/password parser reads exactly one message, however the stream is cut
  into segments: name and password of 1 to 254 bytes end up in the arrays with a zero byte behind
  them, the state is \<open>auth_done\<close>, the error flag stays, and the bytes behind the message are left
  unread.\<close>

theorem auth_segments_message:
  assumes "0 < length u" "length u < 255" and "0 < length w" "length w < 255"
    and "buffer_ok b" and "pending b = []" and "\<forall>s\<in>set ss. length s \<le> capacity b"
    and "concat ss = auth_message u w @ rest"
  shows "\<exists>b' k. consume_segments auth_parser_feed ap_state auth_is_done b (auth_parser_init p)
        err ss = Inr (auth_done, b', auth_accepted u w, err) \<and>
    buffer_ok b' \<and> shape b' = shape b \<and> pending b' @ concat (drop k ss) = rest"
proof -
  have run: "parse_run auth_parser_feed (\<lambda>p. auth_final (ap_state p)) (auth_parser_init p)
      (concat ss) = Inr (auth_accepted u w, rest)"
    unfolding assms(8) by (rule auth_run_message [OF assms(1-4)])
  have "\<not> auth_final (ap_state (auth_parser_init p))"
    by (simp add: auth_final_def auth_failed_def auth_parser_init_def)
  from auth.consume_segments_refines [OF assms(5,6) this assms(7) run] show ?thesis
    by (simp add: auth_final_def auth_failed_def auth_accepted_def)
qed

theorem auth_segments_message_witness:
  "\<forall>p. \<exists>b' k. consume_segments auth_parser_feed ap_state auth_is_done (buffer_of 8 [])
      (auth_parser_init p) (Some False) [[1, 2, 97], [98, 1], [99, 5]] =
    Inr (auth_done, b', auth_accepted [97, 98] [99], Some False) \<and>
    buffer_ok b' \<and> shape b' = (8, 8) \<and>
    pending b' @ concat (drop k [[1, 2, 97], [98, 1], [99, 5]]) = [5]"
  using auth_segments_message [of "[97, 98]" "[99]" "buffer_of 8 []"
      "[[1, 2, 97], [98, 1], [99, 5]]" "[5]"]
  by (simp add: auth_message_def)

text \<open>C40. A name or a password of 255 bytes, which RFC 1929 allows, makes \<open>auth_consume\<close> write
  the terminating zero byte behind the end of its array.\<close>

theorem auth_consume_overflow:
  assumes "buffer_ok b" and "pending b = auth_message u w @ rest"
    and "0 < length u" and "0 < length w"
    and "length u = 255 \<or> length u < 255 \<and> length w = 255"
  shows "auth_consume b (auth_parser_init p) err = Inl OutOfBounds"
proof -
  have "parse_run auth_parser_feed (\<lambda>p. auth_final (ap_state p)) (auth_parser_init p)
      (auth_message u w @ rest) = Inl OutOfBounds"
    using assms(5)
  proof
    assume u: "length u = 255"
    then have "auth_message u w @ rest = 0x01 # 0xFF # u @ (of_nat (length w) # w @ rest)"
      by (simp add: auth_message_def)
    with auth_run_long_name [OF u] show ?thesis
      by metis
  next
    assume "length u < 255 \<and> length w = 255"
    with auth_run_long_pass assms(3) show ?thesis
      by blast
  qed
  with auth.consume_fault [OF assms(1)] assms(2) show ?thesis
    by (simp add: auth_consume_def)
qed

theorem auth_consume_overflow_witness:
  "\<forall>p. auth_consume (buffer_of 300 (auth_message (replicate 255 97) [98])) (auth_parser_init p)
     (Some False) = Inl OutOfBounds"
  using auth_consume_overflow [of "buffer_of 300 (auth_message (replicate 255 97) [98])"
      "replicate 255 97" "[98]" "[]" _ "Some False"]
  by (simp add: auth_message_def)

end
