(* ===== verification/CStrings.thy ===== *)
theory CStrings
  imports Prelude
begin

text \<open>
  The string functions of the C library on arrays of characters: an array is the list of its
  bytes, a string in it ends at the first zero byte, and a function that looks for that byte
  beyond the end of the array is an access out of bounds.
\<close>

fun c_str :: "u8 list \<Rightarrow> u8 list result" where
  "c_str [] = Inl OutOfBounds"
| "c_str (c # cs) = (if c = 0 then Inr [] else bind_res (c_str cs) (\<lambda>s. Inr (c # s)))"

definition c_strlen :: "u8 list \<Rightarrow> nat result" where
  "c_strlen a = bind_res (c_str a) (\<lambda>s. Inr (length s))"

text \<open>\<open>strcmp(a, b) == 0\<close>: the comparison stops at the first difference.\<close>

fun c_streq :: "u8 list \<Rightarrow> u8 list \<Rightarrow> bool result" where
  "c_streq (a # as) (b # bs) =
     (if a \<noteq> b then Inr False else if a = 0 then Inr True else c_streq as bs)"
| "c_streq _ _ = Inl OutOfBounds"

definition c_strcpy :: "u8 list \<Rightarrow> u8 list \<Rightarrow> u8 list result" where
  "c_strcpy dst src = bind_res (c_str src) (\<lambda>s. store_range dst 0 (s @ [0]))"

text \<open>An array that holds the string \<open>s\<close>.\<close>

definition holds_str :: "u8 list \<Rightarrow> u8 list \<Rightarrow> bool" where
  "holds_str a s \<longleftrightarrow> c_str a = Inr s"

lemma c_str_terminated [simp]: "0 \<notin> set s \<Longrightarrow> c_str (s @ 0 # t) = Inr s"
  by (induction s) auto

lemma holds_str_iff: "holds_str a s \<longleftrightarrow> 0 \<notin> set s \<and> (\<exists>t. a = s @ 0 # t)"
proof
  assume "holds_str a s"
  then show "0 \<notin> set s \<and> (\<exists>t. a = s @ 0 # t)"
    unfolding holds_str_def
    by (induction a arbitrary: s) (fastforce simp: bind_res_Inr_iff split: if_splits)+
qed (auto simp: holds_str_def)

lemma c_str_unterminated: "0 \<notin> set a \<Longrightarrow> c_str a = Inl OutOfBounds"
  by (induction a) auto

lemma c_str_cases: "(\<exists>s. c_str a = Inr s) \<or> c_str a = Inl OutOfBounds"
  by (induction a) auto

lemma c_str_length: "c_str a = Inr s \<Longrightarrow> length s < length a"
  using holds_str_iff [of a s] by (auto simp: holds_str_def)

lemma c_streq_holds:
  "holds_str a s \<Longrightarrow> holds_str b t \<Longrightarrow> c_streq a b = Inr (s = t)"
proof -
  have "0 \<notin> set s \<Longrightarrow> 0 \<notin> set t \<Longrightarrow> c_streq (s @ 0 # x) (t @ 0 # y) = Inr (s = t)" for x y
  proof (induction s arbitrary: t)
    case Nil
    then show ?case by (cases t) auto
  next
    case (Cons c cs)
    then show ?case by (cases t) auto
  qed
  then show "holds_str a s \<Longrightarrow> holds_str b t \<Longrightarrow> c_streq a b = Inr (s = t)"
    by (auto simp: holds_str_iff)
qed

lemma c_strcpy_holds:
  "holds_str src s \<Longrightarrow> length s < length dst \<Longrightarrow>
   c_strcpy dst src = Inr (s @ 0 # drop (Suc (length s)) dst)"
  by (simp add: c_strcpy_def holds_str_def store_range_def)

lemma c_strcpy_overflow:
  "holds_str src s \<Longrightarrow> length dst \<le> length s \<Longrightarrow> c_strcpy dst src = Inl OutOfBounds"
  by (simp add: c_strcpy_def holds_str_def store_range_def)

end
