(* ===== verification/RequestParser.thy ===== *)
theory RequestParser
  imports ParserLoop CStrings
begin

text \<open>
  The parser of the SOCKS5 request, \<^verbatim>\<open>src/parsers/request.c\<close> and its header: version,
  command, reserved byte, address type, address, port; and the reply to it.

  \<open>union socks_addr\<close> is its 256 bytes in memory (255 of \<open>fqdn\<close>, rounded up to the alignment of
  the socket addresses), with the layout of \<open>sockaddr_in\<close> and \<open>sockaddr_in6\<close> on Linux: family
  in bytes 0 and 1 in the order of the host (low byte first), port in bytes 2 and 3, the
  address from byte 4 (IPv4) or 8 (IPv6) on. \<open>dst_port\<close> is its two bytes in memory, which are in
  network order.
\<close>

section \<open>Data\<close>

definition socks_req_cmd_connect :: u8 where "socks_req_cmd_connect = 0x01"
definition socks_req_cmd_bind :: u8 where "socks_req_cmd_bind = 0x02"
definition socks_req_cmd_associate :: u8 where "socks_req_cmd_associate = 0x03"

definition socks_req_addrtype_ipv4 :: u8 where "socks_req_addrtype_ipv4 = 0x01"
definition socks_req_addrtype_domain :: u8 where "socks_req_addrtype_domain = 0x03"
definition socks_req_addrtype_ipv6 :: u8 where "socks_req_addrtype_ipv6 = 0x04"

lemmas socks_req_defs =
  socks_req_cmd_connect_def socks_req_cmd_bind_def socks_req_cmd_associate_def
  socks_req_addrtype_ipv4_def socks_req_addrtype_domain_def socks_req_addrtype_ipv6_def

record request =
  rq_cmd :: u8
  rq_dst_addr_type :: u8
  rq_dst_addr :: "u8 list"
  rq_dst_port :: "u8 list"

datatype request_state =
    request_version
  | request_cmd
  | request_rsv
  | request_atyp
  | request_dstaddr_fqdn
  | request_dstaddr
  | request_dstport
  | request_done
  | request_error
  | request_error_unsupported_version
  | request_error_unsupported_addresstype
  | request_error_unsupported_cmd

record request_parser =
  rp_request :: request
  rp_state :: request_state
  rp_total_bytes_to_read :: u8
  rp_bytes_read :: u8

datatype socks_response_status =
    status_succeeded
  | status_general_SOCKS_server_failure
  | status_connection_not_allowed_by_rules
  | status_network_unreachable
  | status_host_unreachable
  | status_connection_refused
  | status_ttl_expired
  | status_command_not_supported
  | status_address_type_not_supported
  | status_close
  | status_connecting

fun status_code :: "socks_response_status \<Rightarrow> u8" where
  "status_code status_succeeded = 0x00"
| "status_code status_general_SOCKS_server_failure = 0x01"
| "status_code status_connection_not_allowed_by_rules = 0x02"
| "status_code status_network_unreachable = 0x03"
| "status_code status_host_unreachable = 0x04"
| "status_code status_connection_refused = 0x05"
| "status_code status_ttl_expired = 0x06"
| "status_code status_command_not_supported = 0x07"
| "status_code status_address_type_not_supported = 0x08"
| "status_code status_close = 0x09"
| "status_code status_connecting = 0x10"

text \<open>The platform's constants.\<close>

definition AF_INET_bytes :: "u8 list" where "AF_INET_bytes = [2, 0]"
definition AF_INET6_bytes :: "u8 list" where "AF_INET6_bytes = [10, 0]"
definition SOCKS_ADDR_SIZE :: nat where "SOCKS_ADDR_SIZE = 256"
definition FQDN_SIZE :: nat where "FQDN_SIZE = 0xFF"

section \<open>The parser\<close>

text \<open>Byte \<open>i\<close> of a member of the union that starts at \<open>off\<close> and has \<open>n\<close> bytes.\<close>

definition store_member :: "u8 list \<Rightarrow> nat \<Rightarrow> nat \<Rightarrow> nat \<Rightarrow> u8 \<Rightarrow> u8 list result" where
  "store_member a off n i c =
     (if i < n then store_at a (off + i) c else Inl OutOfBounds)"

definition request_remaining_set :: "request_parser \<Rightarrow> u8 \<Rightarrow> request_parser" where
  "request_remaining_set p n = p\<lparr>rp_bytes_read := 0, rp_total_bytes_to_read := n\<rparr>"

definition request_remaining_is_done :: "request_parser \<Rightarrow> bool" where
  "request_remaining_is_done p \<longleftrightarrow> rp_total_bytes_to_read p \<le> rp_bytes_read p"

definition request_set_addr :: "request_parser \<Rightarrow> u8 list \<Rightarrow> request_parser" where
  "request_set_addr p a = p\<lparr>rp_request := (rp_request p)\<lparr>rq_dst_addr := a\<rparr>\<rparr>"

definition request_set_port :: "request_parser \<Rightarrow> u8 list \<Rightarrow> request_parser" where
  "request_set_port p a = p\<lparr>rp_request := (rp_request p)\<lparr>rq_dst_port := a\<rparr>\<rparr>"

definition rq_version :: "u8 \<Rightarrow> request_parser \<Rightarrow> (request_state \<times> request_parser) result" where
  "rq_version c p = Inr (if c = 0x05 then request_cmd else request_error_unsupported_version, p)"

definition rq_command :: "u8 \<Rightarrow> request_parser \<Rightarrow> (request_state \<times> request_parser) result" where
  "rq_command c p =
     (if c = 0x01 \<or> c = 0x03 \<or> c = 0x04
      then Inr (request_rsv, p\<lparr>rp_request := (rp_request p)\<lparr>rq_cmd := c\<rparr>\<rparr>)
      else Inr (request_error_unsupported_cmd, p))"

definition rq_rsv :: "u8 \<Rightarrow> request_parser \<Rightarrow> (request_state \<times> request_parser) result" where
  "rq_rsv c p = Inr (request_atyp, p)"

text \<open>
  \<open>memset\<close> of the 16 bytes of a \<open>sockaddr_in\<close>, the 28 of a \<open>sockaddr_in6\<close>, then the family.
\<close>

definition rq_atyp :: "u8 \<Rightarrow> request_parser \<Rightarrow> (request_state \<times> request_parser) result" where
  "rq_atyp c p =
     (let p = p\<lparr>rp_request := (rp_request p)\<lparr>rq_dst_addr_type := c\<rparr>\<rparr>;
          a = rq_dst_addr (rp_request p) in
      if c = socks_req_addrtype_ipv4 then
        bind_res (store_range a 0 (replicate 16 0)) (\<lambda>a.
        bind_res (store_range a 0 AF_INET_bytes) (\<lambda>a.
        Inr (request_dstaddr, request_set_addr (request_remaining_set p 4) a)))
      else if c = socks_req_addrtype_ipv6 then
        bind_res (store_range a 0 (replicate 28 0)) (\<lambda>a.
        bind_res (store_range a 0 AF_INET6_bytes) (\<lambda>a.
        Inr (request_dstaddr, request_set_addr (request_remaining_set p 16) a)))
      else if c = socks_req_addrtype_domain then Inr (request_dstaddr_fqdn, p)
      else Inr (request_error_unsupported_addresstype, p))"

text \<open>The index \<open>total_bytes_to_read - 1\<close> is computed as an \<open>int\<close>: it is -1 for length 0.\<close>

definition rq_dstaddr_fqdn :: "u8 \<Rightarrow> request_parser \<Rightarrow> (request_state \<times> request_parser) result"
  where
  "rq_dstaddr_fqdn c p =
     (let p = request_remaining_set p c; i = int (unat (rp_total_bytes_to_read p)) - 1 in
      if i < 0 then Inl OutOfBounds
      else
        bind_res (store_member (rq_dst_addr (rp_request p)) 0 FQDN_SIZE (nat i) 0) (\<lambda>a.
        Inr (request_dstaddr, request_set_addr p a)))"

definition rq_dstaddr :: "u8 \<Rightarrow> request_parser \<Rightarrow> (request_state \<times> request_parser) result" where
  "rq_dstaddr c p =
     (let t = rq_dst_addr_type (rp_request p); a = rq_dst_addr (rp_request p);
          i = unat (rp_bytes_read p);
          stored =
            (if t = socks_req_addrtype_ipv4 then
               bind_res (store_member a 4 4 i c) (\<lambda>a.
               Inr (request_set_addr (p\<lparr>rp_bytes_read := rp_bytes_read p + 1\<rparr>) a))
             else if t = socks_req_addrtype_ipv6 then
               bind_res (store_member a 8 16 i c) (\<lambda>a.
               Inr (request_set_addr (p\<lparr>rp_bytes_read := rp_bytes_read p + 1\<rparr>) a))
             else if t = socks_req_addrtype_domain then
               bind_res (store_member a 0 FQDN_SIZE i c) (\<lambda>a.
               Inr (request_set_addr (p\<lparr>rp_bytes_read := rp_bytes_read p + 1\<rparr>) a))
             else Inr p)
      in
      bind_res stored (\<lambda>p.
      if request_remaining_is_done p then
        Inr (request_dstport, request_set_port (request_remaining_set p 2) [0, 0])
      else Inr (request_dstaddr, p)))"

definition rq_dstport :: "u8 \<Rightarrow> request_parser \<Rightarrow> (request_state \<times> request_parser) result" where
  "rq_dstport c p =
     bind_res (store_at (rq_dst_port (rp_request p)) (unat (rp_bytes_read p)) c) (\<lambda>a.
     let p = request_set_port p a; p = p\<lparr>rp_bytes_read := rp_bytes_read p + 1\<rparr> in
     if rp_total_bytes_to_read p \<le> rp_bytes_read p then Inr (request_done, p)
     else Inr (request_dstport, p))"

definition request_parser_init :: "request_parser \<Rightarrow> request_parser" where
  "request_parser_init p = p\<lparr>rp_state := request_version,
     rp_request := \<lparr>rq_cmd = 0, rq_dst_addr_type = 0, rq_dst_addr = replicate SOCKS_ADDR_SIZE 0,
                    rq_dst_port = [0, 0]\<rparr>\<rparr>"

definition request_parser_feed :: "request_parser \<Rightarrow> u8 \<Rightarrow> request_parser result" where
  "request_parser_feed p c =
     bind_res
       (case rp_state p of
          request_version \<Rightarrow> rq_version c p
        | request_cmd \<Rightarrow> rq_command c p
        | request_rsv \<Rightarrow> rq_rsv c p
        | request_atyp \<Rightarrow> rq_atyp c p
        | request_dstaddr_fqdn \<Rightarrow> rq_dstaddr_fqdn c p
        | request_dstaddr \<Rightarrow> rq_dstaddr c p
        | request_dstport \<Rightarrow> rq_dstport c p
        | st \<Rightarrow> Inr (st, p))
       (\<lambda>(next_st, p). Inr (p\<lparr>rp_state := next_st\<rparr>))"

definition request_is_done :: "request_state \<Rightarrow> bool option \<Rightarrow> bool \<times> bool option" where
  "request_is_done state errored =
     (if state \<in> {request_error, request_error_unsupported_version,
                  request_error_unsupported_addresstype, request_error_unsupported_cmd}
      then (True, map_option (\<lambda>_. True) errored)
      else if state = request_done then (True, errored)
      else (False, errored))"

definition request_consume ::
  "buffer \<Rightarrow> request_parser \<Rightarrow> bool option \<Rightarrow>
   (request_state \<times> buffer \<times> request_parser \<times> bool option) result" where
  "request_consume b p errored =
     consume_loop request_parser_feed rp_state request_is_done (rp_state p) b p errored"

section \<open>The reply\<close>

text \<open>The bytes of the address as the reply carries them: \<open>aux\<close> and \<open>address_size\<close>.\<close>

definition reply_address :: "request \<Rightarrow> u8 list result" where
  "reply_address r =
     (if rq_dst_addr_type r = socks_req_addrtype_ipv4 then load_range (rq_dst_addr r) 4 4
      else if rq_dst_addr_type r = socks_req_addrtype_ipv6 then load_range (rq_dst_addr r) 8 16
      else if rq_dst_addr_type r = socks_req_addrtype_domain then
        bind_res (c_str (take FQDN_SIZE (rq_dst_addr r))) (\<lambda>name.
        Inr (of_nat (length name) # name))
      else Inr [])"

definition request_marshalll ::
  "buffer \<Rightarrow> socks_response_status \<Rightarrow> request \<Rightarrow> (int \<times> buffer) result" where
  "request_marshalll b status r =
     bind_res (buffer_write_ptr b) (\<lambda>(buff, n).
     bind_res (reply_address r) (\<lambda>aux.
     let len = 6 + length aux in
     if n < len then Inr (-1, b)
     else
       bind_res (buffer_poke b buff
         ([0x05, status_code status, 0x00, rq_dst_addr_type r] @ aux @ rq_dst_port r)) (\<lambda>b.
       bind_res (buffer_write_adv b (int len)) (\<lambda>b. Inr (int len, b)))))"

section \<open>Errors of the operating system as replies\<close>

definition EHOSTUNREACH :: int where "EHOSTUNREACH = 113"
definition ECONNREFUSED :: int where "ECONNREFUSED = 111"
definition ETIMEDOUT :: int where "ETIMEDOUT = 110"
definition EAFNOSUPPORT :: int where "EAFNOSUPPORT = 97"
definition ENETUNREACH :: int where "ENETUNREACH = 101"

definition errno_to_socks :: "int \<Rightarrow> socks_response_status" where
  "errno_to_socks err =
     (if err = 0 then status_succeeded
      else if err = EHOSTUNREACH then status_host_unreachable
      else if err = ECONNREFUSED then status_connection_refused
      else if err = ETIMEDOUT then status_ttl_expired
      else if err = EAFNOSUPPORT then status_address_type_not_supported
      else if err = ENETUNREACH then status_network_unreachable
      else status_general_SOCKS_server_failure)"

section \<open>The parser meets the interface\<close>

definition request_failed :: "request_state \<Rightarrow> bool" where
  "request_failed s \<longleftrightarrow> s \<in> {request_error, request_error_unsupported_version,
     request_error_unsupported_addresstype, request_error_unsupported_cmd}"

definition request_final :: "request_state \<Rightarrow> bool" where
  "request_final s \<longleftrightarrow> request_failed s \<or> s = request_done"

interpretation request: byte_parser request_parser_feed rp_state request_is_done request_final
    request_failed
proof unfold_locales
  fix s e
  show "request_is_done s e =
      (request_final s, if request_failed s then map_option (\<lambda>_. True) e else e)"
    by (auto simp: request_is_done_def request_final_def request_failed_def)
next
  fix p :: request_parser and c
  assume "request_final (rp_state p)"
  then show "\<exists>p'. request_parser_feed p c = Inr p' \<and> rp_state p' = rp_state p"
    by (auto simp: request_final_def request_failed_def request_parser_feed_def)
qed (simp add: request_final_def)

section \<open>What the parser accepts\<close>

text \<open>The destinations of RFC 1928, on the wire and in the memory of the parser.\<close>

datatype destination = IPv4 "u8 list" | IPv6 "u8 list" | Domain "u8 list"

fun dest_ok :: "destination \<Rightarrow> bool" where
  "dest_ok (IPv4 a) \<longleftrightarrow> length a = 4"
| "dest_ok (IPv6 a) \<longleftrightarrow> length a = 16"
| "dest_ok (Domain d) \<longleftrightarrow> 0 < length d \<and> length d \<le> 255"

fun dest_type :: "destination \<Rightarrow> u8" where
  "dest_type (IPv4 a) = 0x01"
| "dest_type (IPv6 a) = 0x04"
| "dest_type (Domain d) = 0x03"

fun dest_wire :: "destination \<Rightarrow> u8 list" where
  "dest_wire (IPv4 a) = a"
| "dest_wire (IPv6 a) = a"
| "dest_wire (Domain d) = of_nat (length d) # d"

fun dest_mem :: "destination \<Rightarrow> u8 list" where
  "dest_mem (IPv4 a) = 2 # replicate 3 0 @ a @ replicate 248 0"
| "dest_mem (IPv6 a) = 10 # replicate 7 0 @ a @ replicate 232 0"
| "dest_mem (Domain d) = d @ replicate (256 - length d) 0"

definition request_message :: "u8 \<Rightarrow> u8 \<Rightarrow> destination \<Rightarrow> u8 list \<Rightarrow> u8 list" where
  "request_message c rsv d port = [0x05, c, rsv, dest_type d] @ dest_wire d @ port"

definition rq_parser ::
  "request_state \<Rightarrow> u8 \<Rightarrow> u8 \<Rightarrow> u8 list \<Rightarrow> u8 list \<Rightarrow> nat \<Rightarrow> nat \<Rightarrow> request_parser" where
  "rq_parser s c t a port n r =
     \<lparr>rp_request = \<lparr>rq_cmd = c, rq_dst_addr_type = t, rq_dst_addr = a, rq_dst_port = port\<rparr>,
      rp_state = s, rp_total_bytes_to_read = of_nat n, rp_bytes_read = of_nat r\<rparr>"

text \<open>Where the address of a type starts in the union, and how many bytes its member has.\<close>

definition addr_member :: "u8 \<Rightarrow> (nat \<times> nat) option" where
  "addr_member t = (if t = 0x01 then Some (4, 4) else if t = 0x04 then Some (8, 16)
     else if t = 0x03 then Some (0, 255) else None)"

lemmas request_feed_defs =
  request_parser_feed_def rq_version_def rq_command_def rq_rsv_def rq_atyp_def
  rq_dstaddr_fqdn_def rq_dstport_def request_remaining_set_def
  request_remaining_is_done_def request_set_addr_def request_set_port_def store_member_def
  AF_INET_bytes_def AF_INET6_bytes_def FQDN_SIZE_def SOCKS_ADDR_SIZE_def socks_req_defs Let_def

lemma request_feed_addr_byte:
  assumes m: "addr_member t = Some (off, k)" and r: "r < k" "n \<le> k" and a: "length a = 256"
  shows "request_parser_feed (rq_parser request_dstaddr c t a port n r) x =
    Inr (if n \<le> Suc r then rq_parser request_dstport c t (a[off + r := x]) [0, 0] 2 0
         else rq_parser request_dstaddr c t (a[off + r := x]) port n (Suc r))"
proof -
  have "k < 256" "off + k < 256"
    using m by (auto simp: addr_member_def split: if_splits)
  with assms show ?thesis
    by (auto simp: rq_parser_def rq_dstaddr_def request_feed_defs addr_member_def u8_simps
        array_simps split: if_splits)
qed

lemma request_feed_addr:
  assumes m: "addr_member t = Some (off, k)" and "n \<le> k" "length a = 256"
    and "r + length xs = n" "xs \<noteq> []"
  shows "feed_list request_parser_feed (rq_parser request_dstaddr c t a port n r) xs =
    Inr (rq_parser request_dstport c t
      (take (off + r) a @ xs @ drop (off + r + length xs) a) [0, 0] 2 0)"
  using assms(2-)
proof (induction xs arbitrary: r a)
  case (Cons x xs)
  have off: "off + r < 256"
    using m Cons.prems by (auto simp: addr_member_def split: if_splits)
  then have upd: "take (Suc (off + r)) (a[off + r := x]) = take (off + r) a @ [x]"
    using Cons.prems by (simp add: take_Suc_conv_app_nth)
  note step = request_feed_addr_byte [OF m, of r n a c port x]
  show ?case
  proof (cases "xs = []")
    case True
    with Cons.prems step off show ?thesis
      by (simp add: upd_conv_take_nth_drop)
  next
    case False
    with Cons.IH [of "a[off + r := x]" "Suc r"] Cons.prems step upd show ?thesis
      by (cases xs) (simp_all add: drop_update_cancel)
  qed
qed simp

lemma request_feed_port:
  "parse_run request_parser_feed (\<lambda>p. request_final (rp_state p))
     (rq_parser request_dstport c t a [0, 0] 2 0) (x # y # rest) =
   Inr (rq_parser request_done c t a [x, y] 2 2, rest)"
  by (simp add: rq_parser_def request_feed_defs store_at_def request_final_def request_failed_def
      word_le_nat_alt)

text \<open>The bytes before the address, up to the length of a name.\<close>

fun dest_head :: "destination \<Rightarrow> u8 list" where
  "dest_head (Domain x) = [of_nat (length x)]"
| "dest_head _ = []"

fun dest_bytes :: "destination \<Rightarrow> u8 list" where
  "dest_bytes (IPv4 a) = a"
| "dest_bytes (IPv6 a) = a"
| "dest_bytes (Domain d) = d"

fun dest_clear :: "destination \<Rightarrow> u8 list" where
  "dest_clear (IPv4 a) = 2 # replicate 255 0"
| "dest_clear (IPv6 a) = 10 # replicate 255 0"
| "dest_clear (Domain d) = replicate 256 0"

lemma store_range_clear:
  "k \<le> n \<Longrightarrow> store_range (replicate n 0) 0 (replicate k 0) = Inr (replicate n 0)"
  by (simp add: store_range_def flip: replicate_add)

lemma store_range_family:
  "store_range (replicate 256 0) 0 [x, 0] = Inr (x # replicate 255 (0 :: u8))"
  using replicate_add [of 1 "254" "0 :: u8"] by (simp add: store_range_def)

lemma replicate_update_same: "(replicate n x)[i := x] = replicate n x"
  by (rule nth_equalityI; cases "i < n") (auto simp: nth_list_update)

lemma request_feed_head:
  assumes "c \<in> {0x01, 0x03, 0x04}" and "dest_ok d"
  shows "feed_list request_parser_feed (request_parser_init p)
      ([0x05, c, rsv, dest_type d] @ dest_head d) =
    Inr (rq_parser request_dstaddr c (dest_type d) (dest_clear d) [0, 0] (length (dest_bytes d)) 0)"
proof -
  let ?p = "(request_parser_init p)\<lparr>rp_state := request_atyp,
        rp_request := (rp_request (request_parser_init p))\<lparr>rq_cmd := c\<rparr>\<rparr>"
  have start: "feed_list request_parser_feed (request_parser_init p) [0x05, c, rsv] = Inr ?p"
    using assms(1) by (auto simp: request_parser_init_def request_feed_defs)
  have "feed_list request_parser_feed ?p (dest_type d # dest_head d) =
      Inr (rq_parser request_dstaddr c (dest_type d) (dest_clear d) [0, 0] (length (dest_bytes d)) 0)"
    using assms(2)
    by (cases d)
      (auto simp: request_parser_init_def rq_parser_def request_feed_defs store_range_clear
        store_range_family store_at_def u8_simps replicate_update_same)
  with start feed_list_append [of request_parser_feed "request_parser_init p" "[0x05, c, rsv]"
      "dest_type d # dest_head d"]
  show ?thesis by simp
qed

lemma dest_wire_split: "dest_wire d = dest_head d @ dest_bytes d"
  by (cases d) auto

lemma request_run_message:
  assumes c: "c \<in> {0x01, 0x03, 0x04}" and d: "dest_ok d" and port: "length port = 2"
  shows "parse_run request_parser_feed (\<lambda>p. request_final (rp_state p)) (request_parser_init p)
      (request_message c rsv d port @ rest) =
    Inr (rq_parser request_done c (dest_type d) (dest_mem d) port 2 2, rest)"
proof -
  obtain off k where m: "addr_member (dest_type d) = Some (off, k)" "length (dest_bytes d) \<le> k"
      "dest_mem d = take off (dest_clear d) @ dest_bytes d @
        drop (off + length (dest_bytes d)) (dest_clear d)"
    using d by (cases d) (auto simp: addr_member_def)
  have clear: "length (dest_clear d) = 256" and ne: "dest_bytes d \<noteq> []"
    using d by (cases d; auto)+
  let ?hd = "[0x05, c, rsv, dest_type d] @ dest_head d"
  have "feed_list request_parser_feed (request_parser_init p) (?hd @ dest_bytes d) =
      feed_list request_parser_feed (rq_parser request_dstaddr c (dest_type d) (dest_clear d) [0, 0]
        (length (dest_bytes d)) 0) (dest_bytes d)"
    unfolding feed_list_append [of _ _ ?hd] request_feed_head [OF c d] by simp
  also have "\<dots> = Inr (rq_parser request_dstport c (dest_type d) (dest_mem d) [0, 0] 2 0)"
    using request_feed_addr [OF m(1,2) clear, of 0 "dest_bytes d"] ne m(3) by simp
  finally have "feed_list request_parser_feed (request_parser_init p) (?hd @ dest_bytes d) =
      Inr (rq_parser request_dstport c (dest_type d) (dest_mem d) [0, 0] 2 0)" .
  moreover have "\<not> request_final (rp_state (rq_parser request_dstport c t a q 2 0))" for t a q
    by (simp add: rq_parser_def request_final_def request_failed_def)
  moreover obtain x y where "port = [x, y]"
    using port by (auto simp: length_Suc_conv numeral_2_eq_2)
  ultimately show ?thesis
    using request.run_past [of "request_parser_init p" "?hd @ dest_bytes d" _ "port @ rest"]
      request_feed_port [of c "dest_type d" "dest_mem d" x y rest]
    by (simp add: request_message_def dest_wire_split)
qed

text \<open>A name of length 0 makes the parser write before its union.\<close>

lemma request_run_empty_name:
  assumes "c \<in> {0x01, 0x03, 0x04}"
  shows "parse_run request_parser_feed (\<lambda>p. request_final (rp_state p)) (request_parser_init p)
      ([0x05, c, rsv, 0x03, 0x00] @ rest) = Inl OutOfBounds"
  using assms
  by (auto simp: request_parser_init_def request_feed_defs request_final_def request_failed_def)

text \<open>The commands the parser refuses, among them \<open>socks_req_cmd_bind\<close>.\<close>

lemma request_run_bad_command:
  assumes "c \<notin> {0x01, 0x03, 0x04}"
  shows "\<exists>q. parse_run request_parser_feed (\<lambda>p. request_final (rp_state p)) (request_parser_init p)
      ([0x05, c] @ rest) = Inr (q, rest) \<and> rp_state q = request_error_unsupported_cmd"
  using assms
  by (auto simp: request_parser_init_def request_feed_defs request_final_def request_failed_def)

section \<open>The replies\<close>

lemma reply_address_dest:
  assumes "dest_ok d" and "\<And>x. d = Domain x \<Longrightarrow> 0 \<notin> set x \<and> length x < 255"
  shows "reply_address \<lparr>rq_cmd = c, rq_dst_addr_type = dest_type d, rq_dst_addr = dest_mem d,
      rq_dst_port = port\<rparr> = Inr (dest_wire d)"
proof (cases d)
  case (Domain x)
  with assms have "take 255 (x @ replicate (256 - length x) 0) = x @ 0 # replicate (254 - length x) 0"
    by (auto simp: min_def simp flip: replicate_Suc)
  with Domain assms show ?thesis
    by (simp add: reply_address_def socks_req_defs FQDN_SIZE_def)
qed (use assms in \<open>auto simp: reply_address_def socks_req_defs load_range_def\<close>)

lemma reply_address_long_name:
  assumes "length x = 255" and "0 \<notin> set x"
  shows "reply_address \<lparr>rq_cmd = c, rq_dst_addr_type = dest_type (Domain x),
      rq_dst_addr = dest_mem (Domain x), rq_dst_port = port\<rparr> = Inl OutOfBounds"
  using assms by (simp add: reply_address_def socks_req_defs FQDN_SIZE_def c_str_unterminated)

lemma request_marshalll_ok:
  assumes b: "buffer_ok b" and aux: "reply_address r = Inr aux" and port: "length (rq_dst_port r) = 2"
    and room: "6 + length aux \<le> room b"
  obtains b' where "request_marshalll b s r = Inr (6 + int (length aux), b')" "buffer_ok b'"
    "pending b' = pending b @ [0x05, status_code s, 0x00, rq_dst_addr_type r] @ aux @ rq_dst_port r"
    "shape b' = shape b" "room b' = room b - (6 + length aux)"
proof -
  let ?m = "[0x05, status_code s, 0x00, rq_dst_addr_type r] @ aux @ rq_dst_port r"
  obtain b1 b' where "buffer_poke b (b_write b) ?m = Inr b1"
      "buffer_write_adv b1 (6 + int (length aux)) = Inr b'" "buffer_ok b'"
      "pending b' = pending b @ ?m" "shape b' = shape b" "room b' = room b - (6 + length aux)"
    by (rule buffer_poke_adv_ok [of b ?m "6 + int (length aux)"]) (use assms in auto)
  with assms room_le_announced [of b] show ?thesis
    by (intro that [of b']) (auto simp: request_marshalll_def buffer_write_ptr_ok)
qed

lemma request_marshalll_full:
  assumes "buffer_ok b" and "reply_address r = Inr aux" and "announced b < 6 + length aux"
  shows "request_marshalll b s r = Inr (-1, b)"
  using assms by (simp add: request_marshalll_def buffer_write_ptr_ok)

section \<open>Properties\<close>

text \<open>C32. The request parser reads exactly one request, however the stream is cut into
  segments: for every command it accepts and every IPv4, IPv6 or non-empty domain destination it
  ends in \<open>request_done\<close> with the command, the type, the address in the layout of the socket
  address union and the port, and leaves what follows unread.\<close>

theorem request_segments_message:
  assumes "c \<in> {0x01, 0x03, 0x04}" and "dest_ok d" and "length port = 2"
    and "buffer_ok b" and "pending b = []" and "\<forall>s\<in>set ss. length s \<le> capacity b"
    and "concat ss = request_message c rsv d port @ rest"
  shows "\<exists>b' k. consume_segments request_parser_feed rp_state request_is_done b
        (request_parser_init p) err ss =
      Inr (request_done, b', rq_parser request_done c (dest_type d) (dest_mem d) port 2 2, err) \<and>
    buffer_ok b' \<and> shape b' = shape b \<and> pending b' @ concat (drop k ss) = rest"
proof -
  have run: "parse_run request_parser_feed (\<lambda>p. request_final (rp_state p))
      (request_parser_init p) (concat ss) =
      Inr (rq_parser request_done c (dest_type d) (dest_mem d) port 2 2, rest)"
    unfolding assms(7) by (rule request_run_message [OF assms(1-3)])
  have "\<not> request_final (rp_state (request_parser_init p))"
    by (simp add: request_final_def request_failed_def request_parser_init_def)
  from request.consume_segments_refines [OF assms(4,5) this assms(6) run] show ?thesis
    by (simp add: request_final_def request_failed_def rq_parser_def)
qed

theorem request_segments_message_witness:
  "\<forall>p. \<exists>b' k. consume_segments request_parser_feed rp_state request_is_done (buffer_of 8 [])
      (request_parser_init p) (Some False) [[5, 1], [0, 3, 2, 97], [98, 0, 80, 7]] =
    Inr (request_done, b', rq_parser request_done 1 3 (dest_mem (Domain [97, 98])) [0, 80] 2 2,
      Some False) \<and>
    buffer_ok b' \<and> shape b' = (8, 8) \<and>
    pending b' @ concat (drop k [[5, 1], [0, 3, 2, 97], [98, 0, 80, 7]]) = [7]"
  using request_segments_message [of 1 "Domain [97, 98]" "[0, 80]" "buffer_of 8 []"
      "[[5, 1], [0, 3, 2, 97], [98, 0, 80, 7]]" 0 "[7]"]
  by (simp add: request_message_def)

text \<open>A request with a domain name of length zero makes \<open>request_consume\<close> write in front of
  the array of the name.\<close>

theorem request_consume_empty_name:
  assumes "buffer_ok b" and "c \<in> {0x01, 0x03, 0x04}"
    and "pending b = [0x05, c, rsv, 0x03, 0x00] @ rest"
  shows "request_consume b (request_parser_init p) err = Inl OutOfBounds"
proof -
  have "parse_run request_parser_feed (\<lambda>p. request_final (rp_state p)) (request_parser_init p)
      (pending b) = Inl OutOfBounds"
    unfolding assms(3) by (rule request_run_empty_name [OF assms(2)])
  from request.consume_fault [OF assms(1) this] show ?thesis
    by (simp add: request_consume_def)
qed

theorem request_consume_empty_name_witness:
  "\<forall>p. request_consume (buffer_of 16 [5, 1, 0, 3, 0, 0, 80]) (request_parser_init p) (Some False) =
     Inl OutOfBounds"
  using request_consume_empty_name [of "buffer_of 16 [5, 1, 0, 3, 0, 0, 80]" 1 0 "[0, 80]" _
      "Some False"]
  by simp

text \<open>The reply to a request that was read echoes its destination: behind version, status
  and reserved byte come the address type, the address and the port in the form in which the
  request had them.\<close>

theorem request_reply_echo:
  assumes "dest_ok d" and "\<And>x. d = Domain x \<Longrightarrow> 0 \<notin> set x \<and> length x < 255"
    and "length port = 2" and "buffer_ok b" and "length (request_message c rsv d port) \<le> room b"
  shows "\<exists>b'. request_marshalll b s
        (rp_request (rq_parser request_done c (dest_type d) (dest_mem d) port 2 2)) =
      Inr (int (length (request_message c rsv d port)), b') \<and> buffer_ok b' \<and>
    pending b' = pending b @ request_message (status_code s) 0 d port"
proof -
  let ?r = "\<lparr>rq_cmd = c, rq_dst_addr_type = dest_type d, rq_dst_addr = dest_mem d,
    rq_dst_port = port\<rparr>"
  have "reply_address ?r = Inr (dest_wire d)"
    by (rule reply_address_dest [OF assms(1,2)])
  moreover have "6 + length (dest_wire d) \<le> room b"
    using assms(3,5) by (simp add: request_message_def)
  ultimately obtain b' where "request_marshalll b s ?r = Inr (6 + int (length (dest_wire d)), b')"
      "buffer_ok b'"
      "pending b' = pending b @ [0x05, status_code s, 0x00, dest_type d] @ dest_wire d @ port"
    using request_marshalll_ok [OF assms(4), of ?r "dest_wire d" s] assms(3) by auto
  then show ?thesis
    using assms(3) by (auto simp: request_message_def rq_parser_def)
qed

theorem request_reply_echo_witness:
  "\<exists>b'. request_marshalll (buffer_of 16 []) status_host_unreachable
      (rp_request (rq_parser request_done 1 3 (dest_mem (Domain [97, 98])) [0, 80] 2 2)) =
    Inr (9, b') \<and> buffer_ok b' \<and> pending b' = [5, 4, 0, 3, 2, 97, 98, 0, 80]"
  using request_reply_echo [of "Domain [97, 98]" "[0, 80]" "buffer_of 16 []" 1 0
      status_host_unreachable]
  by (simp add: request_message_def)

section \<open>\<open>cmd_resolve\<close>\<close>

text \<open>What \<open>gethostbyname\<close> answers for a name: the family (as the two bytes that \<open>sin_family\<close> takes of it) and
  the bytes of the first address.\<close>

record hostent =
  h_addrtype :: "u8 list"
  h_addr :: "u8 list"

text \<open>The pointer to the address is the member of the union that it points to, with its length; \<open>domain\<close> is the family.\<close>

record resolved =
  rs_len :: nat
  rs_domain :: int

definition cmd_resolve ::
  "(u8 list \<Rightarrow> hostent option) \<Rightarrow> request \<Rightarrow> (socks_response_status \<times> request \<times> resolved option) result" where
  "cmd_resolve gethostbyname r =
     bind_res
       (if rq_dst_addr_type r = socks_req_addrtype_domain then
          bind_res (c_str (take FQDN_SIZE (rq_dst_addr r))) (\<lambda>name.
          case gethostbyname name of
            None \<Rightarrow> Inr (None, r\<lparr>rq_dst_addr := replicate SOCKS_ADDR_SIZE 0\<rparr>)
          | Some host \<Rightarrow>
              bind_res (store_range (rq_dst_addr r) 0 (h_addrtype host)) (\<lambda>a.
              bind_res (store_range a 4 (h_addr host)) (\<lambda>a.
              Inr (Some (), r\<lparr>rq_dst_addr := a\<rparr>))))
        else Inr (Some (), r)) (\<lambda>(found, r).
     if found = None then Inr (status_host_unreachable, r, None)
     else if rq_dst_addr_type r = socks_req_addrtype_ipv4 then
       bind_res (store_range (rq_dst_addr r) 2 (rq_dst_port r)) (\<lambda>a.
       Inr (status_succeeded, r\<lparr>rq_dst_addr := a\<rparr>, Some \<lparr>rs_len = 16, rs_domain = 2\<rparr>))
     else if rq_dst_addr_type r = socks_req_addrtype_ipv6 then
       bind_res (store_range (rq_dst_addr r) 2 (rq_dst_port r)) (\<lambda>a.
       Inr (status_succeeded, r\<lparr>rq_dst_addr := a\<rparr>, Some \<lparr>rs_len = 28, rs_domain = 10\<rparr>))
     else Inr (status_address_type_not_supported, r, None))"

text \<open>A name is never resolved: the type of the address stays that of a name.\<close>

lemma cmd_resolve_name:
  assumes "rq_dst_addr_type r = socks_req_addrtype_domain"
    and "cmd_resolve gethostbyname r = Inr (status, r', out)"
  shows "out = None \<and> status \<in> {status_host_unreachable, status_address_type_not_supported}"
  using assms by (auto simp: cmd_resolve_def socks_req_defs elim!: bind_res_InrE split: option.splits if_splits)

lemma cmd_resolve_address:
  assumes "rq_dst_addr_type r \<in> {socks_req_addrtype_ipv4, socks_req_addrtype_ipv6}"
    and "length (rq_dst_addr r) = SOCKS_ADDR_SIZE" and "length (rq_dst_port r) = 2"
  shows "\<exists>r' out. cmd_resolve gethostbyname r = Inr (status_succeeded, r', Some out) \<and>
    take 2 (drop 2 (rq_dst_addr r')) = rq_dst_port r"
  using assms by (auto simp: cmd_resolve_def socks_req_defs store_range_def SOCKS_ADDR_SIZE_def)

end
