(* ===== verification/AdminReply.thy ===== *)
theory AdminReply
  imports Buffer
begin

text \<open>
  The one-byte status replies of the admin parsers. The \<open>marshall\<close> functions of
  \<^verbatim>\<open>admin_connect.c\<close> and of the other five files differ in one thing: the first advances the
  write pointer by the byte it wrote, the others by the whole free space. The parser theories
  name their instances.
\<close>

definition status_reply :: "buffer \<Rightarrow> u8 \<Rightarrow> (int \<times> buffer) result" where
  "status_reply b status =
     bind_res (buffer_write_ptr b) (\<lambda>(buff, n).
     if n < 1 then Inr (-1, b)
     else
       bind_res (buffer_poke b buff [status]) (\<lambda>b.
       bind_res (buffer_write_adv b 1) (\<lambda>b. Inr (1, b))))"

definition status_reply_rest :: "buffer \<Rightarrow> u8 \<Rightarrow> (int \<times> buffer) result" where
  "status_reply_rest b status =
     bind_res (buffer_write_ptr b) (\<lambda>(buff, n).
     if n < 1 then Inr (-1, b)
     else
       bind_res (buffer_poke b buff [status]) (\<lambda>b.
       bind_res (buffer_write_adv b (int n)) (\<lambda>b. Inr (1, b))))"

lemma status_reply_ok:
  assumes "buffer_ok b" and "1 \<le> room b"
  obtains b' where "status_reply b s = Inr (1, b')" "buffer_ok b'"
    "pending b' = pending b @ [s]" "shape b' = shape b" "room b' = room b - 1"
proof -
  obtain b1 b' where "buffer_poke b (b_write b) [s] = Inr b1"
      "buffer_write_adv b1 1 = Inr b'" "buffer_ok b'" "pending b' = pending b @ [s]"
      "shape b' = shape b" "room b' = room b - 1"
    by (rule buffer_poke_adv_ok [of b "[s]" 1]) (use assms in auto)
  with assms room_le_announced [of b] show ?thesis
    by (intro that [of b']) (auto simp: status_reply_def buffer_write_ptr_ok)
qed

lemma status_reply_full: "buffer_ok b \<Longrightarrow> announced b < 1 \<Longrightarrow> status_reply b s = Inr (-1, b)"
  by (simp add: status_reply_def buffer_write_ptr_ok)

text \<open>
  Behind the status byte the other functions make pending what the array happens to hold, up
  to the limit.
\<close>

definition stale :: "buffer \<Rightarrow> u8 list" where
  "stale b = take (room b - 1) (drop (Suc (b_write b)) (b_mem b))"

lemma length_stale: "buffer_ok b \<Longrightarrow> length (stale b) = room b - 1"
  by (auto simp: stale_def buffer_dims)

lemma status_reply_rest_ok:
  assumes ok: "buffer_ok b" and wh: "whole b" and fit: "1 \<le> room b"
  obtains b' where "status_reply_rest b s = Inr (1, b')" "buffer_ok b'"
    "pending b' = pending b @ s # stale b" "shape b' = shape b" "room b' = 0"
proof -
  let ?bs = "s # stale b"
  obtain b1 b' where b': "buffer_poke b (b_write b) ?bs = Inr b1"
      "buffer_write_adv b1 (int (room b)) = Inr b'" "buffer_ok b'" "pending b' = pending b @ ?bs"
      "shape b' = shape b" "room b' = room b - length ?bs"
    by (rule buffer_poke_adv_ok [of b ?bs "int (room b)"])
      (use ok fit in \<open>auto simp: length_stale\<close>)
  have w: "b_write b + room b \<le> length (b_mem b)" "0 < room b"
    using ok fit by (auto simp: buffer_dims)
  then have "stale b @ drop (b_write b + room b) (b_mem b) = drop (Suc (b_write b)) (b_mem b)"
    using append_take_drop_id [of "room b - 1" "drop (Suc (b_write b)) (b_mem b)"]
    by (simp add: stale_def add.commute)
  then have "buffer_poke b (b_write b) [s] = Inr b1"
    using b'(1) w ok by (auto simp: buffer_poke_def array_simps length_stale)
  with b' ok fit room_whole [OF wh] show ?thesis
    by (intro that [of b']) (auto simp: status_reply_rest_def buffer_write_ptr_ok length_stale)
qed

text \<open>
  In a buffer that announces a byte more than its array has, the write pointer leaves the array:
  whoever reads the pending bytes reads behind it.
\<close>

lemma status_reply_rest_overrun:
  assumes ok: "buffer_ok b" and short: "b_limit b = Suc (length (b_mem b))"
  obtains b' where "status_reply_rest b s =
      (if b_write b < length (b_mem b) then Inr (1, b') else Inl OutOfBounds)"
    "b_read b' = b_read b" "b_write b' = b_limit b" "shape b' = shape b"
proof -
  let ?b = "b\<lparr>b_mem := (b_mem b)[b_write b := s], b_write := b_limit b\<rparr>"
  have le: "b_write b \<le> length (b_mem b)"
    using ok by (simp add: buffer_dims)
  then have "status_reply_rest b s =
      (if b_write b < length (b_mem b) then Inr (1, ?b) else Inl OutOfBounds)"
    using ok short
    by (auto simp: status_reply_rest_def buffer_write_ptr_ok announced_def buffer_poke_def
        store_range_def buffer_write_adv_def upd_conv_take_nth_drop Let_def)
  then show ?thesis
    by (intro that [of ?b]) (use ok in \<open>auto simp: shape_def buffer_dims\<close>)
qed

lemma status_reply_rest_full:
  "buffer_ok b \<Longrightarrow> announced b < 1 \<Longrightarrow> status_reply_rest b s = Inr (-1, b)"
  by (simp add: status_reply_rest_def buffer_write_ptr_ok)

end
