(* ===== verification/AdminConnect.thy ===== *)
theory AdminConnect
  imports ParserLoop AdminReply
begin

text \<open>
  The parser of the login of the management protocol, \<^verbatim>\<open>src/parsers/admin_connect.c\<close> and its
  header: version 0, length and bytes of the password.
\<close>

section \<open>State and operations\<close>

definition connect_STATUS_OK :: u8 where "connect_STATUS_OK = 0x00"
definition connect_STATUS_ERROR_IN_VERSION :: u8 where "connect_STATUS_ERROR_IN_VERSION = 0x01"
definition connect_STATUS_ERROR_IN_PASSLEN :: u8 where "connect_STATUS_ERROR_IN_PASSLEN = 0x02"
definition connect_STATUS_ERROR :: u8 where "connect_STATUS_ERROR = 0x03"
definition MAX_PASS_SIZE :: nat where "MAX_PASS_SIZE = 0xFF"

lemmas connect_status_defs =
  connect_STATUS_OK_def connect_STATUS_ERROR_IN_VERSION_def connect_STATUS_ERROR_IN_PASSLEN_def
  connect_STATUS_ERROR_def

datatype admin_connect_state =
    admin_connect_version
  | admin_connect_passlen
  | admin_connect_passwd
  | admin_connect_done
  | admin_connect_error
  | admin_connect_error_version
  | admin_connect_error_passlen

record password =
  cw_passlen :: u8
  cw_passwd :: "u8 list"

record admin_connect_parser =
  ac_state :: admin_connect_state
  ac_password :: password
  ac_remaining :: u8
  ac_read :: u8
  ac_version :: u8
  ac_status :: u8

text \<open>The status keeps what the memory of the parser held.\<close>

definition admin_connect_parser_init :: "admin_connect_parser \<Rightarrow> admin_connect_parser" where
  "admin_connect_parser_init p = p\<lparr>
     ac_state := admin_connect_version,
     ac_password := \<lparr>cw_passlen = 0, cw_passwd = replicate MAX_PASS_SIZE 0\<rparr>,
     ac_version := 0x00, ac_remaining := 0, ac_read := 0\<rparr>"

definition connect_remaining_set :: "admin_connect_parser \<Rightarrow> u8 \<Rightarrow> admin_connect_parser" where
  "connect_remaining_set p n = p\<lparr>ac_remaining := n, ac_read := 0\<rparr>"

definition connect_remaining_is_done :: "admin_connect_parser \<Rightarrow> bool" where
  "connect_remaining_is_done p \<longleftrightarrow> ac_remaining p \<le> ac_read p"

definition connect_store_passwd ::
  "admin_connect_parser \<Rightarrow> u8 \<Rightarrow> admin_connect_parser result" where
  "connect_store_passwd p b =
     bind_res (store_at (cw_passwd (ac_password p)) (unat (ac_read p)) b) (\<lambda>a.
     Inr (p\<lparr>ac_password := (ac_password p)\<lparr>cw_passwd := a\<rparr>\<rparr>))"

definition admin_connect_parser_feed ::
  "admin_connect_parser \<Rightarrow> u8 \<Rightarrow> admin_connect_parser result" where
  "admin_connect_parser_feed p b =
     (case ac_state p of
        admin_connect_version \<Rightarrow> Inr
          (if ac_version p = b then p\<lparr>ac_state := admin_connect_passlen\<rparr>
           else p\<lparr>ac_state := admin_connect_error_version,
                  ac_status := connect_STATUS_ERROR_IN_VERSION\<rparr>)
      | admin_connect_passlen \<Rightarrow> Inr
          (if b \<le> 0 then p\<lparr>ac_state := admin_connect_error_passlen,
                           ac_status := connect_STATUS_ERROR_IN_PASSLEN\<rparr>
           else
             let p = connect_remaining_set p b;
                 p = p\<lparr>ac_password := (ac_password p)\<lparr>cw_passlen := b\<rparr>\<rparr> in
             p\<lparr>ac_state := admin_connect_passwd\<rparr>)
      | admin_connect_passwd \<Rightarrow>
          bind_res (connect_store_passwd p b) (\<lambda>p.
          let p = p\<lparr>ac_read := ac_read p + 1\<rparr> in
          if connect_remaining_is_done p then
            bind_res (connect_store_passwd p 0) (\<lambda>p.
            Inr (p\<lparr>ac_state := admin_connect_done, ac_status := connect_STATUS_OK\<rparr>))
          else Inr p)
      | admin_connect_done \<Rightarrow> Inr (p\<lparr>ac_status := connect_STATUS_OK\<rparr>)
      | admin_connect_error \<Rightarrow> Inr (p\<lparr>ac_status := connect_STATUS_ERROR\<rparr>)
      | admin_connect_error_version \<Rightarrow> Inr (p\<lparr>ac_status := connect_STATUS_ERROR_IN_VERSION\<rparr>)
      | admin_connect_error_passlen \<Rightarrow> Inr (p\<lparr>ac_status := connect_STATUS_ERROR_IN_PASSLEN\<rparr>))"

definition admin_connect_is_done ::
  "admin_connect_state \<Rightarrow> bool option \<Rightarrow> bool \<times> bool option" where
  "admin_connect_is_done state errored =
     (if state \<in> {admin_connect_error, admin_connect_error_passlen, admin_connect_error_version}
      then (True, map_option (\<lambda>_. True) errored)
      else if state = admin_connect_done then (True, errored)
      else (False, errored))"

definition admin_connect_consume ::
  "buffer \<Rightarrow> admin_connect_parser \<Rightarrow> bool option \<Rightarrow>
   (admin_connect_state \<times> buffer \<times> admin_connect_parser \<times> bool option) result" where
  "admin_connect_consume buff p errored =
     consume_loop admin_connect_parser_feed ac_state admin_connect_is_done (ac_state p) buff p
       errored"

definition admin_connect_marshall :: "buffer \<Rightarrow> u8 \<Rightarrow> (int \<times> buffer) result" where
  "admin_connect_marshall b status = status_reply b status"

section \<open>The parser meets the interfaces\<close>

definition connect_failed :: "admin_connect_state \<Rightarrow> bool" where
  "connect_failed s \<longleftrightarrow>
     s \<in> {admin_connect_error, admin_connect_error_passlen, admin_connect_error_version}"

definition connect_final :: "admin_connect_state \<Rightarrow> bool" where
  "connect_final s \<longleftrightarrow> connect_failed s \<or> s = admin_connect_done"

definition connect_at_pass ::
  "admin_connect_parser \<Rightarrow> nat \<Rightarrow> nat \<Rightarrow> u8 list \<Rightarrow> admin_connect_parser" where
  "connect_at_pass p n r a = p\<lparr>ac_state := admin_connect_passwd,
     ac_password := (ac_password p)\<lparr>cw_passwd := a\<rparr>,
     ac_remaining := of_nat n, ac_read := of_nat r\<rparr>"

definition connect_after_pass ::
  "admin_connect_parser \<Rightarrow> nat \<Rightarrow> u8 list \<Rightarrow> admin_connect_parser" where
  "connect_after_pass p n a =
     (connect_at_pass p n n a)\<lparr>ac_state := admin_connect_done, ac_status := connect_STATUS_OK\<rparr>"

lemmas connect_field_defs = connect_at_pass_def connect_after_pass_def

lemmas connect_feed_defs =
  admin_connect_parser_feed_def connect_store_passwd_def connect_remaining_is_done_def
  connect_remaining_set_def Let_def

interpretation admin_connect: byte_parser admin_connect_parser_feed ac_state admin_connect_is_done
    connect_final connect_failed
proof unfold_locales
  fix s e
  show "admin_connect_is_done s e =
      (connect_final s, if connect_failed s then map_option (\<lambda>_. True) e else e)"
    by (auto simp: admin_connect_is_done_def connect_final_def connect_failed_def)
next
  fix p :: admin_connect_parser and c
  assume "connect_final (ac_state p)"
  then show "\<exists>p'. admin_connect_parser_feed p c = Inr p' \<and> ac_state p' = ac_state p"
    by (auto simp: connect_final_def connect_failed_def admin_connect_parser_feed_def)
qed (simp add: connect_final_def)

interpretation connect_password: last_field admin_connect_parser_feed ac_state
    admin_connect_is_done connect_final connect_failed connect_at_pass connect_after_pass
  by unfold_locales
    (auto simp: connect_field_defs connect_feed_defs array_simps u8_simps connect_final_def
      connect_failed_def intro!: admin_connect_parser.equality)

section \<open>What the parser accepts\<close>

definition connect_message :: "u8 list \<Rightarrow> u8 list" where
  "connect_message w = [0x00, of_nat (length w)] @ w"

definition connect_accepted :: "u8 list \<Rightarrow> admin_connect_parser" where
  "connect_accepted w =
     \<lparr>ac_state = admin_connect_done,
      ac_password = \<lparr>cw_passlen = of_nat (length w),
        cw_passwd = w @ 0 # replicate (254 - length w) 0\<rparr>,
      ac_remaining = of_nat (length w), ac_read = of_nat (length w), ac_version = 0x00,
      ac_status = connect_STATUS_OK\<rparr>"

lemma connect_feed_start:
  assumes "0 < n" and "n < 256"
  shows "feed_list admin_connect_parser_feed (admin_connect_parser_init p) [0x00, of_nat n] =
    Inr (connect_at_pass ((admin_connect_parser_init p)
      \<lparr>ac_password := \<lparr>cw_passlen = of_nat n, cw_passwd = replicate 255 0\<rparr>\<rparr>) n 0
      (replicate 255 0))"
  using assms
  by (auto simp: admin_connect_parser_init_def connect_feed_defs connect_field_defs u8_simps
      MAX_PASS_SIZE_def)

lemma connect_run_message:
  assumes w: "0 < length w" "length w < 255"
  shows "parse_run admin_connect_parser_feed (\<lambda>p. connect_final (ac_state p))
      (admin_connect_parser_init p) (connect_message w @ rest) = Inr (connect_accepted w, rest)"
proof -
  let ?c = "(admin_connect_parser_init p)
    \<lparr>ac_password := \<lparr>cw_passlen = of_nat (length w), cw_passwd = replicate 255 0\<rparr>\<rparr>"
  have "connect_after_pass ?c (length w) (w @ 0 # drop (Suc (length w)) (replicate 255 0)) =
      connect_accepted w"
    by (simp add: connect_accepted_def connect_field_defs admin_connect_parser_init_def)
  with connect_password.run_last_field [OF connect_feed_start _ refl w, of p rest] w show ?thesis
    by (simp add: connect_message_def)
qed

lemma connect_run_long_pass:
  assumes "length w = 255"
  shows "parse_run admin_connect_parser_feed (\<lambda>p. connect_final (ac_state p))
      (admin_connect_parser_init p) (connect_message w @ rest) = Inl OutOfBounds"
  using connect_password.run_field_overflow [OF connect_feed_start _ assms, of p rest] assms
  by (simp add: connect_message_def)

lemma connect_run_rejects:
  assumes "v \<noteq> 0 \<or> n = 0"
  shows "\<exists>q r. parse_run admin_connect_parser_feed (\<lambda>p. connect_final (ac_state p))
      (admin_connect_parser_init p) (v # n # rest) = Inr (q, r) \<and> connect_failed (ac_state q) \<and>
    ac_status q = (if v \<noteq> 0 then connect_STATUS_ERROR_IN_VERSION else connect_STATUS_ERROR_IN_PASSLEN)"
  using assms
  by (auto simp: admin_connect_parser_init_def connect_feed_defs connect_final_def
      connect_failed_def)

end
