(* ===== verification/AdminGet.thy ===== *)
theory AdminGet
  imports ParserLoop
begin

text \<open>
  The parser of the GET request of the management protocol, \<^verbatim>\<open>src/parsers/admin_get.c\<close> and
  its header: action 0 and one of nine options; and its reply, a status, a length byte and the
  bytes of the answer.
\<close>

section \<open>State and operations\<close>

definition get_STATUS_OK :: u8 where "get_STATUS_OK = 0x00"
definition get_STATUS_ERROR_INVALID_ACTION :: u8 where "get_STATUS_ERROR_INVALID_ACTION = 0x01"
definition get_STATUS_ERROR_INVALID_OPTION :: u8 where "get_STATUS_ERROR_INVALID_OPTION = 0x02"
definition get_STATUS_ERROR :: u8 where "get_STATUS_ERROR = 0x03"
definition GET_ACTION :: u8 where "GET_ACTION = 0x00"

lemmas get_status_defs =
  get_STATUS_OK_def get_STATUS_ERROR_INVALID_ACTION_def get_STATUS_ERROR_INVALID_OPTION_def
  get_STATUS_ERROR_def

text \<open>\<open>enum option\<close>.\<close>

datatype get_opt =
    opt_users
  | opt_passwords
  | opt_buffsize
  | opt_auth_status
  | opt_spoofing_status
  | opt_sent_bytes
  | opt_recv_bytes
  | opt_historic_connections
  | opt_current_connectios

fun get_opt_code :: "get_opt \<Rightarrow> u8" where
  "get_opt_code opt_users = 0x00"
| "get_opt_code opt_passwords = 0x01"
| "get_opt_code opt_buffsize = 0x02"
| "get_opt_code opt_auth_status = 0x03"
| "get_opt_code opt_spoofing_status = 0x04"
| "get_opt_code opt_sent_bytes = 0x05"
| "get_opt_code opt_recv_bytes = 0x06"
| "get_opt_code opt_historic_connections = 0x07"
| "get_opt_code opt_current_connectios = 0x08"

datatype admin_get_state =
    admin_get_action
  | admin_get_option
  | admin_get_done
  | admin_get_error
  | admin_get_error_action
  | admin_get_error_option

record admin_get_parser =
  ag_state :: admin_get_state
  ag_option :: get_opt
  ag_status :: u8

definition admin_get_parser_init :: "admin_get_parser \<Rightarrow> admin_get_parser" where
  "admin_get_parser_init p = p\<lparr>ag_state := admin_get_action\<rparr>"

text \<open>The member of the enumeration with a given code, as the case labels of \<open>get_option\<close> test it.\<close>

definition opt_of_code :: "u8 \<Rightarrow> get_opt option" where
  "opt_of_code b =
     find (\<lambda>x. get_opt_code x = b)
       [opt_users, opt_passwords, opt_historic_connections, opt_current_connectios, opt_sent_bytes,
        opt_recv_bytes, opt_buffsize, opt_auth_status, opt_spoofing_status]"

definition get_option :: "u8 \<Rightarrow> admin_get_parser \<Rightarrow> admin_get_parser" where
  "get_option b p =
     (case opt_of_code b of
        Some x \<Rightarrow> p\<lparr>ag_option := x, ag_state := admin_get_done, ag_status := get_STATUS_OK\<rparr>
      | None \<Rightarrow> p\<lparr>ag_state := admin_get_error_option,
                  ag_status := get_STATUS_ERROR_INVALID_OPTION\<rparr>)"

definition get_action :: "u8 \<Rightarrow> admin_get_parser \<Rightarrow> admin_get_parser" where
  "get_action b p =
     (if b = GET_ACTION then p\<lparr>ag_state := admin_get_option\<rparr>
      else p\<lparr>ag_state := admin_get_error_action, ag_status := get_STATUS_ERROR_INVALID_ACTION\<rparr>)"

definition admin_get_parser_feed :: "admin_get_parser \<Rightarrow> u8 \<Rightarrow> admin_get_parser result" where
  "admin_get_parser_feed p b = Inr
     (case ag_state p of
        admin_get_action \<Rightarrow> get_action b p
      | admin_get_option \<Rightarrow> get_option b p
      | admin_get_done \<Rightarrow> p\<lparr>ag_status := get_STATUS_OK\<rparr>
      | admin_get_error \<Rightarrow> p\<lparr>ag_status := get_STATUS_ERROR\<rparr>
      | admin_get_error_option \<Rightarrow> p\<lparr>ag_status := get_STATUS_ERROR_INVALID_OPTION\<rparr>
      | admin_get_error_action \<Rightarrow> p\<lparr>ag_status := get_STATUS_ERROR_INVALID_ACTION\<rparr>)"

definition admin_get_is_done :: "admin_get_state \<Rightarrow> bool option \<Rightarrow> bool \<times> bool option" where
  "admin_get_is_done state errored =
     (if state \<in> {admin_get_error, admin_get_error_option, admin_get_error_action}
      then (True, map_option (\<lambda>_. True) errored)
      else if state = admin_get_done then (True, errored)
      else (False, errored))"

definition admin_get_consume ::
  "buffer \<Rightarrow> admin_get_parser \<Rightarrow> bool option \<Rightarrow>
   (admin_get_state \<times> buffer \<times> admin_get_parser \<times> bool option) result" where
  "admin_get_consume buff p errored =
     consume_loop admin_get_parser_feed ag_state admin_get_is_done (ag_state p) buff p errored"

text \<open>
  \<open>n\<close> and the third argument of \<open>memcpy\<close> are \<open>size_t\<close>, the length byte is truncated to 8 bits.
\<close>

definition admin_get_marshall ::
  "buffer \<Rightarrow> u8 \<Rightarrow> u8 list \<Rightarrow> int \<Rightarrow> (int \<times> buffer) result" where
  "admin_get_marshall b status res res_size =
     (let n = nat ((2 + res_size) mod 2 ^ 64) in
      bind_res (buffer_write_ptr b) (\<lambda>(buff, size).
      if size < n then Inr (-1, b)
      else
        bind_res (buffer_poke b buff [status, of_int res_size]) (\<lambda>b.
        bind_res (load_range res 0 (nat (res_size mod 2 ^ 64))) (\<lambda>bs.
        bind_res (buffer_poke b (buff + 2) bs) (\<lambda>b.
        bind_res (buffer_write_adv b (int n)) (\<lambda>b. Inr (int n, b)))))))"

section \<open>The parser meets the interface\<close>

definition get_failed :: "admin_get_state \<Rightarrow> bool" where
  "get_failed s \<longleftrightarrow> s \<in> {admin_get_error, admin_get_error_option, admin_get_error_action}"

definition get_final :: "admin_get_state \<Rightarrow> bool" where
  "get_final s \<longleftrightarrow> get_failed s \<or> s = admin_get_done"

interpretation admin_get: byte_parser admin_get_parser_feed ag_state admin_get_is_done
    get_final get_failed
proof unfold_locales
  fix s e
  show "admin_get_is_done s e = (get_final s, if get_failed s then map_option (\<lambda>_. True) e else e)"
    by (auto simp: admin_get_is_done_def get_final_def get_failed_def)
next
  fix p :: admin_get_parser and c
  assume "get_final (ag_state p)"
  then show "\<exists>p'. admin_get_parser_feed p c = Inr p' \<and> ag_state p' = ag_state p"
    by (auto simp: get_final_def get_failed_def admin_get_parser_feed_def)
qed (simp add: get_final_def)

section \<open>What the parser accepts\<close>

lemma opt_of_code_inverse: "opt_of_code (get_opt_code x) = Some x"
  by (cases x) (simp_all add: opt_of_code_def)

lemma opt_of_code_Some: "opt_of_code b = Some x \<Longrightarrow> b = get_opt_code x"
  unfolding opt_of_code_def find_Some_iff by blast

lemma opt_of_code_None: "opt_of_code b = None \<longleftrightarrow> 0x08 < b"
proof
  show "opt_of_code b = None" if "0x08 < b"
    using that by (auto simp: opt_of_code_def find_None_iff word_less_nat_alt)
  show "0x08 < b" if "opt_of_code b = None"
  proof (rule ccontr)
    assume "\<not> 0x08 < b"
    then have "unat b \<in> {0, 1, 2, 3, 4, 5, 6, 7, 8}"
      by (auto simp: word_less_nat_alt)
    then have "b \<in> {0, 1, 2, 3, 4, 5, 6, 7, 8}"
      by (auto dest!: arg_cong [where f = "of_nat :: nat \<Rightarrow> u8"])
    with that show False
      by (auto simp: opt_of_code_def)
  qed
qed

lemma get_run_message:
  "parse_run admin_get_parser_feed (\<lambda>p. get_final (ag_state p)) (admin_get_parser_init p)
     ([0x00, get_opt_code x] @ rest) =
   Inr (\<lparr>ag_state = admin_get_done, ag_option = x, ag_status = get_STATUS_OK\<rparr>, rest)"
  by (simp add: admin_get_parser_init_def admin_get_parser_feed_def get_action_def get_option_def
      GET_ACTION_def opt_of_code_inverse get_final_def get_failed_def)

lemma get_run_bad_option:
  assumes "0x08 < c"
  shows "\<exists>q. parse_run admin_get_parser_feed (\<lambda>p. get_final (ag_state p)) (admin_get_parser_init p)
      ([0x00, c] @ rest) = Inr (q, rest) \<and>
    ag_state q = admin_get_error_option \<and> ag_status q = get_STATUS_ERROR_INVALID_OPTION"
  using assms opt_of_code_None [of c]
  by (simp add: admin_get_parser_init_def admin_get_parser_feed_def get_action_def get_option_def
      GET_ACTION_def get_final_def get_failed_def)

section \<open>The reply\<close>

lemma admin_get_marshall_ok:
  assumes ok: "buffer_ok b" and fit: "2 + n \<le> room b" and n: "n \<le> length res" "n < 2 ^ 63"
  obtains b' where "admin_get_marshall b s res (int n) = Inr (2 + int n, b')" "buffer_ok b'"
    "pending b' = pending b @ [s, of_nat n] @ take n res" "shape b' = shape b"
    "room b' = room b - (2 + n)"
proof -
  let ?bs = "[s, of_nat n] @ take n res"
  obtain b1 b' where b': "buffer_poke b (b_write b) ?bs = Inr b1"
      "buffer_write_adv b1 (2 + int n) = Inr b'" "buffer_ok b'" "pending b' = pending b @ ?bs"
      "shape b' = shape b" "room b' = room b - length ?bs"
    by (rule buffer_poke_adv_ok [of b ?bs "2 + int n"]) (use ok fit n in auto)
  have w: "b_write b + (2 + n) \<le> length (b_mem b)"
    using ok fit by (auto simp: buffer_dims)
  then have "bind_res (buffer_poke b (b_write b) [s, of_nat n])
      (\<lambda>b1. buffer_poke b1 (b_write b + 2) (take n res)) = Inr b1"
    using b'(1) n by (auto simp: buffer_poke_def array_simps add.commute)
  moreover have "(2 + int n) mod 2 ^ 64 = 2 + int n" "int n mod 2 ^ 64 = int n"
    using n by simp_all
  ultimately show ?thesis
    using b' ok fit n room_le_announced [of b]
    by (intro that [of b'])
      (auto simp: admin_get_marshall_def buffer_write_ptr_ok load_range_def bind_res_Inr_iff Let_def
        nat_add_distrib)
qed

lemma admin_get_marshall_full:
  assumes "buffer_ok b" and "announced b < 2 + n" and "n < 2 ^ 63"
  shows "admin_get_marshall b s res (int n) = Inr (-1, b)"
proof -
  have "(2 + int n) mod 2 ^ 64 = 2 + int n"
    using assms by simp
  with assms show ?thesis
    by (simp add: admin_get_marshall_def buffer_write_ptr_ok nat_add_distrib)
qed

end
