(* ===== verification/AdminPut.thy ===== *)
theory AdminPut
  imports ParserLoop AdminReply
begin

text \<open>
  The parser of the PUT request of the management protocol, \<^verbatim>\<open>src/parsers/admin_put.c\<close> and
  its header: action 1, field 0, length and bytes of a name, length and bytes of a password.
\<close>

section \<open>State and operations\<close>

definition put_STATUS_OK :: u8 where "put_STATUS_OK = 0x00"
definition put_STATUS_ERROR_INVALID_ACTION :: u8 where "put_STATUS_ERROR_INVALID_ACTION = 0x01"
definition put_STATUS_ERROR_INVALID_FIELD :: u8 where "put_STATUS_ERROR_INVALID_FIELD = 0x02"
definition put_STATUS_ERROR_INVALID_NAMELEN :: u8 where "put_STATUS_ERROR_INVALID_NAMELEN = 0x03"
definition put_STATUS_ERROR_INVALID_PASSLEN :: u8 where "put_STATUS_ERROR_INVALID_PASSLEN = 0x04"
definition put_STATUS_ERROR :: u8 where "put_STATUS_ERROR = 0x05"

definition PUT_ACTION :: u8 where "PUT_ACTION = 0x01"
definition put_USERS_FIELD :: u8 where "put_USERS_FIELD = 0x00"
definition PUT_MAX_USR_PASS_SIZE :: nat where "PUT_MAX_USR_PASS_SIZE = 0xFF"

lemmas put_status_defs =
  put_STATUS_OK_def put_STATUS_ERROR_INVALID_ACTION_def put_STATUS_ERROR_INVALID_FIELD_def
  put_STATUS_ERROR_INVALID_NAMELEN_def put_STATUS_ERROR_INVALID_PASSLEN_def put_STATUS_ERROR_def

datatype admin_put_state =
    admin_put_action
  | admin_put_field
  | admin_put_namelen
  | admin_put_name
  | admin_put_passlen
  | admin_put_pass
  | admin_put_error
  | admin_put_error_action
  | admin_put_error_field
  | admin_put_error_namelen
  | admin_put_error_passlen
  | admin_put_done

record username =
  pu_userlen :: u8
  pu_username :: "u8 list"

record put_pass =
  pu_passlen :: u8
  pu_passwd :: "u8 list"

record admin_put_parser =
  aput_state :: admin_put_state
  aput_field :: u8
  aput_action :: u8
  aput_user :: username
  aput_pass :: put_pass
  aput_remaining :: u8
  aput_read :: u8
  aput_status :: u8

definition admin_put_parser_init :: "admin_put_parser \<Rightarrow> admin_put_parser" where
  "admin_put_parser_init p = p\<lparr>
     aput_state := admin_put_action,
     aput_user := \<lparr>pu_userlen = 0, pu_username = replicate PUT_MAX_USR_PASS_SIZE 0\<rparr>,
     aput_pass := \<lparr>pu_passlen = 0, pu_passwd = replicate PUT_MAX_USR_PASS_SIZE 0\<rparr>,
     aput_remaining := 0, aput_read := 0\<rparr>"

definition put_remaining_set :: "admin_put_parser \<Rightarrow> u8 \<Rightarrow> admin_put_parser" where
  "put_remaining_set p n = p\<lparr>aput_remaining := n, aput_read := 0\<rparr>"

definition put_remaining_is_done :: "admin_put_parser \<Rightarrow> bool" where
  "put_remaining_is_done p \<longleftrightarrow> aput_remaining p \<le> aput_read p"

definition put_store_username :: "admin_put_parser \<Rightarrow> u8 \<Rightarrow> admin_put_parser result" where
  "put_store_username p b =
     bind_res (store_at (pu_username (aput_user p)) (unat (aput_read p)) b) (\<lambda>a.
     Inr (p\<lparr>aput_user := (aput_user p)\<lparr>pu_username := a\<rparr>\<rparr>))"

definition put_store_passwd :: "admin_put_parser \<Rightarrow> u8 \<Rightarrow> admin_put_parser result" where
  "put_store_passwd p b =
     bind_res (store_at (pu_passwd (aput_pass p)) (unat (aput_read p)) b) (\<lambda>a.
     Inr (p\<lparr>aput_pass := (aput_pass p)\<lparr>pu_passwd := a\<rparr>\<rparr>))"

definition admin_put_parser_feed :: "admin_put_parser \<Rightarrow> u8 \<Rightarrow> admin_put_parser result" where
  "admin_put_parser_feed p b =
     (case aput_state p of
        admin_put_action \<Rightarrow> Inr
          (if b = PUT_ACTION then p\<lparr>aput_state := admin_put_field\<rparr>
           else p\<lparr>aput_state := admin_put_error_action,
                  aput_status := put_STATUS_ERROR_INVALID_ACTION\<rparr>)
      | admin_put_field \<Rightarrow> Inr
          (if b = put_USERS_FIELD then p\<lparr>aput_state := admin_put_namelen\<rparr>
           else p\<lparr>aput_state := admin_put_error_field,
                  aput_status := put_STATUS_ERROR_INVALID_FIELD\<rparr>)
      | admin_put_namelen \<Rightarrow> Inr
          (if b \<le> 0 then p\<lparr>aput_state := admin_put_error_namelen,
                           aput_status := put_STATUS_ERROR_INVALID_NAMELEN\<rparr>
           else
             let p = put_remaining_set p b;
                 p = p\<lparr>aput_user := (aput_user p)\<lparr>pu_userlen := b\<rparr>\<rparr> in
             p\<lparr>aput_state := admin_put_name\<rparr>)
      | admin_put_name \<Rightarrow>
          bind_res (put_store_username p b) (\<lambda>p.
          let p = p\<lparr>aput_read := aput_read p + 1\<rparr> in
          if put_remaining_is_done p then
            bind_res (put_store_username p 0) (\<lambda>p. Inr (p\<lparr>aput_state := admin_put_passlen\<rparr>))
          else Inr (p\<lparr>aput_state := admin_put_name\<rparr>))
      | admin_put_passlen \<Rightarrow> Inr
          (if b \<le> 0 then p\<lparr>aput_state := admin_put_error_passlen,
                           aput_status := put_STATUS_ERROR_INVALID_PASSLEN\<rparr>
           else
             let p = put_remaining_set p b;
                 p = p\<lparr>aput_pass := (aput_pass p)\<lparr>pu_passlen := b\<rparr>\<rparr> in
             p\<lparr>aput_state := admin_put_pass\<rparr>)
      | admin_put_pass \<Rightarrow>
          bind_res (put_store_passwd p b) (\<lambda>p.
          let p = p\<lparr>aput_read := aput_read p + 1\<rparr> in
          if put_remaining_is_done p then
            bind_res (put_store_passwd p 0) (\<lambda>p.
            Inr (p\<lparr>aput_state := admin_put_done, aput_status := put_STATUS_OK\<rparr>))
          else Inr (p\<lparr>aput_state := admin_put_pass\<rparr>))
      | admin_put_done \<Rightarrow> Inr (p\<lparr>aput_status := put_STATUS_OK\<rparr>)
      | admin_put_error \<Rightarrow> Inr (p\<lparr>aput_status := put_STATUS_ERROR\<rparr>)
      | admin_put_error_action \<Rightarrow> Inr (p\<lparr>aput_status := put_STATUS_ERROR_INVALID_ACTION\<rparr>)
      | admin_put_error_field \<Rightarrow> Inr (p\<lparr>aput_status := put_STATUS_ERROR_INVALID_FIELD\<rparr>)
      | admin_put_error_namelen \<Rightarrow> Inr (p\<lparr>aput_status := put_STATUS_ERROR_INVALID_NAMELEN\<rparr>)
      | admin_put_error_passlen \<Rightarrow> Inr (p\<lparr>aput_status := put_STATUS_ERROR_INVALID_PASSLEN\<rparr>))"

definition admin_put_is_done :: "admin_put_state \<Rightarrow> bool option \<Rightarrow> bool \<times> bool option" where
  "admin_put_is_done state err =
     (if state \<in> {admin_put_error, admin_put_error_action, admin_put_error_field,
                  admin_put_error_namelen, admin_put_error_passlen}
      then (True, map_option (\<lambda>_. True) err)
      else if state = admin_put_done then (True, err)
      else (False, err))"

definition admin_put_consume ::
  "buffer \<Rightarrow> admin_put_parser \<Rightarrow> bool option \<Rightarrow>
   (admin_put_state \<times> buffer \<times> admin_put_parser \<times> bool option) result" where
  "admin_put_consume buff p err =
     consume_loop admin_put_parser_feed aput_state admin_put_is_done (aput_state p) buff p err"

definition admin_put_marshall :: "buffer \<Rightarrow> u8 \<Rightarrow> (int \<times> buffer) result" where
  "admin_put_marshall b status = status_reply_rest b status"

section \<open>The parser meets the interfaces\<close>

definition put_failed :: "admin_put_state \<Rightarrow> bool" where
  "put_failed s \<longleftrightarrow> s \<in> {admin_put_error, admin_put_error_action, admin_put_error_field,
     admin_put_error_namelen, admin_put_error_passlen}"

definition put_final :: "admin_put_state \<Rightarrow> bool" where
  "put_final s \<longleftrightarrow> put_failed s \<or> s = admin_put_done"

definition put_at_name :: "admin_put_parser \<Rightarrow> nat \<Rightarrow> nat \<Rightarrow> u8 list \<Rightarrow> admin_put_parser" where
  "put_at_name p n r a = p\<lparr>aput_state := admin_put_name, aput_user := (aput_user p)\<lparr>pu_username := a\<rparr>,
     aput_remaining := of_nat n, aput_read := of_nat r\<rparr>"

definition put_after_name :: "admin_put_parser \<Rightarrow> nat \<Rightarrow> u8 list \<Rightarrow> admin_put_parser" where
  "put_after_name p n a = (put_at_name p n n a)\<lparr>aput_state := admin_put_passlen\<rparr>"

definition put_at_pass :: "admin_put_parser \<Rightarrow> nat \<Rightarrow> nat \<Rightarrow> u8 list \<Rightarrow> admin_put_parser" where
  "put_at_pass p n r a = p\<lparr>aput_state := admin_put_pass, aput_pass := (aput_pass p)\<lparr>pu_passwd := a\<rparr>,
     aput_remaining := of_nat n, aput_read := of_nat r\<rparr>"

definition put_after_pass :: "admin_put_parser \<Rightarrow> nat \<Rightarrow> u8 list \<Rightarrow> admin_put_parser" where
  "put_after_pass p n a =
     (put_at_pass p n n a)\<lparr>aput_state := admin_put_done, aput_status := put_STATUS_OK\<rparr>"

lemmas put_field_defs =
  put_at_name_def put_after_name_def put_at_pass_def put_after_pass_def

lemmas put_feed_defs =
  admin_put_parser_feed_def put_store_username_def put_store_passwd_def
  put_remaining_is_done_def put_remaining_set_def PUT_ACTION_def put_USERS_FIELD_def Let_def

interpretation admin_put: byte_parser admin_put_parser_feed aput_state admin_put_is_done
    put_final put_failed
proof unfold_locales
  fix s e
  show "admin_put_is_done s e = (put_final s, if put_failed s then map_option (\<lambda>_. True) e else e)"
    by (auto simp: admin_put_is_done_def put_final_def put_failed_def)
next
  fix p :: admin_put_parser and c
  assume "put_final (aput_state p)"
  then show "\<exists>p'. admin_put_parser_feed p c = Inr p' \<and> aput_state p' = aput_state p"
    by (auto simp: put_final_def put_failed_def admin_put_parser_feed_def)
qed (simp add: put_final_def)

interpretation put_name: parser_field admin_put_parser_feed aput_state admin_put_is_done
    put_final put_failed put_at_name put_after_name
  by unfold_locales
    (auto simp: put_field_defs put_feed_defs array_simps u8_simps put_final_def put_failed_def
      intro!: admin_put_parser.equality)

interpretation put_password: last_field admin_put_parser_feed aput_state admin_put_is_done
    put_final put_failed put_at_pass put_after_pass
  by unfold_locales
    (auto simp: put_field_defs put_feed_defs array_simps u8_simps put_final_def put_failed_def
      intro!: admin_put_parser.equality)

section \<open>What the parser accepts\<close>

definition put_message :: "u8 list \<Rightarrow> u8 list \<Rightarrow> u8 list" where
  "put_message u w = [0x01, 0x00, of_nat (length u)] @ u @ [of_nat (length w)] @ w"

text \<open>The members \<open>field\<close> and \<open>action\<close> are never written.\<close>

definition put_accepted :: "admin_put_parser \<Rightarrow> u8 list \<Rightarrow> u8 list \<Rightarrow> admin_put_parser" where
  "put_accepted p u w =
     \<lparr>aput_state = admin_put_done, aput_field = aput_field p, aput_action = aput_action p,
      aput_user = \<lparr>pu_userlen = of_nat (length u), pu_username = u @ 0 # replicate (254 - length u) 0\<rparr>,
      aput_pass = \<lparr>pu_passlen = of_nat (length w), pu_passwd = w @ 0 # replicate (254 - length w) 0\<rparr>,
      aput_remaining = of_nat (length w), aput_read = of_nat (length w), aput_status = put_STATUS_OK\<rparr>"

lemma put_feed_start:
  assumes "0 < n" and "n < 256"
  shows "feed_list admin_put_parser_feed (admin_put_parser_init p) [0x01, 0x00, of_nat n] =
      Inr (put_at_name ((admin_put_parser_init p)
        \<lparr>aput_user := \<lparr>pu_userlen = of_nat n, pu_username = replicate 255 0\<rparr>\<rparr>) n 0
        (replicate 255 0))"
  using assms
  by (auto simp: admin_put_parser_init_def put_feed_defs put_field_defs u8_simps
      PUT_MAX_USR_PASS_SIZE_def)

lemma put_feed_passlen:
  assumes "0 < n" and "n < 256"
  shows "feed_list admin_put_parser_feed (put_after_name c k a) [of_nat n] =
      Inr (put_at_pass ((put_after_name c k a)\<lparr>aput_pass := (aput_pass c)\<lparr>pu_passlen := of_nat n\<rparr>\<rparr>) n 0
        (pu_passwd (aput_pass c)))"
  using assms by (auto simp: put_feed_defs put_field_defs u8_simps intro!: admin_put_parser.equality)

lemma put_feed_to_pass:
  assumes u: "0 < length u" "length u < 255" and n: "0 < n" "n < 256"
  shows "\<exists>c. feed_list admin_put_parser_feed (admin_put_parser_init p)
      ([0x01, 0x00, of_nat (length u)] @ u @ [of_nat n]) = Inr (put_at_pass c n 0 (replicate 255 0)) \<and>
    aput_user c = \<lparr>pu_userlen = of_nat (length u), pu_username = u @ 0 # replicate (254 - length u) 0\<rparr> \<and>
    pu_passlen (aput_pass c) = of_nat n \<and> aput_field c = aput_field p \<and> aput_action c = aput_action p"
proof -
  let ?p = "(admin_put_parser_init p)
    \<lparr>aput_user := \<lparr>pu_userlen = of_nat (length u), pu_username = replicate 255 0\<rparr>\<rparr>"
  let ?a = "u @ 0 # replicate (254 - length u) 0"
  let ?c = "(put_after_name ?p (length u) ?a)\<lparr>aput_pass := (aput_pass ?p)\<lparr>pu_passlen := of_nat n\<rparr>\<rparr>"
  have "length u < 256"
    using u by simp
  have "feed_list admin_put_parser_feed (put_at_name ?p (length u) 0 (replicate 255 0)) u =
      Inr (put_after_name ?p (length u) ?a)"
    using put_name.feed_field [of u "length u" "replicate 255 0" ?p] u by simp
  then have "feed_list admin_put_parser_feed (admin_put_parser_init p)
      ([0x01, 0x00, of_nat (length u)] @ u @ [of_nat n]) =
      feed_list admin_put_parser_feed (put_after_name ?p (length u) ?a) [of_nat n]"
    unfolding feed_list_append put_feed_start [OF u(1) \<open>length u < 256\<close>] by simp
  also note put_feed_passlen [OF n]
  finally show ?thesis
    by (intro exI [of _ ?c] conjI)
      (simp_all add: put_field_defs admin_put_parser_init_def PUT_MAX_USR_PASS_SIZE_def)
qed

lemma put_run_message:
  assumes u: "0 < length u" "length u < 255" and w: "0 < length w" "length w < 255"
  shows "parse_run admin_put_parser_feed (\<lambda>p. put_final (aput_state p)) (admin_put_parser_init p)
      (put_message u w @ rest) = Inr (put_accepted p u w, rest)"
proof -
  obtain c where c: "feed_list admin_put_parser_feed (admin_put_parser_init p)
        ([0x01, 0x00, of_nat (length u)] @ u @ [of_nat (length w)]) =
        Inr (put_at_pass c (length w) 0 (replicate 255 0))"
      "aput_user c = \<lparr>pu_userlen = of_nat (length u), pu_username = u @ 0 # replicate (254 - length u) 0\<rparr>"
      "pu_passlen (aput_pass c) = of_nat (length w)" "aput_field c = aput_field p" "aput_action c = aput_action p"
    using put_feed_to_pass [OF u, of "length w" p] w by auto
  have "put_after_pass c (length w) (w @ 0 # drop (Suc (length w)) (replicate 255 0)) =
      put_accepted p u w"
    using c(2-) by (auto simp: put_accepted_def put_field_defs
        intro!: admin_put_parser.equality put_pass.equality)
  with put_password.run_last_field [OF c(1) _ refl w, of rest] show ?thesis
    by (simp add: put_message_def)
qed

lemma put_run_long_name:
  assumes "length u = 255"
  shows "parse_run admin_put_parser_feed (\<lambda>p. put_final (aput_state p)) (admin_put_parser_init p)
      ([0x01, 0x00, 0xFF] @ u @ rest) = Inl OutOfBounds"
  using put_name.run_field_overflow [OF put_feed_start _ assms, of p rest] by simp

end
