(* ===== verification/AdminEdit.thy ===== *)
theory AdminEdit
  imports ParserLoop AdminReply
begin

text \<open>
  The parser of the EDIT request of the management protocol, \<^verbatim>\<open>src/parsers/admin_edit.c\<close> and
  its header: action 2, field 0, length and bytes of a user name, the attribute to change, length
  and bytes of its new value. \<open>init\<close> clears the state and the counters only, so the arrays hold
  what the memory of the parser held.
\<close>

section \<open>State and operations\<close>

definition edit_STATUS_OK :: u8 where "edit_STATUS_OK = 0x00"
definition edit_STATUS_ERROR_INVALID_ACTION :: u8 where "edit_STATUS_ERROR_INVALID_ACTION = 0x01"
definition edit_STATUS_ERROR_INVALID_FIELD :: u8 where "edit_STATUS_ERROR_INVALID_FIELD = 0x02"
definition edit_STATUS_ERROR_INVALID_ULEN :: u8 where "edit_STATUS_ERROR_INVALID_ULEN = 0x03"
definition edit_STATUS_ERROR_INVALID_ATTRIBUTE :: u8 where
  "edit_STATUS_ERROR_INVALID_ATTRIBUTE = 0x04"
definition edit_STATUS_ERROR_INVALID_VALUELEN :: u8 where
  "edit_STATUS_ERROR_INVALID_VALUELEN = 0x05"
definition edit_STATUS_ERROR :: u8 where "edit_STATUS_ERROR = 0x06"
definition edit_STATUS_UNKOWN_USER_FAIL :: u8 where "edit_STATUS_UNKOWN_USER_FAIL = 0x07"

definition EDIT_ACTION :: u8 where "EDIT_ACTION = 0x02"
definition edit_USERS_FIELD :: u8 where "edit_USERS_FIELD = 0x00"
definition USERNAME_ATTRIBUTE :: u8 where "USERNAME_ATTRIBUTE = 0x00"
definition PASSWORD_ATTRIBUTE :: u8 where "PASSWORD_ATTRIBUTE = 0x01"
definition MAX_VALUE_SIZE :: nat where "MAX_VALUE_SIZE = 0xFF"

lemmas edit_status_defs =
  edit_STATUS_OK_def edit_STATUS_ERROR_INVALID_ACTION_def edit_STATUS_ERROR_INVALID_FIELD_def
  edit_STATUS_ERROR_INVALID_ULEN_def edit_STATUS_ERROR_INVALID_ATTRIBUTE_def
  edit_STATUS_ERROR_INVALID_VALUELEN_def edit_STATUS_ERROR_def edit_STATUS_UNKOWN_USER_FAIL_def

text \<open>\<open>enum attribute\<close>.\<close>

datatype edit_attribute = attr_username | attr_password

fun attribute_code :: "edit_attribute \<Rightarrow> u8" where
  "attribute_code attr_username = 0x00"
| "attribute_code attr_password = 0x01"

datatype admin_edit_state =
    admin_edit_action
  | admin_edit_field
  | admin_edit_ulen
  | admin_edit_username
  | admin_edit_attribute
  | admin_edit_valuelen
  | admin_edit_value
  | admin_edit_done
  | admin_edit_error
  | admin_edit_error_action
  | admin_edit_error_field
  | admin_edit_error_ulen
  | admin_edit_error_attribute
  | admin_edit_error_valuelen

record admin_edit_parser =
  ae_state :: admin_edit_state
  ae_ulen :: u8
  ae_username :: "u8 list"
  ae_field :: u8
  ae_action :: u8
  ae_attr :: edit_attribute
  ae_valuelen :: u8
  ae_value :: "u8 list"
  ae_remaining :: u8
  ae_read :: u8
  ae_status :: u8

definition admin_edit_parser_init :: "admin_edit_parser \<Rightarrow> admin_edit_parser" where
  "admin_edit_parser_init p = p\<lparr>ae_state := admin_edit_action, ae_remaining := 0, ae_read := 0\<rparr>"

definition edit_remaining_set :: "admin_edit_parser \<Rightarrow> u8 \<Rightarrow> admin_edit_parser" where
  "edit_remaining_set p n = p\<lparr>ae_remaining := n, ae_read := 0\<rparr>"

definition edit_remaining_is_done :: "admin_edit_parser \<Rightarrow> bool" where
  "edit_remaining_is_done p \<longleftrightarrow> ae_remaining p \<le> ae_read p"

definition edit_action :: "admin_edit_parser \<Rightarrow> u8 \<Rightarrow> admin_edit_parser" where
  "edit_action p b =
     (if b = EDIT_ACTION then p\<lparr>ae_action := b, ae_state := admin_edit_field\<rparr>
      else p\<lparr>ae_state := admin_edit_error_action, ae_status := edit_STATUS_ERROR_INVALID_ACTION\<rparr>)"

definition edit_field :: "admin_edit_parser \<Rightarrow> u8 \<Rightarrow> admin_edit_parser" where
  "edit_field p b =
     (if b = edit_USERS_FIELD then p\<lparr>ae_field := b, ae_state := admin_edit_ulen\<rparr>
      else p\<lparr>ae_state := admin_edit_error_field, ae_status := edit_STATUS_ERROR_INVALID_FIELD\<rparr>)"

definition edit_store_username :: "admin_edit_parser \<Rightarrow> u8 \<Rightarrow> admin_edit_parser result" where
  "edit_store_username p b =
     bind_res (store_at (ae_username p) (unat (ae_read p)) b) (\<lambda>a. Inr (p\<lparr>ae_username := a\<rparr>))"

definition edit_username :: "admin_edit_parser \<Rightarrow> u8 \<Rightarrow> admin_edit_parser result" where
  "edit_username p b =
     bind_res (edit_store_username p b) (\<lambda>p.
     let p = p\<lparr>ae_read := ae_read p + 1\<rparr> in
     if edit_remaining_is_done p then
       bind_res (edit_store_username p 0) (\<lambda>p. Inr (p\<lparr>ae_state := admin_edit_attribute\<rparr>))
     else Inr (p\<lparr>ae_state := admin_edit_username\<rparr>))"

definition edit_attribute_step :: "admin_edit_parser \<Rightarrow> u8 \<Rightarrow> admin_edit_parser" where
  "edit_attribute_step p b =
     (if b = USERNAME_ATTRIBUTE then p\<lparr>ae_attr := attr_username, ae_state := admin_edit_valuelen\<rparr>
      else if b = PASSWORD_ATTRIBUTE then
        p\<lparr>ae_attr := attr_password, ae_state := admin_edit_valuelen\<rparr>
      else p\<lparr>ae_state := admin_edit_error_attribute,
             ae_status := edit_STATUS_ERROR_INVALID_ATTRIBUTE\<rparr>)"

definition edit_store_value :: "admin_edit_parser \<Rightarrow> u8 \<Rightarrow> admin_edit_parser result" where
  "edit_store_value p b =
     bind_res (store_at (ae_value p) (unat (ae_read p)) b) (\<lambda>a. Inr (p\<lparr>ae_value := a\<rparr>))"

definition edit_value :: "admin_edit_parser \<Rightarrow> u8 \<Rightarrow> admin_edit_parser result" where
  "edit_value p b =
     bind_res (edit_store_value p b) (\<lambda>p.
     let p = p\<lparr>ae_read := ae_read p + 1\<rparr> in
     if edit_remaining_is_done p then
       bind_res (edit_store_value p 0) (\<lambda>p.
       Inr (p\<lparr>ae_state := admin_edit_done, ae_status := edit_STATUS_OK\<rparr>))
     else Inr (p\<lparr>ae_state := admin_edit_value\<rparr>))"

definition admin_edit_parser_feed :: "admin_edit_parser \<Rightarrow> u8 \<Rightarrow> admin_edit_parser result" where
  "admin_edit_parser_feed p b =
     (case ae_state p of
        admin_edit_action \<Rightarrow> Inr (edit_action p b)
      | admin_edit_field \<Rightarrow> Inr (edit_field p b)
      | admin_edit_ulen \<Rightarrow> Inr
          (if b \<le> 0 then p\<lparr>ae_state := admin_edit_error_ulen,
                           ae_status := edit_STATUS_ERROR_INVALID_ULEN\<rparr>
           else
             let p = edit_remaining_set p b; p = p\<lparr>ae_ulen := b\<rparr> in
             p\<lparr>ae_state := admin_edit_username\<rparr>)
      | admin_edit_username \<Rightarrow> edit_username p b
      | admin_edit_attribute \<Rightarrow> Inr (edit_attribute_step p b)
      | admin_edit_valuelen \<Rightarrow> Inr
          (if b \<le> 0 then p\<lparr>ae_state := admin_edit_error_valuelen,
                           ae_status := edit_STATUS_ERROR_INVALID_VALUELEN\<rparr>
           else
             let p = edit_remaining_set p b; p = p\<lparr>ae_valuelen := b\<rparr> in
             p\<lparr>ae_state := admin_edit_value\<rparr>)
      | admin_edit_value \<Rightarrow> edit_value p b
      | admin_edit_done \<Rightarrow> Inr (p\<lparr>ae_status := edit_STATUS_OK\<rparr>)
      | admin_edit_error \<Rightarrow> Inr (p\<lparr>ae_status := edit_STATUS_ERROR\<rparr>)
      | admin_edit_error_action \<Rightarrow> Inr (p\<lparr>ae_status := edit_STATUS_ERROR_INVALID_ACTION\<rparr>)
      | admin_edit_error_field \<Rightarrow> Inr (p\<lparr>ae_status := edit_STATUS_ERROR_INVALID_FIELD\<rparr>)
      | admin_edit_error_ulen \<Rightarrow> Inr (p\<lparr>ae_status := edit_STATUS_ERROR_INVALID_ULEN\<rparr>)
      | admin_edit_error_valuelen \<Rightarrow> Inr (p\<lparr>ae_status := edit_STATUS_ERROR_INVALID_VALUELEN\<rparr>)
      | admin_edit_error_attribute \<Rightarrow> Inr (p\<lparr>ae_status := edit_STATUS_ERROR_INVALID_ATTRIBUTE\<rparr>))"

definition admin_edit_is_done :: "admin_edit_state \<Rightarrow> bool option \<Rightarrow> bool \<times> bool option" where
  "admin_edit_is_done state err =
     (if state \<in> {admin_edit_error, admin_edit_error_action, admin_edit_error_field,
                  admin_edit_error_ulen, admin_edit_error_valuelen, admin_edit_error_attribute}
      then (True, map_option (\<lambda>_. True) err)
      else if state = admin_edit_done then (True, err)
      else (False, err))"

definition admin_edit_consume ::
  "buffer \<Rightarrow> admin_edit_parser \<Rightarrow> bool option \<Rightarrow>
   (admin_edit_state \<times> buffer \<times> admin_edit_parser \<times> bool option) result" where
  "admin_edit_consume buff p err =
     consume_loop admin_edit_parser_feed ae_state admin_edit_is_done (ae_state p) buff p err"

definition admin_edit_marshall :: "buffer \<Rightarrow> u8 \<Rightarrow> (int \<times> buffer) result" where
  "admin_edit_marshall b status = status_reply_rest b status"

section \<open>The parser meets the interfaces\<close>

definition edit_failed :: "admin_edit_state \<Rightarrow> bool" where
  "edit_failed s \<longleftrightarrow> s \<in> {admin_edit_error, admin_edit_error_action, admin_edit_error_field,
     admin_edit_error_ulen, admin_edit_error_valuelen, admin_edit_error_attribute}"

definition edit_final :: "admin_edit_state \<Rightarrow> bool" where
  "edit_final s \<longleftrightarrow> edit_failed s \<or> s = admin_edit_done"

definition edit_at_name :: "admin_edit_parser \<Rightarrow> nat \<Rightarrow> nat \<Rightarrow> u8 list \<Rightarrow> admin_edit_parser" where
  "edit_at_name p n r a = p\<lparr>ae_state := admin_edit_username, ae_username := a,
     ae_remaining := of_nat n, ae_read := of_nat r\<rparr>"

definition edit_after_name :: "admin_edit_parser \<Rightarrow> nat \<Rightarrow> u8 list \<Rightarrow> admin_edit_parser" where
  "edit_after_name p n a = (edit_at_name p n n a)\<lparr>ae_state := admin_edit_attribute\<rparr>"

definition edit_at_value :: "admin_edit_parser \<Rightarrow> nat \<Rightarrow> nat \<Rightarrow> u8 list \<Rightarrow> admin_edit_parser" where
  "edit_at_value p n r a = p\<lparr>ae_state := admin_edit_value, ae_value := a,
     ae_remaining := of_nat n, ae_read := of_nat r\<rparr>"

definition edit_after_value :: "admin_edit_parser \<Rightarrow> nat \<Rightarrow> u8 list \<Rightarrow> admin_edit_parser" where
  "edit_after_value p n a =
     (edit_at_value p n n a)\<lparr>ae_state := admin_edit_done, ae_status := edit_STATUS_OK\<rparr>"

lemmas edit_field_defs =
  edit_at_name_def edit_after_name_def edit_at_value_def edit_after_value_def

lemmas edit_feed_defs =
  admin_edit_parser_feed_def edit_action_def edit_field_def edit_username_def
  edit_attribute_step_def edit_value_def edit_store_username_def edit_store_value_def
  edit_remaining_is_done_def edit_remaining_set_def EDIT_ACTION_def edit_USERS_FIELD_def
  USERNAME_ATTRIBUTE_def PASSWORD_ATTRIBUTE_def Let_def

interpretation admin_edit: byte_parser admin_edit_parser_feed ae_state admin_edit_is_done
    edit_final edit_failed
proof unfold_locales
  fix s e
  show "admin_edit_is_done s e = (edit_final s, if edit_failed s then map_option (\<lambda>_. True) e else e)"
    by (auto simp: admin_edit_is_done_def edit_final_def edit_failed_def)
next
  fix p :: admin_edit_parser and c
  assume "edit_final (ae_state p)"
  then show "\<exists>p'. admin_edit_parser_feed p c = Inr p' \<and> ae_state p' = ae_state p"
    by (auto simp: edit_final_def edit_failed_def admin_edit_parser_feed_def)
qed (simp add: edit_final_def)

interpretation edit_name: parser_field admin_edit_parser_feed ae_state admin_edit_is_done
    edit_final edit_failed edit_at_name edit_after_name
  by unfold_locales
    (auto simp: edit_field_defs edit_feed_defs array_simps u8_simps edit_final_def edit_failed_def
      intro!: admin_edit_parser.equality)

interpretation edit_new_value: last_field admin_edit_parser_feed ae_state admin_edit_is_done
    edit_final edit_failed edit_at_value edit_after_value
  by unfold_locales
    (auto simp: edit_field_defs edit_feed_defs array_simps u8_simps edit_final_def edit_failed_def
      intro!: admin_edit_parser.equality)

section \<open>What the parser accepts\<close>

definition edit_message :: "u8 list \<Rightarrow> edit_attribute \<Rightarrow> u8 list \<Rightarrow> u8 list" where
  "edit_message u t v =
     [0x02, 0x00, of_nat (length u)] @ u @ [attribute_code t, of_nat (length v)] @ v"

text \<open>Behind the terminating zero byte the arrays keep their old contents.\<close>

definition edit_accepted ::
  "admin_edit_parser \<Rightarrow> u8 list \<Rightarrow> edit_attribute \<Rightarrow> u8 list \<Rightarrow> admin_edit_parser" where
  "edit_accepted p u t v =
     \<lparr>ae_state = admin_edit_done, ae_ulen = of_nat (length u),
      ae_username = u @ 0 # drop (Suc (length u)) (ae_username p),
      ae_field = 0x00, ae_action = 0x02, ae_attr = t, ae_valuelen = of_nat (length v),
      ae_value = v @ 0 # drop (Suc (length v)) (ae_value p),
      ae_remaining = of_nat (length v), ae_read = of_nat (length v), ae_status = edit_STATUS_OK\<rparr>"

lemma edit_feed_start:
  assumes "0 < n" and "n < 256"
  shows "feed_list admin_edit_parser_feed (admin_edit_parser_init p) [0x02, 0x00, of_nat n] =
      Inr (edit_at_name ((admin_edit_parser_init p)
        \<lparr>ae_ulen := of_nat n, ae_field := 0x00, ae_action := 0x02\<rparr>) n 0 (ae_username p))"
  using assms by (auto simp: admin_edit_parser_init_def edit_feed_defs edit_field_defs u8_simps)

lemma edit_feed_valuelen:
  assumes "0 < n" and "n < 256"
  shows "feed_list admin_edit_parser_feed (edit_after_name c k a) [attribute_code t, of_nat n] =
      Inr (edit_at_value ((edit_after_name c k a)\<lparr>ae_attr := t, ae_valuelen := of_nat n\<rparr>) n 0
        (ae_value c))"
  using assms
  by (cases t) (auto simp: edit_feed_defs edit_field_defs u8_simps intro!: admin_edit_parser.equality)

lemma edit_feed_to_value:
  assumes u: "0 < length u" "length u < 255" and n: "0 < n" "n < 256"
    and a: "length (ae_username p) = 255"
  shows "feed_list admin_edit_parser_feed (admin_edit_parser_init p)
      ([0x02, 0x00, of_nat (length u)] @ u @ [attribute_code t, of_nat n]) =
    Inr (edit_at_value (p\<lparr>ae_ulen := of_nat (length u), ae_field := 0x00, ae_action := 0x02,
      ae_username := u @ 0 # drop (Suc (length u)) (ae_username p), ae_attr := t,
      ae_valuelen := of_nat n\<rparr>) n 0 (ae_value p))"
proof -
  let ?p = "(admin_edit_parser_init p)
    \<lparr>ae_ulen := of_nat (length u), ae_field := 0x00, ae_action := 0x02\<rparr>"
  let ?a = "u @ 0 # drop (Suc (length u)) (ae_username p)"
  have lt: "length u < 256"
    using u by simp
  have "feed_list admin_edit_parser_feed (edit_at_name ?p (length u) 0 (ae_username p)) u =
      Inr (edit_after_name ?p (length u) ?a)"
    using edit_name.feed_field [of u "length u" "ae_username p" ?p] u a by simp
  then have "feed_list admin_edit_parser_feed (admin_edit_parser_init p)
      ([0x02, 0x00, of_nat (length u)] @ u @ [attribute_code t, of_nat n]) =
      feed_list admin_edit_parser_feed (edit_after_name ?p (length u) ?a)
        [attribute_code t, of_nat n]"
    unfolding feed_list_append edit_feed_start [OF u(1) lt] by simp
  also note edit_feed_valuelen [OF n]
  finally show ?thesis
    by (simp add: edit_field_defs admin_edit_parser_init_def)
qed

lemma edit_run_message:
  assumes u: "0 < length u" "length u < 255" and v: "0 < length v" "length v < 255"
    and a: "length (ae_username p) = 255" "length (ae_value p) = 255"
  shows "parse_run admin_edit_parser_feed (\<lambda>p. edit_final (ae_state p)) (admin_edit_parser_init p)
      (edit_message u t v @ rest) = Inr (edit_accepted p u t v, rest)"
proof -
  have "length v < 256"
    using v by simp
  then show ?thesis
    using edit_new_value.run_last_field [OF edit_feed_to_value [OF u v(1) _ a(1)] a(2) refl v,
        of t rest]
    by (simp add: edit_message_def edit_accepted_def edit_field_defs)
qed

lemma edit_run_long_name:
  assumes "length u = 255" and "length (ae_username p) = 255"
  shows "parse_run admin_edit_parser_feed (\<lambda>p. edit_final (ae_state p)) (admin_edit_parser_init p)
      ([0x02, 0x00, 0xFF] @ u @ rest) = Inl OutOfBounds"
  using edit_name.run_field_overflow [OF edit_feed_start assms(2,1), of rest] by simp

end
