(* ===== verification/AdminDelete.thy ===== *)
theory AdminDelete
  imports ParserLoop AdminReply
begin

text \<open>
  The parser of the DELETE request of the management protocol,
  \<^verbatim>\<open>src/parsers/admin_delete.c\<close> and its header: action 5, field 0, length and bytes of a user
  name. \<open>init\<close> leaves the array as it is.
\<close>

section \<open>State and operations\<close>

definition delete_STATUS_OK :: u8 where "delete_STATUS_OK = 0x00"
definition delete_STATUS_ERROR_INVALID_ACTION :: u8 where
  "delete_STATUS_ERROR_INVALID_ACTION = 0x01"
definition delete_STATUS_ERROR_INVALID_FIELD :: u8 where "delete_STATUS_ERROR_INVALID_FIELD = 0x02"
definition delete_STATUS_ERROR_INVALID_ULEN :: u8 where "delete_STATUS_ERROR_INVALID_ULEN = 0x03"
definition delete_STATUS_ERROR :: u8 where "delete_STATUS_ERROR = 0x04"
definition delete_STATUS_UNKNOWN_USER_FAIL :: u8 where "delete_STATUS_UNKNOWN_USER_FAIL = 0x05"

definition DELETE_ACTION :: u8 where "DELETE_ACTION = 0x05"
definition delete_USERS_FIELD :: u8 where "delete_USERS_FIELD = 0x00"
definition MAX_KEY_SIZE :: nat where "MAX_KEY_SIZE = 0xFF"

lemmas delete_status_defs =
  delete_STATUS_OK_def delete_STATUS_ERROR_INVALID_ACTION_def delete_STATUS_ERROR_INVALID_FIELD_def
  delete_STATUS_ERROR_INVALID_ULEN_def delete_STATUS_ERROR_def delete_STATUS_UNKNOWN_USER_FAIL_def

datatype admin_delete_state =
    admin_delete_action
  | admin_delete_field
  | admin_delete_ulen
  | admin_delete_username
  | admin_delete_done
  | admin_delete_error
  | admin_delete_error_action
  | admin_delete_error_field
  | admin_delete_error_ulen

record admin_delete_parser =
  adel_state :: admin_delete_state
  adel_ulen :: u8
  adel_username :: "u8 list"
  adel_field :: u8
  adel_action :: u8
  adel_read :: u8
  adel_remaining :: u8
  adel_status :: u8

definition admin_delete_parser_init :: "admin_delete_parser \<Rightarrow> admin_delete_parser" where
  "admin_delete_parser_init p =
     p\<lparr>adel_state := admin_delete_action, adel_remaining := 0, adel_read := 0\<rparr>"

definition delete_remaining_set :: "admin_delete_parser \<Rightarrow> u8 \<Rightarrow> admin_delete_parser" where
  "delete_remaining_set p n = p\<lparr>adel_remaining := n, adel_read := 0\<rparr>"

definition delete_remaining_is_done :: "admin_delete_parser \<Rightarrow> bool" where
  "delete_remaining_is_done p \<longleftrightarrow> adel_remaining p \<le> adel_read p"

definition delete_action :: "admin_delete_parser \<Rightarrow> u8 \<Rightarrow> admin_delete_parser" where
  "delete_action p b =
     (if b = DELETE_ACTION then p\<lparr>adel_action := b, adel_state := admin_delete_field\<rparr>
      else p\<lparr>adel_state := admin_delete_error_action,
             adel_status := delete_STATUS_ERROR_INVALID_ACTION\<rparr>)"

definition delete_field :: "admin_delete_parser \<Rightarrow> u8 \<Rightarrow> admin_delete_parser" where
  "delete_field p b =
     (if b = delete_USERS_FIELD then p\<lparr>adel_field := b, adel_state := admin_delete_ulen\<rparr>
      else p\<lparr>adel_state := admin_delete_error_field,
             adel_status := delete_STATUS_ERROR_INVALID_FIELD\<rparr>)"

definition delete_store_username :: "admin_delete_parser \<Rightarrow> u8 \<Rightarrow> admin_delete_parser result" where
  "delete_store_username p b =
     bind_res (store_at (adel_username p) (unat (adel_read p)) b) (\<lambda>a. Inr (p\<lparr>adel_username := a\<rparr>))"

definition delete_username :: "admin_delete_parser \<Rightarrow> u8 \<Rightarrow> admin_delete_parser result" where
  "delete_username p b =
     bind_res (delete_store_username p b) (\<lambda>p.
     let p = p\<lparr>adel_read := adel_read p + 1\<rparr> in
     if delete_remaining_is_done p then
       bind_res (delete_store_username p 0) (\<lambda>p.
       Inr (p\<lparr>adel_state := admin_delete_done, adel_status := delete_STATUS_OK\<rparr>))
     else Inr (p\<lparr>adel_state := admin_delete_username\<rparr>))"

definition admin_delete_parser_feed ::
  "admin_delete_parser \<Rightarrow> u8 \<Rightarrow> admin_delete_parser result" where
  "admin_delete_parser_feed p b =
     (case adel_state p of
        admin_delete_action \<Rightarrow> Inr (delete_action p b)
      | admin_delete_field \<Rightarrow> Inr (delete_field p b)
      | admin_delete_ulen \<Rightarrow> Inr
          (if b \<le> 0 then p\<lparr>adel_state := admin_delete_error_ulen,
                           adel_status := delete_STATUS_ERROR_INVALID_ULEN\<rparr>
           else
             let p = delete_remaining_set p b; p = p\<lparr>adel_ulen := b\<rparr> in
             p\<lparr>adel_state := admin_delete_username\<rparr>)
      | admin_delete_username \<Rightarrow> delete_username p b
      | admin_delete_done \<Rightarrow> Inr (p\<lparr>adel_status := delete_STATUS_OK\<rparr>)
      | admin_delete_error \<Rightarrow> Inr (p\<lparr>adel_status := delete_STATUS_ERROR\<rparr>)
      | admin_delete_error_action \<Rightarrow> Inr (p\<lparr>adel_status := delete_STATUS_ERROR_INVALID_ACTION\<rparr>)
      | admin_delete_error_field \<Rightarrow> Inr (p\<lparr>adel_status := delete_STATUS_ERROR_INVALID_FIELD\<rparr>)
      | admin_delete_error_ulen \<Rightarrow> Inr (p\<lparr>adel_status := delete_STATUS_ERROR_INVALID_ULEN\<rparr>))"

definition admin_delete_is_done ::
  "admin_delete_state \<Rightarrow> bool option \<Rightarrow> bool \<times> bool option" where
  "admin_delete_is_done state err =
     (if state \<in> {admin_delete_error, admin_delete_error_action, admin_delete_error_field,
                  admin_delete_error_ulen}
      then (True, map_option (\<lambda>_. True) err)
      else if state = admin_delete_done then (True, err)
      else (False, err))"

definition admin_delete_consume ::
  "buffer \<Rightarrow> admin_delete_parser \<Rightarrow> bool option \<Rightarrow>
   (admin_delete_state \<times> buffer \<times> admin_delete_parser \<times> bool option) result" where
  "admin_delete_consume buff p err =
     consume_loop admin_delete_parser_feed adel_state admin_delete_is_done (adel_state p) buff p err"

definition admin_delete_marshall :: "buffer \<Rightarrow> u8 \<Rightarrow> (int \<times> buffer) result" where
  "admin_delete_marshall b status = status_reply_rest b status"

section \<open>The parser meets the interfaces\<close>

definition delete_failed :: "admin_delete_state \<Rightarrow> bool" where
  "delete_failed s \<longleftrightarrow> s \<in> {admin_delete_error, admin_delete_error_action,
     admin_delete_error_field, admin_delete_error_ulen}"

definition delete_final :: "admin_delete_state \<Rightarrow> bool" where
  "delete_final s \<longleftrightarrow> delete_failed s \<or> s = admin_delete_done"

definition delete_at_name ::
  "admin_delete_parser \<Rightarrow> nat \<Rightarrow> nat \<Rightarrow> u8 list \<Rightarrow> admin_delete_parser" where
  "delete_at_name p n r a = p\<lparr>adel_state := admin_delete_username, adel_username := a,
     adel_remaining := of_nat n, adel_read := of_nat r\<rparr>"

definition delete_after_name ::
  "admin_delete_parser \<Rightarrow> nat \<Rightarrow> u8 list \<Rightarrow> admin_delete_parser" where
  "delete_after_name p n a =
     (delete_at_name p n n a)\<lparr>adel_state := admin_delete_done, adel_status := delete_STATUS_OK\<rparr>"

lemmas delete_field_defs = delete_at_name_def delete_after_name_def

lemmas delete_feed_defs =
  admin_delete_parser_feed_def delete_action_def delete_field_def delete_username_def
  delete_store_username_def delete_remaining_is_done_def delete_remaining_set_def
  DELETE_ACTION_def delete_USERS_FIELD_def Let_def

interpretation admin_delete: byte_parser admin_delete_parser_feed adel_state admin_delete_is_done
    delete_final delete_failed
proof unfold_locales
  fix s e
  show "admin_delete_is_done s e =
      (delete_final s, if delete_failed s then map_option (\<lambda>_. True) e else e)"
    by (auto simp: admin_delete_is_done_def delete_final_def delete_failed_def)
next
  fix p :: admin_delete_parser and c
  assume "delete_final (adel_state p)"
  then show "\<exists>p'. admin_delete_parser_feed p c = Inr p' \<and> adel_state p' = adel_state p"
    by (auto simp: delete_final_def delete_failed_def admin_delete_parser_feed_def)
qed (simp add: delete_final_def)

interpretation delete_name: last_field admin_delete_parser_feed adel_state admin_delete_is_done
    delete_final delete_failed delete_at_name delete_after_name
  by unfold_locales
    (auto simp: delete_field_defs delete_feed_defs array_simps u8_simps delete_final_def
      delete_failed_def intro!: admin_delete_parser.equality)

section \<open>What the parser accepts\<close>

definition delete_message :: "u8 list \<Rightarrow> u8 list" where
  "delete_message u = [0x05, 0x00, of_nat (length u)] @ u"

definition delete_accepted :: "admin_delete_parser \<Rightarrow> u8 list \<Rightarrow> admin_delete_parser" where
  "delete_accepted p u =
     \<lparr>adel_state = admin_delete_done, adel_ulen = of_nat (length u),
      adel_username = u @ 0 # drop (Suc (length u)) (adel_username p),
      adel_field = 0x00, adel_action = 0x05, adel_read = of_nat (length u),
      adel_remaining = of_nat (length u), adel_status = delete_STATUS_OK\<rparr>"

lemma delete_feed_start:
  assumes "0 < n" and "n < 256"
  shows "feed_list admin_delete_parser_feed (admin_delete_parser_init p) [0x05, 0x00, of_nat n] =
      Inr (delete_at_name ((admin_delete_parser_init p)
        \<lparr>adel_ulen := of_nat n, adel_field := 0x00, adel_action := 0x05\<rparr>) n 0 (adel_username p))"
  using assms by (auto simp: admin_delete_parser_init_def delete_feed_defs delete_field_defs u8_simps)

lemma delete_run_message:
  assumes u: "0 < length u" "length u < 255" and a: "length (adel_username p) = 255"
  shows "parse_run admin_delete_parser_feed (\<lambda>p. delete_final (adel_state p))
      (admin_delete_parser_init p) (delete_message u @ rest) = Inr (delete_accepted p u, rest)"
proof -
  have lt: "length u < 256"
    using u by simp
  from delete_name.run_last_field [OF delete_feed_start [OF u(1) lt] a refl u, of rest]
  show ?thesis
    by (simp add: delete_message_def delete_accepted_def delete_field_defs
        admin_delete_parser_init_def)
qed

lemma delete_run_long_name:
  assumes "length u = 255" and "length (adel_username p) = 255"
  shows "parse_run admin_delete_parser_feed (\<lambda>p. delete_final (adel_state p))
      (admin_delete_parser_init p) (delete_message u @ rest) = Inl OutOfBounds"
  using delete_name.run_field_overflow [OF delete_feed_start assms(2,1), of rest] assms(1)
  by (simp add: delete_message_def)

end
