(* ===== verification/AdminConfigBuff.thy ===== *)
theory AdminConfigBuff
  imports ParserLoop AdminReply
begin

text \<open>
  The parser of the CONFIGBUFFSIZE request of the management protocol,
  \<^verbatim>\<open>src/parsers/admin_configbuffsize.c\<close> and its header: action 3 and the size as four bytes, the
  highest first, not all of them zero.
\<close>

section \<open>State and operations\<close>

definition configbuff_STATUS_OK :: u8 where "configbuff_STATUS_OK = 0x00"
definition configbuff_STATUS_ERROR_INVALID_ACTION :: u8 where
  "configbuff_STATUS_ERROR_INVALID_ACTION = 0x01"
definition configbuff_STATUS_ERROR_INVALID_SIZELEN :: u8 where
  "configbuff_STATUS_ERROR_INVALID_SIZELEN = 0x02"
definition configbuff_STATUS_ERROR_INVALID_SIZE :: u8 where
  "configbuff_STATUS_ERROR_INVALID_SIZE = 0x03"
definition configbuff_STATUS_ERROR :: u8 where "configbuff_STATUS_ERROR = 0x04"
definition CONFIGBUFF_ACTION :: u8 where "CONFIGBUFF_ACTION = 0x03"

lemmas configbuff_status_defs =
  configbuff_STATUS_OK_def configbuff_STATUS_ERROR_INVALID_ACTION_def
  configbuff_STATUS_ERROR_INVALID_SIZELEN_def configbuff_STATUS_ERROR_INVALID_SIZE_def
  configbuff_STATUS_ERROR_def

datatype admin_configbuff_state =
    admin_configbuff_action
  | admin_configbuff_size
  | admin_configbuff_done
  | admin_configbuff_error
  | admin_configbuff_error_action
  | admin_configbuff_error_sizelen
  | admin_configbuff_error_size

record admin_configbuff_parser =
  ab_state :: admin_configbuff_state
  ab_size :: "u8 list"
  ab_action :: u8
  ab_remaining :: u8
  ab_read :: u8
  ab_status :: u8

definition admin_configbuff_parser_init :: "admin_configbuff_parser \<Rightarrow> admin_configbuff_parser"
  where
  "admin_configbuff_parser_init p =
     p\<lparr>ab_state := admin_configbuff_action, ab_remaining := 4, ab_read := 0\<rparr>"

definition configbuff_remaining_is_done :: "admin_configbuff_parser \<Rightarrow> bool" where
  "configbuff_remaining_is_done p \<longleftrightarrow> ab_remaining p \<le> ab_read p"

definition configbuff_action :: "admin_configbuff_parser \<Rightarrow> u8 \<Rightarrow> admin_configbuff_parser" where
  "configbuff_action p b =
     (if b = CONFIGBUFF_ACTION then p\<lparr>ab_action := b, ab_state := admin_configbuff_size\<rparr>
      else p\<lparr>ab_state := admin_configbuff_error_action,
             ab_status := configbuff_STATUS_ERROR_INVALID_ACTION\<rparr>)"

definition configbuff_size ::
  "admin_configbuff_parser \<Rightarrow> u8 \<Rightarrow> admin_configbuff_parser result" where
  "configbuff_size p b =
     bind_res (store_at (ab_size p) (unat (ab_read p)) b) (\<lambda>a.
     let p = p\<lparr>ab_size := a, ab_read := ab_read p + 1\<rparr> in
     if configbuff_remaining_is_done p then
       bind_res (load_at a 0) (\<lambda>b0. bind_res (load_at a 1) (\<lambda>b1.
       bind_res (load_at a 2) (\<lambda>b2. bind_res (load_at a 3) (\<lambda>b3.
       let aux_size = be32 b0 b1 b2 b3 in
       if aux_size \<le> 0 then
         Inr (p\<lparr>ab_state := admin_configbuff_error_size,
                ab_status := configbuff_STATUS_ERROR_INVALID_SIZE\<rparr>)
       else Inr (p\<lparr>ab_state := admin_configbuff_done, ab_status := configbuff_STATUS_OK\<rparr>)))))
     else Inr p)"

definition admin_configbuff_parser_feed ::
  "admin_configbuff_parser \<Rightarrow> u8 \<Rightarrow> admin_configbuff_parser result" where
  "admin_configbuff_parser_feed p b =
     (case ab_state p of
        admin_configbuff_action \<Rightarrow> Inr (configbuff_action p b)
      | admin_configbuff_size \<Rightarrow> configbuff_size p b
      | admin_configbuff_error \<Rightarrow> Inr (p\<lparr>ab_status := configbuff_STATUS_ERROR\<rparr>)
      | admin_configbuff_error_action \<Rightarrow>
          Inr (p\<lparr>ab_status := configbuff_STATUS_ERROR_INVALID_ACTION\<rparr>)
      | admin_configbuff_error_size \<Rightarrow>
          Inr (p\<lparr>ab_status := configbuff_STATUS_ERROR_INVALID_SIZE\<rparr>)
      | admin_configbuff_error_sizelen \<Rightarrow>
          Inr (p\<lparr>ab_status := configbuff_STATUS_ERROR_INVALID_SIZELEN\<rparr>)
      | admin_configbuff_done \<Rightarrow> Inr (p\<lparr>ab_status := configbuff_STATUS_OK\<rparr>))"

text \<open>The state \<open>admin_configbuff_error_sizelen\<close>, which nothing enters, is not in the test.\<close>

definition admin_configbuff_is_done ::
  "admin_configbuff_state \<Rightarrow> bool option \<Rightarrow> bool \<times> bool option" where
  "admin_configbuff_is_done state err =
     (if state \<in> {admin_configbuff_error, admin_configbuff_error_action,
                  admin_configbuff_error_size}
      then (True, map_option (\<lambda>_. True) err)
      else if state = admin_configbuff_done then (True, err)
      else (False, err))"

definition admin_configbuff_consume ::
  "buffer \<Rightarrow> admin_configbuff_parser \<Rightarrow> bool option \<Rightarrow>
   (admin_configbuff_state \<times> buffer \<times> admin_configbuff_parser \<times> bool option) result" where
  "admin_configbuff_consume buff p err =
     consume_loop admin_configbuff_parser_feed ab_state admin_configbuff_is_done (ab_state p)
       buff p err"

definition admin_configbuff_marshall :: "buffer \<Rightarrow> u8 \<Rightarrow> (int \<times> buffer) result" where
  "admin_configbuff_marshall b status = status_reply_rest b status"

section \<open>The parser meets the interface\<close>

definition configbuff_failed :: "admin_configbuff_state \<Rightarrow> bool" where
  "configbuff_failed s \<longleftrightarrow> s \<in> {admin_configbuff_error, admin_configbuff_error_action,
     admin_configbuff_error_size}"

definition configbuff_final :: "admin_configbuff_state \<Rightarrow> bool" where
  "configbuff_final s \<longleftrightarrow> configbuff_failed s \<or> s = admin_configbuff_done"

interpretation admin_configbuff: byte_parser admin_configbuff_parser_feed ab_state
    admin_configbuff_is_done configbuff_final configbuff_failed
proof unfold_locales
  fix s e
  show "admin_configbuff_is_done s e =
      (configbuff_final s, if configbuff_failed s then map_option (\<lambda>_. True) e else e)"
    by (auto simp: admin_configbuff_is_done_def configbuff_final_def configbuff_failed_def)
next
  fix p :: admin_configbuff_parser and c
  assume "configbuff_final (ab_state p)"
  then show "\<exists>p'. admin_configbuff_parser_feed p c = Inr p' \<and> ab_state p' = ab_state p"
    by (auto simp: configbuff_final_def configbuff_failed_def admin_configbuff_parser_feed_def)
qed (simp add: configbuff_final_def)

section \<open>What the parser accepts\<close>

lemmas configbuff_feed_defs =
  admin_configbuff_parser_feed_def configbuff_action_def configbuff_size_def
  configbuff_remaining_is_done_def CONFIGBUFF_ACTION_def Let_def

lemma configbuff_run_message:
  assumes "length (ab_size p) = 4"
  shows "parse_run admin_configbuff_parser_feed (\<lambda>p. configbuff_final (ab_state p))
      (admin_configbuff_parser_init p) ([0x03, a, b, c, d] @ rest) =
    Inr (\<lparr>ab_state = (if be32 a b c d = 0 then admin_configbuff_error_size
        else admin_configbuff_done),
      ab_size = [a, b, c, d], ab_action = 0x03, ab_remaining = 4, ab_read = 4,
      ab_status = (if be32 a b c d = 0 then configbuff_STATUS_ERROR_INVALID_SIZE
        else configbuff_STATUS_OK)\<rparr>, rest)"
proof -
  obtain w x y z where "ab_size p = [w, x, y, z]"
    using assms by (auto simp: length_Suc_conv eval_nat_numeral)
  then show ?thesis
    by (auto simp: admin_configbuff_parser_init_def configbuff_feed_defs store_at_def load_at_def
        configbuff_final_def configbuff_failed_def word_le_nat_alt unat_eq_zero)
qed

end
