(* ===== verification/AdminConfigStatus.thy ===== *)
theory AdminConfigStatus
  imports ParserLoop AdminReply
begin

text \<open>
  The parser of the CONFIGSTATUS request of the management protocol,
  \<^verbatim>\<open>src/parsers/admin_configstatus.c\<close> and its header: action 4, one of two fields, on or off.
\<close>

section \<open>State and operations\<close>

definition configstatus_STATUS_OK :: u8 where "configstatus_STATUS_OK = 0x00"
definition configstatus_STATUS_ERROR_INVALID_ACTION :: u8 where
  "configstatus_STATUS_ERROR_INVALID_ACTION = 0x01"
definition configstatus_STATUS_ERROR_INVALID_FIELD :: u8 where
  "configstatus_STATUS_ERROR_INVALID_FIELD = 0x02"
definition configstatus_STATUS_ERROR_INVALID_STATUS :: u8 where
  "configstatus_STATUS_ERROR_INVALID_STATUS = 0x03"
definition configstatus_STATUS_ERROR :: u8 where "configstatus_STATUS_ERROR = 0x04"

definition CONFIGSTATUS_ACTION :: u8 where "CONFIGSTATUS_ACTION = 0x04"
definition CONFIGSTATUS_AUTH_FIELD :: u8 where "CONFIGSTATUS_AUTH_FIELD = 0x03"
definition CONFIGSTATUS_SPOOFING_FIELD :: u8 where "CONFIGSTATUS_SPOOFING_FIELD = 0x04"
definition configstatus_ON :: u8 where "configstatus_ON = 0x00"
definition configstatus_OFF :: u8 where "configstatus_OFF = 0x01"

lemmas configstatus_status_defs =
  configstatus_STATUS_OK_def configstatus_STATUS_ERROR_INVALID_ACTION_def
  configstatus_STATUS_ERROR_INVALID_FIELD_def configstatus_STATUS_ERROR_INVALID_STATUS_def
  configstatus_STATUS_ERROR_def

datatype admin_configstatus_state =
    admin_configstatus_action
  | admin_configstatus_field
  | admin_configstatus_status
  | admin_configstatus_done
  | admin_configstatus_error
  | admin_configstatus_error_action
  | admin_configstatus_error_field
  | admin_configstatus_error_status

record admin_configstatus_parser =
  as_state :: admin_configstatus_state
  as_action :: u8
  as_field :: u8
  as_status :: u8
  as_config_status :: u8

definition admin_configstatus_parser_init ::
  "admin_configstatus_parser \<Rightarrow> admin_configstatus_parser" where
  "admin_configstatus_parser_init p = p\<lparr>as_state := admin_configstatus_action\<rparr>"

definition configstatus_action ::
  "admin_configstatus_parser \<Rightarrow> u8 \<Rightarrow> admin_configstatus_parser" where
  "configstatus_action p b =
     (if b = CONFIGSTATUS_ACTION then p\<lparr>as_action := b, as_state := admin_configstatus_field\<rparr>
      else p\<lparr>as_state := admin_configstatus_error_action,
             as_status := configstatus_STATUS_ERROR_INVALID_ACTION\<rparr>)"

definition configstatus_field ::
  "admin_configstatus_parser \<Rightarrow> u8 \<Rightarrow> admin_configstatus_parser" where
  "configstatus_field p b =
     (if b = CONFIGSTATUS_AUTH_FIELD \<or> b = CONFIGSTATUS_SPOOFING_FIELD then
        p\<lparr>as_field := b, as_state := admin_configstatus_status\<rparr>
      else p\<lparr>as_state := admin_configstatus_error_field,
             as_status := configstatus_STATUS_ERROR_INVALID_FIELD\<rparr>)"

definition configstatus_status ::
  "admin_configstatus_parser \<Rightarrow> u8 \<Rightarrow> admin_configstatus_parser" where
  "configstatus_status p b =
     (if b = configstatus_ON \<or> b = configstatus_OFF then
        p\<lparr>as_config_status := b, as_state := admin_configstatus_done,
          as_status := configstatus_STATUS_OK\<rparr>
      else p\<lparr>as_state := admin_configstatus_error_status,
             as_status := configstatus_STATUS_ERROR_INVALID_STATUS\<rparr>)"

definition admin_configstatus_parser_feed ::
  "admin_configstatus_parser \<Rightarrow> u8 \<Rightarrow> admin_configstatus_parser result" where
  "admin_configstatus_parser_feed p b = Inr
     (case as_state p of
        admin_configstatus_action \<Rightarrow> configstatus_action p b
      | admin_configstatus_field \<Rightarrow> configstatus_field p b
      | admin_configstatus_status \<Rightarrow> configstatus_status p b
      | admin_configstatus_error \<Rightarrow> p\<lparr>as_status := configstatus_STATUS_ERROR\<rparr>
      | admin_configstatus_error_action \<Rightarrow>
          p\<lparr>as_status := configstatus_STATUS_ERROR_INVALID_ACTION\<rparr>
      | admin_configstatus_error_field \<Rightarrow>
          p\<lparr>as_status := configstatus_STATUS_ERROR_INVALID_FIELD\<rparr>
      | admin_configstatus_error_status \<Rightarrow>
          p\<lparr>as_status := configstatus_STATUS_ERROR_INVALID_STATUS\<rparr>
      | admin_configstatus_done \<Rightarrow> p\<lparr>as_status := configstatus_STATUS_OK\<rparr>)"

definition admin_configstatus_is_done ::
  "admin_configstatus_state \<Rightarrow> bool option \<Rightarrow> bool \<times> bool option" where
  "admin_configstatus_is_done state err =
     (if state \<in> {admin_configstatus_error, admin_configstatus_error_action,
                  admin_configstatus_error_field, admin_configstatus_error_status}
      then (True, map_option (\<lambda>_. True) err)
      else if state = admin_configstatus_done then (True, err)
      else (False, err))"

definition admin_configstatus_consume ::
  "buffer \<Rightarrow> admin_configstatus_parser \<Rightarrow> bool option \<Rightarrow>
   (admin_configstatus_state \<times> buffer \<times> admin_configstatus_parser \<times> bool option) result" where
  "admin_configstatus_consume buff p err =
     consume_loop admin_configstatus_parser_feed as_state admin_configstatus_is_done (as_state p)
       buff p err"

definition admin_configstatus_marshalll :: "buffer \<Rightarrow> u8 \<Rightarrow> (int \<times> buffer) result" where
  "admin_configstatus_marshalll b status = status_reply_rest b status"

section \<open>The parser meets the interface\<close>

definition configstatus_failed :: "admin_configstatus_state \<Rightarrow> bool" where
  "configstatus_failed s \<longleftrightarrow> s \<in> {admin_configstatus_error, admin_configstatus_error_action,
     admin_configstatus_error_field, admin_configstatus_error_status}"

definition configstatus_final :: "admin_configstatus_state \<Rightarrow> bool" where
  "configstatus_final s \<longleftrightarrow> configstatus_failed s \<or> s = admin_configstatus_done"

interpretation admin_configstatus: byte_parser admin_configstatus_parser_feed as_state
    admin_configstatus_is_done configstatus_final configstatus_failed
proof unfold_locales
  fix s e
  show "admin_configstatus_is_done s e =
      (configstatus_final s, if configstatus_failed s then map_option (\<lambda>_. True) e else e)"
    by (auto simp: admin_configstatus_is_done_def configstatus_final_def configstatus_failed_def)
next
  fix p :: admin_configstatus_parser and c
  assume "configstatus_final (as_state p)"
  then show "\<exists>p'. admin_configstatus_parser_feed p c = Inr p' \<and> as_state p' = as_state p"
    by (auto simp: configstatus_final_def configstatus_failed_def
        admin_configstatus_parser_feed_def)
qed (simp add: configstatus_final_def)

section \<open>What the parser accepts\<close>

lemmas configstatus_feed_defs =
  admin_configstatus_parser_feed_def configstatus_action_def configstatus_field_def
  configstatus_status_def CONFIGSTATUS_ACTION_def CONFIGSTATUS_AUTH_FIELD_def
  CONFIGSTATUS_SPOOFING_FIELD_def configstatus_ON_def configstatus_OFF_def

lemma configstatus_run_message:
  assumes "f \<in> {0x03, 0x04}" and "s \<in> {0x00, 0x01}"
  shows "parse_run admin_configstatus_parser_feed (\<lambda>p. configstatus_final (as_state p))
      (admin_configstatus_parser_init p) ([0x04, f, s] @ rest) =
    Inr (\<lparr>as_state = admin_configstatus_done, as_action = 0x04, as_field = f,
      as_status = configstatus_STATUS_OK, as_config_status = s\<rparr>, rest)"
  using assms
  by (auto simp: admin_configstatus_parser_init_def configstatus_feed_defs
      configstatus_final_def configstatus_failed_def)

lemma configstatus_run_rejects:
  assumes "f \<notin> {0x03, 0x04} \<or> s \<notin> {0x00, 0x01}"
  shows "\<exists>q r. parse_run admin_configstatus_parser_feed (\<lambda>p. configstatus_final (as_state p))
      (admin_configstatus_parser_init p) ([0x04, f, s] @ rest) = Inr (q, r) \<and>
    configstatus_failed (as_state q) \<and>
    as_status q = (if f \<notin> {0x03, 0x04} then configstatus_STATUS_ERROR_INVALID_FIELD
      else configstatus_STATUS_ERROR_INVALID_STATUS)"
  using assms
  by (auto simp: admin_configstatus_parser_init_def configstatus_feed_defs
      configstatus_final_def configstatus_failed_def)

end
