(* ===== verification/Metrics.thy ===== *)
theory Metrics
  imports Prelude
begin

text \<open>
  The counters of the server, \<^verbatim>\<open>src/metrics.c\<close>: two of type \<open>uint64_t\<close> and three of type
  \<open>int\<close>, which are 32 bit words read as signed numbers. \<open>end_connection\<close> also logs an error when
  the count of open connections gets negative.
\<close>

record metrics =
  m_sent_byte :: u64
  m_received_bytes :: u64
  m_historic_connections :: "32 word"
  m_current_connections :: "32 word"
  m_connecting_clients :: "32 word"

definition init_metrics :: "metrics \<Rightarrow> metrics" where
  "init_metrics m = m\<lparr>m_sent_byte := 0, m_received_bytes := 0, m_historic_connections := 0,
     m_current_connections := 0\<rparr>"

definition add_connecting_clients :: "metrics \<Rightarrow> metrics" where
  "add_connecting_clients m = m\<lparr>m_connecting_clients := m_connecting_clients m + 1\<rparr>"

definition end_connecting_clients :: "metrics \<Rightarrow> metrics" where
  "end_connecting_clients m = m\<lparr>m_connecting_clients := m_connecting_clients m - 1\<rparr>"

definition add_connection :: "metrics \<Rightarrow> metrics" where
  "add_connection m = m\<lparr>m_historic_connections := m_historic_connections m + 1,
     m_current_connections := m_current_connections m + 1\<rparr>"

text \<open>The second component: whether \<open>log_print(LOG_ERROR, ..)\<close> is called.\<close>

definition end_connection :: "metrics \<Rightarrow> metrics \<times> bool" where
  "end_connection m =
     (let m = m\<lparr>m_current_connections := m_current_connections m - 1\<rparr> in
      (m, sint (m_current_connections m) < 0))"

text \<open>The argument is an \<open>int\<close>, converted to \<open>uint64_t\<close> by the addition.\<close>

definition add_sent_byte :: "int \<Rightarrow> metrics \<Rightarrow> metrics" where
  "add_sent_byte n m = m\<lparr>m_sent_byte := m_sent_byte m + of_int n\<rparr>"

definition add_received_bytes :: "int \<Rightarrow> metrics \<Rightarrow> metrics" where
  "add_received_bytes n m = m\<lparr>m_received_bytes := m_received_bytes m + of_int n\<rparr>"

definition get_current_conn :: "metrics \<Rightarrow> 32 word" where
  "get_current_conn m = m_current_connections m"

definition get_histori_conn :: "metrics \<Rightarrow> 32 word" where
  "get_histori_conn m = m_historic_connections m"

definition get_sent_byte :: "metrics \<Rightarrow> u64" where
  "get_sent_byte m = m_sent_byte m"

definition get_received_bytes :: "metrics \<Rightarrow> u64" where
  "get_received_bytes m = m_received_bytes m"

definition get_transfered_bytes :: "metrics \<Rightarrow> u64" where
  "get_transfered_bytes m = m_sent_byte m + m_received_bytes m"

section \<open>Counting\<close>

text \<open>The events of the life of the server that touch the counters.\<close>

datatype metric_event = Opened | Closed | Sent nat | Received nat

fun metric_step :: "metric_event \<Rightarrow> metrics \<Rightarrow> metrics" where
  "metric_step Opened m = add_connection m"
| "metric_step Closed m = fst (end_connection m)"
| "metric_step (Sent n) m = add_sent_byte (int n) m"
| "metric_step (Received n) m = add_received_bytes (int n) m"

definition opened :: "metric_event list \<Rightarrow> nat" where
  "opened es = length (filter (\<lambda>e. e = Opened) es)"

definition closed_conns :: "metric_event list \<Rightarrow> nat" where
  "closed_conns es = length (filter (\<lambda>e. e = Closed) es)"

definition sent_total :: "metric_event list \<Rightarrow> nat" where
  "sent_total es = sum_list (map (\<lambda>e. case e of Sent n \<Rightarrow> n | _ \<Rightarrow> 0) es)"

definition received_total :: "metric_event list \<Rightarrow> nat" where
  "received_total es = sum_list (map (\<lambda>e. case e of Received n \<Rightarrow> n | _ \<Rightarrow> 0) es)"

lemmas metric_defs =
  init_metrics_def add_connection_def end_connection_def add_sent_byte_def add_received_bytes_def
  opened_def closed_conns_def sent_total_def received_total_def Let_def

lemma metric_steps:
  "m_historic_connections (fold metric_step es m) = m_historic_connections m + of_nat (opened es)"
  "m_current_connections (fold metric_step es m) =
     m_current_connections m + of_nat (opened es) - of_nat (closed_conns es)"
  "m_sent_byte (fold metric_step es m) = m_sent_byte m + of_nat (sent_total es)"
  "m_received_bytes (fold metric_step es m) = m_received_bytes m + of_nat (received_total es)"
proof (induction es arbitrary: m)
  case (Cons e es)
  { case 1 then show ?case using Cons.IH(1) by (cases e) (auto simp: metric_defs)
  next case 2 then show ?case using Cons.IH(2) by (cases e) (auto simp: metric_defs)
  next case 3 then show ?case using Cons.IH(3) by (cases e) (auto simp: metric_defs)
  next case 4 then show ?case using Cons.IH(4) by (cases e) (auto simp: metric_defs) }
qed (simp_all add: metric_defs)

end
