(* ===== verification/ServerConfig.thy ===== *)
theory ServerConfig
  imports CStrings Metrics "HOL-Library.Multiset"
begin

text \<open>
  The configuration of the server and its accounts, \<^verbatim>\<open>src/server_config.c\<close> and its header,
  except for \<open>get_pop3_pass\<close>. The addresses the server listens on, which this file does not touch,
  are left out. Strings are arrays of bytes: \<open>name\<close> and \<open>pass\<close> have \<open>MAX_USERNAME_SIZE\<close> bytes, and
  a copy that does not fit is an access out of bounds of the array, although behind \<open>name\<close> there
  is \<open>pass\<close>, and behind \<open>pass\<close> the next account.
\<close>

section \<open>State\<close>

definition MAX_SOCKS_USERS :: nat where "MAX_SOCKS_USERS = 10"
definition MAX_USERNAME_SIZE :: nat where "MAX_USERNAME_SIZE = 10"
definition DEFAULT_SOCKS_BUFFER_SIZE :: u32 where "DEFAULT_SOCKS_BUFFER_SIZE = 1024"
definition DEFAULT_DISECTORS :: bool where "DEFAULT_DISECTORS = True"
definition MNG_BUFFER_SIZE :: nat where "MNG_BUFFER_SIZE = 4096"
definition MAX_CONNECTIONS :: int where "MAX_CONNECTIONS = 508"

text \<open>\<open>"holacomoestas"\<close> with its zero byte.\<close>

definition MNG_TOKEN :: "u8 list" where
  "MNG_TOKEN = [104, 111, 108, 97, 99, 111, 109, 111, 101, 115, 116, 97, 115, 0]"

record users =
  us_name :: "u8 list"
  us_pass :: "u8 list"

record config =
  cf_disectors_enabled :: bool
  cf_auth_enabled :: bool
  cf_socks_buffer_size :: u32
  cf_mng_token :: "u8 list"
  cf_users :: "users list"
  cf_users_size :: nat

text \<open>The zero-initialised global.\<close>

definition server_conf :: config where
  "server_conf = \<lparr>cf_disectors_enabled = False, cf_auth_enabled = False, cf_socks_buffer_size = 0,
     cf_mng_token = [],
     cf_users = replicate MAX_SOCKS_USERS \<lparr>us_name = replicate MAX_USERNAME_SIZE 0,
       us_pass = replicate MAX_USERNAME_SIZE 0\<rparr>,
     cf_users_size = 0\<rparr>"

definition init_config :: "config \<Rightarrow> config" where
  "init_config c = c\<lparr>cf_disectors_enabled := DEFAULT_DISECTORS, cf_mng_token := MNG_TOKEN,
     cf_socks_buffer_size := DEFAULT_SOCKS_BUFFER_SIZE, cf_users_size := 0\<rparr>"

section \<open>Checks\<close>

definition checkToken :: "config \<Rightarrow> u8 list \<Rightarrow> int result" where
  "checkToken c token =
     bind_res (c_streq (cf_mng_token c) token) (\<lambda>eq. Inr (if eq then 1 else 0))"

text \<open>The loops over the accounts: \<open>fuel\<close> is \<open>users_size - i\<close>.\<close>

fun checkUser_loop :: "config \<Rightarrow> u8 list \<Rightarrow> u8 list \<Rightarrow> nat \<Rightarrow> nat \<Rightarrow> int result" where
  "checkUser_loop c user pass i 0 = Inr 0"
| "checkUser_loop c user pass i (Suc fuel) =
     bind_res (load_at (cf_users c) i) (\<lambda>current_user.
     bind_res (c_streq (us_name current_user) user) (\<lambda>eq.
     if eq then
       bind_res (c_streq (us_pass current_user) pass) (\<lambda>eq.
       if eq then Inr 1 else checkUser_loop c user pass (Suc i) fuel)
     else checkUser_loop c user pass (Suc i) fuel))"

definition checkUser :: "config \<Rightarrow> u8 list \<Rightarrow> u8 list \<Rightarrow> int result" where
  "checkUser c user pass = checkUser_loop c user pass 0 (cf_users_size c)"

text \<open>\<open>get_user\<close> answers with the index of the account it points to.\<close>

fun get_user_loop :: "config \<Rightarrow> u8 list \<Rightarrow> nat \<Rightarrow> nat \<Rightarrow> nat option result" where
  "get_user_loop c username i 0 = Inr None"
| "get_user_loop c username i (Suc fuel) =
     bind_res (load_at (cf_users c) i) (\<lambda>u.
     bind_res (c_streq (us_name u) username) (\<lambda>eq.
     if eq then Inr (Some i) else get_user_loop c username (Suc i) fuel))"

definition get_user :: "config \<Rightarrow> u8 list \<Rightarrow> nat option result" where
  "get_user c username = get_user_loop c username 0 (cf_users_size c)"

definition equal_name :: "users \<Rightarrow> u8 list \<Rightarrow> int result" where
  "equal_name usr1 username =
     bind_res (c_streq (us_name usr1) username) (\<lambda>eq. Inr (if eq then 1 else 0))"

section \<open>Accounts\<close>

text \<open>The loop of \<open>delete_user\<close> ends when \<open>find_flag\<close> is set.\<close>

fun delete_user_loop :: "config \<Rightarrow> u8 list \<Rightarrow> nat \<Rightarrow> nat \<Rightarrow> (bool \<times> config) result" where
  "delete_user_loop c username i 0 = Inr (False, c)"
| "delete_user_loop c username i (Suc fuel) =
     bind_res (load_at (cf_users c) i) (\<lambda>user.
     bind_res (equal_name user username) (\<lambda>eq.
     if eq \<noteq> 0 then
       (if i < cf_users_size c - 1 then
          bind_res (load_at (cf_users c) (cf_users_size c - 1)) (\<lambda>next_user.
          bind_res (c_strcpy (us_name user) (us_name next_user)) (\<lambda>name.
          bind_res (c_strcpy (us_pass user) (us_pass next_user)) (\<lambda>pass.
          Inr (True, c\<lparr>cf_users := (cf_users c)[i := \<lparr>us_name = name, us_pass = pass\<rparr>]\<rparr>))))
        else Inr (True, c))
     else delete_user_loop c username (Suc i) fuel))"

definition delete_user :: "config \<Rightarrow> u8 list \<Rightarrow> (int \<times> config) result" where
  "delete_user c username =
     bind_res (delete_user_loop c username 0 (cf_users_size c)) (\<lambda>(find_flag, c).
     if find_flag then Inr (0, c\<lparr>cf_users_size := cf_users_size c - 1\<rparr>) else Inr (-1, c))"

definition edit_user :: "config \<Rightarrow> u8 list \<Rightarrow> u8 list \<Rightarrow> u8 \<Rightarrow> (int \<times> config) result" where
  "edit_user c username new_value attr =
     bind_res (get_user c username) (\<lambda>user.
     case user of
       None \<Rightarrow> Inr (-1, c)
     | Some i \<Rightarrow>
         bind_res (c_strlen new_value) (\<lambda>n.
         if MAX_USERNAME_SIZE \<le> n then Inr (-1, c)
         else
           bind_res (load_at (cf_users c) i) (\<lambda>u.
           if attr = 0x00 then
             bind_res (c_strcpy (us_name u) new_value) (\<lambda>a.
             Inr (0, c\<lparr>cf_users := (cf_users c)[i := u\<lparr>us_name := a\<rparr>]\<rparr>))
           else
             bind_res (c_strcpy (us_pass u) new_value) (\<lambda>a.
             Inr (0, c\<lparr>cf_users := (cf_users c)[i := u\<lparr>us_pass := a\<rparr>]\<rparr>)))))"

text \<open>Both operands of the test on the lengths look at \<open>user\<close>.\<close>

definition add_user :: "config \<Rightarrow> u8 list \<Rightarrow> u8 list \<Rightarrow> (int \<times> config) result" where
  "add_user c user pass =
     (if MAX_SOCKS_USERS \<le> cf_users_size c + 1 then Inr (-1, c)
      else
        bind_res (c_strlen user) (\<lambda>n.
        if MAX_USERNAME_SIZE < n \<or> MAX_USERNAME_SIZE < n then Inr (-1, c)
        else
          bind_res (load_at (cf_users c) (cf_users_size c)) (\<lambda>new_user.
          bind_res (c_strcpy (us_name new_user) user) (\<lambda>name.
          bind_res (c_strcpy (us_pass new_user) pass) (\<lambda>pass.
          Inr (0, c\<lparr>cf_users := (cf_users c)[cf_users_size c := \<lparr>us_name = name, us_pass = pass\<rparr>],
                    cf_users_size := cf_users_size c + 1\<rparr>))))))"

section \<open>Settings\<close>

definition four_bytes_to_num :: "u8 list \<Rightarrow> 32 word result" where
  "four_bytes_to_num src =
     bind_res (load_at src 3) (\<lambda>b3. bind_res (load_at src 2) (\<lambda>b2.
     bind_res (load_at src 1) (\<lambda>b1. bind_res (load_at src 0) (\<lambda>b0.
     Inr (be32 b0 b1 b2 b3)))))"

text \<open>The \<open>int\<close> that is returned is the word read as a signed number.\<close>

definition set_buff_size :: "config \<Rightarrow> u8 list \<Rightarrow> (int \<times> config) result" where
  "set_buff_size c sz =
     bind_res (four_bytes_to_num sz) (\<lambda>res.
     Inr (sint res, c\<lparr>cf_socks_buffer_size := res\<rparr>))"

definition set_auth_status :: "config \<Rightarrow> u8 \<Rightarrow> int \<times> config" where
  "set_auth_status c status =
     (let c = c\<lparr>cf_auth_enabled := (status = 0)\<rparr> in (of_bool (cf_auth_enabled c), c))"

definition set_sniff_status :: "config \<Rightarrow> u8 \<Rightarrow> int \<times> config" where
  "set_sniff_status c status =
     (let c = c\<lparr>cf_disectors_enabled := (status = 0)\<rparr> in (of_bool (cf_disectors_enabled c), c))"

definition set_status :: "config \<Rightarrow> u8 \<Rightarrow> u8 \<Rightarrow> config" where
  "set_status c field status =
     (if field = 0x03 then snd (set_auth_status c status) else snd (set_sniff_status c status))"

definition get_socks_buffer_size :: "config \<Rightarrow> u32" where
  "get_socks_buffer_size c = cf_socks_buffer_size c"

definition is_spoofing_enabled :: "config \<Rightarrow> bool" where
  "is_spoofing_enabled c = cf_disectors_enabled c"

definition is_auth_enabled :: "config \<Rightarrow> bool" where
  "is_auth_enabled c = cf_auth_enabled c"

section \<open>Answers to GET\<close>

text \<open>The result of the functions that write to \<open>res\<close> is the number returned and the array.\<close>

definition bool_to_bytes :: "u8 list \<Rightarrow> int \<Rightarrow> bool \<Rightarrow> (int \<times> u8 list) result" where
  "bool_to_bytes res res_size n =
     (if res_size < 1 then Inr (-1, res)
      else bind_res (store_at res 0 (if n then 0x00 else 0x01)) (\<lambda>res. Inr (1, res)))"

definition num_to_4bytes :: "u8 list \<Rightarrow> int \<Rightarrow> u32 \<Rightarrow> (int \<times> u8 list) result" where
  "num_to_4bytes res res_size n =
     (if res_size < 4 then Inr (-1, res)
      else
        bind_res (store_at res 0 (ucast (drop_bit 24 n AND 0xFF))) (\<lambda>res.
        bind_res (store_at res 1 (ucast (drop_bit 16 n AND 0xFF))) (\<lambda>res.
        bind_res (store_at res 2 (ucast (drop_bit 8 n AND 0xFF))) (\<lambda>res.
        bind_res (store_at res 3 (ucast (n AND 0xFF))) (\<lambda>res. Inr (4, res))))))"

text \<open>The parameter \<open>n\<close> is a \<open>uint32_t\<close>: the shifts by 32 and more are undefined.\<close>

fun num_to_8bytes_loop :: "u8 list \<Rightarrow> u32 \<Rightarrow> nat \<Rightarrow> nat \<Rightarrow> u8 list result" where
  "num_to_8bytes_loop res n i 0 = Inr res"
| "num_to_8bytes_loop res n i (Suc fuel) =
     (if 32 \<le> 56 - i * 8 then Inl BadShift
      else
        bind_res (store_at res i (ucast (drop_bit (56 - i * 8) n AND 0xFF))) (\<lambda>res.
        num_to_8bytes_loop res n (Suc i) fuel))"

definition num_to_8bytes :: "u8 list \<Rightarrow> int \<Rightarrow> u32 \<Rightarrow> (int \<times> u8 list) result" where
  "num_to_8bytes res res_size n =
     (if res_size < 8 then Inr (-1, res)
      else bind_res (num_to_8bytes_loop res n 0 8) (\<lambda>res. Inr (8, res)))"

definition get_buff_size :: "config \<Rightarrow> u8 list \<Rightarrow> int \<Rightarrow> (int \<times> u8 list) result" where
  "get_buff_size c res res_size = num_to_4bytes res res_size (cf_socks_buffer_size c)"

definition get_auth_status :: "config \<Rightarrow> u8 list \<Rightarrow> int \<Rightarrow> (int \<times> u8 list) result" where
  "get_auth_status c res res_size = bool_to_bytes res res_size (is_auth_enabled c)"

definition get_spoofing_status :: "config \<Rightarrow> u8 list \<Rightarrow> int \<Rightarrow> (int \<times> u8 list) result" where
  "get_spoofing_status c res res_size = bool_to_bytes res res_size (is_spoofing_enabled c)"

text \<open>All three of these read \<open>get_sent_byte\<close>; the names start with an underscore in the code.\<close>

definition cf_get_sent_bytes :: "metrics \<Rightarrow> u8 list \<Rightarrow> int \<Rightarrow> (int \<times> u8 list) result" where
  "cf_get_sent_bytes m res res_size = num_to_8bytes res res_size (ucast (get_sent_byte m))"

definition cf_get_received_bytes :: "metrics \<Rightarrow> u8 list \<Rightarrow> int \<Rightarrow> (int \<times> u8 list) result" where
  "cf_get_received_bytes m res res_size = num_to_8bytes res res_size (ucast (get_sent_byte m))"

definition cf_get_transfered_bytes :: "metrics \<Rightarrow> u8 list \<Rightarrow> int \<Rightarrow> (int \<times> u8 list) result" where
  "cf_get_transfered_bytes m res res_size = num_to_8bytes res res_size (ucast (get_sent_byte m))"

definition cf_get_current_conn :: "metrics \<Rightarrow> u8 list \<Rightarrow> int \<Rightarrow> (int \<times> u8 list) result" where
  "cf_get_current_conn m res res_size = num_to_4bytes res res_size (get_current_conn m)"

definition cf_get_histori_conn :: "metrics \<Rightarrow> u8 list \<Rightarrow> int \<Rightarrow> (int \<times> u8 list) result" where
  "cf_get_histori_conn m res res_size = num_to_4bytes res res_size (get_histori_conn m)"

text \<open>The copying loops: \<open>src\<close> is what is left of the string, \<open>lim\<close> is \<open>res_size - k\<close>.\<close>

fun copy_chars :: "u8 list \<Rightarrow> int \<Rightarrow> u8 list \<Rightarrow> nat \<Rightarrow> (u8 list \<times> nat) result" where
  "copy_chars [] lim res n = Inl OutOfBounds"
| "copy_chars (c # src) lim res n =
     (if c \<noteq> 0 \<and> int n < lim then
        bind_res (store_at res n c) (\<lambda>res. copy_chars src lim res (Suc n))
      else Inr (res, n))"

definition put_char :: "u8 list \<Rightarrow> nat \<Rightarrow> u8 \<Rightarrow> (u8 list \<times> nat) result" where
  "put_char res n c = bind_res (store_at res n c) (\<lambda>res. Inr (res, Suc n))"

fun get_users_loop ::
  "config \<Rightarrow> u8 list \<Rightarrow> int \<Rightarrow> nat \<Rightarrow> nat \<Rightarrow> nat \<Rightarrow> (u8 list \<times> nat) result" where
  "get_users_loop c res res_size n i 0 = Inr (res, n)"
| "get_users_loop c res res_size n i (Suc fuel) =
     bind_res (load_at (cf_users c) i) (\<lambda>u.
     bind_res (copy_chars (us_name u) (res_size - 3) res n) (\<lambda>(res, n).
     bind_res (put_char res n 32) (\<lambda>(res, n).
     bind_res (copy_chars (us_pass u) (res_size - 2) res n) (\<lambda>(res, n).
     bind_res (put_char res n 10) (\<lambda>(res, n).
     get_users_loop c res res_size n (Suc i) fuel)))))"

definition get_users :: "config \<Rightarrow> u8 list \<Rightarrow> int \<Rightarrow> (int \<times> u8 list) result" where
  "get_users c res res_size =
     bind_res (get_users_loop c res res_size 0 0 (cf_users_size c)) (\<lambda>(res, n).
     bind_res (put_char res n 0) (\<lambda>(res, n). Inr (int n, res)))"

section \<open>The accounts as a list of names and passwords\<close>

definition user_ok :: "users \<Rightarrow> bool" where
  "user_ok u \<longleftrightarrow> length (us_name u) = MAX_USERNAME_SIZE \<and> length (us_pass u) = MAX_USERNAME_SIZE"

definition terminated :: "u8 list \<Rightarrow> bool" where
  "terminated a \<longleftrightarrow> 0 \<in> set a"

definition str_of :: "u8 list \<Rightarrow> u8 list" where
  "str_of a = takeWhile (\<lambda>c. c \<noteq> 0) a"

definition account :: "users \<Rightarrow> u8 list \<times> u8 list" where
  "account u = (str_of (us_name u), str_of (us_pass u))"

definition accounts :: "config \<Rightarrow> (u8 list \<times> u8 list) list" where
  "accounts c = map account (take (cf_users_size c) (cf_users c))"

definition config_ok :: "config \<Rightarrow> bool" where
  "config_ok c \<longleftrightarrow> length (cf_users c) = MAX_SOCKS_USERS \<and> cf_users_size c \<le> MAX_SOCKS_USERS \<and>
     (\<forall>u\<in>set (cf_users c). user_ok u) \<and>
     (\<forall>u\<in>set (take (cf_users_size c) (cf_users c)).
        terminated (us_name u) \<and> terminated (us_pass u))"

lemma holds_str_of: "terminated a \<Longrightarrow> holds_str a (str_of a)"
  unfolding holds_str_def terminated_def str_of_def
  by (induction a) auto

lemma str_of_holds: "holds_str a s \<Longrightarrow> str_of a = s"
  unfolding holds_str_iff str_of_def by (auto, subst takeWhile_append2) auto

lemma terminated_holds: "holds_str a s \<Longrightarrow> terminated a"
  by (auto simp: holds_str_iff terminated_def)

lemma length_accounts: "config_ok c \<Longrightarrow> length (accounts c) = cf_users_size c"
  by (auto simp: config_ok_def accounts_def)

lemma nth_accounts:
  "config_ok c \<Longrightarrow> i < cf_users_size c \<Longrightarrow> accounts c ! i = account (cf_users c ! i)"
  by (auto simp: config_ok_def accounts_def)

lemma config_ok_nth:
  assumes "config_ok c" and "i < cf_users_size c"
  shows "load_at (cf_users c) i = Inr (cf_users c ! i)"
    "holds_str (us_name (cf_users c ! i)) (fst (accounts c ! i))"
    "holds_str (us_pass (cf_users c ! i)) (snd (accounts c ! i))"
    "user_ok (cf_users c ! i)"
proof -
  have "cf_users c ! i \<in> set (take (cf_users_size c) (cf_users c))"
    using assms by (auto simp: config_ok_def in_set_conv_nth intro!: exI [of _ i])
  with assms nth_accounts [OF assms] show "load_at (cf_users c) i = Inr (cf_users c ! i)"
    "holds_str (us_name (cf_users c ! i)) (fst (accounts c ! i))"
    "holds_str (us_pass (cf_users c ! i)) (snd (accounts c ! i))"
    "user_ok (cf_users c ! i)"
    by (auto simp: config_ok_def array_simps account_def holds_str_of)
qed

lemma drop_accounts:
  "config_ok c \<Longrightarrow> i < cf_users_size c \<Longrightarrow>
   drop i (accounts c) = accounts c ! i # drop (Suc i) (accounts c)"
  by (simp add: Cons_nth_drop_Suc length_accounts)

text \<open>The first account of a name.\<close>

fun position :: "'a \<Rightarrow> ('a \<times> 'b) list \<Rightarrow> nat option" where
  "position n [] = None"
| "position n (x # xs) = (if fst x = n then Some 0 else map_option Suc (position n xs))"

lemma position_None: "position n xs = None \<longleftrightarrow> n \<notin> fst ` set xs"
  by (induction xs) auto

lemma position_Some:
  "position n xs = Some i \<Longrightarrow> i < length xs \<and> fst (xs ! i) = n \<and> n \<notin> fst ` set (take i xs)"
proof (induction xs arbitrary: i)
  case (Cons x xs)
  show ?case
  proof (cases "fst x = n")
    case False
    with Cons.prems obtain k where k: "position n xs = Some k" "i = Suc k"
      by auto
    from Cons.IH [OF k(1)] k(2) False show ?thesis
      by auto
  qed (use Cons.prems in auto)
qed simp

subsection \<open>Lookups\<close>

lemma checkUser_loop_ok:
  assumes "config_ok c" and "holds_str a u" and "holds_str b p"
  shows "i + fuel = cf_users_size c \<Longrightarrow>
    checkUser_loop c a b i fuel = Inr (if (u, p) \<in> set (drop i (accounts c)) then 1 else 0)"
proof (induction fuel arbitrary: i)
  case 0
  then show ?case
    using length_accounts [OF assms(1)] by simp
next
  case (Suc fuel)
  then have i: "i < cf_users_size c" by simp
  note at = config_ok_nth [OF assms(1) i]
  show ?case
    using Suc at(1) c_streq_holds [OF at(2) assms(2)] c_streq_holds [OF at(3) assms(3)]
    by (auto simp: drop_accounts [OF assms(1) i] prod_eq_iff)
qed

lemma checkUser_ok:
  assumes "config_ok c" and "holds_str a u" and "holds_str b p"
  shows "checkUser c a b = Inr (if (u, p) \<in> set (accounts c) then 1 else 0)"
  using checkUser_loop_ok [OF assms, of 0 "cf_users_size c"] by (simp add: checkUser_def)

lemma get_user_loop_ok:
  assumes "config_ok c" and "holds_str a u"
  shows "i + fuel = cf_users_size c \<Longrightarrow>
    get_user_loop c a i fuel = Inr (map_option (\<lambda>k. i + k) (position u (drop i (accounts c))))"
proof (induction fuel arbitrary: i)
  case 0
  then show ?case
    using length_accounts [OF assms(1)] by simp
next
  case (Suc fuel)
  then have i: "i < cf_users_size c" by simp
  note at = config_ok_nth [OF assms(1) i]
  show ?case
    using Suc at(1) c_streq_holds [OF at(2) assms(2)]
    by (auto simp: drop_accounts [OF assms(1) i] option.map_comp comp_def intro!: option.map_cong)
qed

lemma get_user_ok:
  "config_ok c \<Longrightarrow> holds_str a u \<Longrightarrow> get_user c a = Inr (position u (accounts c))"
  using get_user_loop_ok [of c a u 0 "cf_users_size c"]
  by (simp add: get_user_def option.map_ident)

lemma checkToken_ok:
  "holds_str (cf_mng_token c) t \<Longrightarrow> holds_str a s \<Longrightarrow>
   checkToken c a = Inr (if t = s then 1 else 0)"
  using c_streq_holds [of "cf_mng_token c" t a s] by (simp add: checkToken_def)

subsection \<open>Updates\<close>

lemma config_ok_update:
  assumes "config_ok c" and "i < cf_users_size c" and "user_ok u"
    and "terminated (us_name u)" "terminated (us_pass u)"
  shows "config_ok (c\<lparr>cf_users := (cf_users c)[i := u]\<rparr>)"
    "accounts (c\<lparr>cf_users := (cf_users c)[i := u]\<rparr>) = (accounts c)[i := account u]"
  using assms
  by (auto simp: config_ok_def accounts_def take_update_swap map_update dest!: subsetD [OF set_update_subset_insert])

lemma config_ok_grow:
  assumes "config_ok c" and "cf_users_size c < MAX_SOCKS_USERS" and "user_ok u"
    and "terminated (us_name u)" "terminated (us_pass u)"
  shows "config_ok (c\<lparr>cf_users := (cf_users c)[cf_users_size c := u],
      cf_users_size := cf_users_size c + 1\<rparr>)"
    "accounts (c\<lparr>cf_users := (cf_users c)[cf_users_size c := u],
      cf_users_size := cf_users_size c + 1\<rparr>) = accounts c @ [account u]"
  using assms
  by (auto simp: config_ok_def accounts_def take_Suc_conv_app_nth
      dest!: subsetD [OF set_update_subset_insert])

lemma config_ok_shrink:
  assumes "config_ok c"
  shows "config_ok (c\<lparr>cf_users_size := cf_users_size c - 1\<rparr>)"
    "accounts (c\<lparr>cf_users_size := cf_users_size c - 1\<rparr>) = butlast (accounts c)"
  using assms set_take_subset_set_take [of "cf_users_size c - 1" "cf_users_size c" "cf_users c"]
  by (auto simp: config_ok_def accounts_def butlast_take map_butlast [symmetric])

lemma strcpy_account:
  assumes "holds_str a s" and "length dst = MAX_USERNAME_SIZE" and "length s < MAX_USERNAME_SIZE"
  obtains d where "c_strcpy dst a = Inr d" "length d = MAX_USERNAME_SIZE" "holds_str d s"
proof
  show "c_strcpy dst a = Inr (s @ 0 # drop (Suc (length s)) dst)"
    using assms by (simp add: c_strcpy_holds)
  show "length (s @ 0 # drop (Suc (length s)) dst) = MAX_USERNAME_SIZE"
    using assms by simp
  show "holds_str (s @ 0 # drop (Suc (length s)) dst) s"
    using assms(1) by (auto simp: holds_str_iff)
qed

lemma account_holds:
  "holds_str (us_name u) n \<Longrightarrow> holds_str (us_pass u) p \<Longrightarrow> account u = (n, p)"
  by (simp add: account_def str_of_holds)

lemma config_ok_next:
  assumes "config_ok c" and "cf_users_size c < MAX_SOCKS_USERS"
  shows "load_at (cf_users c) (cf_users_size c) = Inr (cf_users c ! cf_users_size c)"
    "user_ok (cf_users c ! cf_users_size c)"
  using assms by (auto simp: config_ok_def array_simps)

lemma add_user_ok:
  assumes c: "config_ok c" and a: "holds_str a u" and b: "holds_str b p"
    and fit: "length u < MAX_USERNAME_SIZE" "length p < MAX_USERNAME_SIZE"
    and room: "cf_users_size c + 1 < MAX_SOCKS_USERS"
  obtains c' where "add_user c a b = Inr (0, c')" "config_ok c'"
    "accounts c' = accounts c @ [(u, p)]" "c' = c\<lparr>cf_users := cf_users c', cf_users_size := cf_users_size c'\<rparr>"
proof -
  let ?u = "cf_users c ! cf_users_size c"
  have lt: "cf_users_size c < MAX_SOCKS_USERS"
    using room by simp
  note old = config_ok_next [OF c lt]
  obtain n w where n: "c_strcpy (us_name ?u) a = Inr n" "length n = MAX_USERNAME_SIZE" "holds_str n u"
    and w: "c_strcpy (us_pass ?u) b = Inr w" "length w = MAX_USERNAME_SIZE" "holds_str w p"
    using strcpy_account [OF a _ fit(1)] strcpy_account [OF b _ fit(2)] old(2)
    unfolding user_ok_def by metis
  let ?v = "\<lparr>us_name = n, us_pass = w\<rparr>"
  let ?c = "c\<lparr>cf_users := (cf_users c)[cf_users_size c := ?v], cf_users_size := cf_users_size c + 1\<rparr>"
  have v: "user_ok ?v" "terminated (us_name ?v)" "terminated (us_pass ?v)"
    using n w terminated_holds by (auto simp: user_ok_def)
  have "add_user c a b = Inr (0, ?c)"
    using room fit(1) old n w a
    by (simp add: add_user_def c_strlen_def holds_str_def not_le)
  with config_ok_grow [OF c lt v] show ?thesis
    by (intro that [of ?c]) (auto simp: account_def str_of_holds [OF w(3)] str_of_holds [OF n(3)])
qed

lemma add_user_full:
  "MAX_SOCKS_USERS \<le> cf_users_size c + 1 \<Longrightarrow> add_user c a b = Inr (-1, c)"
  by (simp add: add_user_def)

lemma add_user_long_name:
  "holds_str a u \<Longrightarrow> MAX_USERNAME_SIZE < length u \<Longrightarrow> add_user c a b = Inr (-1, c)"
  by (simp add: add_user_def c_strlen_def holds_str_def)

text \<open>A name of exactly ten characters passes the test; passwords are not tested at all.\<close>

lemma add_user_overflow:
  assumes c: "config_ok c" and a: "holds_str a u" and b: "holds_str b p"
    and room: "cf_users_size c + 1 < MAX_SOCKS_USERS"
    and long: "length u = MAX_USERNAME_SIZE \<or>
      length u < MAX_USERNAME_SIZE \<and> MAX_USERNAME_SIZE \<le> length p"
  shows "add_user c a b = Inl OutOfBounds"
proof -
  have lt: "cf_users_size c < MAX_SOCKS_USERS"
    using room by simp
  note old = config_ok_next [OF c lt]
  show ?thesis
    using room long old(1) old(2) a c_strcpy_overflow [OF a, of "us_name (cf_users c ! cf_users_size c)"]
      c_strcpy_overflow [OF b, of "us_pass (cf_users c ! cf_users_size c)"]
      c_strcpy_holds [OF a, of "us_name (cf_users c ! cf_users_size c)"]
    by (auto simp: add_user_def c_strlen_def holds_str_def user_ok_def not_le)
qed

lemma edit_user_unknown:
  "config_ok c \<Longrightarrow> holds_str a u \<Longrightarrow> u \<notin> fst ` set (accounts c) \<Longrightarrow> edit_user c a b t = Inr (-1, c)"
  by (simp add: edit_user_def get_user_ok flip: position_None)

lemma edit_user_long:
  "config_ok c \<Longrightarrow> holds_str a u \<Longrightarrow> holds_str b v \<Longrightarrow> MAX_USERNAME_SIZE \<le> length v \<Longrightarrow>
   edit_user c a b t = Inr (-1, c)"
  by (auto simp: edit_user_def get_user_ok c_strlen_def holds_str_def split: option.splits)

lemma edit_user_ok:
  assumes c: "config_ok c" and a: "holds_str a u" and b: "holds_str b v"
    and fit: "length v < MAX_USERNAME_SIZE" and i: "position u (accounts c) = Some i"
  obtains c' where "edit_user c a b t = Inr (0, c')" "config_ok c'"
    "accounts c' = (accounts c)[i := if t = 0 then (v, snd (accounts c ! i)) else (u, v)]"
    "c' = c\<lparr>cf_users := cf_users c'\<rparr>"
proof -
  have lt: "i < cf_users_size c" and name: "fst (accounts c ! i) = u"
    using position_Some [OF i] length_accounts [OF c] by auto
  note at = config_ok_nth [OF c lt]
  let ?u = "cf_users c ! i"
  obtain n where n: "c_strcpy (us_name ?u) b = Inr n" "length n = MAX_USERNAME_SIZE" "holds_str n v"
    using strcpy_account [OF b _ fit] at(4) unfolding user_ok_def by metis
  obtain w where w: "c_strcpy (us_pass ?u) b = Inr w" "length w = MAX_USERNAME_SIZE" "holds_str w v"
    using strcpy_account [OF b _ fit] at(4) unfolding user_ok_def by metis
  let ?v = "if t = 0 then ?u\<lparr>us_name := n\<rparr> else ?u\<lparr>us_pass := w\<rparr>"
  have v: "user_ok ?v" "terminated (us_name ?v)" "terminated (us_pass ?v)"
    using n w at terminated_holds by (auto simp: user_ok_def)
  have acc: "account ?v = (if t = 0 then (v, snd (accounts c ! i)) else (u, v))"
    using n w at name by (auto simp: account_def str_of_holds)
  have "edit_user c a b t = Inr (0, c\<lparr>cf_users := (cf_users c)[i := ?v]\<rparr>)"
    using b fit n(1) w(1) at(1)
    by (auto simp: edit_user_def get_user_ok [OF c a] i c_strlen_def holds_str_def)
  with config_ok_update [OF c lt v] acc show ?thesis
    by (intro that [of "c\<lparr>cf_users := (cf_users c)[i := ?v]\<rparr>"]) auto
qed

text \<open>The account found is overwritten with the last one.\<close>

lemma delete_user_loop_ok:
  assumes c: "config_ok c" and a: "holds_str a u"
  shows "i + fuel = cf_users_size c \<Longrightarrow>
    (case position u (drop i (accounts c)) of
       None \<Rightarrow> delete_user_loop c a i fuel = Inr (False, c)
     | Some k \<Rightarrow> \<exists>c'. delete_user_loop c a i fuel = Inr (True, c') \<and> config_ok c' \<and>
         accounts c' = (accounts c)[i + k := last (accounts c)] \<and> c' = c\<lparr>cf_users := cf_users c'\<rparr>)"
proof (induction fuel arbitrary: i)
  case 0
  then show ?case
    using length_accounts [OF c] by simp
next
  case (Suc fuel)
  then have i: "i < cf_users_size c" by simp
  note at = config_ok_nth [OF c i]
  note len = length_accounts [OF c]
  have eq: "equal_name (cf_users c ! i) a = Inr (if fst (accounts c ! i) = u then 1 else 0)"
    using c_streq_holds [OF at(2) a] by (simp add: equal_name_def)
  show ?case
  proof (cases "fst (accounts c ! i) = u")
    case False
    with Suc.IH [of "Suc i"] Suc.prems at(1) eq show ?thesis
      by (auto simp: drop_accounts [OF c i] split: option.splits)
  next
    case True
    let ?l = "cf_users_size c - 1"
    have last: "last (accounts c) = accounts c ! ?l"
      using i len by (subst last_conv_nth) auto
    show ?thesis
    proof (cases "i < ?l")
      case False
      then have "(accounts c)[i := last (accounts c)] = accounts c"
        using i last by (metis Suc_diff_1 list_update_id not_less_less_Suc_eq zero_less_iff_neq_zero less_nat_zero_code)
      with True False at(1) eq c show ?thesis
        by (simp add: drop_accounts [OF c i])
    next
      case l: True
      then have lt: "?l < cf_users_size c"
        by simp
      note nxt = config_ok_nth [OF c lt]
      have fit: "length (fst (accounts c ! ?l)) < MAX_USERNAME_SIZE"
        "length (snd (accounts c ! ?l)) < MAX_USERNAME_SIZE"
        using nxt c_str_length unfolding holds_str_def user_ok_def by metis+
      obtain n where n: "c_strcpy (us_name (cf_users c ! i)) (us_name (cf_users c ! ?l)) = Inr n"
          "length n = MAX_USERNAME_SIZE" "holds_str n (fst (accounts c ! ?l))"
        using strcpy_account [OF nxt(2) _ fit(1)] at(4) unfolding user_ok_def by metis
      obtain w where w: "c_strcpy (us_pass (cf_users c ! i)) (us_pass (cf_users c ! ?l)) = Inr w"
          "length w = MAX_USERNAME_SIZE" "holds_str w (snd (accounts c ! ?l))"
        using strcpy_account [OF nxt(3) _ fit(2)] at(4) unfolding user_ok_def by metis
      let ?v = "\<lparr>us_name = n, us_pass = w\<rparr>"
      have v: "user_ok ?v" "terminated (us_name ?v)" "terminated (us_pass ?v)"
        using n w terminated_holds by (auto simp: user_ok_def)
      have "account ?v = last (accounts c)"
        using last by (simp add: account_def str_of_holds [OF n(3)] str_of_holds [OF w(3)])
      with config_ok_update [OF c i v] True l at(1) eq nxt(1) n(1) w(1) show ?thesis
        by (simp add: drop_accounts [OF c i])
    qed
  qed
qed

lemma delete_user_unknown:
  assumes "config_ok c" and "holds_str a u" and "u \<notin> fst ` set (accounts c)"
  shows "delete_user c a = Inr (-1, c)"
  using delete_user_loop_ok [OF assms(1,2), of 0 "cf_users_size c"] assms(3)
  by (simp add: delete_user_def flip: position_None)

lemma delete_user_ok:
  assumes c: "config_ok c" and a: "holds_str a u" and i: "position u (accounts c) = Some i"
  obtains c' where "delete_user c a = Inr (0, c')" "config_ok c'"
    "accounts c' = butlast ((accounts c)[i := last (accounts c)])"
    "c' = c\<lparr>cf_users := cf_users c', cf_users_size := cf_users_size c'\<rparr>"
proof -
  obtain c1 where c1: "delete_user_loop c a 0 (cf_users_size c) = Inr (True, c1)" "config_ok c1"
      "accounts c1 = (accounts c)[i := last (accounts c)]" "c1 = c\<lparr>cf_users := cf_users c1\<rparr>"
    using delete_user_loop_ok [OF c a, of 0 "cf_users_size c"] i by auto
  let ?c = "c1\<lparr>cf_users_size := cf_users_size c1 - 1\<rparr>"
  have "delete_user c a = Inr (0, ?c)"
    using c1(1) by (simp add: delete_user_def)
  moreover have "?c = c\<lparr>cf_users := cf_users ?c, cf_users_size := cf_users_size ?c\<rparr>"
    by (subst c1(4)) simp
  ultimately show ?thesis
    using config_ok_shrink [OF c1(2)] c1(3) by (intro that [of ?c]) auto
qed

lemma in_minus_single: "x \<in># M - {#d#} \<longleftrightarrow> x \<in># M \<and> (x = d \<longrightarrow> count M x \<noteq> 1)"
  by (auto simp: in_diff_count simp flip: count_greater_zero_iff)

section \<open>What the handlers rely on\<close>

text \<open>
  The contract of the accounts: the SOCKS side asks \<open>check\<close>, the management side calls \<open>add\<close> and
  \<open>del\<close>. \<open>cap\<close> and \<open>limit\<close> bound the number of accounts and the length of a string.
\<close>

locale account_store =
  fixes ok :: "'c \<Rightarrow> bool"
    and accs :: "'c \<Rightarrow> (u8 list \<times> u8 list) list"
    and cap :: nat and limit :: nat
    and check :: "'c \<Rightarrow> u8 list \<Rightarrow> u8 list \<Rightarrow> int result"
    and add :: "'c \<Rightarrow> u8 list \<Rightarrow> u8 list \<Rightarrow> (int \<times> 'c) result"
    and del :: "'c \<Rightarrow> u8 list \<Rightarrow> (int \<times> 'c) result"
  assumes check_iff: "ok c \<Longrightarrow> holds_str a u \<Longrightarrow> holds_str b p \<Longrightarrow>
      check c a b = Inr (if (u, p) \<in> set (accs c) then 1 else 0)"
    and add_appends: "ok c \<Longrightarrow> holds_str a u \<Longrightarrow> holds_str b p \<Longrightarrow> length u < limit \<Longrightarrow>
      length p < limit \<Longrightarrow> length (accs c) + 1 < cap \<Longrightarrow>
      \<exists>c'. add c a b = Inr (0, c') \<and> ok c' \<and> accs c' = accs c @ [(u, p)]"
    and del_unknown: "ok c \<Longrightarrow> holds_str a u \<Longrightarrow> position u (accs c) = None \<Longrightarrow> del c a = Inr (-1, c)"
    and del_removes: "ok c \<Longrightarrow> holds_str a u \<Longrightarrow> position u (accs c) = Some i \<Longrightarrow>
      \<exists>c'. del c a = Inr (0, c') \<and> ok c' \<and> mset (accs c') = mset (accs c) - {#accs c ! i#}"
begin

lemma add_then_check:
  assumes "ok c" and "holds_str a u" and "holds_str b p" and "length u < limit"
    and "length p < limit" and "length (accs c) + 1 < cap"
  shows "\<exists>c'. add c a b = Inr (0, c') \<and> ok c' \<and> check c' a b = Inr 1 \<and>
    (\<forall>x v y w. holds_str x v \<longrightarrow> holds_str y w \<longrightarrow> (v, w) \<noteq> (u, p) \<longrightarrow>
      check c' x y = check c x y)"
proof -
  obtain c' where c': "add c a b = Inr (0, c')" "ok c'" "accs c' = accs c @ [(u, p)]"
    using add_appends [OF assms] by blast
  then show ?thesis
    using check_iff [OF c'(2) assms(2,3)] check_iff [OF c'(2)] check_iff [OF assms(1)]
    by (intro exI [of _ c']) auto
qed

text \<open>What is left of the logins: one copy of the first account with the name is gone.\<close>

lemma del_then_check:
  assumes c: "ok c" and a: "holds_str a u" and i: "position u (accs c) = Some i"
  shows "\<exists>c'. del c a = Inr (0, c') \<and> ok c' \<and>
    (\<forall>x v y w. holds_str x v \<longrightarrow> holds_str y w \<longrightarrow> check c' x y =
      (if (v, w) = accs c ! i \<and> count (mset (accs c)) (v, w) = 1 then Inr 0 else check c x y)) \<and>
    (count_list (map fst (accs c)) u = 1 \<longrightarrow>
      (\<forall>x y w. holds_str x u \<longrightarrow> holds_str y w \<longrightarrow> check c' x y = Inr 0))"
proof -
  obtain c' where c': "del c a = Inr (0, c')" "ok c'" "mset (accs c') = mset (accs c) - {#accs c ! i#}"
    using del_removes [OF c a i] by blast
  have left: "e \<in> set (accs c') \<longleftrightarrow> e \<in> set (accs c) \<and> (e = accs c ! i \<longrightarrow> count (mset (accs c)) e \<noteq> 1)" for e
    using in_minus_single [of e "mset (accs c)" "accs c ! i"] c'(3) by (metis set_mset_mset)
  have single: "(u, w) \<notin> set (accs c')" if "count_list (map fst (accs c)) u = 1" for w
  proof
    assume "(u, w) \<in> set (accs c')"
    then have "u \<in># image_mset fst (mset (accs c'))"
      by force
    moreover have "image_mset fst (mset (accs c')) = image_mset fst (mset (accs c)) - {#u#}"
      using c'(3) position_Some [OF i] by (simp add: image_mset_Diff)
    moreover have "count (image_mset fst (mset (accs c))) u = 1"
      using that by (simp add: count_mset flip: mset_map)
    ultimately show False
      by (simp add: in_diff_count)
  qed
  show ?thesis
    using c'(1,2) check_iff [OF c'(2)] check_iff [OF c] left single
    by (intro exI [of _ c']) auto
qed

end

lemma mset_overwrite_last:
  assumes "i < length xs"
  shows "mset (butlast (xs[i := last xs])) = mset xs - {#xs ! i#}"
proof (cases xs rule: rev_cases)
  case (snoc ys y)
  show ?thesis
  proof (cases "i = length ys")
    case True
    with snoc show ?thesis by (simp add: list_update_append)
  next
    case False
    then have "i < length ys"
      using assms snoc by simp
    with snoc show ?thesis
      by (simp add: list_update_append nth_append mset_update)
  qed
qed (use assms in simp)

interpretation accounts: account_store config_ok accounts MAX_SOCKS_USERS MAX_USERNAME_SIZE
    checkUser add_user delete_user
proof unfold_locales
  fix c a u b p
  assume "config_ok c" and "holds_str a u" and "holds_str b p"
  then show "checkUser c a b = Inr (if (u, p) \<in> set (accounts c) then 1 else 0)"
    by (rule checkUser_ok)
next
  fix c a u b p
  assume "config_ok c" and "holds_str a u" and "holds_str b p" and "length u < MAX_USERNAME_SIZE"
    and "length p < MAX_USERNAME_SIZE" and "length (accounts c) + 1 < MAX_SOCKS_USERS"
  then show "\<exists>c'. add_user c a b = Inr (0, c') \<and> config_ok c' \<and> accounts c' = accounts c @ [(u, p)]"
    using add_user_ok [of c a u b p] length_accounts by metis
next
  fix c a u
  assume "config_ok c" and "holds_str a u" and "position u (accounts c) = None"
  then show "delete_user c a = Inr (-1, c)"
    by (intro delete_user_unknown) (simp_all add: position_None)
next
  fix c a u i
  assume c: "config_ok c" and a: "holds_str a u" and i: "position u (accounts c) = Some i"
  obtain c' where "delete_user c a = Inr (0, c')" "config_ok c'"
      "accounts c' = butlast ((accounts c)[i := last (accounts c)])"
    using delete_user_ok [OF c a i] by blast
  then show "\<exists>c'. delete_user c a = Inr (0, c') \<and> config_ok c' \<and> mset (accounts c') = mset (accounts c) - {#accounts c ! i#}"
    using mset_overwrite_last position_Some [OF i] by auto
qed

section \<open>The listing of the accounts\<close>

definition listing :: "(u8 list \<times> u8 list) list \<Rightarrow> u8 list" where
  "listing xs = concat (map (\<lambda>(n, p). n @ [32] @ p @ [10]) xs)"

text \<open>\<open>written res out\<close>: the array \<open>res\<close> with \<open>out\<close> at its start.\<close>

definition written :: "u8 list \<Rightarrow> u8 list \<Rightarrow> u8 list" where
  "written res out = out @ drop (length out) res"

lemma written_store:
  "length out < length res \<Longrightarrow>
   store_at (written res out) (length out) c = Inr (written res (out @ [c]))"
  by (auto simp: written_def array_simps list_update_append Cons_nth_drop_Suc [symmetric])

lemma copy_chars_ok:
  assumes "length (out @ s) < length res" and "int (length (out @ s)) \<le> lim" and "holds_str a s"
  shows "copy_chars a lim (written res out) (length out) =
    Inr (written res (out @ s), length (out @ s))"
  using assms
proof (induction s arbitrary: a out)
  case Nil
  then show ?case
    by (auto simp: holds_str_iff)
next
  case (Cons x s)
  then obtain a' where a: "a = x # a'" "x \<noteq> 0" "holds_str a' s"
    by (auto simp: holds_str_iff)
  with Cons.IH [of "out @ [x]" a'] Cons.prems show ?case
    by (simp add: written_store)
qed

lemma put_char_ok:
  "length out < length res \<Longrightarrow>
   put_char (written res out) (length out) c = Inr (written res (out @ [c]), Suc (length out))"
  by (simp add: put_char_def written_store)

lemma account_lengths:
  assumes "config_ok c" and "i < cf_users_size c"
  shows "length (fst (accounts c ! i)) < 10" "length (snd (accounts c ! i)) < 10"
  using config_ok_nth [OF assms] c_str_length
  unfolding holds_str_def user_ok_def MAX_USERNAME_SIZE_def by metis+

lemma get_users_loop_ok:
  assumes c: "config_ok c" and res: "res_size \<le> int (length res)"
  shows "i + fuel = cf_users_size c \<Longrightarrow> int (length out) + 20 * int fuel + 3 \<le> res_size \<Longrightarrow>
    get_users_loop c (written res out) res_size (length out) i fuel =
      Inr (written res (out @ listing (drop i (accounts c))),
        length (out @ listing (drop i (accounts c))))"
proof (induction fuel arbitrary: i out)
  case 0
  then show ?case
    using length_accounts [OF c] by (simp add: listing_def)
next
  case (Suc fuel)
  then have i: "i < cf_users_size c" by simp
  note at = config_ok_nth [OF c i]
  note len = account_lengths [OF c i]
  obtain n p where np: "accounts c ! i = (n, p)"
    by fastforce
  let ?o1 = "out @ n" and ?o2 = "out @ n @ [32]" and ?o3 = "out @ n @ [32] @ p"
    and ?o4 = "out @ n @ [32] @ p @ [10]"
  have bound: "int (length out) + 20 * int fuel + 23 \<le> res_size"
    using Suc.prems(2) by simp
  have c1: "copy_chars (us_name (cf_users c ! i)) (res_size - 3) (written res out) (length out) =
      Inr (written res ?o1, length ?o1)"
    using bound res len at(2) np by (intro copy_chars_ok) auto
  have p1: "put_char (written res ?o1) (length ?o1) 32 = Inr (written res ?o2, length ?o2)"
    using bound res len np put_char_ok [of ?o1 res 32] by simp
  have c2: "copy_chars (us_pass (cf_users c ! i)) (res_size - 2) (written res ?o2) (length ?o2) =
      Inr (written res ?o3, length ?o3)"
    using bound res len at(3) np copy_chars_ok [of ?o2 p res "res_size - 2"] by simp
  have p2: "put_char (written res ?o3) (length ?o3) 10 = Inr (written res ?o4, length ?o4)"
    using bound res len np put_char_ok [of ?o3 res 10] by simp
  have "get_users_loop c (written res ?o4) res_size (length ?o4) (Suc i) fuel =
      Inr (written res (?o4 @ listing (drop (Suc i) (accounts c))),
        length (?o4 @ listing (drop (Suc i) (accounts c))))"
    using Suc.IH [of "Suc i" ?o4] Suc.prems(1) bound len np by simp
  moreover have "out @ listing (drop i (accounts c)) = ?o4 @ listing (drop (Suc i) (accounts c))"
    by (simp add: drop_accounts [OF c i] np listing_def)
  ultimately show ?case
    by (simp only: get_users_loop.simps at(1) bind_res.simps c1 p1 c2 p2 prod.case)
qed

lemma length_listing:
  "\<forall>x\<in>set xs. length (fst x) < 10 \<and> length (snd x) < 10 \<Longrightarrow>
   length (listing xs) \<le> 20 * length xs"
  by (induction xs) (auto simp: listing_def)

lemma length_listing_accounts:
  assumes "config_ok c"
  shows "length (listing (accounts c)) \<le> 20 * cf_users_size c"
  using length_listing [of "accounts c"] account_lengths [OF assms] length_accounts [OF assms]
  by (metis in_set_conv_nth)

lemma num_to_4bytes_ok:
  assumes "4 \<le> res_size" and "4 \<le> length res"
  shows "num_to_4bytes res res_size n =
    Inr (4, [ucast (drop_bit 24 n), ucast (drop_bit 16 n), ucast (drop_bit 8 n), ucast n] @
      drop 4 res)"
proof -
  obtain a b d e r where "res = a # b # d # e # r"
    using assms(2) by (auto simp: Suc_le_length_iff eval_nat_numeral)
  with assms(1) show ?thesis
    by (simp add: num_to_4bytes_def store_at_def ucast_and_FF)
qed

lemma init_config_ok: "config_ok (init_config server_conf)"
  by (simp add: config_ok_def init_config_def server_conf_def user_ok_def)

text \<open>The server started with \<open>-u a:x -u b:y\<close>.\<close>

definition example_config :: config where
  "example_config = (init_config server_conf)\<lparr>cf_auth_enabled := True, cf_users :=
     [\<lparr>us_name = 97 # replicate 9 0, us_pass = 120 # replicate 9 0\<rparr>,
      \<lparr>us_name = 98 # replicate 9 0, us_pass = 121 # replicate 9 0\<rparr>] @
     replicate 8 \<lparr>us_name = replicate 10 0, us_pass = replicate 10 0\<rparr>, cf_users_size := 2\<rparr>"

lemma example_config_ok:
  "config_ok example_config" "accounts example_config = [([97], [120]), ([98], [121])]"
  "cf_users_size example_config = 2"
  by (simp_all add: example_config_def config_ok_def user_ok_def MAX_SOCKS_USERS_def
      MAX_USERNAME_SIZE_def terminated_def accounts_def account_def str_of_def)

lemma get_users_ok:
  assumes "config_ok c" and "204 \<le> res_size" and "res_size \<le> int (length res)"
  shows "get_users c res res_size =
    Inr (int (length (listing (accounts c))) + 1,
      listing (accounts c) @ [0] @ drop (length (listing (accounts c)) + 1) res)"
proof -
  let ?l = "listing (accounts c)"
  have size: "cf_users_size c \<le> 10"
    using assms(1) by (simp add: config_ok_def MAX_SOCKS_USERS_def)
  then have len: "length ?l < length res"
    using length_listing_accounts [OF assms(1)] assms(2,3) by linarith
  have "get_users_loop c (written res []) res_size (length ([] :: u8 list)) 0 (cf_users_size c) =
      Inr (written res ?l, length ?l)"
    using get_users_loop_ok [OF assms(1,3), of 0 "cf_users_size c" "[]"] size assms(2) by simp
  then show ?thesis
    using put_char_ok [OF len, of 0] by (simp add: get_users_def written_def)
qed

section \<open>Properties\<close>

text \<open>C27. Adding an account of a name and a password of at most nine characters while fewer
  than nine accounts exist succeeds, keeps the configuration well-formed, makes the login with
  exactly that name and password succeed, and changes the outcome of no other login.\<close>

theorem add_user_then_login:
  assumes "config_ok c" and "holds_str a u" and "holds_str b p"
    and "length u < MAX_USERNAME_SIZE" and "length p < MAX_USERNAME_SIZE"
    and "cf_users_size c + 1 < MAX_SOCKS_USERS"
  shows "\<exists>c'. add_user c a b = Inr (0, c') \<and> config_ok c' \<and> checkUser c' a b = Inr 1 \<and>
    (\<forall>x v y w. holds_str x v \<longrightarrow> holds_str y w \<longrightarrow> (v, w) \<noteq> (u, p) \<longrightarrow>
      checkUser c' x y = checkUser c x y)"
  using accounts.add_then_check [OF assms(1-5)] assms(6) length_accounts [OF assms(1)] by simp

theorem add_user_then_login_witness:
  "\<exists>c'. add_user example_config [99, 0] [122, 122, 0, 7] = Inr (0, c') \<and> config_ok c' \<and>
    checkUser c' [99, 0] [122, 122, 0, 7] = Inr 1 \<and>
    (\<forall>x v y w. holds_str x v \<longrightarrow> holds_str y w \<longrightarrow> (v, w) \<noteq> ([99], [122, 122]) \<longrightarrow>
      checkUser c' x y = checkUser example_config x y)"
  by (rule add_user_then_login [OF example_config_ok(1)])
    (simp_all add: holds_str_def MAX_USERNAME_SIZE_def MAX_SOCKS_USERS_def example_config_ok(3))

text \<open>C28. Deleting a name. If no account has it, nothing changes and the result is -1. Otherwise the first account with
  that name goes: its login fails from then on, unless the array has the same name and password once more, and the
  outcome of every other login, whatever its name, is as before. So all logins with the name fail when the
  name was used once; accounts that share it stay, since names need not be distinct.\<close>

theorem delete_user_then_login:
  assumes "config_ok c" and "holds_str a u"
  shows "case position u (accounts c) of
      None \<Rightarrow> delete_user c a = Inr (-1, c)
    | Some i \<Rightarrow> \<exists>c'. delete_user c a = Inr (0, c') \<and> config_ok c' \<and>
        (\<forall>x v y w. holds_str x v \<longrightarrow> holds_str y w \<longrightarrow> checkUser c' x y =
          (if (v, w) = accounts c ! i \<and> count (mset (accounts c)) (v, w) = 1 then Inr 0 else checkUser c x y)) \<and>
        (count_list (map fst (accounts c)) u = 1 \<longrightarrow>
          (\<forall>x y w. holds_str x u \<longrightarrow> holds_str y w \<longrightarrow> checkUser c' x y = Inr 0))"
  using accounts.del_unknown [OF assms] accounts.del_then_check [OF assms] by (auto split: option.split)

text \<open>Two accounts of one name: the second is there after the first was deleted.\<close>

definition doubled_config :: config where
  "doubled_config = example_config\<lparr>cf_users :=
     [\<lparr>us_name = 97 # replicate 9 0, us_pass = 120 # replicate 9 0\<rparr>,
      \<lparr>us_name = 97 # replicate 9 0, us_pass = 121 # replicate 9 0\<rparr>] @
     replicate 8 \<lparr>us_name = replicate 10 0, us_pass = replicate 10 0\<rparr>\<rparr>"

lemma doubled_config_ok: "config_ok doubled_config" "accounts doubled_config = [([97], [120]), ([97], [121])]"
  by (simp_all add: doubled_config_def example_config_def config_ok_def user_ok_def MAX_SOCKS_USERS_def
      MAX_USERNAME_SIZE_def terminated_def accounts_def account_def str_of_def)

theorem delete_user_then_login_witness:
  "(\<exists>c'. delete_user doubled_config [97, 0] = Inr (0, c') \<and>
      checkUser c' [97, 0] [120, 0] = Inr 0 \<and> checkUser c' [97, 0] [121, 0] = Inr 1) \<and>
   (\<exists>c'. delete_user example_config [97, 0] = Inr (0, c') \<and> checkUser c' [97, 0] [120, 0] = Inr 0 \<and>
      checkUser c' [98, 0] [121, 0] = Inr 1) \<and>
   delete_user example_config [99, 0] = Inr (-1, example_config)"
proof -
  have held: "holds_str [k, 0] [k]" if "k \<noteq> 0" for k
    using that by (simp add: holds_str_def)
  note ok = doubled_config_ok example_config_ok(1,2)
  have old: "checkUser doubled_config [97, 0] [121, 0] = Inr 1" "checkUser example_config [98, 0] [121, 0] = Inr 1"
    using checkUser_ok [OF ok(1) held held, of 97 121] checkUser_ok [OF ok(3) held held, of 98 121] ok(2,4) by simp_all
  obtain c1 where 1: "delete_user doubled_config [97, 0] = Inr (0, c1)"
      "\<And>x v y w. holds_str x v \<Longrightarrow> holds_str y w \<Longrightarrow> checkUser c1 x y =
        (if (v, w) = ([97], [120]) then Inr 0 else checkUser doubled_config x y)"
    using delete_user_then_login [OF ok(1) held, of 97] ok(2) by auto
  obtain c2 where 2: "delete_user example_config [97, 0] = Inr (0, c2)"
      "\<And>x v y w. holds_str x v \<Longrightarrow> holds_str y w \<Longrightarrow> checkUser c2 x y =
        (if (v, w) = ([97], [120]) then Inr 0 else checkUser example_config x y)"
    using delete_user_then_login [OF ok(3) held, of 97] ok(4) by auto
  have "delete_user example_config [99, 0] = Inr (-1, example_config)"
    using delete_user_then_login [OF ok(3) held, of 99] ok(4) by simp
  moreover have "checkUser c1 [97, 0] [120, 0] = Inr 0" "checkUser c1 [97, 0] [121, 0] = Inr 1"
      "checkUser c2 [97, 0] [120, 0] = Inr 0" "checkUser c2 [98, 0] [121, 0] = Inr 1"
    using 1(2) [OF held held, of 97 120] 1(2) [OF held held, of 97 121] 2(2) [OF held held, of 97 120]
      2(2) [OF held held, of 98 121] old by simp_all
  ultimately show ?thesis
    using 1(1) 2(1) by blast
qed

text \<open>A new account whose name has exactly ten characters, or whose password has ten or
  more, overruns the array it is copied to: the first length test of \<open>add_user\<close> is off by one and
  the second looks at the name again.\<close>

theorem add_user_overruns:
  assumes "config_ok c" and "holds_str a u" and "holds_str b p"
    and "cf_users_size c + 1 < MAX_SOCKS_USERS"
    and "length u = MAX_USERNAME_SIZE \<or>
      length u < MAX_USERNAME_SIZE \<and> MAX_USERNAME_SIZE \<le> length p"
  shows "add_user c a b = Inl OutOfBounds"
  using assms by (rule add_user_overflow)

theorem add_user_overruns_witness:
  "add_user example_config (replicate 10 99 @ [0]) [122, 0] = Inl OutOfBounds"
  by (rule add_user_overruns [OF example_config_ok(1), of _ "replicate 10 99" _ "[122]"])
    (simp_all add: holds_str_def MAX_USERNAME_SIZE_def MAX_SOCKS_USERS_def example_config_ok(3))

text \<open>The answer to GET users lists every account as name, space, password, newline, in
  the order of the array, ends with a zero byte, never truncates, and leaves the rest of the
  result array alone, if the array has 204 bytes or more.\<close>

theorem get_users_lists:
  assumes "config_ok c" and "204 \<le> res_size" and "res_size \<le> int (length res)"
  shows "get_users c res res_size =
    Inr (int (length (listing (accounts c))) + 1,
      listing (accounts c) @ [0] @ drop (length (listing (accounts c)) + 1) res)"
  using assms by (rule get_users_ok)

theorem get_users_lists_witness:
  "get_users example_config (replicate 255 0) 255 =
    Inr (9, [97, 32, 120, 10, 98, 32, 121, 10] @ [0] @ replicate 246 0)"
  using get_users_lists [OF example_config_ok(1), of 255 "replicate 255 0"]
  by (simp add: example_config_ok(2) listing_def)

text \<open>A buffer size that is set with CONFIGBUFFSIZE is the one that GET buffsize answers:
  the four bytes come back as they were sent, for every 32-bit number.\<close>

theorem buff_size_roundtrip:
  assumes "4 \<le> res_size" and "4 \<le> length res"
  shows "\<exists>c'. set_buff_size c (x # y # z # w # rest) = Inr (sint (be32 x y z w), c') \<and>
    get_socks_buffer_size c' = be32 x y z w \<and>
    get_buff_size c' res res_size = Inr (4, [x, y, z, w] @ drop 4 res)"
proof -
  let ?n = "be32 x y z w"
  have "be32 (ucast (drop_bit 24 ?n)) (ucast (drop_bit 16 ?n)) (ucast (drop_bit 8 ?n)) (ucast ?n) = ?n"
    by (rule be32_bytes)
  then have "unat (ucast (drop_bit 24 ?n) :: u8) = unat x \<and> unat (ucast (drop_bit 16 ?n) :: u8) = unat y \<and>
      unat (ucast (drop_bit 8 ?n) :: u8) = unat z \<and> unat (ucast ?n :: u8) = unat w"
    by (metis be32_inject)
  then show ?thesis
    using num_to_4bytes_ok [OF assms, of ?n]
    by (simp add: set_buff_size_def four_bytes_to_num_def load_at_def get_socks_buffer_size_def
        get_buff_size_def word_unat_eq_iff)
qed

theorem buff_size_roundtrip_witness:
  "\<exists>c'. set_buff_size example_config [0, 0, 8, 1] = Inr (sint (be32 0 0 8 1), c') \<and>
    get_socks_buffer_size c' = be32 0 0 8 1 \<and>
    get_buff_size c' (replicate 255 9) 255 = Inr (4, [0, 0, 8, 1] @ drop 4 (replicate 255 9))"
  by (rule buff_size_roundtrip) simp_all

text \<open>GET for the number of bytes sent or received never answers: the conversion shifts a
  32-bit number by 56 bits. (And both functions read the counter of the bytes sent.)\<close>

theorem get_bytes_shift:
  assumes "8 \<le> res_size"
  shows "cf_get_sent_bytes m res res_size = Inl BadShift \<and>
    cf_get_received_bytes m res res_size = Inl BadShift"
  using assms
  by (simp_all add: cf_get_sent_bytes_def cf_get_received_bytes_def num_to_8bytes_def
      eval_nat_numeral)

theorem get_bytes_shift_witness:
  "\<forall>m. cf_get_sent_bytes m (replicate 255 0) 255 = Inl BadShift \<and>
    cf_get_received_bytes m (replicate 255 0) 255 = Inl BadShift"
  using get_bytes_shift [of 255] by simp

end
