(* ===== verification/Stm.thy ===== *)
theory Stm
  imports Prelude
begin

text \<open>
  The state machine engine, \<^verbatim>\<open>src/stm.c\<close>. A handler is a function on the state \<open>'w\<close> of the program
  (the key it is called with is an argument of the table). The only member of
  \<open>struct state_machine\<close> that changes is \<open>current\<close>, which lives in an object of the program:
  \<open>stm_store\<close> reads and writes it, and fails when that object is gone. \<open>current\<close> is an index into
  \<open>states\<close>, \<open>None\<close> for the null pointer.
\<close>

record 'w state_definition =
  sd_state :: nat
  sd_on_arrival :: "(nat \<Rightarrow> 'w \<Rightarrow> 'w result) option"
  sd_on_departure :: "(nat \<Rightarrow> 'w \<Rightarrow> 'w result) option"
  sd_on_read_ready :: "('w \<Rightarrow> (nat \<times> 'w) result) option"
  sd_on_write_ready :: "('w \<Rightarrow> (nat \<times> 'w) result) option"
  sd_on_block_ready :: "('w \<Rightarrow> (nat \<times> 'w) result) option"

record 'w stm_store =
  get_current :: "'w \<Rightarrow> nat option result"
  set_current :: "nat option \<Rightarrow> 'w \<Rightarrow> 'w result"

record 'w state_machine =
  stm_initial :: nat
  stm_states :: "'w state_definition list"
  stm_max_state :: nat
  stm_current :: "'w stm_store"

text \<open>An entry without functions.\<close>

definition bare_state :: "nat \<Rightarrow> 'w state_definition" where
  "bare_state n = \<lparr>sd_state = n, sd_on_arrival = None, sd_on_departure = None,
     sd_on_read_ready = None, sd_on_write_ready = None, sd_on_block_ready = None\<rparr>"

lemma bare_state_simps [simp]:
  "sd_state (bare_state n) = n" "sd_on_arrival (bare_state n) = None"
  "sd_on_departure (bare_state n) = None" "sd_on_read_ready (bare_state n) = None"
  "sd_on_write_ready (bare_state n) = None" "sd_on_block_ready (bare_state n) = None"
  by (simp_all add: bare_state_def)

section \<open>Operations\<close>

fun stm_check :: "'w state_definition list \<Rightarrow> nat \<Rightarrow> nat \<Rightarrow> unit result" where
  "stm_check states i 0 = Inr ()"
| "stm_check states i (Suc fuel) =
     bind_res (load_at states i) (\<lambda>d.
     if i \<noteq> sd_state d then Inl Aborted else stm_check states (Suc i) fuel)"

definition stm_init :: "'w state_machine \<Rightarrow> 'w \<Rightarrow> 'w result" where
  "stm_init stm w =
     bind_res (stm_check (stm_states stm) 0 (stm_max_state stm + 1)) (\<lambda>_.
     if stm_initial stm < stm_max_state stm then set_current (stm_current stm) None w
     else Inl Aborted)"

definition call_arrival :: "'w state_machine \<Rightarrow> nat \<Rightarrow> 'w \<Rightarrow> 'w result" where
  "call_arrival stm s w =
     bind_res (load_at (stm_states stm) s) (\<lambda>d.
     case sd_on_arrival d of None \<Rightarrow> Inr w | Some f \<Rightarrow> f (sd_state d) w)"

definition call_departure :: "'w state_machine \<Rightarrow> nat \<Rightarrow> 'w \<Rightarrow> 'w result" where
  "call_departure stm s w =
     bind_res (load_at (stm_states stm) s) (\<lambda>d.
     case sd_on_departure d of None \<Rightarrow> Inr w | Some f \<Rightarrow> f (sd_state d) w)"

definition handle_first :: "'w state_machine \<Rightarrow> 'w \<Rightarrow> 'w result" where
  "handle_first stm w =
     bind_res (get_current (stm_current stm) w) (\<lambda>cur.
     if cur = None then
       bind_res (set_current (stm_current stm) (Some (stm_initial stm)) w) (\<lambda>w.
       call_arrival stm (stm_initial stm) w)
     else Inr w)"

definition stm_jump :: "'w state_machine \<Rightarrow> nat \<Rightarrow> 'w \<Rightarrow> 'w result" where
  "stm_jump stm nxt w =
     (if stm_max_state stm < nxt then Inl Aborted
      else
        bind_res (get_current (stm_current stm) w) (\<lambda>cur.
        if cur \<noteq> Some nxt then
          bind_res (case cur of None \<Rightarrow> Inr w | Some s \<Rightarrow> call_departure stm s w) (\<lambda>w.
          bind_res (set_current (stm_current stm) (Some nxt) w) (\<lambda>w.
          call_arrival stm nxt w))
        else Inr w))"

text \<open>The three event functions are the same text with another member of the table.\<close>

definition stm_handler ::
  "('w state_definition \<Rightarrow> ('w \<Rightarrow> (nat \<times> 'w) result) option) \<Rightarrow> 'w state_machine \<Rightarrow> 'w \<Rightarrow>
   (nat \<times> 'w) result" where
  "stm_handler on_ready stm w =
     bind_res (handle_first stm w) (\<lambda>w.
     bind_res (get_current (stm_current stm) w) (\<lambda>cur.
     case cur of
       None \<Rightarrow> Inl NullCall
     | Some s \<Rightarrow>
         bind_res (load_at (stm_states stm) s) (\<lambda>d.
         case on_ready d of
           None \<Rightarrow> Inl Aborted
         | Some f \<Rightarrow>
             bind_res (f w) (\<lambda>(ret, w).
             bind_res (stm_jump stm ret w) (\<lambda>w. Inr (ret, w))))))"

definition stm_handler_read :: "'w state_machine \<Rightarrow> 'w \<Rightarrow> (nat \<times> 'w) result" where
  "stm_handler_read = stm_handler sd_on_read_ready"

definition stm_handler_write :: "'w state_machine \<Rightarrow> 'w \<Rightarrow> (nat \<times> 'w) result" where
  "stm_handler_write = stm_handler sd_on_write_ready"

definition stm_handler_block :: "'w state_machine \<Rightarrow> 'w \<Rightarrow> (nat \<times> 'w) result" where
  "stm_handler_block = stm_handler sd_on_block_ready"

definition stm_handler_close :: "'w state_machine \<Rightarrow> 'w \<Rightarrow> 'w result" where
  "stm_handler_close stm w =
     bind_res (get_current (stm_current stm) w) (\<lambda>cur.
     case cur of None \<Rightarrow> Inr w | Some s \<Rightarrow> call_departure stm s w)"

definition stm_state :: "'w state_machine \<Rightarrow> 'w \<Rightarrow> nat result" where
  "stm_state stm w =
     bind_res (get_current (stm_current stm) w) (\<lambda>cur.
     case cur of
       None \<Rightarrow> Inr (stm_initial stm)
     | Some s \<Rightarrow> bind_res (load_at (stm_states stm) s) (\<lambda>d. Inr (sd_state d)))"

section \<open>The table of states\<close>

text \<open>What \<open>stm_init\<close> verifies, except that it also refuses \<open>initial = max_state\<close>.\<close>

definition stm_table_ok :: "'w state_machine \<Rightarrow> bool" where
  "stm_table_ok stm \<longleftrightarrow> stm_max_state stm < length (stm_states stm) \<and>
     (\<forall>i \<le> stm_max_state stm. sd_state (stm_states stm ! i) = i) \<and>
     stm_initial stm \<le> stm_max_state stm"

lemma stm_check_ok:
  "stm_check states i n = Inr () \<longleftrightarrow>
   (n = 0 \<or> i + n \<le> length states) \<and> (\<forall>j. i \<le> j \<longrightarrow> j < i + n \<longrightarrow> sd_state (states ! j) = j)"
proof (induction n arbitrary: i)
  case (Suc n)
  show ?case
  proof (cases "i < length states")
    case True
    have "(\<forall>j. i \<le> j \<longrightarrow> j < i + Suc n \<longrightarrow> sd_state (states ! j) = j) \<longleftrightarrow>
        sd_state (states ! i) = i \<and> (\<forall>j. Suc i \<le> j \<longrightarrow> j < Suc i + n \<longrightarrow> sd_state (states ! j) = j)"
      by (metis Suc_le_eq add_Suc add_Suc_right le_eq_less_or_eq less_add_same_cancel1 zero_less_Suc)
    with True Suc.IH [of "Suc i"] show ?thesis
      by (auto simp: load_at_def)
  qed (simp add: load_at_def)
qed simp

lemma stm_init_iff:
  "stm_init stm w = Inr w' \<longleftrightarrow>
   stm_table_ok stm \<and> stm_initial stm < stm_max_state stm \<and>
   set_current (stm_current stm) None w = Inr w'"
  using stm_check_ok [of "stm_states stm" 0 "stm_max_state stm + 1"]
  by (auto simp: stm_init_def stm_table_ok_def bind_res_Inr_iff less_Suc_eq_le split: if_splits)

text \<open>
  One event, seen from outside: what the engine does before and after the function of the state is
  in \<open>R\<close>, if the store and the arrival and departure functions are.
\<close>

lemma stm_handlerE:
  assumes run: "stm_handler on_ready stm w = Inr (t, w')"
    and R: "reflp R" "transp R"
    and set: "\<And>c w w'. set_current (stm_current stm) c w = Inr w' \<Longrightarrow> R w w'"
    and arr: "\<And>s w w'. call_arrival stm s w = Inr w' \<Longrightarrow> R w w'"
    and dep: "\<And>s w w'. call_departure stm s w = Inr w' \<Longrightarrow> R w w'"
  obtains s d f w1 w2 where "handle_first stm w = Inr w1" "R w w1"
    "get_current (stm_current stm) w1 = Inr (Some s)" "load_at (stm_states stm) s = Inr d"
    "on_ready d = Some f" "f w1 = Inr (t, w2)" "stm_jump stm t w2 = Inr w'" "R w2 w'"
proof -
  obtain s d f w1 w2 where *: "handle_first stm w = Inr w1"
      "get_current (stm_current stm) w1 = Inr (Some s)" "load_at (stm_states stm) s = Inr d"
      "on_ready d = Some f" "f w1 = Inr (t, w2)" "stm_jump stm t w2 = Inr w'"
    using run by (auto simp: stm_handler_def elim!: bind_res_InrE split: option.splits)
  have refl: "R x x" and trans: "R x y \<Longrightarrow> R y z \<Longrightarrow> R x z" for x y z
    using R by (auto dest: reflpD transpD)
  have "R w w1"
    using *(1) by (auto simp: handle_first_def refl elim!: bind_res_InrE split: if_splits
        dest!: set arr intro: trans)
  moreover have "R w2 w'"
    using *(6) by (auto simp: stm_jump_def refl elim!: bind_res_InrE split: if_splits option.splits
        dest!: set arr dep) (metis trans)+
  ultimately show ?thesis
    using that * by blast
qed

section \<open>Invariants that depend on the state\<close>

text \<open>
  How a user of the engine proves a property of all its states: \<open>arr s\<close> is what holds when the
  machine is about to arrive in \<open>s\<close>, \<open>at s\<close> what holds in \<open>s\<close>. Each handler is looked at
  alone; the engine does the rest.
\<close>

locale stm_user =
  fixes stm :: "'w state_machine"
    and arr :: "nat \<Rightarrow> 'w \<Rightarrow> bool"
    and at :: "nat \<Rightarrow> 'w \<Rightarrow> bool"
  assumes table: "stm_table_ok stm"
    and set_get: "set_current (stm_current stm) c w = Inr w' \<Longrightarrow>
      get_current (stm_current stm) w' = Inr c"
    and set_arr: "set_current (stm_current stm) c w = Inr w' \<Longrightarrow> arr s w \<Longrightarrow> arr s w'"
    and arrival: "s \<le> stm_max_state stm \<Longrightarrow> arr s w \<Longrightarrow> call_arrival stm s w = Inr w' \<Longrightarrow>
      at s w' \<and> get_current (stm_current stm) w' = get_current (stm_current stm) w"
    and departure: "s \<le> stm_max_state stm \<Longrightarrow> arr t w \<Longrightarrow> call_departure stm s w = Inr w' \<Longrightarrow> arr t w'"
    and ready: "s \<le> stm_max_state stm \<Longrightarrow> at s w \<Longrightarrow>
      get_current (stm_current stm) w = Inr (Some s) \<Longrightarrow>
      sd_on_read_ready (stm_states stm ! s) = Some f \<or>
      sd_on_write_ready (stm_states stm ! s) = Some f \<or>
      sd_on_block_ready (stm_states stm ! s) = Some f \<Longrightarrow>
      f w = Inr (t, w') \<Longrightarrow> get_current (stm_current stm) w' = Inr c \<Longrightarrow>
      c = Some s \<and> (if t = s then at s w' else arr t w')"
begin

definition inv :: "'w \<Rightarrow> bool" where
  "inv w \<longleftrightarrow> (case get_current (stm_current stm) w of
     Inl _ \<Rightarrow> False
   | Inr None \<Rightarrow> arr (stm_initial stm) w
   | Inr (Some s) \<Rightarrow> s \<le> stm_max_state stm \<and> at s w)"

lemma handle_first_inv:
  assumes "inv w" and "handle_first stm w = Inr w'"
  obtains s where "s \<le> stm_max_state stm" "get_current (stm_current stm) w' = Inr (Some s)" "at s w'"
proof -
  obtain c where c: "get_current (stm_current stm) w = Inr c"
    using assms(1) by (auto simp: inv_def split: sum.splits)
  show ?thesis
  proof (cases c)
    case (Some s)
    with assms c show ?thesis
      by (intro that [of s]) (auto simp: inv_def handle_first_def)
  next
    case None
    with assms c obtain w1 where w1: "set_current (stm_current stm) (Some (stm_initial stm)) w = Inr w1"
        "call_arrival stm (stm_initial stm) w1 = Inr w'" "arr (stm_initial stm) w"
      by (auto simp: handle_first_def bind_res_Inr_iff inv_def)
    have "stm_initial stm \<le> stm_max_state stm"
      using table by (simp add: stm_table_ok_def)
    with arrival [OF this set_arr [OF w1(1,3)] w1(2)] set_get [OF w1(1)] show ?thesis
      by (intro that [of "stm_initial stm"]) auto
  qed
qed

lemma stm_jump_inv:
  assumes s: "s \<le> stm_max_state stm" and cur: "get_current (stm_current stm) w = Inr (Some s)"
    and at: "if t = s then at s w else arr t w" and jump: "stm_jump stm t w = Inr w'"
  shows "t \<le> stm_max_state stm \<and> get_current (stm_current stm) w' = Inr (Some t) \<and> at t w'"
proof -
  have t: "t \<le> stm_max_state stm"
    using jump by (simp add: stm_jump_def split: if_splits)
  show ?thesis
  proof (cases "t = s")
    case True
    with jump cur t at show ?thesis
      by (simp add: stm_jump_def)
  next
    case False
    with jump cur t obtain w1 w2 where w1: "call_departure stm s w = Inr w1"
        "set_current (stm_current stm) (Some t) w1 = Inr w2" "call_arrival stm t w2 = Inr w'"
      by (auto simp: stm_jump_def bind_res_Inr_iff)
    have "arr t w2"
      using set_arr [OF w1(2) departure [OF s _ w1(1)]] at False by simp
    from arrival [OF t this w1(3)] set_get [OF w1(2)] t show ?thesis
      by simp
  qed
qed

lemma stm_handler_inv:
  assumes which: "on_ready = sd_on_read_ready \<or> on_ready = sd_on_write_ready \<or>
      on_ready = sd_on_block_ready"
    and inv: "inv w" and run: "stm_handler on_ready stm w = Inr (t, w')"
  shows "t \<le> stm_max_state stm \<and> get_current (stm_current stm) w' = Inr (Some t) \<and> at t w'"
proof -
  obtain w1 where w1: "handle_first stm w = Inr w1"
    using run by (auto simp: stm_handler_def bind_res_Inr_iff)
  obtain s where s: "s \<le> stm_max_state stm" "get_current (stm_current stm) w1 = Inr (Some s)"
      "at s w1"
    using handle_first_inv [OF inv w1] by blast
  have load: "load_at (stm_states stm) s = Inr (stm_states stm ! s)"
    using s(1) table by (auto simp: stm_table_ok_def load_at_def)
  obtain f w2 where f: "on_ready (stm_states stm ! s) = Some f" "f w1 = Inr (t, w2)"
      "stm_jump stm t w2 = Inr w'"
    using run w1 s(2) load by (auto simp: stm_handler_def bind_res_Inr_iff split: option.splits)
  obtain c where c: "get_current (stm_current stm) w2 = Inr c"
    using f(3) by (auto simp: stm_jump_def bind_res_Inr_iff split: if_splits)
  have "c = Some s \<and> (if t = s then at s w2 else arr t w2)"
    by (rule ready [where f = f and w = w1]) (use which f s c in auto)
  with stm_jump_inv [OF s(1) _ _ f(3)] c show ?thesis
    by blast
qed

end

end
