(* ===== verification/Selector.thy ===== *)
theory Selector
  imports Prelude
begin

text \<open>
  The multiplexer of \<^verbatim>\<open>src/selector.c\<close>. The table \<open>fds\<close> is a list of items, its length is
  \<open>fd_size\<close>; handlers are named by values of \<open>'h\<close>, attached data by addresses of type \<open>'d\<close>. An
  \<open>fd_set\<close> is a set of numbers. A handler acts on the selector and the rest of the program's state
  \<open>'w\<close>. What the operating system decides (whether memory is available, what \<open>pselect\<close> reports) is
  an argument. The mutex and the signals between the resolver threads and the selector are not
  modelled: a notification is an operation like the others.
\<close>

section \<open>Types\<close>

datatype selector_status =
    SELECTOR_SUCCESS
  | SELECTOR_ENOMEM
  | SELECTOR_MAXFD
  | SELECTOR_IARGS
  | SELECTOR_FDINUSE
  | SELECTOR_IO

fun selector_error :: "selector_status \<Rightarrow> string" where
  "selector_error SELECTOR_SUCCESS = ''Success''"
| "selector_error SELECTOR_ENOMEM = ''Not enough memory''"
| "selector_error SELECTOR_MAXFD = ''Can't handle any more file descriptors''"
| "selector_error SELECTOR_IARGS = ''Illegal argument''"
| "selector_error SELECTOR_IO = ''I/O error''"
| "selector_error SELECTOR_FDINUSE = ''something failed''"

type_synonym fd_interest = u8

definition OP_NOOP :: fd_interest where "OP_NOOP = 0"
definition OP_READ :: fd_interest where "OP_READ = 1"
definition OP_WRITE :: fd_interest where "OP_WRITE = 4"

lemmas op_defs = OP_NOOP_def OP_READ_def OP_WRITE_def

definition FD_UNUSED :: int where "FD_UNUSED = -1"
definition ITEMS_MAX_SIZE :: nat where "ITEMS_MAX_SIZE = 1024"

record ('h, 'd) item =
  it_fd :: int
  it_interest :: fd_interest
  it_handler :: "'h option"
  it_data :: "'d option"

record ('h, 'd) selector =
  s_fds :: "('h, 'd) item list option"
  s_max_fd :: nat
  s_master_r :: "nat set"
  s_master_w :: "nat set"
  s_slave_r :: "nat set"
  s_slave_w :: "nat set"
  s_resolution_jobs :: "int list"

record 'd selector_key =
  k_fd :: int
  k_data :: "'d option"

type_synonym ('h, 'd, 'w) callback =
  "'d selector_key \<Rightarrow> ('h, 'd) selector \<times> 'w \<Rightarrow> (('h, 'd) selector \<times> 'w) result"

record ('h, 'd, 'w) fd_handler =
  handle_read :: "('h, 'd, 'w) callback option"
  handle_write :: "('h, 'd, 'w) callback option"
  handle_block :: "('h, 'd, 'w) callback option"
  handle_close :: "('h, 'd, 'w) callback option"

definition ITEM_USED :: "('h, 'd) item \<Rightarrow> bool" where
  "ITEM_USED i \<longleftrightarrow> FD_UNUSED \<noteq> it_fd i"

definition fd_size :: "('h, 'd) selector \<Rightarrow> nat" where
  "fd_size s = (case s_fds s of None \<Rightarrow> 0 | Some fds \<Rightarrow> length fds)"

text \<open>Access to \<open>s->fds + i\<close>.\<close>

definition get_item :: "('h, 'd) selector \<Rightarrow> nat \<Rightarrow> ('h, 'd) item result" where
  "get_item s i = (case s_fds s of None \<Rightarrow> Inl NullCall | Some fds \<Rightarrow> load_at fds i)"

definition set_item :: "('h, 'd) selector \<Rightarrow> nat \<Rightarrow> ('h, 'd) item \<Rightarrow> ('h, 'd) selector result" where
  "set_item s i it =
     (case s_fds s of
        None \<Rightarrow> Inl NullCall
      | Some fds \<Rightarrow> bind_res (store_at fds i it) (\<lambda>fds. Inr (s\<lparr>s_fds := Some fds\<rparr>)))"

section \<open>The table\<close>

fun bit_count :: "nat \<Rightarrow> nat" where
  "bit_count n = (if n = 0 then 0 else Suc (bit_count (n div 2)))"

declare bit_count.simps [simp del]

definition next_capacity :: "nat \<Rightarrow> nat result" where
  "next_capacity n =
     (let bits = bit_count n in
      if 64 \<le> bits then Inl BadShift
      else
        let tmp = 2 ^ bits in
        if tmp < n then Inl AssertFailed
        else Inr ((if ITEMS_MAX_SIZE < tmp then ITEMS_MAX_SIZE else tmp) + 1))"

text \<open>Zeroed memory.\<close>

definition zero_item :: "('h, 'd) item" where
  "zero_item = \<lparr>it_fd = 0, it_interest = 0, it_handler = None, it_data = None\<rparr>"

definition item_init :: "('h, 'd) item \<Rightarrow> ('h, 'd) item" where
  "item_init item = item\<lparr>it_fd := FD_UNUSED\<rparr>"

definition items_init :: "('h, 'd) item list \<Rightarrow> nat \<Rightarrow> ('h, 'd) item list result" where
  "items_init fds old =
     (if old \<le> length fds then Inr (take old fds @ map item_init (drop old fds))
      else Inl AssertFailed)"

fun items_max_fd_loop :: "('h, 'd) selector \<Rightarrow> int \<Rightarrow> nat \<Rightarrow> nat \<Rightarrow> int result" where
  "items_max_fd_loop s mx i 0 = Inr mx"
| "items_max_fd_loop s mx i (Suc fuel) =
     bind_res (get_item s i) (\<lambda>item.
     items_max_fd_loop s (if ITEM_USED item \<and> mx < it_fd item then it_fd item else mx) (Suc i) fuel)"

definition items_max_fd :: "('h, 'd) selector \<Rightarrow> nat result" where
  "items_max_fd s = bind_res (items_max_fd_loop s 0 0 (s_max_fd s + 1)) (\<lambda>m. Inr (nat m))"

definition items_update_fdset_for_fd ::
  "('h, 'd) selector \<Rightarrow> ('h, 'd) item \<Rightarrow> ('h, 'd) selector" where
  "items_update_fdset_for_fd s item =
     (let fd = nat (it_fd item);
          s = s\<lparr>s_master_r := s_master_r s - {fd}, s_master_w := s_master_w s - {fd}\<rparr> in
      if ITEM_USED item then
        let s = (if it_interest item AND OP_READ \<noteq> 0
                 then s\<lparr>s_master_r := insert fd (s_master_r s)\<rparr> else s) in
        if it_interest item AND OP_WRITE \<noteq> 0
        then s\<lparr>s_master_w := insert fd (s_master_w s)\<rparr> else s
      else s)"

text \<open>
  \<open>mem\<close> tells whether \<open>calloc\<close> or \<open>realloc\<close> finds memory, \<open>junk\<close> is what fresh memory from
  \<open>realloc\<close> holds. (The test against \<open>SIZE_MAX\<close> never fires: the table has at most 1025 entries.)
\<close>

definition ensure_capacity ::
  "bool \<Rightarrow> ('h, 'd) item \<Rightarrow> ('h, 'd) selector \<Rightarrow> nat \<Rightarrow> (selector_status \<times> ('h, 'd) selector) result"
  where
  "ensure_capacity mem junk s n =
     (if n < fd_size s then Inr (SELECTOR_SUCCESS, s)
      else if ITEMS_MAX_SIZE < n then Inr (SELECTOR_MAXFD, s)
      else
        bind_res (next_capacity n) (\<lambda>new_size.
        if \<not> mem then Inr (SELECTOR_ENOMEM, s)
        else
          (case s_fds s of
             None \<Rightarrow>
               bind_res (items_init (replicate new_size zero_item) 0) (\<lambda>fds.
               Inr (SELECTOR_SUCCESS, s\<lparr>s_fds := Some fds\<rparr>))
           | Some old \<Rightarrow>
               bind_res (items_init (take new_size old @ replicate (new_size - length old) junk)
                 (length old)) (\<lambda>fds.
               Inr (SELECTOR_SUCCESS, s\<lparr>s_fds := Some fds\<rparr>)))))"

text \<open>\<open>None\<close> when there is no memory for the selector or its table.\<close>

definition selector_new ::
  "bool \<Rightarrow> bool \<Rightarrow> ('h, 'd) item \<Rightarrow> nat \<Rightarrow> ('h, 'd) selector option result" where
  "selector_new mem1 mem2 junk initial_elements =
     (if \<not> mem1 then Inr None
      else
        let ret = \<lparr>s_fds = None, s_max_fd = 0, s_master_r = {}, s_master_w = {}, s_slave_r = {},
                   s_slave_w = {}, s_resolution_jobs = []\<rparr> in
        bind_res (ensure_capacity mem2 junk ret initial_elements) (\<lambda>(st, ret).
        Inr (if st = SELECTOR_SUCCESS then Some ret else None)))"

section \<open>Registration\<close>

definition INVALID_FD :: "int \<Rightarrow> bool" where
  "INVALID_FD fd \<longleftrightarrow> fd < 0 \<or> int ITEMS_MAX_SIZE \<le> fd"

definition selector_register ::
  "bool \<Rightarrow> ('h, 'd) item \<Rightarrow> ('h, 'd) selector \<Rightarrow> int \<Rightarrow> 'h option \<Rightarrow> fd_interest \<Rightarrow> 'd option \<Rightarrow>
   (selector_status \<times> ('h, 'd) selector) result" where
  "selector_register mem junk s fd handler interest data =
     (if INVALID_FD fd \<or> handler = None then Inr (SELECTOR_IARGS, s)
      else
        let ufd = nat fd in
        bind_res (if fd_size s < ufd then ensure_capacity mem junk s ufd
                  else Inr (SELECTOR_SUCCESS, s)) (\<lambda>(ret, s).
        if ret \<noteq> SELECTOR_SUCCESS then Inr (ret, s)
        else
          bind_res (get_item s ufd) (\<lambda>item.
          if ITEM_USED item then Inr (SELECTOR_FDINUSE, s)
          else
            let item = \<lparr>it_fd = fd, it_interest = interest, it_handler = handler, it_data = data\<rparr> in
            bind_res (set_item s ufd item) (\<lambda>s.
            let s = (if int (s_max_fd s) < fd then s\<lparr>s_max_fd := ufd\<rparr> else s) in
            Inr (SELECTOR_SUCCESS, items_update_fdset_for_fd s item)))))"

text \<open>
  \<open>close\<close> is the member \<open>handle_close\<close> of the handlers. The pointer to the item is kept across the
  call: if the handler makes the table move, it is stale.
\<close>

definition selector_unregister_fd ::
  "('h \<Rightarrow> ('h, 'd, 'w) callback option) \<Rightarrow> int \<Rightarrow> ('h, 'd) selector \<times> 'w \<Rightarrow>
   (selector_status \<times> ('h, 'd) selector \<times> 'w) result" where
  "selector_unregister_fd close fd st =
     (if INVALID_FD fd then Inr (SELECTOR_IARGS, st)
      else
        let ufd = nat fd; size = fd_size (fst st) in
        bind_res (get_item (fst st) ufd) (\<lambda>item.
        if \<not> ITEM_USED item then Inr (SELECTOR_IARGS, st)
        else
          (case it_handler item of
             None \<Rightarrow> Inl NullCall
           | Some h \<Rightarrow>
               bind_res (case close h of
                   None \<Rightarrow> Inr st
                 | Some f \<Rightarrow> f \<lparr>k_fd = it_fd item, k_data = it_data item\<rparr> st) (\<lambda>(s, w).
               if fd_size s \<noteq> size then Inl UseAfterFree
               else
                 bind_res (get_item s ufd) (\<lambda>item.
                 let item = item\<lparr>it_interest := OP_NOOP\<rparr>;
                     s = items_update_fdset_for_fd s item in
                 bind_res (set_item s ufd (item_init zero_item)) (\<lambda>s.
                 bind_res (items_max_fd s) (\<lambda>m.
                 Inr (SELECTOR_SUCCESS, s\<lparr>s_max_fd := m\<rparr>, w))))))))"

definition selector_set_interest ::
  "('h, 'd) selector \<Rightarrow> int \<Rightarrow> fd_interest \<Rightarrow> (selector_status \<times> ('h, 'd) selector) result" where
  "selector_set_interest s fd i =
     (if INVALID_FD fd then Inr (SELECTOR_IARGS, s)
      else
        bind_res (get_item s (nat fd)) (\<lambda>item.
        if \<not> ITEM_USED item then Inr (SELECTOR_IARGS, s)
        else
          let item = item\<lparr>it_interest := i\<rparr> in
          bind_res (set_item s (nat fd) item) (\<lambda>s.
          Inr (SELECTOR_SUCCESS, items_update_fdset_for_fd s item))))"

definition selector_set_interest_key ::
  "('h, 'd) selector \<Rightarrow> 'd selector_key \<Rightarrow> fd_interest \<Rightarrow>
   (selector_status \<times> ('h, 'd) selector) result" where
  "selector_set_interest_key s key i =
     (if INVALID_FD (k_fd key) then Inr (SELECTOR_IARGS, s)
      else selector_set_interest s (k_fd key) i)"

section \<open>Dispatch\<close>

text \<open>
  One of the two halves of the body of \<open>handle_iteration\<close>. \<open>tsize\<close> is the size of the table when
  the pointer \<open>item\<close> was taken; the pointer is stale once the table has moved.
\<close>

definition dispatch ::
  "('h \<Rightarrow> ('h, 'd, 'w) callback option) \<Rightarrow> fd_interest \<Rightarrow> nat set \<Rightarrow> nat \<Rightarrow> nat \<Rightarrow> nat \<Rightarrow> 'd selector_key \<Rightarrow>
   ('h, 'd) selector \<times> 'w \<Rightarrow> (('h, 'd) selector \<times> 'w) result" where
  "dispatch handler op slave fd i tsize key st =
     (if fd \<in> slave then
        bind_res (if fd_size (fst st) \<noteq> tsize then Inl UseAfterFree else get_item (fst st) i) (\<lambda>item.
        if op AND it_interest item \<noteq> 0 then
          (case it_handler item of
             None \<Rightarrow> Inl NullCall
           | Some h \<Rightarrow>
               (case handler h of
                  None \<Rightarrow> Inl AssertFailed
                | Some f \<Rightarrow> f key st))
        else Inr st)
      else Inr st)"

fun handle_iteration_loop ::
  "('h \<Rightarrow> ('h, 'd, 'w) fd_handler) \<Rightarrow> nat \<Rightarrow> nat \<Rightarrow> ('h, 'd) selector \<times> 'w \<Rightarrow>
   (('h, 'd) selector \<times> 'w) result" where
  "handle_iteration_loop handlers i 0 st = Inr st"
| "handle_iteration_loop handlers i (Suc fuel) st =
     bind_res (get_item (fst st) i) (\<lambda>item.
     bind_res
       (if ITEM_USED item then
          let key = \<lparr>k_fd = it_fd item, k_data = it_data item\<rparr> in
          bind_res (dispatch (\<lambda>h. handle_read (handlers h)) OP_READ (s_slave_r (fst st))
            (nat (it_fd item)) i (fd_size (fst st)) key st) (\<lambda>st'.
          dispatch (\<lambda>h. handle_write (handlers h)) OP_WRITE (s_slave_w (fst st')) i i
            (fd_size (fst st)) key st')
        else Inr st) (\<lambda>st.
     handle_iteration_loop handlers (Suc i) fuel st))"

definition handle_iteration ::
  "('h \<Rightarrow> ('h, 'd, 'w) fd_handler) \<Rightarrow> ('h, 'd) selector \<times> 'w \<Rightarrow> (('h, 'd) selector \<times> 'w) result"
  where
  "handle_iteration handlers st = handle_iteration_loop handlers 0 (s_max_fd (fst st) + 1) st"

text \<open>The member \<open>handle_block\<close> is called without a test.\<close>

fun notify_loop ::
  "('h \<Rightarrow> ('h, 'd, 'w) fd_handler) \<Rightarrow> int list \<Rightarrow> ('h, 'd) selector \<times> 'w \<Rightarrow>
   (('h, 'd) selector \<times> 'w) result" where
  "notify_loop handlers [] st = Inr st"
| "notify_loop handlers (fd # jobs) st =
     bind_res (if fd < 0 then Inl OutOfBounds else get_item (fst st) (nat fd)) (\<lambda>item.
     bind_res
       (if ITEM_USED item then
          (case it_handler item of
             None \<Rightarrow> Inl NullCall
           | Some h \<Rightarrow>
               (case handle_block (handlers h) of
                  None \<Rightarrow> Inl NullCall
                | Some f \<Rightarrow> f \<lparr>k_fd = it_fd item, k_data = it_data item\<rparr> st))
        else Inr st) (\<lambda>st.
     notify_loop handlers jobs st))"

definition handle_block_notifications ::
  "('h \<Rightarrow> ('h, 'd, 'w) fd_handler) \<Rightarrow> ('h, 'd) selector \<times> 'w \<Rightarrow> (('h, 'd) selector \<times> 'w) result"
  where
  "handle_block_notifications handlers st =
     bind_res (notify_loop handlers (s_resolution_jobs (fst st)) st) (\<lambda>(s, w).
     Inr (s\<lparr>s_resolution_jobs := []\<rparr>, w))"

definition selector_notify_block ::
  "bool \<Rightarrow> ('h, 'd) selector \<Rightarrow> int \<Rightarrow> selector_status \<times> ('h, 'd) selector" where
  "selector_notify_block mem s fd =
     (if \<not> mem then (SELECTOR_ENOMEM, s)
      else (SELECTOR_SUCCESS, s\<lparr>s_resolution_jobs := fd # s_resolution_jobs s\<rparr>))"

text \<open>What \<open>pselect\<close> answers: the descriptors that are ready, or an error.\<close>

datatype select_answer = Ready "nat set" "nat set" | Interrupted | BadDescriptor | SelectFails

definition selector_select ::
  "('h \<Rightarrow> ('h, 'd, 'w) fd_handler) \<Rightarrow> select_answer \<Rightarrow> ('h, 'd) selector \<times> 'w \<Rightarrow>
   (selector_status \<times> ('h, 'd) selector \<times> 'w) result" where
  "selector_select handlers answer st =
     (let s = fst st; w = snd st;
          s = s\<lparr>s_slave_r := s_master_r s, s_slave_w := s_master_w s\<rparr> in
      case answer of
        Ready r wr \<Rightarrow>
          bind_res (handle_iteration handlers
            (s\<lparr>s_slave_r := s_slave_r s \<inter> r, s_slave_w := s_slave_w s \<inter> wr\<rparr>, w)) (\<lambda>st.
          bind_res (handle_block_notifications handlers st) (\<lambda>st. Inr (SELECTOR_SUCCESS, st)))
      | Interrupted \<Rightarrow>
          bind_res (handle_block_notifications handlers (s, w)) (\<lambda>st. Inr (SELECTOR_SUCCESS, st))
      | BadDescriptor \<Rightarrow> Inr (SELECTOR_IO, s, w)
      | SelectFails \<Rightarrow> Inr (SELECTOR_IO, s, w))"

fun selector_destroy_loop ::
  "('h \<Rightarrow> ('h, 'd, 'w) callback option) \<Rightarrow> nat \<Rightarrow> nat \<Rightarrow> ('h, 'd) selector \<times> 'w \<Rightarrow>
   (('h, 'd) selector \<times> 'w) result" where
  "selector_destroy_loop close i 0 st = Inr st"
| "selector_destroy_loop close i (Suc fuel) st =
     bind_res (get_item (fst st) i) (\<lambda>item.
     bind_res (if ITEM_USED item
               then bind_res (selector_unregister_fd close (int i) st) (\<lambda>(_, st). Inr st)
               else Inr st) (\<lambda>st.
     selector_destroy_loop close (Suc i) fuel st))"

text \<open>What is left when the selector and its table are freed.\<close>

definition selector_destroy ::
  "('h \<Rightarrow> ('h, 'd, 'w) callback option) \<Rightarrow> ('h, 'd) selector \<times> 'w \<Rightarrow> 'w result" where
  "selector_destroy close st =
     (case s_fds (fst st) of
        None \<Rightarrow> Inr (snd st)
      | Some fds \<Rightarrow>
          bind_res (selector_destroy_loop close 0 (length fds) st) (\<lambda>st. Inr (snd st)))"

section \<open>The table as a map\<close>

definition registered :: "('h, 'd) selector \<Rightarrow> nat \<Rightarrow> (fd_interest \<times> 'h option \<times> 'd option) option" where
  "registered s i =
     (case get_item s i of
        Inl _ \<Rightarrow> None
      | Inr it \<Rightarrow>
          if ITEM_USED it then Some (it_interest it, it_handler it, it_data it) else None)"

definition wants :: "fd_interest \<Rightarrow> ('h, 'd) selector \<Rightarrow> nat \<Rightarrow> bool" where
  "wants op s i \<longleftrightarrow> (\<exists>int h d. registered s i = Some (int, h, d) \<and> int AND op \<noteq> 0)"

text \<open>
  The invariant: the number in a used item is its index, used items have handlers and lie below
  \<open>max_fd\<close>, which lies in the table, and the two prototype sets are the interests.
\<close>

definition items_ok :: "('h, 'd) item list \<Rightarrow> nat \<Rightarrow> bool" where
  "items_ok fds m \<longleftrightarrow> (\<forall>i<length fds. ITEM_USED (fds ! i) \<longrightarrow>
     it_fd (fds ! i) = int i \<and> it_handler (fds ! i) \<noteq> None \<and> i \<le> m)"

definition selector_ok :: "('h, 'd) selector \<Rightarrow> bool" where
  "selector_ok s \<longleftrightarrow> s_max_fd s < fd_size s \<and>
     (\<forall>fds. s_fds s = Some fds \<longrightarrow> items_ok fds (s_max_fd s)) \<and>
     s_master_r s = {i. wants OP_READ s i} \<and> s_master_w s = {i. wants OP_WRITE s i}"

lemma fd_sizeD: "0 < fd_size s \<Longrightarrow> \<exists>fds. s_fds s = Some fds \<and> fd_size s = length fds"
  by (auto simp: fd_size_def split: option.splits)

lemma selector_ok_fds:
  assumes "selector_ok s"
  obtains fds where "s_fds s = Some fds" "fd_size s = length fds" "items_ok fds (s_max_fd s)"
    "s_max_fd s < length fds"
  using assms fd_sizeD [of s] by (auto simp: selector_ok_def)

lemma registered_fds:
  "s_fds s = Some fds \<Longrightarrow>
   registered s i = (if i < length fds \<and> ITEM_USED (fds ! i)
     then Some (it_interest (fds ! i), it_handler (fds ! i), it_data (fds ! i)) else None)"
  by (simp add: registered_def get_item_def load_at_def)

text \<open>A used item is written: \<open>register\<close> and \<open>set_interest\<close>.\<close>

lemma update_item_ok:
  assumes ok: "selector_ok s" and i: "i < fd_size s" and it: "it_fd it = int i" "it_handler it \<noteq> None"
    and m: "max (s_max_fd s) i \<le> m" "m < fd_size s"
  shows "\<exists>s'. set_item s i it = Inr s' \<and>
    (let s2 = items_update_fdset_for_fd (s'\<lparr>s_max_fd := m\<rparr>) it in selector_ok s2 \<and>
      registered s2 = (registered s)(i \<mapsto> (it_interest it, it_handler it, it_data it)) \<and>
      fd_size s2 = fd_size s)"
proof -
  obtain fds where fds: "s_fds s = Some fds" "fd_size s = length fds" "items_ok fds (s_max_fd s)"
    using ok by (rule selector_ok_fds)
  let ?s1 = "s\<lparr>s_fds := Some (fds[i := it]), s_max_fd := m\<rparr>"
  let ?s2 = "items_update_fdset_for_fd ?s1 it"
  have used: "ITEM_USED it"
    using it(1) by (simp add: ITEM_USED_def FD_UNUSED_def)
  have s2: "s_fds ?s2 = Some (fds[i := it])" "s_max_fd ?s2 = m" "fd_size ?s2 = fd_size s"
    using fds by (auto simp: items_update_fdset_for_fd_def fd_size_def Let_def)
  have reg: "registered ?s2 = (registered s)(i \<mapsto> (it_interest it, it_handler it, it_data it))"
    using i fds used by (auto simp: registered_fds [OF s2(1)] registered_fds [OF fds(1)] nth_list_update fun_eq_iff)
  have master: "s_master_r s = {i. wants OP_READ s i}" "s_master_w s = {i. wants OP_WRITE s i}"
    using ok by (auto simp: selector_ok_def)
  have "s_master_r ?s2 = {i. wants OP_READ ?s2 i} \<and> s_master_w ?s2 = {i. wants OP_WRITE ?s2 i}"
    unfolding wants_def reg using it(1) used master
    by (auto simp: items_update_fdset_for_fd_def Let_def wants_def)
  moreover have "items_ok (fds[i := it]) m"
    unfolding items_ok_def
  proof (intro allI impI)
    fix k assume k: "k < length (fds[i := it])" "ITEM_USED (fds[i := it] ! k)"
    show "it_fd (fds[i := it] ! k) = int k \<and> it_handler (fds[i := it] ! k) \<noteq> None \<and> k \<le> m"
      using k fds(3) it m(1) by (cases "k = i") (force simp: items_ok_def)+
  qed
  ultimately have "selector_ok ?s2"
    using s2 m(2) by (simp add: selector_ok_def)
  with fds i reg s2 show ?thesis
    by (simp add: set_item_def array_simps Let_def)
qed

lemma selector_register_ok:
  assumes ok: "selector_ok s" and fd: "fd < fd_size s" "fd < ITEMS_MAX_SIZE"
    and free: "registered s fd = None"
  shows "\<exists>s'. selector_register mem junk s (int fd) (Some h) i d = Inr (SELECTOR_SUCCESS, s') \<and>
    selector_ok s' \<and> registered s' = (registered s)(fd \<mapsto> (i, Some h, d)) \<and> fd_size s' = fd_size s"
proof -
  obtain fds where fds: "s_fds s = Some fds" "fd_size s = length fds" "s_max_fd s < length fds"
    using ok by (rule selector_ok_fds)
  let ?it = "\<lparr>it_fd = int fd, it_interest = i, it_handler = Some h, it_data = d\<rparr>"
  obtain s1 where s1: "set_item s fd ?it = Inr s1"
      "let s2 = items_update_fdset_for_fd (s1\<lparr>s_max_fd := max (s_max_fd s) fd\<rparr>) ?it in selector_ok s2 \<and>
        registered s2 = (registered s)(fd \<mapsto> (i, Some h, d)) \<and> fd_size s2 = fd_size s"
    using update_item_ok [OF ok fd(1), of ?it "max (s_max_fd s) fd"] fd fds(2,3) by auto
  have max: "s_max_fd s1 = s_max_fd s"
    using s1(1) fds by (auto simp: set_item_def bind_res_Inr_iff)
  have "(if int (s_max_fd s1) < int fd then s1\<lparr>s_max_fd := fd\<rparr> else s1) =
      s1\<lparr>s_max_fd := max (s_max_fd s) fd\<rparr>"
    using max by auto
  with s1 fd fds free show ?thesis
    by (auto simp: selector_register_def INVALID_FD_def registered_fds [OF fds(1)] get_item_def
        array_simps Let_def)
qed

lemma selector_register_in_use:
  assumes "registered s fd \<noteq> None" and "fd < ITEMS_MAX_SIZE"
  shows "selector_register mem junk s (int fd) (Some h) i d = Inr (SELECTOR_FDINUSE, s)"
proof -
  obtain fds where "s_fds s = Some fds" "fd < length fds" "ITEM_USED (fds ! fd)"
    using assms(1) by (auto simp: registered_def get_item_def load_at_def split: option.splits sum.splits if_splits)
  with assms(2) show ?thesis
    by (auto simp: selector_register_def INVALID_FD_def get_item_def array_simps Let_def fd_size_def)
qed

lemma selector_set_interest_ok:
  assumes ok: "selector_ok s" and reg: "registered s fd = Some (j, h, d)" and fd: "fd < ITEMS_MAX_SIZE"
  shows "\<exists>s'. selector_set_interest s (int fd) i = Inr (SELECTOR_SUCCESS, s') \<and> selector_ok s' \<and>
    registered s' = (registered s)(fd \<mapsto> (i, h, d)) \<and> fd_size s' = fd_size s"
proof -
  obtain fds where fds: "s_fds s = Some fds" "fd_size s = length fds" "items_ok fds (s_max_fd s)"
      "s_max_fd s < length fds"
    using ok by (rule selector_ok_fds)
  let ?it = "(fds ! fd)\<lparr>it_interest := i\<rparr>"
  have at: "fd < length fds" "ITEM_USED (fds ! fd)" "it_handler (fds ! fd) = h" "it_data (fds ! fd) = d"
    using reg by (auto simp: registered_fds [OF fds(1)] split: if_splits)
  then have it: "it_fd ?it = int fd" "it_handler ?it \<noteq> None" "fd \<le> s_max_fd s"
    using fds(3) by (auto simp: items_ok_def)
  obtain s1 where s1: "set_item s fd ?it = Inr s1"
      "let s2 = items_update_fdset_for_fd (s1\<lparr>s_max_fd := s_max_fd s\<rparr>) ?it in selector_ok s2 \<and>
        registered s2 = (registered s)(fd \<mapsto> (i, h, d)) \<and> fd_size s2 = fd_size s"
    using update_item_ok [OF ok _ it(1,2), of "s_max_fd s"] at it fds(2,4) by auto
  have "s1\<lparr>s_max_fd := s_max_fd s\<rparr> = s1"
    using s1(1) fds by (auto simp: set_item_def bind_res_Inr_iff)
  with s1 at fd fds show ?thesis
    by (auto simp: selector_set_interest_def INVALID_FD_def get_item_def array_simps Let_def)
qed

lemma selector_set_interest_unknown:
  assumes "registered s fd = None" and "fd < fd_size s" and "fd < ITEMS_MAX_SIZE"
  shows "selector_set_interest s (int fd) i = Inr (SELECTOR_IARGS, s)"
  using assms by (auto simp: selector_set_interest_def INVALID_FD_def registered_def get_item_def
      load_at_def fd_size_def split: option.splits)

text \<open>The largest number in use, which \<open>unregister\<close> recomputes.\<close>

lemma items_max_fd_loop:
  assumes "s_fds s = Some fds" and "i + n \<le> length fds"
    and "\<And>k. k < length fds \<Longrightarrow> ITEM_USED (fds ! k) \<Longrightarrow> it_fd (fds ! k) = int k"
  shows "\<exists>m. items_max_fd_loop s mx i n = Inr m \<and> mx \<le> m \<and>
    (\<forall>k. i \<le> k \<and> k < i + n \<and> ITEM_USED (fds ! k) \<longrightarrow> int k \<le> m) \<and>
    (m = mx \<or> m < int (i + n))"
  using assms(2)
proof (induction n arbitrary: i mx)
  case (Suc n)
  let ?mx = "if ITEM_USED (fds ! i) \<and> mx < it_fd (fds ! i) then it_fd (fds ! i) else mx"
  obtain m where m: "items_max_fd_loop s ?mx (Suc i) n = Inr m" "?mx \<le> m"
      "\<forall>k. Suc i \<le> k \<and> k < Suc i + n \<and> ITEM_USED (fds ! k) \<longrightarrow> int k \<le> m"
      "m = ?mx \<or> m < int (Suc i + n)"
    using Suc.IH [of "Suc i" ?mx] Suc.prems by auto
  have i: "ITEM_USED (fds ! i) \<Longrightarrow> it_fd (fds ! i) = int i"
    using assms(3) Suc.prems by auto
  have "int k \<le> m" if "i \<le> k" "k < i + Suc n" "ITEM_USED (fds ! k)" for k
    using that m(2,3) i by (cases "k = i") (auto split: if_splits)
  moreover have "mx \<le> m" "m = mx \<or> m < int (i + Suc n)"
    using m(2,4) i by (auto split: if_splits)
  moreover have "items_max_fd_loop s mx i (Suc n) = Inr m"
    using m(1) Suc.prems assms(1) by (simp add: get_item_def load_at_def)
  ultimately show ?case
    by blast
qed simp

lemma items_max_fd_ok:
  assumes fds: "s_fds s = Some fds" and m: "s_max_fd s < length fds" and items: "items_ok fds (s_max_fd s)"
  shows "\<exists>m. items_max_fd s = Inr m \<and> m < length fds \<and> items_ok fds m"
proof -
  have k: "\<And>k. k < length fds \<Longrightarrow> ITEM_USED (fds ! k) \<Longrightarrow> it_fd (fds ! k) = int k \<and> k \<le> s_max_fd s"
    using items by (auto simp: items_ok_def)
  obtain r where r: "items_max_fd_loop s 0 0 (s_max_fd s + 1) = Inr r" "0 \<le> r"
      "\<forall>k. 0 \<le> k \<and> k < 0 + (s_max_fd s + 1) \<and> ITEM_USED (fds ! k) \<longrightarrow> int k \<le> r"
      "r = 0 \<or> r < int (0 + (s_max_fd s + 1))"
    using items_max_fd_loop [of s fds 0 "s_max_fd s + 1" 0] fds m k by auto
  have "items_ok fds (nat r)"
    unfolding items_ok_def
  proof (intro allI impI)
    fix i assume i: "i < length fds" "ITEM_USED (fds ! i)"
    then have "int i \<le> r"
      using r(3) k [of i] by auto
    with i items show "it_fd (fds ! i) = int i \<and> it_handler (fds ! i) \<noteq> None \<and> i \<le> nat r"
      by (auto simp: items_ok_def)
  qed
  with r m show ?thesis
    by (auto simp: items_max_fd_def)
qed

text \<open>\<open>unregister\<close>, whatever the close handler does to the rest of the program.\<close>

lemma selector_unregister_ok:
  assumes reg: "registered s fd = Some (j, Some h, d)" and fd: "fd < ITEMS_MAX_SIZE"
    and close: "(case close h of None \<Rightarrow> Inr (s, w) | Some f \<Rightarrow> f \<lparr>k_fd = int fd, k_data = d\<rparr> (s, w)) = Inr (s1, w1)"
    and ok0: "selector_ok s"
    and ok: "selector_ok s1" and same: "fd_size s1 = fd_size s" and reg1: "registered s1 fd \<noteq> None"
  shows "\<exists>s'. selector_unregister_fd close (int fd) (s, w) = Inr (SELECTOR_SUCCESS, s', w1) \<and>
    selector_ok s' \<and> registered s' = (registered s1)(fd := None) \<and> fd_size s' = fd_size s"
proof -
  obtain fds0 where fds0: "s_fds s = Some fds0" "fd_size s = length fds0" "items_ok fds0 (s_max_fd s)"
    using ok0 by (rule selector_ok_fds)
  obtain fds where fds: "s_fds s1 = Some fds" "fd_size s1 = length fds" "items_ok fds (s_max_fd s1)"
      "s_max_fd s1 < length fds"
    using ok by (rule selector_ok_fds)
  have at0: "fd < length fds0" "ITEM_USED (fds0 ! fd)" "it_handler (fds0 ! fd) = Some h"
      "it_data (fds0 ! fd) = d" "it_fd (fds0 ! fd) = int fd"
    using reg fds0(3) by (auto simp: registered_fds [OF fds0(1)] items_ok_def split: if_splits)
  have at: "fd < length fds" "ITEM_USED (fds ! fd)" "it_fd (fds ! fd) = int fd"
    using reg1 fds(3) by (auto simp: registered_fds [OF fds(1)] items_ok_def split: if_splits)
  define s2 where "s2 = items_update_fdset_for_fd s1 ((fds ! fd)\<lparr>it_interest := OP_NOOP\<rparr>)"
  define fds3 where "fds3 = fds[fd := item_init zero_item]"
  define s3 where "s3 = s2\<lparr>s_fds := Some fds3\<rparr>"
  have s2: "s_fds s2 = Some fds" "s_max_fd s2 = s_max_fd s1"
      "s_master_r s2 = s_master_r s1 - {fd}" "s_master_w s2 = s_master_w s1 - {fd}"
    using fds at by (auto simp: s2_def items_update_fdset_for_fd_def Let_def OP_NOOP_def)
  have unused: "\<not> ITEM_USED (item_init zero_item :: ('a, 'b) item)"
    by (simp add: ITEM_USED_def item_init_def)
  have items3: "items_ok fds3 (s_max_fd s1)"
    unfolding items_ok_def fds3_def
  proof (intro allI impI)
    fix k assume k: "k < length (fds[fd := item_init zero_item])"
        "ITEM_USED (fds[fd := item_init zero_item] ! k)"
    show "it_fd (fds[fd := item_init zero_item] ! k) = int k \<and>
        it_handler (fds[fd := item_init zero_item] ! k) \<noteq> None \<and> k \<le> s_max_fd s1"
      using k fds(3) unused by (cases "k = fd") (force simp: items_ok_def)+
  qed
  obtain m where m: "items_max_fd s3 = Inr m" "m < length fds3" "items_ok fds3 m"
    using items_max_fd_ok [of s3 fds3] items3 fds(4) s2 by (auto simp: s3_def fds3_def)
  let ?s4 = "s3\<lparr>s_max_fd := m\<rparr>"
  have close': "(case close h of None \<Rightarrow> Inr (s, w)
      | Some f \<Rightarrow> f \<lparr>k_fd = it_fd (fds0 ! fd), k_data = it_data (fds0 ! fd)\<rparr> (s, w)) = Inr (s1, w1)"
    unfolding at0(4,5) by (rule close)
  have run: "selector_unregister_fd close (int fd) (s, w) = Inr (SELECTOR_SUCCESS, ?s4, w1)"
    using fd fds0 at0 fds at same m(1) s2(1)
    by (simp add: selector_unregister_fd_def INVALID_FD_def get_item_def load_at_def set_item_def
        store_at_def Let_def close' s2_def [symmetric] fds3_def [symmetric] s3_def [symmetric])
  have fds4: "s_fds ?s4 = Some fds3"
    by (simp add: s3_def)
  have reg4: "registered ?s4 = (registered s1)(fd := None)"
    using at unused by (auto simp: registered_fds [OF fds4] registered_fds [OF fds(1)] fds3_def fun_eq_iff nth_list_update)
  have "s_master_r s1 = {i. wants OP_READ s1 i}" "s_master_w s1 = {i. wants OP_WRITE s1 i}"
    using ok by (auto simp: selector_ok_def)
  then have "s_master_r ?s4 = {i. wants OP_READ ?s4 i}" "s_master_w ?s4 = {i. wants OP_WRITE ?s4 i}"
    unfolding wants_def reg4 using s2 by (auto simp: s3_def wants_def)
  then have "selector_ok ?s4"
    using m by (simp add: selector_ok_def fds4 fd_size_def)
  moreover have "fd_size ?s4 = fd_size s"
    using fds(2) same by (simp add: fd_size_def fds4 fds3_def)
  ultimately show ?thesis
    using run reg4 by blast
qed

lemma selector_unregister_unknown:
  assumes "registered s fd = None" and "fd < fd_size s" and "fd < ITEMS_MAX_SIZE"
  shows "selector_unregister_fd close (int fd) (s, w) = Inr (SELECTOR_IARGS, s, w)"
  using assms by (auto simp: selector_unregister_fd_def INVALID_FD_def registered_def get_item_def
      load_at_def fd_size_def split: option.splits)

section \<open>The table refines a map\<close>

text \<open>Sequences of operations; the close handlers are those of the client, here none.\<close>

datatype ('h, 'd) table_op =
    Register nat 'h fd_interest "'d option"
  | Interest nat fd_interest
  | Unregister nat

fun op_fd :: "('h, 'd) table_op \<Rightarrow> nat" where
  "op_fd (Register fd h i d) = fd"
| "op_fd (Interest fd i) = fd"
| "op_fd (Unregister fd) = fd"

fun table_step ::
  "bool \<Rightarrow> ('h, 'd) item \<Rightarrow> ('h, 'd) table_op \<Rightarrow> ('h, 'd) selector \<Rightarrow>
   (selector_status \<times> ('h, 'd) selector) result" where
  "table_step mem junk (Register fd h i d) s = selector_register mem junk s (int fd) (Some h) i d"
| "table_step mem junk (Interest fd i) s = selector_set_interest s (int fd) i"
| "table_step mem junk (Unregister fd) s =
     bind_res (selector_unregister_fd (\<lambda>_. None) (int fd) (s, ())) (\<lambda>(st, s, _). Inr (st, s))"

fun table_run ::
  "bool \<Rightarrow> ('h, 'd) item \<Rightarrow> ('h, 'd) table_op list \<Rightarrow> ('h, 'd) selector \<Rightarrow>
   (selector_status list \<times> ('h, 'd) selector) result" where
  "table_run mem junk [] s = Inr ([], s)"
| "table_run mem junk (op # ops) s =
     bind_res (table_step mem junk op s) (\<lambda>(st, s).
     bind_res (table_run mem junk ops s) (\<lambda>(sts, s). Inr (st # sts, s)))"

type_synonym ('h, 'd) table = "nat \<Rightarrow> (fd_interest \<times> 'h option \<times> 'd option) option"

fun spec_step :: "('h, 'd) table_op \<Rightarrow> ('h, 'd) table \<Rightarrow> selector_status \<times> ('h, 'd) table" where
  "spec_step (Register fd h i d) t =
     (if t fd = None then (SELECTOR_SUCCESS, t(fd \<mapsto> (i, Some h, d))) else (SELECTOR_FDINUSE, t))"
| "spec_step (Interest fd i) t =
     (case t fd of
        None \<Rightarrow> (SELECTOR_IARGS, t)
      | Some (_, h, d) \<Rightarrow> (SELECTOR_SUCCESS, t(fd \<mapsto> (i, h, d))))"
| "spec_step (Unregister fd) t =
     (if t fd = None then (SELECTOR_IARGS, t) else (SELECTOR_SUCCESS, t(fd := None)))"

fun spec_run :: "('h, 'd) table_op list \<Rightarrow> ('h, 'd) table \<Rightarrow> selector_status list \<times> ('h, 'd) table" where
  "spec_run [] t = ([], t)"
| "spec_run (op # ops) t =
     (let (st, t) = spec_step op t; (sts, t) = spec_run ops t in (st # sts, t))"

lemma registered_handler:
  "selector_ok s \<Longrightarrow> registered s fd = Some (j, h, d) \<Longrightarrow> \<exists>h'. h = Some h'"
  by (elim selector_ok_fds) (auto simp: registered_fds items_ok_def split: if_splits)

lemma table_step_spec:
  assumes ok: "selector_ok s" and fd: "op_fd op < fd_size s" "op_fd op < ITEMS_MAX_SIZE"
  shows "\<exists>s'. table_step mem junk op s = Inr (fst (spec_step op (registered s)), s') \<and>
    selector_ok s' \<and> registered s' = snd (spec_step op (registered s)) \<and> fd_size s' = fd_size s"
proof (cases op)
  case (Register fd h i d)
  then show ?thesis
    using selector_register_ok [OF ok, of fd mem junk h i d] fd
      selector_register_in_use [of s fd mem junk h i d] ok by (cases "registered s fd") auto
next
  case (Interest fd i)
  then show ?thesis
    using selector_set_interest_ok [OF ok, of fd _ _ _ i] fd
      selector_set_interest_unknown [of s fd i] ok by (cases "registered s fd") force+
next
  case (Unregister fd)
  show ?thesis
  proof (cases "registered s fd")
    case None
    then show ?thesis
      using Unregister fd ok selector_unregister_unknown [of s fd "\<lambda>_. None" "()"] by simp
  next
    case (Some v)
    obtain j h d where v: "v = (j, Some h, d)"
      using Some registered_handler [OF ok] by (cases v) blast
    show ?thesis
      using Unregister fd ok Some v
        selector_unregister_ok [where s = s and fd = fd and j = j and h = h and d = d and
            close = "\<lambda>_. None" and w = "()" and ?s1.0 = s and ?w1.0 = "()"] by auto
  qed
qed

lemma table_run_spec:
  assumes "selector_ok s" and "\<forall>op\<in>set ops. op_fd op < fd_size s \<and> op_fd op < ITEMS_MAX_SIZE"
  shows "\<exists>s'. table_run mem junk ops s = Inr (fst (spec_run ops (registered s)), s') \<and>
    selector_ok s' \<and> registered s' = snd (spec_run ops (registered s))"
  using assms
proof (induction ops arbitrary: s)
  case (Cons op ops)
  obtain s1 where "table_step mem junk op s = Inr (fst (spec_step op (registered s)), s1)"
      "selector_ok s1" "registered s1 = snd (spec_step op (registered s))" "fd_size s1 = fd_size s"
    using table_step_spec [of s op mem junk] Cons.prems by auto
  with Cons.IH [of s1] Cons.prems show ?case
    by (auto simp: split_def Let_def)
qed simp

lemma bit_count_1024: "bit_count 1024 = 11"
  by (simp add: bit_count.simps)

text \<open>The table that the server asks for.\<close>

lemma selector_new_server:
  obtains s where "selector_new True True junk 1024 = Inr (Some s)" "selector_ok s"
    "registered s = (\<lambda>_. None)" "fd_size s = 1025"
proof -
  define fds where "fds = map item_init (replicate 1025 (zero_item :: ('a, 'b) item))"
  let ?s = "\<lparr>s_fds = Some fds, s_max_fd = 0, s_master_r = {}, s_master_w = {}, s_slave_r = {},
    s_slave_w = {}, s_resolution_jobs = []\<rparr>"
  have "selector_new True True junk 1024 = Inr (Some ?s)"
    by (simp add: selector_new_def ensure_capacity_def fd_size_def ITEMS_MAX_SIZE_def next_capacity_def
        bit_count_1024 items_init_def fds_def Let_def)
  moreover have fds: "length fds = 1025" "\<forall>i<1025. \<not> ITEM_USED (fds ! i)"
    by (auto simp: fds_def item_init_def ITEM_USED_def)
  moreover from fds have "registered ?s = (\<lambda>_. None)"
    by (auto simp: registered_fds [of ?s fds] fun_eq_iff)
  moreover from this fds have "selector_ok ?s"
    by (auto simp: selector_ok_def fd_size_def items_ok_def wants_def)
  ultimately show ?thesis
    using that [of ?s] by (simp add: fd_size_def)
qed

text \<open>C14. Whatever is registered, changed and removed, with numbers below \<open>FD_SETSIZE\<close>, the table
  of the selector that the server creates answers as a map from descriptors to interest, handler and
  data does, its contents are the map's, and the two sets it hands to \<open>pselect\<close> are those of the
  descriptors whose interest has the bit.\<close>

theorem selector_refines_map:
  assumes "\<forall>op\<in>set ops. op_fd op < ITEMS_MAX_SIZE"
  shows "\<exists>s0 s. selector_new True True junk 1024 = Inr (Some s0) \<and>
    table_run mem junk ops s0 = Inr (fst (spec_run ops (\<lambda>_. None)), s) \<and>
    registered s = snd (spec_run ops (\<lambda>_. None)) \<and>
    s_master_r s = {i. wants OP_READ s i} \<and> s_master_w s = {i. wants OP_WRITE s i}"
proof -
  obtain s0 where s0: "selector_new True True junk 1024 = Inr (Some s0)" "selector_ok s0"
      "registered s0 = (\<lambda>_. None)" "fd_size s0 = 1025"
    by (rule selector_new_server)
  then obtain s where "table_run mem junk ops s0 = Inr (fst (spec_run ops (\<lambda>_. None)), s)"
      "selector_ok s" "registered s = snd (spec_run ops (\<lambda>_. None))"
    using table_run_spec [of s0 ops mem junk] assms by (force simp: ITEMS_MAX_SIZE_def)
  with s0(1) show ?thesis
    by (auto simp: selector_ok_def)
qed

theorem selector_refines_map_witness:
  "\<exists>s0 s. selector_new True True zero_item 1024 = Inr (Some s0) \<and>
    table_run True zero_item [Register 5 (7::nat) OP_READ (Some (1::nat)), Interest 5 OP_WRITE,
      Register 5 8 OP_READ None, Unregister 6] s0 =
      Inr ([SELECTOR_SUCCESS, SELECTOR_SUCCESS, SELECTOR_FDINUSE, SELECTOR_IARGS], s) \<and>
    registered s 5 = Some (OP_WRITE, Some 7, Some 1) \<and>
    s_master_r s = {} \<and> s_master_w s = {5}"
  using selector_refines_map [of "[Register 5 (7::nat) OP_READ (Some (1::nat)), Interest 5 OP_WRITE,
      Register 5 8 OP_READ None, Unregister 6]" zero_item True]
  by (auto simp: ITEMS_MAX_SIZE_def wants_def op_defs split: if_splits)

text \<open>A smaller table: \<open>register\<close> does not grow it for the descriptor that is just past its
  end, and writes outside of it.\<close>

theorem selector_register_at_end:
  assumes "s_fds s = Some fds" and "length fds < ITEMS_MAX_SIZE"
  shows "selector_register mem junk s (int (length fds)) (Some h) i d = Inl OutOfBounds"
  using assms by (simp add: selector_register_def INVALID_FD_def fd_size_def get_item_def array_simps Let_def)

theorem selector_register_at_end_witness:
  "\<exists>s. selector_new True True (zero_item :: (nat, nat) item) 2 = Inr (Some s) \<and> fd_size s = 5 \<and>
    selector_register True zero_item s 5 (Some 0) OP_READ None = Inl OutOfBounds"
proof -
  let ?fds = "map item_init (replicate 5 (zero_item :: (nat, nat) item))"
  let ?s = "\<lparr>s_fds = Some ?fds, s_max_fd = 0, s_master_r = {}, s_master_w = {}, s_slave_r = {},
    s_slave_w = {}, s_resolution_jobs = []\<rparr>"
  have "selector_new True True zero_item 2 = Inr (Some ?s)"
    by (simp add: selector_new_def ensure_capacity_def fd_size_def ITEMS_MAX_SIZE_def next_capacity_def
        bit_count.simps items_init_def Let_def)
  moreover have "selector_register True zero_item ?s 5 (Some 0) OP_READ None = Inl OutOfBounds"
    using selector_register_at_end [of ?s ?fds True zero_item 0 OP_READ None] by (simp add: ITEMS_MAX_SIZE_def)
  ultimately show ?thesis
    by (simp add: fd_size_def)
qed

lemma registered_slave [simp]:
  "registered (s\<lparr>s_slave_r := a, s_slave_w := b\<rparr>) = registered s"
  "registered (s\<lparr>s_slave_r := a, s_slave_w := b, s_resolution_jobs := j\<rparr>) = registered s"
  by (simp_all add: registered_def get_item_def fun_eq_iff)

section \<open>Start of the library, and non-blocking descriptors\<close>

text \<open>
  The globals of \<^verbatim>\<open>selector.c\<close> and what the process has: the mask of blocked signals, and the signals
  with \<open>wake_handler\<close>, which does nothing. A set of signals is a set of numbers. The time-out is that of
  \<open>pselect\<close>.
\<close>

record selector_init =
  si_signal :: nat
  si_select_timeout :: "int \<times> int"

record selector_globals =
  sg_conf :: "selector_init option"
  sg_emptyset :: "nat set"
  sg_blockset :: "nat set"
  sg_blocked :: "nat set"
  sg_woken_by :: "nat set"

text \<open>\<open>masked\<close> and \<open>installed\<close>: whether \<open>sigprocmask\<close> and \<open>sigaction\<close> succeed.\<close>

definition selector_init_run ::
  "bool \<Rightarrow> bool \<Rightarrow> selector_init \<Rightarrow> selector_globals \<Rightarrow> selector_status \<times> selector_globals" where
  "selector_init_run masked installed c g =
     (let g = g\<lparr>sg_conf := Some c\<rparr>;
          g = g\<lparr>sg_blockset := {si_signal c}\<rparr> in
      if \<not> masked then (SELECTOR_IO, g)
      else
        let g = g\<lparr>sg_blocked := sg_blocked g \<union> sg_blockset g\<rparr> in
        if \<not> installed then (SELECTOR_IO, g)
        else
          let g = g\<lparr>sg_woken_by := insert (si_signal c) (sg_woken_by g)\<rparr> in
          (SELECTOR_SUCCESS, g\<lparr>sg_emptyset := {}\<rparr>))"

definition selector_close :: selector_status where
  "selector_close = SELECTOR_SUCCESS"

lemma selector_init_run_success:
  "selector_init_run masked installed c g = (SELECTOR_SUCCESS, g') \<Longrightarrow>
   sg_conf g' = Some c \<and> si_signal c \<in> sg_blocked g' \<and> si_signal c \<in> sg_woken_by g' \<and> si_signal c \<notin> sg_emptyset g'"
  by (auto simp: selector_init_run_def Let_def split: if_splits)

text \<open>The flags of a descriptor: those of the descriptor itself (\<open>F_GETFD\<close>), and the status of the file
  (\<open>F_SETFL\<close>). \<open>getfd\<close> and \<open>setfl\<close> tell whether the calls succeed.\<close>

record fd_flags =
  ff_descriptor :: nat
  ff_status :: nat

definition O_NONBLOCK :: nat where "O_NONBLOCK = 2048"

definition fd_set_nio :: "bool \<Rightarrow> bool \<Rightarrow> fd_flags \<Rightarrow> int \<times> fd_flags" where
  "fd_set_nio getfd setfl f =
     (if \<not> getfd then (-1, f)
      else if \<not> setfl then (-1, f)
      else (0, f\<lparr>ff_status := ff_descriptor f OR O_NONBLOCK\<rparr>))"

text \<open>The descriptor does not block afterwards, but of the status that it had before nothing is left.\<close>

lemma fd_set_nio_status:
  "fd_set_nio True True f = (0, f') \<Longrightarrow> bit (ff_status f') 11 \<and> (ff_descriptor f = 0 \<longrightarrow> ff_status f' = O_NONBLOCK)"
  by (auto simp: fd_set_nio_def O_NONBLOCK_def bit_or_iff) (simp add: bit_iff_odd)

section \<open>The growth of the table\<close>

lemma bit_count_bounds: "n < 2 ^ bit_count n \<and> (0 < n \<longrightarrow> 2 ^ (bit_count n - 1) \<le> n)"
proof (induction n rule: bit_count.induct)
  case (1 n)
  show ?case
  proof (cases "n = 0")
    case True
    then show ?thesis by (simp add: bit_count.simps)
  next
    case False
    then have b: "bit_count n = Suc (bit_count (n div 2))" by (simp add: bit_count.simps)
    from "1.IH" [OF False] have ih: "n div 2 < 2 ^ bit_count (n div 2)"
      "0 < n div 2 \<longrightarrow> 2 ^ (bit_count (n div 2) - 1) \<le> n div 2" by auto
    have "n < 2 * 2 ^ bit_count (n div 2)" using ih(1) by linarith
    moreover have "2 ^ bit_count (n div 2) \<le> n"
    proof (cases "n div 2 = 0")
      case True
      with False show ?thesis by (simp add: bit_count.simps)
    next
      case d: False
      then have "bit_count (n div 2) = Suc (bit_count (n div 2) - 1)" by (simp add: bit_count.simps [of "n div 2"])
      then have "(2::nat) ^ bit_count (n div 2) = 2 * 2 ^ (bit_count (n div 2) - 1)" by (metis power_Suc)
      with ih(2) d show ?thesis by linarith
    qed
    ultimately show ?thesis by (simp add: b)
  qed
qed

lemma bit_count_least: "bit_count n = (LEAST k. n < 2 ^ k)"
proof (rule Least_equality [symmetric])
  show "n < 2 ^ bit_count n" by (simp add: bit_count_bounds)
next
  fix k assume k: "n < 2 ^ k"
  show "bit_count n \<le> k"
  proof (rule ccontr)
    assume "\<not> bit_count n \<le> k"
    then have "2 ^ k \<le> (2::nat) ^ (bit_count n - 1)" "0 < n"
      by (auto simp: bit_count.simps [of n] intro: power_increasing split: if_splits)
    with bit_count_bounds [of n] k show False by linarith
  qed
qed

text \<open>C34. \<open>next_capacity\<close>, which counts bits with shifts, is the least power of two above its argument, at most \<open>FD_SETSIZE\<close>,
  and one more: no shift is too wide and no \<open>assert\<close> fails for a number below \<open>2 ^ 63\<close>.\<close>

theorem next_capacity_least:
  assumes "n < 2 ^ 63"
  shows "next_capacity n = Inr (min ITEMS_MAX_SIZE (2 ^ (LEAST k. n < 2 ^ k)) + 1)"
proof -
  have "bit_count n \<le> 63"
    unfolding bit_count_least using assms by (rule Least_le)
  then show ?thesis
    using bit_count_bounds [of n] by (auto simp: next_capacity_def Let_def bit_count_least [symmetric] min_def)
qed

theorem next_capacity_least_witness: "next_capacity 5 = Inr 9"
proof -
  have "(LEAST k. (5::nat) < 2 ^ k) = 3"
    unfolding bit_count_least [symmetric] by (simp add: bit_count.simps)
  then show ?thesis
    using next_capacity_least [of 5] by (simp add: ITEMS_MAX_SIZE_def)
qed

end
