(* ===== verification/ListGeneric.thy ===== *)
theory ListGeneric
  imports Prelude
begin

text \<open>
  The generic list of \<^verbatim>\<open>src/listgeneric.c\<close>. A pointer to a node is the list of the values from
  that node on, the empty list for null: nodes are only added in front, so what an iterator
  points to never changes. Whether \<open>malloc\<close> finds memory is an argument.
\<close>

section \<open>State and operations\<close>

record 'a listADT =
  l_first :: "'a list"
  l_iteradorNext :: "'a list"
  l_size :: u32

definition newList :: "bool \<Rightarrow> 'a listADT option" where
  "newList mem =
     (if \<not> mem then None
      else Some \<lparr>l_first = [], l_iteradorNext = [], l_size = 0\<rparr>)"

text \<open>The function is called \<open>insert\<close> in the code.\<close>

definition list_insert :: "bool \<Rightarrow> 'a listADT \<Rightarrow> 'a \<Rightarrow> int \<times> 'a listADT" where
  "list_insert mem l elem =
     (if \<not> mem then (-1, l)
      else (0, l\<lparr>l_first := elem # l_first l, l_size := l_size l + 1\<rparr>))"

definition listIsEmpty :: "'a listADT \<Rightarrow> bool" where
  "listIsEmpty l \<longleftrightarrow> l_size l = 0"

definition listSize :: "'a listADT \<Rightarrow> int" where
  "listSize l = sint (l_size l)"

definition listToBegin :: "'a listADT \<Rightarrow> 'a listADT" where
  "listToBegin l = l\<lparr>l_iteradorNext := l_first l\<rparr>"

definition listHasNext :: "'a listADT \<Rightarrow> bool" where
  "listHasNext l \<longleftrightarrow> l_iteradorNext l \<noteq> []"

text \<open>\<open>None\<close> is the null pointer.\<close>

definition listNext :: "'a listADT \<Rightarrow> 'a option \<times> 'a listADT" where
  "listNext l =
     (case l_iteradorNext l of
        [] \<Rightarrow> (None, l)
      | x # xs \<Rightarrow> (Some x, l\<lparr>l_iteradorNext := xs\<rparr>))"

text \<open>
  The node before the one found (\<open>prev\<close> at the start) and the one found, null if there is none:
  the second is what \<open>*current\<close> holds at the end.
\<close>

fun listSearch :: "'a option \<Rightarrow> 'a list \<Rightarrow> 'b \<Rightarrow> ('a \<Rightarrow> 'b \<Rightarrow> int) \<Rightarrow> 'a option \<times> 'a list" where
  "listSearch prev [] elem cmp = (prev, [])"
| "listSearch prev (x # xs) elem cmp =
     (if cmp x elem = 0 then (prev, x # xs) else listSearch (Some x) xs elem cmp)"

definition listContains :: "'a list \<Rightarrow> 'b \<Rightarrow> ('a \<Rightarrow> 'b \<Rightarrow> int) \<Rightarrow> int" where
  "listContains node elem cmp = (if snd (listSearch None node elem cmp) = [] then 0 else 1)"

definition elemBelongs :: "'a listADT \<Rightarrow> 'b \<Rightarrow> ('a \<Rightarrow> 'b \<Rightarrow> int) \<Rightarrow> int" where
  "elemBelongs l elem cmp = listContains (l_first l) elem cmp"

definition getElem :: "'a listADT \<Rightarrow> 'b \<Rightarrow> ('a \<Rightarrow> 'b \<Rightarrow> int) \<Rightarrow> 'a option" where
  "getElem l val cmp =
     (case snd (listSearch None (l_first l) val cmp) of [] \<Rightarrow> None | x # _ \<Rightarrow> Some x)"

section \<open>Searching and iterating\<close>

lemma listSearch_found:
  "snd (listSearch prev xs elem cmp) = dropWhile (\<lambda>x. cmp x elem \<noteq> 0) xs"
  by (induction xs arbitrary: prev) auto

lemma elemBelongs_iff: "elemBelongs l elem cmp = 1 \<longleftrightarrow> (\<exists>x\<in>set (l_first l). cmp x elem = 0)"
  by (auto simp: elemBelongs_def listContains_def listSearch_found)

lemma getElem_find: "getElem l val cmp = find (\<lambda>x. cmp x val = 0) (l_first l)"
proof -
  have "(case dropWhile (\<lambda>x. cmp x val \<noteq> 0) xs of [] \<Rightarrow> None | x # _ \<Rightarrow> Some x) =
      find (\<lambda>x. cmp x val = 0) xs" for xs :: "'a list"
    by (induction xs) auto
  then show ?thesis
    by (simp add: getElem_def listSearch_found)
qed

text \<open>\<open>n\<close> calls of \<open>listNext\<close>.\<close>

fun list_take :: "nat \<Rightarrow> 'a listADT \<Rightarrow> 'a option list \<times> 'a listADT" where
  "list_take 0 l = ([], l)"
| "list_take (Suc n) l =
     (let (x, l) = listNext l; (xs, l) = list_take n l in (x # xs, l))"

lemma list_take_all:
  "list_take (length (l_iteradorNext l)) l = (map Some (l_iteradorNext l), l\<lparr>l_iteradorNext := []\<rparr>)"
proof (induction "l_iteradorNext l" arbitrary: l)
  case (Cons x xs)
  from Cons.hyps(1) [of "l\<lparr>l_iteradorNext := xs\<rparr>"] Cons.hyps(2) [symmetric] show ?case
    by (simp add: listNext_def)
qed simp

text \<open>What was inserted, the last first.\<close>

lemma list_insert_all:
  "fold (\<lambda>x l. snd (list_insert True l x)) xs l =
   l\<lparr>l_first := rev xs @ l_first l, l_size := l_size l + of_nat (length xs)\<rparr>"
  by (induction xs arbitrary: l) (auto simp: list_insert_def)

section \<open>Release\<close>

text \<open>\<open>freeList\<close> calls \<open>elemFree\<close> on each value, from the first node on, and frees the nodes and the list.\<close>

fun free_nodes :: "('a \<Rightarrow> 'w \<Rightarrow> 'w result) \<Rightarrow> 'a list \<Rightarrow> 'w \<Rightarrow> 'w result" where
  "free_nodes elemFree [] w = Inr w"
| "free_nodes elemFree (x # xs) w = bind_res (elemFree x w) (free_nodes elemFree xs)"

definition freeList :: "('a \<Rightarrow> 'w \<Rightarrow> 'w result) \<Rightarrow> 'a listADT \<Rightarrow> 'w \<Rightarrow> 'w result" where
  "freeList elemFree l w = free_nodes elemFree (l_first l) w"

text \<open>Three pointers and an \<open>unsigned int\<close>, rounded up to the alignment of a pointer.\<close>

definition getListStructSize :: int where
  "getListStructSize = 32"

lemma freeList_each:
  assumes "\<And>x w. elemFree x w = Inr (f x w)"
  shows "freeList elemFree l w = Inr (fold f (l_first l) w)"
proof -
  have "free_nodes elemFree xs w = Inr (fold f xs w)" for xs
    by (induction xs arbitrary: w) (simp_all add: assms)
  then show ?thesis by (simp add: freeList_def)
qed

end
