(* ===== verification/Pop3Sniffer.thy ===== *)
theory Pop3Sniffer
  imports Buffer CStrings ListGeneric ServerConfig
begin

text \<open>
  The sniffer of POP3 credentials, \<^verbatim>\<open>src/pop3_sniffer.c\<close> and its header, and the report
  that lists them, \<open>get_pop3_pass\<close> of \<^verbatim>\<open>src/server_config.c\<close>. A sniffer lives in the object of a
  connection; what it finds goes to one global list, whose elements point to the address stored in
  that object: the model keeps the number of the object. Whether the calls of \<open>malloc\<close> succeed is
  an argument, by their number within the operation. Texts in log messages are only read.
\<close>

section \<open>State\<close>

datatype pop3_sniffer_state =
    pop3_sniffer_initial
  | pop3_sniffer_user
  | pop3_sniffer_read_user
  | pop3_sniffer_check_user
  | pop3_sniffer_password
  | pop3_sniffer_read_passsword
  | pop3_sniffer_check_password
  | pop3_sniffer_ok
  | pop3_sniffer_err

definition MAX_BUFF_POP3_SIZE :: nat where "MAX_BUFF_POP3_SIZE = 4096"
definition SN_MAX_USR_PASS_SIZE :: nat where "SN_MAX_USR_PASS_SIZE = 0xFF"

record pop3_sniffer =
  sn_state :: pop3_sniffer_state
  sn_username :: "u8 list"
  sn_passwd :: "u8 list"
  sn_read :: u8
  sn_remaining :: u8
  sn_check_read :: u8
  sn_check_remaining :: u8
  sn_buffer :: buffer

record sniff_info =
  si_addr :: nat
  si_proxy_username :: "u8 list"
  si_user :: "u8 list"
  si_passwd :: "u8 list"

text \<open>The string literals, with their zero bytes.\<close>

definition POP3_OK :: "u8 list" where "POP3_OK = [43, 79, 75, 0]"
definition POP3_USER :: "u8 list" where "POP3_USER = [85, 83, 69, 82, 32, 0]"
definition POP3_PASS :: "u8 list" where "POP3_PASS = [80, 65, 83, 83, 32, 0]"
definition POP3_ERR :: "u8 list" where "POP3_ERR = [45, 69, 82, 82, 0]"

lemmas pop3_literals = POP3_OK_def POP3_USER_def POP3_PASS_def POP3_ERR_def

text \<open>In the locale of the program.\<close>

definition toupper :: "u8 \<Rightarrow> u8" where
  "toupper b = (if 97 \<le> b \<and> b \<le> 122 then b - 32 else b)"

section \<open>Operations\<close>

definition reset_read :: "pop3_sniffer \<Rightarrow> u8 \<Rightarrow> pop3_sniffer" where
  "reset_read s remain = s\<lparr>sn_read := 0, sn_remaining := remain\<rparr>"

definition pop3_sniffer_init :: "pop3_sniffer \<Rightarrow> pop3_sniffer" where
  "pop3_sniffer_init s =
     reset_read (s\<lparr>sn_state := pop3_sniffer_initial,
       sn_buffer := buffer_init MAX_BUFF_POP3_SIZE (replicate MAX_BUFF_POP3_SIZE 0)\<rparr>) 3"

text \<open>\<open>toupper(b) == toupper(*(lit + i))\<close>\<close>

definition same_letter :: "u8 \<Rightarrow> u8 list \<Rightarrow> u8 \<Rightarrow> bool result" where
  "same_letter b lit i = bind_res (load_at lit (unat i)) (\<lambda>c. Inr (toupper b = toupper c))"

definition sniff_greeting :: "pop3_sniffer \<Rightarrow> u8 \<Rightarrow> pop3_sniffer result" where
  "sniff_greeting s b =
     bind_res (same_letter b POP3_OK (sn_read s)) (\<lambda>eq.
     if eq then
       let s = s\<lparr>sn_read := sn_read s + 1, sn_remaining := sn_remaining s - 1\<rparr> in
       Inr (if sn_remaining s = 0 then reset_read (s\<lparr>sn_state := pop3_sniffer_user\<rparr>) 5 else s)
     else Inr (s\<lparr>sn_state := pop3_sniffer_err\<rparr>))"

definition sniff_user :: "pop3_sniffer \<Rightarrow> u8 \<Rightarrow> pop3_sniffer result" where
  "sniff_user s b =
     bind_res (same_letter b POP3_USER (sn_read s)) (\<lambda>eq.
     if eq then
       let s = s\<lparr>sn_read := sn_read s + 1, sn_remaining := sn_remaining s - 1\<rparr> in
       Inr (if sn_remaining s = 0 then s\<lparr>sn_read := 0, sn_state := pop3_sniffer_read_user\<rparr> else s)
     else Inr (if sn_read s \<noteq> 0 then reset_read s 5 else s))"

definition sniff_read_user :: "pop3_sniffer \<Rightarrow> u8 \<Rightarrow> pop3_sniffer result" where
  "sniff_read_user s b =
     (if b \<noteq> 10 then
        if unat (sn_read s) < SN_MAX_USR_PASS_SIZE then
          bind_res (store_at (sn_username s) (unat (sn_read s)) b) (\<lambda>a.
          Inr (s\<lparr>sn_username := a, sn_read := sn_read s + 1\<rparr>))
        else Inr s
      else
        bind_res (store_at (sn_username s) (unat (sn_read s)) 0) (\<lambda>a.
        Inr (s\<lparr>sn_username := a, sn_read := 0, sn_remaining := 5, sn_check_read := 0,
               sn_check_remaining := 4, sn_state := pop3_sniffer_password\<rparr>)))"

definition sniff_password :: "pop3_sniffer \<Rightarrow> u8 \<Rightarrow> pop3_sniffer result" where
  "sniff_password s b =
     bind_res (same_letter b POP3_PASS (sn_read s)) (\<lambda>eq.
     if eq then
       let s = s\<lparr>sn_read := sn_read s + 1, sn_remaining := sn_remaining s - 1\<rparr> in
       Inr (if sn_remaining s = 0 then s\<lparr>sn_read := 0, sn_state := pop3_sniffer_read_passsword\<rparr> else s)
     else Inr (if sn_read s \<noteq> 0 then reset_read s 5 else s))"

definition sniff_read_password :: "pop3_sniffer \<Rightarrow> u8 \<Rightarrow> pop3_sniffer result" where
  "sniff_read_password s b =
     (if b \<noteq> 10 then
        if unat (sn_read s) < SN_MAX_USR_PASS_SIZE then
          bind_res (store_at (sn_passwd s) (unat (sn_read s)) b) (\<lambda>a.
          Inr (s\<lparr>sn_passwd := a, sn_read := sn_read s + 1\<rparr>))
        else Inr s
      else
        bind_res (store_at (sn_passwd s) (unat (sn_read s)) 0) (\<lambda>a.
        Inr (s\<lparr>sn_passwd := a, sn_read := 0, sn_check_read := 0,
               sn_state := pop3_sniffer_check_password\<rparr>)))"

text \<open>\<open>check_password\<close> and \<open>check_user\<close>, which differ in the state they reach.\<close>

definition sniff_check :: "pop3_sniffer_state \<Rightarrow> pop3_sniffer \<Rightarrow> u8 \<Rightarrow> pop3_sniffer result" where
  "sniff_check good s b =
     bind_res (same_letter b POP3_OK (sn_read s)) (\<lambda>eq.
     if eq then
       let s = s\<lparr>sn_read := sn_read s + 1\<rparr> in
       Inr (if sn_read s = 3 then s\<lparr>sn_state := good\<rparr> else s)
     else
       bind_res (same_letter b POP3_ERR (sn_check_read s)) (\<lambda>eq.
       if eq then
         let s = s\<lparr>sn_check_read := sn_check_read s + 1\<rparr> in
         Inr (if sn_check_read s = 4 then s\<lparr>sn_state := pop3_sniffer_user\<rparr> else s)
       else Inr s))"

definition sniff_check_password :: "pop3_sniffer \<Rightarrow> u8 \<Rightarrow> pop3_sniffer result" where
  "sniff_check_password = sniff_check pop3_sniffer_ok"

definition sniff_check_user :: "pop3_sniffer \<Rightarrow> u8 \<Rightarrow> pop3_sniffer result" where
  "sniff_check_user = sniff_check pop3_sniffer_password"

definition pop3_sniffer_parse :: "pop3_sniffer \<Rightarrow> u8 \<Rightarrow> pop3_sniffer result" where
  "pop3_sniffer_parse s b =
     (case sn_state s of
        pop3_sniffer_initial \<Rightarrow> sniff_greeting s b
      | pop3_sniffer_user \<Rightarrow> sniff_user s b
      | pop3_sniffer_read_user \<Rightarrow> sniff_read_user s b
      | pop3_sniffer_check_user \<Rightarrow> sniff_check_user s b
      | pop3_sniffer_password \<Rightarrow> sniff_password s b
      | pop3_sniffer_read_passsword \<Rightarrow> sniff_read_password s b
      | pop3_sniffer_check_password \<Rightarrow> sniff_check_password s b
      | _ \<Rightarrow> Inr s)"

definition pop3_is_done :: "pop3_sniffer \<Rightarrow> bool" where
  "pop3_is_done s \<longleftrightarrow> sn_state s = pop3_sniffer_ok \<or> sn_state s = pop3_sniffer_err"

definition pop3_is_parsing :: "pop3_sniffer \<Rightarrow> bool" where
  "pop3_is_parsing s \<longleftrightarrow>
     sn_state s \<notin> {pop3_sniffer_initial, pop3_sniffer_ok, pop3_sniffer_err}"

text \<open>The loop of \<open>pop3_sniffer_consume\<close>: each turn takes a byte, \<open>fuel\<close> is what is pending.\<close>

fun pop3_loop :: "nat \<Rightarrow> pop3_sniffer \<Rightarrow> pop3_sniffer result" where
  "pop3_loop 0 s = Inr s"
| "pop3_loop (Suc fuel) s =
     (if buffer_can_read (sn_buffer s) \<and> \<not> pop3_is_done s then
        bind_res (buffer_read (sn_buffer s)) (\<lambda>(b, buf).
        bind_res (pop3_sniffer_parse (s\<lparr>sn_buffer := buf\<rparr>) b) (\<lambda>s.
        pop3_loop fuel s))
      else Inr s)"

text \<open>A copy of a string as the code makes it: \<open>SIZEOF\<close> is eight times the length.\<close>

definition sniff_copy :: "u8 list \<Rightarrow> u8 list result" where
  "sniff_copy a = bind_res (c_strlen a) (\<lambda>n. load_range a 0 (n * 8))"

text \<open>
  \<open>addr\<close> is the object of the connection. The first component is the state that is returned,
  \<open>pop3_sniffer_err\<close> when there is no memory, in which case the element is lost.
\<close>

definition pop3_sniffer_consume ::
  "(nat \<Rightarrow> bool) \<Rightarrow> nat \<Rightarrow> pop3_sniffer \<Rightarrow> sniff_info listADT \<Rightarrow>
   (pop3_sniffer_state \<times> pop3_sniffer \<times> sniff_info listADT) result" where
  "pop3_sniffer_consume mem addr s l =
     bind_res (pop3_loop (b_write (sn_buffer s) - b_read (sn_buffer s)) s) (\<lambda>s.
     if sn_state s \<noteq> pop3_sniffer_ok then Inr (sn_state s, s, l)
     else if \<not> mem 0 \<or> \<not> mem 1 then Inr (pop3_sniffer_err, s, l)
     else
       bind_res (sniff_copy (sn_username s)) (\<lambda>user.
       if \<not> mem 2 then Inr (pop3_sniffer_err, s, l)
       else
         bind_res (sniff_copy (sn_passwd s)) (\<lambda>passwd.
         if \<not> mem 3 then Inr (pop3_sniffer_err, s, l)
         else
           bind_res (sniff_copy (sn_username s)) (\<lambda>proxy.
           bind_res (c_str passwd) (\<lambda>_.
           bind_res (c_str user) (\<lambda>_.
           let info = \<lparr>si_addr = addr, si_proxy_username = proxy, si_user = user, si_passwd = passwd\<rparr> in
           Inr (sn_state s, s, snd (list_insert (mem 4) l info))))))))"

text \<open>\<open>data\<close> are the \<open>size\<close> bytes that \<open>ptr\<close> points to.\<close>

definition pop3sniff ::
  "(nat \<Rightarrow> bool) \<Rightarrow> config \<Rightarrow> u8 list \<Rightarrow> nat \<Rightarrow> pop3_sniffer \<Rightarrow> sniff_info listADT \<Rightarrow>
   (pop3_sniffer \<times> sniff_info listADT) result" where
  "pop3sniff mem c data addr s l =
     (if \<not> is_spoofing_enabled c then Inr (s, l)
      else
        let s = (if pop3_is_parsing s then s else pop3_sniffer_init s) in
        if pop3_is_done s then Inr (s, l)
        else
          bind_res (buffer_write_ptr (sn_buffer s)) (\<lambda>(off, count).
          let n = (if length data \<le> count then length data else count) in
          bind_res (buffer_poke (sn_buffer s) off (take n data)) (\<lambda>b.
          bind_res (buffer_write_adv b (int n)) (\<lambda>b.
          bind_res (pop3_sniffer_consume mem addr (s\<lparr>sn_buffer := b\<rparr>) l) (\<lambda>(_, s, l).
          Inr (s, l))))))"

section \<open>The report\<close>

text \<open>
  \<open>ip_to_str\<close> is an argument: the text of the address at a number, a fault when the object is gone.
  \<open>turns\<close> is the number of elements from the iterator on.
\<close>

fun get_pop3_loop ::
  "(nat \<Rightarrow> u8 list result) \<Rightarrow> int \<Rightarrow> nat \<Rightarrow> u8 list \<Rightarrow> nat \<Rightarrow> sniff_info listADT \<Rightarrow>
   (u8 list \<times> nat \<times> sniff_info listADT) result" where
  "get_pop3_loop ip_to_str res_size 0 res n l = Inr (res, n, l)"
| "get_pop3_loop ip_to_str res_size (Suc turns) res n l =
     (if listHasNext l \<and> int n < res_size then
        (case listNext l of
           (None, l) \<Rightarrow> Inl NullCall
         | (Some info, l) \<Rightarrow>
             bind_res (copy_chars (si_proxy_username info) (res_size - 3) res n) (\<lambda>(res, n).
             bind_res (put_char res n 32) (\<lambda>(res, n).
             bind_res (copy_chars (si_user info) (res_size - 3) res n) (\<lambda>(res, n).
             bind_res (put_char res n 32) (\<lambda>(res, n).
             bind_res (copy_chars (si_passwd info) (res_size - 3) res n) (\<lambda>(res, n).
             bind_res (put_char res n 32) (\<lambda>(res, n).
             bind_res (ip_to_str (si_addr info)) (\<lambda>dest_ip.
             bind_res (copy_chars dest_ip (res_size - 2) res n) (\<lambda>(res, n).
             bind_res (put_char res n 10) (\<lambda>(res, n).
             get_pop3_loop ip_to_str res_size turns res n l))))))))))
      else Inr (res, n, l))"

definition get_pop3_pass ::
  "(nat \<Rightarrow> u8 list result) \<Rightarrow> u8 list \<Rightarrow> int \<Rightarrow> sniff_info listADT \<Rightarrow>
   (int \<times> u8 list \<times> sniff_info listADT) result" where
  "get_pop3_pass ip_to_str res res_size l =
     (let l = (if listHasNext l then l else listToBegin l) in
      bind_res (get_pop3_loop ip_to_str res_size (length (l_iteradorNext l)) res 0 l) (\<lambda>(res, n, l).
      bind_res (put_char res n 0) (\<lambda>(res, n). Inr (int n, res, l))))"

section \<open>Release of the list\<close>

text \<open>What \<open>malloc\<close> answered for an element: itself and its three strings.\<close>

datatype block = Info_block sniff_info | User_block sniff_info | Passwd_block sniff_info | Proxy_block sniff_info

text \<open>\<open>freed\<close> are the blocks that were given back.\<close>

definition freeElem :: "sniff_info \<Rightarrow> block list \<Rightarrow> block list result" where
  "freeElem info freed = Inr (freed @ [User_block info, Passwd_block info, Info_block info])"

definition freeSniffer :: "sniff_info listADT \<Rightarrow> block list \<Rightarrow> block list result" where
  "freeSniffer l freed = freeList freeElem l freed"

definition pop3_sniffer_init_list :: "bool \<Rightarrow> sniff_info listADT option" where
  "pop3_sniffer_init_list mem = newList mem"

text \<open>Everything is released but the names of the proxy's users.\<close>

lemma freeSniffer_leaks:
  "\<exists>freed. freeSniffer l [] = Inr freed \<and>
     set freed = (\<Union>i\<in>set (l_first l). {User_block i, Passwd_block i, Info_block i}) \<and>
     (\<forall>i. Proxy_block i \<notin> set freed)"
proof -
  let ?f = "\<lambda>i freed. freed @ [User_block i, Passwd_block i, Info_block i]"
  have "set (fold ?f xs ys) = set ys \<union> (\<Union>i\<in>set xs. {User_block i, Passwd_block i, Info_block i})" for xs ys
    by (induction xs arbitrary: ys) auto
  moreover have "freeSniffer l [] = Inr (fold ?f (l_first l) [])"
    unfolding freeSniffer_def by (rule freeList_each) (simp add: freeElem_def)
  ultimately show ?thesis by auto
qed

end
