(* ===== verification/World.thy ===== *)
theory World
  imports
    HelloParser AuthParser RequestParser AdminConnect AdminGet AdminPut AdminEdit AdminDelete
    AdminConfigBuff AdminConfigStatus Pop3Sniffer Stm Selector
begin

text \<open>
  What the handlers of the server act on: the objects of the connections (\<^verbatim>\<open>src/socks5.h\<close>,
  \<^verbatim>\<open>src/mng_handler.h\<close>), the globals of the other components, and the operating system.

  An object has a number, its address; a number without an object is memory that was freed. Pointers
  of an object to its own members (\<open>rb\<close>, \<open>wb\<close>, \<open>fd\<close>, \<open>other_copy\<close>) are values that name the
  member; those that never point elsewhere (\<open>status\<close>, \<open>final_server_addr\<close>, \<open>user\<close>, \<open>request\<close> and
  the like) are left out, and the member is accessed directly. A union is a datatype with a
  constructor for the member that was last written, and reading another member is a fault.

  The operating system is a list of answers: a call takes the next one, and a list without an
  answer for the call is the fault \<open>NoAnswer\<close>. What the program does to the outside is recorded in
  the list of events, the last one at the end.
\<close>

section \<open>States\<close>

text \<open>\<open>enum socks_state\<close>.\<close>

definition HELLO_READ :: nat where "HELLO_READ = 0"
definition HELLO_WRITE :: nat where "HELLO_WRITE = 1"
definition AUTH_READ :: nat where "AUTH_READ = 2"
definition AUTH_WRITE :: nat where "AUTH_WRITE = 3"
definition REQUEST_READ :: nat where "REQUEST_READ = 4"
definition REQUEST_RESOLV :: nat where "REQUEST_RESOLV = 5"
definition REQUEST_CONNECTING :: nat where "REQUEST_CONNECTING = 6"
definition REQUEST_WRITE :: nat where "REQUEST_WRITE = 7"
definition COPY :: nat where "COPY = 8"
definition DONE :: nat where "DONE = 9"
definition ERROR :: nat where "ERROR = 10"

lemmas socks_state_defs =
  HELLO_READ_def HELLO_WRITE_def AUTH_READ_def AUTH_WRITE_def REQUEST_READ_def REQUEST_RESOLV_def
  REQUEST_CONNECTING_def REQUEST_WRITE_def COPY_def DONE_def ERROR_def

section \<open>Objects\<close>

datatype hname = H_socks5_passive | H_socks5 | H_mng_passive | H_mng

datatype object = Socks_at nat | Mng_at nat

type_synonym key = "object selector_key"

datatype bufref = Read_buffer | Write_buffer
datatype fdref = Client_fd | Final_server_fd
datatype side = Client_side | Server_side

record hello_data =
  hd_rb :: bufref
  hd_wb :: bufref
  hd_parser :: "u8 hello_parser"    \<comment> \<open>\<open>hp_data\<close> is the member \<open>method\<close>\<close>

record auth_data =
  ad_rb :: bufref
  ad_wb :: bufref
  ad_parser :: auth_parser
  ad_status :: "u8 option"          \<comment> \<open>\<open>None\<close> before it is written\<close>

record request_data =
  rd_rb :: bufref
  rd_wb :: bufref
  rd_parser :: request_parser       \<comment> \<open>\<open>rp_request\<close> is the member \<open>request\<close>\<close>

record connecting_data =
  cn_wb :: bufref

record copy_data =
  cd_fd :: fdref
  cd_rb :: bufref
  cd_wb :: bufref
  cd_interest :: fd_interest
  cd_other_copy :: side

datatype client_data =
    CD_hello hello_data
  | CD_auth auth_data
  | CD_request request_data
  | CD_copy copy_data
  | CD_none

datatype server_data = SD_connect connecting_data | SD_copy copy_data | SD_none

record addrinfo =
  ai_family :: int
  ai_addrlen :: nat
  ai_addr :: "u8 list"

text \<open>A pointer into the list that \<open>getaddrinfo\<close> answers is the list from there on.\<close>

record socks5 =
  s5_client_addr :: "u8 list"
  s5_client_addr_len :: nat
  s5_client_fd :: int
  s5_server_resolution :: "addrinfo list"
  s5_current_server_resolution :: "addrinfo list"
  s5_final_server_addr :: "u8 list"
  s5_final_server_len :: nat
  s5_server_domain :: int
  s5_final_server_fd :: int
  s5_stm_current :: "nat option"
  s5_client_data :: client_data
  s5_server_data :: server_data
  s5_read_buffer :: buffer
  s5_write_buffer :: buffer
  s5_status :: socks_response_status
  s5_user :: "u8 list"
  s5_toFree :: int
  s5_sniffer :: pop3_sniffer

datatype mng_parsers =
    MP_connect admin_connect_parser
  | MP_get admin_get_parser
  | MP_put admin_put_parser
  | MP_edit admin_edit_parser
  | MP_buff_size admin_configbuff_parser
  | MP_conf_status admin_configstatus_parser
  | MP_delete admin_delete_parser
  | MP_none

datatype mng_status = CLOSE | OK

record mng =
  mg_client_addr :: "u8 list"
  mg_client_addr_len :: nat
  mg_client_fd :: int
  mg_stm_current :: "nat option"
  mg_parsers :: mng_parsers
  mg_read_buffer :: buffer
  mg_write_buffer :: buffer
  mg_aux_buffer :: buffer
  mg_status :: mng_status

section \<open>The world\<close>

text \<open>\<open>Bytes\<close> and the two after it are memory with what it holds; \<open>errno\<close> is part of an answer.\<close>

datatype answer =
    Accepted int "u8 list"
  | AcceptFails
  | Bytes "u8 list"
  | NewSocks socks5
  | NewMng mng
  | Memory "bool list"
  | NoMemory
  | NioSet bool
  | RecvBytes "u8 list"
  | RecvFails
  | SentBytes nat
  | SendFails
  | NewSocket int
  | OpenFails
  | ConnectDone
  | ConnectFails int
  | SockError int
  | SockErrorFails
  | ThreadStarted bool
  | Resolved "addrinfo list"

datatype event =
    SentTo int "u8 list"
  | Connecting int "u8 list"
  | Closed_fd int
  | ShutRead int
  | ShutWrite int
  | Lookup "u8 list" nat
  | Logged nat socks_response_status
  | LoggedError
  | Checked nat "u8 list" "u8 list" bool    \<comment> \<open>\<open>checkUser\<close> was called, and what it answered\<close>
  | TokenChecked nat bool                   \<comment> \<open>\<open>checkToken\<close> was called, and what it answered\<close>

record world =
  w_config :: config
  w_metrics :: metrics
  w_sniffed :: "sniff_info listADT"
  w_socks :: "nat \<Rightarrow> socks5 option"
  w_mngs :: "nat \<Rightarrow> mng option"
  w_next :: nat
  w_threads :: "key list"
  w_answers :: "answer list"
  w_events :: "event list"

type_synonym sel = "(hname, object) selector"
type_synonym st = "sel \<times> world"

definition emit :: "event \<Rightarrow> world \<Rightarrow> world" where
  "emit e w = w\<lparr>w_events := w_events w @ [e]\<rparr>"

definition next_answer :: "world \<Rightarrow> (answer \<times> world) result" where
  "next_answer w =
     (case w_answers w of
        [] \<Rightarrow> Inl NoAnswer
      | x # xs \<Rightarrow> Inr (x, w\<lparr>w_answers := xs\<rparr>))"

section \<open>Access to objects\<close>

definition get_socks :: "nat \<Rightarrow> world \<Rightarrow> socks5 result" where
  "get_socks a w = (case w_socks w a of None \<Rightarrow> Inl UseAfterFree | Some o5 \<Rightarrow> Inr o5)"

definition put_socks :: "nat \<Rightarrow> socks5 \<Rightarrow> world \<Rightarrow> world" where
  "put_socks a o5 w = w\<lparr>w_socks := (w_socks w)(a \<mapsto> o5)\<rparr>"

definition get_mng :: "nat \<Rightarrow> world \<Rightarrow> mng result" where
  "get_mng a w = (case w_mngs w a of None \<Rightarrow> Inl UseAfterFree | Some m \<Rightarrow> Inr m)"

definition put_mng :: "nat \<Rightarrow> mng \<Rightarrow> world \<Rightarrow> world" where
  "put_mng a m w = w\<lparr>w_mngs := (w_mngs w)(a \<mapsto> m)\<rparr>"

text \<open>The macros \<open>ATTACHMENT\<close> and \<open>ATTACH\<close>: the number of the object.\<close>

definition ATTACHMENT :: "key \<Rightarrow> nat result" where
  "ATTACHMENT key =
     (case k_data key of
        None \<Rightarrow> Inl NullCall
      | Some (Socks_at a) \<Rightarrow> Inr a
      | Some (Mng_at a) \<Rightarrow> Inl WrongMember)"

definition ATTACH :: "key \<Rightarrow> nat result" where
  "ATTACH key =
     (case k_data key of
        None \<Rightarrow> Inl NullCall
      | Some (Socks_at a) \<Rightarrow> Inl WrongMember
      | Some (Mng_at a) \<Rightarrow> Inr a)"

fun buf :: "bufref \<Rightarrow> socks5 \<Rightarrow> buffer" where
  "buf Read_buffer o5 = s5_read_buffer o5"
| "buf Write_buffer o5 = s5_write_buffer o5"

fun set_buf :: "bufref \<Rightarrow> buffer \<Rightarrow> socks5 \<Rightarrow> socks5" where
  "set_buf Read_buffer b o5 = o5\<lparr>s5_read_buffer := b\<rparr>"
| "set_buf Write_buffer b o5 = o5\<lparr>s5_write_buffer := b\<rparr>"

fun fd_of :: "fdref \<Rightarrow> socks5 \<Rightarrow> int" where
  "fd_of Client_fd o5 = s5_client_fd o5"
| "fd_of Final_server_fd o5 = s5_final_server_fd o5"

fun hello_of :: "client_data \<Rightarrow> hello_data result" where
  "hello_of (CD_hello d) = Inr d"
| "hello_of _ = Inl WrongMember"

fun auth_of :: "client_data \<Rightarrow> auth_data result" where
  "auth_of (CD_auth d) = Inr d"
| "auth_of _ = Inl WrongMember"

fun request_of :: "client_data \<Rightarrow> request_data result" where
  "request_of (CD_request d) = Inr d"
| "request_of _ = Inl WrongMember"

fun client_copy_of :: "client_data \<Rightarrow> copy_data result" where
  "client_copy_of (CD_copy d) = Inr d"
| "client_copy_of _ = Inl WrongMember"

fun connect_of :: "server_data \<Rightarrow> connecting_data result" where
  "connect_of (SD_connect d) = Inr d"
| "connect_of _ = Inl WrongMember"

fun server_copy_of :: "server_data \<Rightarrow> copy_data result" where
  "server_copy_of (SD_copy d) = Inr d"
| "server_copy_of _ = Inl WrongMember"

section \<open>System calls\<close>

definition sys_recv :: "nat \<Rightarrow> world \<Rightarrow> (u8 list option \<times> world) result" where
  "sys_recv sz w =
     bind_res (next_answer w) (\<lambda>(x, w).
     case x of
       RecvBytes bs \<Rightarrow> if length bs \<le> sz then Inr (Some bs, w) else Inl NoAnswer
     | RecvFails \<Rightarrow> Inr (None, w)
     | _ \<Rightarrow> Inl NoAnswer)"

text \<open>
  \<open>buffer_write_ptr\<close> and \<open>recv\<close> with what it answers, as the handlers have them in a row: the bytes
  received, the result of the call (the number of the bytes, or -1), the buffer with the bytes in
  its array.
\<close>

definition recv_into :: "buffer \<Rightarrow> world \<Rightarrow> (u8 list \<times> int \<times> buffer \<times> world) result" where
  "recv_into b w =
     bind_res (buffer_write_ptr b) (\<lambda>(ptr, sz).
     bind_res (sys_recv sz w) (\<lambda>(r, w).
     case r of
       None \<Rightarrow> Inr ([], -1, b, w)
     | Some bs \<Rightarrow> bind_res (buffer_poke b ptr bs) (\<lambda>b. Inr (bs, int (length bs), b, w))))"

text \<open>\<open>buffer_read_ptr\<close> and \<open>send\<close>: the bytes that were sent, and the result of the call.\<close>

definition send_from :: "int \<Rightarrow> buffer \<Rightarrow> world \<Rightarrow> (u8 list \<times> int \<times> world) result" where
  "send_from fd b w =
     bind_res (buffer_read_ptr b) (\<lambda>(ptr, sz).
     bind_res (next_answer w) (\<lambda>(x, w).
     case x of
       SentBytes n \<Rightarrow>
         if n \<le> sz then
           bind_res (load_range (b_mem b) ptr n) (\<lambda>bs. Inr (bs, int n, emit (SentTo fd bs) w))
         else Inl NoAnswer
     | SendFails \<Rightarrow> Inr ([], -1, w)
     | _ \<Rightarrow> Inl NoAnswer))"

definition sys_bytes :: "nat \<Rightarrow> world \<Rightarrow> (u8 list \<times> world) result" where
  "sys_bytes n w =
     bind_res (next_answer w) (\<lambda>(x, w).
     case x of
       Bytes bs \<Rightarrow> if length bs = n then Inr (bs, w) else Inl NoAnswer
     | NoMemory \<Rightarrow> Inr ([], w)
     | _ \<Rightarrow> Inl NoAnswer)"

text \<open>Whether each of a group of calls of \<open>malloc\<close> finds memory.\<close>

definition sys_memory :: "world \<Rightarrow> ((nat \<Rightarrow> bool) \<times> world) result" where
  "sys_memory w =
     bind_res (next_answer w) (\<lambda>(x, w).
     case x of
       Memory bs \<Rightarrow> Inr (\<lambda>i. if i < length bs then bs ! i else True, w)
     | _ \<Rightarrow> Inl NoAnswer)"

text \<open>\<open>selector_fd_set_nio\<close>, two calls of \<open>fcntl\<close>: whether it does not answer -1.\<close>

definition selector_fd_set_nio :: "world \<Rightarrow> (bool \<times> world) result" where
  "selector_fd_set_nio w =
     bind_res (next_answer w) (\<lambda>(x, w).
     case x of NioSet good \<Rightarrow> Inr (good, w) | _ \<Rightarrow> Inl NoAnswer)"

text \<open>
  \<open>log_conn\<close>: besides the addresses it prints the user's name, if authentication is enabled.
\<close>

definition log_conn :: "nat \<Rightarrow> socks_response_status \<Rightarrow> world \<Rightarrow> world result" where
  "log_conn a status w =
     bind_res (get_socks a w) (\<lambda>o5.
     bind_res (if is_auth_enabled (w_config w) then c_str (s5_user o5) else Inr []) (\<lambda>_.
     Inr (emit (Logged a status) w)))"

text \<open>What the two do when the system call answers with bytes.\<close>

lemma recv_into_bytes:
  assumes ok: "buffer_ok b" and ans: "w_answers w = RecvBytes bs # xs" and fit: "length bs \<le> room b"
  obtains b1 b2 where "recv_into b w = Inr (bs, int (length bs), b1, w\<lparr>w_answers := xs\<rparr>)"
    "buffer_write_adv b1 (int (length bs)) = Inr b2" "buffer_ok b2" "pending b2 = pending b @ bs"
    "shape b2 = shape b" "room b2 = room b - length bs"
proof -
  obtain b1 b2 where b2: "buffer_poke b (b_write b) bs = Inr b1"
      "buffer_write_adv b1 (int (length bs)) = Inr b2" "buffer_ok b2" "pending b2 = pending b @ bs"
      "shape b2 = shape b" "room b2 = room b - length bs"
    using ok fit refl by (rule buffer_poke_adv_ok)
  have "length bs \<le> announced b"
    using fit room_le_announced [of b] by simp
  then have "recv_into b w = Inr (bs, int (length bs), b1, w\<lparr>w_answers := xs\<rparr>)"
    using ok ans b2(1) by (simp add: recv_into_def sys_recv_def next_answer_def buffer_write_ptr_ok)
  then show ?thesis
    by (rule that) (fact b2)+
qed

lemma send_from_bytes:
  assumes ok: "buffer_ok b" and ans: "w_answers w = SentBytes n # xs" and le: "n \<le> length (pending b)"
  shows "send_from fd b w =
    Inr (take n (pending b), int n, emit (SentTo fd (take n (pending b))) (w\<lparr>w_answers := xs\<rparr>))"
proof -
  have "b_read b + n \<le> length (b_mem b)" "n \<le> b_write b - b_read b"
    using ok le length_pending [OF ok] by (auto simp: buffer_dims)
  then show ?thesis
    using ok ans by (auto simp: send_from_def buffer_read_ptr_def next_answer_def load_range_def
        pending_def buffer_ok_def min_def)
qed

section \<open>What the calls leave alone\<close>

text \<open>
  \<open>quiet\<close>: the objects and the configuration are the same, and the events only grow.
\<close>

definition quiet :: "world \<Rightarrow> world \<Rightarrow> bool" where
  "quiet w w' \<longleftrightarrow> w_socks w' = w_socks w \<and> w_mngs w' = w_mngs w \<and> w_config w' = w_config w \<and>
     w_sniffed w' = w_sniffed w \<and> (\<exists>es. w_events w' = w_events w @ es)"

named_theorems quiet_intro
named_theorems quiet_dest

lemma quiet_refl [quiet_intro]: "quiet w w"
  by (simp add: quiet_def)

lemma quiet_trans: "quiet w w' \<Longrightarrow> quiet w' w'' \<Longrightarrow> quiet w w''"
  by (auto simp: quiet_def)

lemma quiet_emit [quiet_intro]: "quiet w w' \<Longrightarrow> quiet w (emit e w')"
  by (auto simp: quiet_def emit_def)

lemma next_answer_quiet [quiet_dest]: "next_answer w = Inr (x, w') \<Longrightarrow> quiet w w'"
  by (auto simp: next_answer_def quiet_def split: list.splits)

lemma sys_recv_quiet [quiet_dest]: "sys_recv sz w = Inr (r, w') \<Longrightarrow> quiet w w'"
  by (auto simp: sys_recv_def elim!: bind_res_InrE dest: next_answer_quiet split: answer.splits if_splits)

lemma recv_into_quiet [quiet_dest]: "recv_into b w = Inr (bs, n, b', w') \<Longrightarrow> quiet w w'"
  by (auto simp: recv_into_def elim!: bind_res_InrE dest: sys_recv_quiet split: option.splits)

lemma send_from_quiet [quiet_dest]: "send_from fd b w = Inr (bs, n, w') \<Longrightarrow> quiet w w'"
  by (auto simp: send_from_def elim!: bind_res_InrE dest!: next_answer_quiet
      intro: quiet_emit split: answer.splits if_splits)

lemma sys_bytes_quiet [quiet_dest]: "sys_bytes n w = Inr (bs, w') \<Longrightarrow> quiet w w'"
  by (auto simp: sys_bytes_def elim!: bind_res_InrE dest: next_answer_quiet split: answer.splits if_splits)

lemma sys_memory_quiet [quiet_dest]: "sys_memory w = Inr (mem, w') \<Longrightarrow> quiet w w'"
  by (auto simp: sys_memory_def elim!: bind_res_InrE dest: next_answer_quiet split: answer.splits)

lemma selector_fd_set_nio_quiet [quiet_dest]: "selector_fd_set_nio w = Inr (good, w') \<Longrightarrow> quiet w w'"
  by (auto simp: selector_fd_set_nio_def elim!: bind_res_InrE dest: next_answer_quiet split: answer.splits)

lemma log_conn_quiet [quiet_dest]: "log_conn a status w = Inr w' \<Longrightarrow> quiet w w'"
  by (auto simp: log_conn_def elim!: bind_res_InrE intro: quiet_intro)

lemma get_socks_Inr [simp]: "get_socks a w = Inr o5 \<longleftrightarrow> w_socks w a = Some o5"
  by (auto simp: get_socks_def split: option.splits)

lemma get_mng_Inr [simp]: "get_mng a w = Inr m \<longleftrightarrow> w_mngs w a = Some m"
  by (auto simp: get_mng_def split: option.splits)

lemma put_socks_twice [simp]: "put_socks a o5 (put_socks a o5' w) = put_socks a o5 w"
  by (simp add: put_socks_def)

text \<open>
  \<open>stays a\<close>: the configuration is the same, the events only grow, and if the object \<open>a\<close> is still
  there, its state machine stands where it stood.
\<close>

definition stays :: "nat \<Rightarrow> world \<Rightarrow> world \<Rightarrow> bool" where
  "stays a w w' \<longleftrightarrow> w_config w' = w_config w \<and> (\<exists>es. w_events w' = w_events w @ es) \<and>
     (\<forall>o5'. w_socks w' a = Some o5' \<longrightarrow>
        (\<exists>o5. w_socks w a = Some o5 \<and> s5_stm_current o5' = s5_stm_current o5))"

lemma stays_refl: "stays a w w"
  by (simp add: stays_def)

lemma stays_trans: "stays a w w' \<Longrightarrow> stays a w' w'' \<Longrightarrow> stays a w w''"
  by (fastforce simp: stays_def)

lemma quiet_stays: "quiet w w' \<Longrightarrow> stays a w w'"
  by (auto simp: quiet_def stays_def)

lemma stays_put:
  "w_socks w a = Some o5 \<Longrightarrow> s5_stm_current o5' = s5_stm_current o5 \<Longrightarrow> stays a w (put_socks a o5' w)"
  by (simp add: stays_def put_socks_def)

lemma stays_put_right [simp]:
  "stays a w (put_socks a o5' w) \<longleftrightarrow>
   (\<exists>o5. w_socks w a = Some o5 \<and> s5_stm_current o5' = s5_stm_current o5)"
  by (auto simp: stays_def put_socks_def)

lemma stays_put_left [simp]:
  "w_socks w a \<noteq> None \<Longrightarrow> s5_stm_current o5' = s5_stm_current (the (w_socks w a)) \<Longrightarrow>
   stays a (put_socks a o5' w) w' \<longleftrightarrow> stays a w w'"
  by (auto simp: stays_def put_socks_def)

lemma stays_quiet_put [simp]:
  "quiet w w1 \<Longrightarrow> stays a w (put_socks a o5' w1) \<longleftrightarrow>
   (\<exists>o5. w_socks w a = Some o5 \<and> s5_stm_current o5' = s5_stm_current o5)"
  by (auto simp: stays_def put_socks_def quiet_def)

lemma stays_from_put:
  "stays a w w1 \<Longrightarrow> w_socks w a = Some o5 \<Longrightarrow> stays a (put_socks a o5' w1) w' \<Longrightarrow>
   s5_stm_current o5' = s5_stm_current o5 \<Longrightarrow> stays a w w'"
  by (fastforce simp: stays_def put_socks_def)

lemma stays_from_put2:
  "stays a w w1 \<Longrightarrow> w_socks w a = Some o5 \<Longrightarrow> stays a (put_socks a o5' w1) w2 \<Longrightarrow>
   stays a w2 w' \<Longrightarrow> s5_stm_current o5' = s5_stm_current o5 \<Longrightarrow> stays a w w'"
  using stays_from_put stays_trans by blast

lemma stays_metrics [simp]:
  "stays a w (w1\<lparr>w_metrics := m\<rparr>) \<longleftrightarrow> stays a w w1"
  "stays a (w\<lparr>w_metrics := m\<rparr>) w1 \<longleftrightarrow> stays a w w1"
  by (simp_all add: stays_def)

lemma set_buf_current [simp]: "s5_stm_current (set_buf r b o5) = s5_stm_current o5"
  by (cases r) auto

lemma set_buf_client_data [simp]: "s5_client_data (set_buf r b o5) = s5_client_data o5"
  by (cases r) auto

lemmas stays_simps = stays_def quiet_def put_socks_def

end
