(* ===== verification/NetUtils.thy ===== *)
theory NetUtils
  imports World
begin

text \<open>
  Addresses as text: what the program uses of \<open>inet_ntop\<close>, \<open>ip_to_str\<close> of
  \<^verbatim>\<open>src/server_config.c\<close>, and the functions of \<^verbatim>\<open>src/conn_logger.c\<close> that make up a line of
  the log. A \<open>sockaddr_storage\<close> is its 128 bytes: the family in host order (little endian), the port
  in network order, then the address, at offset 4 for IPv4 and 8 for IPv6.
\<close>

section \<open>\<open>inet_ntop\<close>\<close>

definition chars :: "string \<Rightarrow> u8 list" where
  "chars s = map of_char s"

definition digit_char :: "nat \<Rightarrow> u8" where
  "digit_char d = of_nat (if d < 10 then 48 + d else 87 + d)"

fun digits :: "nat \<Rightarrow> nat \<Rightarrow> u8 list" where
  "digits base n =
     (if base < 2 \<or> n < base then [digit_char n] else digits base (n div base) @ [digit_char (n mod base)])"

declare digits.simps [simp del]

definition ipv4_text :: "u8 list \<Rightarrow> u8 list" where
  "ipv4_text bs = concat (map (\<lambda>i. (if i = 0 then [] else [46]) @ digits 10 (unat (bs ! i))) [0..<4])"

text \<open>The longest run of zero groups, the first of equal ones: where it starts and its length.\<close>

fun zero_run :: "nat list \<Rightarrow> nat" where
  "zero_run (g # gs) = (if g = 0 then Suc (zero_run gs) else 0)"
| "zero_run [] = 0"

fun best_run :: "nat list \<Rightarrow> nat \<Rightarrow> nat \<times> nat \<Rightarrow> nat \<times> nat" where
  "best_run [] i best = best"
| "best_run (g # gs) i (b, n) =
     best_run gs (Suc i) (if n < zero_run (g # gs) then (i, zero_run (g # gs)) else (b, n))"

definition groups :: "u8 list \<Rightarrow> nat list" where
  "groups bs = map (\<lambda>i. unat (bs ! (2 * i)) * 256 + unat (bs ! (2 * i + 1))) [0..<8]"

definition ipv6_text :: "u8 list \<Rightarrow> u8 list" where
  "ipv6_text bs =
     (let gs = groups bs; (b, n) = best_run gs 0 (0, 0); n = (if n < 2 then 0 else n);
          mapped = (n \<noteq> 0 \<and> b = 0 \<and> (n = 6 \<or> n = 5 \<and> gs ! 5 = 0xFFFF));
          group = (\<lambda>i.
            if n \<noteq> 0 \<and> b \<le> i \<and> i < b + n then (if i = b then [58] else [])
            else if mapped \<and> i = 7 then []
            else (if i = 0 then [] else [58]) @
              (if mapped \<and> i = 6 then ipv4_text (drop 12 bs) else digits 16 (gs ! i))) in
      concat (map group [0..<8]) @ (if n \<noteq> 0 \<and> b + n = 8 then [58] else []))"

definition is_AF_INET :: "u8 list \<Rightarrow> bool" where
  "is_AF_INET addr \<longleftrightarrow> take 2 addr = AF_INET_bytes"

definition is_AF_INET6 :: "u8 list \<Rightarrow> bool" where
  "is_AF_INET6 addr \<longleftrightarrow> take 2 addr = AF_INET6_bytes"

definition sin_text :: "u8 list \<Rightarrow> u8 list result" where
  "sin_text addr = bind_res (load_range addr 4 4) (\<lambda>bs. Inr (ipv4_text bs @ [0]))"

definition sin6_text :: "u8 list \<Rightarrow> u8 list result" where
  "sin6_text addr = bind_res (load_range addr 8 16) (\<lambda>bs. Inr (ipv6_text bs @ [0]))"

section \<open>The text of an address\<close>

text \<open>
  \<open>ip_to_str\<close> is called with the member \<open>final_server_addr\<close> of an object; every family but IPv4 is
  taken for IPv6.
\<close>

definition ip_to_str :: "world \<Rightarrow> nat \<Rightarrow> u8 list result" where
  "ip_to_str w a =
     bind_res (get_socks a w) (\<lambda>o5.
     let addr = s5_final_server_addr o5 in
     if is_AF_INET addr then sin_text addr else sin6_text addr)"

text \<open>\<open>None\<close> where \<open>inet_ntop\<close> does not know the family and leaves the array as it is.\<close>

definition get_ip :: "u8 list \<Rightarrow> u8 list option result" where
  "get_ip addr =
     (if is_AF_INET addr then bind_res (sin_text addr) (\<lambda>t. Inr (Some t))
      else if is_AF_INET6 addr then bind_res (sin6_text addr) (\<lambda>t. Inr (Some t))
      else Inr None)"

definition get_port :: "u8 list \<Rightarrow> nat result" where
  "get_port addr =
     bind_res (load_range addr 2 2) (\<lambda>bs. Inr (unat (bs ! 0) * 256 + unat (bs ! 1)))"

definition status_str :: "string list" where
  "status_str = [''succeeded'', ''general SOCKS server failure'', ''connection not allowed by ruleset'',
     ''Network unreachable'', ''Host unreachable'', ''Connection refused'', ''TTL expired'',
     ''Command not supported'', ''Address type not supported'', ''close'', ''connecting'', ''ERROR'']"

definition get_status :: "nat \<Rightarrow> string" where
  "get_status status = (if status \<le> 9 then status_str ! status else status_str ! 10)"

end
