(* ===== verification/Socks5Hello.thy ===== *)
theory Socks5Hello
  imports World
begin

text \<open>
  The first two states of a SOCKS5 connection, \<^verbatim>\<open>src/socks5_hello.c\<close>: the greeting is read and
  its answer written. A handler takes the key and the state of the program; its answer is the next
  state of the connection.
\<close>

section \<open>HELLO_READ\<close>

definition on_hello_method :: "config \<Rightarrow> u8 \<Rightarrow> u8 \<Rightarrow> u8" where
  "on_hello_method c selected meth =
     (if is_auth_enabled c then (if meth = METHOD_AUTH_REQUIRED then meth else selected)
      else (if meth = METHOD_NO_AUTH_REQUIRED then meth else selected))"

text \<open>
  All members are written. The callback looks at the configuration when it is called: \<open>hello_read\<close>
  sets it to the configuration of that moment.
\<close>

definition hello_read_init :: "key \<Rightarrow> nat \<Rightarrow> st \<Rightarrow> st result" where
  "hello_read_init key state = (\<lambda>(s, w).
     bind_res (ATTACHMENT key) (\<lambda>a.
     bind_res (get_socks a w) (\<lambda>o5.
     let p = hello_parser_init \<lparr>hp_on_auth_method = Some (on_hello_method (w_config w)),
               hp_data = METHOD_NO_ACCEPTABLE_METHODS, hp_state = hello_version, hp_remaining = 0\<rparr>;
         data = \<lparr>hd_rb = Read_buffer, hd_wb = Write_buffer, hd_parser = p\<rparr> in
     Inr (s, put_socks a (o5\<lparr>s5_client_data := CD_hello data\<rparr>) w))))"

definition hello_read :: "key \<Rightarrow> st \<Rightarrow> (nat \<times> st) result" where
  "hello_read key = (\<lambda>(s, w).
     bind_res (ATTACHMENT key) (\<lambda>a.
     bind_res (get_socks a w) (\<lambda>o5.
     bind_res (hello_of (s5_client_data o5)) (\<lambda>data.
     bind_res (recv_into (buf (hd_rb data) o5) w) (\<lambda>(bs, n, b, w).
     let o5 = set_buf (hd_rb data) b o5 in
     if 0 < n then
       bind_res (buffer_write_adv b n) (\<lambda>b.
       let p = (hd_parser data)\<lparr>hp_on_auth_method := Some (on_hello_method (w_config w))\<rparr> in
       bind_res (hello_consume b p (Some False)) (\<lambda>(hst, b, p, err).
       let data = data\<lparr>hd_parser := p\<rparr>;
           o5 = set_buf (hd_rb data) b (o5\<lparr>s5_client_data := CD_hello data\<rparr>);
           (fin, err) = hello_is_done hst err in
       if fin then
         bind_res (selector_set_interest_key s key OP_WRITE) (\<lambda>(ss, s).
         if ss = SELECTOR_SUCCESS then
           bind_res (hello_marshalll (buf (hd_wb data) o5) (hp_data p)) (\<lambda>(r, wb).
           let o5 = set_buf (hd_wb data) wb o5 in
           Inr (if r = -1 \<or> err = Some True then ERROR else HELLO_WRITE, s, put_socks a o5 w))
         else Inr (ERROR, s, put_socks a o5 w))
       else Inr (ERROR, s, put_socks a o5 w)))
     else Inr (ERROR, s, put_socks a o5 w))))))"

section \<open>HELLO_WRITE\<close>

definition hello_write :: "key \<Rightarrow> st \<Rightarrow> (nat \<times> st) result" where
  "hello_write key = (\<lambda>(s, w).
     bind_res (ATTACHMENT key) (\<lambda>a.
     bind_res (get_socks a w) (\<lambda>o5.
     bind_res (hello_of (s5_client_data o5)) (\<lambda>data.
     bind_res (send_from (k_fd key) (buf (hd_wb data) o5) w) (\<lambda>(bs, n, w).
     if n < 0 then Inr (ERROR, s, w)
     else
       bind_res (buffer_read_adv (buf (hd_wb data) o5) n) (\<lambda>b.
       let o5 = set_buf (hd_wb data) b o5; w = put_socks a o5 w in
       if \<not> buffer_can_read b then
         bind_res (selector_set_interest s (k_fd key) OP_READ) (\<lambda>(ss, s).
         if ss = SELECTOR_SUCCESS then
           Inr (if hp_data (hd_parser data) = METHOD_AUTH_REQUIRED \<and> is_auth_enabled (w_config w)
                then AUTH_READ
                else if hp_data (hd_parser data) = METHOD_NO_AUTH_REQUIRED \<and> \<not> is_auth_enabled (w_config w)
                then REQUEST_READ
                else DONE, s, w)
         else Inr (ERROR, s, w))
       else Inr (HELLO_WRITE, s, w)))))))"

section \<open>The states that follow\<close>

lemma hello_read_next:
  assumes "hello_read key (s, w) = Inr (t, s', w')" and "ATTACHMENT key = Inr a"
  shows "t \<in> {HELLO_WRITE, ERROR}" "stays a w w'"
proof -
  have "t \<in> {HELLO_WRITE, ERROR} \<and> stays a w w'"
    using assms by (auto simp: hello_read_def Let_def stays_simps elim!: bind_res_InrE
        dest!: recv_into_quiet split: if_splits prod.splits)
  then show "t \<in> {HELLO_WRITE, ERROR}" "stays a w w'"
    by auto
qed

lemma hello_write_next:
  assumes "hello_write key (s, w) = Inr (t, s', w')" and "ATTACHMENT key = Inr a"
  shows "t \<in> {HELLO_WRITE, AUTH_READ, DONE, ERROR} \<or> t = REQUEST_READ \<and> \<not> is_auth_enabled (w_config w)"
    "stays a w w'"
proof -
  have "(t \<in> {HELLO_WRITE, AUTH_READ, DONE, ERROR} \<or> t = REQUEST_READ \<and> \<not> is_auth_enabled (w_config w)) \<and>
      stays a w w'"
    using assms by (auto simp: hello_write_def Let_def stays_simps elim!: bind_res_InrE
        dest!: send_from_quiet split: if_splits prod.splits)
  then show "t \<in> {HELLO_WRITE, AUTH_READ, DONE, ERROR} \<or> t = REQUEST_READ \<and> \<not> is_auth_enabled (w_config w)"
    "stays a w w'"
    by auto
qed

end
