(* ===== verification/Socks5Auth.thy ===== *)
theory Socks5Auth
  imports World
begin

text \<open>
  The two states in which the client presents a name and a password, \<^verbatim>\<open>src/socks5_auth.c\<close>.
  The members \<open>user\<close> and \<open>pass\<close> of \<open>auth_data\<close> point into its own parser.
\<close>

section \<open>AUTH_READ\<close>

text \<open>What the parser holds before \<open>auth_parser_init\<close> writes every member of it.\<close>

definition blank_auth_parser :: auth_parser where
  "blank_auth_parser = \<lparr>ap_state = auth_version, ap_user = \<lparr>au_userlen = 0, au_username = []\<rparr>,
     ap_pass = \<lparr>au_passlen = 0, au_passwd = []\<rparr>, ap_remaining = 0, ap_read = 0, ap_version = 0\<rparr>"

definition auth_read_init :: "key \<Rightarrow> nat \<Rightarrow> st \<Rightarrow> st result" where
  "auth_read_init key state = (\<lambda>(s, w).
     bind_res (ATTACHMENT key) (\<lambda>a.
     bind_res (get_socks a w) (\<lambda>o5.
     let data = \<lparr>ad_rb = Read_buffer, ad_wb = Write_buffer,
                 ad_parser = auth_parser_init blank_auth_parser, ad_status = None\<rparr> in
     Inr (s, put_socks a (o5\<lparr>s5_client_data := CD_auth data\<rparr>) w))))"

text \<open>The event records the call of \<open>checkUser\<close>.\<close>

definition check_credentials :: "nat \<Rightarrow> auth_data \<Rightarrow> world \<Rightarrow> (u8 \<times> world) result" where
  "check_credentials a data w =
     (let user = au_username (ap_user (ad_parser data)); pass = au_passwd (ap_pass (ad_parser data)) in
      bind_res (checkUser (w_config w) user pass) (\<lambda>r.
      Inr (if r \<noteq> 0 then AUTH_SUCCESS else AUTH_FAIL, emit (Checked a user pass (r \<noteq> 0)) w)))"

definition auth_process ::
  "nat \<Rightarrow> auth_data \<Rightarrow> buffer \<Rightarrow> world \<Rightarrow> (nat \<times> auth_data \<times> buffer \<times> world) result" where
  "auth_process a data wb w =
     bind_res (check_credentials a data w) (\<lambda>(status, w).
     bind_res (auth_marshall wb status) (\<lambda>(r, wb).
     Inr (if r = -1 then ERROR else AUTH_WRITE, data\<lparr>ad_status := Some status\<rparr>, wb, w)))"

definition auth_read :: "key \<Rightarrow> st \<Rightarrow> (nat \<times> st) result" where
  "auth_read key = (\<lambda>(s, w).
     bind_res (ATTACHMENT key) (\<lambda>a.
     bind_res (get_socks a w) (\<lambda>o5.
     bind_res (auth_of (s5_client_data o5)) (\<lambda>data.
     bind_res (recv_into (buf (ad_rb data) o5) w) (\<lambda>(bs, n, b, w).
     let o5 = set_buf (ad_rb data) b o5 in
     if n < 0 then Inr (ERROR, s, put_socks a o5 w)
     else
       bind_res (buffer_write_adv b n) (\<lambda>b.
       bind_res (auth_consume b (ad_parser data) (Some False)) (\<lambda>(ast, b, p, err).
       let data = data\<lparr>ad_parser := p\<rparr>;
           o5 = set_buf (ad_rb data) b (o5\<lparr>s5_client_data := CD_auth data\<rparr>);
           (fin, err) = auth_is_done ast err in
       if fin then
         bind_res (selector_set_interest_key s key OP_WRITE) (\<lambda>(ss, s).
         if ss = SELECTOR_SUCCESS then
           bind_res (auth_process a data (buf (ad_wb data) o5) w) (\<lambda>(ret, data, wb, w).
           bind_res (load_range (au_username (ap_user p)) 0 (unat (au_userlen (ap_user p)))) (\<lambda>name.
           bind_res (store_range (s5_user o5) 0 name) (\<lambda>usr.
           let o5 = set_buf (ad_wb data) wb (o5\<lparr>s5_client_data := CD_auth data, s5_user := usr\<rparr>) in
           Inr (if err = Some True then ERROR else ret, s, put_socks a o5 w))))
         else Inr (ERROR, s, put_socks a o5 w))
       else Inr (if err = Some True then ERROR else AUTH_READ, s, put_socks a o5 w))))))))"

section \<open>AUTH_WRITE\<close>

definition auth_write :: "key \<Rightarrow> st \<Rightarrow> (nat \<times> st) result" where
  "auth_write key = (\<lambda>(s, w).
     bind_res (ATTACHMENT key) (\<lambda>a.
     bind_res (get_socks a w) (\<lambda>o5.
     bind_res (auth_of (s5_client_data o5)) (\<lambda>data.
     bind_res (send_from (k_fd key) (buf (ad_wb data) o5) w) (\<lambda>(bs, n, w).
     if n < 0 then Inr (ERROR, s, w)
     else
       bind_res (buffer_read_adv (buf (ad_wb data) o5) n) (\<lambda>b.
       let o5 = set_buf (ad_wb data) b o5; w = put_socks a o5 w in
       if \<not> buffer_can_read b then
         (case ad_status data of
            None \<Rightarrow> Inl WrongMember
          | Some status \<Rightarrow>
              if status \<noteq> AUTH_SUCCESS then Inr (DONE, s, w)
              else
                bind_res (selector_set_interest_key s key OP_READ) (\<lambda>(ss, s).
                Inr (if ss = SELECTOR_SUCCESS then REQUEST_READ else ERROR, s, w)))
       else Inr (AUTH_WRITE, s, w)))))))"

section \<open>The states that follow\<close>

text \<open>A check of the credentials that the connection presented has succeeded.\<close>

fun is_login :: "nat \<Rightarrow> event \<Rightarrow> bool" where
  "is_login a (Checked b user pass good) \<longleftrightarrow> a = b \<and> good"
| "is_login a _ \<longleftrightarrow> False"

definition logged_in :: "nat \<Rightarrow> world \<Rightarrow> bool" where
  "logged_in a w \<longleftrightarrow> list_ex (is_login a) (w_events w)"

text \<open>The answer that is being written is positive only after such a check.\<close>

definition auth_checked :: "nat \<Rightarrow> world \<Rightarrow> bool" where
  "auth_checked a w \<longleftrightarrow> (\<forall>o5 d. w_socks w a = Some o5 \<longrightarrow> s5_client_data o5 = CD_auth d \<longrightarrow>
     ad_status d = Some AUTH_SUCCESS \<longrightarrow> logged_in a w)"

lemma logged_in_stays: "logged_in a w \<Longrightarrow> stays a w w' \<Longrightarrow> logged_in a w'"
  by (auto simp: logged_in_def stays_def)

lemma logged_in_put: "logged_in a (put_socks b o5 w) \<longleftrightarrow> logged_in a w"
    "w_socks (put_socks b o5 w) = (w_socks w)(b \<mapsto> o5)"
  by (simp_all add: logged_in_def put_socks_def)

lemma auth_write_distinct: "ERROR \<noteq> AUTH_WRITE" "AUTH_READ \<noteq> AUTH_WRITE"
  by (simp_all add: socks_state_defs)

lemma auth_of_Inr: "auth_of c = Inr d \<longleftrightarrow> c = CD_auth d"
  by (cases c) auto

lemma check_credentials_checked:
  assumes "check_credentials a data w = Inr (status, w')"
  shows "quiet w w' \<and> (status = AUTH_SUCCESS \<longrightarrow> logged_in a w')"
  using assms by (auto simp: check_credentials_def Let_def quiet_def emit_def logged_in_def
      AUTH_SUCCESS_def AUTH_FAIL_def elim!: bind_res_InrE split: if_splits)

lemma auth_process_checked:
  assumes "auth_process a data wb w = Inr (t, data', wb', w')"
  shows "quiet w w' \<and> (t = AUTH_WRITE \<or> t = ERROR) \<and>
    (ad_status data' = Some AUTH_SUCCESS \<longrightarrow> logged_in a w')"
  using assms by (auto simp: auth_process_def elim!: bind_res_InrE
      dest: check_credentials_checked split: if_splits)

lemma auth_read_next:
  assumes "auth_read key (s, w) = Inr (t, s', w')" and "ATTACHMENT key = Inr a"
  shows "t \<in> {AUTH_READ, AUTH_WRITE, ERROR}" "stays a w w'" "t = AUTH_WRITE \<Longrightarrow> auth_checked a w'"
proof -
  have "t \<in> {AUTH_READ, AUTH_WRITE, ERROR} \<and> stays a w w'"
    using assms by (auto simp: auth_read_def Let_def stays_simps elim!: bind_res_InrE
        dest!: recv_into_quiet auth_process_checked split: if_splits prod.splits)
  moreover have "auth_checked a w'" if "t = AUTH_WRITE"
    using assms that by (auto simp: auth_read_def Let_def auth_checked_def logged_in_put
        auth_write_distinct elim!: bind_res_InrE dest!: auth_process_checked split: if_splits prod.splits)
  ultimately show "t \<in> {AUTH_READ, AUTH_WRITE, ERROR}" "stays a w w'" "t = AUTH_WRITE \<Longrightarrow> auth_checked a w'"
    by auto
qed

lemma auth_write_next:
  assumes "auth_write key (s, w) = Inr (t, s', w')" and "ATTACHMENT key = Inr a" and "auth_checked a w"
  shows "t \<in> {AUTH_WRITE, DONE, ERROR} \<or> t = REQUEST_READ \<and> logged_in a w'" "stays a w w'"
    "auth_checked a w'"
proof -
  have "stays a w w' \<and> auth_checked a w' \<and>
      (t \<in> {AUTH_WRITE, DONE, ERROR} \<or> t = REQUEST_READ \<and> logged_in a w)"
    using assms by (auto simp: auth_write_def Let_def stays_simps auth_checked_def auth_of_Inr logged_in_def
        elim!: bind_res_InrE dest!: send_from_quiet split: if_splits prod.splits option.splits)
  then show "t \<in> {AUTH_WRITE, DONE, ERROR} \<or> t = REQUEST_READ \<and> logged_in a w'" "stays a w w'"
      "auth_checked a w'"
    by (auto intro: logged_in_stays)
qed

end
