(* ===== verification/Socks5Request.thy ===== *)
theory Socks5Request
  imports World
begin

text \<open>
  The request of a SOCKS5 connection, \<^verbatim>\<open>src/socks5_request.c\<close>: it is read, the name in it is
  resolved by another thread, the destination is connected to, and the reply is written. The
  functions that release the objects of connections, \<open>socks5_close\<close> and \<open>socks5_free\<close> of
  \<^verbatim>\<open>src/socks5.c\<close> and \<open>mng_close\<close> of \<^verbatim>\<open>src/mng_handler.c\<close>, are here because a retry
  unregisters a descriptor.
\<close>

section \<open>Release of the objects\<close>

text \<open>The resolved addresses and the two arrays are parts of the object in the model.\<close>

definition socks5_free :: "nat \<Rightarrow> world \<Rightarrow> world result" where
  "socks5_free a w =
     bind_res (get_socks a w) (\<lambda>_. Inr (w\<lparr>w_socks := (w_socks w)(a := None)\<rparr>))"

definition socks5_close :: "key \<Rightarrow> st \<Rightarrow> st result" where
  "socks5_close key = (\<lambda>(s, w).
     bind_res (ATTACHMENT key) (\<lambda>a.
     bind_res (get_socks a w) (\<lambda>o5.
     if s5_final_server_fd o5 = -1 then bind_res (socks5_free a w) (\<lambda>w. Inr (s, w))
     else if 0 < s5_toFree o5 then bind_res (socks5_free a w) (\<lambda>w. Inr (s, w))
     else Inr (s, put_socks a (o5\<lparr>s5_toFree := s5_toFree o5 + 1\<rparr>) w))))"

definition mng_close :: "key \<Rightarrow> st \<Rightarrow> st result" where
  "mng_close key = (\<lambda>(s, w).
     bind_res (ATTACH key) (\<lambda>a.
     bind_res (get_mng a w) (\<lambda>_. Inr (s, w\<lparr>w_mngs := (w_mngs w)(a := None)\<rparr>))))"

text \<open>The members \<open>handle_close\<close> of the four handlers.\<close>

fun close_handler :: "hname \<Rightarrow> (hname, object, world) callback option" where
  "close_handler H_socks5_passive = None"
| "close_handler H_socks5 = Some socks5_close"
| "close_handler H_mng_passive = None"
| "close_handler H_mng = Some mng_close"

section \<open>Connecting\<close>

definition set_final_addr :: "addrinfo \<Rightarrow> socks5 \<Rightarrow> socks5 result" where
  "set_final_addr ai o5 =
     bind_res (load_range (ai_addr ai) 0 (ai_addrlen ai)) (\<lambda>bs.
     bind_res (store_range (s5_final_server_addr o5) 0 bs) (\<lambda>addr.
     Inr (o5\<lparr>s5_server_domain := ai_family ai, s5_final_server_len := ai_addrlen ai,
             s5_final_server_addr := addr\<rparr>)))"

text \<open>
  The list pointer moves on, but what is copied is the first address of the list. The first
  component is the result of the call.
\<close>

definition next_ip :: "socks5 \<Rightarrow> (int \<times> socks5) result" where
  "next_ip o5 =
     (case s5_server_resolution o5 of
        [] \<Rightarrow> Inr (-1, o5)
      | ai # _ \<Rightarrow>
          (case s5_current_server_resolution o5 of
             [] \<Rightarrow> Inl NullCall
           | _ # rest \<Rightarrow>
               if rest = [] then Inr (-1, o5)
               else
                 bind_res (set_final_addr ai (o5\<lparr>s5_current_server_resolution := rest\<rparr>)) (\<lambda>o5.
                 Inr (0, o5))))"

definition EINPROGRESS :: int where "EINPROGRESS = 115"

text \<open>
  \<open>request_connect\<close>, whose recursion ends because \<open>next_ip\<close> drops a list element each time: \<open>fuel\<close>
  counts the elements that are left. The four parts below are the parts of its body.
\<close>

text \<open>An earlier descriptor is unregistered and closed.\<close>

definition drop_old_fd :: "nat \<Rightarrow> st \<Rightarrow> st result" where
  "drop_old_fd a = (\<lambda>(s, w).
     bind_res (get_socks a w) (\<lambda>o5.
     let fd = s5_final_server_fd o5 in
     if fd \<noteq> -1 then
       bind_res (selector_unregister_fd close_handler fd (s, w)) (\<lambda>(_, s, w).
       Inr (s, emit (Closed_fd fd) w))
     else Inr (s, w)))"

text \<open>\<open>socket\<close> and \<open>selector_fd_set_nio\<close>: whether both succeed.\<close>

definition open_socket :: "nat \<Rightarrow> world \<Rightarrow> (bool \<times> world) result" where
  "open_socket a w =
     bind_res (get_socks a w) (\<lambda>o5.
     bind_res (next_answer w) (\<lambda>(x, w).
     case x of
       OpenFails \<Rightarrow> Inr (False, put_socks a (o5\<lparr>s5_final_server_fd := -1\<rparr>) w)
     | NewSocket fd \<Rightarrow>
         if fd < 0 then Inl NoAnswer
         else selector_fd_set_nio (put_socks a (o5\<lparr>s5_final_server_fd := fd\<rparr>) w)
     | _ \<Rightarrow> Inl NoAnswer))"

text \<open>\<open>connect\<close>: \<open>None\<close> when it does not answer -1, otherwise \<open>errno\<close>.\<close>

definition sys_connect :: "nat \<Rightarrow> world \<Rightarrow> (int option \<times> world) result" where
  "sys_connect a w =
     bind_res (get_socks a w) (\<lambda>o5.
     bind_res (load_range (s5_final_server_addr o5) 0 (s5_final_server_len o5)) (\<lambda>addr.
     bind_res (next_answer w) (\<lambda>(x, w).
     let w = emit (Connecting (s5_final_server_fd o5) addr) w in
     case x of
       ConnectDone \<Rightarrow> Inr (None, w)
     | ConnectFails e \<Rightarrow> Inr (Some e, w)
     | _ \<Rightarrow> Inl NoAnswer)))"

text \<open>
  The connection is being established: the new descriptor is registered, the client's is silenced.
  The table of the server never grows (\<open>selector_new\<close> makes it as large as it can get), so that no
  memory is asked for.
\<close>

definition connect_in_progress :: "key \<Rightarrow> nat \<Rightarrow> st \<Rightarrow> (nat \<times> st) result" where
  "connect_in_progress key a = (\<lambda>(s, w).
     bind_res (get_socks a w) (\<lambda>o5.
     bind_res (selector_register False zero_item s (s5_final_server_fd o5) (Some H_socks5) OP_WRITE
       (Some (Socks_at a))) (\<lambda>(ss, s).
     if ss \<noteq> SELECTOR_SUCCESS then Inr (ERROR, s, w)
     else
       bind_res (selector_set_interest s (s5_client_fd o5) OP_NOOP) (\<lambda>(ss, s).
       Inr (if ss \<noteq> SELECTOR_SUCCESS then ERROR else REQUEST_CONNECTING, s, w)))))"

text \<open>No address is left: the reply is marshalled and the client is told.\<close>

definition connect_reply :: "nat \<Rightarrow> st \<Rightarrow> (nat \<times> st) result" where
  "connect_reply a = (\<lambda>(s, w).
     bind_res (get_socks a w) (\<lambda>o5.
     bind_res (request_of (s5_client_data o5)) (\<lambda>data.
     bind_res (log_conn a (s5_status o5) w) (\<lambda>w.
     bind_res (request_marshalll (buf (rd_wb data) o5) (s5_status o5) (rp_request (rd_parser data))) (\<lambda>(r, wb).
     let w = put_socks a (set_buf (rd_wb data) wb o5) w in
     bind_res (selector_set_interest s (s5_client_fd o5) OP_WRITE) (\<lambda>(ss, s).
     Inr (if r = -1 \<or> ss \<noteq> SELECTOR_SUCCESS then ERROR else REQUEST_WRITE, s, w)))))))"

fun request_connect :: "nat \<Rightarrow> key \<Rightarrow> nat \<Rightarrow> st \<Rightarrow> (nat \<times> st) result" where
  "request_connect fuel key a st =
     bind_res (drop_old_fd a st) (\<lambda>(s, w).
     bind_res (open_socket a w) (\<lambda>(opened, w).
     if \<not> opened then Inr (ERROR, s, w)
     else
       bind_res (sys_connect a w) (\<lambda>(e, w).
       case e of
         None \<Rightarrow> Inr (ERROR, s, w)
       | Some e \<Rightarrow>
           if e = EINPROGRESS then connect_in_progress key a (s, w)
           else
             bind_res (get_socks a w) (\<lambda>o5.
             let o5 = o5\<lparr>s5_status := errno_to_socks e\<rparr> in
             bind_res (next_ip o5) (\<lambda>(r, o5).
             let w = put_socks a o5 w in
             if r \<noteq> -1 then
               bind_res (log_conn a (s5_status o5) w) (\<lambda>w.
               case fuel of
                 0 \<Rightarrow> Inl AssertFailed
               | Suc fuel \<Rightarrow> request_connect fuel key a (s, w))
             else connect_reply a (s, w))))))"

declare request_connect.simps [simp del]

text \<open>The call, with the fuel that the list of addresses needs.\<close>

definition start_connect :: "key \<Rightarrow> nat \<Rightarrow> st \<Rightarrow> (nat \<times> st) result" where
  "start_connect key a = (\<lambda>(s, w).
     bind_res (get_socks a w) (\<lambda>o5.
     request_connect (length (s5_current_server_resolution o5)) key a (s, w)))"

section \<open>REQUEST_READ\<close>

text \<open>
  \<open>request_parser_init\<close> leaves the two counters as they are; they are set before they are read.
\<close>

definition blank_request_parser :: request_parser where
  "blank_request_parser = \<lparr>rp_request = \<lparr>rq_cmd = 0, rq_dst_addr_type = 0, rq_dst_addr = [],
     rq_dst_port = []\<rparr>, rp_state = request_version, rp_total_bytes_to_read = 0, rp_bytes_read = 0\<rparr>"

definition request_init :: "key \<Rightarrow> nat \<Rightarrow> st \<Rightarrow> st result" where
  "request_init key state = (\<lambda>(s, w).
     bind_res (ATTACHMENT key) (\<lambda>a.
     bind_res (get_socks a w) (\<lambda>o5.
     let data = \<lparr>rd_rb = Read_buffer, rd_wb = Write_buffer,
                 rd_parser = request_parser_init blank_request_parser\<rparr> in
     Inr (s, put_socks a (o5\<lparr>s5_client_data := CD_request data\<rparr>) w))))"

text \<open>
  The address as \<open>connect\<close> wants it: family, port and what the parser stored, 16 bytes of a
  \<open>sockaddr_in\<close> or 28 of a \<open>sockaddr_in6\<close>.
\<close>

definition final_addr :: "u8 list \<Rightarrow> nat \<Rightarrow> request \<Rightarrow> u8 list result" where
  "final_addr family n r =
     bind_res (load_range (rq_dst_addr r) 0 n) (\<lambda>bs.
     bind_res (store_range bs 0 family) (\<lambda>bs.
     store_range bs 2 (rq_dst_port r)))"

definition connect_to :: "key \<Rightarrow> nat \<Rightarrow> u8 list \<Rightarrow> nat \<Rightarrow> request \<Rightarrow> st \<Rightarrow> (nat \<times> st) result" where
  "connect_to key a family n r = (\<lambda>(s, w).
     bind_res (get_socks a w) (\<lambda>o5.
     bind_res (final_addr family n r) (\<lambda>bs.
     bind_res (store_range (s5_final_server_addr o5) 0 bs) (\<lambda>addr.
     start_connect key a
       (s, put_socks a (o5\<lparr>s5_final_server_len := n, s5_final_server_addr := addr\<rparr>) w)))))"

text \<open>A failure before any connection: the status is set, nothing is marshalled.\<close>

definition request_refuse :: "key \<Rightarrow> nat \<Rightarrow> socks_response_status \<Rightarrow> st \<Rightarrow> (nat \<times> st) result" where
  "request_refuse key a status = (\<lambda>(s, w).
     bind_res (get_socks a w) (\<lambda>o5.
     let w = put_socks a (o5\<lparr>s5_status := status\<rparr>) w in
     bind_res (selector_set_interest_key s key OP_WRITE) (\<lambda>(_, s). Inr (REQUEST_WRITE, s, w))))"

text \<open>
  The copy of the key is allocated, then the thread is created; it runs as \<open>request_resolv_blocking\<close>
  below.
\<close>

definition request_resolve :: "key \<Rightarrow> nat \<Rightarrow> st \<Rightarrow> (nat \<times> st) result" where
  "request_resolve key a = (\<lambda>(s, w).
     bind_res (sys_memory w) (\<lambda>(mem, w).
     if \<not> mem 0 then request_refuse key a status_general_SOCKS_server_failure (s, w)
     else
       bind_res (next_answer w) (\<lambda>(x, w).
       case x of
         ThreadStarted started \<Rightarrow>
           if \<not> started then request_refuse key a status_general_SOCKS_server_failure (s, w)
           else
             bind_res (selector_set_interest_key s key OP_NOOP) (\<lambda>(_, s).
             Inr (REQUEST_RESOLV, s, w\<lparr>w_threads := w_threads w @ [key]\<rparr>))
       | _ \<Rightarrow> Inl NoAnswer)))"

definition request_process :: "key \<Rightarrow> nat \<Rightarrow> request \<Rightarrow> st \<Rightarrow> (nat \<times> st) result" where
  "request_process key a r st =
     (if rq_cmd r = socks_req_cmd_connect then
        if rq_dst_addr_type r = socks_req_addrtype_ipv4 then connect_to key a AF_INET_bytes 16 r st
        else if rq_dst_addr_type r = socks_req_addrtype_ipv6 then connect_to key a AF_INET6_bytes 28 r st
        else if rq_dst_addr_type r = socks_req_addrtype_domain then request_resolve key a st
        else request_refuse key a status_address_type_not_supported st
      else request_refuse key a status_command_not_supported st)"

definition request_read :: "key \<Rightarrow> st \<Rightarrow> (nat \<times> st) result" where
  "request_read key = (\<lambda>(s, w).
     bind_res (ATTACHMENT key) (\<lambda>a.
     bind_res (get_socks a w) (\<lambda>o5.
     bind_res (request_of (s5_client_data o5)) (\<lambda>data.
     bind_res (recv_into (buf (rd_rb data) o5) w) (\<lambda>(bs, n, b, w).
     let o5 = set_buf (rd_rb data) b o5 in
     if n < 0 then Inr (ERROR, s, put_socks a o5 w)
     else
       bind_res (buffer_write_adv b n) (\<lambda>b.
       bind_res (request_consume b (rd_parser data) (Some False)) (\<lambda>(rst, b, p, err).
       let o5 = set_buf (rd_rb data) b (o5\<lparr>s5_client_data := CD_request (data\<lparr>rd_parser := p\<rparr>)\<rparr>);
           w = put_socks a o5 w;
           (fin, err) = request_is_done rst err in
       if fin then
         bind_res (request_process key a (rp_request p) (s, w)) (\<lambda>(ret, st).
         Inr (if err = Some True then ERROR else ret, st))
       else Inr (if err = Some True then ERROR else REQUEST_READ, s, w))))))))"

section \<open>REQUEST_RESOLV\<close>

text \<open>
  The thread: \<open>getaddrinfo\<close> is called with the name and the port in decimal digits, and the
  selector is told. The event shows the name and the port.
\<close>

definition port_number :: "u8 list \<Rightarrow> nat result" where
  "port_number p =
     bind_res (load_at p 0) (\<lambda>hi. bind_res (load_at p 1) (\<lambda>lo. Inr (unat hi * 256 + unat lo)))"

definition request_resolv_blocking :: "key \<Rightarrow> st \<Rightarrow> st result" where
  "request_resolv_blocking key = (\<lambda>(s, w).
     bind_res (ATTACHMENT key) (\<lambda>a.
     bind_res (get_socks a w) (\<lambda>o5.
     bind_res (request_of (s5_client_data o5)) (\<lambda>data.
     let r = rp_request (rd_parser data) in
     bind_res (port_number (rq_dst_port r)) (\<lambda>port.
     bind_res (c_str (take FQDN_SIZE (rq_dst_addr r))) (\<lambda>name.
     bind_res (next_answer w) (\<lambda>(x, w).
     case x of
       Resolved ais \<Rightarrow>
         let w = put_socks a (o5\<lparr>s5_server_resolution := ais, s5_current_server_resolution := ais\<rparr>)
                   (emit (Lookup name port) w) in
         bind_res (sys_memory w) (\<lambda>(mem, w).
         Inr (snd (selector_notify_block (mem 0) s (k_fd key)), w))
     | _ \<Rightarrow> Inl NoAnswer)))))))"

definition request_resolv_done :: "key \<Rightarrow> st \<Rightarrow> (nat \<times> st) result" where
  "request_resolv_done key = (\<lambda>(s, w).
     bind_res (ATTACHMENT key) (\<lambda>a.
     bind_res (get_socks a w) (\<lambda>o5.
     bind_res (request_of (s5_client_data o5)) (\<lambda>_.
     bind_res (case s5_server_resolution o5 of
         [] \<Rightarrow> Inr (o5\<lparr>s5_status := status_general_SOCKS_server_failure\<rparr>)
       | ai # _ \<Rightarrow> set_final_addr ai o5) (\<lambda>o5.
     start_connect key a (s, put_socks a o5 w))))))"

section \<open>REQUEST_CONNECTING\<close>

definition request_connecting_init :: "key \<Rightarrow> nat \<Rightarrow> st \<Rightarrow> st result" where
  "request_connecting_init key state = (\<lambda>(s, w).
     bind_res (ATTACHMENT key) (\<lambda>a.
     bind_res (get_socks a w) (\<lambda>o5.
     Inr (s, put_socks a (o5\<lparr>s5_server_data := SD_connect \<lparr>cn_wb = Write_buffer\<rparr>\<rparr>) w))))"

text \<open>
  The common end of \<open>request_connecting\<close>: the reply is marshalled (\<open>abort()\<close> if it does not fit) and
  the interests are set; the two answers of the selector are added, so that an error of either is one.
\<close>

definition request_connecting_reply :: "key \<Rightarrow> nat \<Rightarrow> st \<Rightarrow> (nat \<times> st) result" where
  "request_connecting_reply key a = (\<lambda>(s, w).
     bind_res (get_socks a w) (\<lambda>o5.
     bind_res (request_of (s5_client_data o5)) (\<lambda>data.
     bind_res (request_marshalll (buf (rd_wb data) o5) (s5_status o5) (rp_request (rd_parser data))) (\<lambda>(r, wb).
     if r = -1 then Inl Aborted
     else
       let w = put_socks a (set_buf (rd_wb data) wb o5) w in
       bind_res (selector_set_interest s (s5_client_fd o5) OP_WRITE) (\<lambda>(ss1, s).
       bind_res (selector_set_interest s (k_fd key) OP_NOOP) (\<lambda>(ss2, s).
       Inr (if ss1 = SELECTOR_SUCCESS \<and> ss2 = SELECTOR_SUCCESS then REQUEST_WRITE else ERROR, s, w)))))))"

definition request_connecting :: "key \<Rightarrow> st \<Rightarrow> (nat \<times> st) result" where
  "request_connecting key = (\<lambda>(s, w).
     bind_res (ATTACHMENT key) (\<lambda>a.
     bind_res (get_socks a w) (\<lambda>o5.
     bind_res (connect_of (s5_server_data o5)) (\<lambda>_.
     bind_res (request_of (s5_client_data o5)) (\<lambda>_.
     bind_res (next_answer w) (\<lambda>(x, w).
     case x of
       SockErrorFails \<Rightarrow>
         request_connecting_reply key a
           (s, put_socks a (o5\<lparr>s5_status := status_general_SOCKS_server_failure\<rparr>) w)
     | SockError e \<Rightarrow>
         if e = 0 then
           let w = put_socks a (o5\<lparr>s5_status := status_succeeded, s5_final_server_fd := k_fd key\<rparr>) w;
               w = w\<lparr>w_metrics := add_connection (w_metrics w)\<rparr> in
           bind_res (log_conn a status_succeeded w) (\<lambda>w. request_connecting_reply key a (s, w))
         else
           bind_res (next_ip (o5\<lparr>s5_status := errno_to_socks e\<rparr>)) (\<lambda>(r, o5).
           let w = put_socks a o5 w in
           if r \<noteq> -1 then start_connect key a (s, w)
           else bind_res (log_conn a (s5_status o5) w) (\<lambda>w. request_connecting_reply key a (s, w)))
     | _ \<Rightarrow> Inl NoAnswer))))))"

section \<open>REQUEST_WRITE\<close>

text \<open>The descriptor of the second \<open>selector_set_interest\<close> of a failed request is the client's again.\<close>

definition request_write :: "key \<Rightarrow> st \<Rightarrow> (nat \<times> st) result" where
  "request_write key = (\<lambda>(s, w).
     bind_res (ATTACHMENT key) (\<lambda>a.
     bind_res (get_socks a w) (\<lambda>o5.
     bind_res (request_of (s5_client_data o5)) (\<lambda>data.
     bind_res (send_from (k_fd key) (buf (rd_wb data) o5) w) (\<lambda>(bs, n, w).
     if n < 0 then Inr (ERROR, s, w)
     else
       bind_res (buffer_read_adv (buf (rd_wb data) o5) n) (\<lambda>b.
       let o5 = set_buf (rd_wb data) b o5; w = put_socks a o5 w in
       if buffer_can_read b then Inr (REQUEST_WRITE, s, w)
       else if s5_status o5 = status_succeeded then
         bind_res (selector_set_interest s (s5_client_fd o5) OP_READ) (\<lambda>(_, s).
         bind_res (selector_set_interest s (s5_final_server_fd o5) OP_READ) (\<lambda>(_, s).
         Inr (COPY, s, w)))
       else
         bind_res (selector_set_interest s (s5_client_fd o5) OP_NOOP) (\<lambda>(_, s).
         bind_res (if s5_final_server_fd o5 \<noteq> -1 then selector_set_interest s (s5_client_fd o5) OP_NOOP
                   else Inr (SELECTOR_SUCCESS, s)) (\<lambda>(_, s).
         Inr (DONE, s, w)))))))))"

section \<open>The states that follow\<close>

lemma close_handler_stays:
  assumes "close_handler h = Some f" and "f key (s, w) = Inr (s', w')"
  shows "stays a w w'"
  using assms
  by (cases h) (auto simp: socks5_close_def socks5_free_def mng_close_def stays_def put_socks_def
      elim!: bind_res_InrE split: if_splits)

lemma unregister_stays:
  assumes "selector_unregister_fd close_handler fd (s, w) = Inr (ss, s', w')"
  shows "stays a w w'"
  using assms
  by (auto simp: selector_unregister_fd_def Let_def stays_refl elim!: bind_res_InrE
      split: if_splits option.splits prod.splits) (erule (1) close_handler_stays)

lemma stays_emit: "stays a w w' \<Longrightarrow> stays a w (emit e w')"
  by (auto simp: stays_def emit_def)

lemma drop_old_fd_stays: "drop_old_fd b (s, w) = Inr (s', w') \<Longrightarrow> stays a w w'"
  by (auto simp: drop_old_fd_def Let_def stays_refl elim!: bind_res_InrE
      dest!: unregister_stays [where a = a] intro: stays_emit split: if_splits prod.splits)

lemma open_socket_stays: "open_socket a w = Inr (b, w') \<Longrightarrow> stays a w w'"
  by (auto simp: open_socket_def Let_def stays_simps elim!: bind_res_InrE
      dest!: next_answer_quiet selector_fd_set_nio_quiet split: if_splits answer.splits)

lemma sys_connect_quiet: "sys_connect a w = Inr (e, w') \<Longrightarrow> quiet w w'"
  by (auto simp: sys_connect_def Let_def elim!: bind_res_InrE dest!: next_answer_quiet
      intro: quiet_emit split: answer.splits)

lemma connect_in_progress_next:
  "connect_in_progress key a (s, w) = Inr (t, s', w') \<Longrightarrow> w' = w \<and> t \<in> {ERROR, REQUEST_CONNECTING}"
  by (auto simp: connect_in_progress_def elim!: bind_res_InrE split: if_splits)

lemma connect_reply_next:
  "connect_reply a (s, w) = Inr (t, s', w') \<Longrightarrow> stays a w w' \<and> t \<in> {ERROR, REQUEST_WRITE}"
  by (auto simp: connect_reply_def Let_def stays_simps elim!: bind_res_InrE dest!: log_conn_quiet
      split: if_splits)

lemma set_final_addr_current:
  "set_final_addr ai o5 = Inr o5' \<Longrightarrow> s5_stm_current o5' = s5_stm_current o5"
  by (auto simp: set_final_addr_def elim!: bind_res_InrE)

lemma next_ip_current: "next_ip o5 = Inr (r, o5') \<Longrightarrow> s5_stm_current o5' = s5_stm_current o5"
  by (auto simp: next_ip_def elim!: bind_res_InrE dest!: set_final_addr_current
      split: list.splits if_splits)

lemma request_connect_step:
  assumes "request_connect fuel key a (s, w) = Inr (t, s', w')"
  obtains s1 w1 where "stays a w w1"
    "t = ERROR \<and> w' = w1 \<or> connect_in_progress key a (s1, w1) = Inr (t, s', w') \<or>
     connect_reply a (s1, w1) = Inr (t, s', w') \<or>
     (\<exists>f. fuel = Suc f \<and> request_connect f key a (s1, w1) = Inr (t, s', w'))"
proof -
  note eq = request_connect.simps [of fuel key a "(s, w)"]
  obtain s1 w1 where 1: "drop_old_fd a (s, w) = Inr (s1, w1)"
    using assms by (auto simp: eq elim!: bind_res_InrE)
  obtain opened w2 where 2: "open_socket a w1 = Inr (opened, w2)"
    using assms 1 by (auto simp: eq elim!: bind_res_InrE)
  have w2: "stays a w w2"
    using drop_old_fd_stays [OF 1] open_socket_stays [OF 2] by (rule stays_trans)
  show ?thesis
  proof (cases opened)
    case False
    with assms 1 2 w2 that show ?thesis
      by (auto simp: eq)
  next
    case True
    obtain e w3 where 3: "sys_connect a w2 = Inr (e, w3)"
      using assms 1 2 True by (auto simp: eq elim!: bind_res_InrE)
    have w3: "stays a w w3"
      using w2 quiet_stays [OF sys_connect_quiet [OF 3]] by (rule stays_trans)
    show ?thesis
    proof (cases "e = None \<or> e = Some EINPROGRESS")
      case True
      with assms 1 2 3 \<open>opened\<close> have "t = ERROR \<and> w' = w3 \<or>
          connect_in_progress key a (s1, w3) = Inr (t, s', w')"
        by (auto simp: eq)
      with w3 show ?thesis
        by (intro that [of w3 s1]) blast+
    next
      case False
      then obtain y where y: "e = Some y" "y \<noteq> EINPROGRESS"
        by auto
      with assms 1 2 3 \<open>opened\<close> obtain o5 r o5' where o5: "w_socks w3 a = Some o5"
          "next_ip (o5\<lparr>s5_status := errno_to_socks y\<rparr>) = Inr (r, o5')"
        by (auto simp: eq Let_def elim!: bind_res_InrE)
      have w4: "stays a w (put_socks a o5' w3)"
        using w3 stays_put [OF o5(1), of o5'] next_ip_current [OF o5(2)] by (auto intro: stays_trans)
      show ?thesis
      proof (cases "r = -1")
        case True
        with assms 1 2 3 \<open>opened\<close> y o5 have "connect_reply a (s1, put_socks a o5' w3) = Inr (t, s', w')"
          by (simp add: eq Let_def get_socks_def)
        with w4 show ?thesis
          by (intro that [of "put_socks a o5' w3" s1]) blast+
      next
        case r: False
        with assms 1 2 3 \<open>opened\<close> y o5 obtain w5 f where
          "log_conn a (s5_status o5') (put_socks a o5' w3) = Inr w5" "fuel = Suc f"
          "request_connect f key a (s1, w5) = Inr (t, s', w')"
          by (auto simp: eq Let_def get_socks_def elim!: bind_res_InrE split: nat.splits)
        moreover from this w4 have "stays a w w5"
          by (blast intro: stays_trans quiet_stays log_conn_quiet)
        ultimately show ?thesis
          by (intro that [of w5 s1]) blast+
      qed
    qed
  qed
qed

lemma request_connect_next:
  assumes "request_connect fuel key a (s, w) = Inr (t, s', w')"
  shows "stays a w w' \<and> t \<in> {ERROR, REQUEST_CONNECTING, REQUEST_WRITE}"
  using assms
proof (induction fuel arbitrary: s w)
  case (0 s w)
  obtain s1 w1 where "stays a w w1" "t = ERROR \<and> w' = w1 \<or>
      connect_in_progress key a (s1, w1) = Inr (t, s', w') \<or> connect_reply a (s1, w1) = Inr (t, s', w')"
    using request_connect_step [OF 0] by blast
  then show ?case
    by (auto dest!: connect_in_progress_next connect_reply_next intro: stays_trans)
next
  case (Suc fuel s w)
  obtain s1 w1 where "stays a w w1" "t = ERROR \<and> w' = w1 \<or>
      connect_in_progress key a (s1, w1) = Inr (t, s', w') \<or>
      connect_reply a (s1, w1) = Inr (t, s', w') \<or> request_connect fuel key a (s1, w1) = Inr (t, s', w')"
    using request_connect_step [OF Suc.prems] by blast
  then show ?case
    by (auto dest!: connect_in_progress_next connect_reply_next Suc.IH intro: stays_trans)
qed

lemma start_connect_next:
  "start_connect key a (s, w) = Inr (t, s', w') \<Longrightarrow>
   stays a w w' \<and> t \<in> {ERROR, REQUEST_CONNECTING, REQUEST_WRITE}"
  by (auto simp: start_connect_def elim!: bind_res_InrE dest!: request_connect_next)

lemma connect_to_next:
  "connect_to key a family n r (s, w) = Inr (t, s', w') \<Longrightarrow>
   stays a w w' \<and> t \<in> {ERROR, REQUEST_CONNECTING, REQUEST_WRITE}"
  by (auto simp: connect_to_def elim!: bind_res_InrE dest!: start_connect_next)

lemma request_refuse_next:
  "request_refuse key a status (s, w) = Inr (t, s', w') \<Longrightarrow> stays a w w' \<and> t = REQUEST_WRITE"
  by (auto simp: request_refuse_def Let_def elim!: bind_res_InrE intro: stays_put)

lemma request_resolve_next:
  assumes "request_resolve key a (s, w) = Inr (t, s', w')"
  shows "stays a w w' \<and> t \<in> {REQUEST_WRITE, REQUEST_RESOLV}"
proof -
  have threads: "stays a w (w1\<lparr>w_threads := ts\<rparr>) \<longleftrightarrow> stays a w w1" for w1 ts
    by (simp add: stays_def)
  show ?thesis
    using assms by (auto simp: request_resolve_def threads elim!: bind_res_InrE
        dest!: sys_memory_quiet next_answer_quiet request_refuse_next quiet_stays [where a = a]
        split: answer.splits if_splits) (meson stays_trans)+
qed

lemma request_process_next:
  assumes "request_process key a r (s, w) = Inr (t, s', w')"
  shows "stays a w w' \<and> t \<in> {ERROR, REQUEST_CONNECTING, REQUEST_WRITE, REQUEST_RESOLV}"
  using assms by (auto simp: request_process_def dest!: connect_to_next request_resolve_next
      request_refuse_next split: if_splits)

lemma request_read_next:
  assumes "request_read key (s, w) = Inr (t, s', w')" and "ATTACHMENT key = Inr a"
  shows "stays a w w' \<and>
    t \<in> {REQUEST_READ, ERROR, REQUEST_CONNECTING, REQUEST_WRITE, REQUEST_RESOLV}"
proof -
  show ?thesis
    using assms by (auto simp: request_read_def Let_def elim!: bind_res_InrE
        dest!: recv_into_quiet request_process_next split: if_splits prod.splits)
      (erule (2) stays_from_put [OF quiet_stays], simp)+
qed

lemma request_resolv_done_next:
  assumes "request_resolv_done key (s, w) = Inr (t, s', w')" and "ATTACHMENT key = Inr a"
  shows "stays a w w' \<and> t \<in> {ERROR, REQUEST_CONNECTING, REQUEST_WRITE}"
  using assms by (auto simp: request_resolv_done_def elim!: bind_res_InrE 
      dest!: start_connect_next set_final_addr_current split: list.splits)

lemma request_connecting_reply_next:
  "request_connecting_reply key a (s, w) = Inr (t, s', w') \<Longrightarrow>
   stays a w w' \<and> t \<in> {ERROR, REQUEST_WRITE}"
  by (auto simp: request_connecting_reply_def Let_def elim!: bind_res_InrE
      split: if_splits)

lemma request_connecting_next:
  assumes "request_connecting key (s, w) = Inr (t, s', w')" and "ATTACHMENT key = Inr a"
  shows "stays a w w' \<and> t \<in> {ERROR, REQUEST_CONNECTING, REQUEST_WRITE}"
  using assms
  by (auto simp: request_connecting_def Let_def elim!: bind_res_InrE
      dest!: next_answer_quiet log_conn_quiet quiet_stays [where a = a] request_connecting_reply_next
        start_connect_next next_ip_current split: if_splits answer.splits)
    ((erule (3) stays_from_put2 | erule (2) stays_from_put), simp)+

lemma request_write_next:
  assumes "request_write key (s, w) = Inr (t, s', w')" and "ATTACHMENT key = Inr a"
  shows "stays a w w' \<and> t \<in> {REQUEST_WRITE, COPY, DONE, ERROR}"
  using assms by (auto simp: request_write_def Let_def quiet_stays elim!: bind_res_InrE
      dest!: send_from_quiet split: if_splits)

end
