(* ===== verification/Socks5Copy.thy ===== *)
theory Socks5Copy
  imports World
begin

text \<open>
  The state in which bytes are copied between the client and the destination,
  \<^verbatim>\<open>src/socks5_copy.c\<close>. What is read from the client goes to \<open>read_buffer\<close> and is written to
  the destination from there, and the other way round with \<open>write_buffer\<close>.
\<close>

section \<open>Operations\<close>

definition copy_init :: "key \<Rightarrow> nat \<Rightarrow> st \<Rightarrow> st result" where
  "copy_init key state = (\<lambda>(s, w).
     bind_res (ATTACHMENT key) (\<lambda>a.
     bind_res (get_socks a w) (\<lambda>o5.
     let client = \<lparr>cd_fd = Client_fd, cd_rb = Read_buffer, cd_wb = Write_buffer,
                   cd_interest = OP_READ OR OP_WRITE, cd_other_copy = Server_side\<rparr>;
         server = \<lparr>cd_fd = Final_server_fd, cd_rb = Write_buffer, cd_wb = Read_buffer,
                   cd_interest = OP_READ OR OP_WRITE, cd_other_copy = Client_side\<rparr> in
     Inr (s, put_socks a (o5\<lparr>s5_client_data := CD_copy client, s5_server_data := SD_copy server\<rparr>) w))))"

text \<open>What a pointer to one of the two \<open>copy_data\<close> reads and writes.\<close>

fun copy_of :: "side \<Rightarrow> socks5 \<Rightarrow> copy_data result" where
  "copy_of Client_side o5 = client_copy_of (s5_client_data o5)"
| "copy_of Server_side o5 = server_copy_of (s5_server_data o5)"

fun set_copy :: "side \<Rightarrow> copy_data \<Rightarrow> socks5 \<Rightarrow> socks5" where
  "set_copy Client_side d o5 = o5\<lparr>s5_client_data := CD_copy d\<rparr>"
| "set_copy Server_side d o5 = o5\<lparr>s5_server_data := SD_copy d\<rparr>"

text \<open>-1 is 255 in the byte of the model; no caller looks at the result.\<close>

definition copy_determine_interests :: "sel \<Rightarrow> socks5 \<Rightarrow> copy_data \<Rightarrow> (fd_interest \<times> sel) result" where
  "copy_determine_interests s o5 data =
     (let ret = OP_NOOP;
          ret = (if cd_interest data AND OP_READ \<noteq> 0 \<and> buffer_can_write (buf (cd_rb data) o5)
                 then ret OR OP_READ else ret);
          ret = (if cd_interest data AND OP_WRITE \<noteq> 0 \<and> buffer_can_read (buf (cd_wb data) o5)
                 then ret OR OP_WRITE else ret) in
      bind_res (selector_set_interest s (fd_of (cd_fd data) o5) ret) (\<lambda>(ss, s).
      Inr (if ss \<noteq> SELECTOR_SUCCESS then -1 else ret, s)))"

text \<open>The pointer, and \<open>is_client\<close>.\<close>

definition get_copy_data :: "key \<Rightarrow> socks5 \<Rightarrow> (side \<times> bool) result" where
  "get_copy_data key o5 =
     bind_res (copy_of Client_side o5) (\<lambda>client_copy.
     if k_fd key = fd_of (cd_fd client_copy) o5 then Inr (Client_side, True)
     else Inr (cd_other_copy client_copy, False))"

text \<open>\<open>pop3sniff\<close> on the object and the global list.\<close>

definition sniff_data :: "nat \<Rightarrow> u8 list \<Rightarrow> world \<Rightarrow> world result" where
  "sniff_data a bs w =
     bind_res (get_socks a w) (\<lambda>o5.
     bind_res (sys_memory w) (\<lambda>(mem, w).
     bind_res (pop3sniff mem (w_config w) bs a (s5_sniffer o5) (w_sniffed w)) (\<lambda>(sn, l).
     Inr (put_socks a (o5\<lparr>s5_sniffer := sn\<rparr>) (w\<lparr>w_sniffed := l\<rparr>)))))"

text \<open>
  The end of a direction: \<open>op\<close> is dropped from the interest of the side that was used, \<open>op'\<close> from the
  other one's. \<open>shut\<close> and \<open>shut'\<close> are the two calls of \<open>shutdown\<close>.
\<close>

definition copy_end ::
  "nat \<Rightarrow> side \<Rightarrow> fd_interest \<Rightarrow> (int \<Rightarrow> event) \<Rightarrow> fd_interest \<Rightarrow> (int \<Rightarrow> event) \<Rightarrow> world \<Rightarrow> world result"
  where
  "copy_end a sd op shut op' shut' w =
     bind_res (get_socks a w) (\<lambda>o5.
     bind_res (copy_of sd o5) (\<lambda>data.
     let w = emit (shut (fd_of (cd_fd data) o5)) w;
         o5 = set_copy sd (data\<lparr>cd_interest := cd_interest data AND NOT op\<rparr>) (o5\<lparr>s5_status := status_close\<rparr>) in
     bind_res (copy_of (cd_other_copy data) o5) (\<lambda>other.
     if fd_of (cd_fd other) o5 \<noteq> -1 then
       Inr (put_socks a (set_copy (cd_other_copy data) (other\<lparr>cd_interest := cd_interest other AND NOT op'\<rparr>) o5)
              (emit (shut' (fd_of (cd_fd other) o5)) w))
     else Inr (put_socks a o5 w))))"

text \<open>The common end of both handlers; \<open>ret\<close> is the state so far.\<close>

definition copy_finish :: "nat \<Rightarrow> side \<Rightarrow> nat \<Rightarrow> st \<Rightarrow> (nat \<times> st) result" where
  "copy_finish a sd ret = (\<lambda>(s, w).
     bind_res (get_socks a w) (\<lambda>o5.
     bind_res (copy_of sd o5) (\<lambda>data.
     bind_res (copy_determine_interests s o5 data) (\<lambda>(_, s).
     bind_res (copy_of (cd_other_copy data) o5) (\<lambda>other.
     bind_res (copy_determine_interests s o5 other) (\<lambda>(_, s).
     Inr (if cd_interest data = OP_NOOP then DONE else ret, s, w)))))))"

definition copy_read :: "key \<Rightarrow> st \<Rightarrow> (nat \<times> st) result" where
  "copy_read key = (\<lambda>(s, w).
     bind_res (ATTACHMENT key) (\<lambda>a.
     bind_res (get_socks a w) (\<lambda>o5.
     bind_res (get_copy_data key o5) (\<lambda>(sd, is_client).
     bind_res (copy_of sd o5) (\<lambda>data.
     bind_res (recv_into (buf (cd_rb data) o5) w) (\<lambda>(bs, n, b, w).
     let w = put_socks a (set_buf (cd_rb data) b o5) w in
     if 0 < n then
       bind_res (buffer_write_adv b n) (\<lambda>b.
       let w = put_socks a (set_buf (cd_rb data) b o5) w;
           w = (if is_client then w\<lparr>w_metrics := add_sent_byte n (w_metrics w)\<rparr> else w) in
       bind_res (sniff_data a bs w) (\<lambda>w. copy_finish a sd COPY (s, w)))
     else
       bind_res (copy_end a sd OP_READ ShutRead OP_WRITE ShutWrite w) (\<lambda>w.
       copy_finish a sd DONE (s, w))))))))"

definition copy_write :: "key \<Rightarrow> st \<Rightarrow> (nat \<times> st) result" where
  "copy_write key = (\<lambda>(s, w).
     bind_res (ATTACHMENT key) (\<lambda>a.
     bind_res (get_socks a w) (\<lambda>o5.
     bind_res (get_copy_data key o5) (\<lambda>(sd, is_client).
     bind_res (copy_of sd o5) (\<lambda>data.
     bind_res (send_from (k_fd key) (buf (cd_wb data) o5) w) (\<lambda>(bs, n, w).
     if 0 \<le> n then
       bind_res (buffer_read_adv (buf (cd_wb data) o5) n) (\<lambda>b.
       let w = put_socks a (set_buf (cd_wb data) b o5) w;
           w = (if is_client then w\<lparr>w_metrics := add_received_bytes n (w_metrics w)\<rparr> else w) in
       bind_res (sniff_data a bs w) (\<lambda>w. copy_finish a sd COPY (s, w)))
     else
       bind_res (copy_end a sd OP_WRITE ShutWrite OP_READ ShutRead w) (\<lambda>w.
       copy_finish a sd DONE (s, w))))))))"

section \<open>The states that follow\<close>

lemma set_copy_current [simp]: "s5_stm_current (set_copy sd d o5) = s5_stm_current o5"
  by (cases sd) auto

lemma sniff_data_stays: "sniff_data a bs w = Inr w' \<Longrightarrow> stays a w w'"
  by (auto simp: sniff_data_def stays_simps elim!: bind_res_InrE dest!: sys_memory_quiet)

lemma copy_end_stays: "copy_end a sd op shut op' shut' w = Inr w' \<Longrightarrow> stays a w w'"
  by (auto simp: copy_end_def Let_def stays_simps emit_def elim!: bind_res_InrE split: if_splits)

lemma copy_finish_next: "copy_finish a sd ret (s, w) = Inr (t, s', w') \<Longrightarrow> w' = w \<and> t \<in> {ret, DONE}"
  by (auto simp: copy_finish_def elim!: bind_res_InrE split: if_splits)

lemma copy_read_next:
  assumes "copy_read key (s, w) = Inr (t, s', w')" and "ATTACHMENT key = Inr a"
  shows "stays a w w' \<and> t \<in> {COPY, DONE}"
  using assms
  by (auto simp: copy_read_def Let_def elim!: bind_res_InrE
      dest!: recv_into_quiet quiet_stays [where a = a] sniff_data_stays copy_end_stays copy_finish_next
      split: if_splits)
    (erule (2) stays_from_put, simp)+

lemma copy_write_next:
  assumes "copy_write key (s, w) = Inr (t, s', w')" and "ATTACHMENT key = Inr a"
  shows "stays a w w' \<and> t \<in> {COPY, DONE}"
  using assms
  by (auto simp: copy_write_def Let_def elim!: bind_res_InrE
      dest!: send_from_quiet quiet_stays [where a = a] sniff_data_stays copy_end_stays copy_finish_next
      split: if_splits)
    ((erule (1) stays_trans | erule (2) stays_from_put, simp))+

end
