(* ===== verification/Socks5.thy ===== *)
theory Socks5
  imports Socks5Hello Socks5Auth Socks5Request Socks5Copy
begin

text \<open>
  The connection as a whole, \<^verbatim>\<open>src/socks5.c\<close>: the table of its states, how it is accepted, how
  the events of the selector reach the engine, and how it ends.
\<close>

section \<open>The state machine\<close>

text \<open>\<open>socks_state_definition\<close> depends on the key the engine is called with.\<close>

definition socks_state_definition :: "key \<Rightarrow> st state_definition list" where
  "socks_state_definition key =
     [(bare_state HELLO_READ)\<lparr>sd_on_arrival := Some (hello_read_init key),
        sd_on_read_ready := Some (hello_read key)\<rparr>,
      (bare_state HELLO_WRITE)\<lparr>sd_on_write_ready := Some (hello_write key)\<rparr>,
      (bare_state AUTH_READ)\<lparr>sd_on_arrival := Some (auth_read_init key),
        sd_on_read_ready := Some (auth_read key)\<rparr>,
      (bare_state AUTH_WRITE)\<lparr>sd_on_write_ready := Some (auth_write key)\<rparr>,
      (bare_state REQUEST_READ)\<lparr>sd_on_arrival := Some (request_init key),
        sd_on_read_ready := Some (request_read key)\<rparr>,
      (bare_state REQUEST_RESOLV)\<lparr>sd_on_block_ready := Some (request_resolv_done key)\<rparr>,
      (bare_state REQUEST_CONNECTING)\<lparr>sd_on_arrival := Some (request_connecting_init key),
        sd_on_write_ready := Some (request_connecting key)\<rparr>,
      (bare_state REQUEST_WRITE)\<lparr>sd_on_write_ready := Some (request_write key)\<rparr>,
      (bare_state COPY)\<lparr>sd_on_arrival := Some (copy_init key),
        sd_on_read_ready := Some (copy_read key), sd_on_write_ready := Some (copy_write key)\<rparr>,
      bare_state DONE,
      bare_state ERROR]"

text \<open>The member \<open>current\<close> of the object that the key belongs to.\<close>

definition socks_current :: "key \<Rightarrow> st stm_store" where
  "socks_current key =
     \<lparr>get_current = (\<lambda>(s, w).
        bind_res (ATTACHMENT key) (\<lambda>a. bind_res (get_socks a w) (\<lambda>o5. Inr (s5_stm_current o5)))),
      set_current = (\<lambda>c (s, w).
        bind_res (ATTACHMENT key) (\<lambda>a. bind_res (get_socks a w) (\<lambda>o5.
        Inr (s, put_socks a (o5\<lparr>s5_stm_current := c\<rparr>) w))))\<rparr>"

definition socks_stm :: "key \<Rightarrow> st state_machine" where
  "socks_stm key = \<lparr>stm_initial = HELLO_READ, stm_states = socks_state_definition key,
     stm_max_state = ERROR, stm_current = socks_current key\<rparr>"

section \<open>A new connection\<close>

text \<open>
  \<open>None\<close> when there is no memory for the object; the results of the two \<open>malloc\<close> for the arrays are
  not looked at. The members that are not written keep what the memory holds.
\<close>

definition socks5_new :: "int \<Rightarrow> u8 list \<Rightarrow> st \<Rightarrow> (nat option \<times> st) result" where
  "socks5_new client addr = (\<lambda>(s, w).
     bind_res (next_answer w) (\<lambda>(x, w).
     case x of
       NoMemory \<Rightarrow> Inr (None, s, w)
     | NewSocks junk \<Rightarrow>
         let a = w_next w; sz = get_socks_buffer_size (w_config w);
             w = put_socks a (junk\<lparr>s5_stm_current := Some HELLO_READ\<rparr>) (w\<lparr>w_next := a + 1\<rparr>) in
         bind_res (stm_init (socks_stm \<lparr>k_fd = client, k_data = Some (Socks_at a)\<rparr>)
           (s, w)) (\<lambda>(s, w).
         bind_res (sys_bytes (unat sz) w) (\<lambda>(raw_a, w).
         bind_res (sys_bytes (unat sz) w) (\<lambda>(raw_b, w).
         bind_res (get_socks a w) (\<lambda>o5.
         bind_res (store_range (s5_client_addr o5) 0 addr) (\<lambda>client_addr.
         let o5 = o5\<lparr>s5_write_buffer := buffer_init (unat (sz + 1)) raw_a,
                     s5_read_buffer := buffer_init (unat (sz + 1)) raw_b,
                     s5_client_fd := client, s5_final_server_fd := -1,
                     s5_client_addr := client_addr, s5_client_addr_len := length addr, s5_toFree := 0,
                     s5_server_resolution := [], s5_current_server_resolution := []\<rparr> in
         Inr (Some a, s, put_socks a o5 w))))))
     | _ \<Rightarrow> Inl NoAnswer))"

text \<open>The label \<open>finally\<close> with \<open>err = 1\<close>: \<open>free(socks)\<close> does not release the arrays.\<close>

definition accept_failed :: "int \<Rightarrow> nat option \<Rightarrow> st \<Rightarrow> st" where
  "accept_failed client socks = (\<lambda>(s, w).
     let w = emit (Closed_fd client) w in
     (s, case socks of None \<Rightarrow> w | Some a \<Rightarrow> w\<lparr>w_socks := (w_socks w)(a := None)\<rparr>))"

definition socks5_passive_accept :: "key \<Rightarrow> st \<Rightarrow> st result" where
  "socks5_passive_accept key = (\<lambda>(s, w).
     bind_res (next_answer w) (\<lambda>(x, w).
     case x of
       AcceptFails \<Rightarrow> Inr (accept_failed (-1) None (s, w))
     | Accepted client addr \<Rightarrow>
         bind_res (socks5_new client addr (s, w)) (\<lambda>(socks, s, w).
         case socks of
           None \<Rightarrow> Inr (accept_failed client None (s, w))
         | Some a \<Rightarrow>
             bind_res (get_socks a w) (\<lambda>o5.
             if MAX_CONNECTIONS - 1 < sint (get_current_conn (w_metrics w)) then
               bind_res (log_conn a status_connection_refused
                 (put_socks a (o5\<lparr>s5_status := status_connection_refused\<rparr>) w)) (\<lambda>w.
               Inr (accept_failed client (Some a) (s, w)))
             else
               let w = w\<lparr>w_metrics := add_connecting_clients (w_metrics w)\<rparr>;
                   w = put_socks a (o5\<lparr>s5_status := status_connecting\<rparr>) w in
               bind_res (selector_fd_set_nio w) (\<lambda>(good, w).
               if \<not> good then Inr (accept_failed client (Some a) (s, w))
               else
                 bind_res (selector_register False zero_item s client (Some H_socks5) OP_READ
                   (Some (Socks_at a))) (\<lambda>(ss, s).
                 if ss \<noteq> SELECTOR_SUCCESS then Inr (accept_failed client (Some a) (s, w))
                 else Inr (s, w)))))
     | _ \<Rightarrow> Inl NoAnswer))"

section \<open>The end of a connection\<close>

text \<open>The loop over the two descriptors; \<open>close(-1)\<close> is called like the others.\<close>

fun unregister_all :: "int list \<Rightarrow> st \<Rightarrow> st result" where
  "unregister_all [] st = Inr st"
| "unregister_all (fd # fds) st =
     bind_res (if fd \<noteq> -1 then
                 bind_res (selector_unregister_fd close_handler fd st) (\<lambda>(_, st). Inr st)
               else Inr st) (\<lambda>(s, w).
     unregister_all fds (s, emit (Closed_fd fd) w))"

definition socks5_done :: "key \<Rightarrow> st \<Rightarrow> st result" where
  "socks5_done key = (\<lambda>(s, w).
     bind_res (ATTACHMENT key) (\<lambda>a.
     bind_res (get_socks a w) (\<lambda>o5.
     let w = (if s5_status o5 = status_close then
                let (m, err) = end_connection (w_metrics w); w = w\<lparr>w_metrics := m\<rparr> in
                if err then emit LoggedError w else w
              else w) in
     bind_res (log_conn a (s5_status o5) w) (\<lambda>w.
     let w = w\<lparr>w_metrics := end_connecting_clients (w_metrics w)\<rparr> in
     unregister_all [s5_client_fd o5, s5_final_server_fd o5] (s, w)))))"

section \<open>The handlers of the selector\<close>

definition socks5_ready :: "(nat \<times> st) result \<Rightarrow> key \<Rightarrow> st result" where
  "socks5_ready r key =
     bind_res r (\<lambda>(st, sw). if st = ERROR \<or> st = DONE then socks5_done key sw else Inr sw)"

definition socks5_read :: "key \<Rightarrow> st \<Rightarrow> st result" where
  "socks5_read key sw = socks5_ready (stm_handler_read (socks_stm key) sw) key"

definition socks5_write :: "key \<Rightarrow> st \<Rightarrow> st result" where
  "socks5_write key sw = socks5_ready (stm_handler_write (socks_stm key) sw) key"

definition socks5_block :: "key \<Rightarrow> st \<Rightarrow> st result" where
  "socks5_block key sw = socks5_ready (stm_handler_block (socks_stm key) sw) key"

definition socks5_passive_handler :: "(hname, object, world) fd_handler" where
  "socks5_passive_handler = \<lparr>handle_read = Some socks5_passive_accept, handle_write = None,
     handle_block = None, handle_close = None\<rparr>"

definition socks5_handler :: "(hname, object, world) fd_handler" where
  "socks5_handler = \<lparr>handle_read = Some socks5_read, handle_write = Some socks5_write,
     handle_block = Some socks5_block, handle_close = Some socks5_close\<rparr>"

section \<open>The way to a request leads through a login\<close>

text \<open>
  What holds of the object of \<open>key\<close> in state \<open>n\<close>, and when the machine is about to arrive there, as
  long as authentication is enabled.
\<close>

definition past_login :: "nat \<Rightarrow> bool" where
  "past_login n \<longleftrightarrow> n \<in> {REQUEST_READ, REQUEST_RESOLV, REQUEST_CONNECTING, REQUEST_WRITE, COPY}"

definition gate :: "key \<Rightarrow> nat \<Rightarrow> st \<Rightarrow> bool" where
  "gate key n = (\<lambda>(s, w). \<forall>a. ATTACHMENT key = Inr a \<longrightarrow> is_auth_enabled (w_config w) \<and>
     (n = AUTH_WRITE \<longrightarrow> auth_checked a w) \<and> (past_login n \<longrightarrow> logged_in a w))"

lemma past_login_simps [simp]:
  "past_login REQUEST_READ" "past_login REQUEST_RESOLV" "past_login REQUEST_CONNECTING"
  "past_login REQUEST_WRITE" "past_login COPY" "\<not> past_login HELLO_READ" "\<not> past_login HELLO_WRITE"
  "\<not> past_login AUTH_READ" "\<not> past_login AUTH_WRITE" "\<not> past_login DONE" "\<not> past_login ERROR"
  by (simp_all add: past_login_def socks_state_defs)

lemmas state_distinct = past_login_def socks_state_defs

lemma socks_stm_simps [simp]:
  "stm_max_state (socks_stm key) = ERROR" "stm_initial (socks_stm key) = HELLO_READ"
  "stm_states (socks_stm key) = socks_state_definition key"
  "stm_current (socks_stm key) = socks_current key"
  by (simp_all add: socks_stm_def)

text \<open>The functions of a state of the table, by its number.\<close>

lemma socks_state_cases:
  assumes "n \<le> ERROR"
  obtains "n = HELLO_READ" | "n = HELLO_WRITE" | "n = AUTH_READ" | "n = AUTH_WRITE" | "n = REQUEST_READ"
    | "n = REQUEST_RESOLV" | "n = REQUEST_CONNECTING" | "n = REQUEST_WRITE" | "n = COPY" | "n = DONE"
    | "n = ERROR"
proof -
  from assms have "n = 0 \<or> n = 1 \<or> n = 2 \<or> n = 3 \<or> n = 4 \<or> n = 5 \<or> n = 6 \<or> n = 7 \<or> n = 8 \<or> n = 9 \<or>
      n = 10"
    by (simp add: socks_state_defs eval_nat_numeral le_Suc_eq disj_ac)
  with that show ?thesis
    unfolding socks_state_defs by blast
qed

lemma socks_state_row [simp]:
  "socks_state_definition key ! HELLO_READ = (bare_state HELLO_READ)\<lparr>
     sd_on_arrival := Some (hello_read_init key), sd_on_read_ready := Some (hello_read key)\<rparr>"
  "socks_state_definition key ! HELLO_WRITE =
     (bare_state HELLO_WRITE)\<lparr>sd_on_write_ready := Some (hello_write key)\<rparr>"
  "socks_state_definition key ! AUTH_READ = (bare_state AUTH_READ)\<lparr>
     sd_on_arrival := Some (auth_read_init key), sd_on_read_ready := Some (auth_read key)\<rparr>"
  "socks_state_definition key ! AUTH_WRITE =
     (bare_state AUTH_WRITE)\<lparr>sd_on_write_ready := Some (auth_write key)\<rparr>"
  "socks_state_definition key ! REQUEST_READ = (bare_state REQUEST_READ)\<lparr>
     sd_on_arrival := Some (request_init key), sd_on_read_ready := Some (request_read key)\<rparr>"
  "socks_state_definition key ! REQUEST_RESOLV =
     (bare_state REQUEST_RESOLV)\<lparr>sd_on_block_ready := Some (request_resolv_done key)\<rparr>"
  "socks_state_definition key ! REQUEST_CONNECTING = (bare_state REQUEST_CONNECTING)\<lparr>
     sd_on_arrival := Some (request_connecting_init key), sd_on_write_ready := Some (request_connecting key)\<rparr>"
  "socks_state_definition key ! REQUEST_WRITE =
     (bare_state REQUEST_WRITE)\<lparr>sd_on_write_ready := Some (request_write key)\<rparr>"
  "socks_state_definition key ! COPY = (bare_state COPY)\<lparr>sd_on_arrival := Some (copy_init key),
     sd_on_read_ready := Some (copy_read key), sd_on_write_ready := Some (copy_write key)\<rparr>"
  "socks_state_definition key ! DONE = bare_state DONE"
  "socks_state_definition key ! ERROR = bare_state ERROR"
  by (simp_all add: socks_state_definition_def socks_state_defs)

lemma socks_table: "stm_table_ok (socks_stm key)"
proof -
  have "sd_state (socks_state_definition key ! n) = n" if "n \<le> ERROR" for n
    using that by (cases rule: socks_state_cases) auto
  then show ?thesis
    by (auto simp: stm_table_ok_def socks_state_definition_def socks_state_defs)
qed

lemma socks_arrival_cases:
  assumes "n \<le> ERROR" and "sd_on_arrival (socks_state_definition key ! n) = Some f"
  shows "f = hello_read_init key \<and> n = HELLO_READ \<or> f = auth_read_init key \<and> n = AUTH_READ \<or>
    f = request_init key \<and> n = REQUEST_READ \<or> f = request_connecting_init key \<and> n = REQUEST_CONNECTING \<or>
    f = copy_init key \<and> n = COPY"
  using assms by (cases rule: socks_state_cases) auto

lemma socks_departure: "n \<le> ERROR \<Longrightarrow> sd_on_departure (socks_state_definition key ! n) = None"
  by (cases rule: socks_state_cases) auto

lemma socks_ready_cases:
  assumes "n \<le> ERROR" and "sd_on_read_ready (socks_state_definition key ! n) = Some f \<or>
      sd_on_write_ready (socks_state_definition key ! n) = Some f \<or>
      sd_on_block_ready (socks_state_definition key ! n) = Some f"
  shows "f = hello_read key \<and> n = HELLO_READ \<or> f = hello_write key \<and> n = HELLO_WRITE \<or>
    f = auth_read key \<and> n = AUTH_READ \<or> f = auth_write key \<and> n = AUTH_WRITE \<or>
    f = request_read key \<and> n = REQUEST_READ \<or> f = request_resolv_done key \<and> n = REQUEST_RESOLV \<or>
    f = request_connecting key \<and> n = REQUEST_CONNECTING \<or> f = request_write key \<and> n = REQUEST_WRITE \<or>
    (f = copy_read key \<or> f = copy_write key) \<and> n = COPY"
  using assms by (cases rule: socks_state_cases) auto

lemma socks_load: "n \<le> ERROR \<Longrightarrow> load_at (socks_state_definition key) n = Inr (socks_state_definition key ! n)"
  by (simp add: load_at_def socks_state_definition_def socks_state_defs)

lemma get_current_socks:
  "get_current (socks_current key) (s, w) = Inr c \<longleftrightarrow>
   (\<exists>a o5. ATTACHMENT key = Inr a \<and> w_socks w a = Some o5 \<and> s5_stm_current o5 = c)"
  by (auto simp: socks_current_def bind_res_Inr_iff)

lemma gate_stays:
  assumes "gate key n (s, w)" and "ATTACHMENT key = Inr a" and "stays a w w'"
    and "t = AUTH_WRITE \<Longrightarrow> auth_checked a w'" and "past_login t \<Longrightarrow> past_login n \<or> logged_in a w'"
  shows "gate key t (s', w')"
  using assms logged_in_stays [of a w w'] by (auto simp: gate_def stays_def)

lemma init_keeps_gate:
  assumes "f (s, w) = Inr (s', w')" and "gate key n (s, w)"
    and "f = hello_read_init key n \<and> n = HELLO_READ \<or> f = auth_read_init key n \<and> n = AUTH_READ \<or>
      f = request_init key n \<and> n = REQUEST_READ \<or>
      f = request_connecting_init key n \<and> n = REQUEST_CONNECTING \<or> f = copy_init key n \<and> n = COPY"
  shows "gate key n (s', w') \<and> get_current (socks_current key) (s', w') = get_current (socks_current key) (s, w)"
proof -
  have "\<exists>a o5 o5'. ATTACHMENT key = Inr a \<and> w_socks w a = Some o5 \<and> w' = put_socks a o5' w \<and>
      s5_stm_current o5' = s5_stm_current o5"
    using assms(1,3) by (auto simp: hello_read_init_def auth_read_init_def request_init_def
        request_connecting_init_def copy_init_def Let_def elim!: bind_res_InrE)
      (rule exI, rule conjI, rule refl, simp)+
  moreover have "n \<noteq> AUTH_WRITE"
    using assms(3) by (auto simp: socks_state_defs)
  ultimately show ?thesis
    using assms(2) by (auto simp: gate_def socks_current_def get_socks_def put_socks_def logged_in_def)
qed

lemma ready_keeps_gate:
  assumes n: "n \<le> ERROR" and gate: "gate key n (s, w)" and a: "ATTACHMENT key = Inr a"
    and ready: "sd_on_read_ready (socks_state_definition key ! n) = Some f \<or>
      sd_on_write_ready (socks_state_definition key ! n) = Some f \<or>
      sd_on_block_ready (socks_state_definition key ! n) = Some f"
    and run: "f (s, w) = Inr (t, s', w')"
  shows "gate key t (s', w') \<and> stays a w w'"
proof -
  from gate a have "is_auth_enabled (w_config w)" and checked: "n = AUTH_WRITE \<Longrightarrow> auth_checked a w"
    by (auto simp: gate_def)
  note next_state = hello_read_next [OF _ a] hello_write_next [OF _ a] auth_read_next [OF _ a]
    auth_write_next [OF _ a checked] request_read_next [OF _ a] request_resolv_done_next [OF _ a]
    request_connecting_next [OF _ a] request_write_next [OF _ a] copy_read_next [OF _ a]
    copy_write_next [OF _ a]
  have "stays a w w' \<and> (t = AUTH_WRITE \<longrightarrow> auth_checked a w') \<and>
      (past_login t \<longrightarrow> past_login n \<or> logged_in a w')"
    using socks_ready_cases [OF n ready] run \<open>is_auth_enabled (w_config w)\<close>
    by (elim disjE conjE; simp) (use next_state in \<open>fastforce simp: state_distinct\<close>)+
  with gate_stays [OF gate a] show ?thesis
    by blast
qed

interpretation socks: stm_user "socks_stm key" "gate key" "gate key" for key
proof unfold_locales
  show "stm_table_ok (socks_stm key)"
    by (rule socks_table)
next
  fix c w w'
  assume "set_current (stm_current (socks_stm key)) c w = Inr w'"
  then show "get_current (stm_current (socks_stm key)) w' = Inr c"
    by (cases w) (auto simp: socks_current_def get_socks_def put_socks_def elim!: bind_res_InrE split: option.splits)
next
  fix c w w' s
  assume "set_current (stm_current (socks_stm key)) c w = Inr w'" "gate key s w"
  then show "gate key s w'"
    by (cases w) (auto simp: socks_current_def gate_def auth_checked_def logged_in_def put_socks_def
        elim!: bind_res_InrE)
next
  fix s w w'
  assume s: "s \<le> stm_max_state (socks_stm key)" and g: "gate key s w"
    and call: "call_arrival (socks_stm key) s w = Inr w'"
  show "gate key s w' \<and> get_current (stm_current (socks_stm key)) w' = get_current (stm_current (socks_stm key)) w"
  proof (cases "sd_on_arrival (socks_state_definition key ! s)")
    case None
    with call g s show ?thesis
      by (auto simp: call_arrival_def socks_load elim!: bind_res_InrE)
  next
    case (Some f)
    have "sd_state (socks_state_definition key ! s) = s"
      using socks_table [of key] s by (simp add: stm_table_ok_def)
    with Some call s have "f s w = Inr w'"
      by (auto simp: call_arrival_def socks_load)
    then show ?thesis
      using init_keeps_gate [of "f s" "fst w" "snd w" "fst w'" "snd w'" key s] g s
        socks_arrival_cases [OF _ Some] by auto
  qed
next
  fix s t w w'
  assume "s \<le> stm_max_state (socks_stm key)" "gate key t w" "call_departure (socks_stm key) s w = Inr w'"
  then show "gate key t w'"
    by (auto simp: call_departure_def socks_departure socks_load)
next
  fix s w f t w' c
  assume s: "s \<le> stm_max_state (socks_stm key)" and g: "gate key s w"
    and cur: "get_current (stm_current (socks_stm key)) w = Inr (Some s)"
    and f: "sd_on_read_ready (stm_states (socks_stm key) ! s) = Some f \<or>
      sd_on_write_ready (stm_states (socks_stm key) ! s) = Some f \<or>
      sd_on_block_ready (stm_states (socks_stm key) ! s) = Some f"
    and run: "f w = Inr (t, w')" and cur': "get_current (stm_current (socks_stm key)) w' = Inr c"
  obtain a where a: "ATTACHMENT key = Inr a"
    using cur by (cases w) (auto simp: get_current_socks)
  obtain s1 w1 s2 w2 where ww: "w = (s1, w1)" "w' = (s2, w2)"
    by (cases w; cases w')
  have "gate key t (s2, w2) \<and> stays a w1 w2"
    by (rule ready_keeps_gate [of s key s1 w1 a f t s2 w2]) (use s g f run a ww in \<open>simp_all only: socks_stm_simps\<close>)
  with cur cur' a ww show "c = Some s \<and> (if t = s then gate key s w' else gate key t w')"
    by (auto simp: get_current_socks stays_def)
qed

section \<open>Sessions\<close>

text \<open>
  The life of the connection in object \<open>a\<close>, while authentication is enabled: an event of the selector
  reaches its state machine, or something else happens, which may change everything but the machine and the client's data of the object. The
  resolver thread, the other connections and the administrators are of the second kind.
\<close>

datatype readiness = Readable | Writable | Unblocked

fun deliver :: "readiness \<Rightarrow> key \<Rightarrow> st \<Rightarrow> (nat \<times> st) result" where
  "deliver Readable key = stm_handler_read (socks_stm key)"
| "deliver Writable key = stm_handler_write (socks_stm key)"
| "deliver Unblocked key = stm_handler_block (socks_stm key)"

inductive session :: "nat \<Rightarrow> st \<Rightarrow> bool" for a where
  accepted:
    "w_socks w a = Some o5 \<Longrightarrow> s5_stm_current o5 = None \<Longrightarrow> is_auth_enabled (w_config w) \<Longrightarrow>
     session a (s, w)"
| event:
    "session a sw \<Longrightarrow> ATTACHMENT key = Inr a \<Longrightarrow> deliver r key sw = Inr (n, sw') \<Longrightarrow> session a sw'"
| other:
    "session a (s, w) \<Longrightarrow> is_auth_enabled (w_config w') \<Longrightarrow> w_events w' = w_events w @ es \<Longrightarrow>
     (\<And>o5'. w_socks w' a = Some o5' \<Longrightarrow> \<exists>o5. w_socks w a = Some o5 \<and>
        s5_stm_current o5' = s5_stm_current o5 \<and> s5_client_data o5' = s5_client_data o5) \<Longrightarrow>
     session a (s', w')"

lemma inv_gate:
  assumes "ATTACHMENT key = Inr a" and "w_socks w a = Some o5"
  shows "socks.inv key (s, w) \<longleftrightarrow> (case s5_stm_current o5 of
    None \<Rightarrow> gate key HELLO_READ (s, w) | Some n \<Rightarrow> n \<le> ERROR \<and> gate key n (s, w))"
  using assms by (simp add: socks.inv_def socks_current_def get_socks_def split: option.splits)

lemma gate_other:
  assumes "gate key n (s, w)" and "is_auth_enabled (w_config w')" and "w_events w' = w_events w @ es"
    and "\<And>o5'. w_socks w' a = Some o5' \<Longrightarrow> \<exists>o5. w_socks w a = Some o5 \<and>
        s5_stm_current o5' = s5_stm_current o5 \<and> s5_client_data o5' = s5_client_data o5"
    and "ATTACHMENT key = Inr a"
  shows "gate key n (s', w')"
  using assms(1-3,5) assms(4) by (fastforce simp: gate_def auth_checked_def logged_in_def)

lemma session_inv:
  assumes "session a sw" and "ATTACHMENT key = Inr a" and "w_socks (snd sw) a \<noteq> None"
  shows "socks.inv key sw"
  using assms
proof (induction arbitrary: key rule: session.induct)
  case (accepted w o5 s)
  then have "gate key HELLO_READ (s, w)"
    by (auto simp: gate_def state_distinct)
  with accepted show ?case
    by (simp add: inv_gate)
next
  case (event sw key' r n sw')
  obtain s w s' w' where sw: "sw = (s, w)" "sw' = (s', w')"
    by (cases sw; cases sw')
  obtain on_ready where on_ready: "stm_handler on_ready (socks_stm key') sw = Inr (n, sw')"
      "on_ready = sd_on_read_ready \<or> on_ready = sd_on_write_ready \<or> on_ready = sd_on_block_ready"
    using event.hyps(3) by (cases r)
      (auto simp: stm_handler_read_def stm_handler_write_def stm_handler_block_def)
  then have "w_socks w a \<noteq> None"
    using event.hyps(2) sw by (auto simp: stm_handler_def handle_first_def socks_current_def get_socks_def
        split: option.splits)
  with event.IH [of key'] event.hyps(2) sw have "socks.inv key' sw"
    by simp
  from socks.stm_handler_inv [OF on_ready(2) this on_ready(1)]
  have "n \<le> ERROR" "get_current (socks_current key') sw' = Inr (Some n)" "gate key' n sw'"
    by auto
  moreover from this(3) have "gate key n sw'"
    using event.prems(1) event.hyps(2) by (simp add: gate_def)
  ultimately show ?case
    using event.prems event.hyps(2) sw by (auto simp: inv_gate get_current_socks)
next
  case (other s w w' es s')
  then obtain o5 o5' where o5: "w_socks w a = Some o5" "w_socks w' a = Some o5'"
      "s5_stm_current o5' = s5_stm_current o5" "s5_client_data o5' = s5_client_data o5"
    by fastforce
  with other.IH [of key] other.prems have "socks.inv key (s, w)"
    by simp
  with o5 other.prems(1) show ?case
    using gate_other [OF _ other.hyps(2-4) other.prems(1)] by (auto simp: inv_gate split: option.splits)
qed

text \<open>While authentication is enabled, a connection is in one of the states after the login (it
  reads a request, resolves, connects, replies or copies) only if \<open>checkUser\<close> was called before with
  a name and a password that this connection sent, and answered that they are an account's. That holds
  whatever the selector delivers and whatever the administrators and other connections do.\<close>

theorem request_needs_login:
  assumes "session a (s, w)" and "w_socks w a = Some o5" and "s5_stm_current o5 = Some n"
    and "past_login n"
  shows "\<exists>user pass. Checked a user pass True \<in> set (w_events w)"
proof -
  let ?key = "\<lparr>k_fd = 0, k_data = Some (Socks_at a)\<rparr>"
  have key: "ATTACHMENT ?key = Inr a"
    by (simp add: ATTACHMENT_def)
  have "gate ?key n (s, w)"
    using session_inv [OF assms(1) key] assms(2,3) by (simp add: inv_gate [OF key assms(2)])
  with key assms(4) have "logged_in a w"
    by (simp add: gate_def)
  then show ?thesis
    by (auto simp: logged_in_def list_ex_iff elim!: is_login.elims) blast
qed

section \<open>An example\<close>

text \<open>A connection with descriptor 5 whose object has number 0, as it is after it was accepted.\<close>

definition example_socks :: socks5 where
  "example_socks = \<lparr>s5_client_addr = replicate 128 0, s5_client_addr_len = 16, s5_client_fd = 5,
     s5_server_resolution = [], s5_current_server_resolution = [],
     s5_final_server_addr = replicate 128 0, s5_final_server_len = 0, s5_server_domain = 0,
     s5_final_server_fd = -1, s5_stm_current = None, s5_client_data = CD_none,
     s5_server_data = SD_none, s5_read_buffer = buffer_of 16 [], s5_write_buffer = buffer_of 16 [],
     s5_status = status_connecting, s5_user = replicate 255 0, s5_toFree = 0,
     s5_sniffer = \<lparr>sn_state = pop3_sniffer_initial, sn_username = replicate 255 0,
       sn_passwd = replicate 255 0, sn_read = 0, sn_remaining = 0, sn_check_read = 0,
       sn_check_remaining = 0, sn_buffer = buffer_of 0 []\<rparr>\<rparr>"

definition example_world :: "answer list \<Rightarrow> world" where
  "example_world answers = \<lparr>w_config = example_config,
     w_metrics = \<lparr>m_sent_byte = 0, m_received_bytes = 0, m_historic_connections = 0,
       m_current_connections = 0, m_connecting_clients = 1\<rparr>,
     w_sniffed = \<lparr>l_first = [], l_iteradorNext = [], l_size = 0\<rparr>,
     w_socks = [0 \<mapsto> example_socks], w_mngs = (\<lambda>_. None), w_next = 1, w_threads = [],
     w_answers = answers, w_events = []\<rparr>"

definition example_selector :: sel where
  "example_selector = \<lparr>s_fds = Some (replicate 5 (zero_item\<lparr>it_fd := FD_UNUSED\<rparr>) @
       [\<lparr>it_fd = 5, it_interest = OP_READ, it_handler = Some H_socks5, it_data = Some (Socks_at 0)\<rparr>]),
     s_max_fd = 5, s_master_r = {5}, s_master_w = {}, s_slave_r = {}, s_slave_w = {},
     s_resolution_jobs = []\<rparr>"

definition example_key :: key where
  "example_key = \<lparr>k_fd = 5, k_data = Some (Socks_at 0)\<rparr>"

text \<open>Events in a row.\<close>

fun deliver_all :: "readiness list \<Rightarrow> key \<Rightarrow> st \<Rightarrow> st result" where
  "deliver_all [] key sw = Inr sw"
| "deliver_all (r # rs) key sw =
     bind_res (deliver r key sw) (\<lambda>(_, sw). deliver_all rs key sw)"

lemma session_deliver_all:
  "session a sw \<Longrightarrow> ATTACHMENT key = Inr a \<Longrightarrow> deliver_all rs key sw = Inr sw' \<Longrightarrow> session a sw'"
  by (induction rs arbitrary: sw) (auto elim!: bind_res_InrE intro: session.event)

text \<open>What a run leaves in the object 0, if it returns.\<close>

definition left_in :: "(socks5 \<Rightarrow> world \<Rightarrow> bool) \<Rightarrow> st result \<Rightarrow> bool" where
  "left_in P r = (case r of
     Inl _ \<Rightarrow> False
   | Inr (s, w) \<Rightarrow> (case w_socks w 0 of None \<Rightarrow> False | Some o5 \<Rightarrow> P o5 w))"

lemma left_inE:
  assumes "left_in P r"
  obtains s w o5 where "r = Inr (s, w)" "w_socks w 0 = Some o5" "P o5 w"
  using assms by (auto simp: left_in_def split: sum.splits option.splits)

definition login_answers :: "answer list" where
  "login_answers = [RecvBytes [5, 2, 0, 2], SentBytes 2, RecvBytes [1, 1, 97, 1, 120], SentBytes 2]"

theorem request_needs_login_witness:
  "\<exists>s w o5. deliver_all [Readable, Writable, Readable, Writable] example_key
       (example_selector, example_world login_answers) = Inr (s, w) \<and>
     w_socks w 0 = Some o5 \<and> s5_stm_current o5 = Some REQUEST_READ \<and>
     (\<exists>user pass. Checked 0 user pass True \<in> set (w_events w))"
proof -
  have "left_in (\<lambda>o5 w. s5_stm_current o5 = Some REQUEST_READ)
      (deliver_all [Readable, Writable, Readable, Writable] example_key
        (example_selector, example_world login_answers))"
    by code_simp
  then obtain s w o5 where run: "deliver_all [Readable, Writable, Readable, Writable] example_key
      (example_selector, example_world login_answers) = Inr (s, w)" "w_socks w 0 = Some o5"
      "s5_stm_current o5 = Some REQUEST_READ"
    by (rule left_inE)
  have "session 0 (example_selector, example_world login_answers)"
    by (rule session.accepted [of _ _ example_socks]) code_simp+
  then have "session 0 (s, w)"
    by (rule session_deliver_all [OF _ _ run(1)]) code_simp
  from request_needs_login [OF this run(2,3)] run show ?thesis
    by simp
qed

end
