(* ===== verification/Mng.thy ===== *)
theory Mng
  imports NetUtils
begin

text \<open>
  The states of an administrator's connection, \<^verbatim>\<open>src/mng.c\<close>: the login, the byte that says
  which request follows, the six requests and the replies.
\<close>

section \<open>States\<close>

text \<open>\<open>enum mng_state\<close> and \<open>enum request_actions\<close>.\<close>

definition CONNECT_READ :: nat where "CONNECT_READ = 0"
definition CONNECT_WRITE :: nat where "CONNECT_WRITE = 1"
definition REQUEST :: nat where "REQUEST = 2"
definition REQUEST_GET :: nat where "REQUEST_GET = 3"
definition REQUEST_PUT :: nat where "REQUEST_PUT = 4"
definition REQUEST_EDIT :: nat where "REQUEST_EDIT = 5"
definition REQUEST_BUFFSIZE :: nat where "REQUEST_BUFFSIZE = 6"
definition REQUEST_CONFIGSTATUS :: nat where "REQUEST_CONFIGSTATUS = 7"
definition REQUEST_DELETE :: nat where "REQUEST_DELETE = 8"
definition REPLIES :: nat where "REPLIES = 9"
definition MNG_DONE :: nat where "MNG_DONE = 10"
definition MNG_ERROR :: nat where "MNG_ERROR = 11"

lemmas mng_state_defs =
  CONNECT_READ_def CONNECT_WRITE_def REQUEST_def REQUEST_GET_def REQUEST_PUT_def REQUEST_EDIT_def
  REQUEST_BUFFSIZE_def REQUEST_CONFIGSTATUS_def REQUEST_DELETE_def REPLIES_def MNG_DONE_def MNG_ERROR_def

definition GET :: u8 where "GET = 0x00"
definition PUT :: u8 where "PUT = 0x01"
definition EDIT :: u8 where "EDIT = 0x02"
definition CONFIGBUFFSIZE :: u8 where "CONFIGBUFFSIZE = 0x03"
definition CONFIGSTATUS :: u8 where "CONFIGSTATUS = 0x04"
definition DELETE :: u8 where "DELETE = 0x05"

lemmas request_actions_defs = GET_def PUT_def EDIT_def CONFIGBUFFSIZE_def CONFIGSTATUS_def DELETE_def

text \<open>The members of the union of parsers; reading another one than was written is a fault.\<close>

fun connect_parser :: "mng_parsers \<Rightarrow> admin_connect_parser result" where
  "connect_parser (MP_connect p) = Inr p"
| "connect_parser _ = Inl WrongMember"

fun get_parser :: "mng_parsers \<Rightarrow> admin_get_parser result" where
  "get_parser (MP_get p) = Inr p"
| "get_parser _ = Inl WrongMember"

fun put_parser :: "mng_parsers \<Rightarrow> admin_put_parser result" where
  "put_parser (MP_put p) = Inr p"
| "put_parser _ = Inl WrongMember"

fun edit_parser :: "mng_parsers \<Rightarrow> admin_edit_parser result" where
  "edit_parser (MP_edit p) = Inr p"
| "edit_parser _ = Inl WrongMember"

fun buffsize_parser :: "mng_parsers \<Rightarrow> admin_configbuff_parser result" where
  "buffsize_parser (MP_buff_size p) = Inr p"
| "buffsize_parser _ = Inl WrongMember"

fun configstatus_parser :: "mng_parsers \<Rightarrow> admin_configstatus_parser result" where
  "configstatus_parser (MP_conf_status p) = Inr p"
| "configstatus_parser _ = Inl WrongMember"

fun delete_parser :: "mng_parsers \<Rightarrow> admin_delete_parser result" where
  "delete_parser (MP_delete p) = Inr p"
| "delete_parser _ = Inl WrongMember"

text \<open>
  What the union holds when a state is entered. The \<open>init\<close> functions leave some members as they
  are; each of them is written before it is read.
\<close>

definition blank_connect :: admin_connect_parser where
  "blank_connect = \<lparr>ac_state = admin_connect_version, ac_password = \<lparr>cw_passlen = 0, cw_passwd = []\<rparr>,
     ac_remaining = 0, ac_read = 0, ac_version = 0, ac_status = 0\<rparr>"

definition blank_get :: admin_get_parser where
  "blank_get = \<lparr>ag_state = admin_get_action, ag_option = opt_users, ag_status = 0\<rparr>"

definition blank_put :: admin_put_parser where
  "blank_put = \<lparr>aput_state = admin_put_action, aput_field = 0, aput_action = 0,
     aput_user = \<lparr>pu_userlen = 0, pu_username = []\<rparr>, aput_pass = \<lparr>pu_passlen = 0, pu_passwd = []\<rparr>,
     aput_remaining = 0, aput_read = 0, aput_status = 0\<rparr>"

definition blank_edit :: admin_edit_parser where
  "blank_edit = \<lparr>ae_state = admin_edit_action, ae_ulen = 0, ae_username = replicate 255 0,
     ae_field = 0, ae_action = 0, ae_attr = attr_username, ae_valuelen = 0,
     ae_value = replicate 255 0, ae_remaining = 0, ae_read = 0, ae_status = 0\<rparr>"

definition blank_configbuff :: admin_configbuff_parser where
  "blank_configbuff = \<lparr>ab_state = admin_configbuff_action, ab_size = replicate 4 0, ab_action = 0,
     ab_remaining = 0, ab_read = 0, ab_status = 0\<rparr>"

definition blank_configstatus :: admin_configstatus_parser where
  "blank_configstatus = \<lparr>as_state = admin_configstatus_action, as_action = 0, as_field = 0,
     as_status = 0, as_config_status = 0\<rparr>"

definition blank_delete :: admin_delete_parser where
  "blank_delete = \<lparr>adel_state = admin_delete_action, adel_ulen = 0,
     adel_username = replicate 255 0, adel_field = 0, adel_action = 0, adel_read = 0,
     adel_remaining = 0, adel_status = 0\<rparr>"

section \<open>Initialisation\<close>

definition init_parser :: "mng_parsers \<Rightarrow> key \<Rightarrow> nat \<Rightarrow> st \<Rightarrow> st result" where
  "init_parser p key state = (\<lambda>(s, w).
     bind_res (ATTACH key) (\<lambda>a.
     bind_res (get_mng a w) (\<lambda>m.
     Inr (s, put_mng a (m\<lparr>mg_parsers := p\<rparr>) w))))"

definition mng_connect_read_init :: "key \<Rightarrow> nat \<Rightarrow> st \<Rightarrow> st result" where
  "mng_connect_read_init = init_parser (MP_connect (admin_connect_parser_init blank_connect))"

definition request_get_init :: "key \<Rightarrow> nat \<Rightarrow> st \<Rightarrow> st result" where
  "request_get_init = init_parser (MP_get (admin_get_parser_init blank_get))"

definition request_put_init :: "key \<Rightarrow> nat \<Rightarrow> st \<Rightarrow> st result" where
  "request_put_init = init_parser (MP_put (admin_put_parser_init blank_put))"

definition request_edit_init :: "key \<Rightarrow> nat \<Rightarrow> st \<Rightarrow> st result" where
  "request_edit_init = init_parser (MP_edit (admin_edit_parser_init blank_edit))"

definition request_buffsize_init :: "key \<Rightarrow> nat \<Rightarrow> st \<Rightarrow> st result" where
  "request_buffsize_init = init_parser (MP_buff_size (admin_configbuff_parser_init blank_configbuff))"

definition request_configstatus_init :: "key \<Rightarrow> nat \<Rightarrow> st \<Rightarrow> st result" where
  "request_configstatus_init =
     init_parser (MP_conf_status (admin_configstatus_parser_init blank_configstatus))"

definition request_delete_init :: "key \<Rightarrow> nat \<Rightarrow> st \<Rightarrow> st result" where
  "request_delete_init = init_parser (MP_delete (admin_delete_parser_init blank_delete))"

section \<open>Reading a message\<close>

text \<open>
  The seven handlers that read a message are the same text around the call that acts on it: the
  bytes are received and parsed, and when the parser is done the descriptor's interest becomes
  writing and \<open>act\<close> runs, with the final state of the parser, the parser and the flag \<open>err\<close>.
\<close>

type_synonym 'p mng_act = "nat \<Rightarrow> 'p \<Rightarrow> bool \<Rightarrow> mng \<Rightarrow> world \<Rightarrow> (bool \<times> mng \<times> world) result"

definition mng_receive ::
  "nat \<Rightarrow> nat \<Rightarrow> (mng_parsers \<Rightarrow> 'p result) \<Rightarrow> ('p \<Rightarrow> mng_parsers) \<Rightarrow>
   (buffer \<Rightarrow> 'p \<Rightarrow> bool option \<Rightarrow> ('s \<times> buffer \<times> 'p \<times> bool option) result) \<Rightarrow>
   ('s \<Rightarrow> bool option \<Rightarrow> bool \<times> bool option) \<Rightarrow> 'p mng_act \<Rightarrow> key \<Rightarrow> st \<Rightarrow> (nat \<times> st) result" where
  "mng_receive here after get_member member consume is_done act key = (\<lambda>(s, w).
     bind_res (ATTACH key) (\<lambda>a.
     bind_res (get_mng a w) (\<lambda>m.
     bind_res (recv_into (mg_read_buffer m) w) (\<lambda>(bs, n, b, w).
     let m = m\<lparr>mg_read_buffer := b\<rparr> in
     if n \<le> 0 then Inr (MNG_ERROR, s, put_mng a m w)
     else
       bind_res (get_member (mg_parsers m)) (\<lambda>p.
       bind_res (buffer_write_adv b n) (\<lambda>b.
       bind_res (consume b p (Some False)) (\<lambda>(st, b, p, err).
       let (fin, err) = is_done st err;
           m = m\<lparr>mg_read_buffer := b, mg_parsers := member p\<rparr> in
       if fin then
         bind_res (selector_set_interest_key s key OP_WRITE) (\<lambda>(ss, s).
         if ss \<noteq> SELECTOR_SUCCESS then Inr (MNG_ERROR, s, put_mng a m w)
         else
           bind_res (act a p (err = Some True) m w) (\<lambda>(err, m, w).
           Inr (if err then MNG_ERROR else after, s, put_mng a m w)))
       else Inr (if err = Some True then MNG_ERROR else here, s, put_mng a m w))))))))"

text \<open>
  How the handlers end: the reply is written to the write buffer, a reply that does not fit sets
  \<open>err\<close>.
\<close>

definition mng_answer ::
  "(buffer \<Rightarrow> (int \<times> buffer) result) \<Rightarrow> bool \<Rightarrow> mng \<Rightarrow> world \<Rightarrow> (bool \<times> mng \<times> world) result" where
  "mng_answer marshall err m w =
     bind_res (marshall (mg_write_buffer m)) (\<lambda>(r, b).
     Inr (err \<or> r = -1, m\<lparr>mg_write_buffer := b\<rparr>, w))"

section \<open>CONNECT_READ and CONNECT_WRITE\<close>

text \<open>The event records the call of \<open>checkToken\<close>.\<close>

definition connect_act :: "admin_connect_parser mng_act" where
  "connect_act a p err m w =
     (if ac_state p = admin_connect_done then
        bind_res (checkToken (w_config w) (cw_passwd (ac_password p))) (\<lambda>r.
        let w = emit (TokenChecked a (r \<noteq> 0)) w in
        if r \<noteq> 0 then mng_answer (\<lambda>b. admin_connect_marshall b 0x00) err m w
        else mng_answer (\<lambda>b. admin_connect_marshall b 0x04) err (m\<lparr>mg_status := CLOSE\<rparr>) w)
      else mng_answer (\<lambda>b. admin_connect_marshall b (ac_status p)) err (m\<lparr>mg_status := CLOSE\<rparr>) w)"

definition mng_connect_read :: "key \<Rightarrow> st \<Rightarrow> (nat \<times> st) result" where
  "mng_connect_read =
     mng_receive CONNECT_READ CONNECT_WRITE connect_parser MP_connect admin_connect_consume
       admin_connect_is_done connect_act"

definition mng_connect_write :: "key \<Rightarrow> st \<Rightarrow> (nat \<times> st) result" where
  "mng_connect_write key = (\<lambda>(s, w).
     bind_res (ATTACH key) (\<lambda>a.
     bind_res (get_mng a w) (\<lambda>m.
     bind_res (send_from (k_fd key) (mg_write_buffer m) w) (\<lambda>(bs, n, w).
     if n \<le> 0 then Inr (MNG_ERROR, s, w)
     else
       bind_res (buffer_read_adv (mg_write_buffer m) n) (\<lambda>b.
       let w = put_mng a (m\<lparr>mg_write_buffer := b\<rparr>) w in
       if \<not> buffer_can_read b then
         (if mg_status m \<noteq> CLOSE then
            bind_res (selector_set_interest s (k_fd key) OP_READ) (\<lambda>(ss, s).
            Inr (if ss = SELECTOR_SUCCESS then REQUEST else MNG_ERROR, s, w))
          else Inr (MNG_DONE, s, w))
       else Inr (CONNECT_WRITE, s, w))))))"

section \<open>REQUEST\<close>

text \<open>The state that an action byte leads to; another byte stays in \<open>REQUEST\<close>.\<close>

definition request_state :: "u8 \<Rightarrow> nat" where
  "request_state c =
     (if c = GET then REQUEST_GET
      else if c = PUT then REQUEST_PUT
      else if c = EDIT then REQUEST_EDIT
      else if c = CONFIGBUFFSIZE then REQUEST_BUFFSIZE
      else if c = CONFIGSTATUS then REQUEST_CONFIGSTATUS
      else if c = DELETE then REQUEST_DELETE
      else REQUEST)"

definition mng_request :: "key \<Rightarrow> st \<Rightarrow> (nat \<times> st) result" where
  "mng_request key = (\<lambda>(s, w).
     bind_res (ATTACH key) (\<lambda>a.
     bind_res (get_mng a w) (\<lambda>m.
     let m = m\<lparr>mg_write_buffer := buffer_reset (mg_write_buffer m),
               mg_read_buffer := buffer_reset (mg_read_buffer m)\<rparr>;
         b = mg_read_buffer m in
     bind_res (buffer_write_ptr b) (\<lambda>(ptr, sz).
     if sz < 2 then Inr (MNG_ERROR, s, put_mng a m w)
     else
       bind_res (sys_recv 1 w) (\<lambda>(r, w).
       case r of
         Some [c] \<Rightarrow>
           bind_res (buffer_poke b ptr [c]) (\<lambda>b.
           bind_res (buffer_write_adv b 1) (\<lambda>b.
           Inr (request_state c, s, put_mng a (m\<lparr>mg_read_buffer := b\<rparr>) w)))
       | _ \<Rightarrow> Inr (MNG_ERROR, s, put_mng a m w))))))"

section \<open>The requests\<close>

text \<open>The array \<open>res\<close> on the stack holds what the stack held.\<close>

definition MAX_RES_SIZE :: nat where "MAX_RES_SIZE = 255"

definition stack_bytes :: "nat \<Rightarrow> world \<Rightarrow> (u8 list \<times> world) result" where
  "stack_bytes n w =
     bind_res (next_answer w) (\<lambda>(x, w).
     case x of
       Bytes bs \<Rightarrow> if length bs = n then Inr (bs, w) else Inl NoAnswer
     | _ \<Rightarrow> Inl NoAnswer)"

definition get_value :: "get_opt \<Rightarrow> u8 list \<Rightarrow> world \<Rightarrow> (int \<times> u8 list \<times> world) result" where
  "get_value x res w =
     (let sz = int MAX_RES_SIZE; keep = (\<lambda>r. bind_res r (\<lambda>(n, res). Inr (n, res, w))) in
      case x of
        opt_users \<Rightarrow> keep (get_users (w_config w) res sz)
      | opt_passwords \<Rightarrow>
          bind_res (get_pop3_pass (ip_to_str w) res sz (w_sniffed w)) (\<lambda>(n, res, l).
          Inr (n, res, w\<lparr>w_sniffed := l\<rparr>))
      | opt_buffsize \<Rightarrow> keep (get_buff_size (w_config w) res sz)
      | opt_auth_status \<Rightarrow> keep (get_auth_status (w_config w) res sz)
      | opt_spoofing_status \<Rightarrow> keep (get_spoofing_status (w_config w) res sz)
      | opt_sent_bytes \<Rightarrow> keep (cf_get_sent_bytes (w_metrics w) res sz)
      | opt_recv_bytes \<Rightarrow> keep (cf_get_received_bytes (w_metrics w) res sz)
      | opt_historic_connections \<Rightarrow> keep (cf_get_histori_conn (w_metrics w) res sz)
      | opt_current_connectios \<Rightarrow> keep (cf_get_current_conn (w_metrics w) res sz))"

definition get_act :: "admin_get_parser mng_act" where
  "get_act a p err m w =
     (if ag_state p = admin_get_done then
        bind_res (stack_bytes MAX_RES_SIZE w) (\<lambda>(res, w).
        bind_res (get_value (ag_option p) res w) (\<lambda>(n, res, w).
        mng_answer (\<lambda>b. admin_get_marshall b (ag_status p) res n) err m w))
      else Inr (err, m, w))"

definition request_get_request :: "key \<Rightarrow> st \<Rightarrow> (nat \<times> st) result" where
  "request_get_request =
     mng_receive REQUEST_GET REPLIES get_parser MP_get admin_get_consume admin_get_is_done get_act"

text \<open>A status that the handler replaces goes into the parser, which the object keeps.\<close>

definition put_act :: "admin_put_parser mng_act" where
  "put_act a p err m w =
     bind_res (if aput_state p = admin_put_done then
                 bind_res (add_user (w_config w) (pu_username (aput_user p)) (pu_passwd (aput_pass p)))
                   (\<lambda>(r, c). Inr (if r \<noteq> 0 then p\<lparr>aput_status := 0x05\<rparr> else p, w\<lparr>w_config := c\<rparr>))
               else Inr (p, w)) (\<lambda>(p, w).
     mng_answer (\<lambda>b. admin_put_marshall b (aput_status p)) err (m\<lparr>mg_parsers := MP_put p\<rparr>) w)"

definition request_put_request :: "key \<Rightarrow> st \<Rightarrow> (nat \<times> st) result" where
  "request_put_request =
     mng_receive REQUEST_PUT REPLIES put_parser MP_put admin_put_consume admin_put_is_done put_act"

definition edit_act :: "admin_edit_parser mng_act" where
  "edit_act a p err m w =
     bind_res (if ae_state p = admin_edit_done then
                 bind_res (edit_user (w_config w) (ae_username p) (ae_value p) (attribute_code (ae_attr p)))
                   (\<lambda>(r, c). Inr (if r \<noteq> 0 then p\<lparr>ae_status := 0x07\<rparr> else p, w\<lparr>w_config := c\<rparr>))
               else Inr (p, w)) (\<lambda>(p, w).
     mng_answer (\<lambda>b. admin_edit_marshall b (ae_status p)) err (m\<lparr>mg_parsers := MP_edit p\<rparr>) w)"

definition request_edit_request :: "key \<Rightarrow> st \<Rightarrow> (nat \<times> st) result" where
  "request_edit_request =
     mng_receive REQUEST_EDIT REPLIES edit_parser MP_edit admin_edit_consume admin_edit_is_done edit_act"

definition buffsize_act :: "admin_configbuff_parser mng_act" where
  "buffsize_act a p err m w =
     bind_res (if ab_state p = admin_configbuff_done then
                 bind_res (set_buff_size (w_config w) (ab_size p)) (\<lambda>(r, c).
                 Inr (if r \<le> 0 then (p\<lparr>ab_status := 0x04\<rparr>, True) else (p, err), w\<lparr>w_config := c\<rparr>))
               else Inr ((p, err), w)) (\<lambda>((p, err), w).
     mng_answer (\<lambda>b. admin_configbuff_marshall b (ab_status p)) err (m\<lparr>mg_parsers := MP_buff_size p\<rparr>) w)"

definition request_buffsize_request :: "key \<Rightarrow> st \<Rightarrow> (nat \<times> st) result" where
  "request_buffsize_request =
     mng_receive REQUEST_BUFFSIZE REPLIES buffsize_parser MP_buff_size admin_configbuff_consume
       admin_configbuff_is_done buffsize_act"

text \<open>The reply is made by the function of the other parser.\<close>

definition configstatus_act :: "admin_configstatus_parser mng_act" where
  "configstatus_act a p err m w =
     (let w = (if as_state p = admin_configstatus_done
               then w\<lparr>w_config := set_status (w_config w) (as_field p) (as_config_status p)\<rparr> else w) in
      mng_answer (\<lambda>b. admin_configbuff_marshall b (as_status p)) err m w)"

definition request_configstatus_request :: "key \<Rightarrow> st \<Rightarrow> (nat \<times> st) result" where
  "request_configstatus_request =
     mng_receive REQUEST_CONFIGSTATUS REPLIES configstatus_parser MP_conf_status
       admin_configstatus_consume admin_configstatus_is_done configstatus_act"

definition delete_act :: "admin_delete_parser mng_act" where
  "delete_act a p err m w =
     bind_res (if adel_state p = admin_delete_done then
                 bind_res (delete_user (w_config w) (adel_username p)) (\<lambda>(r, c).
                 Inr (if r \<noteq> 0 then p\<lparr>adel_status := 0x05\<rparr> else p, w\<lparr>w_config := c\<rparr>))
               else Inr (p, w)) (\<lambda>(p, w).
     mng_answer (\<lambda>b. admin_delete_marshall b (adel_status p)) err (m\<lparr>mg_parsers := MP_delete p\<rparr>) w)"

definition request_delete_request :: "key \<Rightarrow> st \<Rightarrow> (nat \<times> st) result" where
  "request_delete_request =
     mng_receive REQUEST_DELETE REPLIES delete_parser MP_delete admin_delete_consume
       admin_delete_is_done delete_act"

section \<open>REPLIES\<close>

text \<open>The result of \<open>selector_set_interest\<close> is not looked at.\<close>

definition mng_replies :: "key \<Rightarrow> st \<Rightarrow> (nat \<times> st) result" where
  "mng_replies key = (\<lambda>(s, w).
     bind_res (ATTACH key) (\<lambda>a.
     bind_res (get_mng a w) (\<lambda>m.
     bind_res (send_from (k_fd key) (mg_write_buffer m) w) (\<lambda>(bs, n, w).
     if n \<le> 0 then Inr (MNG_ERROR, s, w)
     else
       bind_res (buffer_read_adv (mg_write_buffer m) n) (\<lambda>b.
       let w = put_mng a (m\<lparr>mg_write_buffer := b\<rparr>) w in
       if \<not> buffer_can_read b then
         bind_res (selector_set_interest s (k_fd key) OP_NOOP) (\<lambda>(_, s). Inr (MNG_DONE, s, w))
       else Inr (REPLIES, s, w))))))"

end
