(* ===== verification/MngHandler.thy ===== *)
theory MngHandler
  imports Mng Socks5Request
begin

text \<open>
  The connection of an administrator as a whole, \<^verbatim>\<open>src/mng_handler.c\<close>: the table of its states,
  how it is accepted, how the events of the selector reach the engine, and how it ends
  (\<open>mng_close\<close> is with \<open>close_handler\<close>).
\<close>

section \<open>The state machine\<close>

definition mng_state_definition :: "key \<Rightarrow> st state_definition list" where
  "mng_state_definition key =
     [(bare_state CONNECT_READ)\<lparr>sd_on_arrival := Some (mng_connect_read_init key),
        sd_on_read_ready := Some (mng_connect_read key)\<rparr>,
      (bare_state CONNECT_WRITE)\<lparr>sd_on_write_ready := Some (mng_connect_write key)\<rparr>,
      (bare_state REQUEST)\<lparr>sd_on_read_ready := Some (mng_request key)\<rparr>,
      (bare_state REQUEST_GET)\<lparr>sd_on_arrival := Some (request_get_init key),
        sd_on_read_ready := Some (request_get_request key)\<rparr>,
      (bare_state REQUEST_PUT)\<lparr>sd_on_arrival := Some (request_put_init key),
        sd_on_read_ready := Some (request_put_request key)\<rparr>,
      (bare_state REQUEST_EDIT)\<lparr>sd_on_arrival := Some (request_edit_init key),
        sd_on_read_ready := Some (request_edit_request key)\<rparr>,
      (bare_state REQUEST_BUFFSIZE)\<lparr>sd_on_arrival := Some (request_buffsize_init key),
        sd_on_read_ready := Some (request_buffsize_request key)\<rparr>,
      (bare_state REQUEST_CONFIGSTATUS)\<lparr>sd_on_arrival := Some (request_configstatus_init key),
        sd_on_read_ready := Some (request_configstatus_request key)\<rparr>,
      (bare_state REQUEST_DELETE)\<lparr>sd_on_arrival := Some (request_delete_init key),
        sd_on_read_ready := Some (request_delete_request key)\<rparr>,
      (bare_state REPLIES)\<lparr>sd_on_write_ready := Some (mng_replies key)\<rparr>,
      bare_state MNG_DONE,
      bare_state MNG_ERROR]"

text \<open>The member \<open>current\<close> of the object that the key belongs to.\<close>

definition mng_current :: "key \<Rightarrow> st stm_store" where
  "mng_current key =
     \<lparr>get_current = (\<lambda>(s, w).
        bind_res (ATTACH key) (\<lambda>a. bind_res (get_mng a w) (\<lambda>m. Inr (mg_stm_current m)))),
      set_current = (\<lambda>c (s, w).
        bind_res (ATTACH key) (\<lambda>a. bind_res (get_mng a w) (\<lambda>m.
        Inr (s, put_mng a (m\<lparr>mg_stm_current := c\<rparr>) w))))\<rparr>"

definition mng_stm :: "key \<Rightarrow> st state_machine" where
  "mng_stm key = \<lparr>stm_initial = CONNECT_READ, stm_states = mng_state_definition key,
     stm_max_state = MNG_ERROR, stm_current = mng_current key\<rparr>"

section \<open>A new connection\<close>

text \<open>
  \<open>None\<close> when there is no memory for the object. The three arrays are part of it; the members that
  are not written keep what the memory holds.
\<close>

definition mng_new :: "int \<Rightarrow> u8 list \<Rightarrow> st \<Rightarrow> (nat option \<times> st) result" where
  "mng_new client addr = (\<lambda>(s, w).
     bind_res (next_answer w) (\<lambda>(x, w).
     case x of
       NoMemory \<Rightarrow> Inr (None, s, w)
     | NewMng junk \<Rightarrow>
         let a = w_next w; raw_a = b_mem (mg_write_buffer junk); raw_b = b_mem (mg_read_buffer junk);
             raw_c = b_mem (mg_aux_buffer junk);
             w = put_mng a (junk\<lparr>mg_stm_current := Some CONNECT_READ\<rparr>) (w\<lparr>w_next := a + 1\<rparr>) in
         if \<not> (length raw_a = MNG_BUFFER_SIZE \<and> length raw_b = MNG_BUFFER_SIZE \<and>
                length raw_c = MNG_BUFFER_SIZE) then Inl NoAnswer
         else
           bind_res (stm_init (mng_stm \<lparr>k_fd = client, k_data = Some (Mng_at a)\<rparr>) (s, w)) (\<lambda>(s, w).
           bind_res (get_mng a w) (\<lambda>m.
           bind_res (store_range (mg_client_addr m) 0 addr) (\<lambda>client_addr.
           let m = m\<lparr>mg_write_buffer := buffer_init (MNG_BUFFER_SIZE + 1) raw_a,
                     mg_read_buffer := buffer_init (MNG_BUFFER_SIZE + 1) raw_b,
                     mg_aux_buffer := buffer_init (MNG_BUFFER_SIZE + 1) raw_c,
                     mg_client_fd := client, mg_client_addr := client_addr,
                     mg_client_addr_len := length addr, mg_status := OK\<rparr> in
           Inr (Some a, s, put_mng a m w))))
     | _ \<Rightarrow> Inl NoAnswer))"

text \<open>The label \<open>finally\<close> with \<open>err = 1\<close>.\<close>

definition mng_accept_failed :: "int \<Rightarrow> nat option \<Rightarrow> st \<Rightarrow> st" where
  "mng_accept_failed client newMng = (\<lambda>(s, w).
     let w = emit (Closed_fd client) w in
     (s, case newMng of None \<Rightarrow> w | Some a \<Rightarrow> w\<lparr>w_mngs := (w_mngs w)(a := None)\<rparr>))"

definition mng_passive_accept :: "key \<Rightarrow> st \<Rightarrow> st result" where
  "mng_passive_accept key = (\<lambda>(s, w).
     bind_res (next_answer w) (\<lambda>(x, w).
     case x of
       AcceptFails \<Rightarrow> Inr (mng_accept_failed (-1) None (s, w))
     | Accepted client addr \<Rightarrow>
         bind_res (mng_new client addr (s, w)) (\<lambda>(newMng, s, w).
         case newMng of
           None \<Rightarrow> Inr (mng_accept_failed client None (s, w))
         | Some a \<Rightarrow>
             if MAX_CONNECTIONS < sint (get_current_conn (w_metrics w)) then
               Inr (mng_accept_failed client (Some a) (s, emit LoggedError w))
             else
               let w = w\<lparr>w_metrics := add_connecting_clients (w_metrics w)\<rparr> in
               bind_res (selector_fd_set_nio w) (\<lambda>(good, w).
               if \<not> good then Inr (mng_accept_failed client (Some a) (s, w))
               else
                 bind_res (selector_register False zero_item s client (Some H_mng) OP_READ
                   (Some (Mng_at a))) (\<lambda>(ss, s).
                 if ss \<noteq> SELECTOR_SUCCESS then Inr (mng_accept_failed client (Some a) (s, w))
                 else Inr (s, w))))
     | _ \<Rightarrow> Inl NoAnswer))"

section \<open>The end of a connection\<close>

definition mng_done :: "key \<Rightarrow> st \<Rightarrow> st result" where
  "mng_done key = (\<lambda>(s, w).
     let w = w\<lparr>w_metrics := end_connecting_clients (w_metrics w)\<rparr> in
     bind_res (ATTACH key) (\<lambda>a.
     bind_res (get_mng a w) (\<lambda>m.
     let fd = mg_client_fd m in
     bind_res (selector_unregister_fd close_handler fd (s, w)) (\<lambda>(_, s, w).
     Inr (s, emit (Closed_fd fd) w)))))"

section \<open>The handlers of the selector\<close>

definition mng_ready :: "(nat \<times> st) result \<Rightarrow> key \<Rightarrow> st result" where
  "mng_ready r key =
     bind_res r (\<lambda>(st, sw). if st = MNG_ERROR \<or> st = MNG_DONE then mng_done key sw else Inr sw)"

definition mng_read :: "key \<Rightarrow> st \<Rightarrow> st result" where
  "mng_read key sw = mng_ready (stm_handler_read (mng_stm key) sw) key"

definition mng_write :: "key \<Rightarrow> st \<Rightarrow> st result" where
  "mng_write key sw = mng_ready (stm_handler_write (mng_stm key) sw) key"

definition mng_block :: "key \<Rightarrow> st \<Rightarrow> st result" where
  "mng_block key sw = mng_ready (stm_handler_block (mng_stm key) sw) key"

definition mng_passive_handler :: "(hname, object, world) fd_handler" where
  "mng_passive_handler = \<lparr>handle_read = Some mng_passive_accept, handle_write = None,
     handle_block = None, handle_close = None\<rparr>"

definition mng_handler :: "(hname, object, world) fd_handler" where
  "mng_handler = \<lparr>handle_read = Some mng_read, handle_write = Some mng_write,
     handle_block = Some mng_block, handle_close = Some mng_close\<rparr>"

section \<open>The way to a request leads through the token\<close>

text \<open>The client of the object presented the token.\<close>

fun is_token :: "nat \<Rightarrow> event \<Rightarrow> bool" where
  "is_token a (TokenChecked b good) \<longleftrightarrow> a = b \<and> good"
| "is_token a _ \<longleftrightarrow> False"

definition token_seen :: "nat \<Rightarrow> world \<Rightarrow> bool" where
  "token_seen a w \<longleftrightarrow> list_ex (is_token a) (w_events w)"

text \<open>The connection goes on after the answer that is being written only if it did.\<close>

definition answer_checked :: "nat \<Rightarrow> world \<Rightarrow> bool" where
  "answer_checked a w \<longleftrightarrow>
     (\<forall>m. w_mngs w a = Some m \<longrightarrow> mg_status m = OK \<longrightarrow> token_seen a w)"

definition past_token :: "nat \<Rightarrow> bool" where
  "past_token n \<longleftrightarrow> REQUEST \<le> n \<and> n \<le> REPLIES"

lemmas mng_distinct = past_token_def mng_state_defs

definition mng_gate :: "key \<Rightarrow> nat \<Rightarrow> st \<Rightarrow> bool" where
  "mng_gate key n = (\<lambda>(s, w). \<forall>a. ATTACH key = Inr a \<longrightarrow>
     (n = CONNECT_WRITE \<longrightarrow> answer_checked a w) \<and> (past_token n \<longrightarrow> token_seen a w))"

text \<open>
  \<open>steady a\<close>: the events only grow, and if the object \<open>a\<close> is still there, its state machine stands
  where it stood.
\<close>

definition steady :: "nat \<Rightarrow> world \<Rightarrow> world \<Rightarrow> bool" where
  "steady a w w' \<longleftrightarrow> (\<exists>es. w_events w' = w_events w @ es) \<and>
     (\<forall>m'. w_mngs w' a = Some m' \<longrightarrow>
        (\<exists>m. w_mngs w a = Some m \<and> mg_stm_current m' = mg_stm_current m))"

lemma token_seen_steady: "token_seen a w \<Longrightarrow> steady a w w' \<Longrightarrow> token_seen a w'"
  by (auto simp: token_seen_def steady_def)

text \<open>What the calls of a message leave alone.\<close>

definition act_ok :: "(nat \<Rightarrow> 'p \<Rightarrow> bool \<Rightarrow> mng \<Rightarrow> world \<Rightarrow> (bool \<times> mng \<times> world) result) \<Rightarrow> bool" where
  "act_ok act \<longleftrightarrow> (\<forall>a p err m w err' m' w'. act a p err m w = Inr (err', m', w') \<longrightarrow>
     w_mngs w' = w_mngs w \<and> (\<exists>es. w_events w' = w_events w @ es) \<and>
     mg_stm_current m' = mg_stm_current m)"

lemma mng_answer_keeps:
  "mng_answer f err m w = Inr (err', m', w') \<Longrightarrow> w' = w \<and> mg_stm_current m' = mg_stm_current m \<and>
   mg_status m' = mg_status m"
  by (auto simp: mng_answer_def elim!: bind_res_InrE)

lemma stack_bytes_quiet [quiet_dest]: "stack_bytes n w = Inr (bs, w') \<Longrightarrow> quiet w w'"
  by (auto simp: stack_bytes_def elim!: bind_res_InrE dest: next_answer_quiet split: answer.splits if_splits)

lemma get_value_keeps:
  "get_value x res w = Inr (n, res', w') \<Longrightarrow> w_mngs w' = w_mngs w \<and> w_events w' = w_events w \<and>
   w_config w' = w_config w"
  by (cases x) (auto simp: get_value_def Let_def elim!: bind_res_InrE)

lemma acts_ok: "act_ok connect_act" "act_ok get_act" "act_ok put_act" "act_ok edit_act"
    "act_ok buffsize_act" "act_ok configstatus_act" "act_ok delete_act"
  by (auto simp: act_ok_def connect_act_def get_act_def put_act_def edit_act_def buffsize_act_def
      configstatus_act_def delete_act_def Let_def emit_def quiet_def
      elim!: bind_res_InrE dest!: mng_answer_keeps stack_bytes_quiet get_value_keeps split: if_splits)

lemma connect_act_checked:
  assumes "connect_act a p err m w = Inr (err', m', w')"
  shows "w_config w' = w_config w \<and> (mg_status m' = OK \<longrightarrow> token_seen a w')"
  using assms by (auto simp: connect_act_def Let_def emit_def token_seen_def
      elim!: bind_res_InrE dest!: mng_answer_keeps split: if_splits)

text \<open>How a message handler ends: without having acted, or after \<open>act\<close>.\<close>

lemma mng_receiveE:
  assumes "mng_receive here after get_member member consume is_done act key (s, w) = Inr (t, s', w')"
    and "ATTACH key = Inr a"
  obtains (waits) m m' w1 where "w_mngs w a = Some m" "quiet w w1" "w' = put_mng a m' w1"
      "mg_stm_current m' = mg_stm_current m" "t = here \<or> t = MNG_ERROR"
  | (acts) m m1 w1 p err err' m' w2 where "w_mngs w a = Some m" "quiet w w1"
      "mg_stm_current m1 = mg_stm_current m" "act a p err m1 w1 = Inr (err', m', w2)"
      "w' = put_mng a m' w2" "t = after \<or> t = MNG_ERROR"
proof -
  obtain m bs n b w1 where m: "w_mngs w a = Some m" and recv: "recv_into (mg_read_buffer m) w = Inr (bs, n, b, w1)"
    using assms by (auto simp: mng_receive_def elim!: bind_res_InrE)
  then have q: "quiet w w1"
    by (auto dest: recv_into_quiet)
  show ?thesis
  proof (cases "n \<le> 0")
    case True
    with assms m recv show ?thesis
      by (intro waits [OF m q, of "m\<lparr>mg_read_buffer := b\<rparr>"])
        (auto simp: mng_receive_def Let_def get_mng_def)
  next
    case False
    with assms m recv obtain p b1 st b2 p2 e fin err where
        p: "get_member (mg_parsers m) = Inr p" "buffer_write_adv b n = Inr b1"
          "consume b1 p (Some False) = Inr (st, b2, p2, e)" "is_done st e = (fin, err)"
      by (auto simp: mng_receive_def Let_def get_mng_def elim!: bind_res_InrE split: prod.splits)
    let ?m = "m\<lparr>mg_read_buffer := b2, mg_parsers := member p2\<rparr>"
    show ?thesis
    proof (cases "\<exists>out. act a p2 (err = Some True) ?m w1 = Inr out \<and> fin \<and> w' = put_mng a (fst (snd out)) (snd (snd out)) \<and> (t = after \<or> t = MNG_ERROR)")
      case True
      then show ?thesis
        by (auto intro!: acts [OF m q, of ?m])
    next
      case no_act: False
      with False assms m recv p show ?thesis
        by (intro waits [OF m q, of ?m])
          (fastforce simp: mng_receive_def Let_def get_mng_def elim!: bind_res_InrE split: if_splits)+
    qed
  qed
qed

lemma steady_put:
  "quiet w w1 \<Longrightarrow> w_mngs w a = Some m \<Longrightarrow> mg_stm_current m' = mg_stm_current m \<Longrightarrow>
   steady a w (put_mng a m' w1)"
  by (auto simp: steady_def quiet_def put_mng_def)

lemma mng_receive_steady:
  assumes "mng_receive here after get_member member consume is_done act key (s, w) = Inr (t, s', w')"
    and "ATTACH key = Inr a" and "act_ok act"
  shows "steady a w w' \<and> t \<in> {here, after, MNG_ERROR}"
  using assms(1,2)
proof (cases rule: mng_receiveE)
  case (waits m m' w1)
  then show ?thesis
    by (auto intro: steady_put)
next
  case (acts m m1 w1 p err err' m' w2)
  with assms(3) have "w_mngs w2 = w_mngs w1" "\<exists>es. w_events w2 = w_events w1 @ es"
      "mg_stm_current m' = mg_stm_current m1"
    unfolding act_ok_def by blast+
  with acts show ?thesis
    by (auto simp: steady_def quiet_def put_mng_def)
qed

lemma mng_connect_read_next:
  assumes "mng_connect_read key (s, w) = Inr (t, s', w')" and "ATTACH key = Inr a"
  shows "steady a w w' \<and> t \<in> {CONNECT_READ, CONNECT_WRITE, MNG_ERROR}"
    "w_config w' = w_config w" "t = CONNECT_WRITE \<Longrightarrow> answer_checked a w'"
proof -
  note run = assms(1) [unfolded mng_connect_read_def]
  show "steady a w w' \<and> t \<in> {CONNECT_READ, CONNECT_WRITE, MNG_ERROR}"
    by (rule mng_receive_steady [OF run assms(2)]) (rule acts_ok)
  show "w_config w' = w_config w"
    using run assms(2) by (cases rule: mng_receiveE)
      (auto simp: put_mng_def quiet_def dest!: connect_act_checked)
  show "answer_checked a w'" if "t = CONNECT_WRITE"
    using run assms(2)
  proof (cases rule: mng_receiveE)
    case waits
    with that show ?thesis
      by (auto simp: mng_state_defs)
  next
    case acts
    with connect_act_checked [OF acts(4)] show ?thesis
      by (auto simp: answer_checked_def put_mng_def token_seen_def)
  qed
qed

lemma mng_connect_write_next:
  assumes "mng_connect_write key (s, w) = Inr (t, s', w')" and "ATTACH key = Inr a" and "answer_checked a w"
  shows "steady a w w' \<and> w_config w' = w_config w \<and> answer_checked a w' \<and>
    (t \<in> {CONNECT_WRITE, MNG_DONE, MNG_ERROR} \<or> t = REQUEST \<and> token_seen a w')"
proof -
  have status: "mg_status m = OK \<longleftrightarrow> mg_status m \<noteq> CLOSE" for m
    by (cases "mg_status m") auto
  show ?thesis
    using assms by (auto simp: mng_connect_write_def Let_def steady_def quiet_def put_mng_def answer_checked_def
        token_seen_def status elim!: bind_res_InrE dest!: send_from_quiet split: if_splits)
qed

lemma request_state_range: "REQUEST \<le> request_state c \<and> request_state c \<le> REQUEST_DELETE"
  by (simp add: request_state_def mng_state_defs)

lemma mng_request_next:
  assumes "mng_request key (s, w) = Inr (t, s', w')" and "ATTACH key = Inr a"
  shows "steady a w w' \<and> w_config w' = w_config w \<and> (t = MNG_ERROR \<or> past_token t)"
proof -
  have "past_token (request_state c)" for c
    using request_state_range [of c] by (simp add: mng_distinct)
  with assms show ?thesis
    by (auto simp: mng_request_def Let_def steady_def quiet_def put_mng_def elim!: bind_res_InrE
        dest!: sys_recv_quiet split: if_splits option.splits list.splits)
qed

lemma mng_replies_next:
  assumes "mng_replies key (s, w) = Inr (t, s', w')" and "ATTACH key = Inr a"
  shows "steady a w w' \<and> t \<in> {REPLIES, MNG_DONE, MNG_ERROR}"
  using assms by (auto simp: mng_replies_def Let_def steady_def quiet_def put_mng_def
      elim!: bind_res_InrE dest!: send_from_quiet split: if_splits)

lemmas request_handler_defs =
  request_get_request_def request_put_request_def request_edit_request_def request_buffsize_request_def
  request_configstatus_request_def request_delete_request_def

lemma request_handlers_next:
  assumes "f (s, w) = Inr (t, s', w')" and "ATTACH key = Inr a" and "f = request_get_request key \<and> n = REQUEST_GET \<or> f = request_put_request key \<and> n = REQUEST_PUT \<or>
      f = request_edit_request key \<and> n = REQUEST_EDIT \<or> f = request_buffsize_request key \<and> n = REQUEST_BUFFSIZE \<or>
      f = request_configstatus_request key \<and> n = REQUEST_CONFIGSTATUS \<or> f = request_delete_request key \<and> n = REQUEST_DELETE"
  shows "steady a w w' \<and> (t = n \<or> t = REPLIES \<or> t = MNG_ERROR) \<and> past_token n"
proof -
  have "steady a w w' \<and> t \<in> {n, REPLIES, MNG_ERROR}"
    using assms(1,3) acts_ok assms(2)
    by (elim disjE conjE; simp only: request_handler_defs) (erule (2) mng_receive_steady)+
  with assms(3) show ?thesis
    by (auto simp: mng_distinct)
qed

section \<open>The table, by number\<close>

lemma mng_stm_simps [simp]:
  "stm_max_state (mng_stm key) = MNG_ERROR" "stm_initial (mng_stm key) = CONNECT_READ"
  "stm_states (mng_stm key) = mng_state_definition key"
  "stm_current (mng_stm key) = mng_current key"
  by (simp_all add: mng_stm_def)

lemma mng_state_cases:
  assumes "n \<le> MNG_ERROR"
  obtains "n = CONNECT_READ"
    | "n = CONNECT_WRITE"
    | "n = REQUEST"
    | "n = REQUEST_GET"
    | "n = REQUEST_PUT"
    | "n = REQUEST_EDIT"
    | "n = REQUEST_BUFFSIZE"
    | "n = REQUEST_CONFIGSTATUS"
    | "n = REQUEST_DELETE"
    | "n = REPLIES"
    | "n = MNG_DONE"
    | "n = MNG_ERROR"
proof -
  from assms have "n = 0 \<or> n = 1 \<or> n = 2 \<or> n = 3 \<or> n = 4 \<or> n = 5 \<or> n = 6 \<or> n = 7 \<or> n = 8 \<or> n = 9 \<or> n = 10 \<or> n = 11"
    by (simp add: mng_state_defs eval_nat_numeral le_Suc_eq disj_ac)
  with that show ?thesis
    unfolding mng_state_defs by blast
qed

lemma mng_state_row [simp]:
  "mng_state_definition key ! CONNECT_READ =
     (bare_state CONNECT_READ)\<lparr>sd_on_arrival := Some (mng_connect_read_init key), sd_on_read_ready := Some (mng_connect_read key)\<rparr>"
  "mng_state_definition key ! CONNECT_WRITE =
     (bare_state CONNECT_WRITE)\<lparr>sd_on_write_ready := Some (mng_connect_write key)\<rparr>"
  "mng_state_definition key ! REQUEST =
     (bare_state REQUEST)\<lparr>sd_on_read_ready := Some (mng_request key)\<rparr>"
  "mng_state_definition key ! REQUEST_GET =
     (bare_state REQUEST_GET)\<lparr>sd_on_arrival := Some (request_get_init key), sd_on_read_ready := Some (request_get_request key)\<rparr>"
  "mng_state_definition key ! REQUEST_PUT =
     (bare_state REQUEST_PUT)\<lparr>sd_on_arrival := Some (request_put_init key), sd_on_read_ready := Some (request_put_request key)\<rparr>"
  "mng_state_definition key ! REQUEST_EDIT =
     (bare_state REQUEST_EDIT)\<lparr>sd_on_arrival := Some (request_edit_init key), sd_on_read_ready := Some (request_edit_request key)\<rparr>"
  "mng_state_definition key ! REQUEST_BUFFSIZE =
     (bare_state REQUEST_BUFFSIZE)\<lparr>sd_on_arrival := Some (request_buffsize_init key), sd_on_read_ready := Some (request_buffsize_request key)\<rparr>"
  "mng_state_definition key ! REQUEST_CONFIGSTATUS =
     (bare_state REQUEST_CONFIGSTATUS)\<lparr>sd_on_arrival := Some (request_configstatus_init key), sd_on_read_ready := Some (request_configstatus_request key)\<rparr>"
  "mng_state_definition key ! REQUEST_DELETE =
     (bare_state REQUEST_DELETE)\<lparr>sd_on_arrival := Some (request_delete_init key), sd_on_read_ready := Some (request_delete_request key)\<rparr>"
  "mng_state_definition key ! REPLIES =
     (bare_state REPLIES)\<lparr>sd_on_write_ready := Some (mng_replies key)\<rparr>"
  "mng_state_definition key ! MNG_DONE =
     bare_state MNG_DONE"
  "mng_state_definition key ! MNG_ERROR =
     bare_state MNG_ERROR"
  by (simp_all add: mng_state_definition_def mng_state_defs)

lemma mng_table: "stm_table_ok (mng_stm key)"
proof -
  have "sd_state (mng_state_definition key ! n) = n" if "n \<le> MNG_ERROR" for n
    using that by (cases rule: mng_state_cases) auto
  then show ?thesis
    by (auto simp: stm_table_ok_def mng_state_definition_def mng_state_defs)
qed

lemma mng_load: "n \<le> MNG_ERROR \<Longrightarrow> load_at (mng_state_definition key) n = Inr (mng_state_definition key ! n)"
  by (simp add: load_at_def mng_state_definition_def mng_state_defs)

lemma mng_load_Inr:
  "load_at (mng_state_definition key) n = Inr d \<longleftrightarrow> n \<le> MNG_ERROR \<and> d = mng_state_definition key ! n"
  by (auto simp: load_at_def mng_state_definition_def mng_state_defs)

lemma mng_departure: "n \<le> MNG_ERROR \<Longrightarrow> sd_on_departure (mng_state_definition key ! n) = None"
  by (cases rule: mng_state_cases) auto

lemma connect_write_distinct:
  "CONNECT_READ \<noteq> CONNECT_WRITE" "REQUEST_GET \<noteq> CONNECT_WRITE" "REQUEST_PUT \<noteq> CONNECT_WRITE"
  "REQUEST_EDIT \<noteq> CONNECT_WRITE" "REQUEST_BUFFSIZE \<noteq> CONNECT_WRITE"
  "REQUEST_CONFIGSTATUS \<noteq> CONNECT_WRITE" "REQUEST_DELETE \<noteq> CONNECT_WRITE"
  by (simp_all add: mng_state_defs)

lemma mng_arrival:
  assumes "n \<le> MNG_ERROR" and "sd_on_arrival (mng_state_definition key ! n) = Some f"
  shows "\<exists>p. f = init_parser p key \<and> n \<noteq> CONNECT_WRITE"
  using assms by (cases rule: mng_state_cases)
    (auto simp: mng_connect_read_init_def request_get_init_def request_put_init_def request_edit_init_def
      request_buffsize_init_def request_configstatus_init_def request_delete_init_def connect_write_distinct)

lemma mng_call_arrival:
  assumes "call_arrival (mng_stm key) n (s, w) = Inr (s', w')"
  shows "(s', w') = (s, w) \<or> (\<exists>a m p. ATTACH key = Inr a \<and> w_mngs w a = Some m \<and> n \<noteq> CONNECT_WRITE \<and>
    (s', w') = (s, put_mng a (m\<lparr>mg_parsers := p\<rparr>) w))"
proof (cases "sd_on_arrival (mng_state_definition key ! n)")
  case None
  with assms show ?thesis
    by (auto simp: call_arrival_def mng_load_Inr elim!: bind_res_InrE)
next
  case (Some f)
  have n: "n \<le> MNG_ERROR"
    using assms by (auto simp: call_arrival_def mng_load_Inr elim!: bind_res_InrE)
  from mng_arrival [OF n Some] obtain p where "f = init_parser p key" "n \<noteq> CONNECT_WRITE"
    by blast
  with assms Some show ?thesis
    by (intro disjI2) (auto simp: call_arrival_def mng_load_Inr init_parser_def elim!: bind_res_InrE
        intro!: exI [of _ p])
qed

lemma mng_call_departure: "call_departure (mng_stm key) n sw = Inr sw' \<Longrightarrow> sw' = sw"
  by (auto simp: call_departure_def mng_load_Inr mng_departure elim!: bind_res_InrE split: option.splits)

lemma mng_set_current:
  "set_current (mng_current key) c (s, w) = Inr (s', w') \<Longrightarrow>
   \<exists>a m. ATTACH key = Inr a \<and> w_mngs w a = Some m \<and> s' = s \<and>
     w' = put_mng a (m\<lparr>mg_stm_current := c\<rparr>) w"
  by (auto simp: mng_current_def elim!: bind_res_InrE)

lemma get_current_mng:
  "get_current (mng_current key) (s, w) = Inr c \<longleftrightarrow>
   (\<exists>a m. ATTACH key = Inr a \<and> w_mngs w a = Some m \<and> mg_stm_current m = c)"
  by (auto simp: mng_current_def bind_res_Inr_iff)

lemma mng_ready_cases:
  assumes "n \<le> MNG_ERROR" and "sd_on_read_ready (mng_state_definition key ! n) = Some f \<or>
      sd_on_write_ready (mng_state_definition key ! n) = Some f \<or>
      sd_on_block_ready (mng_state_definition key ! n) = Some f"
  shows "f = mng_connect_read key \<and> n = CONNECT_READ \<or> f = mng_connect_write key \<and> n = CONNECT_WRITE \<or>
    f = mng_request key \<and> n = REQUEST \<or> f = mng_replies key \<and> n = REPLIES \<or>
    (f = request_get_request key \<and> n = REQUEST_GET \<or> f = request_put_request key \<and> n = REQUEST_PUT \<or>
      f = request_edit_request key \<and> n = REQUEST_EDIT \<or> f = request_buffsize_request key \<and> n = REQUEST_BUFFSIZE \<or>
      f = request_configstatus_request key \<and> n = REQUEST_CONFIGSTATUS \<or> f = request_delete_request key \<and> n = REQUEST_DELETE)"
  using assms by (cases rule: mng_state_cases) auto

section \<open>The invariant of the states\<close>

text \<open>What one handler does: where it goes, and that before the token nothing is configured.\<close>

lemma mng_ready_keeps:
  assumes n: "n \<le> MNG_ERROR" and gate: "mng_gate key n (s, w)" and a: "ATTACH key = Inr a"
    and ready: "sd_on_read_ready (mng_state_definition key ! n) = Some f \<or>
      sd_on_write_ready (mng_state_definition key ! n) = Some f \<or>
      sd_on_block_ready (mng_state_definition key ! n) = Some f"
    and run: "f (s, w) = Inr (t, s', w')"
  shows "steady a w w'" "mng_gate key t (s', w')" "past_token n \<or> w_config w' = w_config w"
proof -
  have checked: "n = CONNECT_WRITE \<Longrightarrow> answer_checked a w" and seen: "past_token n \<Longrightarrow> token_seen a w"
    using gate a by (auto simp: mng_gate_def)
  have "steady a w w' \<and> (past_token n \<or> w_config w' = w_config w) \<and>
      (t = CONNECT_WRITE \<longrightarrow> answer_checked a w') \<and> (past_token t \<longrightarrow> past_token n \<or> token_seen a w')"
    using mng_ready_cases [OF n ready]
  proof (elim disjE conjE)
    assume "f = mng_connect_read key" "n = CONNECT_READ"
    with mng_connect_read_next [OF _ a] run show ?thesis
      by (fastforce simp: mng_distinct)
  next
    assume "f = mng_connect_write key" "n = CONNECT_WRITE"
    with mng_connect_write_next [OF _ a checked] run show ?thesis
      by (fastforce simp: mng_distinct)
  next
    assume "f = mng_request key" "n = REQUEST"
    with mng_request_next [OF _ a] run show ?thesis
      by (fastforce simp: mng_distinct)
  next
    assume "f = mng_replies key" "n = REPLIES"
    with mng_replies_next [OF _ a] run show ?thesis
      by (fastforce simp: mng_distinct)
  qed (use request_handlers_next [where f = f and n = n and key = key, OF run a] in \<open>fastforce simp: mng_distinct\<close>)+
  with token_seen_steady [OF seen] a show "steady a w w'" "mng_gate key t (s', w')"
      "past_token n \<or> w_config w' = w_config w"
    by (auto simp: mng_gate_def)
qed

interpretation admin: stm_user "mng_stm key" "mng_gate key" "mng_gate key" for key
proof unfold_locales
  show "stm_table_ok (mng_stm key)"
    by (rule mng_table)
next
  fix c w w'
  assume "set_current (stm_current (mng_stm key)) c w = Inr w'"
  then show "get_current (stm_current (mng_stm key)) w' = Inr c"
    by (cases w; cases w') (auto simp: get_current_mng put_mng_def dest!: mng_set_current)
next
  fix c w w' s
  assume "set_current (stm_current (mng_stm key)) c w = Inr w'" "mng_gate key s w"
  then show "mng_gate key s w'"
    by (cases w; cases w') (auto simp: mng_gate_def answer_checked_def token_seen_def put_mng_def
        dest!: mng_set_current)
next
  fix s w w'
  assume "s \<le> stm_max_state (mng_stm key)" "mng_gate key s w" "call_arrival (mng_stm key) s w = Inr w'"
  then show "mng_gate key s w' \<and> get_current (stm_current (mng_stm key)) w' = get_current (stm_current (mng_stm key)) w"
    by (cases w; cases w') (auto simp: mng_gate_def token_seen_def put_mng_def mng_current_def get_mng_def
        dest!: mng_call_arrival)
next
  fix s t w w'
  assume "mng_gate key t w" "call_departure (mng_stm key) s w = Inr w'"
  then show "mng_gate key t w'"
    by (auto dest: mng_call_departure)
next
  fix s w f t w' c
  assume s: "s \<le> stm_max_state (mng_stm key)" and g: "mng_gate key s w"
    and cur: "get_current (stm_current (mng_stm key)) w = Inr (Some s)"
    and f: "sd_on_read_ready (stm_states (mng_stm key) ! s) = Some f \<or>
      sd_on_write_ready (stm_states (mng_stm key) ! s) = Some f \<or>
      sd_on_block_ready (stm_states (mng_stm key) ! s) = Some f"
    and run: "f w = Inr (t, w')" and cur': "get_current (stm_current (mng_stm key)) w' = Inr c"
  obtain a where a: "ATTACH key = Inr a"
    using cur by (cases w) (auto simp: get_current_mng)
  obtain s1 w1 s2 w2 where ww: "w = (s1, w1)" "w' = (s2, w2)"
    by (cases w; cases w')
  have "steady a w1 w2" "mng_gate key t (s2, w2)"
    by (rule mng_ready_keeps [of s key s1 w1 a f t s2 w2];
        use s g f run a ww in \<open>simp only: mng_stm_simps\<close>)+
  with cur cur' a ww show "c = Some s \<and> (if t = s then mng_gate key s w' else mng_gate key t w')"
    by (auto simp: get_current_mng steady_def)
qed

section \<open>Sessions\<close>

text \<open>
  The life of the administrator's connection in object \<open>a\<close>: an event of the selector reaches its
  state machine, or something else happens, which may change everything but the machine and the
  status of the object.
\<close>

datatype mng_readiness = Mng_readable | Mng_writable | Mng_unblocked

fun mng_deliver :: "mng_readiness \<Rightarrow> key \<Rightarrow> st \<Rightarrow> (nat \<times> st) result" where
  "mng_deliver Mng_readable key = stm_handler_read (mng_stm key)"
| "mng_deliver Mng_writable key = stm_handler_write (mng_stm key)"
| "mng_deliver Mng_unblocked key = stm_handler_block (mng_stm key)"

inductive mng_session :: "nat \<Rightarrow> st \<Rightarrow> bool" for a where
  accepted: "w_mngs w a = Some m \<Longrightarrow> mg_stm_current m = None \<Longrightarrow> mng_session a (s, w)"
| event:
    "mng_session a sw \<Longrightarrow> ATTACH key = Inr a \<Longrightarrow> mng_deliver r key sw = Inr (n, sw') \<Longrightarrow>
     mng_session a sw'"
| other:
    "mng_session a (s, w) \<Longrightarrow> w_events w' = w_events w @ es \<Longrightarrow>
     (\<And>m'. w_mngs w' a = Some m' \<Longrightarrow> \<exists>m. w_mngs w a = Some m \<and>
        mg_stm_current m' = mg_stm_current m \<and> mg_status m' = mg_status m) \<Longrightarrow>
     mng_session a (s', w')"

lemma mng_deliverE:
  assumes "mng_deliver r key sw = Inr (n, sw')"
  obtains on_ready where "stm_handler on_ready (mng_stm key) sw = Inr (n, sw')"
    "on_ready = sd_on_read_ready \<or> on_ready = sd_on_write_ready \<or> on_ready = sd_on_block_ready"
  using assms by (cases r) (auto simp: stm_handler_read_def stm_handler_write_def stm_handler_block_def)

lemma mng_inv:
  assumes "ATTACH key = Inr a" and "w_mngs w a = Some m"
  shows "admin.inv key (s, w) \<longleftrightarrow> (case mg_stm_current m of
    None \<Rightarrow> mng_gate key CONNECT_READ (s, w) | Some n \<Rightarrow> n \<le> MNG_ERROR \<and> mng_gate key n (s, w))"
  using assms by (simp add: admin.inv_def mng_current_def get_mng_def split: option.splits)

lemma mng_deliver_object:
  "mng_deliver r key (s, w) = Inr (n, sw') \<Longrightarrow> ATTACH key = Inr a \<Longrightarrow> w_mngs w a \<noteq> None"
  by (elim mng_deliverE)
    (auto simp: stm_handler_def handle_first_def mng_current_def get_mng_def split: option.splits)

lemma mng_session_inv:
  assumes "mng_session a sw" and "ATTACH key = Inr a" and "w_mngs (snd sw) a \<noteq> None"
  shows "admin.inv key sw"
  using assms
proof (induction arbitrary: key rule: mng_session.induct)
  case (accepted w m s)
  then have "mng_gate key CONNECT_READ (s, w)"
    by (auto simp: mng_gate_def mng_distinct)
  with accepted show ?case
    by (simp add: mng_inv)
next
  case (event sw key' r n sw')
  obtain s w s' w' where sw: "sw = (s, w)" "sw' = (s', w')"
    by (cases sw; cases sw')
  obtain on_ready where on_ready: "stm_handler on_ready (mng_stm key') sw = Inr (n, sw')"
      "on_ready = sd_on_read_ready \<or> on_ready = sd_on_write_ready \<or> on_ready = sd_on_block_ready"
    using event.hyps(3) by (rule mng_deliverE)
  from mng_deliver_object event.hyps(2,3) event.IH [of key'] sw have "admin.inv key' sw"
    by auto
  from admin.stm_handler_inv [OF on_ready(2) this on_ready(1)]
  have "n \<le> MNG_ERROR" "get_current (mng_current key') sw' = Inr (Some n)" "mng_gate key' n sw'"
    by auto
  moreover from this(3) have "mng_gate key n sw'"
    using event.prems(1) event.hyps(2) by (simp add: mng_gate_def)
  ultimately show ?case
    using event.prems event.hyps(2) sw by (auto simp: mng_inv get_current_mng)
next
  case (other s w w' es s')
  then obtain m m' where m: "w_mngs w a = Some m" "w_mngs w' a = Some m'"
      "mg_stm_current m' = mg_stm_current m" "mg_status m' = mg_status m"
    by fastforce
  with other.IH [of key] other.prems have "admin.inv key (s, w)"
    by simp
  moreover have "mng_gate key n (s, w) \<Longrightarrow> mng_gate key n (s', w')" for n
    using m other.prems(1) other.hyps(2) by (auto simp: mng_gate_def answer_checked_def token_seen_def)
  ultimately show ?case
    using m other.prems(1) by (auto simp: mng_inv split: option.splits)
qed

text \<open>An administrator's connection is in one of the states behind the login (it chooses a
  request, sends one or reads the answer) only if \<open>checkToken\<close> was called for it before and found the
  token right, whatever the selector delivers and whatever the other connections do.\<close>

theorem admin_needs_token:
  assumes "mng_session a (s, w)" and "w_mngs w a = Some m" and "mg_stm_current m = Some n"
    and "REQUEST \<le> n" and "n \<le> REPLIES"
  shows "TokenChecked a True \<in> set (w_events w)"
proof -
  let ?key = "\<lparr>k_fd = 0, k_data = Some (Mng_at a)\<rparr>"
  have key: "ATTACH ?key = Inr a"
    by (simp add: ATTACH_def)
  have "mng_gate ?key n (s, w)"
    using mng_session_inv [OF assms(1) key] assms(2,3) by (simp add: mng_inv [OF key assms(2)])
  with key assms(4,5) have "token_seen a w"
    by (simp add: mng_gate_def past_token_def)
  then show ?thesis
    by (auto simp: token_seen_def list_ex_iff elim!: is_token.elims)
qed

text \<open>Whatever an administrator's connection does to the configuration (accounts, buffer size,
  authentication, the sniffer), it does after it presented the token: an event that changes the
  configuration finds in the log of what happened that \<open>checkToken\<close> found this connection's token right.\<close>

theorem configuring_needs_token:
  assumes "mng_session a (s, w)" and "ATTACH key = Inr a" and "mng_deliver r key (s, w) = Inr (n, s', w')"
    and "w_config w' \<noteq> w_config w"
  shows "TokenChecked a True \<in> set (w_events w)"
proof -
  let ?same = "\<lambda>sw sw'. w_config (snd sw') = w_config (snd sw) \<and>
    w_events (snd sw') = w_events (snd sw)"
  obtain on_ready where on_ready: "stm_handler on_ready (mng_stm key) (s, w) = Inr (n, s', w')"
      "on_ready = sd_on_read_ready \<or> on_ready = sd_on_write_ready \<or> on_ready = sd_on_block_ready"
    using assms(3) by (rule mng_deliverE)
  have same: "reflp ?same" "transp ?same"
      "set_current (stm_current (mng_stm key)) c sw = Inr sw' \<Longrightarrow> ?same sw sw'"
      "call_arrival (mng_stm key) k sw = Inr sw' \<Longrightarrow> ?same sw sw'"
      "call_departure (mng_stm key) k sw = Inr sw' \<Longrightarrow> ?same sw sw'" for c k sw sw'
    by (auto simp: reflp_def transp_def put_mng_def dest: mng_call_departure)
      (cases sw; cases sw'; auto simp: put_mng_def dest!: mng_set_current mng_call_arrival)+
  obtain k d f sw1 sw2 where
      first: "handle_first (mng_stm key) (s, w) = Inr sw1" "?same (s, w) sw1"
        "get_current (stm_current (mng_stm key)) sw1 = Inr (Some k)"
        "load_at (stm_states (mng_stm key)) k = Inr d"
      and f: "on_ready d = Some f" "f sw1 = Inr (n, sw2)" and last: "?same sw2 (s', w')"
    by (rule stm_handlerE [OF on_ready(1) same(1,2)]) (erule same | rule that; assumption)+
  obtain s1 w1 s2 w2 where sw: "sw1 = (s1, w1)" "sw2 = (s2, w2)"
    by (cases sw1; cases sw2)
  have "w_mngs w a \<noteq> None"
    using assms(2,3) by (rule mng_deliver_object [rotated])
  with assms(1,2) have "admin.inv key (s, w)"
    by (auto dest: mng_session_inv)
  from admin.handle_first_inv [OF this first(1)] first(3) have "k \<le> MNG_ERROR" "mng_gate key k (s1, w1)"
    by (auto simp: sw)
  moreover have "d = mng_state_definition key ! k"
    using first(4) by (simp add: mng_load_Inr)
  ultimately have "past_token k \<or> w_config w2 = w_config w1"
    using f on_ready(2) by (intro mng_ready_keeps(3) [OF _ _ assms(2), of k s1 w1 f n s2 w2]) (auto simp: sw)
  with assms(4) first(2) last sw have "past_token k"
    by auto
  with \<open>mng_gate key k (s1, w1)\<close> assms(2) first(2) sw have "token_seen a w"
    by (simp add: mng_gate_def token_seen_def)
  then show ?thesis
    by (auto simp: token_seen_def list_ex_iff elim!: is_token.elims)
qed

section \<open>An example\<close>

definition example_mng :: mng where
  "example_mng = \<lparr>mg_client_addr = replicate 128 0, mg_client_addr_len = 16, mg_client_fd = 6,
     mg_stm_current = None, mg_parsers = MP_none, mg_read_buffer = buffer_of 32 [],
     mg_write_buffer = buffer_of 32 [], mg_aux_buffer = buffer_of 32 [], mg_status = OK\<rparr>"

definition mng_world :: "answer list \<Rightarrow> world" where
  "mng_world answers = \<lparr>w_config = example_config,
     w_metrics = \<lparr>m_sent_byte = 0, m_received_bytes = 0, m_historic_connections = 0,
       m_current_connections = 0, m_connecting_clients = 1\<rparr>,
     w_sniffed = \<lparr>l_first = [], l_iteradorNext = [], l_size = 0\<rparr>,
     w_socks = (\<lambda>_. None), w_mngs = [0 \<mapsto> example_mng], w_next = 1, w_threads = [],
     w_answers = answers, w_events = []\<rparr>"

definition mng_selector :: sel where
  "mng_selector = \<lparr>s_fds = Some (replicate 6 (zero_item\<lparr>it_fd := FD_UNUSED\<rparr>) @
       [\<lparr>it_fd = 6, it_interest = OP_READ, it_handler = Some H_mng, it_data = Some (Mng_at 0)\<rparr>]),
     s_max_fd = 6, s_master_r = {6}, s_master_w = {}, s_slave_r = {}, s_slave_w = {},
     s_resolution_jobs = []\<rparr>"

definition mng_key :: key where
  "mng_key = \<lparr>k_fd = 6, k_data = Some (Mng_at 0)\<rparr>"

fun mng_deliver_all :: "mng_readiness list \<Rightarrow> key \<Rightarrow> st \<Rightarrow> st result" where
  "mng_deliver_all [] key sw = Inr sw"
| "mng_deliver_all (r # rs) key sw =
     bind_res (mng_deliver r key sw) (\<lambda>(_, sw). mng_deliver_all rs key sw)"

lemma mng_session_deliver_all:
  "mng_session a sw \<Longrightarrow> ATTACH key = Inr a \<Longrightarrow> mng_deliver_all rs key sw = Inr sw' \<Longrightarrow> mng_session a sw'"
  by (induction rs arbitrary: sw) (auto elim!: bind_res_InrE intro: mng_session.event)

definition left_in_mng :: "(mng \<Rightarrow> world \<Rightarrow> bool) \<Rightarrow> st result \<Rightarrow> bool" where
  "left_in_mng P r = (case r of
     Inl _ \<Rightarrow> False
   | Inr (s, w) \<Rightarrow> (case w_mngs w 0 of None \<Rightarrow> False | Some m \<Rightarrow> P m w))"

lemma left_in_mngE:
  assumes "left_in_mng P r"
  obtains s w m where "r = Inr (s, w)" "w_mngs w 0 = Some m" "P m w"
  using assms by (auto simp: left_in_mng_def split: sum.splits option.splits)

text \<open>The login with the token, then the first byte of a request to add an account.\<close>

definition token_answers :: "answer list" where
  "token_answers = [RecvBytes (connect_message MNG_TOKEN), SentBytes 1, RecvBytes [PUT],
     RecvBytes [0, 1, 99, 1, 122]]"

theorem admin_needs_token_witness:
  "\<exists>s w m. mng_deliver_all [Mng_readable, Mng_writable, Mng_readable] mng_key
       (mng_selector, mng_world token_answers) = Inr (s, w) \<and>
     w_mngs w 0 = Some m \<and> mg_stm_current m = Some REQUEST_PUT \<and>
     TokenChecked 0 True \<in> set (w_events w)"
proof -
  have "left_in_mng (\<lambda>m w. mg_stm_current m = Some REQUEST_PUT)
      (mng_deliver_all [Mng_readable, Mng_writable, Mng_readable] mng_key
        (mng_selector, mng_world token_answers))"
    by code_simp
  then obtain s w m where run: "mng_deliver_all [Mng_readable, Mng_writable, Mng_readable] mng_key
      (mng_selector, mng_world token_answers) = Inr (s, w)" "w_mngs w 0 = Some m"
      "mg_stm_current m = Some REQUEST_PUT"
    by (rule left_in_mngE)
  have "mng_session 0 (mng_selector, mng_world token_answers)"
    by (rule mng_session.accepted [of _ _ example_mng]) code_simp+
  then have "mng_session 0 (s, w)"
    by (rule mng_session_deliver_all [OF _ _ run(1)]) code_simp
  from admin_needs_token [OF this run(2,3)] run show ?thesis
    by (simp add: mng_state_defs)
qed

theorem configuring_needs_token_witness:
  "\<exists>s w s' w' n. mng_deliver_all [Mng_readable, Mng_writable, Mng_readable] mng_key
       (mng_selector, mng_world token_answers) = Inr (s, w) \<and>
     mng_deliver Mng_readable mng_key (s, w) = Inr (n, s', w') \<and>
     w_config w' \<noteq> w_config w \<and> TokenChecked 0 True \<in> set (w_events w)"
proof -
  let ?start = "(mng_selector, mng_world token_answers)"
  have "left_in_mng (\<lambda>m w. cf_users_size (w_config w) = 2)
      (mng_deliver_all [Mng_readable, Mng_writable, Mng_readable] mng_key ?start)"
    by code_simp
  then obtain s w m where run: "mng_deliver_all [Mng_readable, Mng_writable, Mng_readable] mng_key ?start =
      Inr (s, w)" "cf_users_size (w_config w) = 2"
    by (rule left_in_mngE)
  have "left_in_mng (\<lambda>m w. cf_users_size (w_config w) = 3)
      (bind_res (mng_deliver_all [Mng_readable, Mng_writable, Mng_readable] mng_key ?start)
        (\<lambda>sw. bind_res (mng_deliver Mng_readable mng_key sw) (\<lambda>(n, sw). Inr sw)))"
    by code_simp
  with run obtain n s' w' where step: "mng_deliver Mng_readable mng_key (s, w) = Inr (n, s', w')"
      "cf_users_size (w_config w') = 3"
    by (elim left_in_mngE) (auto elim!: bind_res_InrE)
  have "mng_session 0 ?start"
    by (rule mng_session.accepted [of _ _ example_mng]) code_simp+
  then have "mng_session 0 (s, w)"
    by (rule mng_session_deliver_all [OF _ _ run(1)]) code_simp
  moreover have "ATTACH mng_key = Inr 0"
    by code_simp
  moreover have "w_config w' \<noteq> w_config w"
    using run(2) step(2) by auto
  ultimately show ?thesis
    using configuring_needs_token [OF _ _ step(1)] run step by blast
qed

end
