(* ===== verification/MngRequests.thy ===== *)
theory MngRequests
  imports MngHandler
begin

text \<open>
  What the requests of an administrator do: the message is parsed, the operation of the
  configuration runs, and the reply is made. The buffers of a connection announce one byte more than
  their arrays have (\<open>mng_new\<close>), and a reply other than the login's is followed by whatever the
  array holds.
\<close>

section \<open>A whole message\<close>

context byte_parser
begin

lemma mng_receive_message:
  assumes key: "ATTACH key = Inr a" "k_fd key = int fd" "fd < ITEMS_MAX_SIZE"
    and s: "selector_ok s" "registered s fd = Some (j, h, d)"
    and m: "w_mngs w a = Some m" "get_member (mg_parsers m) = Inr p" "buffer_ok (mg_read_buffer m)"
    and bs: "w_answers w = RecvBytes bs # xs" "length bs \<le> room (mg_read_buffer m)" "bs \<noteq> []"
    and run: "parse_run feed (\<lambda>p. final (st p)) p (pending (mg_read_buffer m) @ bs) = Inr (q, rest)"
      "final (st q)"
    and consume: "\<And>b e. consume b p e = consume_loop feed st is_done (st p) b p e"
  shows "\<exists>s' b'. selector_ok s' \<and> registered s' = (registered s)(fd \<mapsto> (OP_WRITE, h, d)) \<and> fd_size s' = fd_size s \<and>
    buffer_ok b' \<and> pending b' = rest \<and> shape b' = shape (mg_read_buffer m) \<and>
    mng_receive here after get_member member consume is_done act key (s, w) =
      bind_res (act a q (failed (st q)) (m\<lparr>mg_read_buffer := b', mg_parsers := member q\<rparr>)
          (w\<lparr>w_answers := xs\<rparr>))
        (\<lambda>(err, m, w). Inr (if err then MNG_ERROR else after, s', put_mng a m w))"
proof -
  let ?b = "mg_read_buffer m"
  obtain b1 b2 where b2: "recv_into ?b w = Inr (bs, int (length bs), b1, w\<lparr>w_answers := xs\<rparr>)"
      "buffer_write_adv b1 (int (length bs)) = Inr b2" "buffer_ok b2" "pending b2 = pending ?b @ bs"
      "shape b2 = shape ?b"
    using recv_into_bytes [OF m(3) bs(1,2)] by metis
  from consume_refines [OF b2(3), of p q rest "Some False"] run(1) b2(4) bs(3) obtain b' where
    b': "consume_loop feed st is_done (st p) b2 p (Some False) =
        Inr (st q, b', q, if failed (st q) then Some True else Some False)" "buffer_ok b'" "pending b' = rest"
      "shape b' = shape ?b"
    by (auto simp: b2(5))
  obtain s' where s': "selector_set_interest s (int fd) OP_WRITE = Inr (SELECTOR_SUCCESS, s')" "selector_ok s'"
      "registered s' = (registered s)(fd \<mapsto> (OP_WRITE, h, d))" "fd_size s' = fd_size s"
    using selector_set_interest_ok [OF s key(3)] by blast
  have "\<not> INVALID_FD (int fd)"
    using key(3) by (simp add: INVALID_FD_def)
  then have "mng_receive here after get_member member consume is_done act key (s, w) =
      bind_res (act a q (failed (st q)) (m\<lparr>mg_read_buffer := b', mg_parsers := member q\<rparr>)
          (w\<lparr>w_answers := xs\<rparr>))
        (\<lambda>(err, m, w). Inr (if err then MNG_ERROR else after, s', put_mng a m w))"
    using b2 b' s' key m bs(3) run(2)
    by (simp add: mng_receive_def get_mng_def consume done_iff selector_set_interest_key_def)
  with b' s' show ?thesis
    by blast
qed

end

section \<open>A request from its first byte\<close>

text \<open>
  The connection of object \<open>a\<close> waits for a request: it is registered, its machine is in
  \<open>REQUEST\<close>, and its buffers are sound, of the size that \<open>mng_new\<close> gives them.
\<close>

definition at_request :: "key \<Rightarrow> nat \<Rightarrow> st \<Rightarrow> bool" where
  "at_request key a = (\<lambda>(s, w). ATTACH key = Inr a \<and> 0 \<le> k_fd key \<and> nat (k_fd key) < ITEMS_MAX_SIZE \<and>
     selector_ok s \<and> registered s (nat (k_fd key)) \<noteq> None \<and>
     (\<exists>m. w_mngs w a = Some m \<and> mg_stm_current m = Some REQUEST \<and>
        b_limit (mg_read_buffer m) = MNG_BUFFER_SIZE + 1 \<and>
        length (b_mem (mg_read_buffer m)) = MNG_BUFFER_SIZE \<and>
        b_limit (mg_write_buffer m) = MNG_BUFFER_SIZE + 1 \<and>
        length (b_mem (mg_write_buffer m)) = MNG_BUFFER_SIZE))"

lemma mng_deliver_run:
  assumes "ATTACH key = Inr a" and "w_mngs w a = Some m" and "mg_stm_current m = Some n" and "n \<le> MNG_ERROR"
    and "sd_on_read_ready (mng_state_definition key ! n) = Some f"
  shows "mng_deliver Mng_readable key (s, w) =
    bind_res (f (s, w)) (\<lambda>(ret, w). bind_res (stm_jump (mng_stm key) ret w) (\<lambda>w. Inr (ret, w)))"
  using assms by (simp add: stm_handler_read_def stm_handler_def handle_first_def mng_current_def get_mng_def
      mng_load)

lemma mng_jump:
  assumes "ATTACH key = Inr a" and "w_mngs w a = Some m" and "mg_stm_current m = Some n" and "n \<le> MNG_ERROR"
    and "t \<le> MNG_ERROR" and "t \<noteq> n"
  shows "sd_on_arrival (mng_state_definition key ! t) = None \<Longrightarrow>
      stm_jump (mng_stm key) t (s, w) = Inr (s, put_mng a (m\<lparr>mg_stm_current := Some t\<rparr>) w)"
    "sd_on_arrival (mng_state_definition key ! t) = Some (init_parser p key) \<Longrightarrow>
      stm_jump (mng_stm key) t (s, w) =
        Inr (s, put_mng a (m\<lparr>mg_stm_current := Some t, mg_parsers := p\<rparr>) w)"
  using assms by (simp_all add: stm_jump_def mng_current_def get_mng_def call_departure_def call_arrival_def
      mng_load mng_departure init_parser_def put_mng_def)

lemma mng_request_byte:
  assumes "at_request key a (s, w)" and "w_answers w = RecvBytes [c] # xs"
    and "w_mngs w a = Some m"
  obtains b where "buffer_ok b" "pending b = [c]" "room b = MNG_BUFFER_SIZE - 1"
    "mng_request key (s, w) = Inr (request_state c, s, put_mng a (m\<lparr>
       mg_write_buffer := buffer_reset (mg_write_buffer m), mg_read_buffer := b\<rparr>) (w\<lparr>w_answers := xs\<rparr>))"
proof -
  let ?b = "buffer_reset (mg_read_buffer m)"
  have b: "buffer_ok ?b" "pending ?b = []" "room ?b = MNG_BUFFER_SIZE" "announced ?b = MNG_BUFFER_SIZE + 1"
      "b_write ?b = 0"
    using assms(1,3) by (auto simp: at_request_def buffer_reset_def pending_def buffer_dims)
  obtain b1 b2 where b2: "buffer_poke ?b (b_write ?b) [c] = Inr b1" "buffer_write_adv b1 1 = Inr b2"
      "buffer_ok b2" "pending b2 = pending ?b @ [c]" "shape b2 = shape ?b" "room b2 = room ?b - length [c]"
    by (rule buffer_poke_adv_ok [OF b(1), of "[c]" 1]) (use b in \<open>auto simp: MNG_BUFFER_SIZE_def\<close>)
  show ?thesis
    by (rule that [of b2]) (use assms b b2 in \<open>auto simp: at_request_def mng_request_def Let_def get_mng_def
        buffer_write_ptr_ok MNG_BUFFER_SIZE_def sys_recv_def next_answer_def\<close>)
qed

lemma bind_res_assoc: "bind_res (bind_res x f) g = bind_res x (\<lambda>y. bind_res (f y) g)"
  by (cases x) auto

lemma bind_res_unit: "bind_res x Inr = x"
  by (cases x) auto

context byte_parser
begin

lemma request_run:
  assumes at: "at_request key a (s, w)" and m: "w_mngs w a = Some m"
    and ans: "w_answers w = RecvBytes [c] # RecvBytes bs # xs" "length bs < MNG_BUFFER_SIZE" "bs \<noteq> []"
    and n: "request_state c = n" "n \<noteq> REQUEST"
      "sd_on_arrival (mng_state_definition key ! n) = Some (init_parser (member p) key)"
      "sd_on_read_ready (mng_state_definition key ! n) =
        Some (mng_receive n REPLIES get_member member consume is_done act key)"
    and member: "get_member (member p) = Inr p"
    and run: "parse_run feed (\<lambda>p. final (st p)) p (c # bs) = Inr (q, rest)" "final (st q)"
    and consume: "\<And>b e. consume b p e = consume_loop feed st is_done (st p) b p e"
  shows "\<exists>s' m1 w1. selector_ok s' \<and> fd_size s' = fd_size s \<and>
    (\<exists>i h d. registered s (nat (k_fd key)) = Some (i, h, d) \<and> registered s' = (registered s)(nat (k_fd key) \<mapsto> (OP_WRITE, h, d))) \<and>
    mg_write_buffer m1 = buffer_reset (mg_write_buffer m) \<and> mg_status m1 = mg_status m \<and>
    mg_stm_current m1 = Some n \<and> w1 = put_mng a (the (w_mngs w1 a)) (w\<lparr>w_answers := xs\<rparr>) \<and>
    mng_deliver_all [Mng_readable, Mng_readable] key (s, w) =
      bind_res (act a q (failed (st q)) m1 w1) (\<lambda>(err, m, w).
      stm_jump (mng_stm key) (if err then MNG_ERROR else REPLIES) (s', put_mng a m w))"
proof -
  let ?xs = "RecvBytes bs # xs"
  have key: "ATTACH key = Inr a" and cur: "mg_stm_current m = Some REQUEST"
    and lt: "REQUEST \<le> MNG_ERROR" "n \<le> MNG_ERROR"
    using at m n(1) request_state_range [of c] by (auto simp: at_request_def mng_state_defs)
  obtain j h d where reg: "selector_ok s" "registered s (nat (k_fd key)) = Some (j, h, d)"
      "k_fd key = int (nat (k_fd key))" "nat (k_fd key) < ITEMS_MAX_SIZE"
    using at by (auto simp: at_request_def)
  obtain b where b: "buffer_ok b" "pending b = [c]" "room b = MNG_BUFFER_SIZE - 1"
      "mng_request key (s, w) = Inr (n, s, put_mng a (m\<lparr>
         mg_write_buffer := buffer_reset (mg_write_buffer m), mg_read_buffer := b\<rparr>) (w\<lparr>w_answers := ?xs\<rparr>))"
    using mng_request_byte [OF at ans(1) m] n(1) by metis
  let ?m = "m\<lparr>mg_write_buffer := buffer_reset (mg_write_buffer m), mg_read_buffer := b,
    mg_stm_current := Some n, mg_parsers := member p\<rparr>"
  let ?w = "put_mng a ?m (w\<lparr>w_answers := ?xs\<rparr>)"
  have first: "mng_deliver Mng_readable key (s, w) = Inr (n, s, ?w)"
    using mng_deliver_run [OF key m cur lt(1), of "mng_request key" s] b(4)
      mng_jump(2) [OF key _ _ lt(1,2) n(2) n(3), of _ _ s] cur
    by (simp add: put_mng_def)
  have "w_mngs ?w a = Some ?m" "w_answers ?w = ?xs"
    by (simp_all add: put_mng_def)
  with mng_receive_message [OF key reg(3,4,1,2), of ?w ?m get_member p bs xs q rest consume n REPLIES member act]
    member ans(2,3) b(1-3) run consume
  obtain s' b' where receive: "mng_receive n REPLIES get_member member consume is_done act key (s, ?w) =
      bind_res (act a q (failed (st q)) (?m\<lparr>mg_read_buffer := b', mg_parsers := member q\<rparr>)
          (?w\<lparr>w_answers := xs\<rparr>))
        (\<lambda>(err, m, w). Inr (if err then MNG_ERROR else REPLIES, s', put_mng a m w))"
      "selector_ok s'" "registered s' = (registered s)(nat (k_fd key) \<mapsto> (OP_WRITE, h, d))"
      "fd_size s' = fd_size s"
    by (auto simp: MNG_BUFFER_SIZE_def)
  let ?m1 = "?m\<lparr>mg_read_buffer := b', mg_parsers := member q\<rparr>" and ?w1 = "?w\<lparr>w_answers := xs\<rparr>"
  have "mng_deliver Mng_readable key (s, ?w) =
      bind_res (mng_receive n REPLIES get_member member consume is_done act key (s, ?w)) (\<lambda>(ret, w).
      bind_res (stm_jump (mng_stm key) ret w) (\<lambda>w. Inr (ret, w)))"
    by (rule mng_deliver_run [where m = ?m, OF key _ _ lt(2) n(4)]) (simp_all add: put_mng_def)
  then have "mng_deliver_all [Mng_readable, Mng_readable] key (s, w) =
      bind_res (act a q (failed (st q)) ?m1 ?w1) (\<lambda>(err, m, w).
      stm_jump (mng_stm key) (if err then MNG_ERROR else REPLIES) (s', put_mng a m w))"
    by (simp only: mng_deliver_all.simps first receive(1) bind_res.simps split_conv)
      (cases "act a q (failed (st q)) ?m1 ?w1"; auto simp: bind_res_assoc bind_res_unit)
  then show ?thesis
    using receive(2-4) reg(2) by (intro exI [of _ s'] exI [of _ ?m1] exI [of _ ?w1])
      (simp add: put_mng_def)
qed

end

section \<open>Requests that are answered with a status\<close>

text \<open>
  The reply is the status byte and everything behind it up to the limit, which is one byte more than
  the array has.
\<close>

definition reply_ready :: "u8 \<Rightarrow> mng \<Rightarrow> bool" where
  "reply_ready status m \<longleftrightarrow> mg_stm_current m = Some REPLIES \<and>
     b_read (mg_write_buffer m) = 0 \<and> b_write (mg_write_buffer m) = MNG_BUFFER_SIZE + 1 \<and>
     b_limit (mg_write_buffer m) = MNG_BUFFER_SIZE + 1 \<and>
     length (b_mem (mg_write_buffer m)) = MNG_BUFFER_SIZE \<and> hd (b_mem (mg_write_buffer m)) = status"

text \<open>
  Two events, a byte and the rest of a request: the reply is made, with the configuration \<open>c\<close>. Nothing else is different: the descriptor of the connection waits for
  being writable, and the world has a new object in \<open>a\<close> and has given the answers that were used.
\<close>

definition answered :: "key \<Rightarrow> st \<Rightarrow> nat \<Rightarrow> u8 \<Rightarrow> config \<Rightarrow> answer list \<Rightarrow> bool" where
  "answered key = (\<lambda>(s, w) a status c xs.
     \<exists>s' m. mng_deliver_all [Mng_readable, Mng_readable] key (s, w) =
         Inr (s', put_mng a m (w\<lparr>w_config := c, w_answers := xs\<rparr>)) \<and> reply_ready status m \<and>
       selector_ok s' \<and> fd_size s' = fd_size s \<and>
       (\<exists>i h d. registered s (nat (k_fd key)) = Some (i, h, d) \<and>
          registered s' = (registered s)(nat (k_fd key) \<mapsto> (OP_WRITE, h, d))))"

lemma reply_rest_fresh:
  assumes "length (b_mem b) = MNG_BUFFER_SIZE" and "b_limit b = MNG_BUFFER_SIZE + 1"
  shows "status_reply_rest (buffer_reset b) status =
    Inr (1, b\<lparr>b_mem := (b_mem b)[0 := status], b_read := 0, b_write := MNG_BUFFER_SIZE + 1\<rparr>)"
proof -
  have "b_mem b \<noteq> []"
    using assms(1) by (auto simp: MNG_BUFFER_SIZE_def)
  with assms show ?thesis
    by (simp add: status_reply_rest_def buffer_reset_def buffer_write_ptr_def buffer_poke_def store_range_def
        buffer_write_adv_def Let_def MNG_BUFFER_SIZE_def upd_conv_take_nth_drop)
qed

context byte_parser
begin

lemma request_answered:
  assumes at: "at_request key a (s, w)"
    and ans: "w_answers w = RecvBytes [c] # RecvBytes bs # xs" "length bs < MNG_BUFFER_SIZE" "bs \<noteq> []"
    and n: "request_state c = n" "n \<noteq> REQUEST" "n \<noteq> REPLIES"
      "sd_on_arrival (mng_state_definition key ! n) = Some (init_parser (member p) key)"
      "sd_on_read_ready (mng_state_definition key ! n) =
        Some (mng_receive n REPLIES get_member member consume is_done act key)"
    and member: "get_member (member p) = Inr p"
    and run: "parse_run feed (\<lambda>p. final (st p)) p (c # bs) = Inr (q, rest)" "final (st q)" "\<not> failed (st q)"
    and consume: "\<And>b e. consume b p e = consume_loop feed st is_done (st p) b p e"
    and act: "\<And>m1 w1. w_config w1 = w_config w \<Longrightarrow> \<exists>u. act a q False m1 w1 =
      mng_answer (\<lambda>b. status_reply_rest b status) False (m1\<lparr>mg_parsers := u\<rparr>) (w1\<lparr>w_config := c'\<rparr>)"
  shows "answered key (s, w) a status c' xs"
proof -
  obtain m where m: "w_mngs w a = Some m" "length (b_mem (mg_write_buffer m)) = MNG_BUFFER_SIZE"
      "b_limit (mg_write_buffer m) = MNG_BUFFER_SIZE + 1" and key: "ATTACH key = Inr a"
    using at by (auto simp: at_request_def)
  from request_run [OF at m(1) ans n(1,2,4,5) member run(1,2) consume] run(3) obtain s' m1 w1 where
    m1: "mg_write_buffer m1 = buffer_reset (mg_write_buffer m)" "mg_stm_current m1 = Some n"
      "w1 = put_mng a (the (w_mngs w1 a)) (w\<lparr>w_answers := xs\<rparr>)"
      "mng_deliver_all [Mng_readable, Mng_readable] key (s, w) =
        bind_res (act a q False m1 w1) (\<lambda>(err, m, w).
        stm_jump (mng_stm key) (if err then MNG_ERROR else REPLIES) (s', put_mng a m w))"
    and s': "selector_ok s'" "fd_size s' = fd_size s" "\<exists>i h d. registered s (nat (k_fd key)) = Some (i, h, d) \<and>
      registered s' = (registered s)(nat (k_fd key) \<mapsto> (OP_WRITE, h, d))"
    by auto
  have w1: "w_config w1 = w_config w" "w_answers w1 = xs"
    by (subst m1(3), simp add: put_mng_def)+
  let ?b = "(mg_write_buffer m)\<lparr>b_mem := (b_mem (mg_write_buffer m))[0 := status], b_read := 0,
    b_write := MNG_BUFFER_SIZE + 1\<rparr>"
  obtain u where u: "act a q False m1 w1 =
      Inr (False, m1\<lparr>mg_parsers := u, mg_write_buffer := ?b\<rparr>, w1\<lparr>w_config := c'\<rparr>)"
    using act [OF w1(1), of m1] reply_rest_fresh [OF m(2,3), of status] m1(1)
    by (auto simp: mng_answer_def)
  have rep: "sd_on_arrival (mng_state_definition key ! REPLIES) = None"
    by simp
  have n: "n \<le> MNG_ERROR" "REPLIES \<le> MNG_ERROR"
    using n(1) request_state_range [of c] by (auto simp: mng_state_defs)
  let ?m2 = "m1\<lparr>mg_parsers := u, mg_write_buffer := ?b\<rparr>" and ?w2 = "w1\<lparr>w_config := c'\<rparr>"
  have "stm_jump (mng_stm key) REPLIES (s', put_mng a ?m2 ?w2) =
      Inr (s', put_mng a (?m2\<lparr>mg_stm_current := Some REPLIES\<rparr>) (put_mng a ?m2 ?w2))"
    by (rule mng_jump(1) [where n = n, OF key _ _ n assms(7) [symmetric] rep])
      (simp_all add: put_mng_def m1(2))
  with u have "mng_deliver_all [Mng_readable, Mng_readable] key (s, w) =
      Inr (s', put_mng a (?m2\<lparr>mg_stm_current := Some REPLIES\<rparr>) (put_mng a ?m2 ?w2))"
    by (simp only: m1(4)) simp
  moreover have "put_mng a (?m2\<lparr>mg_stm_current := Some REPLIES\<rparr>) (put_mng a ?m2 ?w2) =
      put_mng a (?m2\<lparr>mg_stm_current := Some REPLIES\<rparr>) (w\<lparr>w_config := c', w_answers := xs\<rparr>)"
    by (subst m1(3)) (simp add: put_mng_def)
  moreover have "reply_ready status (?m2\<lparr>mg_stm_current := Some REPLIES\<rparr>)"
    using m(2,3) by (cases "b_mem (mg_write_buffer m)") (auto simp: reply_ready_def MNG_BUFFER_SIZE_def)
  ultimately show ?thesis
    unfolding answered_def split_conv using s' by (metis (no_types, lifting))
qed

end

lemma status_defs_zero:
  "put_STATUS_OK = 0" "edit_STATUS_OK = 0" "delete_STATUS_OK = 0" "configbuff_STATUS_OK = 0"
  "configstatus_STATUS_OK = 0" "get_STATUS_OK = 0"
  by (simp_all add: put_STATUS_OK_def edit_STATUS_OK_def delete_STATUS_OK_def configbuff_STATUS_OK_def
      configstatus_STATUS_OK_def get_STATUS_OK_def)

lemma final_states [simp]:
  "put_final admin_put_done" "\<not> put_failed admin_put_done" "edit_final admin_edit_done"
  "\<not> edit_failed admin_edit_done" "delete_final admin_delete_done" "\<not> delete_failed admin_delete_done"
  by (simp_all add: put_final_def put_failed_def edit_final_def edit_failed_def delete_final_def
      delete_failed_def)

lemma request_state_of [simp]:
  "request_state PUT = REQUEST_PUT" "request_state EDIT = REQUEST_EDIT" "request_state DELETE = REQUEST_DELETE"
  "request_state GET = REQUEST_GET" "request_state CONFIGSTATUS = REQUEST_CONFIGSTATUS"
  "request_state CONFIGBUFFSIZE = REQUEST_BUFFSIZE"
  by (simp_all add: request_state_def request_actions_defs)

section \<open>Properties\<close>

text \<open>The configurations differ in the array of the accounts and its size only.\<close>

definition same_settings :: "config \<Rightarrow> config \<Rightarrow> bool" where
  "same_settings c c' \<longleftrightarrow> c'\<lparr>cf_users := cf_users c, cf_users_size := cf_users_size c\<rparr> = c"

lemma same_settings_accounts: "c' = c\<lparr>cf_users := us, cf_users_size := n\<rparr> \<Longrightarrow> same_settings c c'"
  by (simp add: same_settings_def)

lemma same_settings_array: "c' = c\<lparr>cf_users := us\<rparr> \<Longrightarrow> same_settings c c'"
  by (simp add: same_settings_def)

lemma same_settings_refl [simp]: "same_settings c c"
  by (simp add: same_settings_def)

lemma put_answered:
  assumes "at_request key a (s, w)" and "w_answers w = RecvBytes [PUT] # RecvBytes bs # xs"
    and "PUT # bs = put_message u v" and "u \<noteq> []" and "v \<noteq> []" and "0 \<notin> set u" and "0 \<notin> set v"
    and "length u < MAX_USERNAME_SIZE" and "length v < MAX_USERNAME_SIZE" and "config_ok (w_config w)"
  shows "\<exists>c'. answered key (s, w) a (if cf_users_size (w_config w) + 1 < MAX_SOCKS_USERS then 0 else 5) c' xs \<and> config_ok c' \<and>
    same_settings (w_config w) c' \<and> accounts c' = accounts (w_config w) @
      (if cf_users_size (w_config w) + 1 < MAX_SOCKS_USERS then [(u, v)] else [])"
proof -
  let ?p = "admin_put_parser_init blank_put" and ?full = "\<not> cf_users_size (w_config w) + 1 < MAX_SOCKS_USERS"
  let ?q = "put_accepted blank_put u v"
  have len: "0 < length u" "length u < 255" "0 < length v" "length v < 255"
    using assms(4,5,8,9) by (auto simp: MAX_USERNAME_SIZE_def)
  have held: "holds_str (pu_username (aput_user ?q)) u" "holds_str (pu_passwd (aput_pass ?q)) v"
    using assms(6,7) by (auto simp: put_accepted_def holds_str_def)
  obtain c' where c': "add_user (w_config w) (pu_username (aput_user ?q)) (pu_passwd (aput_pass ?q)) =
        Inr (if ?full then -1 else 0, c')" "config_ok c'"
      "accounts c' = accounts (w_config w) @ (if ?full then [] else [(u, v)])" "same_settings (w_config w) c'"
  proof (cases ?full)
    case True
    with add_user_full assms(10) show ?thesis
      by (intro that [of "w_config w"]) (auto simp: not_less same_settings_def)
  next
    case False
    then obtain c' where c': "add_user (w_config w) (pu_username (aput_user ?q)) (pu_passwd (aput_pass ?q)) = Inr (0, c')"
        "config_ok c'" "accounts c' = accounts (w_config w) @ [(u, v)]"
        "c' = (w_config w)\<lparr>cf_users := cf_users c', cf_users_size := cf_users_size c'\<rparr>"
      using add_user_ok [OF assms(10) held assms(8,9)] by blast
    show ?thesis
      by (rule that [OF _ c'(2) _ same_settings_accounts [OF c'(4)]]) (use c'(1,3) False in simp_all)
  qed
  have "answered key (s, w) a (if ?full then 5 else 0) c' xs"
  proof (rule admin_put.request_answered [OF assms(1,2), where n = REQUEST_PUT and member = MP_put
        and get_member = put_parser and p = ?p and q = ?q and rest = "[]" and consume = admin_put_consume
        and act = put_act])
    show "parse_run admin_put_parser_feed (\<lambda>p. put_final (aput_state p)) ?p (PUT # bs) = Inr (?q, [])"
      using put_run_message [OF len, where rest = "[]" and p = blank_put] assms(3) by simp
    show "length bs < MNG_BUFFER_SIZE" "bs \<noteq> []"
      using arg_cong [OF assms(3), where f = length] len assms(3)
      by (auto simp: put_message_def MNG_BUFFER_SIZE_def MAX_USERNAME_SIZE_def)
    fix m1 and w1 :: world assume "w_config w1 = w_config w"
    then show "\<exists>u. put_act a ?q False m1 w1 = mng_answer (\<lambda>b. status_reply_rest b (if ?full then 5 else 0))
        False (m1\<lparr>mg_parsers := u\<rparr>) (w1\<lparr>w_config := c'\<rparr>)"
      using c'(1) by (auto simp: put_act_def put_accepted_def admin_put_marshall_def status_defs_zero)
  qed (simp_all add: admin_put_consume_def request_put_init_def request_put_request_def put_accepted_def,
      simp_all add: mng_state_defs)
  with c' show ?thesis
    by (intro exI [of _ c']) auto
qed

text \<open>C15. A PUT request that arrives while the connection waits for requests adds the account it
  names, behind the others, and is answered with status 0, when there are fewer than nine accounts;
  otherwise nothing changes and the status is 5. All other settings stay, and so does whatever else the server has. (Names and passwords of one to nine characters.)\<close>

theorem put_request_answered:
  assumes "at_request key a (s, w)" and "w_answers w = RecvBytes [PUT] # RecvBytes bs # xs"
    and "PUT # bs = put_message u v" and "u \<noteq> []" and "v \<noteq> []" and "0 \<notin> set u" and "0 \<notin> set v"
    and "length u < MAX_USERNAME_SIZE" and "length v < MAX_USERNAME_SIZE" and "config_ok (w_config w)"
  shows "\<exists>c'. answered key (s, w) a (if cf_users_size (w_config w) + 1 < MAX_SOCKS_USERS then 0 else 5) c' xs \<and> config_ok c' \<and>
    same_settings (w_config w) c' \<and> accounts c' = accounts (w_config w) @
      (if cf_users_size (w_config w) + 1 < MAX_SOCKS_USERS then [(u, v)] else [])"
  using assms by (rule put_answered)

lemma edit_request_reply:
  assumes "at_request key a (s, w)" and "w_answers w = RecvBytes [EDIT] # RecvBytes bs # xs"
    and "EDIT # bs = edit_message u t v" and len: "0 < length u" "length u < 255" "0 < length v" "length v < 255"
    and run: "edit_user (w_config w) (ae_username (edit_accepted blank_edit u t v))
      (ae_value (edit_accepted blank_edit u t v)) (attribute_code t) = Inr (r, c')"
  shows "answered key (s, w) a (if r = 0 then 0 else 7) c' xs"
proof -
  let ?p = "admin_edit_parser_init blank_edit" and ?q = "edit_accepted blank_edit u t v"
  show ?thesis
  proof (rule admin_edit.request_answered [OF assms(1,2), where n = REQUEST_EDIT and member = MP_edit
        and get_member = edit_parser and p = ?p and q = ?q and rest = "[]" and consume = admin_edit_consume
        and act = edit_act])
    show "parse_run admin_edit_parser_feed (\<lambda>p. edit_final (ae_state p)) ?p (EDIT # bs) = Inr (?q, [])"
      using edit_run_message [OF len, where rest = "[]" and p = blank_edit] assms(3)
      by (simp add: blank_edit_def)
    show "length bs < MNG_BUFFER_SIZE" "bs \<noteq> []"
      using arg_cong [OF assms(3), where f = length] len assms(3)
      by (auto simp: edit_message_def MNG_BUFFER_SIZE_def MAX_USERNAME_SIZE_def)
    fix m1 and w1 :: world assume "w_config w1 = w_config w"
    then show "\<exists>u. edit_act a ?q False m1 w1 = mng_answer (\<lambda>b. status_reply_rest b (if r = 0 then 0 else 7))
        False (m1\<lparr>mg_parsers := u\<rparr>) (w1\<lparr>w_config := c'\<rparr>)"
      using run by (auto simp: edit_act_def edit_accepted_def admin_edit_marshall_def status_defs_zero)
  qed (simp_all add: admin_edit_consume_def request_edit_init_def request_edit_request_def edit_accepted_def,
      simp_all add: mng_state_defs)
qed

text \<open>C17. An EDIT request gives the first account of the name it carries the new name or password, and
  is answered with status 0; when there is no such account, or the new value has ten characters or
  more, nothing changes and the status is 7. Only the accounts can change.\<close>

theorem edit_request_answered:
  assumes "at_request key a (s, w)" and "w_answers w = RecvBytes [EDIT] # RecvBytes bs # xs"
    and "EDIT # bs = edit_message u t v" and "u \<noteq> []" and "v \<noteq> []" and "0 \<notin> set u" and "0 \<notin> set v"
    and "length u < 255" and "length v < 255" and "config_ok (w_config w)"
  shows "\<exists>c'. config_ok c' \<and> same_settings (w_config w) c' \<and>
    (case position u (accounts (w_config w)) of
       Some i \<Rightarrow>
         if length v < MAX_USERNAME_SIZE then
           answered key (s, w) a 0 c' xs \<and>
           accounts c' = (accounts (w_config w))
             [i := if t = attr_username then (v, snd (accounts (w_config w) ! i)) else (u, v)]
         else
           answered key (s, w) a 7 c' xs \<and> c' = w_config w
     | None \<Rightarrow>
         answered key (s, w) a 7 c' xs \<and> c' = w_config w)"
proof -
  let ?c = "w_config w" and ?q = "edit_accepted blank_edit u t v"
  have len: "0 < length u" "length u < 255" "0 < length v" "length v < 255"
    using assms(4,5,8,9) by auto
  have held: "holds_str (ae_username ?q) u" "holds_str (ae_value ?q) v"
    using assms(6,7) by (auto simp: edit_accepted_def holds_str_def)
  note reply = edit_request_reply [OF assms(1-3) len]
  show ?thesis
  proof (cases "position u (accounts ?c)")
    case None
    then have "edit_user ?c (ae_username ?q) (ae_value ?q) (attribute_code t) = Inr (-1, ?c)"
      by (intro edit_user_unknown [OF assms(10) held(1)]) (simp add: position_None)
    with None reply [of "-1" ?c] assms(10) show ?thesis
      by (intro exI [of _ ?c]) simp
  next
    case (Some i)
    show ?thesis
    proof (cases "length v < MAX_USERNAME_SIZE")
      case True
      obtain c' where c': "edit_user ?c (ae_username ?q) (ae_value ?q) (attribute_code t) = Inr (0, c')" "config_ok c'"
          "accounts c' = (accounts ?c)[i := if attribute_code t = 0 then (v, snd (accounts ?c ! i)) else (u, v)]"
          "c' = ?c\<lparr>cf_users := cf_users c'\<rparr>"
        by (rule edit_user_ok [OF assms(10) held True Some])
      show ?thesis
        using True Some reply [OF c'(1)] c'(2,3) same_settings_array [OF c'(4)]
        by (intro exI [of _ c']) (cases t; simp only: attribute_code.simps; simp)
    next
      case False
      with edit_user_long [OF assms(10) held] reply [of "-1" ?c] assms(10) Some show ?thesis
        by (auto simp: not_less)
    qed
  qed
qed

lemma delete_request_reply:
  assumes "at_request key a (s, w)" and "w_answers w = RecvBytes [DELETE] # RecvBytes bs # xs"
    and "DELETE # bs = delete_message u" and len: "0 < length u" "length u < 255"
    and run: "delete_user (w_config w) (adel_username (delete_accepted blank_delete u)) = Inr (r, c')"
  shows "answered key (s, w) a (if r = 0 then 0 else 5) c' xs"
proof -
  let ?p = "admin_delete_parser_init blank_delete" and ?q = "delete_accepted blank_delete u"
  show ?thesis
  proof (rule admin_delete.request_answered [OF assms(1,2), where n = REQUEST_DELETE and member = MP_delete
        and get_member = delete_parser and p = ?p and q = ?q and rest = "[]" and consume = admin_delete_consume
        and act = delete_act])
    show "parse_run admin_delete_parser_feed (\<lambda>p. delete_final (adel_state p)) ?p (DELETE # bs) = Inr (?q, [])"
      using delete_run_message [OF len, where rest = "[]" and p = blank_delete] assms(3)
      by (simp add: blank_delete_def)
    show "length bs < MNG_BUFFER_SIZE" "bs \<noteq> []"
      using arg_cong [OF assms(3), where f = length] assms(3) len
      by (auto simp: delete_message_def MNG_BUFFER_SIZE_def)
    fix m1 and w1 :: world assume "w_config w1 = w_config w"
    then show "\<exists>u. delete_act a ?q False m1 w1 = mng_answer (\<lambda>b. status_reply_rest b (if r = 0 then 0 else 5))
        False (m1\<lparr>mg_parsers := u\<rparr>) (w1\<lparr>w_config := c'\<rparr>)"
      using run by (auto simp: delete_act_def delete_accepted_def admin_delete_marshall_def status_defs_zero)
  qed (simp_all add: admin_delete_consume_def request_delete_init_def request_delete_request_def
      delete_accepted_def, simp_all add: mng_state_defs)
qed

text \<open>C18. A DELETE request removes the first account of the name it carries, whose place the last
  account takes, and is answered with status 0; when there is no such account nothing changes and the
  status is 5. Only the accounts can change.\<close>

theorem delete_request_answered:
  assumes "at_request key a (s, w)" and "w_answers w = RecvBytes [DELETE] # RecvBytes bs # xs"
    and "DELETE # bs = delete_message u" and "u \<noteq> []" and "0 \<notin> set u" and "length u < 255"
    and "config_ok (w_config w)"
  shows "\<exists>c'. config_ok c' \<and> same_settings (w_config w) c' \<and>
    (case position u (accounts (w_config w)) of
       Some i \<Rightarrow>
         answered key (s, w) a 0 c' xs \<and>
         accounts c' = butlast ((accounts (w_config w))[i := last (accounts (w_config w))])
     | None \<Rightarrow>
         answered key (s, w) a 5 c' xs \<and> c' = w_config w)"
proof -
  let ?c = "w_config w" and ?q = "delete_accepted blank_delete u"
  have len: "0 < length u" "length u < 255"
    using assms(4,6) by auto
  have held: "holds_str (adel_username ?q) u"
    using assms(5) by (auto simp: delete_accepted_def holds_str_def)
  note reply = delete_request_reply [OF assms(1-3) len]
  show ?thesis
  proof (cases "position u (accounts ?c)")
    case None
    then have "delete_user ?c (adel_username ?q) = Inr (-1, ?c)"
      by (intro delete_user_unknown [OF assms(7) held]) (simp add: position_None)
    with None reply [of "-1" ?c] assms(7) show ?thesis
      by (intro exI [of _ ?c]) simp
  next
    case (Some i)
    obtain c' where c': "delete_user ?c (adel_username ?q) = Inr (0, c')" "config_ok c'"
        "accounts c' = butlast ((accounts ?c)[i := last (accounts ?c)])"
        "c' = ?c\<lparr>cf_users := cf_users c', cf_users_size := cf_users_size c'\<rparr>"
      by (rule delete_user_ok [OF assms(7) held Some])
    show ?thesis
      using Some reply [OF c'(1)] c'(2,3) same_settings_accounts [OF c'(4)] by (intro exI [of _ c']) simp
  qed
qed

text \<open>C19. A CONFIGSTATUS request switches the authentication (field 3) or the sniffer (field 4) on
  (status 0) or off (status 1), leaves everything else of the configuration alone, and is answered
  with status 0.\<close>

theorem configstatus_request_answered:
  assumes "at_request key a (s, w)" and "w_answers w = RecvBytes [CONFIGSTATUS] # RecvBytes [f, b] # xs"
    and "f \<in> {0x03, 0x04}" and "b \<in> {0x00, 0x01}"
  shows "answered key (s, w) a 0
    (if f = 0x03 then (w_config w)\<lparr>cf_auth_enabled := (b = 0)\<rparr>
     else (w_config w)\<lparr>cf_disectors_enabled := (b = 0)\<rparr>) xs"
proof -
  let ?p = "admin_configstatus_parser_init blank_configstatus"
  let ?q = "\<lparr>as_state = admin_configstatus_done, as_action = 0x04, as_field = f,
      as_status = configstatus_STATUS_OK, as_config_status = b\<rparr>"
  show ?thesis
  proof (rule admin_configstatus.request_answered [OF assms(1,2), where n = REQUEST_CONFIGSTATUS
        and member = MP_conf_status and get_member = configstatus_parser and p = ?p and q = ?q
        and rest = "[]" and consume = admin_configstatus_consume and act = configstatus_act])
    show "parse_run admin_configstatus_parser_feed (\<lambda>p. configstatus_final (as_state p)) ?p
        (CONFIGSTATUS # [f, b]) = Inr (?q, [])"
      using configstatus_run_message [OF assms(3,4), of blank_configstatus "[]"]
      by (simp add: CONFIGSTATUS_def)
    fix m1 :: mng and w1 :: world assume "w_config w1 = w_config w"
    moreover have "m1\<lparr>mg_parsers := mg_parsers m1\<rparr> = m1"
      by simp
    ultimately show "\<exists>u. configstatus_act a ?q False m1 w1 = mng_answer (\<lambda>b. status_reply_rest b 0) False
        (m1\<lparr>mg_parsers := u\<rparr>) (w1\<lparr>w_config := (if f = 0x03 then (w_config w)\<lparr>cf_auth_enabled := (b = 0)\<rparr>
          else (w_config w)\<lparr>cf_disectors_enabled := (b = 0)\<rparr>)\<rparr>)"
      using assms(3) by (intro exI [of _ "mg_parsers m1"])
        (auto simp: configstatus_act_def set_status_def set_auth_status_def set_sniff_status_def Let_def
          admin_configbuff_marshall_def status_defs_zero)
  qed (simp_all add: admin_configstatus_consume_def request_configstatus_init_def
      request_configstatus_request_def configstatus_final_def configstatus_failed_def MNG_BUFFER_SIZE_def,
      simp_all add: mng_state_defs)
qed

text \<open>C38. The answer to such a request announces 4097 bytes of an array of 4096: a call of \<open>send\<close> that
  takes all of them reads behind the array, and one that takes fewer sends the status and whatever the
  array held behind it, and waits to send the rest.\<close>

theorem status_reply_overrun:
  assumes "w_mngs w a = Some m" and "reply_ready status m" and "ATTACH key = Inr a"
    and "w_answers w = SentBytes n # xs" and "0 < n" and "n \<le> MNG_BUFFER_SIZE + 1"
  shows "if n = MNG_BUFFER_SIZE + 1 then mng_deliver Mng_writable key (s, w) = Inl OutOfBounds
    else \<exists>w'. mng_deliver Mng_writable key (s, w) = Inr (REPLIES, s, w') \<and>
      w_events w' = w_events w @ [SentTo (k_fd key) (status # take (n - 1) (tl (b_mem (mg_write_buffer m))))]"
proof -
  let ?b = "mg_write_buffer m"
  have b: "b_read ?b = 0" "b_write ?b = 4097" "b_limit ?b = 4097" "length (b_mem ?b) = 4096"
      "hd (b_mem ?b) = status" "mg_stm_current m = Some REPLIES" and n: "0 < n" "n \<le> 4097"
    using assms(2,5,6) by (auto simp: reply_ready_def MNG_BUFFER_SIZE_def)
  have le: "REPLIES \<le> MNG_ERROR"
    by (simp add: mng_state_defs)
  have run: "mng_deliver Mng_writable key (s, w) =
      bind_res (mng_replies key (s, w)) (\<lambda>(ret, w). bind_res (stm_jump (mng_stm key) ret w) (\<lambda>w. Inr (ret, w)))"
    using assms(1,3) b(6) mng_load [OF le, of key]
    by (simp add: stm_handler_write_def stm_handler_def handle_first_def mng_current_def get_mng_def)
  show ?thesis
  proof (cases "n = 4097")
    case True
    then have "send_from (k_fd key) ?b w = Inl OutOfBounds"
      using assms(4) b by (simp add: send_from_def buffer_read_ptr_def next_answer_def load_range_def)
    with True assms(1,3) run show ?thesis
      by (simp add: mng_replies_def get_mng_def MNG_BUFFER_SIZE_def)
  next
    case False
    let ?sent = "take n (b_mem ?b)" and ?w = "emit (SentTo (k_fd key) (take n (b_mem ?b))) (w\<lparr>w_answers := xs\<rparr>)"
    have "send_from (k_fd key) ?b w = Inr (?sent, int n, ?w)"
      using assms(4) b n False by (simp add: send_from_def buffer_read_ptr_def next_answer_def load_range_def)
    moreover have "buffer_read_adv ?b (int n) = Inr (?b\<lparr>b_read := n\<rparr>)"
      using b n False by (simp add: buffer_read_adv_def Let_def)
    ultimately have "mng_replies key (s, w) =
        Inr (REPLIES, s, put_mng a (m\<lparr>mg_write_buffer := ?b\<lparr>b_read := n\<rparr>\<rparr>) ?w)"
      using assms(1,3) b n False by (simp add: mng_replies_def get_mng_def buffer_can_read_def)
    moreover have "?sent = status # take (n - 1) (tl (b_mem ?b))"
      using b n by (cases "b_mem ?b"; cases n) auto
    ultimately show ?thesis
      using False run assms(3) b(6) le
      by (simp add: MNG_BUFFER_SIZE_def stm_jump_def mng_current_def get_mng_def put_mng_def emit_def)
  qed
qed

text \<open>What the action of GET users leaves, on a write buffer that was reset.\<close>

lemma get_act_users:
  assumes c: "config_ok (w_config w1)" and ans: "w_answers w1 = Bytes junk # xs" "length junk = MAX_RES_SIZE"
    and b: "mg_write_buffer m1 = buffer_reset b" "length (b_mem b) = MNG_BUFFER_SIZE"
      "b_limit b = MNG_BUFFER_SIZE + 1"
    and p: "p = \<lparr>ag_state = admin_get_done, ag_option = opt_users, ag_status = get_STATUS_OK\<rparr>"
    and l: "l = listing (accounts (w_config w1)) @ [0]"
  obtains b' where "get_act a p False m1 w1 = Inr (False, m1\<lparr>mg_write_buffer := b'\<rparr>, w1\<lparr>w_answers := xs\<rparr>)"
    "pending b' = [0, of_nat (length l)] @ l" "length l < 256"
proof -
  let ?res = "l @ drop (length l) junk"
  have len: "length l < 256"
    using length_listing_accounts [OF c] c l by (simp add: config_ok_def MAX_SOCKS_USERS_def)
  have users: "get_users (w_config w1) junk 255 = Inr (int (length l), ?res)"
    using get_users_ok [OF c, of 255 junk] ans(2) l by (simp add: MAX_RES_SIZE_def add.commute)
  have fresh: "buffer_ok (buffer_reset b)" "pending (buffer_reset b) = []" "room (buffer_reset b) = MNG_BUFFER_SIZE"
    using b(2,3) by (auto simp: buffer_reset_def pending_def buffer_dims)
  obtain b' where b': "admin_get_marshall (buffer_reset b) 0 ?res (int (length l)) = Inr (2 + int (length l), b')"
      "pending b' = [0, of_nat (length l)] @ l"
    using admin_get_marshall_ok [OF fresh(1), of "length l" ?res 0] fresh(2,3) len
    by (auto simp: MNG_BUFFER_SIZE_def)
  have "get_act a p False m1 w1 = Inr (False, m1\<lparr>mg_write_buffer := b'\<rparr>, w1\<lparr>w_answers := xs\<rparr>)"
    using ans users b'(1) b(1) p
    by (simp add: get_act_def stack_bytes_def next_answer_def get_value_def MAX_RES_SIZE_def mng_answer_def
        status_defs_zero)
  then show ?thesis
    using b'(2) len by (rule that)
qed

lemma get_users_answered:
  assumes "at_request key a (s, w)" and "w_answers w = RecvBytes [GET] # RecvBytes [0] # Bytes junk # xs"
    and "length junk = MAX_RES_SIZE" and "config_ok (w_config w)"
  shows "\<exists>s' w' m'. mng_deliver_all [Mng_readable, Mng_readable] key (s, w) = Inr (s', w') \<and>
    w_config w' = w_config w \<and> w_answers w' = xs \<and> w_mngs w' a = Some m' \<and>
    mg_stm_current m' = Some REPLIES \<and>
    (let l = listing (accounts (w_config w)) @ [0] in
     pending (mg_write_buffer m') = [0, of_nat (length l)] @ l \<and> length l < 256)"
proof -
  let ?p = "admin_get_parser_init blank_get" and ?l = "listing (accounts (w_config w)) @ [0]"
  let ?q = "\<lparr>ag_state = admin_get_done, ag_option = opt_users, ag_status = get_STATUS_OK\<rparr>"
  obtain m where m: "w_mngs w a = Some m" "length (b_mem (mg_write_buffer m)) = MNG_BUFFER_SIZE"
      "b_limit (mg_write_buffer m) = MNG_BUFFER_SIZE + 1" and key: "ATTACH key = Inr a"
    using assms(1) by (auto simp: at_request_def)
  have "\<exists>s' m1 w1. selector_ok s' \<and> fd_size s' = fd_size s \<and>
    (\<exists>i h d. registered s (nat (k_fd key)) = Some (i, h, d) \<and> registered s' = (registered s)(nat (k_fd key) \<mapsto> (OP_WRITE, h, d))) \<and>
    mg_write_buffer m1 = buffer_reset (mg_write_buffer m) \<and> mg_status m1 = mg_status m \<and>
    mg_stm_current m1 = Some REQUEST_GET \<and> w1 = put_mng a (the (w_mngs w1 a)) (w\<lparr>w_answers := Bytes junk # xs\<rparr>) \<and>
    mng_deliver_all [Mng_readable, Mng_readable] key (s, w) =
      bind_res (get_act a ?q (get_failed (ag_state ?q)) m1 w1) (\<lambda>(err, m, w).
      stm_jump (mng_stm key) (if err then MNG_ERROR else REPLIES) (s', put_mng a m w))"
  proof (rule admin_get.request_run [OF assms(1) m(1) assms(2), where n = REQUEST_GET and member = MP_get
        and get_member = get_parser and p = ?p and q = ?q and rest = "[]" and consume = admin_get_consume
        and act = get_act])
    show "parse_run admin_get_parser_feed (\<lambda>p. get_final (ag_state p)) ?p (GET # [0]) = Inr (?q, [])"
      using get_run_message [of blank_get opt_users "[]"] by (simp add: GET_def)
  qed (simp_all add: admin_get_consume_def request_get_init_def request_get_request_def get_final_def
      MNG_BUFFER_SIZE_def, simp add: mng_state_defs)
  then obtain s' m1 w1 where m1: "mg_write_buffer m1 = buffer_reset (mg_write_buffer m)"
      "mg_stm_current m1 = Some REQUEST_GET"
      "w1 = put_mng a (the (w_mngs w1 a)) (w\<lparr>w_answers := Bytes junk # xs\<rparr>)"
      "mng_deliver_all [Mng_readable, Mng_readable] key (s, w) =
        bind_res (get_act a ?q False m1 w1) (\<lambda>(err, m, w).
        stm_jump (mng_stm key) (if err then MNG_ERROR else REPLIES) (s', put_mng a m w))"
    by (auto simp: get_failed_def simp del: mng_deliver_all.simps)
  have w1: "w_config w1 = w_config w" "w_answers w1 = Bytes junk # xs"
    by (subst m1(3), simp add: put_mng_def)+
  let ?w2 = "w1\<lparr>w_answers := xs\<rparr>"
  obtain b' where b': "get_act a ?q False m1 w1 = Inr (False, m1\<lparr>mg_write_buffer := b'\<rparr>, ?w2)"
      "pending b' = [0, of_nat (length ?l)] @ ?l" "length ?l < 256"
    by (rule get_act_users [where ?w1.0 = w1, OF _ w1(2) assms(3) m1(1) m(2,3) refl refl])
      (use w1(1) assms(4) in simp_all)
  let ?m2 = "m1\<lparr>mg_write_buffer := b'\<rparr>"
  have le: "REQUEST_GET \<le> MNG_ERROR" "REPLIES \<le> MNG_ERROR" "REPLIES \<noteq> REQUEST_GET"
    by (simp_all add: mng_state_defs)
  have "stm_jump (mng_stm key) REPLIES (s', put_mng a ?m2 ?w2) =
      Inr (s', put_mng a (?m2\<lparr>mg_stm_current := Some REPLIES\<rparr>) (put_mng a ?m2 ?w2))"
    by (rule mng_jump(1) [where n = REQUEST_GET, OF key _ _ le]) (simp_all add: put_mng_def m1(2))
  with b'(1) m1(4) have "mng_deliver_all [Mng_readable, Mng_readable] key (s, w) =
      Inr (s', put_mng a (?m2\<lparr>mg_stm_current := Some REPLIES\<rparr>) (put_mng a ?m2 ?w2))"
    by (simp del: mng_deliver_all.simps)
  with b'(2,3) w1 show ?thesis
    by (intro exI) (auto simp: put_mng_def Let_def simp del: mng_deliver_all.simps)
qed

text \<open>A GET request for the users is answered with status 0, the length of the list, and the list:
  every account as its name, a space, its password and a line feed, with a zero byte at the end. The
  configuration is as before.\<close>

theorem get_users_request_answered:
  assumes "at_request key a (s, w)" and "w_answers w = RecvBytes [GET] # RecvBytes [0] # Bytes junk # xs"
    and "length junk = MAX_RES_SIZE" and "config_ok (w_config w)"
  shows "\<exists>s' w' m'. mng_deliver_all [Mng_readable, Mng_readable] key (s, w) = Inr (s', w') \<and>
    w_config w' = w_config w \<and> w_answers w' = xs \<and> w_mngs w' a = Some m' \<and>
    mg_stm_current m' = Some REPLIES \<and>
    (let l = listing (accounts (w_config w)) @ [0] in
     pending (mg_write_buffer m') = [0, of_nat (length l)] @ l \<and> length l < 256)"
  using assms by (rule get_users_answered)

section \<open>Examples\<close>

text \<open>The administrator's connection of before, waiting for a request.\<close>

definition requesting :: "answer list \<Rightarrow> st" where
  "requesting answers = (mng_selector, (mng_world answers)\<lparr>w_mngs := [0 \<mapsto> example_mng\<lparr>
     mg_stm_current := Some REQUEST,
     mg_read_buffer := buffer_init (MNG_BUFFER_SIZE + 1) (replicate MNG_BUFFER_SIZE 0),
     mg_write_buffer := buffer_init (MNG_BUFFER_SIZE + 1) (replicate MNG_BUFFER_SIZE 0)\<rparr>]\<rparr>)"

lemma mng_selector_ok: "selector_ok mng_selector" "registered mng_selector 6 = Some (OP_READ, Some H_mng, Some (Mng_at 0))"
proof -
  let ?fds = "replicate 6 (zero_item\<lparr>it_fd := FD_UNUSED\<rparr>) @ [\<lparr>it_fd = 6, it_interest = OP_READ, it_handler = Some H_mng, it_data = Some (Mng_at 0)\<rparr>]"
  have fds: "s_fds mng_selector = Some ?fds"
    by (simp add: mng_selector_def)
  have used: "ITEM_USED (?fds ! i) \<longleftrightarrow> i = 6" if "i < 7" for i
    using that by (cases "i < 6") (auto simp: ITEM_USED_def FD_UNUSED_def nth_append)
  have reg: "registered mng_selector i = (if i = 6 then Some (OP_READ, Some H_mng, Some (Mng_at 0)) else None)" for i
    using used [of i] by (auto simp: registered_fds [OF fds] nth_append)
  then show "registered mng_selector 6 = Some (OP_READ, Some H_mng, Some (Mng_at 0))"
    by simp
  have "{i. wants OP_READ mng_selector i} = {6}" "{i. wants OP_WRITE mng_selector i} = {}"
    by (auto simp: wants_def reg OP_READ_def OP_WRITE_def)
  moreover have "items_ok ?fds 6"
    using used by (auto simp: items_ok_def nth_append)
  ultimately show "selector_ok mng_selector"
    by (simp add: selector_ok_def fds fd_size_def) (simp add: mng_selector_def)
qed

lemma requesting_ok: "at_request mng_key 0 (requesting answers)"
  using mng_selector_ok by (simp add: at_request_def requesting_def mng_key_def ATTACH_def ITEMS_MAX_SIZE_def
      buffer_init_def example_mng_def)

lemma requesting_simps:
  "requesting answers = (mng_selector, snd (requesting answers))"
  "w_answers (snd (requesting answers)) = answers" "w_config (snd (requesting answers)) = example_config"
  by (simp_all add: requesting_def mng_world_def)

theorem put_request_answered_witness:
  "\<exists>c'. answered mng_key (requesting [RecvBytes [PUT], RecvBytes [0, 1, 99, 1, 122]]) 0 0 c' [] \<and> config_ok c' \<and>
    accounts c' = [([97], [120]), ([98], [121]), ([99], [122])]"
proof -
  let ?answers = "[RecvBytes [PUT], RecvBytes [0, 1, 99, 1, 122]]"
  have "\<exists>c'. answered mng_key (mng_selector, snd (requesting ?answers)) 0 (if cf_users_size example_config + 1 < MAX_SOCKS_USERS then 0 else 5) c' [] \<and>
      config_ok c' \<and> same_settings example_config c' \<and> accounts c' = accounts example_config @
        (if cf_users_size example_config + 1 < MAX_SOCKS_USERS then [([99], [122])] else [])"
    using put_request_answered [of mng_key 0 mng_selector "snd (requesting ?answers)" "[0, 1, 99, 1, 122]"
        "[]" "[99]" "[122]"] requesting_ok [of ?answers] requesting_simps [of ?answers]
      example_config_ok(1)
    by (simp add: put_message_def PUT_def MAX_USERNAME_SIZE_def)
  then show ?thesis
    using requesting_simps(1) [of ?answers] example_config_ok(2,3) by (auto simp: MAX_SOCKS_USERS_def)
qed

theorem edit_request_answered_witness:
  "\<exists>c'. answered mng_key (requesting [RecvBytes [EDIT], RecvBytes [0, 1, 97, 1, 2, 122, 122]]) 0 0 c' [] \<and> config_ok c' \<and>
    accounts c' = [([97], [122, 122]), ([98], [121])]"
proof -
  let ?answers = "[RecvBytes [EDIT], RecvBytes [0, 1, 97, 1, 2, 122, 122]]"
  show ?thesis
    using edit_request_answered [of mng_key 0 mng_selector "snd (requesting ?answers)" "[0, 1, 97, 1, 2, 122, 122]"
        "[]" "[97]" attr_password "[122, 122]"] requesting_ok [of ?answers] requesting_simps [of ?answers]
      example_config_ok
    by (auto simp: edit_message_def EDIT_def MAX_USERNAME_SIZE_def simp del: mng_deliver_all.simps)
qed

theorem delete_request_answered_witness:
  "\<exists>c'. answered mng_key (requesting [RecvBytes [DELETE], RecvBytes [0, 1, 97]]) 0 0 c' [] \<and> config_ok c' \<and>
    accounts c' = [([98], [121])]"
proof -
  let ?answers = "[RecvBytes [DELETE], RecvBytes [0, 1, 97]]"
  show ?thesis
    using delete_request_answered [of mng_key 0 mng_selector "snd (requesting ?answers)" "[0, 1, 97]"
        "[]" "[97]"] requesting_ok [of ?answers] requesting_simps [of ?answers] example_config_ok
    by (auto simp: delete_message_def DELETE_def simp del: mng_deliver_all.simps)
qed

theorem configstatus_request_answered_witness:
  "answered mng_key (requesting [RecvBytes [CONFIGSTATUS], RecvBytes [3, 1]]) 0 0 (example_config\<lparr>cf_auth_enabled := False\<rparr>) []"
proof -
  let ?answers = "[RecvBytes [CONFIGSTATUS], RecvBytes [3, 1]]"
  show ?thesis
    using configstatus_request_answered [of mng_key 0 mng_selector "snd (requesting ?answers)" 3 1 "[]"]
      requesting_ok [of ?answers] requesting_simps [of ?answers]
    by (simp del: mng_deliver_all.simps)
qed

text \<open>The connection of the example, about to write a reply of status 0.\<close>

definition replying_mng :: mng where
  "replying_mng = example_mng\<lparr>mg_stm_current := Some REPLIES, mg_write_buffer :=
     \<lparr>b_mem = replicate MNG_BUFFER_SIZE 0, b_limit = MNG_BUFFER_SIZE + 1, b_read = 0,
      b_write = MNG_BUFFER_SIZE + 1\<rparr>\<rparr>"

theorem status_reply_overrun_witness:
  "mng_deliver Mng_writable mng_key
    (mng_selector, (mng_world [SentBytes 4097])\<lparr>w_mngs := [0 \<mapsto> replying_mng]\<rparr>) = Inl OutOfBounds"
proof -
  have "reply_ready 0 replying_mng"
    by (simp add: reply_ready_def replying_mng_def MNG_BUFFER_SIZE_def)
  then show ?thesis
    using status_reply_overrun [of "(mng_world [SentBytes 4097])\<lparr>w_mngs := [0 \<mapsto> replying_mng]\<rparr>" 0
        replying_mng 0 mng_key 4097 "[]" mng_selector]
    by (simp add: mng_world_def mng_key_def ATTACH_def MNG_BUFFER_SIZE_def)
qed

theorem get_users_request_answered_witness:
  "\<exists>s' w' m'. mng_deliver_all [Mng_readable, Mng_readable] mng_key
      (requesting [RecvBytes [GET], RecvBytes [0], Bytes (replicate 255 7)]) = Inr (s', w') \<and>
    w_mngs w' 0 = Some m' \<and> mg_stm_current m' = Some REPLIES \<and>
    pending (mg_write_buffer m') = [0, 9] @ [97, 32, 120, 10, 98, 32, 121, 10, 0]"
proof -
  let ?answers = "[RecvBytes [GET], RecvBytes [0], Bytes (replicate 255 7)]"
  show ?thesis
    using get_users_request_answered [of mng_key 0 mng_selector "snd (requesting ?answers)" "replicate 255 7" "[]"]
      requesting_ok [of ?answers] requesting_simps [of ?answers] example_config_ok(1,2)
    by (auto simp: Let_def listing_def MAX_RES_SIZE_def simp del: mng_deliver_all.simps)
qed

end
