(* ===== verification/Relay.thy ===== *)
theory Relay
  imports Socks5
begin

text \<open>
  The state COPY as a relay of two byte streams. \<open>copy_read\<close> and \<open>copy_write\<close> are seen from outside:
  what \<open>recv\<close> answered, what reached the sockets. The abstract relay is a pair of queues, the bytes
  that wait for the final server and those that wait for the client.
\<close>

section \<open>The calls, from their results\<close>

text \<open>What the next call of \<open>recv\<close> answers.\<close>

definition received :: "world \<Rightarrow> u8 list" where
  "received w = (case w_answers w of RecvBytes bs # _ \<Rightarrow> bs | _ \<Rightarrow> [])"

lemma recv_into_outcome:
  assumes run: "recv_into b w = Inr (bs, n, b1, w1)" and ok: "buffer_ok b"
  shows "w_events w1 = w_events w \<and> w_socks w1 = w_socks w \<and> (n \<le> 0 \<longrightarrow> b1 = b \<and> bs = []) \<and>
    (0 < n \<longrightarrow> (\<exists>b2. buffer_write_adv b1 n = Inr b2 \<and> buffer_ok b2 \<and> pending b2 = pending b @ bs)) \<and>
    bs = received w"
proof -
  obtain sz r w2 where sz: "buffer_write_ptr b = Inr (b_write b, sz)" "sys_recv sz w = Inr (r, w2)"
      "(case r of None \<Rightarrow> Inr ([], -1, b, w2)
        | Some bs \<Rightarrow> bind_res (buffer_poke b (b_write b) bs) (\<lambda>b. Inr (bs, int (length bs), b, w2))) =
        Inr (bs, n, b1, w1)"
    using run ok by (auto simp: recv_into_def buffer_write_ptr_ok elim!: bind_res_InrE)
  show ?thesis
  proof (cases r)
    case None
    with sz show ?thesis
      by (auto simp: sys_recv_def next_answer_def received_def elim!: bind_res_InrE
          split: list.splits answer.splits if_splits)
  next
    case (Some cs)
    then have r: "buffer_poke b (b_write b) cs = Inr b1" "bs = cs" "n = int (length cs)" "w2 = w1"
      using sz(3) by (auto elim!: bind_res_InrE)
    have ans: "w_answers w = RecvBytes bs # w_answers w1" "w_events w1 = w_events w" "w_socks w1 = w_socks w"
      using sz(2) Some r by (auto simp: sys_recv_def next_answer_def elim!: bind_res_InrE
          split: list.splits answer.splits if_splits)
    have "length cs \<le> announced b"
      using sz(1,2) Some ok by (auto simp: buffer_write_ptr_ok sys_recv_def elim!: bind_res_InrE
          split: answer.splits if_splits)
    then have le: "length cs \<le> room b"
      using r(1) ok by (auto simp: buffer_poke_def store_range_def buffer_dims elim!: bind_res_InrE split: if_splits)
    obtain b2 c1 where "recv_into b w = Inr (bs, int (length bs), c1, w\<lparr>w_answers := w_answers w1\<rparr>)"
        "buffer_write_adv c1 (int (length bs)) = Inr b2" "buffer_ok b2" "pending b2 = pending b @ bs"
      using recv_into_bytes [OF ok ans(1)] le r(2) by metis
    moreover have "cs = [] \<Longrightarrow> b1 = b"
      using r(1) by (auto simp: buffer_poke_def store_range_def elim!: bind_res_InrE split: if_splits)
    moreover have "bs = received w"
      by (simp add: received_def ans(1))
    ultimately show ?thesis
      using ans(2,3) r(2,3) run by auto
  qed
qed

lemma recv_into_result:
  assumes "recv_into b w = Inr (bs, n, b1, w1)" and "buffer_ok b"
  shows "w_events w1 = w_events w" "w_socks w1 = w_socks w" "bs = received w"
    "n \<le> 0 \<Longrightarrow> b1 = b \<and> bs = []"
    "0 < n \<Longrightarrow> \<exists>b2. buffer_write_adv b1 n = Inr b2 \<and> buffer_ok b2 \<and> pending b2 = pending b @ bs"
  using recv_into_outcome [OF assms] by auto

lemma send_from_result:
  assumes run: "send_from fd b w = Inr (bs, n, w1)" and ok: "buffer_ok b"
  shows "w_socks w1 = w_socks w \<and>
    (n < 0 \<longrightarrow> w_events w1 = w_events w) \<and>
    (0 \<le> n \<longrightarrow> bs = take (nat n) (pending b) \<and> nat n \<le> length (pending b) \<and>
      w_events w1 = w_events w @ [SentTo fd bs])"
proof -
  obtain x xs where x: "w_answers w = x # xs" "x = SendFails \<or> (\<exists>m. x = SentBytes m \<and> m \<le> length (pending b))"
    using run ok by (auto simp: send_from_def buffer_read_ptr_ok next_answer_def elim!: bind_res_InrE
        split: list.splits answer.splits if_splits)
  show ?thesis
  proof (cases "x = SendFails")
    case True
    with run x(1) ok show ?thesis
      by (auto simp: send_from_def buffer_read_ptr_ok next_answer_def elim!: bind_res_InrE)
  next
    case False
    then obtain m where m: "x = SentBytes m" "m \<le> length (pending b)"
      using x(2) by auto
    with send_from_bytes [OF ok, of w m xs fd] x(1) run show ?thesis
      by (auto simp: emit_def)
  qed
qed

section \<open>Objects that copy\<close>

definition client_copy :: "fd_interest \<Rightarrow> copy_data" where
  "client_copy i = \<lparr>cd_fd = Client_fd, cd_rb = Read_buffer, cd_wb = Write_buffer, cd_interest = i,
     cd_other_copy = Server_side\<rparr>"

definition server_copy :: "fd_interest \<Rightarrow> copy_data" where
  "server_copy i = \<lparr>cd_fd = Final_server_fd, cd_rb = Write_buffer, cd_wb = Read_buffer, cd_interest = i,
     cd_other_copy = Client_side\<rparr>"

lemmas copy_side_defs = client_copy_def server_copy_def

definition copying :: "socks5 \<Rightarrow> bool" where
  "copying o5 \<longleftrightarrow> (\<exists>i. s5_client_data o5 = CD_copy (client_copy i)) \<and>
     (\<exists>j. s5_server_data o5 = SD_copy (server_copy j)) \<and>
     buffer_ok (s5_read_buffer o5) \<and> buffer_ok (s5_write_buffer o5) \<and>
     s5_client_fd o5 \<noteq> s5_final_server_fd o5"

text \<open>The two queues: for the final server, for the client.\<close>

definition to_server :: "socks5 \<Rightarrow> u8 list" where "to_server o5 = pending (s5_read_buffer o5)"
definition to_client :: "socks5 \<Rightarrow> u8 list" where "to_client o5 = pending (s5_write_buffer o5)"

definition same_ends :: "socks5 \<Rightarrow> socks5 \<Rightarrow> bool" where
  "same_ends o5 o5' \<longleftrightarrow> s5_client_fd o5' = s5_client_fd o5 \<and> s5_final_server_fd o5' = s5_final_server_fd o5"

text \<open>What reached a socket.\<close>

fun sent_bytes :: "int \<Rightarrow> event \<Rightarrow> u8 list" where
  "sent_bytes fd (SentTo f bs) = (if f = fd then bs else [])"
| "sent_bytes fd _ = []"

definition sent :: "int \<Rightarrow> world \<Rightarrow> u8 list" where
  "sent fd w = concat (map (sent_bytes fd) (w_events w))"

lemma sent_emit: "sent fd (emit e w) = sent fd w @ sent_bytes fd e"
  by (simp add: sent_def emit_def)

lemma sent_put [simp]: "sent fd (put_socks a o5 w) = sent fd w" "sent fd (w\<lparr>w_metrics := m\<rparr>) = sent fd w"
  by (simp_all add: sent_def put_socks_def)

text \<open>The steps around the calls leave the streams alone.\<close>

definition steady_copy :: "nat \<Rightarrow> world \<Rightarrow> world \<Rightarrow> bool" where
  "steady_copy a w w' \<longleftrightarrow> (\<forall>fd. sent fd w' = sent fd w) \<and>
     (\<forall>o5. w_socks w a = Some o5 \<longrightarrow> copying o5 \<longrightarrow>
        (\<exists>o5'. w_socks w' a = Some o5' \<and> copying o5' \<and> same_ends o5 o5' \<and>
          s5_read_buffer o5' = s5_read_buffer o5 \<and> s5_write_buffer o5' = s5_write_buffer o5))"

lemma sniff_data_steady: "sniff_data a bs w = Inr w' \<Longrightarrow> steady_copy a w w'"
  by (auto simp: sniff_data_def steady_copy_def sent_def put_socks_def copying_def same_ends_def
      sys_memory_def next_answer_def elim!: bind_res_InrE split: list.splits answer.splits)

lemma copy_end_steady:
  assumes "copy_end a sd op shut op' shut' w = Inr w'"
    and "\<And>fd f. sent_bytes fd (shut f) = []" "\<And>fd f. sent_bytes fd (shut' f) = []"
  shows "steady_copy a w w'"
  using assms
  by (cases sd) (auto simp: copy_end_def steady_copy_def copying_def same_ends_def Let_def copy_side_defs
      sent_emit put_socks_def emit_def sent_def elim!: bind_res_InrE split: if_splits)

lemma get_copy_data_sides:
  assumes "copying o5"
  shows "get_copy_data key o5 = Inr (if k_fd key = s5_client_fd o5 then (Client_side, True) else (Server_side, False))"
    "\<exists>i. copy_of Client_side o5 = Inr (client_copy i)" "\<exists>i. copy_of Server_side o5 = Inr (server_copy i)"
  using assms by (auto simp: copying_def get_copy_data_def copy_side_defs)

text \<open>One direction of the relay takes \<open>bs\<close> at its end.\<close>

definition took :: "bool \<Rightarrow> u8 list \<Rightarrow> socks5 \<Rightarrow> socks5 \<Rightarrow> bool" where
  "took from_client bs o5 o5' \<longleftrightarrow>
     to_server o5' = to_server o5 @ (if from_client then bs else []) \<and>
     to_client o5' = to_client o5 @ (if from_client then [] else bs)"

text \<open>One direction gives the bytes \<open>bs\<close> from its front.\<close>

definition gave :: "bool \<Rightarrow> u8 list \<Rightarrow> socks5 \<Rightarrow> socks5 \<Rightarrow> bool" where
  "gave of_client bs o5 o5' \<longleftrightarrow>
     to_client o5 = (if of_client then bs else []) @ to_client o5' \<and>
     to_server o5 = (if of_client then [] else bs) @ to_server o5'"

section \<open>The two handlers\<close>

text \<open>The object and the world with one buffer replaced, and a steady step behind that.\<close>

lemma copying_set_buf:
  "copying o5 \<Longrightarrow> buffer_ok b \<Longrightarrow> copying (set_buf r b o5)" "same_ends o5 (set_buf r b o5)"
  by (cases r; simp add: copying_def same_ends_def)+

lemma set_buf_same: "set_buf r (buf r o5) o5 = o5"
  by (cases r) simp_all

lemma buf_ok: "copying o5 \<Longrightarrow> buffer_ok (buf r o5)"
  by (cases r) (simp_all add: copying_def)

lemma steady_after:
  assumes "steady_copy a w1 w2" "w_socks w1 a = Some o1" "copying o1" "same_ends o5 o1"
  obtains o2 where "w_socks w2 a = Some o2" "copying o2" "same_ends o5 o2" "to_server o2 = to_server o1"
    "to_client o2 = to_client o1" "\<forall>fd. sent fd w2 = sent fd w1"
  using assms by (fastforce simp: steady_copy_def same_ends_def to_server_def to_client_def)

lemma count_if:
  "(if c then w\<lparr>w_metrics := f (w_metrics w)\<rparr> else w) =
   w\<lparr>w_metrics := if c then f (w_metrics w) else w_metrics w\<rparr>"
  by simp

text \<open>\<open>m\<close> is what the counters become.\<close>

lemma copy_read_steps:
  assumes run: "copy_read key (s, w) = Inr (t, s', w')" and key: "ATTACHMENT key = Inr a"
    and o5: "w_socks w a = Some o5" and get: "get_copy_data key o5 = Inr (sd, c)" "copy_of sd o5 = Inr data"
  obtains bs n b w1 w2 where "recv_into (buf (cd_rb data) o5) w = Inr (bs, n, b, w1)" "steady_copy a w2 w'"
    "0 < n \<Longrightarrow> \<exists>b2 m. buffer_write_adv b n = Inr b2 \<and>
      w2 = put_socks a (set_buf (cd_rb data) b2 o5) w1\<lparr>w_metrics := m\<rparr>"
    "n \<le> 0 \<Longrightarrow> w2 = put_socks a (set_buf (cd_rb data) b o5) w1"
proof -
  let ?r = "cd_rb data"
  obtain bs n b w1 where recv: "recv_into (buf ?r o5) w = Inr (bs, n, b, w1)"
    and rest: "(let w = put_socks a (set_buf ?r b o5) w1 in
     if 0 < n then
       bind_res (buffer_write_adv b n) (\<lambda>b.
       let w = put_socks a (set_buf ?r b o5) w;
           w = (if c then w\<lparr>w_metrics := add_sent_byte n (w_metrics w)\<rparr> else w) in
       bind_res (sniff_data a bs w) (\<lambda>w. copy_finish a sd COPY (s, w)))
     else
       bind_res (copy_end a sd OP_READ ShutRead OP_WRITE ShutWrite w) (\<lambda>w.
       copy_finish a sd DONE (s, w))) = Inr (t, s', w')"
    using run key o5 get by (auto simp: copy_read_def elim!: bind_res_InrE)
  show ?thesis
  proof (cases "0 < n")
    case True
    then obtain b2 m w3 where b2: "buffer_write_adv b n = Inr b2"
        "sniff_data a bs (put_socks a (set_buf ?r b2 o5) w1\<lparr>w_metrics := m\<rparr>) = Inr w3"
        "copy_finish a sd COPY (s, w3) = Inr (t, s', w')"
      using rest by (auto simp: Let_def count_if elim!: bind_res_InrE)
    then have "w' = w3"
      using copy_finish_next by blast
    with sniff_data_steady [OF b2(2)] b2(1) True show ?thesis
      by (intro that [OF recv]) auto
  next
    case False
    then obtain w3 where w3: "copy_end a sd OP_READ ShutRead OP_WRITE ShutWrite
          (put_socks a (set_buf ?r b o5) w1) = Inr w3" "copy_finish a sd DONE (s, w3) = Inr (t, s', w')"
      using rest by (auto simp: Let_def elim!: bind_res_InrE)
    then have "w' = w3"
      using copy_finish_next by blast
    moreover have "steady_copy a (put_socks a (set_buf ?r b o5) w1) w3"
      by (rule copy_end_steady [OF w3(1)]) simp_all
    ultimately show ?thesis
      using False by (intro that [OF recv]) auto
  qed
qed

text \<open>Which side a key stands for.\<close>

lemma key_side:
  assumes "copying o5"
  obtains sd data where "get_copy_data key o5 = Inr (sd, k_fd key = s5_client_fd o5)" "copy_of sd o5 = Inr data"
    "cd_rb data = (if k_fd key = s5_client_fd o5 then Read_buffer else Write_buffer)"
    "cd_wb data = (if k_fd key = s5_client_fd o5 then Write_buffer else Read_buffer)"
proof (cases "k_fd key = s5_client_fd o5")
  case True
  with get_copy_data_sides(1) [OF assms, of key] get_copy_data_sides(2,3) [OF assms] that show ?thesis
    by (auto simp: copy_side_defs)
next
  case False
  with get_copy_data_sides(1) [OF assms, of key] get_copy_data_sides(2,3) [OF assms] that show ?thesis
    by (auto simp: copy_side_defs)
qed

lemma copy_read_relays:
  assumes run: "copy_read key (s, w) = Inr (t, s', w')" and key: "ATTACHMENT key = Inr a"
    and o5: "w_socks w a = Some o5" "copying o5"
  shows "\<exists>o5'. w_socks w' a = Some o5' \<and> copying o5' \<and> same_ends o5 o5' \<and>
    (\<forall>fd. sent fd w' = sent fd w) \<and> took (k_fd key = s5_client_fd o5) (received w) o5 o5'"
proof -
  obtain sd data where side: "get_copy_data key o5 = Inr (sd, k_fd key = s5_client_fd o5)" "copy_of sd o5 = Inr data"
      "cd_rb data = (if k_fd key = s5_client_fd o5 then Read_buffer else Write_buffer)"
    by (rule key_side [OF o5(2)])
  let ?r = "cd_rb data"
  obtain bs n b w1 w2 where st: "recv_into (buf ?r o5) w = Inr (bs, n, b, w1)" "steady_copy a w2 w'"
    "0 < n \<Longrightarrow> \<exists>b2 m. buffer_write_adv b n = Inr b2 \<and> w2 = put_socks a (set_buf ?r b2 o5) w1\<lparr>w_metrics := m\<rparr>"
    "n \<le> 0 \<Longrightarrow> w2 = put_socks a (set_buf ?r b o5) w1"
    by (rule copy_read_steps [OF run key o5(1) side(1,2)]) blast
  note rec = recv_into_result [OF st(1) buf_ok [OF o5(2)]]
  obtain b2 where b2: "buffer_ok b2" "pending b2 = pending (buf ?r o5) @ bs"
      "w_socks w2 a = Some (set_buf ?r b2 o5)" "\<forall>fd. sent fd w2 = sent fd w"
  proof (cases "0 < n")
    case True
    with rec(1,5) st(3) that show ?thesis by (auto simp: put_socks_def sent_def)
  next
    case False
    with rec(1,4) st(4) that [of "buf ?r o5"] buf_ok [OF o5(2)] show ?thesis
      by (auto simp: put_socks_def sent_def set_buf_same)
  qed
  obtain o2 where "w_socks w' a = Some o2" "copying o2" "same_ends o5 o2"
      "to_server o2 = to_server (set_buf ?r b2 o5)" "to_client o2 = to_client (set_buf ?r b2 o5)"
      "\<forall>fd. sent fd w' = sent fd w2"
    by (rule steady_after [OF st(2) b2(3) copying_set_buf(1) [OF o5(2) b2(1)] copying_set_buf(2)])
  with b2 rec(3) side(3) show ?thesis
    by (auto simp: took_def to_server_def to_client_def)
qed

lemma copy_write_steps:
  assumes run: "copy_write key (s, w) = Inr (t, s', w')" and key: "ATTACHMENT key = Inr a"
    and o5: "w_socks w a = Some o5" and get: "get_copy_data key o5 = Inr (sd, c)" "copy_of sd o5 = Inr data"
  obtains bs n w1 w2 where "send_from (k_fd key) (buf (cd_wb data) o5) w = Inr (bs, n, w1)" "steady_copy a w2 w'"
    "0 \<le> n \<Longrightarrow> \<exists>b2 m. buffer_read_adv (buf (cd_wb data) o5) n = Inr b2 \<and>
      w2 = put_socks a (set_buf (cd_wb data) b2 o5) w1\<lparr>w_metrics := m\<rparr>"
    "n < 0 \<Longrightarrow> w2 = w1"
proof -
  let ?r = "cd_wb data"
  obtain bs n w1 where send: "send_from (k_fd key) (buf ?r o5) w = Inr (bs, n, w1)"
    and rest: "(if 0 \<le> n then
       bind_res (buffer_read_adv (buf ?r o5) n) (\<lambda>b.
       let w = put_socks a (set_buf ?r b o5) w1;
           w = (if c then w\<lparr>w_metrics := add_received_bytes n (w_metrics w)\<rparr> else w) in
       bind_res (sniff_data a bs w) (\<lambda>w. copy_finish a sd COPY (s, w)))
     else
       bind_res (copy_end a sd OP_WRITE ShutWrite OP_READ ShutRead w1) (\<lambda>w.
       copy_finish a sd DONE (s, w))) = Inr (t, s', w')"
    using run key o5 get by (auto simp: copy_write_def elim!: bind_res_InrE)
  show ?thesis
  proof (cases "0 \<le> n")
    case True
    then obtain b2 m w3 where b2: "buffer_read_adv (buf ?r o5) n = Inr b2"
        "sniff_data a bs (put_socks a (set_buf ?r b2 o5) w1\<lparr>w_metrics := m\<rparr>) = Inr w3"
        "copy_finish a sd COPY (s, w3) = Inr (t, s', w')"
      using rest by (auto simp: Let_def count_if elim!: bind_res_InrE)
    then have "w' = w3"
      using copy_finish_next by blast
    with sniff_data_steady [OF b2(2)] b2(1) True show ?thesis
      by (intro that [OF send]) auto
  next
    case False
    then obtain w3 where w3: "copy_end a sd OP_WRITE ShutWrite OP_READ ShutRead w1 = Inr w3"
        "copy_finish a sd DONE (s, w3) = Inr (t, s', w')"
      using rest by (auto elim!: bind_res_InrE)
    then have "w' = w3"
      using copy_finish_next by blast
    moreover have "steady_copy a w1 w3"
      by (rule copy_end_steady [OF w3(1)]) simp_all
    ultimately show ?thesis
      using False by (intro that [OF send]) auto
  qed
qed

lemma copy_write_relays:
  assumes run: "copy_write key (s, w) = Inr (t, s', w')" and key: "ATTACHMENT key = Inr a"
    and o5: "w_socks w a = Some o5" "copying o5"
  shows "\<exists>o5' bs. w_socks w' a = Some o5' \<and> copying o5' \<and> same_ends o5 o5' \<and>
    (\<forall>fd. sent fd w' = sent fd w @ (if fd = k_fd key then bs else [])) \<and>
    gave (k_fd key = s5_client_fd o5) bs o5 o5'"
proof -
  obtain sd data where side: "get_copy_data key o5 = Inr (sd, k_fd key = s5_client_fd o5)" "copy_of sd o5 = Inr data"
      "cd_wb data = (if k_fd key = s5_client_fd o5 then Write_buffer else Read_buffer)"
    by (rule key_side [OF o5(2)])
  let ?r = "cd_wb data"
  obtain bs n w1 w2 where st: "send_from (k_fd key) (buf ?r o5) w = Inr (bs, n, w1)" "steady_copy a w2 w'"
    "0 \<le> n \<Longrightarrow> \<exists>b2 m. buffer_read_adv (buf ?r o5) n = Inr b2 \<and>
      w2 = put_socks a (set_buf ?r b2 o5) w1\<lparr>w_metrics := m\<rparr>" "n < 0 \<Longrightarrow> w2 = w1"
    by (rule copy_write_steps [OF run key o5(1) side(1,2)]) blast
  note snd = send_from_result [OF st(1) buf_ok [OF o5(2)]]
  let ?bs = "if 0 \<le> n then bs else []"
  obtain b2 where b2: "buffer_ok b2" "pending (buf ?r o5) = ?bs @ pending b2"
      "w_socks w2 a = Some (set_buf ?r b2 o5)" "\<forall>fd. sent fd w2 = sent fd w @ (if fd = k_fd key then ?bs else [])"
  proof (cases "0 \<le> n")
    case True
    obtain b2 where b2: "buffer_read_adv (buf ?r o5) n = Inr b2" "buffer_ok b2" "pending b2 = drop (nat n) (pending (buf ?r o5))"
      using buffer_read_adv_ok [OF buf_ok [OF o5(2)], of "nat n"] snd True by auto
    with True snd st(3) that [of b2] show ?thesis by (auto simp: put_socks_def sent_def)
  next
    case False
    with snd st(4) that [of "buf ?r o5"] buf_ok [OF o5(2)] o5(1) show ?thesis
      by (auto simp: sent_def set_buf_same)
  qed
  obtain o2 where "w_socks w' a = Some o2" "copying o2" "same_ends o5 o2"
      "to_server o2 = to_server (set_buf ?r b2 o5)" "to_client o2 = to_client (set_buf ?r b2 o5)"
      "\<forall>fd. sent fd w' = sent fd w2"
    by (rule steady_after [OF st(2) b2(3) copying_set_buf(1) [OF o5(2) b2(1)] copying_set_buf(2)])
  with b2 side(3) show ?thesis
    by (intro exI [of _ o2] exI [of _ ?bs]) (auto simp: gave_def to_server_def to_client_def)
qed

section \<open>Histories\<close>

text \<open>
  Steps of the connection in object \<open>a\<close> since it began to copy, in world \<open>w0\<close>: a read or a write at
  one of its two sockets, or anything that leaves the object, and what was sent to its sockets, as it
  is. \<open>up\<close> and \<open>down\<close> are what was received from the client and from the final server.
\<close>

inductive relay :: "nat \<Rightarrow> world \<Rightarrow> u8 list \<Rightarrow> u8 list \<Rightarrow> st \<Rightarrow> bool" for a w0 where
  start: "relay a w0 [] [] (s, w0)"
| from_client: "relay a w0 up down (s, w) \<Longrightarrow> ATTACHMENT key = Inr a \<Longrightarrow> w_socks w a = Some o5 \<Longrightarrow>
    k_fd key = s5_client_fd o5 \<Longrightarrow> copy_read key (s, w) = Inr (t, sw') \<Longrightarrow>
    relay a w0 (up @ received w) down sw'"
| from_server: "relay a w0 up down (s, w) \<Longrightarrow> ATTACHMENT key = Inr a \<Longrightarrow> w_socks w a = Some o5 \<Longrightarrow>
    k_fd key = s5_final_server_fd o5 \<Longrightarrow> copy_read key (s, w) = Inr (t, sw') \<Longrightarrow>
    relay a w0 up (down @ received w) sw'"
| writes: "relay a w0 up down (s, w) \<Longrightarrow> ATTACHMENT key = Inr a \<Longrightarrow> w_socks w a = Some o5 \<Longrightarrow>
    k_fd key \<in> {s5_client_fd o5, s5_final_server_fd o5} \<Longrightarrow> copy_write key (s, w) = Inr (t, sw') \<Longrightarrow>
    relay a w0 up down sw'"
| other: "relay a w0 up down (s, w) \<Longrightarrow> w_socks w' a = w_socks w a \<Longrightarrow> w_socks w a = Some o5 \<Longrightarrow>
    sent (s5_client_fd o5) w' = sent (s5_client_fd o5) w \<Longrightarrow>
    sent (s5_final_server_fd o5) w' = sent (s5_final_server_fd o5) w \<Longrightarrow> relay a w0 up down (s', w')"

text \<open>Nothing is lost, added or reordered: the balance of the two directions.\<close>

definition balanced :: "socks5 \<Rightarrow> world \<Rightarrow> u8 list \<Rightarrow> u8 list \<Rightarrow> socks5 \<Rightarrow> world \<Rightarrow> bool" where
  "balanced o0 w0 up down o5 w \<longleftrightarrow> copying o5 \<and> same_ends o0 o5 \<and>
     sent (s5_final_server_fd o0) w @ to_server o5 = sent (s5_final_server_fd o0) w0 @ to_server o0 @ up \<and>
     sent (s5_client_fd o0) w @ to_client o5 = sent (s5_client_fd o0) w0 @ to_client o0 @ down"

lemma balanced_read:
  assumes "balanced o0 w0 up down o5 w" and "w_socks w a = Some o5" "ATTACHMENT key = Inr a"
    and "copy_read key (s, w) = Inr (t, s', w')"
  shows "\<exists>o5'. w_socks w' a = Some o5' \<and> (if k_fd key = s5_client_fd o5
    then balanced o0 w0 (up @ received w) down o5' w' else balanced o0 w0 up (down @ received w) o5' w')"
proof -
  have c: "copying o5" using assms(1) by (simp add: balanced_def)
  obtain o5' where o5': "w_socks w' a = Some o5'" "copying o5'" "same_ends o5 o5'"
      "\<forall>fd. sent fd w' = sent fd w" "took (k_fd key = s5_client_fd o5) (received w) o5 o5'"
    using copy_read_relays [OF assms(4,3,2) c] by blast
  moreover have "sent fd w @ to_server o5 @ xs = (sent fd w @ to_server o5) @ xs"
    "sent fd w @ to_client o5 @ xs = (sent fd w @ to_client o5) @ xs" for fd xs
    by simp_all
  ultimately show ?thesis
    using assms(1) by (auto simp: balanced_def took_def same_ends_def simp del: append_assoc)
qed

lemma balanced_write:
  assumes "balanced o0 w0 up down o5 w" and "w_socks w a = Some o5" "ATTACHMENT key = Inr a"
    and "k_fd key \<in> {s5_client_fd o5, s5_final_server_fd o5}" and "copy_write key (s, w) = Inr (t, s', w')"
  shows "\<exists>o5'. w_socks w' a = Some o5' \<and> balanced o0 w0 up down o5' w'"
proof -
  have c: "copying o5" using assms(1) by (simp add: balanced_def)
  obtain o5' bs where o5': "w_socks w' a = Some o5'" "copying o5'" "same_ends o5 o5'"
      "\<forall>fd. sent fd w' = sent fd w @ (if fd = k_fd key then bs else [])"
      "gave (k_fd key = s5_client_fd o5) bs o5 o5'"
    using copy_write_relays [OF assms(5,3,2) c] by blast
  have "s5_client_fd o5 \<noteq> s5_final_server_fd o5" using c by (simp add: copying_def)
  with o5' assms(1,4) show ?thesis
    by (auto simp: balanced_def gave_def same_ends_def split: if_splits)
qed

lemma relay_balanced:
  assumes "relay a w0 up down sw" and "w_socks w0 a = Some o0" and "copying o0"
  shows "\<exists>o5. w_socks (snd sw) a = Some o5 \<and> balanced o0 w0 up down o5 (snd sw)"
  using assms
proof (induction rule: relay.induct)
  case (start s)
  then show ?case by (simp add: balanced_def same_ends_def)
next
  case (from_client up down s w key o5 t sw')
  then show ?case
    using balanced_read [of o0 w0 up down o5 w a key s t "fst sw'" "snd sw'"] by auto
next
  case (from_server up down s w key o5 t sw')
  then have "k_fd key \<noteq> s5_client_fd o5"
    by (auto simp: balanced_def copying_def)
  with from_server show ?case
    using balanced_read [of o0 w0 up down o5 w a key s t "fst sw'" "snd sw'"] by auto
next
  case (writes up down s w key o5 t sw')
  then show ?case
    using balanced_write [of o0 w0 up down o5 w a key s t "fst sw'" "snd sw'"] by auto
next
  case (other up down s w w' o5 s')
  then show ?case
    by (auto simp: balanced_def same_ends_def)
qed

section \<open>Properties\<close>

text \<open>C2. In the state COPY the proxy is a faithful relay: at every moment, what was sent to the final
  server since copying began, followed by the bytes that wait in the buffer, is what waited at the
  beginning followed by everything received from the client, byte for byte and in order, and the same
  holds in the other direction. That is so for any interleaving of the four handlers, partial sends,
  errors and ends of one side included.\<close>

theorem relay_faithful:
  assumes "relay a w0 up down (s, w)" and "w_socks w0 a = Some o0" and "copying o0"
    and "w_events w0 = []"
  shows "\<exists>o5. w_socks w a = Some o5 \<and> copying o5 \<and>
    sent (s5_final_server_fd o5) w @ to_server o5 = to_server o0 @ up \<and>
    sent (s5_client_fd o5) w @ to_client o5 = to_client o0 @ down"
proof -
  have "sent fd w0 = []" for fd using assms(4) by (simp add: sent_def)
  with relay_balanced [OF assms(1-3)] show ?thesis
    by (auto simp: balanced_def same_ends_def)
qed

definition copying_socks :: socks5 where
  "copying_socks = example_socks\<lparr>s5_stm_current := Some COPY, s5_final_server_fd := 6,
     s5_client_data := CD_copy (client_copy 5), s5_server_data := SD_copy (server_copy 5)\<rparr>"

definition copying_world :: "answer list \<Rightarrow> world" where
  "copying_world answers = (example_world answers)\<lparr>w_socks := [0 \<mapsto> copying_socks]\<rparr>"

definition copying_selector :: sel where
  "copying_selector = example_selector\<lparr>s_fds := Some (replicate 5 (zero_item\<lparr>it_fd := FD_UNUSED\<rparr>) @
     [\<lparr>it_fd = 5, it_interest = OP_READ, it_handler = Some H_socks5, it_data = Some (Socks_at 0)\<rparr>,
      \<lparr>it_fd = 6, it_interest = OP_READ, it_handler = Some H_socks5, it_data = Some (Socks_at 0)\<rparr>])\<rparr>"

text \<open>The client sends two bytes, one of them reaches the server.\<close>

definition relay_answers :: "answer list" where
  "relay_answers = [RecvBytes [104, 105], Memory [], SentBytes 1, Memory []]"

definition relay_run :: "st result" where
  "relay_run =
     bind_res (copy_read \<lparr>k_fd = 5, k_data = Some (Socks_at 0)\<rparr> (copying_selector, copying_world relay_answers))
       (\<lambda>(_, sw).
     bind_res (copy_write \<lparr>k_fd = 6, k_data = Some (Socks_at 0)\<rparr> sw) (\<lambda>(_, sw). Inr sw))"

theorem relay_faithful_witness:
  "\<exists>s w o5. relay_run = Inr (s, w) \<and> w_socks w 0 = Some o5 \<and> sent 6 w @ to_server o5 = [104, 105] \<and>
    sent 6 w = [104]"
proof -
  let ?w0 = "copying_world relay_answers" and ?k5 = "\<lparr>k_fd = 5, k_data = Some (Socks_at 0)\<rparr> :: key"
    and ?k6 = "\<lparr>k_fd = 6, k_data = Some (Socks_at 0)\<rparr> :: key"
  have "left_in (\<lambda>o5 w. sent 6 w = [104] \<and> s5_final_server_fd o5 = 6) relay_run"
    by code_simp
  then obtain s w o5 where run: "relay_run = Inr (s, w)" "w_socks w 0 = Some o5" "sent 6 w = [104]"
      "s5_final_server_fd o5 = 6"
    by (rule left_inE) blast
  then obtain t1 s1 w1 t2 where r: "copy_read ?k5 (copying_selector, ?w0) = Inr (t1, s1, w1)"
      "copy_write ?k6 (s1, w1) = Inr (t2, s, w)"
    by (auto simp: relay_run_def elim!: bind_res_InrE)
  have o0: "w_socks ?w0 0 = Some copying_socks" "copying copying_socks" "w_events ?w0 = []"
      "received ?w0 = [104, 105]" "to_server copying_socks = []"
    by (auto simp: copying_world_def copying_socks_def copying_def example_world_def example_socks_def
        received_def relay_answers_def to_server_def)
  have key: "ATTACHMENT ?k5 = Inr 0" "ATTACHMENT ?k6 = Inr 0"
    by (simp_all add: ATTACHMENT_def)
  have one: "relay 0 ?w0 ([] @ received ?w0) [] (s1, w1)"
    by (rule relay.from_client [OF relay.start key(1) o0(1) _ r(1)])
      (simp add: copying_socks_def example_socks_def)
  obtain o1 where o1: "w_socks w1 0 = Some o1" "same_ends copying_socks o1"
    using copy_read_relays [OF r(1) key(1) o0(1,2)] by blast
  have two: "relay 0 ?w0 ([] @ received ?w0) [] (s, w)"
    by (rule relay.writes [OF one key(2) o1(1) _ r(2)])
      (use o1(2) in \<open>simp add: same_ends_def copying_socks_def\<close>)
  from relay_faithful [OF two o0(1-3)] run o0(4,5) have "sent 6 w @ to_server o5 = [104, 105]"
    by auto
  with run(1-3) show ?thesis by blast
qed

end
