(* ===== verification/Handshake.thy ===== *)
theory Handshake
  imports Relay
begin

text \<open>
  A connection from its greeting to the state COPY: what each handler answers when the messages of
  the client arrive and the calls to the operating system succeed. \<open>conn_key a c\<close> is the key that the
  selector passes for the descriptor \<open>c\<close> of the connection in object \<open>a\<close>.
\<close>

section \<open>Calls that succeed\<close>

definition conn_key :: "nat \<Rightarrow> nat \<Rightarrow> key" where
  "conn_key a fd = \<lparr>k_fd = int fd, k_data = Some (Socks_at a)\<rparr>"

lemma conn_key_simps [simp]: "ATTACHMENT (conn_key a c) = Inr a" "k_fd (conn_key a c) = int c"
  by (simp_all add: conn_key_def ATTACHMENT_def)

lemma get_put_socks [simp]:
  "get_socks a (put_socks a o5 w) = Inr o5" "put_socks a o2 (put_socks a o1 w) = put_socks a o2 w"
  "emit e (put_socks a o5 w) = put_socks a o5 (emit e w)"
  "w_config (put_socks a o5 w) = w_config w" "w_answers (put_socks a o5 w) = w_answers w"
  "w_events (put_socks a o5 w) = w_events w" "w_socks (put_socks a o5 w) = (w_socks w)(a \<mapsto> o5)"
  "w_config (emit e w) = w_config w" "w_answers (emit e w) = w_answers w"
  "w_events (emit e w) = w_events w @ [e]" "w_socks (emit e w) = w_socks w"
  by (simp_all add: get_socks_def put_socks_def emit_def)

lemma put_socks_answers [simp]:
  "(put_socks a o5 w)\<lparr>w_answers := xs\<rparr> = put_socks a o5 (w\<lparr>w_answers := xs\<rparr>)"
  "(emit e w)\<lparr>w_answers := xs\<rparr> = emit e (w\<lparr>w_answers := xs\<rparr>)"
  "(put_socks a o5 w)\<lparr>w_metrics := m\<rparr> = put_socks a o5 (w\<lparr>w_metrics := m\<rparr>)"
  "w_metrics (put_socks a o5 w) = w_metrics w"
  by (simp_all add: put_socks_def emit_def)

text \<open>The selector of a connection: the descriptor is registered.\<close>

definition watched :: "sel \<Rightarrow> nat \<Rightarrow> nat \<Rightarrow> bool" where
  "watched s a c \<longleftrightarrow> selector_ok s \<and> c < ITEMS_MAX_SIZE \<and>
     (\<exists>i. registered s c = Some (i, Some H_socks5, Some (Socks_at a)))"

definition watch :: "sel \<Rightarrow> nat \<Rightarrow> nat \<Rightarrow> fd_interest \<Rightarrow> sel \<Rightarrow> bool" where
  "watch s a c i s' \<longleftrightarrow> watched s' a c \<and> fd_size s' = fd_size s \<and>
     registered s' = (registered s)(c \<mapsto> (i, Some H_socks5, Some (Socks_at a)))"

lemma watched_set_interest:
  assumes "watched s a c"
  obtains s' where "selector_set_interest s (int c) i = Inr (SELECTOR_SUCCESS, s')"
    "selector_set_interest_key s (conn_key a c) i = Inr (SELECTOR_SUCCESS, s')" "watch s a c i s'"
proof -
  obtain j where j: "selector_ok s" "c < ITEMS_MAX_SIZE" "registered s c = Some (j, Some H_socks5, Some (Socks_at a))"
    using assms by (auto simp: watched_def)
  obtain s' where "selector_set_interest s (int c) i = Inr (SELECTOR_SUCCESS, s')" "watch s a c i s'"
    using selector_set_interest_ok [OF j(1,3,2), of i] j(2) by (auto simp: watch_def watched_def)
  moreover have "\<not> INVALID_FD (int c)"
    using j(2) by (simp add: INVALID_FD_def)
  ultimately show ?thesis
    by (intro that [of s']) (simp_all add: selector_set_interest_key_def)
qed

context byte_parser
begin

lemma receive_message:
  assumes b: "buffer_ok b" "pending b = []" and bs: "w_answers w = RecvBytes bs # xs" "length bs \<le> capacity b" "bs \<noteq> []"
    and run: "parse_run feed (\<lambda>p. final (st p)) p bs = Inr (q, rest)"
  obtains b1 b2 b3 where "recv_into b w = Inr (bs, int (length bs), b1, w\<lparr>w_answers := xs\<rparr>)"
    "buffer_write_adv b1 (int (length bs)) = Inr b2"
    "consume_loop feed st is_done (st p) b2 p (Some False) =
      Inr (st q, b3, q, if failed (st q) then Some True else Some False)"
    "buffer_ok b3" "pending b3 = rest" "shape b3 = shape b"
proof -
  have "length bs \<le> room b"
    using b bs(2) pending_empty_iff [of b] by (auto simp: buffer_dims)
  then obtain b1 b2 where b2: "recv_into b w = Inr (bs, int (length bs), b1, w\<lparr>w_answers := xs\<rparr>)"
      "buffer_write_adv b1 (int (length bs)) = Inr b2" "buffer_ok b2" "pending b2 = bs" "shape b2 = shape b"
    using recv_into_bytes [OF b(1) bs(1)] b(2) by (metis append_Nil)
  with consume_refines [OF b2(3), of p q rest "Some False"] run bs(3) that show ?thesis
    by auto
qed

end

text \<open>Everything that is pending is sent.\<close>

lemma send_pending:
  assumes b: "buffer_ok b" and ans: "w_answers w = SentBytes (length (pending b)) # xs"
  obtains b' where "send_from fd b w =
      Inr (pending b, int (length (pending b)), emit (SentTo fd (pending b)) (w\<lparr>w_answers := xs\<rparr>))"
    "buffer_read_adv b (int (length (pending b))) = Inr b'" "buffer_ok b'" "pending b' = []" "shape b' = shape b"
    "\<not> buffer_can_read b'"
proof -
  obtain b' where b': "buffer_read_adv b (int (length (pending b))) = Inr b'" "buffer_ok b'"
      "pending b' = drop (length (pending b)) (pending b)" "shape b' = shape b"
    using buffer_read_adv_ok [OF b order_refl] by metis
  with send_from_bytes [OF b ans order_refl, of fd] show ?thesis
    by (intro that [of b']) (simp_all add: can_read_iff)
qed

section \<open>The machine\<close>

lemma state_le [simp]:
  "HELLO_READ \<le> ERROR" "HELLO_WRITE \<le> ERROR" "AUTH_READ \<le> ERROR" "AUTH_WRITE \<le> ERROR"
  "REQUEST_READ \<le> ERROR" "REQUEST_CONNECTING \<le> ERROR" "REQUEST_WRITE \<le> ERROR" "COPY \<le> ERROR" "DONE \<le> ERROR"
  by (simp_all add: socks_state_defs)

lemma deliver_run:
  assumes o5: "w_socks w a = Some o5" "s5_stm_current o5 = Some n" "n \<le> ERROR"
    and f: "on_ready (socks_state_definition (conn_key a c) ! n) = Some f"
  shows "stm_handler on_ready (socks_stm (conn_key a c)) (s, w) =
    bind_res (f (s, w)) (\<lambda>(t, w). bind_res (stm_jump (socks_stm (conn_key a c)) t w) (\<lambda>w. Inr (t, w)))"
  using assms by (simp add: stm_handler_def handle_first_def socks_current_def get_socks_def socks_load)

lemma deliver_first:
  assumes o5: "w_socks w a = Some o5" "s5_stm_current o5 = None"
  shows "deliver Readable (conn_key a c) (s, w) =
    (let p = hello_parser_init \<lparr>hp_on_auth_method = Some (on_hello_method (w_config w)),
           hp_data = METHOD_NO_ACCEPTABLE_METHODS, hp_state = hello_version, hp_remaining = 0\<rparr> in
     deliver Readable (conn_key a c) (s, put_socks a (o5\<lparr>s5_stm_current := Some HELLO_READ,
       s5_client_data := CD_hello \<lparr>hd_rb = Read_buffer, hd_wb = Write_buffer, hd_parser = p\<rparr>\<rparr>) w))"
  using o5 by (simp add: stm_handler_read_def stm_handler_def handle_first_def socks_current_def get_socks_def
      call_arrival_def socks_load hello_read_init_def Let_def)

text \<open>The jump to another state.\<close>

lemma jump_bare:
  assumes "w_socks w a = Some o5" "s5_stm_current o5 = Some n" "n \<le> ERROR" "t \<le> ERROR" "t \<noteq> n"
    and "sd_on_arrival (socks_state_definition (conn_key a c) ! t) = None"
  shows "stm_jump (socks_stm (conn_key a c)) t (s, w) = Inr (s, put_socks a (o5\<lparr>s5_stm_current := Some t\<rparr>) w)"
  using assms by (simp add: stm_jump_def socks_current_def get_socks_def call_departure_def call_arrival_def
      socks_load socks_departure)

lemma jump_arrival:
  assumes "w_socks w a = Some o5" "s5_stm_current o5 = Some n" "n \<le> ERROR" "t \<le> ERROR" "t \<noteq> n"
    and "sd_on_arrival (socks_state_definition (conn_key a c) ! t) = Some f"
  shows "stm_jump (socks_stm (conn_key a c)) t (s, w) = f t (s, put_socks a (o5\<lparr>s5_stm_current := Some t\<rparr>) w)"
proof -
  have "sd_state (socks_state_definition (conn_key a c) ! t) = t"
    using socks_table [of "conn_key a c"] assms(4) by (simp add: stm_table_ok_def)
  with assms show ?thesis
    by (simp add: stm_jump_def socks_current_def get_socks_def call_departure_def call_arrival_def
        socks_load socks_departure)
qed

section \<open>The greeting\<close>

text \<open>An object in state \<open>n\<close> with nothing to read and \<open>out\<close> to send; and what the handlers before
  the reply do not change in it.\<close>

definition phase :: "nat \<Rightarrow> u8 list \<Rightarrow> socks5 \<Rightarrow> bool" where
  "phase n out o5 \<longleftrightarrow> s5_stm_current o5 = Some n \<and> buffer_ok (s5_read_buffer o5) \<and>
     pending (s5_read_buffer o5) = [] \<and> buffer_ok (s5_write_buffer o5) \<and> pending (s5_write_buffer o5) = out"

definition frame :: "socks5 \<Rightarrow> int \<times> (nat \<times> nat) \<times> (nat \<times> nat) \<times> nat \<times> socks_response_status" where
  "frame o5 = (s5_client_fd o5, shape (s5_read_buffer o5), shape (s5_write_buffer o5),
     length (s5_final_server_addr o5), s5_status o5)"

definition chosen :: "config \<Rightarrow> u8 list \<Rightarrow> u8" where
  "chosen c ms = foldl (on_hello_method c) METHOD_NO_ACCEPTABLE_METHODS ms"

lemma chosen_iff:
  "chosen c ms = (let m = if is_auth_enabled c then METHOD_AUTH_REQUIRED else METHOD_NO_AUTH_REQUIRED in
     if m \<in> set ms then m else METHOD_NO_ACCEPTABLE_METHODS)"
  by (induction ms rule: rev_induct) (auto simp: chosen_def on_hello_method_def Let_def)

definition hello_start :: "config \<Rightarrow> hello_data" where
  "hello_start c = \<lparr>hd_rb = Read_buffer, hd_wb = Write_buffer, hd_parser = hello_parser_init
     \<lparr>hp_on_auth_method = Some (on_hello_method c), hp_data = METHOD_NO_ACCEPTABLE_METHODS,
      hp_state = hello_version, hp_remaining = 0\<rparr>\<rparr>"

lemma hello_read_greeting:
  assumes o5: "w_socks w a = Some o5" "phase HELLO_READ [] o5" "s5_client_data o5 = CD_hello (hello_start (w_config w))"
    and s: "watched s a c" and ms: "length ms < 256" "length ms + 2 \<le> capacity (s5_read_buffer o5)"
    and wb: "2 \<le> capacity (s5_write_buffer o5)"
    and ans: "w_answers w = RecvBytes (0x05 # of_nat (length ms) # ms) # xs"
  obtains s' o1 d where "hello_read (conn_key a c) (s, w) = Inr (HELLO_WRITE, s', put_socks a o1 (w\<lparr>w_answers := xs\<rparr>))"
    "watch s a c OP_WRITE s'" "frame o1 = frame o5" "phase HELLO_READ [0x05, chosen (w_config w) ms] o1"
    "s5_client_data o1 = CD_hello d" "hd_wb d = Write_buffer" "hp_data (hd_parser d) = chosen (w_config w) ms"
    "s5_final_server_fd o1 = s5_final_server_fd o5" "s5_user o1 = s5_user o5"
proof -
  let ?p = "hello_parser_init \<lparr>hp_on_auth_method = Some (on_hello_method (w_config w)),
      hp_data = METHOD_NO_ACCEPTABLE_METHODS, hp_state = hello_version, hp_remaining = 0\<rparr>"
  let ?q = "\<lparr>hp_on_auth_method = Some (on_hello_method (w_config w)), hp_data = chosen (w_config w) ms,
      hp_state = hello_done, hp_remaining = 0\<rparr>"
  have run: "parse_run hello_parser_feed (\<lambda>p. hello_final (hp_state p)) ?p (0x05 # of_nat (length ms) # ms) =
      Inr (?q, [])"
    using hello_run_greeting [of "\<lparr>hp_on_auth_method = Some (on_hello_method (w_config w)),
      hp_data = METHOD_NO_ACCEPTABLE_METHODS, hp_state = hello_version, hp_remaining = 0\<rparr>"
      "on_hello_method (w_config w)" ms "[]"] ms(1)
    by (simp add: chosen_def)
  have rb: "buffer_ok (s5_read_buffer o5)" "pending (s5_read_buffer o5) = []"
    and wb_ok: "buffer_ok (s5_write_buffer o5)" "pending (s5_write_buffer o5) = []"
    using o5(2) by (auto simp: phase_def)
  have len: "length (0x05 # of_nat (length ms) # ms) \<le> capacity (s5_read_buffer o5)"
    using ms(2) by simp
  obtain b1 b2 b3 where b: "recv_into (s5_read_buffer o5) w =
        Inr (0x05 # of_nat (length ms) # ms, int (length ms + 2), b1, w\<lparr>w_answers := xs\<rparr>)"
      "buffer_write_adv b1 (int (length ms + 2)) = Inr b2"
      "consume_loop hello_parser_feed hp_state hello_is_done hello_version b2 ?p (Some False) =
        Inr (hello_done, b3, ?q, Some False)"
      "buffer_ok b3" "pending b3 = []" "shape b3 = shape (s5_read_buffer o5)"
    by (rule hello.receive_message [OF rb ans len _ run])
      (simp_all add: hello_failed_def hello_parser_init_def)
  obtain s' where s': "selector_set_interest_key s (conn_key a c) OP_WRITE = Inr (SELECTOR_SUCCESS, s')"
      "watch s a c OP_WRITE s'"
    using watched_set_interest [OF s] by metis
  have "2 \<le> room (s5_write_buffer o5)"
    using wb wb_ok pending_empty_iff [of "s5_write_buffer o5"] by (auto simp: buffer_dims)
  then obtain wb' where wb': "hello_marshalll (s5_write_buffer o5) (chosen (w_config w) ms) = Inr (2, wb')"
      "buffer_ok wb'" "pending wb' = [0x05, chosen (w_config w) ms]" "shape wb' = shape (s5_write_buffer o5)"
    using hello_marshalll_ok [OF wb_ok(1)] wb_ok(2) by (metis append_Nil)
  let ?d = "\<lparr>hd_rb = Read_buffer, hd_wb = Write_buffer, hd_parser = ?q\<rparr>"
  let ?o = "o5\<lparr>s5_client_data := CD_hello ?d, s5_read_buffer := b3, s5_write_buffer := wb'\<rparr>"
  have state: "hp_state ?p = hello_version" "?p\<lparr>hp_on_auth_method := Some (on_hello_method (w_config w))\<rparr> = ?p"
    by (simp_all add: hello_parser_init_def)
  have "hello_read (conn_key a c) (s, w) = Inr (HELLO_WRITE, s', put_socks a ?o (w\<lparr>w_answers := xs\<rparr>))"
    using o5 b(1,2,3) s'(1) wb'(1) state
    by (simp add: hello_read_def hello_start_def get_socks_def hello_consume_def hello_is_done_def Let_def)
  then show ?thesis
    by (rule that [of s' ?o ?d]) (use o5(2) b wb' s' in \<open>simp_all add: frame_def phase_def\<close>)
qed

lemma hello_write_answer:
  assumes o5: "w_socks w a = Some o5" "phase HELLO_WRITE [0x05, m] o5" "s5_client_data o5 = CD_hello d"
      "hd_wb d = Write_buffer" "hp_data (hd_parser d) = m"
    and s: "watched s a c" and ans: "w_answers w = SentBytes 2 # xs"
  obtains s' o1 where "hello_write (conn_key a c) (s, w) =
      Inr (if m = METHOD_AUTH_REQUIRED \<and> is_auth_enabled (w_config w) then AUTH_READ
           else if m = METHOD_NO_AUTH_REQUIRED \<and> \<not> is_auth_enabled (w_config w) then REQUEST_READ
           else DONE, s', put_socks a o1 (emit (SentTo (int c) [0x05, m]) (w\<lparr>w_answers := xs\<rparr>)))"
    "watch s a c OP_READ s'" "frame o1 = frame o5" "phase HELLO_WRITE [] o1"
    "s5_final_server_fd o1 = s5_final_server_fd o5" "s5_user o1 = s5_user o5"
proof -
  have wb: "buffer_ok (s5_write_buffer o5)" "pending (s5_write_buffer o5) = [0x05, m]"
    using o5(2) by (auto simp: phase_def)
  with ans have "w_answers w = SentBytes (length (pending (s5_write_buffer o5))) # xs"
    by simp
  then obtain b where b: "send_from (int c) (s5_write_buffer o5) w =
        Inr ([0x05, m], 2, emit (SentTo (int c) [0x05, m]) (w\<lparr>w_answers := xs\<rparr>))"
      "buffer_read_adv (s5_write_buffer o5) 2 = Inr b" "buffer_ok b" "pending b = []"
      "shape b = shape (s5_write_buffer o5)" "\<not> buffer_can_read b"
    using send_pending [OF wb(1), of w xs "int c"] wb(2) by auto
  obtain s' where s': "selector_set_interest s (int c) OP_READ = Inr (SELECTOR_SUCCESS, s')"
      "watch s a c OP_READ s'"
    using watched_set_interest [OF s] by metis
  show ?thesis
    by (rule that [of s' "o5\<lparr>s5_write_buffer := b\<rparr>"]) (use o5 b s' in
      \<open>simp_all add: hello_write_def get_socks_def Let_def frame_def phase_def\<close>)
qed

section \<open>The handlers of the selector, one after the other\<close>

fun ready :: "readiness \<Rightarrow> key \<Rightarrow> st \<Rightarrow> st result" where
  "ready Readable = socks5_read"
| "ready Writable = socks5_write"
| "ready Unblocked = socks5_block"

fun ready_all :: "(readiness \<times> key) list \<Rightarrow> st \<Rightarrow> st result" where
  "ready_all [] sw = Inr sw"
| "ready_all ((r, key) # rs) sw = bind_res (ready r key sw) (ready_all rs)"

lemma ready_deliver:
  "deliver r key sw = Inr (t, sw') \<Longrightarrow> t \<noteq> ERROR \<Longrightarrow> t \<noteq> DONE \<Longrightarrow> ready r key sw = Inr sw'"
  by (cases r) (simp_all add: socks5_read_def socks5_write_def socks5_block_def socks5_ready_def)

lemma ready_all_append: "ready_all (rs @ ts) sw = bind_res (ready_all rs sw) (ready_all ts)"
proof (induction rs arbitrary: sw)
  case (Cons x rs)
  then show ?case
    by (cases x; cases "ready (fst x) (snd x) sw") auto
qed simp

text \<open>Where the greeting leads to, and the data of the state.\<close>

definition request_start :: request_data where
  "request_start = \<lparr>rd_rb = Read_buffer, rd_wb = Write_buffer,
     rd_parser = request_parser_init blank_request_parser\<rparr>"

definition auth_start :: auth_data where
  "auth_start = \<lparr>ad_rb = Read_buffer, ad_wb = Write_buffer, ad_parser = auth_parser_init blank_auth_parser,
     ad_status = None\<rparr>"

definition needed_method :: "config \<Rightarrow> u8" where
  "needed_method c = (if is_auth_enabled c then METHOD_AUTH_REQUIRED else METHOD_NO_AUTH_REQUIRED)"

definition after_greeting :: "config \<Rightarrow> nat \<times> client_data" where
  "after_greeting c = (if is_auth_enabled c then (AUTH_READ, CD_auth auth_start)
     else (REQUEST_READ, CD_request request_start))"

lemma state_neq [simp]:
  "HELLO_READ \<noteq> HELLO_WRITE" "HELLO_WRITE \<noteq> AUTH_READ" "HELLO_WRITE \<noteq> REQUEST_READ" "AUTH_READ \<noteq> AUTH_WRITE"
  "AUTH_WRITE \<noteq> REQUEST_READ" "REQUEST_READ \<noteq> REQUEST_CONNECTING" "REQUEST_CONNECTING \<noteq> REQUEST_WRITE"
  "REQUEST_WRITE \<noteq> COPY"
  "HELLO_WRITE \<noteq> ERROR" "AUTH_READ \<noteq> ERROR" "AUTH_WRITE \<noteq> ERROR" "REQUEST_READ \<noteq> ERROR"
  "REQUEST_CONNECTING \<noteq> ERROR" "REQUEST_WRITE \<noteq> ERROR" "COPY \<noteq> ERROR"
  "HELLO_WRITE \<noteq> DONE" "AUTH_READ \<noteq> DONE" "AUTH_WRITE \<noteq> DONE" "REQUEST_READ \<noteq> DONE"
  "REQUEST_CONNECTING \<noteq> DONE" "REQUEST_WRITE \<noteq> DONE" "COPY \<noteq> DONE"
  by (simp_all add: socks_state_defs)

lemmas state_neq_sym [simp] = state_neq [THEN not_sym]

fun on_event :: "readiness \<Rightarrow> st state_definition \<Rightarrow> (st \<Rightarrow> (nat \<times> st) result) option" where
  "on_event Readable d = sd_on_read_ready d"
| "on_event Writable d = sd_on_write_ready d"
| "on_event Unblocked d = sd_on_block_ready d"

lemma deliver_on_event: "deliver r key = stm_handler (on_event r) (socks_stm key)"
  by (cases r) (simp_all add: stm_handler_read_def stm_handler_write_def stm_handler_block_def fun_eq_iff
      stm_handler_def)

text \<open>A step of the connection: the handler of state \<open>n\<close> answers \<open>t\<close>, another state, and the machine
  arrives there.\<close>

lemma ready_step:
  assumes o5: "w_socks w a = Some o5" "s5_stm_current o5 = Some n" "n \<le> ERROR"
    and f: "on_event r (socks_state_definition (conn_key a c) ! n) = Some f"
    and run: "f (s, w) = Inr (t, s1, put_socks a o1 w1)" "s5_stm_current o1 = Some n"
    and t: "t \<le> ERROR" "t \<noteq> n" "t \<noteq> ERROR" "t \<noteq> DONE"
    and arrive: "(case sd_on_arrival (socks_state_definition (conn_key a c) ! t) of
        None \<Rightarrow> Inr (s1, put_socks a (o1\<lparr>s5_stm_current := Some t\<rparr>) w1)
      | Some g \<Rightarrow> g t (s1, put_socks a (o1\<lparr>s5_stm_current := Some t\<rparr>) w1)) = Inr sw'"
  shows "ready r (conn_key a c) (s, w) = Inr sw'"
proof -
  have "stm_jump (socks_stm (conn_key a c)) t (s1, put_socks a o1 w1) = Inr sw'"
    using jump_bare [of "put_socks a o1 w1" a o1 n t c s1] jump_arrival [of "put_socks a o1 w1" a o1 n t c _ s1]
      run(2) o5(3) t arrive by (simp split: option.splits)
  with deliver_run [where on_ready = "on_event r" and f = f and n = n, OF o5 f, of s] run(1) have "deliver r (conn_key a c) (s, w) = Inr (t, sw')"
    by (simp add: deliver_on_event)
  from ready_deliver [OF this t(3,4)] show ?thesis .
qed

lemma greeting_read:
  assumes o5: "w_socks w a = Some o5" "phase HELLO_READ [] (o5\<lparr>s5_stm_current := Some HELLO_READ\<rparr>)"
      "s5_stm_current o5 = None"
    and s: "watched s a c" and ms: "length ms < 256" "length ms + 2 \<le> capacity (s5_read_buffer o5)"
    and wb: "2 \<le> capacity (s5_write_buffer o5)"
    and ans: "w_answers w = RecvBytes (0x05 # of_nat (length ms) # ms) # xs"
  obtains s' o1 d where "ready Readable (conn_key a c) (s, w) = Inr (s', put_socks a o1 (w\<lparr>w_answers := xs\<rparr>))"
    "watch s a c OP_WRITE s'" "frame o1 = frame o5" "phase HELLO_WRITE [0x05, chosen (w_config w) ms] o1"
    "s5_client_data o1 = CD_hello d" "hd_wb d = Write_buffer" "hp_data (hd_parser d) = chosen (w_config w) ms"
    "s5_final_server_fd o1 = s5_final_server_fd o5" "s5_user o1 = s5_user o5"
proof -
  let ?o = "o5\<lparr>s5_stm_current := Some HELLO_READ, s5_client_data := CD_hello (hello_start (w_config w))\<rparr>"
  let ?w = "put_socks a ?o w"
  obtain s' o1 d where r: "hello_read (conn_key a c) (s, ?w) =
        Inr (HELLO_WRITE, s', put_socks a o1 (?w\<lparr>w_answers := xs\<rparr>))"
      "watch s a c OP_WRITE s'" "frame o1 = frame ?o" "phase HELLO_READ [0x05, chosen (w_config ?w) ms] o1"
      "s5_client_data o1 = CD_hello d" "hd_wb d = Write_buffer" "hp_data (hd_parser d) = chosen (w_config ?w) ms"
      "s5_final_server_fd o1 = s5_final_server_fd ?o" "s5_user o1 = s5_user ?o"
    by (rule hello_read_greeting [of ?w a ?o s c ms xs]) (use assms in \<open>simp_all add: phase_def\<close>)
  have "ready Readable (conn_key a c) (s, ?w) =
      Inr (s', put_socks a (o1\<lparr>s5_stm_current := Some HELLO_WRITE\<rparr>) (w\<lparr>w_answers := xs\<rparr>))"
    by (rule ready_step [where n = HELLO_READ and t = HELLO_WRITE and f = "hello_read (conn_key a c)" and ?o5.0 = ?o and
        ?s1.0 = s' and ?o1.0 = o1 and ?w1.0 = "w\<lparr>w_answers := xs\<rparr>"])
      (use r(1,4) in \<open>simp_all add: phase_def\<close>)
  moreover have "ready Readable (conn_key a c) (s, w) = ready Readable (conn_key a c) (s, ?w)"
    using deliver_first [OF o5(1,3), of c s] by (simp add: socks5_read_def hello_start_def)
  ultimately show ?thesis
    by (intro that [of s' "o1\<lparr>s5_stm_current := Some HELLO_WRITE\<rparr>" d])
      (use r in \<open>simp_all add: frame_def phase_def\<close>)
qed

lemma greeting_write:
  assumes o5: "w_socks w a = Some o5" "phase HELLO_WRITE [0x05, needed_method (w_config w)] o5"
      "s5_client_data o5 = CD_hello d" "hd_wb d = Write_buffer"
      "hp_data (hd_parser d) = needed_method (w_config w)"
    and s: "watched s a c" and ans: "w_answers w = SentBytes 2 # xs"
  obtains s' o1 where "ready Writable (conn_key a c) (s, w) =
      Inr (s', put_socks a o1 (emit (SentTo (int c) [0x05, needed_method (w_config w)]) (w\<lparr>w_answers := xs\<rparr>)))"
    "watch s a c OP_READ s'" "frame o1 = frame o5" "phase (fst (after_greeting (w_config w))) [] o1"
    "s5_client_data o1 = snd (after_greeting (w_config w))"
    "s5_final_server_fd o1 = s5_final_server_fd o5" "s5_user o1 = s5_user o5"
proof -
  obtain t data where t: "after_greeting (w_config w) = (t, data)"
    by (cases "after_greeting (w_config w)")
  then have cases: "t = AUTH_READ \<and> data = CD_auth auth_start \<or> t = REQUEST_READ \<and> data = CD_request request_start"
    by (auto simp: after_greeting_def split: if_splits)
  have "METHOD_AUTH_REQUIRED \<noteq> METHOD_NO_AUTH_REQUIRED"
    by (simp add: METHOD_AUTH_REQUIRED_def METHOD_NO_AUTH_REQUIRED_def)
  then have jump: "(if needed_method (w_config w) = METHOD_AUTH_REQUIRED \<and> is_auth_enabled (w_config w) then AUTH_READ
      else if needed_method (w_config w) = METHOD_NO_AUTH_REQUIRED \<and> \<not> is_auth_enabled (w_config w)
      then REQUEST_READ else DONE) = t"
    using t by (auto simp: needed_method_def after_greeting_def split: if_splits)
  obtain s' o1 where r: "hello_write (conn_key a c) (s, w) =
        Inr (t, s', put_socks a o1 (emit (SentTo (int c) [0x05, needed_method (w_config w)]) (w\<lparr>w_answers := xs\<rparr>)))"
      "watch s a c OP_READ s'" "frame o1 = frame o5" "phase HELLO_WRITE [] o1"
      "s5_final_server_fd o1 = s5_final_server_fd o5" "s5_user o1 = s5_user o5"
    using hello_write_answer [OF o5 s ans, unfolded jump] by blast
  let ?o = "o1\<lparr>s5_stm_current := Some t, s5_client_data := data\<rparr>"
  have "ready Writable (conn_key a c) (s, w) =
      Inr (s', put_socks a ?o (emit (SentTo (int c) [0x05, needed_method (w_config w)]) (w\<lparr>w_answers := xs\<rparr>)))"
    by (rule ready_step [where n = HELLO_WRITE and t = t and f = "hello_write (conn_key a c)" and ?o5.0 = o5 and
        ?s1.0 = s' and ?o1.0 = o1 and
        ?w1.0 = "emit (SentTo (int c) [0x05, needed_method (w_config w)]) (w\<lparr>w_answers := xs\<rparr>)"])
      (use o5(1,2) r(1,4) cases in \<open>auto simp: phase_def auth_read_init_def request_init_def auth_start_def
          request_start_def Let_def\<close>)
  then show ?thesis
    by (rule that [of s' ?o]) (use r t in \<open>simp_all add: frame_def phase_def\<close>)
qed

section \<open>The request\<close>

text \<open>The address that \<open>connect\<close> is called with.\<close>

fun sockaddr :: "u8 list \<Rightarrow> destination \<Rightarrow> u8 list" where
  "sockaddr port (IPv4 ip) = [2, 0] @ port @ ip @ replicate 8 0"
| "sockaddr port (IPv6 ip) = [10, 0] @ port @ replicate 4 0 @ ip @ replicate 4 0"
| "sockaddr port (Domain d) = []"

fun is_address :: "destination \<Rightarrow> bool" where
  "is_address (IPv4 ip) \<longleftrightarrow> length ip = 4"
| "is_address (IPv6 ip) \<longleftrightarrow> length ip = 16"
| "is_address (Domain d) \<longleftrightarrow> False"

lemma final_addr_dest:
  assumes "length port = 2"
  shows "length ip = 4 \<Longrightarrow> final_addr AF_INET_bytes 16 \<lparr>rq_cmd = c, rq_dst_addr_type = t,
      rq_dst_addr = dest_mem (IPv4 ip), rq_dst_port = port\<rparr> = Inr (sockaddr port (IPv4 ip))"
    "length ip = 16 \<Longrightarrow> final_addr AF_INET6_bytes 28 \<lparr>rq_cmd = c, rq_dst_addr_type = t,
      rq_dst_addr = dest_mem (IPv6 ip), rq_dst_port = port\<rparr> = Inr (sockaddr port (IPv6 ip))"
  using assms by (simp_all add: final_addr_def load_range_def store_range_def AF_INET_bytes_def
      AF_INET6_bytes_def eval_nat_numeral)

definition connecting_table ::
  "sel \<Rightarrow> nat \<Rightarrow> nat \<Rightarrow> nat \<Rightarrow> sel \<Rightarrow> fd_interest \<Rightarrow> fd_interest \<Rightarrow> bool" where
  "connecting_table s a c f s' i j \<longleftrightarrow> watched s' a c \<and> watched s' a f \<and> fd_size s' = fd_size s \<and> c \<noteq> f \<and>
     registered s' = (registered s)(c \<mapsto> (i, Some H_socks5, Some (Socks_at a)),
       f \<mapsto> (j, Some H_socks5, Some (Socks_at a)))"

lemma connect_started:
  assumes o5: "w_socks w a = Some o5" "s5_final_server_fd o5 = -1" "s5_client_fd o5 = int c"
      "s5_final_server_len o5 \<le> length (s5_final_server_addr o5)"
    and s: "watched s a c" "registered s f = None" "f < fd_size s" "f < ITEMS_MAX_SIZE"
    and ans: "w_answers w = NewSocket (int f) # NioSet True # ConnectFails EINPROGRESS # xs"
  obtains s' where "request_connect fuel key a (s, w) = Inr (REQUEST_CONNECTING, s',
      put_socks a (o5\<lparr>s5_final_server_fd := int f\<rparr>)
        (emit (Connecting (int f) (take (s5_final_server_len o5) (s5_final_server_addr o5))) (w\<lparr>w_answers := xs\<rparr>)))"
    "connecting_table s a c f s' OP_NOOP OP_WRITE"
proof -
  obtain j where j: "selector_ok s" "c < ITEMS_MAX_SIZE" "registered s c = Some (j, Some H_socks5, Some (Socks_at a))"
    using s(1) by (auto simp: watched_def)
  have neq: "c \<noteq> f"
    using j(3) s(2) by auto
  obtain s1 where s1: "selector_register False zero_item s (int f) (Some H_socks5) OP_WRITE (Some (Socks_at a)) =
        Inr (SELECTOR_SUCCESS, s1)" "selector_ok s1" "fd_size s1 = fd_size s"
      "registered s1 = (registered s)(f \<mapsto> (OP_WRITE, Some H_socks5, Some (Socks_at a)))"
    using selector_register_ok [OF j(1) s(3,4,2)] by blast
  then have "watched s1 a c"
    using j neq by (auto simp: watched_def)
  then obtain s' where s': "selector_set_interest s1 (int c) OP_NOOP = Inr (SELECTOR_SUCCESS, s')"
      "watch s1 a c OP_NOOP s'"
    by (metis watched_set_interest)
  have "connecting_table s a c f s' OP_NOOP OP_WRITE"
    using s' s1 s neq by (auto simp: connecting_table_def watch_def watched_def fun_upd_twist)
  moreover have "request_connect fuel key a (s, w) = Inr (REQUEST_CONNECTING, s',
      put_socks a (o5\<lparr>s5_final_server_fd := int f\<rparr>)
        (emit (Connecting (int f) (take (s5_final_server_len o5) (s5_final_server_addr o5))) (w\<lparr>w_answers := xs\<rparr>)))"
    using o5 ans s1(1) s'(1) by (subst request_connect.simps) (simp add: drop_old_fd_def get_socks_def
        open_socket_def next_answer_def selector_fd_set_nio_def sys_connect_def load_range_def
        connect_in_progress_def Let_def)
  ultimately show ?thesis
    by (rule that [rotated])
qed

text \<open>The request with its destination, as the parser leaves it.\<close>

definition request_held :: "destination \<Rightarrow> u8 list \<Rightarrow> request_data" where
  "request_held d port = request_start\<lparr>rd_parser := rq_parser request_done 1 (dest_type d) (dest_mem d) port 2 2\<rparr>"

lemma connect_to_started:
  assumes o5: "w_socks w a = Some o5" "s5_final_server_fd o5 = -1" "s5_client_fd o5 = int c"
      "28 \<le> length (s5_final_server_addr o5)"
    and s: "watched s a c" "registered s f = None" "f < fd_size s" "f < ITEMS_MAX_SIZE"
    and d: "is_address d" "length port = 2"
    and ans: "w_answers w = NewSocket (int f) # NioSet True # ConnectFails EINPROGRESS # xs"
  obtains s' o1 where "request_process key a (rp_request (rd_parser (request_held d port))) (s, w) =
      Inr (REQUEST_CONNECTING, s', put_socks a o1 (emit (Connecting (int f) (sockaddr port d)) (w\<lparr>w_answers := xs\<rparr>)))"
    "connecting_table s a c f s' OP_NOOP OP_WRITE"
    "o1 = o5\<lparr>s5_final_server_fd := int f, s5_final_server_len := s5_final_server_len o1,
       s5_final_server_addr := s5_final_server_addr o1\<rparr>"
    "length (s5_final_server_addr o1) = length (s5_final_server_addr o5)"
proof -
  let ?r = "rp_request (rd_parser (request_held d port))"
  define n where "n = length (sockaddr port d)"
  define addr where "addr = sockaddr port d @ drop n (s5_final_server_addr o5)"
  have n: "n \<le> length (s5_final_server_addr o5)"
    using d o5(4) by (cases d) (auto simp: n_def)
  let ?o = "o5\<lparr>s5_final_server_len := n, s5_final_server_addr := addr\<rparr>"
  have "request_process key a ?r (s, w) = start_connect key a (s, put_socks a ?o w)"
    using d o5(1) n final_addr_dest [OF d(2)]
    by (cases d) (simp_all add: request_process_def connect_to_def request_held_def request_start_def
        rq_parser_def socks_req_defs get_socks_def store_range_def n_def addr_def)
  also have "\<dots> = request_connect (length (s5_current_server_resolution o5)) key a (s, put_socks a ?o w)"
    by (simp add: start_connect_def)
  finally have eq: "request_process key a ?r (s, w) =
      request_connect (length (s5_current_server_resolution o5)) key a (s, put_socks a ?o w)" .
  have addr: "take n addr = sockaddr port d" "n \<le> length addr"
    by (simp_all add: addr_def n_def)
  obtain s' where "request_connect (length (s5_current_server_resolution o5)) key a (s, put_socks a ?o w) =
        Inr (REQUEST_CONNECTING, s', put_socks a (?o\<lparr>s5_final_server_fd := int f\<rparr>)
          (emit (Connecting (int f) (take n addr)) (put_socks a ?o w\<lparr>w_answers := xs\<rparr>)))"
      "connecting_table s a c f s' OP_NOOP OP_WRITE"
    by (rule connect_started [of "put_socks a ?o w" a ?o c s f xs]) (use assms addr(2) in simp_all)
  with eq addr(1) n show ?thesis
    by (intro that [of s' "?o\<lparr>s5_final_server_fd := int f\<rparr>"]) (simp_all add: addr_def n_def)
qed

lemma request_read_connects:
  assumes o5: "w_socks w a = Some o5" "phase REQUEST_READ [] o5" "s5_client_data o5 = CD_request request_start"
      "s5_final_server_fd o5 = -1" "s5_client_fd o5 = int c" "28 \<le> length (s5_final_server_addr o5)"
    and s: "watched s a c" "registered s f = None" "f < fd_size s" "f < ITEMS_MAX_SIZE"
    and d: "is_address d" "length port = 2" "length (request_message 1 rsv d port) \<le> capacity (s5_read_buffer o5)"
    and ans: "w_answers w = RecvBytes (request_message 1 rsv d port) # NewSocket (int f) # NioSet True #
      ConnectFails EINPROGRESS # xs"
  obtains s' o1 where "request_read (conn_key a c) (s, w) = Inr (REQUEST_CONNECTING, s',
      put_socks a o1 (emit (Connecting (int f) (sockaddr port d)) (w\<lparr>w_answers := xs\<rparr>)))"
    "connecting_table s a c f s' OP_NOOP OP_WRITE" "frame o1 = frame o5" "phase REQUEST_READ [] o1"
    "s5_client_data o1 = CD_request (request_held d port)" "s5_final_server_fd o1 = int f" "s5_user o1 = s5_user o5"
proof -
  let ?m = "request_message 1 rsv d port" and ?q = "rq_parser request_done 1 (dest_type d) (dest_mem d) port 2 2"
  let ?p = "request_parser_init blank_request_parser"
  let ?xs = "NewSocket (int f) # NioSet True # ConnectFails EINPROGRESS # xs"
  have "dest_ok d"
    using d(1) by (cases d) simp_all
  then have run: "parse_run request_parser_feed (\<lambda>p. request_final (rp_state p)) ?p ?m = Inr (?q, [])"
    using request_run_message [of 1 d port blank_request_parser rsv "[]"] d(2) by simp
  have rb: "buffer_ok (s5_read_buffer o5)" "pending (s5_read_buffer o5) = []" and ne: "?m \<noteq> []"
    using o5(2) by (auto simp: phase_def request_message_def)
  obtain b1 b2 b3 where b: "recv_into (s5_read_buffer o5) w = Inr (?m, int (length ?m), b1, w\<lparr>w_answers := ?xs\<rparr>)"
      "buffer_write_adv b1 (int (length ?m)) = Inr b2"
      "consume_loop request_parser_feed rp_state request_is_done (rp_state ?p) b2 ?p (Some False) =
        Inr (rp_state ?q, b3, ?q, if request_failed (rp_state ?q) then Some True else Some False)"
      "buffer_ok b3" "pending b3 = []" "shape b3 = shape (s5_read_buffer o5)"
    by (rule request.receive_message [OF rb ans d(3) ne run])
  have state: "rp_state ?q = request_done" "\<not> request_failed request_done"
    by (simp_all add: rq_parser_def request_failed_def)
  let ?o = "o5\<lparr>s5_client_data := CD_request (request_held d port), s5_read_buffer := b3\<rparr>"
  let ?w = "put_socks a ?o (w\<lparr>w_answers := ?xs\<rparr>)"
  obtain s' o1 where p: "request_process (conn_key a c) a (rp_request ?q) (s, ?w) =
        Inr (REQUEST_CONNECTING, s', put_socks a o1 (emit (Connecting (int f) (sockaddr port d)) (w\<lparr>w_answers := xs\<rparr>)))"
      "connecting_table s a c f s' OP_NOOP OP_WRITE"
      "o1 = ?o\<lparr>s5_final_server_fd := int f, s5_final_server_len := s5_final_server_len o1,
         s5_final_server_addr := s5_final_server_addr o1\<rparr>"
      "length (s5_final_server_addr o1) = length (s5_final_server_addr ?o)"
    using connect_to_started [of ?w a ?o c s f d port xs "conn_key a c"] o5 s d by (auto simp: request_held_def)
  have start: "rd_rb request_start = Read_buffer" "rd_parser request_start = ?p"
    by (simp_all add: request_start_def)
  have "request_read (conn_key a c) (s, w) = request_process (conn_key a c) a (rp_request ?q) (s, ?w)"
    using o5(1,3) b(1,2,3) start state p(1)
    by (simp add: request_read_def get_socks_def request_consume_def request_is_done_def request_held_def Let_def)
  with p(1) have "request_read (conn_key a c) (s, w) = Inr (REQUEST_CONNECTING, s',
      put_socks a o1 (emit (Connecting (int f) (sockaddr port d)) (w\<lparr>w_answers := xs\<rparr>)))"
    by simp
  then show ?thesis
    by (rule that [OF _ p(2)]) (insert p(4) b o5(2), subst p(3), simp add: frame_def phase_def)+
qed

lemma request_step:
  assumes o5: "w_socks w a = Some o5" "phase REQUEST_READ [] o5" "s5_client_data o5 = CD_request request_start"
      "s5_final_server_fd o5 = -1" "s5_client_fd o5 = int c" "28 \<le> length (s5_final_server_addr o5)"
    and s: "watched s a c" "registered s f = None" "f < fd_size s" "f < ITEMS_MAX_SIZE"
    and d: "is_address d" "length port = 2" "length (request_message 1 rsv d port) \<le> capacity (s5_read_buffer o5)"
    and ans: "w_answers w = RecvBytes (request_message 1 rsv d port) # NewSocket (int f) # NioSet True #
      ConnectFails EINPROGRESS # xs"
  obtains s' o1 where "ready Readable (conn_key a c) (s, w) = Inr (s',
      put_socks a o1 (emit (Connecting (int f) (sockaddr port d)) (w\<lparr>w_answers := xs\<rparr>)))"
    "connecting_table s a c f s' OP_NOOP OP_WRITE" "frame o1 = frame o5" "phase REQUEST_CONNECTING [] o1"
    "s5_client_data o1 = CD_request (request_held d port)" "s5_server_data o1 = SD_connect \<lparr>cn_wb = Write_buffer\<rparr>"
    "s5_final_server_fd o1 = int f" "s5_user o1 = s5_user o5"
proof -
  let ?w1 = "emit (Connecting (int f) (sockaddr port d)) (w\<lparr>w_answers := xs\<rparr>)"
  obtain s' o1 where r: "request_read (conn_key a c) (s, w) = Inr (REQUEST_CONNECTING, s', put_socks a o1 ?w1)"
    "connecting_table s a c f s' OP_NOOP OP_WRITE" "frame o1 = frame o5" "phase REQUEST_READ [] o1"
    "s5_client_data o1 = CD_request (request_held d port)" "s5_final_server_fd o1 = int f" "s5_user o1 = s5_user o5"
    by (rule request_read_connects [OF o5 s d ans])
  let ?o = "o1\<lparr>s5_stm_current := Some REQUEST_CONNECTING, s5_server_data := SD_connect \<lparr>cn_wb = Write_buffer\<rparr>\<rparr>"
  have "ready Readable (conn_key a c) (s, w) = Inr (s', put_socks a ?o ?w1)"
    by (rule ready_step [where n = REQUEST_READ and t = REQUEST_CONNECTING and f = "request_read (conn_key a c)" and
        ?o5.0 = o5 and ?s1.0 = s' and ?o1.0 = o1 and ?w1.0 = ?w1])
      (use o5(1,2) r(1,4) in \<open>simp_all add: phase_def request_connecting_init_def\<close>)
  then show ?thesis
    by (rule that [OF _ r(2)]) (use r(3-) in \<open>simp_all add: frame_def phase_def\<close>)
qed

section \<open>The reply\<close>

text \<open>The line of the log needs the user's name with its zero byte while authentication is on.\<close>

definition loggable :: "config \<Rightarrow> socks5 \<Rightarrow> bool" where
  "loggable c o5 \<longleftrightarrow> is_auth_enabled c \<longrightarrow> 0 \<in> set (s5_user o5)"

lemma log_conn_loggable:
  assumes "w_socks w a = Some o5" and "loggable (w_config w) o5"
  shows "log_conn a st w = Inr (emit (Logged a st) w)"
proof (cases "is_auth_enabled (w_config w)")
  case True
  with assms(2) have "holds_str (s5_user o5) (str_of (s5_user o5))"
    by (intro holds_str_of) (simp add: loggable_def terminated_def)
  with assms(1) True show ?thesis
    by (simp add: log_conn_def get_socks_def holds_str_def)
qed (use assms(1) in \<open>simp add: log_conn_def get_socks_def\<close>)

lemma connected_step:
  assumes o5: "w_socks w a = Some o5" "phase REQUEST_CONNECTING [] o5"
      "s5_client_data o5 = CD_request (request_held d port)" "s5_server_data o5 = SD_connect \<lparr>cn_wb = Write_buffer\<rparr>"
      "s5_final_server_fd o5 = int f" "s5_client_fd o5 = int c" "loggable (w_config w) o5"
    and s: "watched s a c" "watched s a f" "c \<noteq> f"
    and d: "is_address d" "length port = 2" "length (request_message 0 0 d port) \<le> capacity (s5_write_buffer o5)"
    and ans: "w_answers w = SockError 0 # xs"
  obtains s' o1 where "ready Writable (conn_key a f) (s, w) = Inr (s', put_socks a o1
      (emit (Logged a status_succeeded) (w\<lparr>w_answers := xs, w_metrics := add_connection (w_metrics w)\<rparr>)))"
    "connecting_table s a c f s' OP_WRITE OP_NOOP" "s5_client_fd o1 = s5_client_fd o5"
    "phase REQUEST_WRITE (request_message 0 0 d port) o1" "s5_client_data o1 = s5_client_data o5"
    "s5_final_server_fd o1 = int f" "s5_status o1 = status_succeeded"
proof -
  let ?r = "rp_request (rd_parser (request_held d port))"
  let ?o = "o5\<lparr>s5_status := status_succeeded, s5_final_server_fd := int f\<rparr>"
  let ?w = "put_socks a ?o (w\<lparr>w_answers := xs, w_metrics := add_connection (w_metrics w)\<rparr>)"
  let ?w1 = "emit (Logged a status_succeeded) (w\<lparr>w_answers := xs, w_metrics := add_connection (w_metrics w)\<rparr>)"
  have wb: "buffer_ok (s5_write_buffer o5)" "pending (s5_write_buffer o5) = []"
    using o5(2) by (auto simp: phase_def)
  then have "room (s5_write_buffer o5) = capacity (s5_write_buffer o5)"
    using pending_empty_iff [of "s5_write_buffer o5"] by (auto simp: buffer_dims)
  moreover have "reply_address ?r = Inr (dest_wire d)"
    using reply_address_dest [of d 1 port] d(1) by (cases d) (simp_all add: request_held_def rq_parser_def)
  ultimately obtain b where b: "request_marshalll (s5_write_buffer o5) status_succeeded ?r =
        Inr (6 + int (length (dest_wire d)), b)" "buffer_ok b" "shape b = shape (s5_write_buffer o5)"
      "pending b = request_message 0 0 d port"
    using request_marshalll_ok [OF wb(1), of ?r "dest_wire d" status_succeeded] d(2,3) wb(2)
    by (auto simp: request_message_def request_held_def rq_parser_def)
  obtain s1 where s1: "selector_set_interest s (int c) OP_WRITE = Inr (SELECTOR_SUCCESS, s1)" "watch s a c OP_WRITE s1"
    using watched_set_interest [OF s(1)] by metis
  then have "watched s1 a f"
    using s(2,3) by (auto simp: watch_def watched_def)
  then obtain s' where s': "selector_set_interest s1 (int f) OP_NOOP = Inr (SELECTOR_SUCCESS, s')" "watch s1 a f OP_NOOP s'"
    using watched_set_interest by metis
  have table: "connecting_table s a c f s' OP_WRITE OP_NOOP"
    using s1(2) s'(2) s(3) by (auto simp: connecting_table_def watch_def watched_def)
  let ?o1 = "?o\<lparr>s5_write_buffer := b\<rparr>"
  have log: "log_conn a status_succeeded ?w = Inr (put_socks a ?o ?w1)"
    using log_conn_loggable [of ?w a ?o status_succeeded] o5(7) by (simp add: loggable_def)
  have run: "request_connecting (conn_key a f) (s, w) = Inr (REQUEST_WRITE, s', put_socks a ?o1 ?w1)"
    using o5 ans b(1) s1(1) s'(1) log
    by (simp add: request_connecting_def request_connecting_reply_def get_socks_def next_answer_def Let_def
        request_held_def request_start_def)
  have "ready Writable (conn_key a f) (s, w) = Inr (s', put_socks a (?o1\<lparr>s5_stm_current := Some REQUEST_WRITE\<rparr>) ?w1)"
    by (rule ready_step [where n = REQUEST_CONNECTING and t = REQUEST_WRITE and f = "request_connecting (conn_key a f)"
        and ?o5.0 = o5 and ?s1.0 = s' and ?o1.0 = ?o1 and ?w1.0 = ?w1])
      (use o5(1,2) run in \<open>simp_all add: phase_def\<close>)
  then show ?thesis
    by (rule that [OF _ table]) (use b o5(2) in \<open>simp_all add: frame_def phase_def\<close>)
qed

lemma reply_step:
  assumes o5: "w_socks w a = Some o5" "phase REQUEST_WRITE out o5" "s5_client_data o5 = CD_request (request_held d port)"
      "s5_final_server_fd o5 = int f" "s5_client_fd o5 = int c" "s5_status o5 = status_succeeded"
    and s: "watched s a c" "watched s a f" "c \<noteq> f"
    and ans: "w_answers w = SentBytes (length out) # xs"
  obtains s' o1 where "ready Writable (conn_key a c) (s, w) =
      Inr (s', put_socks a o1 (emit (SentTo (int c) out) (w\<lparr>w_answers := xs\<rparr>)))"
    "connecting_table s a c f s' OP_READ OP_READ" "copying o1" "to_server o1 = []" "to_client o1 = []"
    "s5_stm_current o1 = Some COPY"
proof -
  have wb: "buffer_ok (s5_write_buffer o5)" "pending (s5_write_buffer o5) = out"
    and rb: "buffer_ok (s5_read_buffer o5)" "pending (s5_read_buffer o5) = []"
    using o5(2) by (auto simp: phase_def)
  with ans have "w_answers w = SentBytes (length (pending (s5_write_buffer o5))) # xs"
    by simp
  then obtain b where b: "send_from (int c) (s5_write_buffer o5) w =
        Inr (out, int (length out), emit (SentTo (int c) out) (w\<lparr>w_answers := xs\<rparr>))"
      "buffer_read_adv (s5_write_buffer o5) (int (length out)) = Inr b" "buffer_ok b" "pending b = []"
      "\<not> buffer_can_read b"
    using send_pending [OF wb(1), of w xs "int c"] wb(2) by auto
  obtain s1 where s1: "selector_set_interest s (int c) OP_READ = Inr (SELECTOR_SUCCESS, s1)" "watch s a c OP_READ s1"
    using watched_set_interest [OF s(1)] by metis
  then have "watched s1 a f"
    using s(2,3) by (auto simp: watch_def watched_def)
  then obtain s' where s': "selector_set_interest s1 (int f) OP_READ = Inr (SELECTOR_SUCCESS, s')" "watch s1 a f OP_READ s'"
    using watched_set_interest by metis
  have table: "connecting_table s a c f s' OP_READ OP_READ"
    using s1(2) s'(2) s(3) by (auto simp: connecting_table_def watch_def watched_def)
  let ?w1 = "emit (SentTo (int c) out) (w\<lparr>w_answers := xs\<rparr>)"
  let ?o1 = "o5\<lparr>s5_write_buffer := b\<rparr>"
  let ?i = "OP_READ OR OP_WRITE"
  let ?o2 = "?o1\<lparr>s5_stm_current := Some COPY, s5_client_data := CD_copy (client_copy ?i),
    s5_server_data := SD_copy (server_copy ?i)\<rparr>"
  have run: "request_write (conn_key a c) (s, w) = Inr (COPY, s', put_socks a ?o1 ?w1)"
    using o5 b s1(1) s'(1) by (simp add: request_write_def get_socks_def Let_def request_held_def request_start_def)
  have "ready Writable (conn_key a c) (s, w) = Inr (s', put_socks a ?o2 ?w1)"
    by (rule ready_step [where n = REQUEST_WRITE and t = COPY and f = "request_write (conn_key a c)"
        and ?o5.0 = o5 and ?s1.0 = s' and ?o1.0 = ?o1 and ?w1.0 = ?w1])
      (use o5(1,2) run in \<open>simp_all add: phase_def copy_init_def copy_side_defs Let_def\<close>)
  then show ?thesis
    by (rule that [OF _ table]) (use o5 b rb s(3) in \<open>auto simp: copying_def to_server_def to_client_def\<close>)
qed

section \<open>The login\<close>

lemma auth_read_login:
  assumes o5: "w_socks w a = Some o5" "phase AUTH_READ [] o5" "s5_client_data o5 = CD_auth auth_start"
      "length u \<le> length (s5_user o5)"
    and s: "watched s a c" and conf: "config_ok (w_config w)"
    and u: "0 < length u" "length u < 255" "0 \<notin> set u" and p: "0 < length v" "length v < 255" "0 \<notin> set v"
    and fit: "length (auth_message u v) \<le> capacity (s5_read_buffer o5)" "2 \<le> capacity (s5_write_buffer o5)"
    and ans: "w_answers w = RecvBytes (auth_message u v) # xs"
  obtains s' o1 x y data where "auth_read (conn_key a c) (s, w) = Inr (AUTH_WRITE, s',
      put_socks a o1 (emit (Checked a x y ((u, v) \<in> set (accounts (w_config w)))) (w\<lparr>w_answers := xs\<rparr>)))"
    "watch s a c OP_WRITE s'" "frame o1 = frame o5"
    "phase AUTH_READ [0x01, if (u, v) \<in> set (accounts (w_config w)) then AUTH_SUCCESS else AUTH_FAIL] o1"
    "s5_client_data o1 = CD_auth data" "ad_wb data = Write_buffer"
    "ad_status data = Some (if (u, v) \<in> set (accounts (w_config w)) then AUTH_SUCCESS else AUTH_FAIL)"
    "s5_user o1 = u @ drop (length u) (s5_user o5)" "s5_final_server_fd o1 = s5_final_server_fd o5"
    "s5_status o1 = s5_status o5" "holds_str x u" "holds_str y v"
proof -
  let ?q = "auth_accepted u v" and ?m = "auth_message u v" and ?p = "auth_parser_init blank_auth_parser"
  let ?st = "if (u, v) \<in> set (accounts (w_config w)) then AUTH_SUCCESS else AUTH_FAIL"
  let ?x = "au_username (ap_user ?q)" and ?y = "au_passwd (ap_pass ?q)"
  have run: "parse_run auth_parser_feed (\<lambda>p. auth_final (ap_state p)) ?p ?m = Inr (?q, [])"
    using auth_run_message [OF u(1,2) p(1,2), of blank_auth_parser "[]"] by simp
  have held: "holds_str ?x u" "holds_str ?y v"
    using u p by (auto simp: auth_accepted_def holds_str_iff)
  have rb: "buffer_ok (s5_read_buffer o5)" "pending (s5_read_buffer o5) = []" and ne: "?m \<noteq> []"
    and wb: "buffer_ok (s5_write_buffer o5)" "pending (s5_write_buffer o5) = []"
    using o5(2) by (auto simp: phase_def auth_message_def)
  obtain b1 b2 b3 where b: "recv_into (s5_read_buffer o5) w = Inr (?m, int (length ?m), b1, w\<lparr>w_answers := xs\<rparr>)"
      "buffer_write_adv b1 (int (length ?m)) = Inr b2"
      "consume_loop auth_parser_feed ap_state auth_is_done (ap_state ?p) b2 ?p (Some False) =
        Inr (ap_state ?q, b3, ?q, if auth_failed (ap_state ?q) then Some True else Some False)"
      "buffer_ok b3" "pending b3 = []" "shape b3 = shape (s5_read_buffer o5)"
    by (rule auth.receive_message [OF rb ans fit(1) ne run])
  have state: "ap_state ?q = auth_done" "\<not> auth_failed auth_done" "auth_is_done auth_done e = (True, e)" for e
    by (simp_all add: auth_accepted_def auth_failed_def auth_is_done_def)
  have "2 \<le> room (s5_write_buffer o5)"
    using fit(2) wb pending_empty_iff [of "s5_write_buffer o5"] by (auto simp: buffer_dims)
  then obtain wb' where wb': "auth_marshall (s5_write_buffer o5) ?st = Inr (2, wb')" "buffer_ok wb'"
      "pending wb' = [0x01, ?st]" "shape wb' = shape (s5_write_buffer o5)"
    using auth_marshall_ok [OF wb(1)] wb(2) by (metis append_Nil)
  obtain s' where s': "selector_set_interest_key s (conn_key a c) OP_WRITE = Inr (SELECTOR_SUCCESS, s')"
      "watch s a c OP_WRITE s'"
    using watched_set_interest [OF s] by metis
  have name: "load_range ?x 0 (unat (au_userlen (ap_user ?q))) = Inr u"
      "store_range (s5_user o5) 0 u = Inr (u @ drop (length u) (s5_user o5))"
    using u(2) o5(4) by (simp_all add: auth_accepted_def load_range_def store_range_def u8_simps)
  let ?d = "auth_start\<lparr>ad_parser := ?q, ad_status := Some ?st\<rparr>"
  let ?o = "o5\<lparr>s5_read_buffer := b3, s5_client_data := CD_auth ?d,
    s5_user := u @ drop (length u) (s5_user o5), s5_write_buffer := wb'\<rparr>"
  have check: "check_credentials a (auth_start\<lparr>ad_parser := ?q\<rparr>) (w\<lparr>w_answers := xs\<rparr>) =
      Inr (?st, emit (Checked a ?x ?y ((u, v) \<in> set (accounts (w_config w)))) (w\<lparr>w_answers := xs\<rparr>))"
    using checkUser_ok [OF conf held] by (simp add: check_credentials_def)
  have start: "ad_rb auth_start = Read_buffer" "ad_wb auth_start = Write_buffer" "ad_parser auth_start = ?p"
    by (simp_all add: auth_start_def)
  have "auth_read (conn_key a c) (s, w) = Inr (AUTH_WRITE, s',
      put_socks a ?o (emit (Checked a ?x ?y ((u, v) \<in> set (accounts (w_config w)))) (w\<lparr>w_answers := xs\<rparr>)))"
    using o5(1,3) b(1,2,3) s'(1) wb'(1) state name check start
    by (simp add: auth_read_def auth_process_def get_socks_def auth_consume_def Let_def)
  then show ?thesis
    by (rule that [OF _ s'(2), where x = ?x and y = ?y and data = ?d])
      (use o5(2) b wb' held in \<open>simp_all add: frame_def phase_def auth_start_def\<close>)
qed

lemma login_read_step:
  assumes o5: "w_socks w a = Some o5" "phase AUTH_READ [] o5" "s5_client_data o5 = CD_auth auth_start"
      "length u \<le> length (s5_user o5)"
    and s: "watched s a c" and conf: "config_ok (w_config w)"
    and u: "0 < length u" "length u < 255" "0 \<notin> set u" and p: "0 < length v" "length v < 255" "0 \<notin> set v"
    and fit: "length (auth_message u v) \<le> capacity (s5_read_buffer o5)" "2 \<le> capacity (s5_write_buffer o5)"
    and ans: "w_answers w = RecvBytes (auth_message u v) # xs"
  obtains s' o1 x y data where "ready Readable (conn_key a c) (s, w) = Inr (s',
      put_socks a o1 (emit (Checked a x y ((u, v) \<in> set (accounts (w_config w)))) (w\<lparr>w_answers := xs\<rparr>)))"
    "watch s a c OP_WRITE s'" "frame o1 = frame o5"
    "phase AUTH_WRITE [0x01, if (u, v) \<in> set (accounts (w_config w)) then AUTH_SUCCESS else AUTH_FAIL] o1"
    "s5_client_data o1 = CD_auth data" "ad_wb data = Write_buffer"
    "ad_status data = Some (if (u, v) \<in> set (accounts (w_config w)) then AUTH_SUCCESS else AUTH_FAIL)"
    "s5_user o1 = u @ drop (length u) (s5_user o5)" "s5_final_server_fd o1 = s5_final_server_fd o5"
    "s5_status o1 = s5_status o5" "holds_str x u" "holds_str y v"
proof -
  let ?e = "\<lambda>x y. emit (Checked a x y ((u, v) \<in> set (accounts (w_config w)))) (w\<lparr>w_answers := xs\<rparr>)"
  obtain s' o1 x y data where r: "auth_read (conn_key a c) (s, w) = Inr (AUTH_WRITE, s', put_socks a o1 (?e x y))"
    "watch s a c OP_WRITE s'" "frame o1 = frame o5"
    "phase AUTH_READ [0x01, if (u, v) \<in> set (accounts (w_config w)) then AUTH_SUCCESS else AUTH_FAIL] o1"
    "s5_client_data o1 = CD_auth data" "ad_wb data = Write_buffer"
    "ad_status data = Some (if (u, v) \<in> set (accounts (w_config w)) then AUTH_SUCCESS else AUTH_FAIL)"
    "s5_user o1 = u @ drop (length u) (s5_user o5)" "s5_final_server_fd o1 = s5_final_server_fd o5"
    "s5_status o1 = s5_status o5" "holds_str x u" "holds_str y v"
    by (rule auth_read_login [OF o5 s conf u p fit ans])
  have "ready Readable (conn_key a c) (s, w) =
      Inr (s', put_socks a (o1\<lparr>s5_stm_current := Some AUTH_WRITE\<rparr>) (?e x y))"
    by (rule ready_step [where n = AUTH_READ and t = AUTH_WRITE and f = "auth_read (conn_key a c)" and
        ?o5.0 = o5 and ?s1.0 = s' and ?o1.0 = o1 and ?w1.0 = "?e x y"])
      (use o5(1,2) r(1,4) in \<open>simp_all add: phase_def\<close>)
  then show ?thesis
    by (rule that [OF _ r(2), where x = x and y = y and data = data])
      (use r(3-) in \<open>simp_all add: frame_def phase_def\<close>)
qed

text \<open>The answer to the login is sent; the machine goes on only if it is positive.\<close>

lemma auth_write_answer:
  assumes o5: "w_socks w a = Some o5" "phase AUTH_WRITE [0x01, st] o5" "s5_client_data o5 = CD_auth data"
      "ad_wb data = Write_buffer" "ad_status data = Some st"
    and s: "watched s a c" and ans: "w_answers w = SentBytes 2 # xs"
  obtains s' b where "auth_write (conn_key a c) (s, w) =
      Inr (if st = AUTH_SUCCESS then REQUEST_READ else DONE, if st = AUTH_SUCCESS then s' else s,
        put_socks a (o5\<lparr>s5_write_buffer := b\<rparr>) (emit (SentTo (int c) [0x01, st]) (w\<lparr>w_answers := xs\<rparr>)))"
    "watch s a c OP_READ s'" "buffer_ok b" "pending b = []" "shape b = shape (s5_write_buffer o5)"
proof -
  have wb: "buffer_ok (s5_write_buffer o5)" "pending (s5_write_buffer o5) = [0x01, st]"
    using o5(2) by (auto simp: phase_def)
  with ans have "w_answers w = SentBytes (length (pending (s5_write_buffer o5))) # xs"
    by simp
  then obtain b where b: "send_from (int c) (s5_write_buffer o5) w =
        Inr ([0x01, st], 2, emit (SentTo (int c) [0x01, st]) (w\<lparr>w_answers := xs\<rparr>))"
      "buffer_read_adv (s5_write_buffer o5) 2 = Inr b" "buffer_ok b" "pending b = []"
      "shape b = shape (s5_write_buffer o5)" "\<not> buffer_can_read b"
    using send_pending [OF wb(1), of w xs "int c"] wb(2) by auto
  obtain s' where s': "selector_set_interest_key s (conn_key a c) OP_READ = Inr (SELECTOR_SUCCESS, s')"
      "watch s a c OP_READ s'"
    using watched_set_interest [OF s] by metis
  show ?thesis
    by (rule that [of s' b]) (use o5 b s' in \<open>simp_all add: auth_write_def get_socks_def Let_def\<close>)
qed

lemma login_write_step:
  assumes o5: "w_socks w a = Some o5" "phase AUTH_WRITE [0x01, AUTH_SUCCESS] o5" "s5_client_data o5 = CD_auth data"
      "ad_wb data = Write_buffer" "ad_status data = Some AUTH_SUCCESS"
    and s: "watched s a c" and ans: "w_answers w = SentBytes 2 # xs"
  obtains s' o1 where "ready Writable (conn_key a c) (s, w) =
      Inr (s', put_socks a o1 (emit (SentTo (int c) [0x01, AUTH_SUCCESS]) (w\<lparr>w_answers := xs\<rparr>)))"
    "watch s a c OP_READ s'" "frame o1 = frame o5" "phase REQUEST_READ [] o1"
    "s5_client_data o1 = CD_request request_start"
    "s5_final_server_fd o1 = s5_final_server_fd o5" "s5_user o1 = s5_user o5"
proof -
  let ?w1 = "emit (SentTo (int c) [0x01, AUTH_SUCCESS]) (w\<lparr>w_answers := xs\<rparr>)"
  obtain s' b where r: "auth_write (conn_key a c) (s, w) =
      Inr (REQUEST_READ, s', put_socks a (o5\<lparr>s5_write_buffer := b\<rparr>) ?w1)"
    "watch s a c OP_READ s'" "buffer_ok b" "pending b = []" "shape b = shape (s5_write_buffer o5)"
    using auth_write_answer [OF o5 s ans] by auto
  let ?o1 = "o5\<lparr>s5_write_buffer := b\<rparr>"
  let ?o2 = "?o1\<lparr>s5_stm_current := Some REQUEST_READ, s5_client_data := CD_request request_start\<rparr>"
  have "ready Writable (conn_key a c) (s, w) = Inr (s', put_socks a ?o2 ?w1)"
    by (rule ready_step [where n = AUTH_WRITE and t = REQUEST_READ and f = "auth_write (conn_key a c)" and
        ?o5.0 = o5 and ?s1.0 = s' and ?o1.0 = ?o1 and ?w1.0 = ?w1])
      (use o5(1,2) r(1) in \<open>simp_all add: phase_def request_init_def request_start_def Let_def\<close>)
  then show ?thesis
    by (rule that [OF _ r(2)]) (use o5(2) r in \<open>simp_all add: frame_def phase_def\<close>)
qed

end
