(* ===== verification/Connection.thy ===== *)
theory Connection
  imports Handshake
begin

text \<open>
  Whole connections, from \<open>accept\<close> on: the object is made, the client greets, logs in where that is
  required, and asks for a destination, or is turned away.
\<close>

section \<open>A new connection\<close>

lemma accepted_init:
  "stm_init (socks_stm (conn_key a c)) (s, put_socks a o5 w) = Inr (s, put_socks a (o5\<lparr>s5_stm_current := None\<rparr>) w)"
  by (simp add: stm_init_iff socks_table socks_current_def) (simp add: socks_state_defs)

lemma accept_step:
  assumes ans: "w_answers w = Accepted (int c) addr # NewSocks junk # Bytes ra # Bytes rb # NioSet True # xs"
    and s: "selector_ok s" "registered s c = None" "c < fd_size s" "c < ITEMS_MAX_SIZE"
    and conns: "sint (get_current_conn (w_metrics w)) < MAX_CONNECTIONS"
    and addr: "length addr \<le> length (s5_client_addr junk)"
    and n: "unat (get_socks_buffer_size (w_config w)) = n" "n + 1 < 2 ^ 32" "length ra = n" "length rb = n"
  obtains s' o5 where "socks5_passive_accept key (s, w) = Inr (s', put_socks (w_next w) o5
      (w\<lparr>w_next := w_next w + 1, w_metrics := add_connecting_clients (w_metrics w), w_answers := xs\<rparr>))"
    "watch s (w_next w) c OP_READ s'" "phase HELLO_READ [] (o5\<lparr>s5_stm_current := Some HELLO_READ\<rparr>)"
    "s5_stm_current o5 = None" "s5_client_fd o5 = int c" "s5_final_server_fd o5 = -1"
    "s5_final_server_addr o5 = s5_final_server_addr junk" "s5_user o5 = s5_user junk"
    "s5_status o5 = status_connecting"
    "capacity (s5_read_buffer o5) = n" "capacity (s5_write_buffer o5) = n"
proof -
  let ?a = "w_next w" and ?sz = "get_socks_buffer_size (w_config w)"
  have size: "unat (?sz + 1) = n + 1"
    using n(1,2) by (simp add: unat_plus_if' unsigned_of_nat take_bit_nat_eq_self)
  obtain client where client: "store_range (s5_client_addr junk) 0 addr = Inr client"
    using addr by (simp add: store_range_def)
  obtain s' where s': "selector_register False zero_item s (int c) (Some H_socks5) OP_READ (Some (Socks_at ?a)) =
        Inr (SELECTOR_SUCCESS, s')" "selector_ok s'" "fd_size s' = fd_size s"
      "registered s' = (registered s)(c \<mapsto> (OP_READ, Some H_socks5, Some (Socks_at ?a)))"
    using selector_register_ok [OF s(1,3,4,2)] by blast
  let ?o = "junk\<lparr>s5_stm_current := None, s5_write_buffer := buffer_init (n + 1) ra,
    s5_read_buffer := buffer_init (n + 1) rb, s5_client_fd := int c, s5_final_server_fd := -1,
    s5_client_addr := client, s5_client_addr_len := length addr, s5_toFree := 0,
    s5_server_resolution := [], s5_current_server_resolution := [], s5_status := status_connecting\<rparr>"
  have key: "\<lparr>k_fd = int c, k_data = Some (Socks_at ?a)\<rparr> = conn_key ?a c"
    by (simp add: conn_key_def)
  have run: "socks5_passive_accept key (s, w) = Inr (s', put_socks ?a ?o
      (w\<lparr>w_next := ?a + 1, w_metrics := add_connecting_clients (w_metrics w), w_answers := xs\<rparr>))"
    using ans conns client n s'(1)
    by (simp add: socks5_passive_accept_def socks5_new_def next_answer_def Let_def key accepted_init size
        sys_bytes_def selector_fd_set_nio_def get_socks_def)
  have "watch s ?a c OP_READ s'"
    using s' s by (simp add: watch_def watched_def)
  then show ?thesis
    by (rule that [OF run]) (use n in \<open>simp_all add: phase_def buffer_init_def buffer_dims pending_def\<close>)
qed

section \<open>The parts of a session\<close>

text \<open>What a part of a session leaves: the object \<open>o1\<close>, \<open>es\<close> as the new events, \<open>xs\<close> as the answers
  that are left; and a selector in which only the entry of \<open>c\<close> may have changed.\<close>

definition went :: "nat \<Rightarrow> world \<Rightarrow> event list \<Rightarrow> answer list \<Rightarrow> socks5 \<Rightarrow> world \<Rightarrow> bool" where
  "went a w es xs o1 w' \<longleftrightarrow> w_socks w' a = Some o1 \<and> w_config w' = w_config w \<and> w_answers w' = xs \<and>
     w_events w' = w_events w @ es"

definition same_but :: "nat \<Rightarrow> sel \<Rightarrow> sel \<Rightarrow> bool" where
  "same_but c s s' \<longleftrightarrow> fd_size s' = fd_size s \<and> (registered s')(c := None) = (registered s)(c := None)"

lemma watch_same_but: "watch s a c i s' \<Longrightarrow> watched s' a c \<and> same_but c s s'"
  by (simp add: watch_def same_but_def)

lemma same_but_trans: "same_but c s s1 \<Longrightarrow> same_but c s1 s2 \<Longrightarrow> same_but c s s2"
  by (simp add: same_but_def)

lemma went_trans: "went a w es xs o1 w1 \<Longrightarrow> went a w1 fs ys o2 w2 \<Longrightarrow> went a w (es @ fs) ys o2 w2"
  by (simp add: went_def)

definition greeting_answers :: "u8 list \<Rightarrow> answer list" where
  "greeting_answers ms = [RecvBytes (0x05 # of_nat (length ms) # ms), SentBytes 2]"

definition session_steps :: "nat \<Rightarrow> nat \<Rightarrow> (readiness \<times> key) list" where
  "session_steps a c = [(Readable, conn_key a c), (Writable, conn_key a c)]"

lemma greeting_part:
  assumes o5: "w_socks w a = Some o5" "phase HELLO_READ [] (o5\<lparr>s5_stm_current := Some HELLO_READ\<rparr>)"
      "s5_stm_current o5 = None"
    and s: "watched s a c" and ms: "needed_method (w_config w) \<in> set ms" "length ms < 256"
      "length ms + 2 \<le> capacity (s5_read_buffer o5)"
    and wb: "2 \<le> capacity (s5_write_buffer o5)" and ans: "w_answers w = greeting_answers ms @ xs"
  obtains s' w' o1 where "ready_all (session_steps a c) (s, w) = Inr (s', w')"
    "went a w [SentTo (int c) [0x05, needed_method (w_config w)]] xs o1 w'"
    "watched s' a c" "same_but c s s'" "frame o1 = frame o5" "phase (fst (after_greeting (w_config w))) [] o1"
    "s5_client_data o1 = snd (after_greeting (w_config w))"
    "s5_final_server_fd o1 = s5_final_server_fd o5" "s5_user o1 = s5_user o5"
proof -
  have m: "chosen (w_config w) ms = needed_method (w_config w)"
    using ms(1) by (simp add: chosen_iff needed_method_def)
  have ans1: "w_answers w = RecvBytes (0x05 # of_nat (length ms) # ms) # SentBytes 2 # xs"
    using ans by (simp add: greeting_answers_def)
  let ?w = "w\<lparr>w_answers := SentBytes 2 # xs\<rparr>"
  obtain s1 o1 d where r1: "ready Readable (conn_key a c) (s, w) = Inr (s1, put_socks a o1 ?w)"
    "watch s a c OP_WRITE s1" "frame o1 = frame o5" "phase HELLO_WRITE [0x05, chosen (w_config w) ms] o1"
    "s5_client_data o1 = CD_hello d" "hd_wb d = Write_buffer" "hp_data (hd_parser d) = chosen (w_config w) ms"
    "s5_final_server_fd o1 = s5_final_server_fd o5" "s5_user o1 = s5_user o5"
    by (rule greeting_read [OF o5 s ms(2,3) wb ans1])
  let ?w1 = "put_socks a o1 ?w"
  have s1: "watched s1 a c" "same_but c s s1"
    using watch_same_but [OF r1(2)] by simp_all
  have pre: "w_socks ?w1 a = Some o1" "phase HELLO_WRITE [0x05, needed_method (w_config ?w1)] o1"
    "hp_data (hd_parser d) = needed_method (w_config ?w1)" "w_answers ?w1 = SentBytes 2 # xs"
    using r1(4,7) m by simp_all
  obtain s2 o2 where r2: "ready Writable (conn_key a c) (s1, ?w1) = Inr (s2, put_socks a o2
        (emit (SentTo (int c) [0x05, needed_method (w_config ?w1)]) (?w1\<lparr>w_answers := xs\<rparr>)))"
    "watch s1 a c OP_READ s2" "frame o2 = frame o1" "phase (fst (after_greeting (w_config ?w1))) [] o2"
    "s5_client_data o2 = snd (after_greeting (w_config ?w1))"
    "s5_final_server_fd o2 = s5_final_server_fd o1" "s5_user o2 = s5_user o1"
    by (rule greeting_write [OF pre(1,2) r1(5,6) pre(3) s1(1) pre(4)])
  let ?w2 = "put_socks a o2 (emit (SentTo (int c) [0x05, needed_method (w_config w)]) (w\<lparr>w_answers := xs\<rparr>))"
  have run: "ready_all (session_steps a c) (s, w) = Inr (s2, ?w2)"
    using r1(1) r2(1) by (simp add: session_steps_def)
  show ?thesis
    by (rule that [of s2 ?w2 o2, OF run]) (use r1 r2 watch_same_but [OF r2(2)] same_but_trans [OF s1(2)] in
      \<open>simp_all add: went_def\<close>)
qed

text \<open>The login of a client with an account; nothing while authentication is off.\<close>

definition login_answers_for :: "config \<Rightarrow> u8 list \<Rightarrow> u8 list \<Rightarrow> answer list" where
  "login_answers_for c u v = (if is_auth_enabled c then [RecvBytes (auth_message u v), SentBytes 2] else [])"

definition login_steps :: "config \<Rightarrow> nat \<Rightarrow> nat \<Rightarrow> (readiness \<times> key) list" where
  "login_steps conf a c = (if is_auth_enabled conf then session_steps a c else [])"

text \<open>The arrays of the parser hold the name and the password that were checked.\<close>

definition login_events :: "config \<Rightarrow> nat \<Rightarrow> nat \<Rightarrow> u8 list \<Rightarrow> u8 list \<Rightarrow> event list \<Rightarrow> bool" where
  "login_events conf a c u v es \<longleftrightarrow> (if is_auth_enabled conf then
     \<exists>x y. es = [Checked a x y True, SentTo (int c) [0x01, AUTH_SUCCESS]] \<and> holds_str x u \<and> holds_str y v
   else es = [])"

definition credentials :: "u8 list \<Rightarrow> u8 list \<Rightarrow> bool" where
  "credentials u v \<longleftrightarrow> 0 < length u \<and> length u < 255 \<and> 0 \<notin> set u \<and>
     0 < length v \<and> length v < 255 \<and> 0 \<notin> set v"

lemma login_part_auth:
  assumes o5: "w_socks w a = Some o5" "phase AUTH_READ [] o5" "s5_client_data o5 = CD_auth auth_start"
      "length u \<le> length (s5_user o5)"
    and s: "watched s a c" and conf: "config_ok (w_config w)" "is_auth_enabled (w_config w)"
    and u: "credentials u v" "(u, v) \<in> set (accounts (w_config w))"
    and fit: "length (auth_message u v) \<le> capacity (s5_read_buffer o5)" "2 \<le> capacity (s5_write_buffer o5)"
    and ans: "w_answers w = login_answers_for (w_config w) u v @ xs"
  obtains s' w' o1 es where "ready_all (login_steps (w_config w) a c) (s, w) = Inr (s', w')"
    "went a w es xs o1 w'" "login_events (w_config w) a c u v es" "watched s' a c" "same_but c s s'"
    "frame o1 = frame o5" "phase REQUEST_READ [] o1" "s5_client_data o1 = CD_request request_start"
    "s5_final_server_fd o1 = s5_final_server_fd o5" "s5_user o1 = u @ drop (length u) (s5_user o5)"
proof -
  have lens: "0 < length u" "length u < 255" "0 \<notin> set u" "0 < length v" "length v < 255" "0 \<notin> set v"
    using u(1) by (auto simp: credentials_def)
  have ans1: "w_answers w = RecvBytes (auth_message u v) # SentBytes 2 # xs"
    using ans conf(2) by (simp add: login_answers_for_def)
  have good: "((u, v) \<in> set (accounts (w_config w))) = True" "(if True then AUTH_SUCCESS else AUTH_FAIL) = AUTH_SUCCESS"
    using u(2) by simp_all
  obtain s1 o1 x y data where r1: "ready Readable (conn_key a c) (s, w) = Inr (s1,
      put_socks a o1 (emit (Checked a x y True) (w\<lparr>w_answers := SentBytes 2 # xs\<rparr>)))"
    "watch s a c OP_WRITE s1" "frame o1 = frame o5" "phase AUTH_WRITE [0x01, AUTH_SUCCESS] o1"
    "s5_client_data o1 = CD_auth data" "ad_wb data = Write_buffer" "ad_status data = Some AUTH_SUCCESS"
    "s5_user o1 = u @ drop (length u) (s5_user o5)" "s5_final_server_fd o1 = s5_final_server_fd o5"
    "s5_status o1 = s5_status o5" "holds_str x u" "holds_str y v"
    by (rule login_read_step [OF o5 s conf(1) lens fit ans1, unfolded good])
  let ?w1 = "put_socks a o1 (emit (Checked a x y True) (w\<lparr>w_answers := SentBytes 2 # xs\<rparr>))"
  have s1: "watched s1 a c" "same_but c s s1"
    using watch_same_but [OF r1(2)] by simp_all
  have pre: "w_socks ?w1 a = Some o1" "w_answers ?w1 = SentBytes 2 # xs"
    by simp_all
  obtain s2 o2 where r2: "ready Writable (conn_key a c) (s1, ?w1) =
      Inr (s2, put_socks a o2 (emit (SentTo (int c) [0x01, AUTH_SUCCESS]) (?w1\<lparr>w_answers := xs\<rparr>)))"
    "watch s1 a c OP_READ s2" "frame o2 = frame o1" "phase REQUEST_READ [] o2"
    "s5_client_data o2 = CD_request request_start"
    "s5_final_server_fd o2 = s5_final_server_fd o1" "s5_user o2 = s5_user o1"
    by (rule login_write_step [OF pre(1) r1(4-7) s1(1) pre(2)])
  let ?w2 = "put_socks a o2 (emit (SentTo (int c) [0x01, AUTH_SUCCESS]) (?w1\<lparr>w_answers := xs\<rparr>))"
  have run: "ready_all (login_steps (w_config w) a c) (s, w) = Inr (s2, ?w2)"
    using r1(1) r2(1) conf(2) by (simp add: login_steps_def session_steps_def)
  have went: "went a w [Checked a x y True, SentTo (int c) [0x01, AUTH_SUCCESS]] xs o2 ?w2"
    by (simp add: went_def)
  show ?thesis
    by (rule that [OF run went]) (use r1 r2 conf(2) watch_same_but [OF r2(2)] same_but_trans [OF s1(2)] in
      \<open>auto simp: login_events_def\<close>)
qed

lemma login_part:
  assumes o5: "w_socks w a = Some o5" "phase (fst (after_greeting (w_config w))) [] o5"
      "s5_client_data o5 = snd (after_greeting (w_config w))"
    and s: "watched s a c" and conf: "config_ok (w_config w)"
    and u: "is_auth_enabled (w_config w) \<Longrightarrow> credentials u v \<and> (u, v) \<in> set (accounts (w_config w)) \<and>
        length (auth_message u v) \<le> capacity (s5_read_buffer o5) \<and> 0 \<in> set (drop (length u) (s5_user o5))"
    and wb: "2 \<le> capacity (s5_write_buffer o5)"
    and ans: "w_answers w = login_answers_for (w_config w) u v @ xs"
  obtains s' w' o1 es where "ready_all (login_steps (w_config w) a c) (s, w) = Inr (s', w')"
    "went a w es xs o1 w'" "login_events (w_config w) a c u v es" "watched s' a c" "same_but c s s'"
    "frame o1 = frame o5" "phase REQUEST_READ [] o1" "s5_client_data o1 = CD_request request_start"
    "s5_final_server_fd o1 = s5_final_server_fd o5" "loggable (w_config w) o1"
proof (cases "is_auth_enabled (w_config w)")
  case True
  note u = u [OF True]
  have "length u \<le> length (s5_user o5)"
    using u by (cases "length u \<le> length (s5_user o5)") simp_all
  moreover have "phase AUTH_READ [] o5" "s5_client_data o5 = CD_auth auth_start"
    using o5(2,3) True by (simp_all add: after_greeting_def)
  ultimately obtain s' w' o1 es where r: "ready_all (login_steps (w_config w) a c) (s, w) = Inr (s', w')"
    "went a w es xs o1 w'" "login_events (w_config w) a c u v es" "watched s' a c" "same_but c s s'"
    "frame o1 = frame o5" "phase REQUEST_READ [] o1" "s5_client_data o1 = CD_request request_start"
    "s5_final_server_fd o1 = s5_final_server_fd o5" "s5_user o1 = u @ drop (length u) (s5_user o5)"
    using login_part_auth [OF o5(1) _ _ _ s conf True _ _ _ wb ans] u by metis
  moreover have "loggable (w_config w) o1"
    using r(10) u by (simp add: loggable_def)
  ultimately show ?thesis
    by (intro that [of s' w' es o1])
next
  case False
  with o5 ans s show ?thesis
    by (intro that [of s w "[]" o5])
      (auto simp: login_steps_def login_answers_for_def went_def login_events_def same_but_def loggable_def
        after_greeting_def)
qed

text \<open>The request: the destination takes a while to connect, and then accepts.\<close>

definition request_answers :: "nat \<Rightarrow> u8 \<Rightarrow> destination \<Rightarrow> u8 list \<Rightarrow> answer list" where
  "request_answers f rsv d port = [RecvBytes (request_message 1 rsv d port), NewSocket (int f), NioSet True,
     ConnectFails EINPROGRESS, SockError 0, SentBytes (length (request_message 0 0 d port))]"

definition request_steps :: "nat \<Rightarrow> nat \<Rightarrow> nat \<Rightarrow> (readiness \<times> key) list" where
  "request_steps a c f = [(Readable, conn_key a c), (Writable, conn_key a f), (Writable, conn_key a c)]"

definition request_events :: "nat \<Rightarrow> nat \<Rightarrow> nat \<Rightarrow> destination \<Rightarrow> u8 list \<Rightarrow> event list" where
  "request_events a c f d port = [Connecting (int f) (sockaddr port d), Logged a status_succeeded,
     SentTo (int c) (request_message 0 0 d port)]"

lemma connecting_tableD:
  assumes "connecting_table s a c f s' i j"
  shows "watched s' a c" "watched s' a f" "c \<noteq> f" "fd_size s' = fd_size s"
    "registered s' = (registered s)(c \<mapsto> (i, Some H_socks5, Some (Socks_at a)),
       f \<mapsto> (j, Some H_socks5, Some (Socks_at a)))"
  using assms by (simp_all add: connecting_table_def)

lemma request_part:
  assumes o5: "w_socks w a = Some o5" "phase REQUEST_READ [] o5" "s5_client_data o5 = CD_request request_start"
      "s5_final_server_fd o5 = -1" "s5_client_fd o5 = int c" "28 \<le> length (s5_final_server_addr o5)"
      "loggable (w_config w) o5"
    and s: "watched s a c" "registered s f = None" "f < fd_size s" "f < ITEMS_MAX_SIZE"
    and d: "is_address d" "length port = 2" "length (request_message 1 rsv d port) \<le> capacity (s5_read_buffer o5)"
      "length (request_message 0 0 d port) \<le> capacity (s5_write_buffer o5)"
    and ans: "w_answers w = request_answers f rsv d port @ xs"
  obtains s' w' o1 where "ready_all (request_steps a c f) (s, w) = Inr (s', w')"
    "went a w (request_events a c f d port) xs o1 w'" "copying o1" "to_server o1 = []" "to_client o1 = []"
    "s5_stm_current o1 = Some COPY" "registered s' = (registered s)(c \<mapsto> (OP_READ, Some H_socks5, Some (Socks_at a)),
       f \<mapsto> (OP_READ, Some H_socks5, Some (Socks_at a)))"
proof -
  let ?xs2 = "SentBytes (length (request_message 0 0 d port)) # xs" and ?m = "request_message 0 0 d port"
  have ans1: "w_answers w = RecvBytes (request_message 1 rsv d port) # NewSocket (int f) # NioSet True #
      ConnectFails EINPROGRESS # SockError 0 # ?xs2"
    using ans by (simp add: request_answers_def)
  obtain s1 o1 where r1: "ready Readable (conn_key a c) (s, w) = Inr (s1,
      put_socks a o1 (emit (Connecting (int f) (sockaddr port d)) (w\<lparr>w_answers := SockError 0 # ?xs2\<rparr>)))"
    "connecting_table s a c f s1 OP_NOOP OP_WRITE" "frame o1 = frame o5" "phase REQUEST_CONNECTING [] o1"
    "s5_client_data o1 = CD_request (request_held d port)" "s5_server_data o1 = SD_connect \<lparr>cn_wb = Write_buffer\<rparr>"
    "s5_final_server_fd o1 = int f" "s5_user o1 = s5_user o5"
    by (rule request_step [OF o5(1-6) s d(1-3) ans1])
  let ?w1 = "put_socks a o1 (emit (Connecting (int f) (sockaddr port d)) (w\<lparr>w_answers := SockError 0 # ?xs2\<rparr>))"
  note t1 = connecting_tableD [OF r1(2)]
  have p1: "w_socks ?w1 a = Some o1" "s5_client_fd o1 = int c" "loggable (w_config ?w1) o1"
    "length ?m \<le> capacity (s5_write_buffer o1)" "w_answers ?w1 = SockError 0 # ?xs2"
    using r1(3,8) o5(5,7) d(4) shape_eqD(3) [of "s5_write_buffer o1" "s5_write_buffer o5"]
    by (simp_all add: frame_def loggable_def)
  obtain s2 o2 where r2: "ready Writable (conn_key a f) (s1, ?w1) = Inr (s2, put_socks a o2
      (emit (Logged a status_succeeded) (?w1\<lparr>w_answers := ?xs2, w_metrics := add_connection (w_metrics ?w1)\<rparr>)))"
    "connecting_table s1 a c f s2 OP_WRITE OP_NOOP" "s5_client_fd o2 = s5_client_fd o1" "phase REQUEST_WRITE ?m o2"
    "s5_client_data o2 = s5_client_data o1" "s5_final_server_fd o2 = int f" "s5_status o2 = status_succeeded"
    by (rule connected_step [OF p1(1) r1(4-7) p1(2,3) t1(1-3) d(1,2) p1(4,5)])
  let ?w2 = "put_socks a o2
    (emit (Logged a status_succeeded) (?w1\<lparr>w_answers := ?xs2, w_metrics := add_connection (w_metrics ?w1)\<rparr>))"
  note t2 = connecting_tableD [OF r2(2)]
  have p2: "w_socks ?w2 a = Some o2" "s5_client_data o2 = CD_request (request_held d port)" "s5_client_fd o2 = int c"
    "w_answers ?w2 = SentBytes (length ?m) # xs"
    using r2(3,5) r1(5) p1(2) by simp_all
  obtain s3 o3 where r3: "ready Writable (conn_key a c) (s2, ?w2) =
      Inr (s3, put_socks a o3 (emit (SentTo (int c) ?m) (?w2\<lparr>w_answers := xs\<rparr>)))"
    "connecting_table s2 a c f s3 OP_READ OP_READ" "copying o3" "to_server o3 = []" "to_client o3 = []"
    "s5_stm_current o3 = Some COPY"
    by (rule reply_step [OF p2(1) r2(4) p2(2) r2(6) p2(3) r2(7) t2(1-3) p2(4)])
  let ?w3 = "put_socks a o3 (emit (SentTo (int c) ?m) (?w2\<lparr>w_answers := xs\<rparr>))"
  have run: "ready_all (request_steps a c f) (s, w) = Inr (s3, ?w3)"
    using r1(1) r2(1) r3(1) by (simp only: request_steps_def ready_all.simps bind_res.simps)
  have went: "went a w (request_events a c f d port) xs o3 ?w3"
    by (simp add: went_def request_events_def)
  have "registered s3 = (registered s)(c \<mapsto> (OP_READ, Some H_socks5, Some (Socks_at a)),
      f \<mapsto> (OP_READ, Some H_socks5, Some (Socks_at a)))"
    using connecting_tableD(5) [OF r3(2)] t2(5) t1(3,5) by (auto simp: fun_upd_twist)
  from that [OF run went r3(3-6) this] show ?thesis .
qed

section \<open>The way to a request\<close>

definition accept_answers :: "nat \<Rightarrow> u8 list \<Rightarrow> socks5 \<Rightarrow> u8 list \<Rightarrow> u8 list \<Rightarrow> answer list" where
  "accept_answers c addr junk ra rb = [Accepted (int c) addr, NewSocks junk, Bytes ra, Bytes rb, NioSet True]"

text \<open>Two free descriptors of the table, and what \<open>accept\<close> needs to go well: room for a connection, an
  address that fits, two arrays of the configured size.\<close>

definition free_pair :: "sel \<Rightarrow> nat \<Rightarrow> nat \<Rightarrow> bool" where
  "free_pair s c f \<longleftrightarrow> selector_ok s \<and> c \<noteq> f \<and> registered s c = None \<and> registered s f = None \<and>
     c < fd_size s \<and> f < fd_size s \<and> c < ITEMS_MAX_SIZE \<and> f < ITEMS_MAX_SIZE"

definition acceptable :: "world \<Rightarrow> u8 list \<Rightarrow> socks5 \<Rightarrow> u8 list \<Rightarrow> u8 list \<Rightarrow> nat \<Rightarrow> bool" where
  "acceptable w addr junk ra rb n \<longleftrightarrow> sint (get_current_conn (w_metrics w)) < MAX_CONNECTIONS \<and>
     length addr \<le> length (s5_client_addr junk) \<and> 28 \<le> length (s5_final_server_addr junk) \<and>
     unat (get_socks_buffer_size (w_config w)) = n \<and> n + 1 < 2 ^ 32 \<and> length ra = n \<and> length rb = n \<and> 22 \<le> n"

lemma frameD:
  assumes "frame o1 = frame o5"
  shows "s5_client_fd o1 = s5_client_fd o5" "capacity (s5_read_buffer o1) = capacity (s5_read_buffer o5)"
    "capacity (s5_write_buffer o1) = capacity (s5_write_buffer o5)"
    "length (s5_final_server_addr o1) = length (s5_final_server_addr o5)" "s5_status o1 = s5_status o5"
  using assms shape_eqD(3) [of "s5_read_buffer o1" "s5_read_buffer o5"]
    shape_eqD(3) [of "s5_write_buffer o1" "s5_write_buffer o5"] by (simp_all add: frame_def)

lemma address_message_length:
  "is_address d \<Longrightarrow> length port = 2 \<Longrightarrow> length (request_message c rsv d port) \<le> 22"
  by (cases d) (auto simp: request_message_def)

text \<open>Accepted and greeted.\<close>

lemma reaches_greeted:
  assumes ans: "w_answers w = accept_answers c addr junk ra rb @ greeting_answers ms @ xs"
    and fds: "free_pair s c f" and acc: "acceptable w addr junk ra rb n"
    and ms: "needed_method (w_config w) \<in> set ms" "length ms < 256" "length ms + 2 \<le> n"
  obtains s' w' o1 where "bind_res (socks5_passive_accept key (s, w)) (ready_all (session_steps (w_next w) c)) = Inr (s', w')"
    "went (w_next w) w [SentTo (int c) [0x05, needed_method (w_config w)]] xs o1 w'"
    "watched s' (w_next w) c" "same_but c s s'" "phase (fst (after_greeting (w_config w))) [] o1"
    "s5_client_data o1 = snd (after_greeting (w_config w))" "s5_final_server_fd o1 = -1"
    "s5_client_fd o1 = int c" "28 \<le> length (s5_final_server_addr o1)" "capacity (s5_read_buffer o1) = n"
    "capacity (s5_write_buffer o1) = n" "s5_user o1 = s5_user junk" "s5_status o1 = status_connecting"
proof -
  let ?a = "w_next w" and ?c = "w_config w"
  have fd: "selector_ok s" "registered s c = None" "c < fd_size s" "c < ITEMS_MAX_SIZE"
    using fds by (auto simp: free_pair_def)
  have n: "sint (get_current_conn (w_metrics w)) < MAX_CONNECTIONS" "length addr \<le> length (s5_client_addr junk)"
      "unat (get_socks_buffer_size ?c) = n" "n + 1 < 2 ^ 32" "length ra = n" "length rb = n" "22 \<le> n"
      "28 \<le> length (s5_final_server_addr junk)"
    using acc by (auto simp: acceptable_def)
  have ans0: "w_answers w = Accepted (int c) addr # NewSocks junk # Bytes ra # Bytes rb # NioSet True #
      (greeting_answers ms @ xs)"
    using ans by (simp add: accept_answers_def)
  let ?w0 = "w\<lparr>w_next := ?a + 1, w_metrics := add_connecting_clients (w_metrics w),
    w_answers := greeting_answers ms @ xs\<rparr>"
  obtain s0 o0 where r0: "socks5_passive_accept key (s, w) = Inr (s0, put_socks ?a o0 ?w0)"
    "watch s ?a c OP_READ s0" "phase HELLO_READ [] (o0\<lparr>s5_stm_current := Some HELLO_READ\<rparr>)"
    "s5_stm_current o0 = None" "s5_client_fd o0 = int c" "s5_final_server_fd o0 = -1"
    "s5_final_server_addr o0 = s5_final_server_addr junk" "s5_user o0 = s5_user junk"
    "s5_status o0 = status_connecting"
    "capacity (s5_read_buffer o0) = n" "capacity (s5_write_buffer o0) = n"
    by (rule accept_step [OF ans0 fd n(1-6)])
  let ?w1 = "put_socks ?a o0 ?w0"
  have s0: "watched s0 ?a c" "same_but c s s0"
    using watch_same_but [OF r0(2)] by simp_all
  have pre: "w_socks ?w1 ?a = Some o0" "needed_method (w_config ?w1) \<in> set ms" "2 \<le> capacity (s5_write_buffer o0)"
    "length ms + 2 \<le> capacity (s5_read_buffer o0)" "w_answers ?w1 = greeting_answers ms @ xs"
    using ms r0(10,11) n(7) by simp_all
  obtain s1 w1 o1 where r1: "ready_all (session_steps ?a c) (s0, ?w1) = Inr (s1, w1)"
    "went ?a ?w1 [SentTo (int c) [0x05, needed_method (w_config ?w1)]] xs o1 w1" "watched s1 ?a c" "same_but c s0 s1"
    "frame o1 = frame o0" "phase (fst (after_greeting (w_config ?w1))) [] o1"
    "s5_client_data o1 = snd (after_greeting (w_config ?w1))"
    "s5_final_server_fd o1 = s5_final_server_fd o0" "s5_user o1 = s5_user o0"
    by (rule greeting_part [OF pre(1) r0(3,4) s0(1) pre(2) ms(2) pre(4,3,5)])
  have run: "bind_res (socks5_passive_accept key (s, w)) (ready_all (session_steps ?a c)) = Inr (s1, w1)"
    using r0(1) r1(1) by simp
  have went: "went ?a w [SentTo (int c) [0x05, needed_method ?c]] xs o1 w1"
    using r1(2) by (simp add: went_def)
  show ?thesis
    by (rule that [OF run went r1(3)])
      (use s0(2) r1(4-9) r0(5-11) frameD [OF r1(5)] n(8) same_but_trans in \<open>auto simp del: fun_upd_apply\<close>)
qed

text \<open>And logged in, where that is required: the connection waits for a request.\<close>

lemma reaches_request:
  assumes ans: "w_answers w = accept_answers c addr junk ra rb @ greeting_answers ms @
      login_answers_for (w_config w) u v @ xs"
    and fds: "free_pair s c f" and acc: "acceptable w addr junk ra rb n" and conf: "config_ok (w_config w)"
    and ms: "needed_method (w_config w) \<in> set ms" "length ms < 256" "length ms + 2 \<le> n"
    and u: "is_auth_enabled (w_config w) \<Longrightarrow> credentials u v \<and> (u, v) \<in> set (accounts (w_config w)) \<and>
        length (auth_message u v) \<le> n \<and> 0 \<in> set (drop (length u) (s5_user junk))"
  obtains s' w' o1 es where "bind_res (socks5_passive_accept key (s, w)) (ready_all (session_steps (w_next w) c @
        login_steps (w_config w) (w_next w) c)) = Inr (s', w')"
    "went (w_next w) w ([SentTo (int c) [0x05, needed_method (w_config w)]] @ es) xs o1 w'"
    "login_events (w_config w) (w_next w) c u v es" "watched s' (w_next w) c" "same_but c s s'"
    "phase REQUEST_READ [] o1" "s5_client_data o1 = CD_request request_start" "s5_final_server_fd o1 = -1"
    "s5_client_fd o1 = int c" "28 \<le> length (s5_final_server_addr o1)" "capacity (s5_read_buffer o1) = n"
    "capacity (s5_write_buffer o1) = n" "loggable (w_config w) o1"
proof -
  let ?a = "w_next w" and ?c = "w_config w"
  obtain s1 w1 o1 where r1: "bind_res (socks5_passive_accept key (s, w)) (ready_all (session_steps ?a c)) = Inr (s1, w1)"
    "went ?a w [SentTo (int c) [0x05, needed_method ?c]] (login_answers_for ?c u v @ xs) o1 w1"
    "watched s1 ?a c" "same_but c s s1" "phase (fst (after_greeting ?c)) [] o1"
    "s5_client_data o1 = snd (after_greeting ?c)" "s5_final_server_fd o1 = -1"
    "s5_client_fd o1 = int c" "28 \<le> length (s5_final_server_addr o1)" "capacity (s5_read_buffer o1) = n"
    "capacity (s5_write_buffer o1) = n" "s5_user o1 = s5_user junk" "s5_status o1 = status_connecting"
    by (rule reaches_greeted [OF ans fds acc ms])
  have w1: "w_socks w1 ?a = Some o1" "w_config w1 = ?c" "w_answers w1 = login_answers_for (w_config w1) u v @ xs"
    "w_events w1 = w_events w @ [SentTo (int c) [0x05, needed_method ?c]]"
    using r1(2) by (simp_all add: went_def)
  have pre1: "phase (fst (after_greeting (w_config w1))) [] o1" "s5_client_data o1 = snd (after_greeting (w_config w1))"
    "config_ok (w_config w1)" "2 \<le> capacity (s5_write_buffer o1)"
    using r1(5,6,11) w1(2) conf acc by (simp_all add: acceptable_def)
  have pre2: "is_auth_enabled (w_config w1) \<Longrightarrow> credentials u v \<and> (u, v) \<in> set (accounts (w_config w1)) \<and>
      length (auth_message u v) \<le> capacity (s5_read_buffer o1) \<and> 0 \<in> set (drop (length u) (s5_user o1))"
    using u w1(2) r1(10,12) by simp
  obtain s2 w2 o2 es where r2: "ready_all (login_steps (w_config w1) ?a c) (s1, w1) = Inr (s2, w2)"
    "went ?a w1 es xs o2 w2" "login_events (w_config w1) ?a c u v es" "watched s2 ?a c" "same_but c s1 s2"
    "frame o2 = frame o1" "phase REQUEST_READ [] o2" "s5_client_data o2 = CD_request request_start"
    "s5_final_server_fd o2 = s5_final_server_fd o1" "loggable (w_config w1) o2"
    by (rule login_part [OF w1(1) pre1(1,2) r1(3) pre1(3) pre2 pre1(4) w1(3)])
  have run: "bind_res (socks5_passive_accept key (s, w)) (ready_all (session_steps ?a c @ login_steps ?c ?a c)) =
      Inr (s2, w2)"
    using r1(1) r2(1) w1(2) by (cases "socks5_passive_accept key (s, w)") (simp_all add: ready_all_append)
  have went: "went ?a w ([SentTo (int c) [0x05, needed_method ?c]] @ es) xs o2 w2"
    using r2(2) w1 by (simp add: went_def)
  have "same_but c s s2"
    using r1(4) r2(5) by (rule same_but_trans)
  then show ?thesis
    using r2(3,4,7-10) w1(2) r1(7-11) frameD [OF r2(6)] by (intro that [OF run went]) simp_all
qed

text \<open>The end of a connection that has no descriptor but the client's.\<close>

lemma done_turned_away:
  assumes o5: "w_socks w a = Some o5" "s5_client_fd o5 = int c" "s5_final_server_fd o5 = -1"
      "s5_status o5 \<noteq> status_close" "loggable (w_config w) o5"
    and s: "watched s a c"
  obtains s' w' where "socks5_done (conn_key a c) (s, w) = Inr (s', w')" "selector_ok s'"
    "registered s' = (registered s)(c := None)" "w_socks w' = (w_socks w)(a := None)"
    "w_events w' = w_events w @ [Logged a (s5_status o5), Closed_fd (int c), Closed_fd (-1)]"
    "w_answers w' = w_answers w"
proof -
  obtain i where i: "selector_ok s" "c < ITEMS_MAX_SIZE" "registered s c = Some (i, Some H_socks5, Some (Socks_at a))"
    using s by (auto simp: watched_def)
  let ?w1 = "(emit (Logged a (s5_status o5)) w)\<lparr>w_metrics := end_connecting_clients (w_metrics w)\<rparr>"
  let ?w2 = "?w1\<lparr>w_socks := (w_socks w)(a := None)\<rparr>"
  have close: "(case close_handler H_socks5 of None \<Rightarrow> Inr (s, ?w1)
      | Some f \<Rightarrow> f \<lparr>k_fd = int c, k_data = Some (Socks_at a)\<rparr> (s, ?w1)) = Inr (s, ?w2)"
    using o5(1,3) by (simp add: socks5_close_def socks5_free_def ATTACHMENT_def get_socks_def)
  have "registered s c \<noteq> None"
    using i(3) by simp
  then obtain s' where s': "selector_unregister_fd close_handler (int c) (s, ?w1) = Inr (SELECTOR_SUCCESS, s', ?w2)"
      "selector_ok s'" "registered s' = (registered s)(c := None)"
    using selector_unregister_ok [where close = close_handler and w = ?w1 and ?s1.0 = s and ?w1.0 = ?w2,
        OF i(3,2) close i(1,1) refl] by blast
  have log: "log_conn a (s5_status o5) w = Inr (emit (Logged a (s5_status o5)) w)"
    by (rule log_conn_loggable [OF o5(1,5)])
  have "socks5_done (conn_key a c) (s, w) = Inr (s', emit (Closed_fd (-1)) (emit (Closed_fd (int c)) ?w2))"
    using o5 s'(1) log by (simp add: socks5_done_def get_socks_def Let_def emit_def)
  then show ?thesis
    by (rule that) (use s' in \<open>simp_all add: emit_def\<close>)
qed

lemma refused_write_step:
  assumes o5: "w_socks w a = Some o5" "phase AUTH_WRITE [0x01, AUTH_FAIL] o5" "s5_client_data o5 = CD_auth data"
      "ad_wb data = Write_buffer" "ad_status data = Some AUTH_FAIL" "s5_client_fd o5 = int c"
      "s5_final_server_fd o5 = -1" "s5_status o5 \<noteq> status_close" "loggable (w_config w) o5"
    and s: "watched s a c" and ans: "w_answers w = SentBytes 2 # xs"
  obtains s' w' where "ready Writable (conn_key a c) (s, w) = Inr (s', w')" "selector_ok s'"
    "registered s' = (registered s)(c := None)" "w_socks w' a = None" "w_answers w' = xs"
    "w_events w' = w_events w @ [SentTo (int c) [0x01, AUTH_FAIL], Logged a (s5_status o5), Closed_fd (int c), Closed_fd (-1)]"
proof -
  let ?w1 = "emit (SentTo (int c) [0x01, AUTH_FAIL]) (w\<lparr>w_answers := xs\<rparr>)"
  have "AUTH_FAIL \<noteq> AUTH_SUCCESS"
    by (simp add: AUTH_FAIL_def AUTH_SUCCESS_def)
  then obtain b where r: "auth_write (conn_key a c) (s, w) = Inr (DONE, s, put_socks a (o5\<lparr>s5_write_buffer := b\<rparr>) ?w1)"
    using auth_write_answer [OF o5(1-5) s ans] by auto
  let ?o1 = "o5\<lparr>s5_write_buffer := b\<rparr>"
  let ?o2 = "?o1\<lparr>s5_stm_current := Some DONE\<rparr>"
  have cur: "s5_stm_current o5 = Some AUTH_WRITE" "AUTH_WRITE \<le> ERROR" "DONE \<le> ERROR" "DONE \<noteq> AUTH_WRITE"
    using o5(2) by (simp_all add: phase_def)
  have "stm_jump (socks_stm (conn_key a c)) DONE (s, put_socks a ?o1 ?w1) = Inr (s, put_socks a ?o2 ?w1)"
    by (subst jump_bare [of _ a ?o1 AUTH_WRITE]) (use cur in simp_all)
  then have "deliver Writable (conn_key a c) (s, w) = Inr (DONE, s, put_socks a ?o2 ?w1)"
    using deliver_run [where on_ready = sd_on_write_ready and n = AUTH_WRITE and f = "auth_write (conn_key a c)" and c = c,
        OF o5(1) cur(1,2), of s] r
    by (simp add: stm_handler_write_def)
  then have ready: "ready Writable (conn_key a c) (s, w) = socks5_done (conn_key a c) (s, put_socks a ?o2 ?w1)"
    by (simp add: socks5_write_def socks5_ready_def)
  obtain s' w' where d: "socks5_done (conn_key a c) (s, put_socks a ?o2 ?w1) = Inr (s', w')" "selector_ok s'"
    "registered s' = (registered s)(c := None)" "w_socks w' = (w_socks (put_socks a ?o2 ?w1))(a := None)"
    "w_events w' = w_events (put_socks a ?o2 ?w1) @ [Logged a (s5_status ?o2), Closed_fd (int c), Closed_fd (-1)]"
    "w_answers w' = w_answers (put_socks a ?o2 ?w1)"
    by (rule done_turned_away [of "put_socks a ?o2 ?w1" a ?o2 c s]) (use o5(6-9) s in \<open>simp_all add: loggable_def\<close>)
  show ?thesis
    by (rule that [of s' w']) (use ready d in simp_all)
qed

lemma refused_part:
  assumes o5: "w_socks w a = Some o5" "phase AUTH_READ [] o5" "s5_client_data o5 = CD_auth auth_start"
      "s5_client_fd o5 = int c" "s5_final_server_fd o5 = -1" "s5_status o5 = status_connecting"
    and s: "watched s a c" and conf: "config_ok (w_config w)"
    and u: "credentials u v" "(u, v) \<notin> set (accounts (w_config w))" "0 \<in> set (drop (length u) (s5_user o5))"
    and fit: "length (auth_message u v) \<le> capacity (s5_read_buffer o5)" "2 \<le> capacity (s5_write_buffer o5)"
    and ans: "w_answers w = RecvBytes (auth_message u v) # SentBytes 2 # xs"
  obtains s' w' x y where "ready_all (session_steps a c) (s, w) = Inr (s', w')" "selector_ok s'"
    "registered s' = (registered s)(c := None)" "w_socks w' a = None" "w_answers w' = xs"
    "w_events w' = w_events w @ [Checked a x y False, SentTo (int c) [0x01, AUTH_FAIL], Logged a status_connecting,
       Closed_fd (int c), Closed_fd (-1)]" "holds_str x u" "holds_str y v"
proof -
  have lens: "0 < length u" "length u < 255" "0 \<notin> set u" "0 < length v" "length v < 255" "0 \<notin> set v"
    using u(1) by (auto simp: credentials_def)
  have bad: "((u, v) \<in> set (accounts (w_config w))) = False" "(if False then AUTH_SUCCESS else AUTH_FAIL) = AUTH_FAIL"
    using u(2) by simp_all
  have name: "length u \<le> length (s5_user o5)"
    using u(3) by (cases "length u \<le> length (s5_user o5)") simp_all
  obtain s1 o1 x y data where r1: "ready Readable (conn_key a c) (s, w) = Inr (s1,
      put_socks a o1 (emit (Checked a x y False) (w\<lparr>w_answers := SentBytes 2 # xs\<rparr>)))"
    "watch s a c OP_WRITE s1" "frame o1 = frame o5" "phase AUTH_WRITE [0x01, AUTH_FAIL] o1"
    "s5_client_data o1 = CD_auth data" "ad_wb data = Write_buffer" "ad_status data = Some AUTH_FAIL"
    "s5_user o1 = u @ drop (length u) (s5_user o5)" "s5_final_server_fd o1 = s5_final_server_fd o5"
    "s5_status o1 = s5_status o5" "holds_str x u" "holds_str y v"
    by (rule login_read_step [OF o5(1-3) name s conf lens fit ans, unfolded bad])
  let ?w1 = "put_socks a o1 (emit (Checked a x y False) (w\<lparr>w_answers := SentBytes 2 # xs\<rparr>))"
  have pre: "w_socks ?w1 a = Some o1" "s5_client_fd o1 = int c" "s5_final_server_fd o1 = -1"
    "s5_status o1 \<noteq> status_close" "loggable (w_config ?w1) o1" "watched s1 a c" "w_answers ?w1 = SentBytes 2 # xs"
    using frameD [OF r1(3)] o5(4-6) r1(8,9) u(3) watch_same_but [OF r1(2)] by (simp_all add: loggable_def)
  obtain s2 w2 where r2: "ready Writable (conn_key a c) (s1, ?w1) = Inr (s2, w2)" "selector_ok s2"
    "registered s2 = (registered s1)(c := None)" "w_socks w2 a = None" "w_answers w2 = xs"
    "w_events w2 = w_events ?w1 @ [SentTo (int c) [0x01, AUTH_FAIL], Logged a (s5_status o1), Closed_fd (int c), Closed_fd (-1)]"
    by (rule refused_write_step [OF pre(1) r1(4-7) pre(2-7)])
  show ?thesis
    by (rule that [of s2 w2 x y]) (use r1 r2 o5(6) watch_same_but [OF r1(2)] in
      \<open>simp_all add: session_steps_def same_but_def\<close>)
qed

section \<open>A client that went away\<close>

lemma recv_nothing:
  assumes "buffer_ok b" and "w_answers w = RecvBytes [] # xs"
  shows "recv_into b w = Inr ([], 0, b, w\<lparr>w_answers := xs\<rparr>)" "buffer_write_adv b 0 = Inr b"
  using assms by (simp_all add: recv_into_def buffer_write_ptr_ok sys_recv_def next_answer_def buffer_poke_def
      store_range_def buffer_write_adv_def Let_def buffer_dims)

lemma put_socks_same: "w_socks w a = Some o5 \<Longrightarrow> put_socks a o5 w = w"
  by (simp add: put_socks_def fun_upd_idem)

lemma request_read_nothing:
  assumes o5: "w_socks w a = Some o5" "phase REQUEST_READ [] o5" "s5_client_data o5 = CD_request d"
      "rd_rb d = Read_buffer" "\<not> request_final (rp_state (rd_parser d))"
    and ans: "w_answers w = RecvBytes [] # xs"
  shows "ready Readable (conn_key a c) (s, w) = Inr (s, w\<lparr>w_answers := xs\<rparr>)"
proof -
  have rb: "buffer_ok (s5_read_buffer o5)" "\<not> buffer_can_read (s5_read_buffer o5)"
    and cur: "s5_stm_current o5 = Some REQUEST_READ"
    using o5(2) by (auto simp: phase_def can_read_iff)
  have consume: "request_consume (s5_read_buffer o5) (rd_parser d) (Some False) =
      Inr (rp_state (rd_parser d), s5_read_buffer o5, rd_parser d, Some False)"
    using rb(2) by (simp add: request_consume_def consume_loop.simps [of _ _ _ _ "s5_read_buffer o5"])
  have undone: "request_is_done (rp_state (rd_parser d)) (Some False) = (False, Some False)"
    using o5(5) request.failed_final by (auto simp: request.done_iff)
  have "o5\<lparr>s5_client_data := CD_request d\<rparr> = o5"
    using o5(3) by (cases o5) simp
  then have same: "put_socks a (o5\<lparr>s5_client_data := CD_request d\<rparr>) (w\<lparr>w_answers := xs\<rparr>) = w\<lparr>w_answers := xs\<rparr>"
    using o5(1) put_socks_same [of "w\<lparr>w_answers := xs\<rparr>" a o5] by simp
  have "request_read (conn_key a c) (s, w) = Inr (REQUEST_READ, s, w\<lparr>w_answers := xs\<rparr>)"
    using o5(1,3,4) recv_nothing [OF rb(1) ans] consume undone same
    by (simp add: request_read_def get_socks_def Let_def)
  then have "deliver Readable (conn_key a c) (s, w) = Inr (REQUEST_READ, s, w\<lparr>w_answers := xs\<rparr>)"
    using deliver_run [where on_ready = sd_on_read_ready and n = REQUEST_READ and f = "request_read (conn_key a c)"
        and c = c, OF o5(1) cur, of s] o5(1) cur
    by (simp add: stm_handler_read_def not_less stm_jump_def socks_current_def get_socks_def)
  from ready_deliver [OF this] show ?thesis
    by simp
qed

section \<open>Properties\<close>

lemma connection_opened:
  assumes ans: "w_answers w = accept_answers c addr junk ra rb @ greeting_answers ms @
      login_answers_for (w_config w) u v @ request_answers f rsv d port @ xs"
    and fds: "free_pair s c f" and acc: "acceptable w addr junk ra rb n" and conf: "config_ok (w_config w)"
    and ms: "needed_method (w_config w) \<in> set ms" "length ms < 256" "length ms + 2 \<le> n"
    and u: "is_auth_enabled (w_config w) \<Longrightarrow> credentials u v \<and> (u, v) \<in> set (accounts (w_config w)) \<and>
        length (auth_message u v) \<le> n \<and> 0 \<in> set (drop (length u) (s5_user junk))"
    and d: "is_address d" "length port = 2"
  shows "\<exists>s' w' o5 es. bind_res (socks5_passive_accept key (s, w)) (ready_all (session_steps (w_next w) c @
        login_steps (w_config w) (w_next w) c @ request_steps (w_next w) c f)) = Inr (s', w') \<and>
    w_socks w' (w_next w) = Some o5 \<and> s5_stm_current o5 = Some COPY \<and> copying o5 \<and>
    to_server o5 = [] \<and> to_client o5 = [] \<and> login_events (w_config w) (w_next w) c u v es \<and>
    w_events w' = w_events w @ [SentTo (int c) [0x05, needed_method (w_config w)]] @ es @
      request_events (w_next w) c f d port \<and>
    registered s' = (registered s)(c \<mapsto> (OP_READ, Some H_socks5, Some (Socks_at (w_next w))),
      f \<mapsto> (OP_READ, Some H_socks5, Some (Socks_at (w_next w)))) \<and>
    w_config w' = w_config w \<and> w_answers w' = xs"
proof -
  let ?a = "w_next w" and ?c = "w_config w"
  have ans2: "w_answers w = accept_answers c addr junk ra rb @ greeting_answers ms @
      login_answers_for ?c u v @ (request_answers f rsv d port @ xs)"
    using ans by simp
  obtain s2 w2 o2 es where r: "bind_res (socks5_passive_accept key (s, w)) (ready_all (session_steps ?a c @
        login_steps ?c ?a c)) = Inr (s2, w2)"
    "went ?a w ([SentTo (int c) [0x05, needed_method ?c]] @ es) (request_answers f rsv d port @ xs) o2 w2"
    "login_events ?c ?a c u v es" "watched s2 ?a c" "same_but c s s2"
    "phase REQUEST_READ [] o2" "s5_client_data o2 = CD_request request_start" "s5_final_server_fd o2 = -1"
    "s5_client_fd o2 = int c" "28 \<le> length (s5_final_server_addr o2)" "capacity (s5_read_buffer o2) = n"
    "capacity (s5_write_buffer o2) = n" "loggable ?c o2"
    by (rule reaches_request [OF ans2 fds acc conf ms u])
  have w2: "w_socks w2 ?a = Some o2" "loggable (w_config w2) o2" "w_answers w2 = request_answers f rsv d port @ xs"
    using r(2,13) by (simp_all add: went_def)
  have others: "g \<noteq> c \<Longrightarrow> registered s2 g = registered s g" for g
    using r(5) unfolding same_but_def by (metis fun_upd_other)
  have f: "registered s2 f = None" "f < fd_size s2" "f < ITEMS_MAX_SIZE"
    using fds others [of f] r(5) by (simp_all add: free_pair_def same_but_def)
  have fit: "length (request_message 1 rsv d port) \<le> capacity (s5_read_buffer o2)"
    "length (request_message 0 0 d port) \<le> capacity (s5_write_buffer o2)"
    using address_message_length [OF d, of 1 rsv] address_message_length [OF d, of 0 0] acc r(11,12)
    by (simp_all add: acceptable_def)
  obtain s3 w3 o3 where r3: "ready_all (request_steps ?a c f) (s2, w2) = Inr (s3, w3)"
    "went ?a w2 (request_events ?a c f d port) xs o3 w3" "copying o3" "to_server o3 = []" "to_client o3 = []"
    "s5_stm_current o3 = Some COPY" "registered s3 = (registered s2)(c \<mapsto> (OP_READ, Some H_socks5, Some (Socks_at ?a)),
       f \<mapsto> (OP_READ, Some H_socks5, Some (Socks_at ?a)))"
    by (rule request_part [OF w2(1) r(6-10) w2(2) r(4) f d fit w2(3)])
  have "registered s3 = (registered s)(c \<mapsto> (OP_READ, Some H_socks5, Some (Socks_at ?a)),
      f \<mapsto> (OP_READ, Some H_socks5, Some (Socks_at ?a)))"
    unfolding r3(7) using others by (auto simp: fun_eq_iff)
  moreover have "bind_res (socks5_passive_accept key (s, w)) (ready_all (session_steps ?a c @
        login_steps ?c ?a c @ request_steps ?a c f)) = Inr (s3, w3)"
    using r(1) r3(1) ready_all_append [of "session_steps ?a c @ login_steps ?c ?a c" "request_steps ?a c f"]
    by (cases "socks5_passive_accept key (s, w)") simp_all
  ultimately show ?thesis
    using r3 r(2,3) by (intro exI [of _ s3] exI [of _ w3] exI [of _ o3] exI [of _ es])
      (simp add: went_def)
qed

text \<open>C4. A client is served: accepted, it offers the method that the configuration asks for, logs in with
  an account if authentication is on, and asks for an IPv4 or IPv6 destination that accepts. Then the
  proxy has answered the greeting and the login, called \<open>connect\<close> with exactly the address and port of
  the request, logged it, and sent the reply with status 0 and that destination; the connection is in
  COPY with nothing pending, and both descriptors are registered for reading.\<close>

theorem connection_opens:
  assumes ans: "w_answers w = accept_answers c addr junk ra rb @ greeting_answers ms @
      login_answers_for (w_config w) u v @ request_answers f rsv d port @ xs"
    and fds: "free_pair s c f" and acc: "acceptable w addr junk ra rb n" and conf: "config_ok (w_config w)"
    and ms: "needed_method (w_config w) \<in> set ms" "length ms < 256" "length ms + 2 \<le> n"
    and u: "is_auth_enabled (w_config w) \<Longrightarrow> credentials u v \<and> (u, v) \<in> set (accounts (w_config w)) \<and>
        length (auth_message u v) \<le> n \<and> 0 \<in> set (drop (length u) (s5_user junk))"
    and d: "is_address d" "length port = 2"
  shows "\<exists>s' w' o5 es. bind_res (socks5_passive_accept key (s, w)) (ready_all (session_steps (w_next w) c @
        login_steps (w_config w) (w_next w) c @ request_steps (w_next w) c f)) = Inr (s', w') \<and>
    w_socks w' (w_next w) = Some o5 \<and> s5_stm_current o5 = Some COPY \<and> copying o5 \<and>
    to_server o5 = [] \<and> to_client o5 = [] \<and> login_events (w_config w) (w_next w) c u v es \<and>
    w_events w' = w_events w @ [SentTo (int c) [0x05, needed_method (w_config w)]] @ es @
      request_events (w_next w) c f d port \<and>
    registered s' = (registered s)(c \<mapsto> (OP_READ, Some H_socks5, Some (Socks_at (w_next w))),
      f \<mapsto> (OP_READ, Some H_socks5, Some (Socks_at (w_next w)))) \<and>
    w_config w' = w_config w \<and> w_answers w' = xs"
  using assms by (rule connection_opened)

text \<open>The example: descriptors 3 and 4, buffers of 64 bytes, one account.\<close>

definition wide_selector :: sel where
  "wide_selector = \<lparr>s_fds = Some (replicate 8 (zero_item\<lparr>it_fd := FD_UNUSED\<rparr>)), s_max_fd = 0, s_master_r = {},
     s_master_w = {}, s_slave_r = {}, s_slave_w = {}, s_resolution_jobs = []\<rparr>"

definition small_world :: "answer list \<Rightarrow> world" where
  "small_world answers = (example_world answers)\<lparr>w_config := example_config\<lparr>cf_socks_buffer_size := 64\<rparr>\<rparr>"

lemma wide_selector_free: "free_pair wide_selector 3 4"
proof -
  have "registered wide_selector i = None" for i
    by (auto simp: registered_def wide_selector_def get_item_def load_at_def ITEM_USED_def)
  moreover have "selector_ok wide_selector" "fd_size wide_selector = 8"
    by (auto simp: selector_ok_def wide_selector_def items_ok_def fd_size_def wants_def registered_def get_item_def
        load_at_def ITEM_USED_def)
  ultimately show ?thesis
    by (simp add: free_pair_def ITEMS_MAX_SIZE_def)
qed

lemma small_world_simps:
  "w_config (small_world xs) = example_config\<lparr>cf_socks_buffer_size := 64\<rparr>" "w_answers (small_world xs) = xs"
  "w_next (small_world xs) = 1" "w_events (small_world xs) = []"
  "config_ok (example_config\<lparr>cf_socks_buffer_size := 64\<rparr>)"
  "accounts (example_config\<lparr>cf_socks_buffer_size := 64\<rparr>) = [([97], [120]), ([98], [121])]"
  "is_auth_enabled (example_config\<lparr>cf_socks_buffer_size := 64\<rparr>)"
proof -
  show "config_ok (example_config\<lparr>cf_socks_buffer_size := 64\<rparr>)"
    "accounts (example_config\<lparr>cf_socks_buffer_size := 64\<rparr>) = [([97], [120]), ([98], [121])]"
    using example_config_ok by (simp_all add: config_ok_def accounts_def)
qed (simp_all add: small_world_def example_world_def example_config_def is_auth_enabled_def)

lemma small_world_acceptable: "acceptable (small_world xs) (replicate 16 0) example_socks (replicate 64 0) (replicate 64 0) 64"
  by (simp add: acceptable_def small_world_def example_world_def example_socks_def get_current_conn_def
      MAX_CONNECTIONS_def get_socks_buffer_size_def)

definition served_answers :: "answer list" where
  "served_answers = accept_answers 3 (replicate 16 0) example_socks (replicate 64 0) (replicate 64 0) @
     greeting_answers [0, 2] @ [RecvBytes (auth_message [97] [120]), SentBytes 2] @
     request_answers 4 0 (IPv4 [127, 0, 0, 1]) [0, 80]"

theorem connection_opens_witness:
  "\<exists>s' w' o5 x y. bind_res (socks5_passive_accept example_key (wide_selector, small_world served_answers))
      (ready_all (session_steps 1 3 @ session_steps 1 3 @ request_steps 1 3 4)) = Inr (s', w') \<and>
    w_socks w' 1 = Some o5 \<and> s5_stm_current o5 = Some COPY \<and> copying o5 \<and>
    w_events w' = [SentTo 3 [5, 2], Checked 1 x y True, SentTo 3 [1, AUTH_SUCCESS],
      Connecting 4 ([2, 0, 0, 80, 127, 0, 0, 1] @ replicate 8 0), Logged 1 status_succeeded,
      SentTo 3 [5, 0, 0, 1, 127, 0, 0, 1, 0, 80]]"
proof -
  have "w_answers (small_world served_answers) =
      accept_answers 3 (replicate 16 0) example_socks (replicate 64 0) (replicate 64 0) @ greeting_answers [0, 2] @
      login_answers_for (w_config (small_world served_answers)) [97] [120] @
      request_answers 4 0 (IPv4 [127, 0, 0, 1]) [0, 80] @ []"
    by (simp add: small_world_simps login_answers_for_def served_answers_def)
  from connection_opens [OF this wide_selector_free small_world_acceptable, of example_key]
  show ?thesis
    by (simp add: small_world_simps needed_method_def METHOD_AUTH_REQUIRED_def credentials_def auth_message_def
        example_socks_def login_steps_def login_events_def request_events_def request_message_def) (elim exE conjE, auto)
qed

text \<open>C5. A client with a wrong password is turned away: the answer to its login is the failure, it is
  logged, its descriptor is closed and unregistered, and its object is freed. No \<open>connect\<close> is called.\<close>

theorem login_refused:
  assumes ans: "w_answers w = accept_answers c addr junk ra rb @ greeting_answers ms @
      [RecvBytes (auth_message u v), SentBytes 2] @ xs"
    and fds: "free_pair s c f" and acc: "acceptable w addr junk ra rb n" and conf: "config_ok (w_config w)"
    and ms: "METHOD_AUTH_REQUIRED \<in> set ms" "length ms < 256" "length ms + 2 \<le> n"
    and auth: "is_auth_enabled (w_config w)" and u: "credentials u v" "(u, v) \<notin> set (accounts (w_config w))"
      "length (auth_message u v) \<le> n" "0 \<in> set (drop (length u) (s5_user junk))"
  shows "\<exists>s' w' x y. bind_res (socks5_passive_accept key (s, w))
        (ready_all (session_steps (w_next w) c @ session_steps (w_next w) c)) = Inr (s', w') \<and>
    selector_ok s' \<and> registered s' = registered s \<and> w_socks w' (w_next w) = None \<and> w_answers w' = xs \<and>
    w_events w' = w_events w @ [SentTo (int c) [0x05, METHOD_AUTH_REQUIRED], Checked (w_next w) x y False,
      SentTo (int c) [0x01, AUTH_FAIL], Logged (w_next w) status_connecting, Closed_fd (int c), Closed_fd (-1)] \<and>
    holds_str x u \<and> holds_str y v"
proof -
  let ?a = "w_next w" and ?c = "w_config w" and ?xs1 = "RecvBytes (auth_message u v) # SentBytes 2 # xs"
  have ans1: "w_answers w = accept_answers c addr junk ra rb @ greeting_answers ms @ ?xs1"
    using ans by simp
  have needs: "needed_method ?c = METHOD_AUTH_REQUIRED" "needed_method ?c \<in> set ms"
      "after_greeting ?c = (AUTH_READ, CD_auth auth_start)"
    using auth ms(1) by (simp_all add: needed_method_def after_greeting_def)
  obtain s1 w1 o1 where r1: "bind_res (socks5_passive_accept key (s, w)) (ready_all (session_steps ?a c)) = Inr (s1, w1)"
    "went ?a w [SentTo (int c) [0x05, needed_method ?c]] ?xs1 o1 w1" "watched s1 ?a c" "same_but c s s1"
    "phase (fst (after_greeting ?c)) [] o1" "s5_client_data o1 = snd (after_greeting ?c)" "s5_final_server_fd o1 = -1"
    "s5_client_fd o1 = int c" "28 \<le> length (s5_final_server_addr o1)" "capacity (s5_read_buffer o1) = n"
    "capacity (s5_write_buffer o1) = n" "s5_user o1 = s5_user junk" "s5_status o1 = status_connecting"
    by (rule reaches_greeted [OF ans1 fds acc needs(2) ms(2,3)])
  have w1: "w_socks w1 ?a = Some o1" "w_config w1 = ?c" "w_answers w1 = ?xs1"
    "w_events w1 = w_events w @ [SentTo (int c) [0x05, METHOD_AUTH_REQUIRED]]"
    using r1(2) needs(1) by (simp_all add: went_def)
  have pre: "phase AUTH_READ [] o1" "s5_client_data o1 = CD_auth auth_start" "config_ok (w_config w1)"
    "(u, v) \<notin> set (accounts (w_config w1))" "0 \<in> set (drop (length u) (s5_user o1))"
    "length (auth_message u v) \<le> capacity (s5_read_buffer o1)" "2 \<le> capacity (s5_write_buffer o1)"
    using r1(5,6,10-12) needs(3) conf acc w1(2) u(2-4) by (simp_all add: acceptable_def)
  obtain s2 w2 x y where r2: "ready_all (session_steps ?a c) (s1, w1) = Inr (s2, w2)" "selector_ok s2"
    "registered s2 = (registered s1)(c := None)" "w_socks w2 ?a = None" "w_answers w2 = xs"
    "w_events w2 = w_events w1 @ [Checked ?a x y False, SentTo (int c) [0x01, AUTH_FAIL], Logged ?a status_connecting,
       Closed_fd (int c), Closed_fd (-1)]" "holds_str x u" "holds_str y v"
    by (rule refused_part [OF w1(1) pre(1,2) r1(8,7,13,3) pre(3) u(1) pre(4-7) w1(3)])
  have "registered s2 = registered s"
    using r2(3) r1(4) fds by (simp add: same_but_def free_pair_def fun_upd_idem)
  moreover have "bind_res (socks5_passive_accept key (s, w)) (ready_all (session_steps ?a c @ session_steps ?a c)) = Inr (s2, w2)"
    using r1(1) r2(1) by (cases "socks5_passive_accept key (s, w)") (simp_all add: ready_all_append)
  ultimately show ?thesis
    using r2 w1(4) by (intro exI [of _ s2] exI [of _ w2] exI [of _ x] exI [of _ y]) simp
qed

theorem login_refused_witness:
  "\<exists>s' w' x y. bind_res (socks5_passive_accept example_key (wide_selector, small_world
        (accept_answers 3 (replicate 16 0) example_socks (replicate 64 0) (replicate 64 0) @ greeting_answers [0, 2] @
          [RecvBytes (auth_message [97] [121]), SentBytes 2])))
      (ready_all (session_steps 1 3 @ session_steps 1 3)) = Inr (s', w') \<and>
    registered s' = registered wide_selector \<and> w_socks w' 1 = None \<and>
    w_events w' = [SentTo 3 [5, 2], Checked 1 x y False, SentTo 3 [1, AUTH_FAIL], Logged 1 status_connecting,
      Closed_fd 3, Closed_fd (-1)]"
  using login_refused [of "small_world (accept_answers 3 (replicate 16 0) example_socks (replicate 64 0)
        (replicate 64 0) @ greeting_answers [0, 2] @ [RecvBytes (auth_message [97] [121]), SentBytes 2])",
      OF _ wide_selector_free small_world_acceptable, of "[0, 2]" "[97]" "[121]" "[]" example_key]
  by (simp add: small_world_simps METHOD_AUTH_REQUIRED_def credentials_def auth_message_def example_socks_def)
    (elim exE conjE, auto)

text \<open>C22. A client that closes its side before its request is complete is never noticed: \<open>recv\<close> answers 0, which
  is not an error for \<open>request_read\<close>, and the state stays. However often the descriptor becomes readable, which
  it then always is, nothing changes: it remains registered for reading, and the object is kept.\<close>

theorem closed_client_spins:
  assumes "w_socks w a = Some o5" and "phase REQUEST_READ [] o5" and "s5_client_data o5 = CD_request d"
    and "rd_rb d = Read_buffer" and "\<not> request_final (rp_state (rd_parser d))"
    and "w_answers w = replicate k (RecvBytes []) @ xs"
  shows "ready_all (replicate k (Readable, conn_key a c)) (s, w) = Inr (s, w\<lparr>w_answers := xs\<rparr>)"
  using assms
proof (induction k arbitrary: w)
  case (Suc k)
  let ?w = "w\<lparr>w_answers := replicate k (RecvBytes []) @ xs\<rparr>"
  have "ready Readable (conn_key a c) (s, w) = Inr (s, ?w)"
    using Suc.prems by (intro request_read_nothing) simp_all
  moreover have "ready_all (replicate k (Readable, conn_key a c)) (s, ?w) = Inr (s, ?w\<lparr>w_answers := xs\<rparr>)"
    using Suc.prems by (intro Suc.IH) simp_all
  ultimately show ?case
    by simp
qed simp

definition waiting_socks :: socks5 where
  "waiting_socks = example_socks\<lparr>s5_stm_current := Some REQUEST_READ, s5_client_data := CD_request request_start\<rparr>"

theorem closed_client_spins_witness:
  "ready_all (replicate 1000 (Readable, conn_key 0 3))
      (wide_selector, (example_world (replicate 1000 (RecvBytes []) @ []))\<lparr>w_socks := [0 \<mapsto> waiting_socks]\<rparr>) =
    Inr (wide_selector, (example_world [])\<lparr>w_socks := [0 \<mapsto> waiting_socks]\<rparr>)"
  by (subst closed_client_spins [where ?o5.0 = waiting_socks and d = request_start and xs = "[]"])
    (simp_all add: waiting_socks_def phase_def example_socks_def example_world_def request_start_def
      request_parser_init_def request_final_def request_failed_def)

end
