(* ===== verification/CopyProgress.thy ===== *)
theory CopyProgress
  imports Handshake
begin

text \<open>
  A connection that copies does not go wrong: with the invariant of its object and of the selector, and an
  answer of the operating system that the call can have, a handler returns, and the invariant holds again - but for
  one answer: the buffers announce a byte more than their arrays have, and a \<open>recv\<close> that fills it is outside the array.
  The sniffer is off here; what it does to its arrays is in \<open>Pop3Sniffer\<close>.
\<close>

section \<open>The invariant\<close>

definition watched_ends :: "sel \<Rightarrow> nat \<Rightarrow> socks5 \<Rightarrow> bool" where
  "watched_ends s a o5 \<longleftrightarrow> (\<exists>c f. s5_client_fd o5 = int c \<and> s5_final_server_fd o5 = int f \<and>
     watched s a c \<and> watched s a f)"

definition copies :: "nat \<Rightarrow> st \<Rightarrow> bool" where
  "copies a sw \<longleftrightarrow> \<not> is_spoofing_enabled (w_config (snd sw)) \<and>
     (\<exists>o5. w_socks (snd sw) a = Some o5 \<and> copying o5 \<and> watched_ends (fst sw) a o5)"

text \<open>The answers that the call can have: \<open>recv\<close> answers at most as many bytes as it was asked for, \<open>send\<close> takes at most what it was
  given; then the memory that the sniffer would ask for.\<close>

fun fitting :: "readiness \<Rightarrow> bool \<Rightarrow> socks5 \<Rightarrow> answer list \<Rightarrow> bool" where
  "fitting Readable client o5 (RecvBytes bs # xs) \<longleftrightarrow>
     length bs \<le> announced (buf (if client then Read_buffer else Write_buffer) o5) \<and>
     (bs \<noteq> [] \<longrightarrow> (\<exists>m ys. xs = Memory m # ys))"
| "fitting Readable client o5 (RecvFails # xs) \<longleftrightarrow> True"
| "fitting Writable client o5 (SentBytes n # xs) \<longleftrightarrow>
     n \<le> length (pending (buf (if client then Write_buffer else Read_buffer) o5)) \<and> (\<exists>m ys. xs = Memory m # ys)"
| "fitting Writable client o5 (SendFails # xs) \<longleftrightarrow> True"
| "fitting _ _ _ _ \<longleftrightarrow> False"

text \<open>More bytes than the array has room for. With the limits of \<open>socks5_new\<close> that is exactly one more.\<close>

fun overruns :: "readiness \<Rightarrow> bool \<Rightarrow> socks5 \<Rightarrow> answer list \<Rightarrow> bool" where
  "overruns Readable client o5 (RecvBytes bs # xs) \<longleftrightarrow>
     room (buf (if client then Read_buffer else Write_buffer) o5) < length bs"
| "overruns _ _ _ _ \<longleftrightarrow> False"

fun copy_handler :: "readiness \<Rightarrow> key \<Rightarrow> st \<Rightarrow> (nat \<times> st) result" where
  "copy_handler Readable = copy_read"
| "copy_handler Writable = copy_write"
| "copy_handler Unblocked = (\<lambda>_ _. Inl Aborted)"

section \<open>The parts\<close>

lemma watch_ends:
  assumes "watched_ends s a o5" and "watch s a c i s'"
  shows "watched_ends s' a o5"
proof -
  have "watched s' a f" if "watched s a f" for f
    using assms(2) that by (auto simp: watch_def watched_def)
  with assms(1) show ?thesis unfolding watched_ends_def by blast
qed

lemma interests_ok:
  assumes "watched_ends s a o5" and "cd_fd data \<in> {Client_fd, Final_server_fd}"
  shows "\<exists>r s'. copy_determine_interests s o5 data = Inr (r, s') \<and> watched_ends s' a o5"
proof -
  obtain c where c: "fd_of (cd_fd data) o5 = int c" "watched s a c"
    using assms by (auto simp: watched_ends_def)
  have "\<exists>s'. selector_set_interest s (int c) i = Inr (SELECTOR_SUCCESS, s') \<and> watched_ends s' a o5" for i
    using watched_set_interest [OF c(2), of i] watch_ends [OF assms(1)] by metis
  with c(1) show ?thesis
    unfolding copy_determine_interests_def Let_def by (metis (no_types, lifting) bind_res.simps(2) case_prod_conv)
qed

lemma copy_finish_ok:
  assumes "w_socks w a = Some o5" and "copying o5" and "watched_ends s a o5"
  shows "\<exists>t s'. copy_finish a sd ret (s, w) = Inr (t, s', w) \<and> t \<in> {ret, DONE} \<and> watched_ends s' a o5"
proof -
  obtain data other where d: "copy_of sd o5 = Inr data" "copy_of (cd_other_copy data) o5 = Inr other"
      "cd_fd data \<in> {Client_fd, Final_server_fd}" "cd_fd other \<in> {Client_fd, Final_server_fd}"
    using assms(2) by (cases sd) (auto simp: copying_def copy_side_defs)
  obtain r1 s1 where 1: "copy_determine_interests s o5 data = Inr (r1, s1)" "watched_ends s1 a o5"
    using interests_ok [OF assms(3) d(3)] by blast
  obtain r2 s2 where 2: "copy_determine_interests s1 o5 other = Inr (r2, s2)" "watched_ends s2 a o5"
    using interests_ok [OF 1(2) d(4)] by blast
  show ?thesis
    using assms(1) d(1,2) 1(1) 2 by (auto simp: copy_finish_def get_socks_def)
qed

lemma copy_end_ok:
  assumes "w_socks w a = Some o5" and "copying o5"
  shows "\<exists>w' o5'. copy_end a sd op shut op' shut' w = Inr w' \<and> w_socks w' a = Some o5' \<and> copying o5' \<and>
    same_ends o5 o5' \<and> w_config w' = w_config w"
  using assms
  by (cases sd) (auto simp: copy_end_def get_socks_def copying_def same_ends_def Let_def copy_side_defs emit_def put_socks_def)

lemma sniff_data_off:
  assumes "w_socks w a = Some o5" and "w_answers w = Memory m # xs" and "\<not> is_spoofing_enabled (w_config w)"
  shows "sniff_data a bs w = Inr (put_socks a o5 (w\<lparr>w_answers := xs\<rparr>))"
  using assms by (simp add: sniff_data_def get_socks_def sys_memory_def next_answer_def pop3sniff_def put_socks_def)

lemma ends_after: "watched_ends s a o5 \<Longrightarrow> same_ends o5 o5' \<Longrightarrow> watched_ends s a o5'"
  by (simp add: watched_ends_def same_ends_def)

text \<open>The two ways on: the buffer changed, or the side ended.\<close>

lemma moved_on:
  assumes "w_socks w a = Some o5" and "copying o5" and "watched_ends s a o5" and "\<not> is_spoofing_enabled (w_config w)"
    and "w_answers w = Memory m # xs"
  shows "\<exists>t s' w'. bind_res (sniff_data a bs w) (\<lambda>w. copy_finish a sd COPY (s, w)) = Inr (t, s', w') \<and>
    t \<in> {COPY, DONE} \<and> copies a (s', w')"
proof -
  let ?w = "put_socks a o5 (w\<lparr>w_answers := xs\<rparr>)"
  obtain t s' where "copy_finish a sd COPY (s, ?w) = Inr (t, s', ?w)" "t \<in> {COPY, DONE}" "watched_ends s' a o5"
    using copy_finish_ok [of ?w a o5 s sd COPY] assms(2,3) by auto
  with assms show ?thesis by (auto simp: sniff_data_off copies_def)
qed

lemma ended:
  assumes "w_socks w a = Some o5" and "copying o5" and "watched_ends s a o5" and "\<not> is_spoofing_enabled (w_config w)"
  shows "\<exists>t s' w'. bind_res (copy_end a sd op shut op' shut' w) (\<lambda>w. copy_finish a sd DONE (s, w)) = Inr (t, s', w') \<and>
    t \<in> {COPY, DONE} \<and> copies a (s', w')"
proof -
  obtain w1 o1 where w1: "copy_end a sd op shut op' shut' w = Inr w1" "w_socks w1 a = Some o1" "copying o1"
      "same_ends o5 o1" "w_config w1 = w_config w"
    using copy_end_ok [OF assms(1,2), of sd op shut op' shut'] by blast
  obtain t s' where "copy_finish a sd DONE (s, w1) = Inr (t, s', w1)" "t \<in> {DONE}" "watched_ends s' a o1"
    using copy_finish_ok [OF w1(2,3) ends_after [OF assms(3) w1(4)], of sd DONE] by auto
  with w1 assms(4) show ?thesis by (auto simp: copies_def)
qed

section \<open>The handlers\<close>

lemma copies_set_buf:
  assumes "copying o5" and "watched_ends s a o5" and "buffer_ok b"
  shows "copying (set_buf r b o5)" "watched_ends s a (set_buf r b o5)"
  using copying_set_buf(1) [OF assms(1,3)] ends_after [OF assms(2) copying_set_buf(2)] by simp_all

lemma recv_at_end:
  assumes "buffer_ok b" and "w_answers w = RecvBytes [] # xs \<or> w_answers w = RecvFails # xs"
  shows "\<exists>n\<le>0. recv_into b w = Inr ([], n, b, w\<lparr>w_answers := xs\<rparr>)"
  using assms
  by (auto simp: recv_into_def buffer_write_ptr_ok sys_recv_def next_answer_def buffer_poke_def store_range_def buffer_dims)

text \<open>The bytes of \<open>recv\<close> that do not fit into the array.\<close>

lemma recv_into_overrun:
  assumes "buffer_ok b" and "w_answers w = RecvBytes bs # xs" and "length bs \<le> announced b" and "room b < length bs"
  shows "recv_into b w = Inl OutOfBounds"
proof -
  have "length (b_mem b) < b_write b + length bs"
    using assms(1,3,4) by (auto simp: buffer_dims min_def split: if_splits)
  then have "buffer_poke b (b_write b) bs = Inl OutOfBounds"
    by (simp add: buffer_poke_def store_range_def)
  then show ?thesis
    using assms(1-3) by (simp add: recv_into_def sys_recv_def next_answer_def buffer_write_ptr_ok)
qed

lemma copy_read_overrun:
  assumes c: "copies a (s, w)" and key: "ATTACHMENT key = Inr a" and o5: "w_socks w a = Some o5"
    and fit: "fitting Readable (k_fd key = s5_client_fd o5) o5 (w_answers w)"
    and over: "overruns Readable (k_fd key = s5_client_fd o5) o5 (w_answers w)"
  shows "copy_read key (s, w) = Inl OutOfBounds"
proof -
  have inv: "copying o5"
    using c o5 by (auto simp: copies_def)
  obtain sd data where side: "get_copy_data key o5 = Inr (sd, k_fd key = s5_client_fd o5)" "copy_of sd o5 = Inr data"
      "cd_rb data = (if k_fd key = s5_client_fd o5 then Read_buffer else Write_buffer)"
    by (rule key_side [OF inv])
  obtain bs xs where bs: "w_answers w = RecvBytes bs # xs"
    using over by (cases "(Readable, k_fd key = s5_client_fd o5, o5, w_answers w)" rule: overruns.cases) auto
  then have "recv_into (buf (cd_rb data) o5) w = Inl OutOfBounds"
    using fit over side(3) by (intro recv_into_overrun [OF buf_ok [OF inv]]) auto
  then show ?thesis
    using key o5 side(1,2) by (simp add: copy_read_def get_socks_def)
qed

lemma copy_read_progress:
  assumes c: "copies a (s, w)" and key: "ATTACHMENT key = Inr a" and o5: "w_socks w a = Some o5"
    and fit: "fitting Readable (k_fd key = s5_client_fd o5) o5 (w_answers w)"
    and inside: "\<not> overruns Readable (k_fd key = s5_client_fd o5) o5 (w_answers w)"
  shows "\<exists>t s' w'. copy_read key (s, w) = Inr (t, s', w') \<and> t \<in> {COPY, DONE} \<and> copies a (s', w')"
proof -
  have inv: "copying o5" "watched_ends s a o5" "\<not> is_spoofing_enabled (w_config w)"
    using c o5 by (auto simp: copies_def)
  obtain sd data where side: "get_copy_data key o5 = Inr (sd, k_fd key = s5_client_fd o5)" "copy_of sd o5 = Inr data"
      "cd_rb data = (if k_fd key = s5_client_fd o5 then Read_buffer else Write_buffer)"
    by (rule key_side [OF inv(1)])
  let ?r = "cd_rb data"
  note bok = buf_ok [OF inv(1), of ?r]
  have key': "ATTACHMENT key = Inr a" "get_socks a w = Inr o5" using key o5 by (simp_all add: get_socks_def)
  consider bs xs where "w_answers w = RecvBytes bs # xs" "bs \<noteq> []"
    | xs where "w_answers w = RecvBytes [] # xs \<or> w_answers w = RecvFails # xs"
    using fit by (cases "(Readable, k_fd key = s5_client_fd o5, o5, w_answers w)" rule: fitting.cases) auto
  then show ?thesis
  proof cases
    case (1 bs xs)
    then obtain m ys where m: "length bs \<le> room (buf ?r o5)" "xs = Memory m # ys"
      using fit inside side(3) by auto
    obtain b1 b2 where b2: "recv_into (buf ?r o5) w = Inr (bs, int (length bs), b1, w\<lparr>w_answers := xs\<rparr>)"
        "buffer_write_adv b1 (int (length bs)) = Inr b2" "buffer_ok b2"
      using recv_into_bytes [OF bok 1(1) m(1)] by metis
    let ?o = "set_buf ?r b2 o5"
    let ?w = "\<lambda>mt. put_socks a ?o (w\<lparr>w_answers := xs\<rparr>)\<lparr>w_metrics := mt\<rparr>"
    obtain mt where "copy_read key (s, w) = bind_res (sniff_data a bs (?w mt)) (\<lambda>w. copy_finish a sd COPY (s, w))"
      using key' side(1,2) b2 1(2) by (auto simp: copy_read_def count_if Let_def)
    moreover have "w_socks (?w mt) a = Some ?o" "\<not> is_spoofing_enabled (w_config (?w mt))"
        "w_answers (?w mt) = Memory m # ys"
      using inv(3) m(2) by simp_all
    ultimately show ?thesis
      using moved_on [OF _ copies_set_buf [OF inv(1,2) b2(3)], of "?w mt"] by simp
  next
    case (2 xs)
    let ?w = "w\<lparr>w_answers := xs\<rparr>"
    obtain n where recv: "recv_into (buf ?r o5) w = Inr ([], n, buf ?r o5, ?w)" "n \<le> 0"
      using recv_at_end [OF bok 2] by blast
    have "copy_read key (s, w) = bind_res (copy_end a sd OP_READ ShutRead OP_WRITE ShutWrite (put_socks a o5 ?w))
        (\<lambda>w. copy_finish a sd DONE (s, w))"
      using key' side(1,2) recv by (simp add: copy_read_def set_buf_same get_socks_def)
    moreover have "w_socks (put_socks a o5 ?w) a = Some o5" "\<not> is_spoofing_enabled (w_config (put_socks a o5 ?w))"
      using inv(3) by simp_all
    ultimately show ?thesis
      using ended [OF _ inv(1,2), of "put_socks a o5 ?w"] by simp
  qed
qed

lemma copy_write_progress:
  assumes c: "copies a (s, w)" and key: "ATTACHMENT key = Inr a" and o5: "w_socks w a = Some o5"
    and fit: "fitting Writable (k_fd key = s5_client_fd o5) o5 (w_answers w)"
  shows "\<exists>t s' w'. copy_write key (s, w) = Inr (t, s', w') \<and> t \<in> {COPY, DONE} \<and> copies a (s', w')"
proof -
  have inv: "copying o5" "watched_ends s a o5" "\<not> is_spoofing_enabled (w_config w)"
    using c o5 by (auto simp: copies_def)
  obtain sd data where side: "get_copy_data key o5 = Inr (sd, k_fd key = s5_client_fd o5)" "copy_of sd o5 = Inr data"
      "cd_wb data = (if k_fd key = s5_client_fd o5 then Write_buffer else Read_buffer)"
    by (rule key_side [OF inv(1)])
  let ?r = "cd_wb data"
  note bok = buf_ok [OF inv(1), of ?r]
  have key': "ATTACHMENT key = Inr a" "get_socks a w = Inr o5" using key o5 by (simp_all add: get_socks_def)
  consider n m xs where "w_answers w = SentBytes n # Memory m # xs" "n \<le> length (pending (buf ?r o5))"
    | xs where "w_answers w = SendFails # xs"
    using fit side(3) by (cases "(Writable, k_fd key = s5_client_fd o5, o5, w_answers w)" rule: fitting.cases) auto
  then show ?thesis
  proof cases
    case (1 n m xs)
    let ?bs = "take n (pending (buf ?r o5))"
    let ?v = "emit (SentTo (k_fd key) ?bs) (w\<lparr>w_answers := Memory m # xs\<rparr>)"
    obtain b2 where b2: "buffer_read_adv (buf ?r o5) (int n) = Inr b2" "buffer_ok b2"
      using buffer_read_adv_ok [OF bok 1(2)] by metis
    let ?o = "set_buf ?r b2 o5"
    let ?w = "\<lambda>mt. put_socks a ?o ?v\<lparr>w_metrics := mt\<rparr>"
    obtain mt where "copy_write key (s, w) = bind_res (sniff_data a ?bs (?w mt)) (\<lambda>w. copy_finish a sd COPY (s, w))"
      using key' side(1,2) b2 send_from_bytes [OF bok 1] by (auto simp: copy_write_def count_if Let_def)
    moreover have "w_socks (?w mt) a = Some ?o" "\<not> is_spoofing_enabled (w_config (?w mt))"
        "w_answers (?w mt) = Memory m # xs"
      using inv(3) by simp_all
    ultimately show ?thesis
      using moved_on [OF _ copies_set_buf [OF inv(1,2) b2(2)], of "?w mt"] by simp
  next
    case (2 xs)
    let ?w = "w\<lparr>w_answers := xs\<rparr>"
    have "send_from (k_fd key) (buf ?r o5) w = Inr ([], -1, ?w)"
      using 2 bok by (simp add: send_from_def buffer_read_ptr_ok next_answer_def)
    then have "copy_write key (s, w) = bind_res (copy_end a sd OP_WRITE ShutWrite OP_READ ShutRead ?w)
        (\<lambda>w. copy_finish a sd DONE (s, w))"
      using key' side(1,2) by (simp add: copy_write_def get_socks_def)
    then show ?thesis
      using ended [OF _ inv(1,2), of ?w] inv(3) o5 by simp
  qed
qed

section \<open>The property\<close>

text \<open>C7. What can go wrong in the state COPY while the sniffer is off, for every answer that the call can have. Whichever of
  the two sockets is ready for whichever handler, the handler returns, stays in COPY or goes on to DONE, and leaves the
  invariant of object and selector - except when \<open>recv\<close> answers more bytes than the array has room for, which it can,
  since the buffer announces one more: then, and only then, the bytes are written behind the array.\<close>

theorem copy_progress:
  assumes "copies a (s, w)" and "ATTACHMENT key = Inr a" and "w_socks w a = Some o5"
    and "r \<noteq> Unblocked" and "fitting r (k_fd key = s5_client_fd o5) o5 (w_answers w)"
  shows "if overruns r (k_fd key = s5_client_fd o5) o5 (w_answers w) then copy_handler r key (s, w) = Inl OutOfBounds
    else \<exists>t s' w'. copy_handler r key (s, w) = Inr (t, s', w') \<and> t \<in> {COPY, DONE} \<and> copies a (s', w')"
proof (cases r)
  case Readable
  with copy_read_progress [OF assms(1-3)] copy_read_overrun [OF assms(1-3)] assms(5) show ?thesis by auto
next
  case Writable
  with copy_write_progress [OF assms(1-3)] assms(5) show ?thesis by simp
qed (use assms(4) in simp)

definition both_watched :: sel where
  "both_watched = copying_selector\<lparr>s_max_fd := 6, s_master_r := {5, 6}\<rparr>"

definition silent_world :: "answer list \<Rightarrow> world" where
  "silent_world xs = (copying_world xs)\<lparr>w_config := example_config\<lparr>cf_disectors_enabled := False\<rparr>\<rparr>"

lemma both_watched_table:
  "selector_ok both_watched" "fd_size both_watched = 7"
  "registered both_watched 5 = Some (OP_READ, Some H_socks5, Some (Socks_at 0))"
  "registered both_watched 6 = Some (OP_READ, Some H_socks5, Some (Socks_at 0))"
proof -
  let ?e = "Some (OP_READ, Some H_socks5, Some (Socks_at 0))"
  have fds: "s_fds both_watched = Some (replicate 5 (zero_item\<lparr>it_fd := FD_UNUSED\<rparr>) @
     [\<lparr>it_fd = 5, it_interest = OP_READ, it_handler = Some H_socks5, it_data = Some (Socks_at 0)\<rparr>,
      \<lparr>it_fd = 6, it_interest = OP_READ, it_handler = Some H_socks5, it_data = Some (Socks_at 0)\<rparr>])"
    by (simp add: both_watched_def copying_selector_def)
  have reg: "registered both_watched i = (if i = 5 \<or> i = 6 then ?e else None)" for i
    by (auto simp: registered_fds [OF fds] nth_append nth_Cons ITEM_USED_def FD_UNUSED_def split: nat.splits)
  then show "registered both_watched 5 = ?e" "registered both_watched 6 = ?e" by simp_all
  show size: "fd_size both_watched = 7" by (simp add: fd_size_def fds)
  have "items_ok (the (s_fds both_watched)) 6"
    by (auto simp: fds items_ok_def nth_append nth_Cons ITEM_USED_def FD_UNUSED_def split: nat.splits)
  moreover have "wants OP_READ both_watched i = (i \<in> {5, 6})" "\<not> wants OP_WRITE both_watched i" for i
    by (auto simp: wants_def reg op_defs)
  ultimately show "selector_ok both_watched"
    by (auto simp: selector_ok_def size fds) (auto simp: both_watched_def copying_selector_def example_selector_def)
qed

text \<open>Its read buffer is as \<open>socks5_new\<close> makes it: 16 bytes of memory, and a limit of 17.\<close>

definition limit_socks :: socks5 where
  "limit_socks = copying_socks\<lparr>s5_read_buffer := buffer_init 17 (replicate 16 0)\<rparr>"

definition limit_world :: "answer list \<Rightarrow> world" where
  "limit_world xs = (silent_world xs)\<lparr>w_socks := [0 \<mapsto> limit_socks]\<rparr>"

lemma limit_socks_facts: "copying limit_socks" "s5_client_fd limit_socks = 5" "s5_final_server_fd limit_socks = 6"
  "announced (s5_read_buffer limit_socks) = 17" "room (s5_read_buffer limit_socks) = 16"
  by (auto simp: limit_socks_def copying_socks_def copying_def example_socks_def buffer_init_def buffer_of_def buffer_dims)

theorem copy_progress_witness:
  "(\<exists>t s' w'. copy_handler Readable (conn_key 0 5) (both_watched, limit_world [RecvBytes (replicate 16 104), Memory []]) =
      Inr (t, s', w') \<and> t \<in> {COPY, DONE} \<and> copies 0 (s', w')) \<and>
   copy_handler Readable (conn_key 0 5) (both_watched, limit_world [RecvBytes (replicate 17 104), Memory []]) = Inl OutOfBounds"
proof -
  let ?w = "\<lambda>n. limit_world [RecvBytes (replicate n 104), Memory []]"
  have o5: "w_socks (?w n) 0 = Some limit_socks" for n
    by (simp add: limit_world_def)
  have "watched both_watched 0 5" "watched both_watched 0 6"
    using both_watched_table by (simp_all add: watched_def ITEMS_MAX_SIZE_def)
  then have "watched_ends both_watched 0 limit_socks"
    by (auto simp: watched_ends_def limit_socks_facts intro!: exI [of _ 5] exI [of _ 6])
  then have copies: "copies 0 (both_watched, ?w n)" for n
    using limit_socks_facts(1) by (simp add: copies_def limit_world_def silent_world_def is_spoofing_enabled_def)
  have answers: "w_answers (?w n) = [RecvBytes (replicate n 104), Memory []]" for n
    by (simp add: limit_world_def silent_world_def copying_world_def example_world_def)
  have key: "k_fd (conn_key 0 5) = s5_client_fd limit_socks"
    by (simp add: limit_socks_facts)
  show ?thesis
    using copy_progress [OF copies _ o5, of "conn_key 0 5" Readable 16] copy_progress [OF copies _ o5, of "conn_key 0 5" Readable 17]
    by (simp add: answers key limit_socks_facts)
qed

end
