(* ===== verification/Retries.thy ===== *)
theory Retries
  imports Socks5
begin

text \<open>
  The retries of \<open>request_connect\<close> (\<^verbatim>\<open>src/socks5_request.c\<close>): the recursion ends, because each round drops
  an address of the list that the resolver answered, and what address the rounds connect to.
\<close>

section \<open>What the parts of a round keep\<close>

fun attempts :: "event list \<Rightarrow> (int \<times> u8 list) list" where
  "attempts [] = []"
| "attempts (Connecting fd addr # es) = (fd, addr) # attempts es"
| "attempts (_ # es) = attempts es"

lemma attempts_append [simp]: "attempts (es @ ds) = attempts es @ attempts ds"
  by (induction es rule: attempts.induct) auto

text \<open>What a connection knows of its destination, and its state.\<close>

definition target :: "socks5 \<Rightarrow> addrinfo list \<times> addrinfo list \<times> u8 list \<times> nat \<times> nat option" where
  "target o5 = (s5_server_resolution o5, s5_current_server_resolution o5, s5_final_server_addr o5,
     s5_final_server_len o5, s5_stm_current o5)"

definition keeps_target :: "nat \<Rightarrow> world \<Rightarrow> world \<Rightarrow> bool" where
  "keeps_target a w w' \<longleftrightarrow> (\<exists>es. w_events w' = w_events w @ es \<and> attempts es = []) \<and>
     (\<forall>o'. w_socks w' a = Some o' \<longrightarrow> (\<exists>o5. w_socks w a = Some o5 \<and> target o' = target o5))"

lemma keeps_target_refl [simp]: "keeps_target a w w"
  by (simp add: keeps_target_def)

lemma keeps_target_trans: "keeps_target a w w' \<Longrightarrow> keeps_target a w' w'' \<Longrightarrow> keeps_target a w w''"
  unfolding keeps_target_def by (fastforce simp: append_assoc)

lemma keeps_target_put:
  "w_socks w a = Some o5 \<Longrightarrow> target o' = target o5 \<Longrightarrow> keeps_target a w (put_socks a o' w)"
  by (auto simp: keeps_target_def put_socks_def)

lemma keeps_target_emit:
  "keeps_target a w w' \<Longrightarrow> attempts [e] = [] \<Longrightarrow> keeps_target a w (emit e w')"
  by (force simp: keeps_target_def emit_def)

lemma keeps_target_same:
  "keeps_target a w w1 \<Longrightarrow> w_socks w' = w_socks w1 \<Longrightarrow> w_events w' = w_events w1 \<Longrightarrow> keeps_target a w w'"
  by (simp add: keeps_target_def)

lemma next_answer_same: "next_answer w = Inr (x, w') \<Longrightarrow> w_socks w' = w_socks w \<and> w_events w' = w_events w"
  by (auto simp: next_answer_def split: list.splits)

lemma close_handler_target:
  assumes "close_handler h = Some f" and "f key (s, w) = Inr (s', w')"
  shows "keeps_target a w w'"
  using assms
  by (cases h) (auto simp: socks5_close_def socks5_free_def mng_close_def keeps_target_def put_socks_def target_def
      elim!: bind_res_InrE split: if_splits)

lemma unregister_target:
  assumes "selector_unregister_fd close_handler fd (s, w) = Inr (ss, s', w')"
  shows "keeps_target a w w'"
  using assms
  by (auto simp: selector_unregister_fd_def Let_def elim!: bind_res_InrE
      split: if_splits option.splits prod.splits) (erule (1) close_handler_target)

lemma drop_old_fd_target: "drop_old_fd b (s, w) = Inr (s', w') \<Longrightarrow> keeps_target a w w'"
  by (auto simp: drop_old_fd_def Let_def elim!: bind_res_InrE
      dest!: unregister_target [where a = a] intro!: keeps_target_emit split: if_splits prod.splits)

lemma open_socket_target: "open_socket a w = Inr (b, w') \<Longrightarrow> keeps_target a w w'"
  by (auto simp: open_socket_def selector_fd_set_nio_def Let_def keeps_target_def put_socks_def target_def
      elim!: bind_res_InrE dest!: next_answer_same split: if_splits answer.splits)

lemma log_conn_target: "log_conn b status w = Inr w' \<Longrightarrow> keeps_target a w w' \<and> w_socks w' = w_socks w"
  by (auto simp: log_conn_def emit_def keeps_target_def elim!: bind_res_InrE)

lemma target_set_buf [simp]: "target (set_buf r b o5) = target o5"
  by (cases r) (simp_all add: target_def)

lemma connect_reply_target: "connect_reply a (s, w) = Inr (t, s', w') \<Longrightarrow> keeps_target a w w'"
  by (auto simp: connect_reply_def Let_def elim!: bind_res_InrE dest!: log_conn_target [where a = a])
    (erule keeps_target_trans, rule keeps_target_put, simp_all)

text \<open>The attempt itself, and the step to the next address.\<close>

lemma sys_connect_attempt:
  assumes "sys_connect a w = Inr (e, w')" and "w_socks w a = Some o5"
  shows "w_socks w' = w_socks w \<and>
    w_events w' = w_events w @ [Connecting (s5_final_server_fd o5) (take (s5_final_server_len o5) (s5_final_server_addr o5))]"
  using assms
  by (auto simp: sys_connect_def get_socks_def load_range_def emit_def Let_def elim!: bind_res_InrE
      dest!: next_answer_same split: answer.splits if_splits)

lemma next_ip_rest:
  assumes "next_ip o5 = Inr (r, o')" and "r \<noteq> -1"
  obtains ai ais x y ys where "s5_server_resolution o5 = ai # ais" "s5_current_server_resolution o5 = x # y # ys"
    "s5_server_resolution o' = ai # ais" "s5_current_server_resolution o' = y # ys"
    "s5_final_server_len o' = ai_addrlen ai"
    "take (ai_addrlen ai) (s5_final_server_addr o') = take (ai_addrlen ai) (ai_addr ai)"
  using assms
  by (auto simp: next_ip_def set_final_addr_def load_range_def store_range_def neq_Nil_conv elim!: bind_res_InrE
      split: list.splits if_splits)

section \<open>The recursion ends\<close>

lemma bind_res_eqI: "(\<And>x. m = Inr x \<Longrightarrow> f x = g x) \<Longrightarrow> bind_res m f = bind_res m g"
  by (cases m) auto

lemma request_connect_enough:
  assumes "\<forall>o5. w_socks w a = Some o5 \<longrightarrow> length (s5_current_server_resolution o5) \<le> n" and "n \<le> f" and "n \<le> g"
  shows "request_connect f key a (s, w) = request_connect g key a (s, w)"
  using assms
proof (induction n arbitrary: f g s w rule: less_induct)
  case (less n)
  have again: "(case f of 0 \<Rightarrow> Inl AssertFailed | Suc f1 \<Rightarrow> request_connect f1 key a (s1, w5)) =
      (case g of 0 \<Rightarrow> Inl AssertFailed | Suc g1 \<Rightarrow> request_connect g1 key a (s1, w5))"
    if 1: "drop_old_fd a (s, w) = Inr (s1, w1)" and 2: "open_socket a w1 = Inr (opened, w2)"
      and 3: "sys_connect a w2 = Inr (e, w3)" and o5: "w_socks w3 a = Some o5"
      and next1: "next_ip (o5\<lparr>s5_status := st\<rparr>) = Inr (r, o')" "r \<noteq> -1"
      and 5: "log_conn a (s5_status o') (put_socks a o' w3) = Inr w5"
    for s1 w1 opened w2 e w3 o5 r o' w5 st
  proof -
    have "w_socks w2 a = Some o5"
      using sys_connect_attempt [OF 3] 3 o5 by (auto simp: sys_connect_def get_socks_def split: option.splits)
    then obtain o0 where "w_socks w a = Some o0" "target o5 = target o0"
      using keeps_target_trans [OF drop_old_fd_target [OF 1] open_socket_target [OF 2]]
      by (auto simp: keeps_target_def)
    then have len: "length (s5_current_server_resolution o5) \<le> n"
      using less.prems(1) by (auto simp: target_def)
    have shorter: "length (s5_current_server_resolution o5) = Suc (length (s5_current_server_resolution o'))"
      "s5_current_server_resolution o' \<noteq> []"
      using next1 by (auto elim!: next_ip_rest)
    have w5: "w_socks w5 a = Some o'"
      using log_conn_target [OF 5] by (simp add: put_socks_def)
    obtain f1 g1 where fg: "f = Suc f1" "g = Suc g1"
      using less.prems(2,3) len shorter(1) by (cases f; cases g) auto
    with len shorter(1) w5 less.prems(2,3)
    have "request_connect f1 key a (s1, w5) = request_connect g1 key a (s1, w5)"
      by (intro less.IH [of "n - 1"]) auto
    with fg show ?thesis by simp
  qed
  show ?case
    unfolding request_connect.simps [of f key a "(s, w)"] request_connect.simps [of g key a "(s, w)"]
    by (auto simp: Let_def intro!: bind_res_eqI split: option.splits)
      (erule (6) again)
qed

section \<open>How often, and where\<close>

text \<open>The first address of the list is what the connection has for its destination.\<close>

definition aims_at :: "addrinfo \<Rightarrow> nat \<Rightarrow> world \<Rightarrow> bool" where
  "aims_at ai a w \<longleftrightarrow> (\<forall>o5. w_socks w a = Some o5 \<longrightarrow>
     (\<exists>ais. s5_server_resolution o5 = ai # ais) \<and> s5_final_server_len o5 = ai_addrlen ai \<and>
     take (ai_addrlen ai) (s5_final_server_addr o5) = take (ai_addrlen ai) (ai_addr ai))"

lemma aims_at_keeps: "aims_at ai a w \<Longrightarrow> keeps_target a w w' \<Longrightarrow> aims_at ai a w'"
  by (fastforce simp: aims_at_def keeps_target_def target_def)

definition at_most :: "nat \<Rightarrow> nat \<Rightarrow> world \<Rightarrow> bool" where
  "at_most n a w \<longleftrightarrow> (\<forall>o5. w_socks w a = Some o5 \<longrightarrow> length (s5_current_server_resolution o5) \<le> n)"

lemma at_most_keeps: "at_most n a w \<Longrightarrow> keeps_target a w w' \<Longrightarrow> at_most n a w'"
  by (fastforce simp: at_most_def keeps_target_def target_def)

lemma next_aims:
  assumes nx: "next_ip (o5\<lparr>s5_status := st\<rparr>) = Inr (r, o')" "r \<noteq> -1"
    and "\<exists>ais. s5_server_resolution o5 = ai # ais" and "length (s5_current_server_resolution o5) \<le> n"
    and "w_socks w a = Some o'"
  shows "\<exists>m. n = Suc m \<and> m \<noteq> 0 \<and> aims_at ai a w \<and> at_most m a w"
  using nx
proof (rule next_ip_rest)
  fix ai' ais x y ys
  assume "s5_server_resolution (o5\<lparr>s5_status := st\<rparr>) = ai' # ais"
    "s5_current_server_resolution (o5\<lparr>s5_status := st\<rparr>) = x # y # ys"
    "s5_server_resolution o' = ai' # ais" "s5_current_server_resolution o' = y # ys"
    "s5_final_server_len o' = ai_addrlen ai'"
    "take (ai_addrlen ai') (s5_final_server_addr o') = take (ai_addrlen ai') (ai_addr ai')"
  with assms(3-5) show ?thesis
    by (intro exI [of _ "n - 1"]) (auto simp: aims_at_def at_most_def)
qed

text \<open>One round: it ends the function after at most one attempt, or goes on with one address less.\<close>

lemma request_connect_round:
  assumes run: "request_connect fuel key a (s, w) = Inr (t, s', w')"
    and aim: "aims_at ai a w" and n: "at_most n a w"
  obtains es where "w_events w' = w_events w @ es" "attempts es \<in> {[]} \<union> {[(fd, take (ai_addrlen ai) (ai_addr ai))] |fd. True}"
      "aims_at ai a w'" "at_most n a w'"
  | m f es s1 w1 fd where "n = Suc m" "m \<noteq> 0" "fuel = Suc f" "w_events w1 = w_events w @ es"
      "attempts es = [(fd, take (ai_addrlen ai) (ai_addr ai))]"
      "request_connect f key a (s1, w1) = Inr (t, s', w')" "aims_at ai a w1" "at_most m a w1"
proof -
  let ?addr = "take (ai_addrlen ai) (ai_addr ai)"
  note single = that(1) and further = that(2)
  note eq = request_connect.simps [of fuel key a "(s, w)"]
  obtain s1 w1 opened w2 where 1: "drop_old_fd a (s, w) = Inr (s1, w1)" and 2: "open_socket a w1 = Inr (opened, w2)"
    using run by (auto simp: eq elim!: bind_res_InrE)
  have kept: "keeps_target a w w2"
    using drop_old_fd_target [OF 1] open_socket_target [OF 2] by (rule keeps_target_trans)
  then obtain es2 where es2: "w_events w2 = w_events w @ es2" "attempts es2 = []"
    by (auto simp: keeps_target_def)
  show ?thesis
  proof (cases opened)
    case False
    with run 1 2 have "w' = w2" by (simp add: eq)
    with es2 kept aim n show ?thesis
      by (intro that(1) [of es2]) (auto intro: aims_at_keeps at_most_keeps)
  next
    case True
    obtain e w3 where 3: "sys_connect a w2 = Inr (e, w3)"
      using run 1 2 True by (auto simp: eq elim!: bind_res_InrE)
    then obtain o5 where o2: "w_socks w2 a = Some o5"
      by (auto simp: sys_connect_def elim!: bind_res_InrE)
    let ?fd = "s5_final_server_fd o5"
    have aim2: "take (s5_final_server_len o5) (s5_final_server_addr o5) = ?addr"
        "length (s5_current_server_resolution o5) \<le> n" "\<exists>ais. s5_server_resolution o5 = ai # ais"
      using aims_at_keeps [OF aim kept] at_most_keeps [OF n kept] o2 by (auto simp: aims_at_def at_most_def)
    have w3: "w_socks w3 = w_socks w2" "w_events w3 = w_events w @ es2 @ [Connecting ?fd ?addr]"
      using sys_connect_attempt [OF 3 o2] es2(1) aim2(1) by simp_all
    have aim3: "aims_at ai a w3" "at_most n a w3"
      using aims_at_keeps [OF aim kept] at_most_keeps [OF n kept] w3(1) by (auto simp: aims_at_def at_most_def)
    have over: ?thesis if k: "keeps_target a w3 w'"
    proof -
      obtain es where "w_events w' = w_events w3 @ es" "attempts es = []"
        using k by (auto simp: keeps_target_def)
      with w3(2) es2(2) aims_at_keeps [OF aim3(1) k] at_most_keeps [OF aim3(2) k] show ?thesis
        by (intro single [of "es2 @ [Connecting ?fd ?addr] @ es"]) auto
    qed
    consider "e = None" | "e = Some EINPROGRESS" | y where "e = Some y" "y \<noteq> EINPROGRESS"
      by (cases e) auto
    then show ?thesis
    proof cases
      case 1
      with run \<open>drop_old_fd a (s, w) = _\<close> 2 3 True have "w' = w3" by (simp add: eq)
      with over show ?thesis by simp
    next
      case 2
      with run 1 \<open>open_socket a w1 = _\<close> 3 True have "w' = w3"
        by (auto simp: eq dest: connect_in_progress_next)
      with over show ?thesis by simp
    next
      case (3 y)
      note run3 = \<open>sys_connect a w2 = _\<close>
      obtain r o' where nx: "next_ip (o5\<lparr>s5_status := errno_to_socks y\<rparr>) = Inr (r, o')"
        using run 1 2 3 run3 True o2 w3(1) by (auto simp: eq Let_def get_socks_def elim!: bind_res_InrE)
      let ?w4 = "put_socks a o' w3"
      have o3: "w_socks w3 a = Some o5" using o2 w3(1) by simp
      show ?thesis
      proof (cases "r = -1")
        case True
        have "connect_reply a (s1, ?w4) = Inr (t, s', w')"
          using run 1 2 3 run3 \<open>opened\<close> o3 nx True by (simp add: eq Let_def get_socks_def)
        moreover have "target o' = target o5"
          using nx True by (auto simp: next_ip_def target_def elim!: bind_res_InrE split: list.splits if_splits)
        ultimately show ?thesis
          using over keeps_target_trans [OF keeps_target_put [OF o3] connect_reply_target] by blast
      next
        case False
        then obtain w5 f where f: "fuel = Suc f" "log_conn a (s5_status o') ?w4 = Inr w5"
            "request_connect f key a (s1, w5) = Inr (t, s', w')"
          using run 1 2 3 run3 \<open>opened\<close> o3 nx
          by (auto simp: eq Let_def get_socks_def elim!: bind_res_InrE split: nat.splits)
        have w5: "w_socks w5 a = Some o'" "keeps_target a ?w4 w5"
          using log_conn_target [OF f(2)] by (auto simp: put_socks_def)
        obtain es5 where es5: "w_events w5 = w_events w3 @ es5" "attempts es5 = []"
          using w5(2) by (auto simp: keeps_target_def put_socks_def)
        obtain m where "n = Suc m" "m \<noteq> 0" "aims_at ai a w5" "at_most m a w5"
          using next_aims [OF nx False aim2(3,2) w5(1)] by blast
        then show ?thesis
          using f w3(2) es2(2) es5 by (intro further [of m f w5 "es2 @ [Connecting ?fd ?addr] @ es5"]) auto
      qed
    qed
  qed
qed

text \<open>What is left of the list pays for the attempts that were made.\<close>

lemma request_connect_attempts:
  assumes "request_connect fuel key a (s, w) = Inr (t, s', w')" and "aims_at ai a w" and "at_most n a w"
  shows "\<exists>es m. w_events w' = w_events w @ es \<and> length (attempts es) \<le> max 1 n \<and>
    snd ` set (attempts es) \<subseteq> {take (ai_addrlen ai) (ai_addr ai)} \<and>
    aims_at ai a w' \<and> at_most m a w' \<and> length (attempts es) + m \<le> Suc n"
  using assms
proof (induction n arbitrary: fuel s w)
  case (0 fuel s w)
  from 0 show ?case
  proof (rule request_connect_round)
    fix es
    assume "w_events w' = w_events w @ es" "attempts es \<in> {[]} \<union> {[(fd, take (ai_addrlen ai) (ai_addr ai))] |fd. True}"
      "aims_at ai a w'" "at_most 0 a w'"
    then show ?case by (intro exI [of _ es] exI [of _ 0]) auto
  qed auto
next
  case (Suc n)
  from Suc.prems show ?case
  proof (rule request_connect_round)
    fix es
    assume "w_events w' = w_events w @ es" "attempts es \<in> {[]} \<union> {[(fd, take (ai_addrlen ai) (ai_addr ai))] |fd. True}"
      "aims_at ai a w'" "at_most (Suc n) a w'"
    then show ?case by (intro exI [of _ es] exI [of _ "Suc n"]) auto
  next
    fix m f es s1 w1 fd
    assume r: "Suc n = Suc m" "m \<noteq> 0" "w_events w1 = w_events w @ es"
      "attempts es = [(fd, take (ai_addrlen ai) (ai_addr ai))]"
      "request_connect f key a (s1, w1) = Inr (t, s', w')" "aims_at ai a w1" "at_most m a w1"
    then obtain ds j where "w_events w' = w_events w1 @ ds" "length (attempts ds) \<le> max 1 n"
        "snd ` set (attempts ds) \<subseteq> {take (ai_addrlen ai) (ai_addr ai)}"
        "aims_at ai a w'" "at_most j a w'" "length (attempts ds) + j \<le> Suc n"
      using Suc.IH [OF r(5,6)] by auto
    with r show ?case
      by (intro exI [of _ "es @ ds"] exI [of _ j]) auto
  qed
qed

lemma start_connect_attempts:
  assumes "start_connect key a (s, w) = Inr (t, s', w')" and "aims_at ai a w" and "at_most n a w"
  shows "\<exists>es m. w_events w' = w_events w @ es \<and> length (attempts es) \<le> max 1 n \<and>
    snd ` set (attempts es) \<subseteq> {take (ai_addrlen ai) (ai_addr ai)} \<and>
    aims_at ai a w' \<and> at_most m a w' \<and> length (attempts es) + m \<le> Suc n"
  using assms(1) request_connect_attempts [OF _ assms(2,3)]
  by (auto simp: start_connect_def elim!: bind_res_InrE)

section \<open>An example\<close>

text \<open>A name with two addresses: the first attempt is refused, the second one is under way.\<close>

definition two_addresses :: "addrinfo list" where
  "two_addresses =
     [\<lparr>ai_family = 2, ai_addrlen = 8, ai_addr = [2, 0, 0, 80, 127, 0, 0, 1]\<rparr>,
      \<lparr>ai_family = 2, ai_addrlen = 8, ai_addr = [2, 0, 0, 80, 127, 0, 0, 2]\<rparr>]"

definition resolved_socks :: socks5 where
  "resolved_socks = example_socks\<lparr>s5_server_resolution := two_addresses,
     s5_current_server_resolution := two_addresses,
     s5_client_data := CD_request \<lparr>rd_rb = Read_buffer, rd_wb = Write_buffer, rd_parser = blank_request_parser\<rparr>\<rparr>"

definition resolved_world :: world where
  "resolved_world = put_socks 0 resolved_socks
     (example_world [NewSocket 3, NioSet True, ConnectFails 111, NewSocket 3, NioSet True, ConnectFails 115])"

text \<open>C20. The recursion of \<open>request_connect\<close> ends: as many turns as there are addresses left in the
  list of the resolver are enough, and more of them change nothing, whatever the system calls answer.\<close>

theorem request_connect_terminates:
  assumes "w_socks w a = Some o5" and "length (s5_current_server_resolution o5) \<le> fuel"
  shows "request_connect fuel key a (s, w) = start_connect key a (s, w)"
proof -
  have "request_connect fuel key a (s, w) =
      request_connect (length (s5_current_server_resolution o5)) key a (s, w)"
    using assms by (intro request_connect_enough) auto
  with assms(1) show ?thesis by (simp add: start_connect_def get_socks_def)
qed

theorem request_connect_terminates_witness:
  "request_connect 7 example_key 0 (example_selector, resolved_world) =
     request_connect 2 example_key 0 (example_selector, resolved_world)"
proof -
  have "w_socks resolved_world 0 = Some resolved_socks" "length (s5_current_server_resolution resolved_socks) = 2"
    by (simp_all add: resolved_world_def put_socks_def resolved_socks_def two_addresses_def)
  then show ?thesis
    using request_connect_terminates [of resolved_world 0 resolved_socks 7]
      request_connect_terminates [of resolved_world 0 resolved_socks 2] by simp
qed

end
