(* ===== verification/Dialling.thy ===== *)
theory Dialling
  imports Retries Handshake
begin

text \<open>
  All the attempts of a connection, over all the events that reach it: the retries inside one call of
  \<open>request_connect\<close>, and those that \<open>request_connecting\<close> makes when \<open>SO_ERROR\<close> shows that an attempt
  that was under way has failed.
\<close>

section \<open>What the other handlers keep\<close>

lemma keeps_target_put_after:
  "keeps_target a w w1 \<Longrightarrow> w_socks w1 = w_socks w \<Longrightarrow> w_socks w a = Some o5 \<Longrightarrow> target o' = target o5 \<Longrightarrow>
   keeps_target a w (put_socks a o' w1)"
  by (auto simp: keeps_target_def put_socks_def)

lemma recv_into_target: "recv_into b w = Inr (bs, n, b', w') \<Longrightarrow> keeps_target a w w' \<and> w_socks w' = w_socks w"
  by (auto simp: recv_into_def sys_recv_def keeps_target_def elim!: bind_res_InrE dest!: next_answer_same
      split: answer.splits if_splits)

lemma send_from_target: "send_from fd b w = Inr (bs, n, w') \<Longrightarrow> keeps_target a w w' \<and> w_socks w' = w_socks w"
  by (auto simp: send_from_def emit_def keeps_target_def elim!: bind_res_InrE dest!: next_answer_same
      split: answer.splits if_splits)

lemma sys_memory_target: "sys_memory w = Inr (m, w') \<Longrightarrow> keeps_target a w w' \<and> w_socks w' = w_socks w"
  by (auto simp: sys_memory_def keeps_target_def elim!: bind_res_InrE dest!: next_answer_same split: answer.splits)

lemma request_connecting_reply_target:
  "request_connecting_reply key a (s, w) = Inr (t, s', w') \<Longrightarrow> keeps_target a w w'"
  by (auto simp: request_connecting_reply_def Let_def elim!: bind_res_InrE intro!: keeps_target_put split: if_splits)

lemma request_write_target:
  "request_write key (s, w) = Inr (t, s', w') \<Longrightarrow> ATTACHMENT key = Inr a \<Longrightarrow> keeps_target a w w'"
  by (auto simp: request_write_def Let_def elim!: bind_res_InrE
      dest!: send_from_target [where a = a] split: if_splits) (erule (2) keeps_target_put_after, simp)+

lemma target_set_copy [simp]: "target (set_copy sd d o5) = target o5"
  by (cases sd) (simp_all add: target_def)

lemma target_updates [simp]:
  "target (o5\<lparr>s5_status := st\<rparr>) = target o5" "target (o5\<lparr>s5_sniffer := sn\<rparr>) = target o5"
  "target (o5\<lparr>s5_client_data := cd\<rparr>) = target o5" "target (o5\<lparr>s5_server_data := sd\<rparr>) = target o5"
  "target (o5\<lparr>s5_final_server_fd := fd\<rparr>) = target o5" "target (o5\<lparr>s5_toFree := n\<rparr>) = target o5"
  by (simp_all add: target_def)

lemma keeps_target_metrics [simp]: "keeps_target a w (w'\<lparr>w_metrics := m\<rparr>) = keeps_target a w w'"
  by (simp add: keeps_target_def)

lemma sniff_data_target: "sniff_data a bs w = Inr w' \<Longrightarrow> keeps_target a w w'"
  by (auto simp: sniff_data_def elim!: bind_res_InrE dest!: sys_memory_target [where a = a])
    (auto simp: keeps_target_def put_socks_def)

lemma copy_end_target:
  "copy_end a sd op shut op' shut' w = Inr w' \<Longrightarrow> \<forall>fd. attempts [shut fd] = [] \<and> attempts [shut' fd] = [] \<Longrightarrow>
   keeps_target a w w'"
  by (auto simp: copy_end_def Let_def elim!: bind_res_InrE split: if_splits)
    (rule keeps_target_put_after, (rule keeps_target_emit)+; simp add: emit_def)+

lemma copy_read_target:
  "copy_read key (s, w) = Inr (t, s', w') \<Longrightarrow> ATTACHMENT key = Inr a \<Longrightarrow> keeps_target a w w'"
  by (auto simp: copy_read_def Let_def elim!: bind_res_InrE
      dest!: recv_into_target [where a = a] sniff_data_target copy_end_target copy_finish_next split: if_splits)
    (erule keeps_target_trans [rotated], (simp, rule keeps_target_put_after | rule keeps_target_put_after); simp)+

lemma copy_write_target:
  "copy_write key (s, w) = Inr (t, s', w') \<Longrightarrow> ATTACHMENT key = Inr a \<Longrightarrow> keeps_target a w w'"
  by (auto simp: copy_write_def Let_def elim!: bind_res_InrE
      dest!: send_from_target [where a = a] sniff_data_target copy_end_target copy_finish_next split: if_splits)
    (((erule (1) keeps_target_trans) | (erule keeps_target_trans [rotated], (simp, rule keeps_target_put_after | rule keeps_target_put_after); simp))+)

lemma unregister_all_target: "unregister_all fds (s, w) = Inr (s', w') \<Longrightarrow> keeps_target a w w'"
proof (induction fds arbitrary: s w)
  case (Cons fd fds)
  obtain s1 w1 where 1: "unregister_all fds (s1, emit (Closed_fd fd) w1) = Inr (s', w')"
      "(s1, w1) = (s, w) \<or> (\<exists>r. selector_unregister_fd close_handler fd (s, w) = Inr (r, s1, w1))"
    using Cons.prems(1) by (auto elim!: bind_res_InrE split: if_splits)
  have "keeps_target a w w1"
    using 1(2) unregister_target by auto
  then show ?case
    using Cons.IH [OF 1(1)] keeps_target_emit [of a w w1 "Closed_fd fd"] by (auto intro: keeps_target_trans)
qed simp

lemma socks5_done_target:
  assumes "socks5_done key (s, w) = Inr (s', w')"
  shows "keeps_target a w w'"
proof -
  let ?metrics = "\<lambda>o5. if s5_status o5 = status_close then
                let (m, err) = end_connection (w_metrics w); w = w\<lparr>w_metrics := m\<rparr> in
                if err then emit LoggedError w else w
              else w"
  obtain b o5 w1 where "w_socks w b = Some o5" and r: "log_conn b (s5_status o5) (?metrics o5) = Inr w1"
      "unregister_all [s5_client_fd o5, s5_final_server_fd o5]
         (s, w1\<lparr>w_metrics := end_connecting_clients (w_metrics w1)\<rparr>) = Inr (s', w')"
    using assms by (auto simp del: unregister_all.simps simp: socks5_done_def Let_def elim!: bind_res_InrE)
  have "keeps_target a w (?metrics o5)"
    by (auto simp: Let_def keeps_target_emit split: prod.splits)
  moreover have "keeps_target a (?metrics o5) w1"
    using log_conn_target [OF r(1)] by blast
  moreover have "keeps_target a w1 w'"
    using unregister_all_target [OF r(2), of a] by (simp add: keeps_target_def)
  ultimately show ?thesis
    by (blast intro: keeps_target_trans)
qed

section \<open>The attempts that are left\<close>

text \<open>
  In the states from the resolution on, what was attempted since \<open>w0\<close> went to the first address \<open>ai\<close>,
  and what is left of the list limits what can still be attempted; \<open>k\<close> attempts were made before \<open>w0\<close>,
  and the resolver gave \<open>n\<close> addresses.
\<close>

definition on_the_way :: "addrinfo \<Rightarrow> nat \<Rightarrow> nat \<Rightarrow> nat \<Rightarrow> nat \<Rightarrow> world \<Rightarrow> bool" where
  "on_the_way ai n k a c w \<longleftrightarrow>
     (if c = REQUEST_RESOLV then k = 0 \<and> n \<noteq> 0 \<and> at_most n a w \<and>
        (\<forall>o5. w_socks w a = Some o5 \<longrightarrow> (\<exists>ais. s5_server_resolution o5 = ai # ais))
      else if c = REQUEST_CONNECTING then aims_at ai a w \<and> (\<exists>m. at_most m a w \<and> k + m \<le> Suc n)
      else c \<in> {REQUEST_WRITE, COPY, DONE, ERROR})"

definition dialling :: "addrinfo \<Rightarrow> nat \<Rightarrow> nat \<Rightarrow> nat \<Rightarrow> world \<Rightarrow> key \<Rightarrow> nat \<Rightarrow> st \<Rightarrow> bool" where
  "dialling ai n k a w0 key c = (\<lambda>(s, w). ATTACHMENT key = Inr a \<and>
     (\<exists>es. w_events w = w_events w0 @ es \<and> k + length (attempts es) \<le> n \<and>
        snd ` set (attempts es) \<subseteq> {take (ai_addrlen ai) (ai_addr ai)} \<and>
        on_the_way ai n (k + length (attempts es)) a c w))"

lemma on_the_way_keeps:
  assumes "on_the_way ai n k a c w" and "keeps_target a w w'"
  shows "on_the_way ai n k a c w'"
proof -
  have "\<exists>ais. s5_server_resolution o' = ai # ais"
    if "\<forall>o5. w_socks w a = Some o5 \<longrightarrow> (\<exists>ais. s5_server_resolution o5 = ai # ais)" "w_socks w' a = Some o'" for o'
    using that assms(2) by (fastforce simp: keeps_target_def target_def)
  with assms show ?thesis
    by (auto simp: on_the_way_def intro: aims_at_keeps at_most_keeps split: if_splits)
qed

lemma dialling_keeps:
  assumes "dialling ai n k a w0 key c (s, w)" and "keeps_target a w w'"
  shows "dialling ai n k a w0 key c (s', w')"
proof -
  obtain es where es: "w_events w = w_events w0 @ es" "k + length (attempts es) \<le> n"
      "snd ` set (attempts es) \<subseteq> {take (ai_addrlen ai) (ai_addr ai)}"
      "on_the_way ai n (k + length (attempts es)) a c w" "ATTACHMENT key = Inr a"
    using assms(1) by (auto simp: dialling_def)
  obtain ds where "w_events w' = w_events w @ ds" "attempts ds = []"
    using assms(2) by (auto simp: keeps_target_def)
  with es on_the_way_keeps [OF es(4) assms(2)] show ?thesis
    by (auto simp: dialling_def intro!: exI [of _ "es @ ds"])
qed

lemma dialling_current:
  "w_socks w a = Some o5 \<Longrightarrow>
   dialling ai n k a w0 key c (s, put_socks a (o5\<lparr>s5_stm_current := x\<rparr>) w) = dialling ai n k a w0 key c (s, w)"
  by (simp add: dialling_def on_the_way_def aims_at_def at_most_def put_socks_def)

lemma dialling_attached: "dialling ai n k a w0 key c sw \<Longrightarrow> ATTACHMENT key = Inr a"
  by (cases sw) (simp add: dialling_def)

text \<open>Where the handlers of a connection that has attempted lead to.\<close>

lemma dialling_leaves:
  assumes "dialling ai n k a w0 key c (s, w)" and "t \<in> {REQUEST_WRITE, COPY, DONE, ERROR}"
  shows "dialling ai n k a w0 key t (s, w)"
  using assms by (auto simp: dialling_def on_the_way_def socks_state_defs)

lemma dialling_connects:
  assumes d: "dialling ai n k a w0 key c (s, w)" and aim: "aims_at ai a w1" and m: "at_most m a w1" "m \<noteq> 0"
    and ev: "w_events w1 = w_events w"
    and room: "\<And>es. w_events w = w_events w0 @ es \<Longrightarrow> on_the_way ai n (k + length (attempts es)) a c w \<Longrightarrow>
      k + length (attempts es) + m \<le> n"
    and run: "start_connect key a (s1, w1) = Inr (t, s', w')"
  shows "dialling ai n k a w0 key t (s', w')"
proof -
  obtain es where es: "w_events w = w_events w0 @ es" "ATTACHMENT key = Inr a"
      "snd ` set (attempts es) \<subseteq> {take (ai_addrlen ai) (ai_addr ai)}"
      "on_the_way ai n (k + length (attempts es)) a c w"
    using d by (auto simp: dialling_def)
  obtain ds j where ds: "w_events w' = w_events w @ ds" "length (attempts ds) \<le> m"
      "snd ` set (attempts ds) \<subseteq> {take (ai_addrlen ai) (ai_addr ai)}"
      "aims_at ai a w'" "at_most j a w'" "length (attempts ds) + j \<le> Suc m"
    using start_connect_attempts [OF run aim m(1)] m(2) by (auto simp: ev max_def split: if_splits)
  have t: "t = ERROR \<or> t = REQUEST_CONNECTING \<or> t = REQUEST_WRITE"
    using start_connect_next [OF run] by blast
  have "on_the_way ai n (k + length (attempts (es @ ds))) a t w'"
    using t ds(4-6) room [OF es(1,4)]
    by (auto simp: on_the_way_def socks_state_defs intro!: exI [of _ j])
  with es ds room [OF es(1,4)] show ?thesis
    by (auto simp: dialling_def intro!: exI [of _ "es @ ds"])
qed

lemma resolved_dials:
  assumes run: "request_resolv_done key (s, w) = Inr (t, s', w')" and a: "ATTACHMENT key = Inr a"
    and d: "dialling ai n k a w0 key REQUEST_RESOLV (s, w)"
  shows "dialling ai n k a w0 key t (s', w')"
proof -
  obtain o5 where o5: "w_socks w a = Some o5"
    using run a by (auto simp: request_resolv_done_def elim!: bind_res_InrE)
  have way: "n \<noteq> 0" "at_most n a w" "\<exists>ais. s5_server_resolution o5 = ai # ais"
    using d o5 by (auto simp: dialling_def on_the_way_def)
  then obtain o1 where o1: "set_final_addr ai o5 = Inr o1" "start_connect key a (s, put_socks a o1 w) = Inr (t, s', w')"
    using run a o5 by (auto simp: request_resolv_done_def elim!: bind_res_InrE)
  then have "s5_server_resolution o1 = s5_server_resolution o5"
      "s5_current_server_resolution o1 = s5_current_server_resolution o5" "s5_final_server_len o1 = ai_addrlen ai"
      "take (ai_addrlen ai) (s5_final_server_addr o1) = take (ai_addrlen ai) (ai_addr ai)"
    by (auto simp: set_final_addr_def load_range_def store_range_def elim!: bind_res_InrE split: if_splits)
  with way o5 have "aims_at ai a (put_socks a o1 w)" "at_most n a (put_socks a o1 w)"
    by (simp_all add: aims_at_def at_most_def put_socks_def)
  then show ?thesis
    by (rule dialling_connects [OF d _ _ way(1) _ _ o1(2)])
      (auto simp: on_the_way_def put_socks_def)
qed

lemma connecting_dials:
  assumes run: "request_connecting key (s, w) = Inr (t, s', w')" and a: "ATTACHMENT key = Inr a"
    and d: "dialling ai n k a w0 key REQUEST_CONNECTING (s, w)"
  shows "dialling ai n k a w0 key t (s', w')"
proof -
  have over: ?thesis if r: "request_connecting_reply key a (s, w1) = Inr (t, s', w')" and "keeps_target a w w1" for w1
  proof -
    have "dialling ai n k a w0 key REQUEST_CONNECTING (s', w')"
      using d that(2) request_connecting_reply_target [OF r] by (blast intro: dialling_keeps)
    then show ?thesis
      using request_connecting_reply_next [OF r] by (auto intro: dialling_leaves)
  qed
  obtain o5 x w1 where o5: "w_socks w a = Some o5" and x: "next_answer w = Inr (x, w1)"
    using run a by (auto simp: request_connecting_def elim!: bind_res_InrE)
  have w1: "w_socks w1 = w_socks w" "w_events w1 = w_events w" "keeps_target a w w1"
    using next_answer_same [OF x] by (simp_all add: keeps_target_def)
  have put: "keeps_target a w (put_socks a o' w1)" if "target o' = target o5" for o'
    using keeps_target_put_after [OF w1(3,1) o5 that] .
  have "x = SockErrorFails \<or> (\<exists>e. x = SockError e)"
    using run a o5 x by (auto simp: request_connecting_def elim!: bind_res_InrE split: answer.splits)
  then consider "x = SockErrorFails" | "x = SockError 0" | e where "x = SockError e" "e \<noteq> 0"
    by blast
  then show ?thesis
  proof cases
    case 1
    with run a o5 x show ?thesis
      by (auto simp: request_connecting_def Let_def elim!: bind_res_InrE intro!: over put)
  next
    case 2
    with run a o5 x obtain w3 where 2: "request_connecting_reply key a (s, w3) = Inr (t, s', w')"
        "log_conn a status_succeeded ((put_socks a (o5\<lparr>s5_status := status_succeeded, s5_final_server_fd := k_fd key\<rparr>) w1)
           \<lparr>w_metrics := add_connection (w_metrics w)\<rparr>) = Inr w3"
      by (auto simp: request_connecting_def Let_def put_socks_def next_answer_def elim!: bind_res_InrE split: list.splits)
    let ?o = "o5\<lparr>s5_status := status_succeeded, s5_final_server_fd := k_fd key\<rparr>"
    have "keeps_target a w ((put_socks a ?o w1)\<lparr>w_metrics := add_connection (w_metrics w)\<rparr>)"
      by (rule keeps_target_same [OF put [of ?o]]) (simp_all add: put_socks_def)
    then have "keeps_target a w w3"
      using log_conn_target [OF 2(2), of a] by (blast intro: keeps_target_trans)
    with 2(1) show ?thesis by (rule over)
  next
    case (3 e)
    obtain r o' where nx: "next_ip (o5\<lparr>s5_status := errno_to_socks e\<rparr>) = Inr (r, o')"
      using run a o5 x 3 by (auto simp: request_connecting_def elim!: bind_res_InrE)
    show ?thesis
    proof (cases "r = -1")
      case True
      have "target o' = target o5"
        using nx True by (auto simp: next_ip_def target_def elim!: bind_res_InrE split: list.splits if_splits)
      moreover obtain w3 where "request_connecting_reply key a (s, w3) = Inr (t, s', w')"
          "log_conn a (s5_status o') (put_socks a o' w1) = Inr w3"
        using run a o5 x 3 nx True by (auto simp: request_connecting_def Let_def elim!: bind_res_InrE)
      ultimately show ?thesis
        using log_conn_target [of a _ _ w3 a] by (intro over [of w3]) (auto intro!: keeps_target_trans [OF put])
    next
      case False
      obtain es m where es: "w_events w = w_events w0 @ es" "aims_at ai a w" "at_most m a w"
          "k + length (attempts es) + m \<le> Suc n"
        using d by (auto simp: dialling_def on_the_way_def socks_state_defs)
      let ?w = "put_socks a o' w1"
      obtain j where j: "m = Suc j" "j \<noteq> 0" "aims_at ai a ?w" "at_most j a ?w"
        using next_aims [OF nx False, of ai m ?w a] es(2,3) o5 by (auto simp: aims_at_def at_most_def put_socks_def)
      have "start_connect key a (s, ?w) = Inr (t, s', w')"
        using run a o5 x 3 nx False by (auto simp: request_connecting_def Let_def elim!: bind_res_InrE)
      moreover have "w_events ?w = w_events w"
        using w1(2) by (simp add: put_socks_def)
      ultimately show ?thesis
        using es(1,4) j(1) by (intro dialling_connects [OF d j(3,4,2)]) auto
    qed
  qed
qed

section \<open>The machine as a whole\<close>

lemma init_dials:
  assumes f: "f = hello_read_init key c \<or> f = auth_read_init key c \<or> f = request_init key c \<or>
      f = request_connecting_init key c \<or> f = copy_init key c"
    and run: "f (s, w) = Inr (s', w')" and a: "ATTACHMENT key = Inr a"
  shows "keeps_target a w w'"
proof -
  have "\<exists>o5 o'. w_socks w a = Some o5 \<and> w' = put_socks a o' w \<and> target o' = target o5"
    using f run a by (auto simp: hello_read_init_def auth_read_init_def request_init_def
        request_connecting_init_def copy_init_def Let_def elim!: bind_res_InrE)
      (rule exI, rule conjI, rule refl, simp)+
  then show ?thesis
    by (auto intro: keeps_target_put)
qed

lemma ready_dials:
  assumes c: "c \<le> ERROR" and d: "dialling ai n k a w0 key c (s, w)"
    and ready: "sd_on_read_ready (socks_state_definition key ! c) = Some f \<or>
      sd_on_write_ready (socks_state_definition key ! c) = Some f \<or>
      sd_on_block_ready (socks_state_definition key ! c) = Some f"
    and run: "f (s, w) = Inr (t, s', w')"
  shows "dialling ai n k a w0 key t (s', w') \<and> stays a w w'"
proof -
  have a: "ATTACHMENT key = Inr a" and c_in: "c \<in> {REQUEST_RESOLV, REQUEST_CONNECTING, REQUEST_WRITE, COPY, DONE, ERROR}"
    using d by (auto simp: dialling_def on_the_way_def split: if_splits)
  then consider "c = REQUEST_RESOLV" "f = request_resolv_done key" | "c = REQUEST_CONNECTING" "f = request_connecting key"
    | "c = REQUEST_WRITE" "f = request_write key" | "c = COPY" "f = copy_read key \<or> f = copy_write key"
    using socks_ready_cases [OF c ready] by (auto simp: socks_state_defs)
  then show ?thesis
  proof cases
    case 1
    with run resolved_dials [of key s w t s' w' a] request_resolv_done_next [of key s w t s' w' a] a d show ?thesis
      by blast
  next
    case 2
    with run connecting_dials [of key s w t s' w' a] request_connecting_next [of key s w t s' w' a] a d show ?thesis
      by blast
  next
    case 3
    with run a have "keeps_target a w w'" "stays a w w'" "t \<in> {REQUEST_WRITE, COPY, DONE, ERROR}"
      using request_write_target [of key s w t s' w' a] request_write_next [of key s w t s' w' a] by simp_all
    with d show ?thesis
      by (blast intro: dialling_leaves dialling_keeps)
  next
    case 4
    with run a have "keeps_target a w w'" "stays a w w'" "t \<in> {REQUEST_WRITE, COPY, DONE, ERROR}"
      using copy_read_target [of key s w t s' w' a] copy_read_next [of key s w t s' w' a]
        copy_write_target [of key s w t s' w' a] copy_write_next [of key s w t s' w' a] by auto
    with d show ?thesis
      by (blast intro: dialling_leaves dialling_keeps)
  qed
qed

interpretation dials: stm_user "socks_stm key" "dialling ai n k a w0 key" "dialling ai n k a w0 key" for key ai n k a w0
proof unfold_locales
  show "stm_table_ok (socks_stm key)"
    by (rule socks_table)
next
  fix c w w'
  assume "set_current (stm_current (socks_stm key)) c w = Inr w'"
  then show "get_current (stm_current (socks_stm key)) w' = Inr c"
    by (rule socks.set_get)
next
  fix c w w' s
  assume "set_current (stm_current (socks_stm key)) c w = Inr w'" "dialling ai n k a w0 key s w"
  then show "dialling ai n k a w0 key s w'"
    by (cases w) (auto simp: socks_current_def elim!: bind_res_InrE, frule dialling_attached, simp add: dialling_current)
next
  fix s w w'
  assume s: "s \<le> stm_max_state (socks_stm key)" and d: "dialling ai n k a w0 key s w"
    and call: "call_arrival (socks_stm key) s w = Inr w'"
  show "dialling ai n k a w0 key s w' \<and>
      get_current (stm_current (socks_stm key)) w' = get_current (stm_current (socks_stm key)) w"
  proof (cases "sd_on_arrival (socks_state_definition key ! s)")
    case None
    with call d s show ?thesis
      by (auto simp: call_arrival_def socks_load elim!: bind_res_InrE)
  next
    case (Some f)
    obtain s1 w1 s2 w2 where ww: "w = (s1, w1)" "w' = (s2, w2)"
      by (cases w; cases w')
    have a: "ATTACHMENT key = Inr a"
      using d ww by (simp add: dialling_def)
    have "sd_state (socks_state_definition key ! s) = s"
      using socks_table [of key] s by (simp add: stm_table_ok_def)
    with Some call s have f: "f s w = Inr w'"
      by (auto simp: call_arrival_def socks_load)
    have "keeps_target a w1 w2"
      by (rule init_dials [of "f s" key s s1 w1 s2 w2 a]) (use s f ww a socks_arrival_cases [OF _ Some] in auto)
    moreover obtain o5 o' where "w_socks w1 a = Some o5" "w_socks w2 a = Some o'"
      using f ww a s socks_arrival_cases [OF _ Some]
      by (auto simp: hello_read_init_def auth_read_init_def request_init_def put_socks_def
        request_connecting_init_def copy_init_def Let_def elim!: bind_res_InrE)
    ultimately show ?thesis
      using d a ww by (auto simp: dialling_keeps socks_current_def get_socks_def keeps_target_def target_def)
  qed
next
  fix s t w w'
  assume "s \<le> stm_max_state (socks_stm key)" "dialling ai n k a w0 key t w" "call_departure (socks_stm key) s w = Inr w'"
  then show "dialling ai n k a w0 key t w'"
    by (auto simp: call_departure_def socks_departure socks_load)
next
  fix s w f t w' c
  assume s: "s \<le> stm_max_state (socks_stm key)" and d: "dialling ai n k a w0 key s w"
    and cur: "get_current (stm_current (socks_stm key)) w = Inr (Some s)"
    and f: "sd_on_read_ready (stm_states (socks_stm key) ! s) = Some f \<or>
      sd_on_write_ready (stm_states (socks_stm key) ! s) = Some f \<or>
      sd_on_block_ready (stm_states (socks_stm key) ! s) = Some f"
    and run: "f w = Inr (t, w')" and cur': "get_current (stm_current (socks_stm key)) w' = Inr c"
  obtain s1 w1 s2 w2 where ww: "w = (s1, w1)" "w' = (s2, w2)"
    by (cases w; cases w')
  then have a: "ATTACHMENT key = Inr a"
    using d by (simp add: dialling_def)
  have "dialling ai n k a w0 key t (s2, w2) \<and> stays a w1 w2"
    by (rule ready_dials [of s ai n k a w0 key s1 w1 f t s2 w2]) (use s d f run ww in \<open>simp_all only: socks_stm_simps\<close>)
  with cur cur' a ww show "c = Some s \<and> (if t = s then dialling ai n k a w0 key s w' else dialling ai n k a w0 key t w')"
    by (auto simp: get_current_socks stays_def)
qed

section \<open>The life of a connection after its name was resolved\<close>

text \<open>
  From \<open>sw0\<close> on, the selector calls the handlers of the connection in object \<open>a\<close>, with either of its
  two descriptors, and in between anything may happen that leaves the object alone: the other
  connections, the administrators, the threads that resolve their names, and whatever they do to the
  selector and the world. The list holds the calls of \<open>connect\<close> that this connection made.
\<close>

inductive dialled :: "nat \<Rightarrow> st \<Rightarrow> (int \<times> u8 list) list \<Rightarrow> st \<Rightarrow> bool" for a sw0 where
  resolved: "dialled a sw0 [] sw0"
| own: "dialled a sw0 xs (s, w) \<Longrightarrow> ATTACHMENT key = Inr a \<Longrightarrow> ready r key (s, w) = Inr (s', w') \<Longrightarrow>
    w_events w' = w_events w @ es \<Longrightarrow> dialled a sw0 (xs @ attempts es) (s', w')"
| other: "dialled a sw0 xs (s, w) \<Longrightarrow> w_socks w' a = w_socks w a \<Longrightarrow> dialled a sw0 xs (s', w')"

definition dialling_some :: "addrinfo \<Rightarrow> nat \<Rightarrow> nat \<Rightarrow> (int \<times> u8 list) list \<Rightarrow> world \<Rightarrow> bool" where
  "dialling_some ai n a xs w \<longleftrightarrow> length xs \<le> n \<and> snd ` set xs \<subseteq> {take (ai_addrlen ai) (ai_addr ai)} \<and>
     (\<forall>o5. w_socks w a = Some o5 \<longrightarrow>
        (\<exists>c. s5_stm_current o5 = Some c \<and> c \<le> ERROR \<and> on_the_way ai n (length xs) a c w))"

lemma dialling_start:
  "dialling ai n k a w key c (s, w) \<longleftrightarrow> ATTACHMENT key = Inr a \<and> k \<le> n \<and> on_the_way ai n k a c w"
  by (auto simp: dialling_def)

lemma ready_dials_some:
  assumes run: "ready r key (s, w) = Inr (s', w')" and a: "ATTACHMENT key = Inr a"
    and some: "dialling_some ai n a xs w" and es: "w_events w' = w_events w @ es"
  shows "dialling_some ai n a (xs @ attempts es) w'"
proof -
  obtain on_ready t s1 w1 where h: "stm_handler on_ready (socks_stm key) (s, w) = Inr (t, s1, w1)"
      "on_ready = sd_on_read_ready \<or> on_ready = sd_on_write_ready \<or> on_ready = sd_on_block_ready"
    and close: "(s', w') = (s1, w1) \<or> socks5_done key (s1, w1) = Inr (s', w')"
    using run by (cases r) (auto simp: socks5_read_def socks5_write_def socks5_block_def socks5_ready_def
        stm_handler_read_def stm_handler_write_def stm_handler_block_def elim!: bind_res_InrE split: if_splits)
  obtain o5 where o5: "w_socks w a = Some o5"
    using h(1) a by (auto simp: stm_handler_def handle_first_def socks_current_def elim!: bind_res_InrE split: if_splits)
  then obtain c where "s5_stm_current o5 = Some c" "c \<le> ERROR" "on_the_way ai n (length xs) a c w" "length xs \<le> n"
    using some by (auto simp: dialling_some_def)
  then have "dials.inv key ai n (length xs) a w (s, w)"
    using a o5 by (simp add: dials.inv_def socks_current_def get_socks_def dialling_start)
  from dials.stm_handler_inv [OF h(2) this h(1)]
  have t: "t \<le> ERROR" "get_current (socks_current key) (s1, w1) = Inr (Some t)"
      "dialling ai n (length xs) a w key t (s1, w1)"
    by auto
  have kept: "keeps_target a w1 w'"
    using close socks5_done_target by auto
  have d: "dialling ai n (length xs) a w key t (s', w')"
    using t(3) kept by (rule dialling_keeps)
  have "s5_stm_current o' = Some t" if "w_socks w' a = Some o'" for o'
    using that kept t(2) a by (auto simp: keeps_target_def target_def get_current_socks)
  with d es some t(1) show ?thesis
    by (auto simp: dialling_def dialling_some_def)
qed

lemma on_the_way_same: "w_socks w' a = w_socks w a \<Longrightarrow> on_the_way ai n k a c w' = on_the_way ai n k a c w"
  by (simp add: on_the_way_def aims_at_def at_most_def)

lemma dialled_some:
  assumes "dialled a sw0 xs sw" and "dialling_some ai n a [] (snd sw0)"
  shows "dialling_some ai n a xs (snd sw)"
  using assms
proof (induction rule: dialled.induct)
  case (own xs s w key r s' w' es)
  then show ?case
    using ready_dials_some [of r key s w s' w' a ai n xs es] by simp
next
  case (other xs s w w' s')
  then show ?case
    by (simp add: dialling_some_def on_the_way_same [of w' a w])
qed simp

section \<open>How often, and where\<close>

text \<open>C21. However many addresses the resolver answered for a name, a connection attempts at most as often as there
  are addresses, counting the retries of \<open>request_connect\<close> and those of \<open>request_connecting\<close> after an attempt that
  was under way has failed, whatever the selector delivers and the system calls answer. And every attempt goes to the
  first address: \<open>next_ip\<close> moves its pointer, but copies the head of the list. (Where a further
  address is left after two attempts that were under way have failed, there is no attempt but the fault of
  \<open>second_retry_freed\<close> below.)\<close>

theorem retries_first_address:
  assumes "dialled a (s, w) xs (s', w')" and "w_socks w a = Some o5" and "s5_stm_current o5 = Some REQUEST_RESOLV"
    and "s5_server_resolution o5 = ai # ais" and "s5_current_server_resolution o5 = ai # ais"
  shows "length xs \<le> length (ai # ais) \<and>
    (\<forall>(fd, addr) \<in> set xs. addr = take (ai_addrlen ai) (ai_addr ai))"
proof -
  have "REQUEST_RESOLV \<le> ERROR"
    by (simp add: socks_state_defs)
  with assms(2-5) have "dialling_some ai (length (ai # ais)) a [] w"
    by (simp add: dialling_some_def on_the_way_def at_most_def)
  with dialled_some [OF assms(1), of ai "length (ai # ais)"]
  have "dialling_some ai (length (ai # ais)) a xs w'"
    by simp
  then show ?thesis
    by (auto simp: dialling_some_def)
qed

text \<open>
  A name with two addresses, whose connection waits for its resolver: the first attempt is under way,
  then \<open>SO_ERROR\<close> shows that it was refused, and the second one is under way.
\<close>

definition waiting_world :: world where
  "waiting_world = put_socks 0 (resolved_socks\<lparr>s5_stm_current := Some REQUEST_RESOLV\<rparr>)
     (example_world [NewSocket 3, NioSet True, ConnectFails EINPROGRESS, SockError 111,
        NewSocket 3, NioSet True, ConnectFails EINPROGRESS])"

definition dest_key :: key where
  "dest_key = \<lparr>k_fd = 3, k_data = Some (Socks_at 0)\<rparr>"

lemma waiting_run:
  "case ready Unblocked example_key (example_selector, waiting_world) of
     Inl _ \<Rightarrow> False
   | Inr (s1, w1) \<Rightarrow> (case ready Writable dest_key (s1, w1) of
        Inl _ \<Rightarrow> False
      | Inr (s2, w2) \<Rightarrow> attempts (w_events w1) = [(3, [2, 0, 0, 80, 127, 0, 0, 1])] \<and>
          take (length (w_events w1)) (w_events w2) = w_events w1 \<and>
          attempts (drop (length (w_events w1)) (w_events w2)) = [(3, [2, 0, 0, 80, 127, 0, 0, 1])])"
  by code_simp

theorem retries_first_address_witness:
  "\<exists>xs s w. dialled 0 (example_selector, waiting_world) xs (s, w) \<and> length xs = 2 \<and>
     (\<forall>(fd, addr) \<in> set xs. addr = ai_addr (hd two_addresses))"
proof -
  let ?x = "(3, [2, 0, 0, 80, 127, 0, 0, 1])"
  obtain s1 w1 where 1: "ready Unblocked example_key (example_selector, waiting_world) = Inr (s1, w1)"
    using waiting_run by (auto simp del: ready.simps split: sum.split_asm)
  then obtain s2 w2 where 2: "ready Writable dest_key (s1, w1) = Inr (s2, w2)"
    using waiting_run by (cases "ready Writable dest_key (s1, w1)") (auto simp del: ready.simps)
  note run = 1 2
  have ev: "attempts (w_events w1) = [?x]" "take (length (w_events w1)) (w_events w2) = w_events w1"
      "attempts (drop (length (w_events w1)) (w_events w2)) = [?x]"
    using waiting_run 1 2 by (simp_all del: ready.simps)
  have "dialled 0 (example_selector, waiting_world) ([] @ attempts (w_events w1)) (s1, w1)"
    by (rule dialled.own [OF dialled.resolved _ run(1)])
      (simp_all add: ATTACHMENT_def example_key_def waiting_world_def put_socks_def example_world_def)
  then have d: "dialled 0 (example_selector, waiting_world)
      (([] @ attempts (w_events w1)) @ attempts (drop (length (w_events w1)) (w_events w2))) (s2, w2)"
    by (rule dialled.own [OF _ _ run(2)]) (simp add: ATTACHMENT_def dest_key_def, metis ev(2) append_take_drop_id)
  have "w_socks waiting_world 0 = Some (resolved_socks\<lparr>s5_stm_current := Some REQUEST_RESOLV\<rparr>)"
    by (simp add: waiting_world_def put_socks_def)
  from retries_first_address [OF d this, of "hd two_addresses" "tl two_addresses"] d ev(1,3) show ?thesis
    by (intro exI [of _ "[?x, ?x]"]) (auto simp: resolved_socks_def two_addresses_def)
qed

text \<open>
  With four addresses, the third attempt is not made: the second retry unregisters a descriptor for the
  second time, \<open>socks5_close\<close> takes that for the end of the connection and frees the object, which
  \<open>request_connect\<close> goes on to use.
\<close>

definition four_addresses_world :: world where
  "four_addresses_world = put_socks 0 (resolved_socks\<lparr>s5_stm_current := Some REQUEST_RESOLV,
       s5_server_resolution := two_addresses @ two_addresses,
       s5_current_server_resolution := two_addresses @ two_addresses\<rparr>)
     (example_world [NewSocket 3, NioSet True, ConnectFails EINPROGRESS, SockError 111,
        NewSocket 3, NioSet True, ConnectFails EINPROGRESS, SockError 111])"

lemma second_retry_freed:
  "ready_all [(Unblocked, example_key), (Writable, dest_key), (Writable, dest_key)]
     (example_selector, four_addresses_world) = Inl UseAfterFree"
proof -
  have "case ready_all [(Unblocked, example_key), (Writable, dest_key), (Writable, dest_key)]
      (example_selector, four_addresses_world) of Inl e \<Rightarrow> e = UseAfterFree | Inr _ \<Rightarrow> False"
    by code_simp
  then show ?thesis
    by (simp del: ready_all.simps split: sum.splits)
qed

end
