(* ===== verification/Ownership.thy ===== *)
theory Ownership
  imports Socks5 MngHandler
begin

text \<open>
  Whose entries of the selector's table are whose: an entry belongs to the object that it was registered with. What
  the calls of the selector that the handlers make change of the table, when the descriptor belongs to the object
  that they are made for.
\<close>

section \<open>Descriptors of an object\<close>

fun home :: "object \<Rightarrow> hname" where
  "home (Socks_at _) = H_socks5"
| "home (Mng_at _) = H_mng"

text \<open>
  \<open>F\<close> is a set of descriptors that the object \<open>x\<close> may deal with: the descriptor is one of them, and the table has
  no entry for it or that of the object.
\<close>

definition mine :: "int set \<Rightarrow> object \<Rightarrow> sel \<Rightarrow> int \<Rightarrow> bool" where
  "mine F x s fd \<longleftrightarrow> (0 \<le> fd \<longrightarrow> fd \<in> F \<and> (\<forall>i h d. registered s (nat fd) = Some (i, h, d) \<longrightarrow>
     h = Some (home x) \<and> d = Some x))"

text \<open>The table: entries of others stay, and what is free or belongs to \<open>x\<close> does so again.\<close>

definition table_kept :: "int set \<Rightarrow> object \<Rightarrow> sel \<Rightarrow> sel \<Rightarrow> bool" where
  "table_kept F x s s' \<longleftrightarrow> (\<forall>n. if mine F x s (int n) then mine F x s' (int n) else registered s' n = registered s n)"

lemma table_kept_refl [simp]: "table_kept F x s s"
  by (simp add: table_kept_def)

lemma table_kept_trans: "table_kept F x s s' \<Longrightarrow> table_kept F x s' s'' \<Longrightarrow> table_kept F x s s''"
  unfolding table_kept_def mine_def by (metis (no_types, lifting) nat_int of_nat_0_le_iff)

lemma table_kept_mine: "table_kept F x s s' \<Longrightarrow> mine F x s fd \<Longrightarrow> mine F x s' fd"
  unfolding table_kept_def mine_def by (metis int_nat_eq nat_int of_nat_0_le_iff)

section \<open>The table\<close>

lemma registered_set_item:
  assumes "set_item s k it = Inr s'"
  shows "registered s' = (registered s)(k :=
    if ITEM_USED it then Some (it_interest it, it_handler it, it_data it) else None)"
proof
  obtain fds where fds: "s_fds s = Some fds" "k < length fds" "s' = s\<lparr>s_fds := Some (fds[k := it])\<rparr>"
    using assms by (auto simp: set_item_def store_at_Inr_iff elim!: bind_res_InrE split: option.splits)
  show "registered s' n = ((registered s)(k :=
      if ITEM_USED it then Some (it_interest it, it_handler it, it_data it) else None)) n" for n
    using fds by (simp add: registered_def get_item_def load_at_def nth_list_update)
qed

lemma registered_same_table [simp]:
  "registered (s\<lparr>s_max_fd := m\<rparr>) = registered s" "registered (items_update_fdset_for_fd s it) = registered s"
  by (auto simp: fun_eq_iff registered_def get_item_def items_update_fdset_for_fd_def Let_def)

lemma get_item_registered:
  "get_item s k = Inr it \<Longrightarrow> registered s k =
     (if ITEM_USED it then Some (it_interest it, it_handler it, it_data it) else None)"
  by (simp add: registered_def)

text \<open>An entry of the connection is written.\<close>

lemma table_written:
  assumes "registered s' = (registered s)(k := e)" and "mine F x s (int k)"
    and "\<And>i h d. e = Some (i, h, d) \<Longrightarrow> h = Some (home x) \<and> d = Some x"
  shows "table_kept F x s s'"
  using assms by (auto simp: table_kept_def mine_def)

lemma set_interest_table:
  assumes "selector_set_interest s fd i = Inr (ss, s')" and "mine F x s fd"
  shows "table_kept F x s s'"
proof (cases "s' = s")
  case False
  then obtain it s1 where it: "0 \<le> fd" "get_item s (nat fd) = Inr it" "ITEM_USED it"
      "set_item s (nat fd) (it\<lparr>it_interest := i\<rparr>) = Inr s1" "registered s' = registered s1"
    using assms(1) by (auto simp: selector_set_interest_def INVALID_FD_def Let_def elim!: bind_res_InrE split: if_splits)
  then have "it_handler it = Some (home x)" "it_data it = Some x"
    using assms(2) by (auto simp: mine_def get_item_registered)
  then show ?thesis
    using it assms(2) registered_set_item [OF it(4)] by (intro table_written [of s' s "nat fd"]) (auto split: if_splits)
qed simp

lemma set_interest_key_table:
  "selector_set_interest_key s key i = Inr (ss, s') \<Longrightarrow> mine F x s (k_fd key) \<Longrightarrow> table_kept F x s s'"
  by (auto simp: selector_set_interest_key_def intro: set_interest_table split: if_splits)

lemma no_growth: "ensure_capacity False junk s n = Inr (r, s1) \<Longrightarrow> s1 = s"
  by (auto simp: ensure_capacity_def elim!: bind_res_InrE split: if_splits)

lemma register_table:
  assumes "selector_register False junk s fd (Some h) i (Some x) = Inr (ss, s')" and "mine F x s fd" and "h = home x"
  shows "table_kept F x s s'"
proof (cases "registered s' = registered s")
  case True
  then show ?thesis by (simp add: table_kept_def mine_def)
next
  case False
  then obtain s0 it s1 where it: "0 \<le> fd" "registered s0 = registered s" "set_item s0 (nat fd) it = Inr s1"
      "registered s' = registered s1" "it_handler it = Some (home x)" "it_data it = Some x"
    using assms(1,3) no_growth
    by (fastforce simp: selector_register_def INVALID_FD_def Let_def elim!: bind_res_InrE split: if_splits)
  then show ?thesis
    using assms(2) registered_set_item [OF it(3)] by (intro table_written [of s' s "nat fd"]) (auto split: if_splits)
qed

text \<open>\<open>unregister\<close> calls the close handler of the entry, with the object, and removes the entry.\<close>

lemma unregister_entry:
  assumes run: "selector_unregister_fd close_handler fd (s, w) = Inr (ss, s', w')" and fd: "mine F x s fd"
  obtains (nothing) "s' = s" "w' = w"
  | (closed) key f s2 where "k_data key = Some x" "close_handler (home x) = Some f" "f key (s, w) = Inr (s2, w')"
      "0 \<le> fd" "registered s' = (registered s2)(nat fd := None)"
proof (cases "s' = s \<and> w' = w")
  case False
  obtain it h w1 s2 s3 it2 where u: "0 \<le> fd" "get_item s (nat fd) = Inr it" "ITEM_USED it" "it_handler it = Some h"
      "(case close_handler h of None \<Rightarrow> Inr (s, w) | Some f \<Rightarrow> f \<lparr>k_fd = it_fd it, k_data = it_data it\<rparr> (s, w)) = Inr (s2, w')"
      "set_item (items_update_fdset_for_fd s2 it2) (nat fd) (item_init zero_item) = Inr s3"
      "registered s' = registered s3"
    using run False
    by (auto simp: selector_unregister_fd_def INVALID_FD_def Let_def elim!: bind_res_InrE split: if_splits option.splits)
  have "h = home x" "it_data it = Some x"
    using fd u(1-4) by (auto simp: mine_def get_item_registered)
  moreover have "close_handler (home x) \<noteq> None"
    by (cases x) simp_all
  moreover have "registered s' = (registered s2)(nat fd := None)"
    using u(7) registered_set_item [OF u(6)] by (simp add: ITEM_USED_def item_init_def)
  ultimately show ?thesis
    using u(1,5) closed [of "\<lparr>k_fd = it_fd it, k_data = it_data it\<rparr>"] by auto
qed (rule nothing; simp)

end
