(* ===== verification/Isolation.thy ===== *)
theory Isolation
  imports Ownership
begin

text \<open>
  One connection does not reach into another: whatever a handler of the connection in object \<open>b\<close> does, down to
  its end or its retries, the objects of all others, the configuration and the table entries of all others are
  as before. What that rests on is that the descriptors of the connection are registered for it, and that
  \<open>socket\<close> does not answer the number of a descriptor that is open.
\<close>

section \<open>Descriptors of a connection\<close>

definition own :: "int set \<Rightarrow> nat \<Rightarrow> int \<Rightarrow> st \<Rightarrow> bool" where
  "own F b k sw \<longleftrightarrow> mine F (Socks_at b) (fst sw) k \<and>
     (\<forall>o5. w_socks (snd sw) b = Some o5 \<longrightarrow> mine F (Socks_at b) (fst sw) (s5_client_fd o5) \<and> mine F (Socks_at b) (fst sw) (s5_final_server_fd o5)) \<and>
     (\<forall>fd. NewSocket fd \<in> set (w_answers (snd sw)) \<longrightarrow> mine F (Socks_at b) (fst sw) fd)"

text \<open>The world: the objects of others stay.\<close>

definition others_kept :: "nat \<Rightarrow> world \<Rightarrow> world \<Rightarrow> bool" where
  "others_kept b w w' \<longleftrightarrow> (\<forall>a. a \<noteq> b \<longrightarrow> w_socks w' a = w_socks w a) \<and> w_mngs w' = w_mngs w \<and> w_config w' = w_config w \<and>
     w_next w' = w_next w"

definition isolated :: "int set \<Rightarrow> nat \<Rightarrow> int \<Rightarrow> st \<Rightarrow> st \<Rightarrow> bool" where
  "isolated F b k sw sw' \<longleftrightarrow> (own F b k sw \<longrightarrow>
     own F b k sw' \<and> table_kept F (Socks_at b) (fst sw) (fst sw') \<and> others_kept b (snd sw) (snd sw'))"

lemma others_kept_refl [simp]: "others_kept b w w"
  by (simp add: others_kept_def)

lemma isolated_refl [simp]: "isolated F b k sw sw"
  by (simp add: isolated_def)

lemma isolated_trans: "isolated F b k sw sw' \<Longrightarrow> isolated F b k sw' sw'' \<Longrightarrow> isolated F b k sw sw''"
  by (auto simp: isolated_def others_kept_def intro: table_kept_trans)

section \<open>The calls of the operating system\<close>

definition same_objects :: "world \<Rightarrow> world \<Rightarrow> bool" where
  "same_objects w w' \<longleftrightarrow> w_socks w' = w_socks w \<and> w_mngs w' = w_mngs w \<and> w_config w' = w_config w \<and>
     w_next w' = w_next w \<and> set (w_answers w') \<subseteq> set (w_answers w)"

named_theorems same_dest

lemma same_objects_refl [simp]: "same_objects w w"
  by (simp add: same_objects_def)

lemma same_objects_emit [simp]: "same_objects w (emit e w') = same_objects w w'"
  by (simp add: same_objects_def emit_def)

lemma same_objects_metrics [simp]: "same_objects w (w'\<lparr>w_metrics := m\<rparr>) = same_objects w w'"
  by (simp add: same_objects_def)

lemma same_objects_trans: "same_objects w w' \<Longrightarrow> same_objects w' w'' \<Longrightarrow> same_objects w w''"
  by (auto simp: same_objects_def)

lemma next_answer_objects [same_dest]: "next_answer w = Inr (x, w') \<Longrightarrow> same_objects w w' \<and> x \<in> set (w_answers w)"
  by (auto simp: next_answer_def same_objects_def split: list.splits)

lemma sys_recv_same [same_dest]: "sys_recv sz w = Inr (r, w') \<Longrightarrow> same_objects w w'"
  by (auto simp: sys_recv_def elim!: bind_res_InrE dest: next_answer_objects split: answer.splits if_splits)

lemma recv_into_same [same_dest]: "recv_into b w = Inr (bs, n, b', w') \<Longrightarrow> same_objects w w'"
  by (auto simp: recv_into_def elim!: bind_res_InrE dest: sys_recv_same split: option.splits)

lemma send_from_same [same_dest]: "send_from fd b w = Inr (bs, n, w') \<Longrightarrow> same_objects w w'"
  by (auto simp: send_from_def elim!: bind_res_InrE dest!: next_answer_objects split: answer.splits if_splits)

lemma sys_bytes_same [same_dest]: "sys_bytes n w = Inr (bs, w') \<Longrightarrow> same_objects w w'"
  by (auto simp: sys_bytes_def elim!: bind_res_InrE dest: next_answer_objects split: answer.splits if_splits)

lemma sys_memory_same [same_dest]: "sys_memory w = Inr (mem, w') \<Longrightarrow> same_objects w w'"
  by (auto simp: sys_memory_def elim!: bind_res_InrE dest: next_answer_objects split: answer.splits)

lemma selector_fd_set_nio_same [same_dest]: "selector_fd_set_nio w = Inr (good, w') \<Longrightarrow> same_objects w w'"
  by (auto simp: selector_fd_set_nio_def elim!: bind_res_InrE dest: next_answer_objects split: answer.splits)

lemma log_conn_same [same_dest]: "log_conn a status w = Inr w' \<Longrightarrow> same_objects w w'"
  by (auto simp: log_conn_def elim!: bind_res_InrE)

lemma sys_connect_same [same_dest]: "sys_connect a w = Inr (e, w') \<Longrightarrow> same_objects w w'"
  by (auto simp: sys_connect_def Let_def elim!: bind_res_InrE dest!: next_answer_objects split: answer.splits)

lemma auth_process_same:
  "auth_process a data wb w1 = Inr (t, data', wb', w2) \<Longrightarrow> same_objects w w1 \<Longrightarrow> same_objects w w2"
  by (auto simp: auth_process_def check_credentials_def Let_def elim!: bind_res_InrE)

section \<open>The end of an entry\<close>

text \<open>\<open>unregister\<close> calls the close handler of the entry, which is \<open>socks5_close\<close> on the object of the connection.\<close>

lemma socks5_close_kept:
  "socks5_close key (s, w) = Inr (s', w') \<Longrightarrow> ATTACHMENT key = Inr b \<Longrightarrow> s' = s \<and> others_kept b w w' \<and>
     w_answers w' = w_answers w \<and>
     (\<forall>o'. w_socks w' b = Some o' \<longrightarrow> (\<exists>o5. w_socks w b = Some o5 \<and> s5_client_fd o' = s5_client_fd o5 \<and>
        s5_final_server_fd o' = s5_final_server_fd o5))"
  by (auto simp: socks5_close_def socks5_free_def others_kept_def put_socks_def elim!: bind_res_InrE split: if_splits)

lemma own_kept:
  assumes "own F b k (s, w)" and "table_kept F (Socks_at b) s s'" and "set (w_answers w') \<subseteq> set (w_answers w)"
    and "\<forall>o'. w_socks w' b = Some o' \<longrightarrow> mine F (Socks_at b) s (s5_client_fd o') \<and> mine F (Socks_at b) s (s5_final_server_fd o')"
  shows "own F b k (s', w')"
  using assms by (auto simp: own_def intro: table_kept_mine)

lemma unregister_isolated:
  assumes run: "selector_unregister_fd close_handler fd (s, w) = Inr (ss, s', w')" and fd: "mine F (Socks_at b) s fd"
    and own: "own F b k (s, w)"
  shows "own F b k (s', w') \<and> table_kept F (Socks_at b) s s' \<and> others_kept b w w'"
  using run fd
proof (cases rule: unregister_entry)
  case nothing
  with own show ?thesis by (simp add: others_kept_def)
next
  case (closed key f s2)
  then have "socks5_close key (s, w) = Inr (s2, w')" "ATTACHMENT key = Inr b"
    by (simp_all add: ATTACHMENT_def)
  from socks5_close_kept [OF this] have c: "s2 = s" "others_kept b w w'" "w_answers w' = w_answers w"
      "\<forall>o'. w_socks w' b = Some o' \<longrightarrow> (\<exists>o5. w_socks w b = Some o5 \<and> s5_client_fd o' = s5_client_fd o5 \<and>
        s5_final_server_fd o' = s5_final_server_fd o5)"
    by auto
  have "table_kept F (Socks_at b) s s'"
    using fd closed(4,5) c(1) by (intro table_written [of s' s "nat fd" None]) simp_all
  moreover from this have "own F b k (s', w')"
    using own c(3,4) by (intro own_kept [OF own]) (fastforce simp: own_def)+
  ultimately show ?thesis using c(2) by simp
qed

section \<open>Handlers that leave the descriptors alone\<close>

definition calm :: "nat \<Rightarrow> world \<Rightarrow> world \<Rightarrow> bool" where
  "calm b w w' \<longleftrightarrow> others_kept b w w' \<and> set (w_answers w') \<subseteq> set (w_answers w) \<and>
     (\<forall>o'. w_socks w' b = Some o' \<longrightarrow> (\<exists>o5. w_socks w b = Some o5 \<and> s5_client_fd o' = s5_client_fd o5 \<and>
        s5_final_server_fd o' = s5_final_server_fd o5))"

lemma calm_isolated:
  assumes "own F b k (s, w) \<Longrightarrow> table_kept F (Socks_at b) s s' \<and> calm b w w'"
  shows "isolated F b k (s, w) (s', w')"
proof -
  have "own F b k (s', w')" if o: "own F b k (s, w)"
    using assms [OF o] o by (intro own_kept [OF o]) (fastforce simp: calm_def own_def)+
  with assms show ?thesis by (auto simp: isolated_def calm_def)
qed

lemma calm_same: "same_objects w w' \<Longrightarrow> calm b w w'"
  by (auto simp: same_objects_def calm_def others_kept_def)

lemma calm_put:
  assumes "calm b w w1" and "w_socks w1 b = Some o5" and "s5_client_fd o' = s5_client_fd o5"
    and "s5_final_server_fd o' = s5_final_server_fd o5"
  shows "calm b w (put_socks b o' w1)"
  using assms by (fastforce simp: calm_def others_kept_def put_socks_def)

lemma calm_put_same:
  assumes "same_objects w w1" and "w_socks w b = Some o5" and "s5_client_fd o' = s5_client_fd o5"
    and "s5_final_server_fd o' = s5_final_server_fd o5"
  shows "calm b w (put_socks b o' w1)"
  using assms by (intro calm_put [OF calm_same]) (auto simp: same_objects_def)

lemma calm_emit: "calm b w (emit e w') = calm b w w'" "w_socks (emit e w') = w_socks w'"
  by (auto simp: calm_def others_kept_def emit_def)

lemma set_buf_fds [simp]:
  "s5_client_fd (set_buf r b o5) = s5_client_fd o5" "s5_final_server_fd (set_buf r b o5) = s5_final_server_fd o5"
  by (cases r; simp)+

lemma ownD:
  assumes "own F b k (s, w)"
  shows "mine F (Socks_at b) s k" "w_socks w b = Some o5 \<Longrightarrow> mine F (Socks_at b) s (s5_client_fd o5)"
    "w_socks w b = Some o5 \<Longrightarrow> mine F (Socks_at b) s (s5_final_server_fd o5)"
  using assms by (auto simp: own_def)

lemma calm_put_iff [simp]:
  "same_objects w w1 \<Longrightarrow> w_socks w b = Some o5 \<Longrightarrow> calm b w (put_socks b o' w1) \<longleftrightarrow>
     s5_client_fd o' = s5_client_fd o5 \<and> s5_final_server_fd o' = s5_final_server_fd o5"
  by (auto simp: calm_put_same) (auto simp: calm_def put_socks_def)

lemma own_tables:
  assumes "own F b k (s, w)"
  shows "selector_set_interest s k i = Inr (ss, s') \<Longrightarrow> table_kept F (Socks_at b) s s'"
    "k_fd key = k \<Longrightarrow> selector_set_interest_key s key i = Inr (ss, s') \<Longrightarrow> table_kept F (Socks_at b) s s'"
    "selector_set_interest s (s5_client_fd o5) i = Inr (ss, s') \<Longrightarrow> w_socks w b = Some o5 \<Longrightarrow> table_kept F (Socks_at b) s s'"
    "selector_set_interest s (s5_final_server_fd o5) i = Inr (ss, s') \<Longrightarrow> w_socks w b = Some o5 \<Longrightarrow> table_kept F (Socks_at b) s s'"
  using ownD [OF assms] set_interest_table set_interest_key_table by blast+

lemma hello_read_calm:
  assumes run: "hello_read key (s, w) = Inr (t, s', w')" and a: "ATTACHMENT key = Inr b" and own: "own F b (k_fd key) (s, w)"
  shows "table_kept F (Socks_at b) s s' \<and> calm b w w'"
  using run a by (auto simp: hello_read_def Let_def elim!: bind_res_InrE
      dest!: same_dest own_tables(2) [OF own refl] split: if_splits prod.splits)

lemma hello_write_calm:
  assumes run: "hello_write key (s, w) = Inr (t, s', w')" and a: "ATTACHMENT key = Inr b" and own: "own F b (k_fd key) (s, w)"
  shows "table_kept F (Socks_at b) s s' \<and> calm b w w'"
  using run a by (auto simp: hello_write_def Let_def calm_same elim!: bind_res_InrE
      dest!: same_dest own_tables(1) [OF own] split: if_splits prod.splits)

lemma auth_read_calm:
  assumes run: "auth_read key (s, w) = Inr (t, s', w')" and a: "ATTACHMENT key = Inr b" and own: "own F b (k_fd key) (s, w)"
  shows "table_kept F (Socks_at b) s s' \<and> calm b w w'"
  using run a by (auto simp: auth_read_def Let_def elim!: bind_res_InrE
      dest!: same_dest own_tables(2) [OF own refl] auth_process_same [where w = w] split: if_splits prod.splits)

lemma auth_write_calm:
  assumes run: "auth_write key (s, w) = Inr (t, s', w')" and a: "ATTACHMENT key = Inr b" and own: "own F b (k_fd key) (s, w)"
  shows "table_kept F (Socks_at b) s s' \<and> calm b w w'"
  using run a by (auto simp: auth_write_def Let_def calm_same elim!: bind_res_InrE
      dest!: same_dest own_tables(2) [OF own refl] split: if_splits prod.splits option.splits)

lemma request_write_calm:
  assumes run: "request_write key (s, w) = Inr (t, s', w')" and a: "ATTACHMENT key = Inr b" and own: "own F b (k_fd key) (s, w)"
  shows "table_kept F (Socks_at b) s s' \<and> calm b w w'"
proof -
  have two: "table_kept F (Socks_at b) s s2" if "selector_set_interest s (s5_client_fd o5) i = Inr (r1, s1)"
      "selector_set_interest s1 fd j = Inr (r2, s2)" "w_socks w b = Some o5"
      "fd = s5_client_fd o5 \<or> fd = s5_final_server_fd o5" for o5 i r1 s1 fd j r2 s2
    using own_tables(3) [OF own that(1,3)] set_interest_table [OF that(2)] ownD(2,3) [OF own that(3)] that(4)
    by (metis table_kept_mine table_kept_trans)
  show ?thesis
    using run a by (auto simp: request_write_def Let_def calm_same elim!: bind_res_InrE dest!: same_dest
        split: if_splits prod.splits) (blast intro: two own_tables(3) [OF own])+
qed

lemma sniff_data_calm:
  assumes "sniff_data b bs w1 = Inr w2" and "calm b w w1"
  shows "calm b w w2"
proof -
  obtain o5 w3 sn l where "w_socks w1 b = Some o5" "same_objects w1 w3"
      "w2 = put_socks b (o5\<lparr>s5_sniffer := sn\<rparr>) (w3\<lparr>w_sniffed := l\<rparr>)"
    using assms(1) by (auto simp: sniff_data_def elim!: bind_res_InrE dest!: same_dest)
  with assms(2) show ?thesis
    by (auto simp: calm_def others_kept_def same_objects_def put_socks_def)
qed

lemma copy_end_calm:
  assumes "copy_end b sd op shut op' shut' w1 = Inr w2" and "calm b w w1"
  shows "calm b w w2"
proof -
  have fds: "s5_client_fd (set_copy x d o5) = s5_client_fd o5" "s5_final_server_fd (set_copy x d o5) = s5_final_server_fd o5"
      for x d o5 by (cases x; simp)+
  show ?thesis
    using assms by (auto simp: copy_end_def Let_def calm_emit fds elim!: bind_res_InrE split: if_splits intro!: calm_put)
qed

text \<open>The two sides of the copying state name the two descriptors of the object.\<close>

lemma interests_table:
  assumes "copy_determine_interests s o5 data = Inr (r, s')" and "mine F (Socks_at b) s (s5_client_fd o5)"
    and "mine F (Socks_at b) s (s5_final_server_fd o5)"
  shows "table_kept F (Socks_at b) s s'"
proof -
  have "mine F (Socks_at b) s (fd_of (cd_fd data) o5)"
    using assms(2,3) by (cases "cd_fd data") simp_all
  with assms(1) show ?thesis
    by (auto simp: copy_determine_interests_def Let_def elim!: bind_res_InrE intro: set_interest_table)
qed

lemma copy_finish_table:
  assumes "copy_finish b sd ret (s, w) = Inr (t, s', w')" and "\<And>o5. w_socks w b = Some o5 \<Longrightarrow>
    mine F (Socks_at b) s (s5_client_fd o5) \<and> mine F (Socks_at b) s (s5_final_server_fd o5)"
  shows "w' = w \<and> table_kept F (Socks_at b) s s'"
proof -
  obtain o5 data other s1 r1 r2 where o5: "w_socks w b = Some o5" "copy_determine_interests s o5 data = Inr (r1, s1)"
      "copy_determine_interests s1 o5 other = Inr (r2, s')" "w' = w"
    using assms(1) by (auto simp: copy_finish_def elim!: bind_res_InrE)
  have "table_kept F (Socks_at b) s s1" "table_kept F (Socks_at b) s1 s'"
    using interests_table [OF o5(2)] interests_table [OF o5(3)] assms(2) [OF o5(1)] table_kept_mine by blast+
  with o5(4) show ?thesis by (auto intro: table_kept_trans)
qed

lemma copy_finish_calm:
  assumes "copy_finish b sd ret (s, w1) = Inr (t, s', w')" and "calm b w w1" and "own F b k (s, w)"
  shows "table_kept F (Socks_at b) s s' \<and> calm b w w'"
proof -
  have "mine F (Socks_at b) s (s5_client_fd o5) \<and> mine F (Socks_at b) s (s5_final_server_fd o5)" if "w_socks w1 b = Some o5" for o5
    using assms(2) ownD(2,3) [OF assms(3)] that by (fastforce simp: calm_def)
  with copy_finish_table [OF assms(1)] assms(2) show ?thesis by blast
qed

lemma calm_metrics: "calm b w (w'\<lparr>w_metrics := m\<rparr>) = calm b w w'"
  by (simp add: calm_def others_kept_def)

lemma copy_read_calm:
  assumes run: "copy_read key (s, w) = Inr (t, s', w')" and a: "ATTACHMENT key = Inr b" and own: "own F b (k_fd key) (s, w)"
  shows "table_kept F (Socks_at b) s s' \<and> calm b w w'"
proof -
  obtain o5 sd c data bs n b1 w1 where o5: "w_socks w b = Some o5" "copy_of sd o5 = Inr data"
      "recv_into (buf (cd_rb data) o5) w = Inr (bs, n, b1, w1)"
    and rest: "(let w = put_socks b (set_buf (cd_rb data) b1 o5) w1 in
     if 0 < n then
       bind_res (buffer_write_adv b1 n) (\<lambda>b2.
       let w = put_socks b (set_buf (cd_rb data) b2 o5) w;
           w = (if c then w\<lparr>w_metrics := add_sent_byte n (w_metrics w)\<rparr> else w) in
       bind_res (sniff_data b bs w) (\<lambda>w. copy_finish b sd COPY (s, w)))
     else
       bind_res (copy_end b sd OP_READ ShutRead OP_WRITE ShutWrite w) (\<lambda>w.
       copy_finish b sd DONE (s, w))) = Inr (t, s', w')"
    using run a by (auto simp: copy_read_def elim!: bind_res_InrE)
  have put: "calm b w (put_socks b (set_buf r b3 o5) w1)" for r b3
    using o5(1) recv_into_same [OF o5(3)] by simp
  obtain w2 ret where "calm b w w2" "copy_finish b sd ret (s, w2) = Inr (t, s', w')"
  proof (cases "0 < n")
    case True
    with rest that show ?thesis
      by (auto simp: Let_def calm_metrics put elim!: bind_res_InrE dest!: sniff_data_calm [where w = w] split: if_splits)
  next
    case False
    with rest that show ?thesis
      by (auto simp: Let_def put elim!: bind_res_InrE dest!: copy_end_calm [where w = w])
  qed
  with copy_finish_calm [OF _ _ own] show ?thesis by blast
qed

lemma copy_write_calm:
  assumes run: "copy_write key (s, w) = Inr (t, s', w')" and a: "ATTACHMENT key = Inr b" and own: "own F b (k_fd key) (s, w)"
  shows "table_kept F (Socks_at b) s s' \<and> calm b w w'"
proof -
  obtain o5 sd c data bs n w1 where o5: "w_socks w b = Some o5" "copy_of sd o5 = Inr data"
      "send_from (k_fd key) (buf (cd_wb data) o5) w = Inr (bs, n, w1)"
    and rest: "(if 0 \<le> n then
       bind_res (buffer_read_adv (buf (cd_wb data) o5) n) (\<lambda>b2.
       let w = put_socks b (set_buf (cd_wb data) b2 o5) w1;
           w = (if c then w\<lparr>w_metrics := add_received_bytes n (w_metrics w)\<rparr> else w) in
       bind_res (sniff_data b bs w) (\<lambda>w. copy_finish b sd COPY (s, w)))
     else
       bind_res (copy_end b sd OP_WRITE ShutWrite OP_READ ShutRead w1) (\<lambda>w.
       copy_finish b sd DONE (s, w))) = Inr (t, s', w')"
    using run a by (auto simp: copy_write_def elim!: bind_res_InrE)
  have put: "calm b w (put_socks b (set_buf r b3 o5) w1)" "calm b w w1" for r b3
    using o5(1) send_from_same [OF o5(3)] by (simp_all add: calm_same)
  obtain w2 ret where "calm b w w2" "copy_finish b sd ret (s, w2) = Inr (t, s', w')"
  proof (cases "0 \<le> n")
    case True
    with rest that show ?thesis
      by (auto simp: Let_def calm_metrics put elim!: bind_res_InrE dest!: sniff_data_calm [where w = w] split: if_splits)
  next
    case False
    with rest that show ?thesis
      by (auto simp: Let_def put elim!: bind_res_InrE dest!: copy_end_calm [where w = w])
  qed
  with copy_finish_calm [OF _ _ own] show ?thesis by blast
qed

section \<open>The request\<close>

lemma isolated_calm_then:
  assumes "isolated F b k (s, w) (s1, w1)" and "own F b k (s1, w1) \<Longrightarrow> table_kept F (Socks_at b) s1 s2 \<and> calm b w1 w2"
  shows "isolated F b k (s, w) (s2, w2)"
  by (rule isolated_trans [OF assms(1) calm_isolated]) (rule assms(2))

lemma drop_old_fd_isolated:
  assumes "drop_old_fd b (s, w) = Inr (s', w')"
  shows "isolated F b k (s, w) (s', w')"
proof -
  have emit: "own F b k (s', emit e w1) = own F b k (s', w1)" "others_kept b w (emit e w1) = others_kept b w w1" for e w1
    by (simp_all add: own_def others_kept_def emit_def)
  show ?thesis
    using assms
    by (auto simp: drop_old_fd_def Let_def isolated_def emit elim!: bind_res_InrE split: if_splits
        dest!: unregister_isolated [OF _ ownD(3)])
qed

lemma open_socket_isolated:
  assumes "open_socket b w = Inr (r, w')"
  shows "isolated F b k (s, w) (s, w')"
proof -
  obtain o5 fd where o5: "w_socks w b = Some o5" "fd = -1 \<or> NewSocket fd \<in> set (w_answers w)"
      "w_socks w' = (w_socks w)(b \<mapsto> o5\<lparr>s5_final_server_fd := fd\<rparr>)" "w_mngs w' = w_mngs w"
      "w_next w' = w_next w" "w_config w' = w_config w" "set (w_answers w') \<subseteq> set (w_answers w)"
    using assms by (auto simp: open_socket_def put_socks_def same_objects_def elim!: bind_res_InrE dest!: same_dest
        split: answer.splits if_splits) blast+
  moreover have "mine F (Socks_at b) s (-1)" by (simp add: mine_def)
  ultimately show ?thesis
    by (auto simp: isolated_def own_def others_kept_def)
qed

lemma connect_in_progress_isolated:
  assumes "connect_in_progress key b (s, w) = Inr (t, s', w')"
  shows "isolated F b k (s, w) (s', w')"
proof (rule calm_isolated)
  assume own: "own F b k (s, w)"
  obtain o5 ss s1 where o5: "w_socks w b = Some o5" "selector_register False zero_item s (s5_final_server_fd o5)
      (Some H_socks5) OP_WRITE (Some (Socks_at b)) = Inr (ss, s1)"
      "s' = s1 \<or> (\<exists>r. selector_set_interest s1 (s5_client_fd o5) OP_NOOP = Inr (r, s'))" "w' = w"
    using assms by (auto simp: connect_in_progress_def elim!: bind_res_InrE split: if_splits)
  have one: "table_kept F (Socks_at b) s s1"
    using register_table [OF o5(2) ownD(3) [OF own o5(1)]] by simp
  then have "table_kept F (Socks_at b) s s'"
    using o5(3) set_interest_table table_kept_mine [OF one ownD(2) [OF own o5(1)]] table_kept_trans by blast
  with o5(4) show "table_kept F (Socks_at b) s s' \<and> calm b w w'" by (simp add: calm_same)
qed

lemma connect_reply_isolated:
  assumes "connect_reply b (s, w) = Inr (t, s', w')"
  shows "isolated F b k (s, w) (s', w')"
proof (rule calm_isolated)
  assume own: "own F b k (s, w)"
  show "table_kept F (Socks_at b) s s' \<and> calm b w w'"
    using assms by (auto simp: connect_reply_def Let_def elim!: bind_res_InrE
        dest!: same_dest own_tables(3) [OF own] split: if_splits)
qed

lemma next_ip_fds:
  "next_ip o5 = Inr (r, o') \<Longrightarrow> s5_client_fd o' = s5_client_fd o5 \<and> s5_final_server_fd o' = s5_final_server_fd o5"
  by (auto simp: next_ip_def set_final_addr_def elim!: bind_res_InrE split: list.splits if_splits)

lemma status_isolated:
  assumes "w_socks w b = Some o5" and "s5_client_fd o' = s5_client_fd o5" and "s5_final_server_fd o' = s5_final_server_fd o5"
  shows "isolated F b k (s, w) (s, put_socks b o' w)"
  by (rule calm_isolated) (use assms in \<open>simp add: calm_put_same\<close>)

lemma same_isolated: "same_objects w w' \<Longrightarrow> isolated F b k (s, w) (s, w')"
  by (rule calm_isolated) (simp add: calm_same)

text \<open>One round of \<open>request_connect\<close>, up to what it ends with.\<close>

lemma request_connect_part:
  assumes run: "request_connect fuel key b (s, w) = Inr (t, s', w')"
  shows "\<exists>s1 w1. isolated F b k (s, w) (s1, w1) \<and>
    ((s', w') = (s1, w1) \<or> connect_in_progress key b (s1, w1) = Inr (t, s', w') \<or>
     connect_reply b (s1, w1) = Inr (t, s', w') \<or>
     (\<exists>f. fuel = Suc f \<and> request_connect f key b (s1, w1) = Inr (t, s', w')))"
proof -
  note eq = request_connect.simps [of fuel key b "(s, w)"]
  obtain s1 w1 opened w2 where 1: "drop_old_fd b (s, w) = Inr (s1, w1)" "open_socket b w1 = Inr (opened, w2)"
    using run by (auto simp: eq elim!: bind_res_InrE)
  have 2: "isolated F b k (s, w) (s1, w2)"
    by (rule isolated_trans [OF drop_old_fd_isolated [OF 1(1)] open_socket_isolated [OF 1(2)]])
  show ?thesis
  proof (cases "opened")
    case False
    with run 1 2 show ?thesis by (auto simp: eq)
  next
    case True
    obtain e w3 where 3: "sys_connect b w2 = Inr (e, w3)"
      using run 1 True by (auto simp: eq elim!: bind_res_InrE)
    have w3: "isolated F b k (s, w) (s1, w3)"
      by (rule isolated_trans [OF 2 same_isolated [OF sys_connect_same [OF 3]]])
    show ?thesis
    proof (cases "e = None \<or> e = Some EINPROGRESS")
      case True
      with run 1 3 \<open>opened\<close> have "(s', w') = (s1, w3) \<or> connect_in_progress key b (s1, w3) = Inr (t, s', w')"
        by (auto simp: eq)
      with w3 show ?thesis by blast
    next
      case False
      then obtain y o5 r o' where o5: "e = Some y" "y \<noteq> EINPROGRESS" "w_socks w3 b = Some o5"
          "next_ip (o5\<lparr>s5_status := errno_to_socks y\<rparr>) = Inr (r, o')"
        using run 1 3 \<open>opened\<close> by (cases e) (auto simp: eq Let_def elim!: bind_res_InrE)
      have w4: "isolated F b k (s, w) (s1, put_socks b o' w3)"
        using next_ip_fds [OF o5(4)] by (intro isolated_trans [OF w3 status_isolated [OF o5(3)]]) simp_all
      have "connect_reply b (s1, put_socks b o' w3) = Inr (t, s', w') \<or>
          (\<exists>w5 f. log_conn b (s5_status o') (put_socks b o' w3) = Inr w5 \<and> fuel = Suc f \<and>
            request_connect f key b (s1, w5) = Inr (t, s', w'))"
        using run 1 3 o5 \<open>opened\<close>
        by (auto simp: eq Let_def get_socks_def elim!: bind_res_InrE split: nat.splits if_splits)
      then show ?thesis
        using w4 isolated_trans [OF w4 same_isolated [OF log_conn_same]] by blast
    qed
  qed
qed

lemma request_connect_isolated:
  assumes "request_connect fuel key b (s, w) = Inr (t, s', w')"
  shows "isolated F b k (s, w) (s', w')"
  using assms
proof (induction fuel arbitrary: s w)
  case (0 s w)
  from request_connect_part [OF 0, where F = F and k = k] show ?case
    by (auto dest: connect_in_progress_isolated [where F = F and k = k] connect_reply_isolated [where F = F and k = k] intro: isolated_trans)
next
  case (Suc fuel s w)
  from request_connect_part [OF Suc.prems, where F = F and k = k] Suc.IH show ?case
    by (auto dest: connect_in_progress_isolated [where F = F and k = k] connect_reply_isolated [where F = F and k = k] intro: isolated_trans)
qed

lemma start_connect_isolated: "start_connect key b (s, w) = Inr (t, s', w') \<Longrightarrow> isolated F b k (s, w) (s', w')"
  by (auto simp: start_connect_def elim!: bind_res_InrE dest: request_connect_isolated)

lemma connect_to_isolated:
  "connect_to key b family n r (s, w) = Inr (t, s', w') \<Longrightarrow> isolated F b k (s, w) (s', w')"
  by (auto simp: connect_to_def elim!: bind_res_InrE dest!: start_connect_isolated [where F = F and k = k])
    (erule isolated_trans [OF status_isolated, rotated -1]; simp)

lemma request_refuse_isolated:
  assumes "request_refuse key b status (s, w) = Inr (t, s', w')"
  shows "isolated F b (k_fd key) (s, w) (s', w')"
proof (rule calm_isolated)
  assume own: "own F b (k_fd key) (s, w)"
  show "table_kept F (Socks_at b) s s' \<and> calm b w w'"
    using assms by (auto simp: request_refuse_def Let_def elim!: bind_res_InrE dest!: own_tables(2) [OF own refl])
qed

lemma request_resolve_isolated:
  assumes "request_resolve key b (s, w) = Inr (t, s', w')"
  shows "isolated F b (k_fd key) (s, w) (s', w')"
proof -
  obtain w1 where w1: "same_objects w w1" "(\<exists>status. request_refuse key b status (s, w1) = Inr (t, s', w')) \<or>
      (\<exists>r. selector_set_interest_key s key OP_NOOP = Inr (r, s')) \<and> w' = w1\<lparr>w_threads := w_threads w1 @ [key]\<rparr>"
    using assms by (auto simp: request_resolve_def elim!: bind_res_InrE dest!: same_dest split: if_splits answer.splits)
      (blast intro: same_objects_trans)+
  from w1(2) show ?thesis
  proof
    assume "\<exists>status. request_refuse key b status (s, w1) = Inr (t, s', w')"
    then show ?thesis
      using isolated_trans [OF same_isolated [OF w1(1)] request_refuse_isolated] by blast
  next
    assume t: "(\<exists>r. selector_set_interest_key s key OP_NOOP = Inr (r, s')) \<and> w' = w1\<lparr>w_threads := w_threads w1 @ [key]\<rparr>"
    then have "same_objects w w'" using w1(1) by (simp add: same_objects_def)
    with t show ?thesis
      by (intro calm_isolated) (auto simp: calm_same dest: own_tables(2) [OF _ refl])
  qed
qed

lemma request_process_isolated:
  "request_process key b r (s, w) = Inr (t, s', w') \<Longrightarrow> isolated F b (k_fd key) (s, w) (s', w')"
  by (auto simp: request_process_def dest: connect_to_isolated request_resolve_isolated request_refuse_isolated
      split: if_splits)

lemma request_read_isolated:
  assumes run: "request_read key (s, w) = Inr (t, s', w')" and a: "ATTACHMENT key = Inr b"
  shows "isolated F b (k_fd key) (s, w) (s', w')"
proof -
  obtain o5 w1 o' where o5: "w_socks w b = Some o5" "same_objects w w1" "s5_client_fd o' = s5_client_fd o5"
      "s5_final_server_fd o' = s5_final_server_fd o5"
      "(s', w') = (s, put_socks b o' w1) \<or>
       (\<exists>r t2. request_process key b r (s, put_socks b o' w1) = Inr (t2, s', w'))"
  proof -
    from run a obtain o5 data bs n bb w1 where r: "w_socks w b = Some o5" "same_objects w w1"
        "(let o5 = set_buf (rd_rb data) bb o5 in
     if n < 0 then Inr (ERROR, s, put_socks b o5 w1)
     else
       bind_res (buffer_write_adv bb n) (\<lambda>bb.
       bind_res (request_consume bb (rd_parser data) (Some False)) (\<lambda>(rst, bb, p, err).
       let o5 = set_buf (rd_rb data) bb (o5\<lparr>s5_client_data := CD_request (data\<lparr>rd_parser := p\<rparr>)\<rparr>);
           w = put_socks b o5 w1;
           (fin, err) = request_is_done rst err in
       if fin then
         bind_res (request_process key b (rp_request p) (s, w)) (\<lambda>(ret, st).
         Inr (if err = Some True then ERROR else ret, st))
       else Inr (if err = Some True then ERROR else REQUEST_READ, s, w)))) = Inr (t, s', w')"
      by (auto simp: request_read_def elim!: bind_res_InrE dest!: same_dest)
    then show ?thesis
    proof (cases "n < 0")
      case True
      with r that [OF r(1,2), of "set_buf (rd_rb data) bb o5"] show ?thesis by simp
    next
      case False
      from r(3) False obtain bb2 rst bb3 p err where "(let o5 = set_buf (rd_rb data) bb3 ((set_buf (rd_rb data) bb o5)\<lparr>s5_client_data := CD_request (data\<lparr>rd_parser := p\<rparr>)\<rparr>);
           w = put_socks b o5 w1;
           (fin, err) = request_is_done rst err in
       if fin then
         bind_res (request_process key b (rp_request p) (s, w)) (\<lambda>(ret, st).
         Inr (if err = Some True then ERROR else ret, st))
       else Inr (if err = Some True then ERROR else REQUEST_READ, s, w)) = Inr (t, s', w')"
        by (auto simp: Let_def elim!: bind_res_InrE)
      then show ?thesis
        by (intro that [OF r(1,2), of "set_buf (rd_rb data) bb3 ((set_buf (rd_rb data) bb o5)\<lparr>s5_client_data := CD_request (data\<lparr>rd_parser := p\<rparr>)\<rparr>)"])
          (auto simp: Let_def elim!: bind_res_InrE split: prod.splits if_splits)
    qed
  qed
  have "isolated F b (k_fd key) (s, w) (s, put_socks b o' w1)"
    by (rule calm_isolated) (use o5(1-4) in \<open>simp add: calm_put_same\<close>)
  with o5(5) show ?thesis
    by (auto dest!: request_process_isolated intro: isolated_trans)
qed

lemma set_final_addr_fds:
  "set_final_addr ai o5 = Inr o' \<Longrightarrow> s5_client_fd o' = s5_client_fd o5 \<and> s5_final_server_fd o' = s5_final_server_fd o5"
  by (auto simp: set_final_addr_def elim!: bind_res_InrE)

lemma request_resolv_done_isolated:
  assumes run: "request_resolv_done key (s, w) = Inr (t, s', w')" and a: "ATTACHMENT key = Inr b"
  shows "isolated F b (k_fd key) (s, w) (s', w')"
proof -
  obtain o5 o' where o5: "w_socks w b = Some o5"
      "(case s5_server_resolution o5 of
        [] \<Rightarrow> Inr (o5\<lparr>s5_status := status_general_SOCKS_server_failure\<rparr>)
      | ai # _ \<Rightarrow> set_final_addr ai o5) = Inr o'" "start_connect key b (s, put_socks b o' w) = Inr (t, s', w')"
    using run a by (auto simp: request_resolv_done_def elim!: bind_res_InrE)
  have "s5_client_fd o' = s5_client_fd o5 \<and> s5_final_server_fd o' = s5_final_server_fd o5"
    using o5(2) by (auto dest: set_final_addr_fds split: list.splits)
  with isolated_trans [OF status_isolated [OF o5(1)] start_connect_isolated [OF o5(3)]] show ?thesis
    by blast
qed

text \<open>The descriptor of the event becomes that of the server; it is one of the connection.\<close>

lemma connected_isolated:
  assumes "w_socks w b = Some o5" and "s5_client_fd o' = s5_client_fd o5" and "s5_final_server_fd o' = k"
    and "same_objects w w1"
  shows "isolated F b k (s, w) (s, put_socks b o' w1)"
  using assms by (auto simp: isolated_def own_def others_kept_def put_socks_def same_objects_def)

lemma connecting_reply_isolated:
  assumes "request_connecting_reply key b (s, w) = Inr (t, s', w')"
  shows "isolated F b (k_fd key) (s, w) (s', w')"
proof (rule calm_isolated)
  assume own: "own F b (k_fd key) (s, w)"
  obtain o5 s1 r1 r2 o' where o5: "w_socks w b = Some o5"
      "selector_set_interest s (s5_client_fd o5) OP_WRITE = Inr (r1, s1)"
      "selector_set_interest s1 (k_fd key) OP_NOOP = Inr (r2, s')" "w' = put_socks b o' w"
      "s5_client_fd o' = s5_client_fd o5" "s5_final_server_fd o' = s5_final_server_fd o5"
    using assms by (auto simp: request_connecting_reply_def Let_def elim!: bind_res_InrE split: if_splits)
  have "table_kept F (Socks_at b) s s1"
    using own_tables(3) [OF own o5(2,1)] .
  moreover have "table_kept F (Socks_at b) s1 s'"
    using set_interest_table [OF o5(3)] table_kept_mine [OF \<open>table_kept F (Socks_at b) s s1\<close> ownD(1) [OF own]] .
  ultimately show "table_kept F (Socks_at b) s s' \<and> calm b w w'"
    using o5 by (auto intro: table_kept_trans)
qed

lemma request_connecting_isolated:
  assumes run: "request_connecting key (s, w) = Inr (t, s', w')" and a: "ATTACHMENT key = Inr b"
  shows "isolated F b (k_fd key) (s, w) (s', w')"
proof -
  obtain o5 x w1 where o5: "w_socks w b = Some o5" "next_answer w = Inr (x, w1)" and
    rest: "(case x of
       SockErrorFails \<Rightarrow>
         request_connecting_reply key b
           (s, put_socks b (o5\<lparr>s5_status := status_general_SOCKS_server_failure\<rparr>) w1)
     | SockError e \<Rightarrow>
         if e = 0 then
           let w = put_socks b (o5\<lparr>s5_status := status_succeeded, s5_final_server_fd := k_fd key\<rparr>) w1;
               w = w\<lparr>w_metrics := add_connection (w_metrics w)\<rparr> in
           bind_res (log_conn b status_succeeded w) (\<lambda>w. request_connecting_reply key b (s, w))
         else
           bind_res (next_ip (o5\<lparr>s5_status := errno_to_socks e\<rparr>)) (\<lambda>(r, o5).
           let w = put_socks b o5 w1 in
           if r \<noteq> -1 then start_connect key b (s, w)
           else bind_res (log_conn b (s5_status o5) w) (\<lambda>w. request_connecting_reply key b (s, w)))
     | _ \<Rightarrow> Inl NoAnswer) = Inr (t, s', w')"
    using run a by (auto simp: request_connecting_def elim!: bind_res_InrE)
  have same: "same_objects w w1"
    using next_answer_objects [OF o5(2)] by simp
  have put: "isolated F b (k_fd key) (s, w) (s, put_socks b o' w1)" if "s5_client_fd o' = s5_client_fd o5"
      "s5_final_server_fd o' = s5_final_server_fd o5 \<or> s5_final_server_fd o' = k_fd key" for o'
    using that(2) connected_isolated [OF o5(1) that(1) _ same] isolated_trans [OF same_isolated [OF same] status_isolated]
      that(1) same o5(1) by (auto simp: same_objects_def)
  show ?thesis
  proof (cases x)
    case SockErrorFails
    with rest isolated_trans [OF put [of "o5\<lparr>s5_status := status_general_SOCKS_server_failure\<rparr>"] connecting_reply_isolated]
    show ?thesis by simp
  next
    case (SockError e)
    show ?thesis
    proof (cases "e = 0")
      case True
      define o' where "o' = o5\<lparr>s5_status := status_succeeded, s5_final_server_fd := k_fd key\<rparr>"
      obtain w2 where w2: "log_conn b status_succeeded ((put_socks b o' w1)\<lparr>w_metrics := add_connection (w_metrics w1)\<rparr>) = Inr w2"
          "request_connecting_reply key b (s, w2) = Inr (t, s', w')"
        using rest SockError True by (auto simp: Let_def o'_def put_socks_def elim!: bind_res_InrE)
      have "same_objects (put_socks b o' w1) w2"
        using log_conn_same [OF w2(1)] by (simp add: same_objects_def)
      then show ?thesis
        by (intro isolated_trans [OF put [of o'] isolated_trans [OF same_isolated connecting_reply_isolated [OF w2(2)]]])
          (simp_all add: o'_def)
    next
      case False
      obtain r o' where o': "next_ip (o5\<lparr>s5_status := errno_to_socks e\<rparr>) = Inr (r, o')"
          "start_connect key b (s, put_socks b o' w1) = Inr (t, s', w') \<or>
           (\<exists>w2. log_conn b (s5_status o') (put_socks b o' w1) = Inr w2 \<and>
              request_connecting_reply key b (s, w2) = Inr (t, s', w'))"
        using rest SockError False by (auto simp: Let_def elim!: bind_res_InrE split: if_splits)
      have "isolated F b (k_fd key) (s, w) (s, put_socks b o' w1)"
        using next_ip_fds [OF o'(1)] by (intro put) simp_all
      with o'(2) show ?thesis
        by (blast intro: isolated_trans start_connect_isolated connecting_reply_isolated same_isolated log_conn_same)
    qed
  qed (use rest in simp_all)
qed

section \<open>The machine of the connection\<close>

lemma ready_isolated:
  assumes n: "n \<le> ERROR" and a: "ATTACHMENT key = Inr b"
    and ready: "sd_on_read_ready (socks_state_definition key ! n) = Some f \<or>
      sd_on_write_ready (socks_state_definition key ! n) = Some f \<or>
      sd_on_block_ready (socks_state_definition key ! n) = Some f"
    and run: "f (s, w) = Inr (t, s', w')"
  shows "isolated F b (k_fd key) (s, w) (s', w')"
proof -
  note calm = hello_read_calm [OF _ a] hello_write_calm [OF _ a] auth_read_calm [OF _ a] auth_write_calm [OF _ a]
    request_write_calm [OF _ a] copy_read_calm [OF _ a] copy_write_calm [OF _ a]
  show ?thesis
    using socks_ready_cases [OF n ready] run
    by (elim disjE conjE; simp only:) (rule calm_isolated, erule (1) calm |
        erule request_read_isolated [OF _ a] request_resolv_done_isolated [OF _ a] request_connecting_isolated [OF _ a])+
qed

lemma init_isolated:
  assumes "f (s, w) = Inr (s', w')" and "ATTACHMENT key = Inr b"
    and "f = hello_read_init key n \<or> f = auth_read_init key n \<or> f = request_init key n \<or>
      f = request_connecting_init key n \<or> f = copy_init key n"
  shows "isolated F b k (s, w) (s', w')"
proof -
  have "\<exists>o5 o5'. w_socks w b = Some o5 \<and> w' = put_socks b o5' w \<and> s' = s \<and>
      s5_client_fd o5' = s5_client_fd o5 \<and> s5_final_server_fd o5' = s5_final_server_fd o5"
    using assms by (auto simp: hello_read_init_def auth_read_init_def request_init_def
        request_connecting_init_def copy_init_def Let_def elim!: bind_res_InrE) (rule exI, rule conjI, rule refl, simp)+
  then show ?thesis
    by (auto intro: status_isolated)
qed

lemma arrival_isolated:
  assumes "call_arrival (socks_stm key) n sw = Inr sw'" and a: "ATTACHMENT key = Inr b"
  shows "isolated F b k sw sw'"
proof -
  have n: "n \<le> ERROR"
    using assms(1) by (auto simp: call_arrival_def load_at_def socks_state_definition_def socks_state_defs
        elim!: bind_res_InrE split: if_splits)
  show ?thesis
  proof (cases "sd_on_arrival (socks_state_definition key ! n)")
    case None
    with assms(1) n show ?thesis by (auto simp: call_arrival_def socks_load)
  next
    case (Some f)
    have "sd_state (socks_state_definition key ! n) = n"
      using socks_table [of key] n by (simp add: stm_table_ok_def)
    with Some assms(1) n have "f n sw = Inr sw'"
      by (simp add: call_arrival_def socks_load)
    then show ?thesis
      using init_isolated [of "f n" "fst sw" "snd sw" "fst sw'" "snd sw'" key b n] a socks_arrival_cases [OF n Some]
      by auto
  qed
qed

lemma deliver_isolated:
  assumes run: "deliver r key sw = Inr (t, sw')" and a: "ATTACHMENT key = Inr b"
  shows "isolated F b (k_fd key) sw sw'"
proof -
  let ?R = "isolated F b (k_fd key)"
  obtain on_ready where h: "stm_handler on_ready (socks_stm key) sw = Inr (t, sw')"
      "on_ready = sd_on_read_ready \<or> on_ready = sd_on_write_ready \<or> on_ready = sd_on_block_ready"
    using run by (cases r) (auto simp: stm_handler_read_def stm_handler_write_def stm_handler_block_def)
  have R: "reflp ?R" "transp ?R"
    by (auto intro: reflpI transpI isolated_trans)
  have set: "?R x y" if "set_current (stm_current (socks_stm key)) c x = Inr y" for c x y
    using that a by (cases x) (auto simp: socks_current_def elim!: bind_res_InrE intro!: status_isolated)
  have load: "n \<le> ERROR \<and> d = socks_state_definition key ! n" if "load_at (stm_states (socks_stm key)) n = Inr d" for n d
    using that by (auto simp: load_at_def socks_state_definition_def socks_state_defs split: if_splits)
  have dep: "?R x y" if "call_departure (socks_stm key) n x = Inr y" for n x y
    using that load [of n] by (auto simp: call_departure_def socks_departure elim!: bind_res_InrE split: option.splits)
  obtain n d f sw1 sw2 where 1: "?R sw sw1" "load_at (stm_states (socks_stm key)) n = Inr d" "on_ready d = Some f"
      "f sw1 = Inr (t, sw2)" "?R sw2 sw'"
    by (rule stm_handlerE [OF h(1) R]) (erule set | erule arrival_isolated [OF _ a] | erule dep | rule that; assumption)+
  have "?R sw1 sw2"
    using ready_isolated [of n key b f "fst sw1" "snd sw1" t "fst sw2" "snd sw2"] load [OF 1(2)] h(2) 1(3,4) a by auto
  with 1(1,5) show ?thesis
    by (blast intro: isolated_trans)
qed

section \<open>The handlers of the selector\<close>

lemma unregister_all_isolated:
  assumes "unregister_all fds (s, w) = Inr (s', w')" and "\<forall>fd \<in> set fds. mine F (Socks_at b) s fd"
  shows "isolated F b k (s, w) (s', w')"
  using assms
proof (induction fds arbitrary: s w)
  case (Cons fd fds)
  obtain s1 w1 where 1: "unregister_all fds (s1, emit (Closed_fd fd) w1) = Inr (s', w')"
      "(s1, w1) = (s, w) \<or> (\<exists>r. selector_unregister_fd close_handler fd (s, w) = Inr (r, s1, w1))"
    using Cons.prems(1) by (auto elim!: bind_res_InrE split: if_splits)
  have one: "own F b k (s1, w1) \<and> table_kept F (Socks_at b) s s1 \<and> others_kept b w w1" if "own F b k (s, w)"
    using 1(2) that unregister_isolated [OF _ _ that] Cons.prems(2) by auto
  have emit: "isolated F b k (s1, w1) (s1, emit (Closed_fd fd) w1)"
    by (rule same_isolated) simp
  show ?case
  proof (cases "own F b k (s, w)")
    case True
    with one Cons.prems(2) have "\<forall>fd \<in> set fds. mine F (Socks_at b) s1 fd"
      by (auto intro: table_kept_mine)
    from isolated_trans [OF emit Cons.IH [OF 1(1) this]] one [OF True] isolated_trans show ?thesis
      by (auto simp: isolated_def others_kept_def intro: table_kept_trans)
  qed (simp add: isolated_def)
qed simp

lemma socks5_done_isolated:
  assumes run: "socks5_done key sw = Inr sw'" and a: "ATTACHMENT key = Inr b"
  shows "isolated F b k sw sw'"
proof -
  obtain s w s' w' where sw: "sw = (s, w)" "sw' = (s', w')"
    by (cases sw; cases sw')
  obtain o5 w1 where o5: "w_socks w b = Some o5" "same_objects w w1"
      "unregister_all [s5_client_fd o5, s5_final_server_fd o5] (s, w1) = Inr (s', w')"
  proof -
    obtain o5 w1 where r: "w_socks w b = Some o5"
        "log_conn b (s5_status o5) (if s5_status o5 = status_close then
           let (m, err) = end_connection (w_metrics w); w = w\<lparr>w_metrics := m\<rparr> in
           if err then emit LoggedError w else w
         else w) = Inr w1"
        "unregister_all [s5_client_fd o5, s5_final_server_fd o5]
           (s, w1\<lparr>w_metrics := end_connecting_clients (w_metrics w1)\<rparr>) = Inr (s', w')"
      using run a sw by (auto simp del: unregister_all.simps simp: socks5_done_def Let_def elim!: bind_res_InrE)
    have "same_objects w w1"
      using log_conn_same [OF r(2)] by (auto simp: same_objects_def Let_def emit_def split: if_splits prod.splits)
    then show ?thesis
      using that [OF r(1) _ r(3)] by simp
  qed
  show ?thesis
  proof (cases "own F b k (s, w)")
    case True
    have "isolated F b k (s, w1) (s', w')"
      using ownD(2,3) [OF True o5(1)] by (intro unregister_all_isolated [OF o5(3)]) simp
    with same_isolated [OF o5(2)] show ?thesis
      unfolding sw by (rule isolated_trans)
  qed (simp add: isolated_def sw)
qed

lemma socks5_handlers_isolated:
  assumes "socks5_read key sw = Inr sw' \<or> socks5_write key sw = Inr sw' \<or> socks5_block key sw = Inr sw'"
    and a: "ATTACHMENT key = Inr b"
  shows "isolated F b (k_fd key) sw sw'"
proof -
  obtain r t sw1 where 1: "deliver r key sw = Inr (t, sw1)" "sw1 = sw' \<or> socks5_done key sw1 = Inr sw'"
  proof -
    obtain r where "socks5_ready (deliver r key sw) key = Inr sw'"
      using assms(1) unfolding socks5_read_def socks5_write_def socks5_block_def
      by (metis deliver.simps)
    with that show ?thesis
      by (auto simp: socks5_ready_def elim!: bind_res_InrE split: if_splits)
  qed
  from deliver_isolated [OF 1(1) a] 1(2) show ?thesis
    by (auto intro: isolated_trans socks5_done_isolated [OF _ a])
qed

section \<open>Isolation\<close>

lemma table_kept_entry:
  assumes "table_kept F (Socks_at b) s s'" and "registered s n = Some (i, h, d)" and "d \<noteq> Some (Socks_at b)"
  shows "registered s' n = Some (i, h, d)"
proof -
  have "\<not> mine F (Socks_at b) s (int n)"
    using assms(2,3) by (simp add: mine_def)
  with assms(1,2) show ?thesis
    by (simp add: table_kept_def)
qed

lemma table_kept_changed:
  "table_kept F (Socks_at b) s s' \<Longrightarrow> registered s' n \<noteq> registered s n \<Longrightarrow> mine F (Socks_at b) s (int n) \<and> mine F (Socks_at b) s' (int n)"
  unfolding table_kept_def by metis

end
