(* ===== verification/AdminIsolation.thy ===== *)
theory AdminIsolation
  imports Isolation
begin

text \<open>
  The same of the connections of administrators: an event of one leaves the objects of all other connections and their
  entries of the table as they are. The configuration is what they are there to change.
\<close>

section \<open>The descriptor of an administrator\<close>

definition own_admin :: "int set \<Rightarrow> nat \<Rightarrow> int \<Rightarrow> st \<Rightarrow> bool" where
  "own_admin F b k sw \<longleftrightarrow> mine F (Mng_at b) (fst sw) k \<and>
     (\<forall>m. w_mngs (snd sw) b = Some m \<longrightarrow> mine F (Mng_at b) (fst sw) (mg_client_fd m))"

definition admin_kept :: "nat \<Rightarrow> world \<Rightarrow> world \<Rightarrow> bool" where
  "admin_kept b w w' \<longleftrightarrow> (\<forall>a. a \<noteq> b \<longrightarrow> w_mngs w' a = w_mngs w a) \<and> w_socks w' = w_socks w \<and> w_next w' = w_next w \<and>
     (\<forall>m'. w_mngs w' b = Some m' \<longrightarrow> (\<exists>m. w_mngs w b = Some m \<and> mg_client_fd m' = mg_client_fd m))"

definition admin_isolated :: "int set \<Rightarrow> nat \<Rightarrow> int \<Rightarrow> st \<Rightarrow> st \<Rightarrow> bool" where
  "admin_isolated F b k sw sw' \<longleftrightarrow> (own_admin F b k sw \<longrightarrow>
     own_admin F b k sw' \<and> table_kept F (Mng_at b) (fst sw) (fst sw') \<and> admin_kept b (snd sw) (snd sw'))"

lemma admin_kept_refl [simp]: "admin_kept b w w"
  by (simp add: admin_kept_def)

lemma admin_isolated_refl [simp]: "admin_isolated F b k sw sw"
  by (simp add: admin_isolated_def)

lemma admin_kept_trans: "admin_kept b w w' \<Longrightarrow> admin_kept b w' w'' \<Longrightarrow> admin_kept b w w''"
  unfolding admin_kept_def by metis

lemma admin_isolated_trans:
  "admin_isolated F b k sw sw' \<Longrightarrow> admin_isolated F b k sw' sw'' \<Longrightarrow> admin_isolated F b k sw sw''"
  by (auto simp: admin_isolated_def intro: table_kept_trans admin_kept_trans)

lemma own_adminD:
  assumes "own_admin F b k (s, w)"
  shows "mine F (Mng_at b) s k" "w_mngs w b = Some m \<Longrightarrow> mine F (Mng_at b) s (mg_client_fd m)"
  using assms by (auto simp: own_admin_def)

lemma admin_isolatedI:
  assumes "own_admin F b k (s, w) \<Longrightarrow> table_kept F (Mng_at b) s s' \<and> admin_kept b w w'"
  shows "admin_isolated F b k (s, w) (s', w')"
  using assms by (fastforce simp: admin_isolated_def own_admin_def admin_kept_def intro: table_kept_mine)

lemma admin_kept_same: "same_objects w w' \<Longrightarrow> admin_kept b w w'"
  by (simp add: same_objects_def admin_kept_def)

lemma admin_kept_simps [simp]:
  "same_objects w w' \<Longrightarrow> admin_kept b w w'"
  "same_objects w w1 \<Longrightarrow> w_mngs w b = Some m \<Longrightarrow>
    admin_kept b w (put_mng b m' w1) \<longleftrightarrow> mg_client_fd m' = mg_client_fd m"
  by (simp add: admin_kept_same) (auto simp: admin_kept_def put_mng_def same_objects_def)

lemma admin_tables:
  assumes "own_admin F b (k_fd key) (s, w)"
  shows "selector_set_interest s (k_fd key) i = Inr (ss, s') \<Longrightarrow> table_kept F (Mng_at b) s s'"
    "selector_set_interest_key s key i = Inr (ss, s') \<Longrightarrow> table_kept F (Mng_at b) s s'"
  using own_adminD(1) [OF assms] set_interest_table set_interest_key_table by blast+

section \<open>The handlers of the states\<close>

text \<open>The calls of a message keep the objects, and the descriptor of the one that they are given.\<close>

definition act_keeps :: "(nat \<Rightarrow> 'p \<Rightarrow> bool \<Rightarrow> mng \<Rightarrow> world \<Rightarrow> (bool \<times> mng \<times> world) result) \<Rightarrow> bool" where
  "act_keeps act \<longleftrightarrow> (\<forall>a p err m w err' m' w'. act a p err m w = Inr (err', m', w') \<longrightarrow>
     w_mngs w' = w_mngs w \<and> w_socks w' = w_socks w \<and> w_next w' = w_next w \<and> mg_client_fd m' = mg_client_fd m)"

lemma act_keepsD:
  "act_keeps act \<Longrightarrow> act a p err m w = Inr (err', m', w') \<Longrightarrow>
   w_mngs w' = w_mngs w \<and> w_socks w' = w_socks w \<and> w_next w' = w_next w \<and> mg_client_fd m' = mg_client_fd m"
  unfolding act_keeps_def by blast

lemma mng_answer_same: "mng_answer f err m w = Inr (err', m', w') \<Longrightarrow> w' = w \<and> mg_client_fd m' = mg_client_fd m"
  by (auto simp: mng_answer_def elim!: bind_res_InrE)

lemma stack_bytes_same [same_dest]: "stack_bytes n w = Inr (bs, w') \<Longrightarrow> same_objects w w'"
  by (auto simp: stack_bytes_def elim!: bind_res_InrE dest: next_answer_objects split: answer.splits if_splits)

lemma get_value_same:
  "get_value x res w = Inr (n, res', w') \<Longrightarrow> w_mngs w' = w_mngs w \<and> w_socks w' = w_socks w \<and> w_next w' = w_next w"
  by (cases x) (auto simp: get_value_def Let_def elim!: bind_res_InrE)

lemma acts_keep: "act_keeps connect_act" "act_keeps get_act" "act_keeps put_act" "act_keeps edit_act"
    "act_keeps buffsize_act" "act_keeps configstatus_act" "act_keeps delete_act"
  by (auto simp: act_keeps_def connect_act_def get_act_def put_act_def edit_act_def buffsize_act_def
      configstatus_act_def delete_act_def Let_def emit_def same_objects_def
      elim!: bind_res_InrE dest!: mng_answer_same same_dest get_value_same split: if_splits)

lemma mng_receive_kept:
  assumes run: "mng_receive here after get_member member consume is_done act key (s, w) = Inr (t, s', w')"
    and a: "ATTACH key = Inr b" and act: "act_keeps act" and own: "own_admin F b (k_fd key) (s, w)"
  shows "table_kept F (Mng_at b) s s' \<and> admin_kept b w w'"
  using run a by (auto simp: mng_receive_def Let_def elim!: bind_res_InrE split: if_splits prod.splits
      dest!: same_dest admin_tables(2) [OF own] act_keepsD [OF act])
    (auto simp: admin_kept_def put_mng_def same_objects_def)

lemma mng_connect_write_kept:
  assumes "mng_connect_write key (s, w) = Inr (t, s', w')" and "ATTACH key = Inr b" and own: "own_admin F b (k_fd key) (s, w)"
  shows "table_kept F (Mng_at b) s s' \<and> admin_kept b w w'"
  using assms by (auto simp: mng_connect_write_def Let_def elim!: bind_res_InrE split: if_splits
      dest!: same_dest admin_tables(1) [OF own])

lemma mng_request_kept:
  assumes "mng_request key (s, w) = Inr (t, s', w')" and "ATTACH key = Inr b"
  shows "table_kept F (Mng_at b) s s' \<and> admin_kept b w w'"
  using assms by (auto simp: mng_request_def Let_def elim!: bind_res_InrE split: if_splits option.splits list.splits
      dest!: same_dest)

lemma mng_replies_kept:
  assumes "mng_replies key (s, w) = Inr (t, s', w')" and "ATTACH key = Inr b" and own: "own_admin F b (k_fd key) (s, w)"
  shows "table_kept F (Mng_at b) s s' \<and> admin_kept b w w'"
  using assms by (auto simp: mng_replies_def Let_def elim!: bind_res_InrE split: if_splits
      dest!: same_dest admin_tables(1) [OF own])

section \<open>The machine and the handlers of the selector\<close>

lemma mng_ready_isolated:
  assumes n: "n \<le> MNG_ERROR" and a: "ATTACH key = Inr b"
    and ready: "sd_on_read_ready (mng_state_definition key ! n) = Some f \<or>
      sd_on_write_ready (mng_state_definition key ! n) = Some f \<or>
      sd_on_block_ready (mng_state_definition key ! n) = Some f"
    and run: "f (s, w) = Inr (t, s', w')"
  shows "admin_isolated F b (k_fd key) (s, w) (s', w')"
proof (rule admin_isolatedI)
  assume own: "own_admin F b (k_fd key) (s, w)"
  show "table_kept F (Mng_at b) s s' \<and> admin_kept b w w'"
    using mng_ready_cases [OF n ready] run
    by (elim disjE conjE; simp only: mng_connect_read_def request_handler_defs)
      (erule mng_receive_kept [OF _ a _ own] mng_connect_write_kept [OF _ a own] mng_request_kept [OF _ a]
        mng_replies_kept [OF _ a own], (rule acts_keep)?)+
qed

lemma mng_deliver_isolated:
  assumes run: "mng_deliver r key sw = Inr (t, sw')" and a: "ATTACH key = Inr b"
  shows "admin_isolated F b (k_fd key) sw sw'"
proof -
  let ?R = "admin_isolated F b (k_fd key)"
  obtain on_ready where h: "stm_handler on_ready (mng_stm key) sw = Inr (t, sw')"
      "on_ready = sd_on_read_ready \<or> on_ready = sd_on_write_ready \<or> on_ready = sd_on_block_ready"
    using run by (rule mng_deliverE)
  have R: "reflp ?R" "transp ?R"
    by (auto intro: reflpI transpI admin_isolated_trans)
  have put: "?R (s, w) (s, put_mng b m' w)" if "w_mngs w b = Some m" "mg_client_fd m' = mg_client_fd m" for s w m m'
    using that by (intro admin_isolatedI) simp
  have set: "?R x y" if "set_current (stm_current (mng_stm key)) c x = Inr y" for c x y
    using that a by (cases x; cases y) (auto dest!: mng_set_current intro!: put)
  have arr: "?R x y" if "call_arrival (mng_stm key) n x = Inr y" for n x y
    using that a by (cases x; cases y) (auto dest!: mng_call_arrival intro!: put)
  have dep: "?R x y" if "call_departure (mng_stm key) n x = Inr y" for n x y
    using mng_call_departure [OF that] by simp
  obtain n d f sw1 sw2 where 1: "?R sw sw1" "load_at (stm_states (mng_stm key)) n = Inr d" "on_ready d = Some f"
      "f sw1 = Inr (t, sw2)" "?R sw2 sw'"
    by (rule stm_handlerE [OF h(1) R]) (erule set arr dep | rule that; assumption)+
  have "?R sw1 sw2"
    using mng_ready_isolated [of n key b f "fst sw1" "snd sw1" t "fst sw2" "snd sw2"] 1(2-4) h(2) a
    by (auto simp: mng_load_Inr)
  with 1(1,5) show ?thesis
    by (blast intro: admin_isolated_trans)
qed

lemma mng_done_isolated:
  assumes run: "mng_done key sw = Inr sw'" and a: "ATTACH key = Inr b"
  shows "admin_isolated F b k sw sw'"
proof -
  obtain s w s' w' where sw: "sw = (s, w)" "sw' = (s', w')"
    by (cases sw; cases sw')
  obtain m w1 w2 ss where m: "w_mngs w b = Some m" "w1 = w\<lparr>w_metrics := end_connecting_clients (w_metrics w)\<rparr>"
      "selector_unregister_fd close_handler (mg_client_fd m) (s, w1) = Inr (ss, s', w2)"
      "w' = emit (Closed_fd (mg_client_fd m)) w2"
    using run a sw by (auto simp: mng_done_def Let_def elim!: bind_res_InrE)
  show ?thesis
    unfolding sw
  proof (rule admin_isolatedI)
    assume "own_admin F b k (s, w)"
    then have fd: "mine F (Mng_at b) s (mg_client_fd m)"
      using m(1) by (rule own_adminD)
    show "table_kept F (Mng_at b) s s' \<and> admin_kept b w w'"
      using m(3) fd
    proof (cases rule: unregister_entry)
      case nothing
      with m(2,4) show ?thesis by (simp add: admin_kept_def emit_def)
    next
      case (closed key f s2)
      then have "s2 = s \<and> w2 = w1\<lparr>w_mngs := (w_mngs w1)(b := None)\<rparr>"
        by (auto simp: mng_close_def ATTACH_def elim!: bind_res_InrE)
      with closed fd m(2,4) show ?thesis
        by (auto simp: emit_def admin_kept_def intro: table_written [of s' s "nat (mg_client_fd m)" None])
    qed
  qed
qed

lemma mng_handlers_isolated:
  assumes "mng_read key sw = Inr sw' \<or> mng_write key sw = Inr sw' \<or> mng_block key sw = Inr sw'"
    and a: "ATTACH key = Inr b"
  shows "admin_isolated F b (k_fd key) sw sw'"
proof -
  obtain r t sw1 where 1: "mng_deliver r key sw = Inr (t, sw1)" "sw1 = sw' \<or> mng_done key sw1 = Inr sw'"
  proof -
    obtain r where "mng_ready (mng_deliver r key sw) key = Inr sw'"
      using assms(1) unfolding mng_read_def mng_write_def mng_block_def
      by (metis mng_deliver.simps)
    with that show ?thesis
      by (auto simp: mng_ready_def elim!: bind_res_InrE split: if_splits)
  qed
  from mng_deliver_isolated [OF 1(1) a] 1(2) show ?thesis
    by (auto intro: admin_isolated_trans mng_done_isolated [OF _ a])
qed

end
