(* ===== verification/Accepting.thy ===== *)
theory Accepting
  imports AdminIsolation
begin

text \<open>
  What accepting a connection changes: a new object and its entry in the table, or nothing that is left.
\<close>

section \<open>New connections\<close>

text \<open>What a call keeps that only takes answers.\<close>

definition alike :: "world \<Rightarrow> world \<Rightarrow> bool" where
  "alike w w' \<longleftrightarrow> quiet w w' \<and> same_objects w w'"

lemma alike_calls:
  "next_answer w = Inr (x, w') \<Longrightarrow> alike w w' \<and> x \<in> set (w_answers w)" "sys_bytes n w = Inr (bs, w') \<Longrightarrow> alike w w'"
  "selector_fd_set_nio w = Inr (good, w') \<Longrightarrow> alike w w'" "log_conn a status w = Inr w' \<Longrightarrow> alike w w'"
  by (auto simp: alike_def dest: quiet_dest same_dest)

lemma fresh_init:
  "stm_init (socks_stm \<lparr>k_fd = c, k_data = Some (Socks_at a)\<rparr>) (s, put_socks a o5 w) =
     Inr (s, put_socks a (o5\<lparr>s5_stm_current := None\<rparr>) w)"
  "stm_init (mng_stm \<lparr>k_fd = c, k_data = Some (Mng_at a)\<rparr>) (s, put_mng a m w) =
     Inr (s, put_mng a (m\<lparr>mg_stm_current := None\<rparr>) w)"
  by (simp_all add: stm_init_iff socks_table mng_table socks_current_def mng_current_def ATTACHMENT_def ATTACH_def
      get_mng_def put_mng_def get_socks_def put_socks_def)
    (simp_all add: socks_state_defs mng_state_defs)

text \<open>The object \<open>b\<close> is new, and it is the client's.\<close>

definition new_client :: "nat \<Rightarrow> int \<Rightarrow> world \<Rightarrow> world \<Rightarrow> bool" where
  "new_client b client w w' \<longleftrightarrow> (\<forall>a. a \<noteq> b \<longrightarrow> w_socks w' a = w_socks w a) \<and> w_mngs w' = w_mngs w \<and>
     w_config w' = w_config w \<and> w_next w' = b + 1 \<and> (\<exists>es. w_events w' = w_events w @ es) \<and>
     set (w_answers w') \<subseteq> set (w_answers w) \<and>
     (\<exists>o5. w_socks w' b = Some o5 \<and> s5_client_fd o5 = client \<and> s5_final_server_fd o5 = -1 \<and> s5_stm_current o5 = None)"

lemma new_client_alike: "new_client b client w w' \<Longrightarrow> alike w' w'' \<Longrightarrow> new_client b client w w''"
  by (auto simp: new_client_def alike_def quiet_def same_objects_def)

lemma socks5_new_effect:
  assumes "socks5_new client addr (s, w) = Inr (r, s', w')"
  shows "s' = s \<and> (r = None \<and> alike w w' \<or> r = Some (w_next w) \<and> new_client (w_next w) client w w')"
proof -
  obtain x w1 where x: "next_answer w = Inr (x, w1)"
    using assms by (auto simp: socks5_new_def elim!: bind_res_InrE)
  have w1: "alike w w1"
    using alike_calls(1) [OF x] by simp
  show ?thesis
  proof (cases "x = NoMemory")
    case True
    with assms x w1 show ?thesis by (simp add: socks5_new_def)
  next
    case False
    let ?b = "w_next w1"
    from False obtain junk where "x = NewSocks junk"
      using assms x by (cases x) (simp_all add: socks5_new_def)
    let ?sz = "get_socks_buffer_size (w_config w1)"
    let ?w2 = "put_socks ?b (junk\<lparr>s5_stm_current := None\<rparr>) (w1\<lparr>w_next := Suc ?b\<rparr>)"
    obtain raw_a w3 raw_b w4 o5 o' where new: "sys_bytes (unat ?sz) ?w2 = Inr (raw_a, w3)"
        "sys_bytes (unat ?sz) w3 = Inr (raw_b, w4)" "w_socks w4 ?b = Some o5" "r = Some ?b" "s' = s"
        "w' = put_socks ?b o' w4" "s5_client_fd o' = client" "s5_final_server_fd o' = -1"
        "s5_stm_current o' = s5_stm_current o5"
    proof -
      have "bind_res (sys_bytes (unat ?sz) ?w2) (\<lambda>(raw_a, w).
         bind_res (sys_bytes (unat ?sz) w) (\<lambda>(raw_b, w).
         bind_res (get_socks ?b w) (\<lambda>o5.
         bind_res (store_range (s5_client_addr o5) 0 addr) (\<lambda>client_addr.
         let o5 = o5\<lparr>s5_write_buffer := buffer_init (unat (?sz + 1)) raw_a,
                     s5_read_buffer := buffer_init (unat (?sz + 1)) raw_b,
                     s5_client_fd := client, s5_final_server_fd := -1,
                     s5_client_addr := client_addr, s5_client_addr_len := length addr, s5_toFree := 0,
                     s5_server_resolution := [], s5_current_server_resolution := []\<rparr> in
         Inr (Some ?b, s, put_socks ?b o5 w))))) = Inr (r, s', w')"
        using assms x \<open>x = NewSocks junk\<close> by (simp add: socks5_new_def Let_def fresh_init)
      then show ?thesis
        by (auto simp: Let_def elim!: bind_res_InrE) (rule that, (assumption | simp)+)
    qed
    moreover have "alike ?w2 w4"
      using alike_calls(2) [OF new(1)] alike_calls(2) [OF new(2)]
      by (auto simp: alike_def intro: quiet_trans same_objects_trans)
    ultimately show ?thesis
      using w1 new(3-) by (auto simp: new_client_def alike_def quiet_def same_objects_def put_socks_def)
  qed
qed

lemma register_effect:
  assumes "selector_register False junk s fd (Some h) i (Some x) = Inr (ss, s')"
  shows "if ss = SELECTOR_SUCCESS then 0 \<le> fd \<and> registered s (nat fd) = None \<and>
    registered s' = (registered s)(nat fd \<mapsto> (i, Some h, Some x)) else registered s' = registered s"
proof (cases "INVALID_FD fd")
  case True
  with assms show ?thesis by (auto simp: selector_register_def)
next
  case False
  then have fd: "0 \<le> fd" "FD_UNUSED \<noteq> fd" by (auto simp: INVALID_FD_def FD_UNUSED_def)
  obtain r s0 where s0: "(if fd_size s < nat fd then ensure_capacity False junk s (nat fd) else Inr (SELECTOR_SUCCESS, s)) = Inr (r, s0)"
    using assms False by (auto simp: selector_register_def Let_def elim!: bind_res_InrE)
  then have "s0 = s"
    by (auto split: if_splits dest: no_growth)
  show ?thesis
  proof (cases "r = SELECTOR_SUCCESS")
    case True
    with assms False s0 \<open>s0 = s\<close> obtain item where item: "get_item s (nat fd) = Inr item"
        "if ITEM_USED item then ss = SELECTOR_FDINUSE \<and> s' = s else ss = SELECTOR_SUCCESS \<and>
           (\<exists>s1. set_item s (nat fd) \<lparr>it_fd = fd, it_interest = i, it_handler = Some h, it_data = Some x\<rparr> = Inr s1 \<and>
             registered s' = registered s1)"
      by (auto simp: selector_register_def Let_def elim!: bind_res_InrE split: if_splits)
    show ?thesis
    proof (cases "ITEM_USED item")
      case False
      with item obtain s1 where s1: "set_item s (nat fd) \<lparr>it_fd = fd, it_interest = i, it_handler = Some h, it_data = Some x\<rparr> = Inr s1"
          "registered s' = registered s1" "ss = SELECTOR_SUCCESS"
        by auto
      from registered_set_item [OF s1(1)] s1(2,3) fd get_item_registered [OF item(1)] False show ?thesis
        by (simp add: ITEM_USED_def)
    qed (use item in simp)
  next
    case False
    with assms s0 \<open>s0 = s\<close> \<open>\<not> INVALID_FD fd\<close> show ?thesis by (auto simp: selector_register_def Let_def)
  qed
qed

text \<open>A client that was turned away: the object, if there was one, is gone.\<close>

definition turned_away :: "nat \<Rightarrow> world \<Rightarrow> world \<Rightarrow> bool" where
  "turned_away b w w' \<longleftrightarrow> (\<forall>a. a \<noteq> b \<longrightarrow> w_socks w' a = w_socks w a \<and> w_mngs w' a = w_mngs w a) \<and>
     (w_socks w' b = None \<or> w_socks w' b = w_socks w b) \<and> (w_mngs w' b = None \<or> w_mngs w' b = w_mngs w b) \<and>
     w_config w' = w_config w \<and> w_next w \<le> w_next w' \<and> (\<exists>es. w_events w' = w_events w @ es)"

lemma turned_away_failed:
  "alike w w1 \<Longrightarrow> accept_failed c None (s, w1) = (s', w') \<Longrightarrow> s' = s \<and> turned_away (w_next w) w w'"
  "new_client (w_next w) client w w1 \<Longrightarrow> accept_failed c (Some (w_next w)) (s, w1) = (s', w') \<Longrightarrow>
     s' = s \<and> turned_away (w_next w) w w'"
  by (auto simp: accept_failed_def Let_def turned_away_def alike_def quiet_def same_objects_def new_client_def emit_def)

lemma new_client_put:
  assumes "new_client b client w w1" and "get_socks b w1 = Inr o5" and "s5_client_fd o' = s5_client_fd o5"
    and "s5_final_server_fd o' = s5_final_server_fd o5" and "s5_stm_current o' = s5_stm_current o5"
  shows "new_client b client w (put_socks b o' w1)"
  using assms by (auto simp: new_client_def put_socks_def get_socks_def)

lemma new_client_metrics [simp]: "new_client b client w (w1\<lparr>w_metrics := m\<rparr>) = new_client b client w w1"
  by (simp add: new_client_def)

lemma accept_effect:
  assumes "socks5_passive_accept key (s, w) = Inr (s', w')"
  obtains (away) "registered s' = registered s" "turned_away (w_next w) w w'"
  | (accepted) client addr where "Accepted client addr \<in> set (w_answers w)" "0 \<le> client" "registered s (nat client) = None"
      "new_client (w_next w) client w w'"
      "registered s' = (registered s)(nat client \<mapsto> (OP_READ, Some H_socks5, Some (Socks_at (w_next w))))"
proof -
  obtain x w1 where x: "next_answer w = Inr (x, w1)"
    using assms by (auto simp: socks5_passive_accept_def elim!: bind_res_InrE)
  show ?thesis
  proof (cases x)
    case (Accepted client addr)
    obtain socks s1 w2 where new: "socks5_new client addr (s, w1) = Inr (socks, s1, w2)"
      and rest: "(case socks of
           None \<Rightarrow> Inr (accept_failed client None (s1, w2))
         | Some a \<Rightarrow>
             bind_res (get_socks a w2) (\<lambda>o5.
             if MAX_CONNECTIONS - 1 < sint (get_current_conn (w_metrics w2)) then
               bind_res (log_conn a status_connection_refused
                 (put_socks a (o5\<lparr>s5_status := status_connection_refused\<rparr>) w2)) (\<lambda>w.
               Inr (accept_failed client (Some a) (s1, w)))
             else
               let w = w2\<lparr>w_metrics := add_connecting_clients (w_metrics w2)\<rparr>;
                   w = put_socks a (o5\<lparr>s5_status := status_connecting\<rparr>) w in
               bind_res (selector_fd_set_nio w) (\<lambda>(good, w).
               if \<not> good then Inr (accept_failed client (Some a) (s1, w))
               else
                 bind_res (selector_register False zero_item s1 client (Some H_socks5) OP_READ
                   (Some (Socks_at a))) (\<lambda>(ss, s).
                 if ss \<noteq> SELECTOR_SUCCESS then Inr (accept_failed client (Some a) (s, w))
                 else Inr (s, w))))) = Inr (s', w')"
      using assms x Accepted by (auto simp: socks5_passive_accept_def elim!: bind_res_InrE)
    have w1: "alike w w1" "Accepted client addr \<in> set (w_answers w)"
      using alike_calls(1) [OF x] Accepted by auto
    have s1: "s1 = s" and new: "socks = None \<and> alike w w2 \<or> socks = Some (w_next w) \<and> new_client (w_next w) client w w2"
      using socks5_new_effect [OF new] w1(1)
      by (auto simp: alike_def new_client_def quiet_def same_objects_def)
    show ?thesis
    proof (cases socks)
      case None
      with new rest s1 turned_away_failed(1) [of w w2 client s s' w'] show ?thesis
        by (auto intro: away)
    next
      case (Some a)
      then have a: "a = w_next w" and w2: "new_client a client w w2"
        using new by simp_all
      obtain o5 where o5: "get_socks a w2 = Inr o5"
        using rest Some by (cases "get_socks a w2") simp_all
      note rest = rest [unfolded Some option.case o5 bind_res.simps(2)]
      show ?thesis
      proof (cases "MAX_CONNECTIONS - 1 < sint (get_current_conn (w_metrics w2))")
        case True
        with rest obtain w3 where w3: "log_conn a status_connection_refused
            (put_socks a (o5\<lparr>s5_status := status_connection_refused\<rparr>) w2) = Inr w3"
            "accept_failed client (Some a) (s1, w3) = (s', w')"
          by (auto elim!: bind_res_InrE)
        have "new_client a client w w3"
          by (rule new_client_alike [OF new_client_put [OF w2 o5] alike_calls(4) [OF w3(1)]]) simp_all
        with w3(2) s1 a turned_away_failed(2) [of w client w3 client s s' w'] show ?thesis by (auto intro: away)
      next
        case False
        with rest obtain good w3 where w3: "selector_fd_set_nio (put_socks a (o5\<lparr>s5_status := status_connecting\<rparr>)
              (w2\<lparr>w_metrics := add_connecting_clients (w_metrics w2)\<rparr>)) = Inr (good, w3)"
            "\<not> good \<and> accept_failed client (Some a) (s1, w3) = (s', w') \<or>
             (\<exists>ss s2. selector_register False zero_item s1 client (Some H_socks5) OP_READ (Some (Socks_at a)) = Inr (ss, s2) \<and>
               (if ss \<noteq> SELECTOR_SUCCESS then accept_failed client (Some a) (s2, w3) = (s', w') else s' = s2 \<and> w' = w3))"
          by (auto simp: Let_def elim!: bind_res_InrE split: if_splits)
        have "new_client a client w (put_socks a (o5\<lparr>s5_status := status_connecting\<rparr>)
              (w2\<lparr>w_metrics := add_connecting_clients (w_metrics w2)\<rparr>))"
          using w2 o5 by (intro new_client_put [of a client w _ o5]) (simp_all add: get_socks_def)
        then have "new_client a client w w3"
          using alike_calls(3) [OF w3(1)] new_client_alike by blast
        have gone: ?thesis if "accept_failed client (Some a) (s2, w3) = (s', w')" "registered s2 = registered s" for s2
          using turned_away_failed(2) [of w client w3 client s2 s' w'] that a \<open>new_client a client w w3\<close>
          by (auto intro: away)
        from w3(2) show ?thesis
        proof (elim disjE conjE exE)
          fix ss s2
          assume reg: "selector_register False zero_item s1 client (Some H_socks5) OP_READ (Some (Socks_at a)) = Inr (ss, s2)"
            and r: "if ss \<noteq> SELECTOR_SUCCESS then accept_failed client (Some a) (s2, w3) = (s', w') else s' = s2 \<and> w' = w3"
          show ?thesis
            using register_effect [OF reg] r gone accepted [of client addr] w1(2) a s1 \<open>new_client a client w w3\<close>
            by (auto split: if_splits)
        qed (use s1 gone in simp)
      qed
    qed
  qed (use assms x alike_calls(1) [OF x] turned_away_failed(1) [of w w1 "-1" s s' w'] in \<open>auto simp: socks5_passive_accept_def intro: away\<close>)
qed

text \<open>The same of an administrator.\<close>

definition new_admin :: "nat \<Rightarrow> int \<Rightarrow> world \<Rightarrow> world \<Rightarrow> bool" where
  "new_admin b client w w' \<longleftrightarrow> (\<forall>a. a \<noteq> b \<longrightarrow> w_mngs w' a = w_mngs w a) \<and> w_socks w' = w_socks w \<and>
     w_config w' = w_config w \<and> w_next w' = b + 1 \<and> (\<exists>es. w_events w' = w_events w @ es) \<and>
     set (w_answers w') \<subseteq> set (w_answers w) \<and>
     (\<exists>m. w_mngs w' b = Some m \<and> mg_client_fd m = client \<and> mg_stm_current m = None)"

lemma put_mng_simps: "put_mng a m (put_mng a m' w) = put_mng a m w" "w_mngs (put_mng a m w) a = Some m"
  by (simp_all add: put_mng_def)

lemma mng_new_effect:
  assumes "mng_new client addr (s, w) = Inr (r, s', w')"
  shows "s' = s \<and> (r = None \<and> alike w w' \<or> r = Some (w_next w) \<and> new_admin (w_next w) client w w')"
proof -
  obtain x w1 where x: "next_answer w = Inr (x, w1)"
    using assms by (auto simp: mng_new_def elim!: bind_res_InrE)
  have w1: "alike w w1"
    using alike_calls(1) [OF x] by simp
  show ?thesis
  proof (cases "x = NoMemory")
    case True
    with assms x w1 show ?thesis by (simp add: mng_new_def)
  next
    case False
    let ?b = "w_next w1"
    from False obtain junk where "x = NewMng junk"
      using assms x by (cases x) (simp_all add: mng_new_def)
    with assms x obtain m' where "r = Some ?b" "s' = s" "w' = put_mng ?b m' (w1\<lparr>w_next := Suc ?b\<rparr>)"
        "mg_client_fd m' = client" "mg_stm_current m' = None"
      by (auto simp: mng_new_def Let_def fresh_init put_mng_simps elim!: bind_res_InrE split: if_splits)
    with w1 show ?thesis
      by (auto simp: new_admin_def alike_def quiet_def same_objects_def put_mng_def)
  qed
qed

lemma mng_turned_away:
  "alike w w1 \<Longrightarrow> mng_accept_failed c None (s, w1) = (s', w') \<Longrightarrow> s' = s \<and> turned_away (w_next w) w w'"
  "new_admin (w_next w) client w w1 \<Longrightarrow> mng_accept_failed c (Some (w_next w)) (s, w1) = (s', w') \<Longrightarrow>
     s' = s \<and> turned_away (w_next w) w w'"
  by (auto simp: mng_accept_failed_def Let_def turned_away_def alike_def quiet_def same_objects_def new_admin_def emit_def)

lemma new_admin_alike: "new_admin b client w w' \<Longrightarrow> alike w' w'' \<Longrightarrow> new_admin b client w w''"
  by (auto simp: new_admin_def alike_def quiet_def same_objects_def)

lemma mng_accept_effect:
  assumes "mng_passive_accept key (s, w) = Inr (s', w')"
  obtains (away) "registered s' = registered s" "turned_away (w_next w) w w'"
  | (accepted) client addr where "Accepted client addr \<in> set (w_answers w)" "0 \<le> client" "registered s (nat client) = None"
      "new_admin (w_next w) client w w'"
      "registered s' = (registered s)(nat client \<mapsto> (OP_READ, Some H_mng, Some (Mng_at (w_next w))))"
proof -
  obtain x w1 where x: "next_answer w = Inr (x, w1)"
    using assms by (auto simp: mng_passive_accept_def elim!: bind_res_InrE)
  show ?thesis
  proof (cases x)
    case (Accepted client addr)
    have w1: "alike w w1" "Accepted client addr \<in> set (w_answers w)"
      using alike_calls(1) [OF x] Accepted by auto
    obtain a s1 w2 where new: "mng_new client addr (s, w1) = Inr (a, s1, w2)"
      using assms x Accepted by (auto simp: mng_passive_accept_def elim!: bind_res_InrE)
    have s1: "s1 = s" and n: "a = None \<and> alike w w2 \<or> a = Some (w_next w) \<and> new_admin (w_next w) client w w2"
      using mng_new_effect [OF new] w1(1)
      by (auto simp: alike_def new_admin_def quiet_def same_objects_def)
    show ?thesis
    proof (cases a)
      case None
      with n assms x Accepted new s1 mng_turned_away(1) [of w w2 client s s' w'] show ?thesis
        by (auto simp: mng_passive_accept_def intro: away)
    next
      case (Some b)
      then have b: "b = w_next w" and w2: "new_admin b client w w2"
        using n by simp_all
      have gone: ?thesis if "mng_accept_failed client (Some b) (s2, w3) = (s', w')" "new_admin b client w w3"
          "registered s2 = registered s" for s2 w3
        using mng_turned_away(2) [of w client w3 client s2 s' w'] that b by (auto intro: away)
      show ?thesis
      proof (cases "MAX_CONNECTIONS < sint (get_current_conn (w_metrics w2))")
        case True
        have "new_admin b client w (emit LoggedError w2)"
          using w2 by (auto simp: new_admin_def emit_def)
        with assms x Accepted new s1 Some True gone show ?thesis
          by (simp add: mng_passive_accept_def)
      next
        case False
        let ?w = "w2\<lparr>w_metrics := add_connecting_clients (w_metrics w2)\<rparr>"
        from assms x Accepted new s1 Some False obtain good w3 where w3: "selector_fd_set_nio ?w = Inr (good, w3)"
            "\<not> good \<and> mng_accept_failed client (Some b) (s, w3) = (s', w') \<or>
             (\<exists>ss s2. selector_register False zero_item s client (Some H_mng) OP_READ (Some (Mng_at b)) = Inr (ss, s2) \<and>
               (if ss \<noteq> SELECTOR_SUCCESS then mng_accept_failed client (Some b) (s2, w3) = (s', w') else s' = s2 \<and> w' = w3))"
          by (auto simp: mng_passive_accept_def Let_def elim!: bind_res_InrE split: if_splits)
        have "new_admin b client w ?w"
          using w2 by (simp add: new_admin_def)
        then have "new_admin b client w w3"
          using alike_calls(3) [OF w3(1)] new_admin_alike by blast
        from w3(2) show ?thesis
        proof (elim disjE conjE exE)
          fix ss s2
          assume reg: "selector_register False zero_item s client (Some H_mng) OP_READ (Some (Mng_at b)) = Inr (ss, s2)"
            and r: "if ss \<noteq> SELECTOR_SUCCESS then mng_accept_failed client (Some b) (s2, w3) = (s', w') else s' = s2 \<and> w' = w3"
          show ?thesis
            using register_effect [OF reg] r gone accepted [of client addr] w1(2) b \<open>new_admin b client w w3\<close>
            by (auto split: if_splits)
        qed (use gone \<open>new_admin b client w w3\<close> in simp)
      qed
    qed
  qed (use assms x alike_calls(1) [OF x] mng_turned_away(1) [of w w1 "-1" s s' w'] in \<open>auto simp: mng_passive_accept_def intro: away\<close>)
qed

end
