(* ===== verification/WholeServer.thy ===== *)
theory WholeServer
  imports Accepting Handshake
begin

text \<open>
  The server as a whole: any number of clients and administrators, in any interleaving of their events, of new
  connections and of the resolver threads. What the system calls of a step answer is given with the step, and the
  operating system does not answer the number of a descriptor that is open.
\<close>

section \<open>Descriptors that are held\<close>

fun number :: "object \<Rightarrow> nat" where
  "number (Socks_at b) = b"
| "number (Mng_at b) = b"

fun fds_of :: "object \<Rightarrow> world \<Rightarrow> int set" where
  "fds_of (Socks_at b) w = (case w_socks w b of None \<Rightarrow> {} | Some o5 \<Rightarrow> {s5_client_fd o5, s5_final_server_fd o5})"
| "fds_of (Mng_at b) w = (case w_mngs w b of None \<Rightarrow> {} | Some m \<Rightarrow> {mg_client_fd m})"

definition entry :: "sel \<Rightarrow> object \<Rightarrow> nat \<Rightarrow> bool" where
  "entry s x n = (case registered s n of None \<Rightarrow> False | Some (i, h, d) \<Rightarrow> h = Some (home x) \<and> d = Some x)"

lemma entry_iff: "entry s x n \<longleftrightarrow> (\<exists>i. registered s n = Some (i, Some (home x), Some x))"
  by (auto simp: entry_def split: option.splits)

text \<open>An object without an entry gets no events any more; its memory may not have been released.\<close>

definition live :: "sel \<Rightarrow> object \<Rightarrow> bool" where
  "live s x \<longleftrightarrow> (\<exists>n. entry s x n)"

definition holds :: "st \<Rightarrow> object \<Rightarrow> int set" where
  "holds sw x = (if live (fst sw) x then {fd. 0 \<le> fd \<and> (fd \<in> fds_of x (snd sw) \<or> entry (fst sw) x (nat fd))} else {})"

text \<open>No descriptor belongs to two, and the entries of the table are those of the objects that hold them.\<close>

definition separate :: "st \<Rightarrow> bool" where
  "separate sw \<longleftrightarrow> (\<forall>x y. x \<noteq> y \<longrightarrow> holds sw x \<inter> holds sw y = {}) \<and>
     (\<forall>x. \<forall>fd \<in> holds sw x. mine UNIV x (fst sw) fd) \<and>
     (\<forall>x. live (fst sw) x \<or> fds_of x (snd sw) \<noteq> {} \<longrightarrow> number x < w_next (snd sw))"

lemma separateD:
  assumes "separate (s, w)"
  shows "fd \<in> holds (s, w) x \<Longrightarrow> fd \<in> holds (s, w) y \<Longrightarrow> x = y"
    "fd \<in> holds (s, w) x \<Longrightarrow> mine UNIV x s fd"
    "live s x \<or> fds_of x w \<noteq> {} \<Longrightarrow> number x < w_next w"
  using assms unfolding separate_def by fastforce+

lemma entry_unique: "entry s x n \<Longrightarrow> entry s y n \<Longrightarrow> x = y"
  by (auto simp: entry_iff)

lemma entry_kept:
  assumes "table_kept F x s s'" and "y \<noteq> x"
  shows "entry s' y n \<longleftrightarrow> entry s y n"
proof (cases "mine F x s (int n)")
  case True
  then have "mine F x s' (int n)"
    using assms(1) by (simp add: table_kept_def)
  with True assms(2) show ?thesis
    by (auto simp: entry_iff mine_def)
next
  case False
  with assms(1) have "registered s' n = registered s n"
    by (simp add: table_kept_def)
  then show ?thesis by (simp add: entry_iff)
qed

lemma holds_cong:
  assumes "\<And>n. entry s' x n = entry s x n" and "live s x \<Longrightarrow> fds_of x w' = fds_of x w"
  shows "holds (s', w') x = holds (s, w) x" "live s' x = live s x"
  using assms by (simp_all add: holds_def live_def)

text \<open>A step on behalf of one object, which deals with no descriptor that others hold.\<close>

lemma separate_step:
  assumes sep: "separate (s, w)" and F: "holds (s, w) x \<subseteq> F" "\<And>y. y \<noteq> x \<Longrightarrow> F \<inter> holds (s, w) y = {}"
    and kept: "table_kept F x s s'" and others: "\<And>y. y \<noteq> x \<Longrightarrow> fds_of y w' = fds_of y w"
    and own: "\<And>fd. fd \<in> fds_of x w' \<Longrightarrow> mine F x s' fd" and num: "number x < w_next w'" "w_next w \<le> w_next w'"
  shows "separate (s', w')"
proof -
  have other: "holds (s', w') y = holds (s, w) y" "live s' y = live s y" if "y \<noteq> x" for y
    using holds_cong [of s' y s w' w] entry_kept [OF kept that] others [OF that] by simp_all
  have in_F: "fd \<in> F" if "fd \<in> holds (s', w') x" for fd
  proof (cases "fd \<in> fds_of x w'")
    case True
    with own [OF True] that show ?thesis by (auto simp: holds_def mine_def split: if_splits)
  next
    case False
    with that have e: "0 \<le> fd" "entry s' x (nat fd)" by (auto simp: holds_def split: if_splits)
    show ?thesis
    proof (cases "mine F x s (int (nat fd))")
      case True
      with e(1) show ?thesis by (simp add: mine_def)
    next
      case False
      with kept e have "entry s x (nat fd)" by (simp add: table_kept_def entry_iff)
      with e(1) have "fd \<in> holds (s, w) x" by (auto simp: holds_def live_def)
      with F(1) show ?thesis by blast
    qed
  qed
  have "holds (s', w') a \<inter> holds (s', w') b = {}" if "a \<noteq> b" for a b
    using in_F F(2) other separateD(1) [OF sep] that by (cases "a = x"; cases "b = x") auto
  moreover have "mine UNIV y s' fd" if "fd \<in> holds (s', w') y" for y fd
  proof (cases "y = x")
    case True
    with that own [of fd] show ?thesis by (auto simp: holds_def mine_def entry_iff split: if_splits)
  next
    case False
    with that other have y: "fd \<in> holds (s, w) y" by simp
    with F(2) [OF False] have "\<not> mine F x s fd" by (auto simp: mine_def holds_def split: if_splits)
    moreover from y have "0 \<le> fd" by (simp add: holds_def split: if_splits)
    ultimately have "registered s' (nat fd) = registered s (nat fd)"
      using kept unfolding table_kept_def by (metis int_nat_eq)
    with separateD(2) [OF sep y] show ?thesis by (simp add: mine_def)
  qed
  moreover have "number y < w_next w'" if "live s' y \<or> fds_of y w' \<noteq> {}" for y
    using that other(2) [of y] others [of y] separateD(3) [OF sep, of y] num by (cases "y = x") auto
  ultimately show ?thesis by (auto simp: separate_def)
qed

text \<open>A step that leaves the table and the objects that are registered.\<close>

lemma separate_same:
  assumes sep: "separate (s, w)" and table: "registered s' = registered s" and num: "w_next w \<le> w_next w'"
    and fds: "\<And>x. fds_of x w' = fds_of x w \<or> fds_of x w' = {} \<and> number x = w_next w"
  shows "separate (s', w')"
proof -
  have entries: "entry s' x n = entry s x n" for x n
    by (simp add: entry_iff table)
  have "fds_of x w' = fds_of x w" if "live s x" for x
    using fds [of x] separateD(3) [OF sep, of x] that by auto
  then have holds: "holds (s', w') x = holds (s, w) x" "live s' x = live s x" for x
    using holds_cong [OF entries] by blast+
  have "number x < w_next w'" if "live s' x \<or> fds_of x w' \<noteq> {}" for x
  proof -
    have "live s x \<or> fds_of x w \<noteq> {}"
      using that fds [of x] holds(2) by auto
    with separateD(3) [OF sep] num show ?thesis by fastforce
  qed
  moreover have "mine UNIV x s' fd" if "mine UNIV x s fd" for x fd
    using that by (simp add: mine_def table)
  ultimately show ?thesis
    using sep holds by (auto simp: separate_def)
qed

section \<open>Runs\<close>

definition give :: "answer list \<Rightarrow> world \<Rightarrow> world" where
  "give xs w = w\<lparr>w_answers := xs\<rparr>"

definition admin_key :: "nat \<Rightarrow> nat \<Rightarrow> key" where
  "admin_key a fd = \<lparr>k_fd = int fd, k_data = Some (Mng_at a)\<rparr>"

text \<open>The handler of an entry: that of the object it was registered with, and the key of the entry.\<close>

fun handle_event :: "readiness \<Rightarrow> object \<Rightarrow> nat \<Rightarrow> st \<Rightarrow> st result" where
  "handle_event r (Socks_at b) n = ready r (conn_key b n)"
| "handle_event Readable (Mng_at b) n = mng_read (admin_key b n)"
| "handle_event Writable (Mng_at b) n = mng_write (admin_key b n)"
| "handle_event Unblocked (Mng_at b) n = mng_block (admin_key b n)"

text \<open>The descriptors that \<open>socket\<close> and \<open>accept\<close> answer are not those that somebody holds.\<close>

definition fresh :: "answer list \<Rightarrow> st \<Rightarrow> bool" where
  "fresh xs sw \<longleftrightarrow> (\<forall>fd. NewSocket fd \<in> set xs \<or> (\<exists>addr. Accepted fd addr \<in> set xs) \<longrightarrow>
     0 \<le> fd \<and> registered (fst sw) (nat fd) = None \<and> (\<forall>x. fd \<notin> holds sw x))"

text \<open>At the start nothing but the passive sockets is registered.\<close>

definition waiting :: "st \<Rightarrow> bool" where
  "waiting sw \<longleftrightarrow> (\<forall>n i h d. registered (fst sw) n = Some (i, h, d) \<longrightarrow> h \<in> {Some H_socks5_passive, Some H_mng_passive}) \<and>
     w_socks (snd sw) = Map.empty \<and> w_mngs (snd sw) = Map.empty"

text \<open>
  The states that a run leads to that starts in the world \<open>w0\<close>; all of them have the property \<open>P\<close>. An event reaches
  the object of the entry of its descriptor. A resolver thread works on the key that it was started with.
\<close>

inductive server_run :: "(world \<Rightarrow> bool) \<Rightarrow> world \<Rightarrow> st \<Rightarrow> bool" for P w0 where
  start: "waiting (s, w0) \<Longrightarrow> P w0 \<Longrightarrow> server_run P w0 (s, w0)"
| client: "server_run P w0 (s, w) \<Longrightarrow> fresh xs (s, w) \<Longrightarrow>
    socks5_passive_accept key (s, give xs w) = Inr (s', w') \<Longrightarrow> P w' \<Longrightarrow> server_run P w0 (s', w')"
| admin: "server_run P w0 (s, w) \<Longrightarrow> fresh xs (s, w) \<Longrightarrow>
    mng_passive_accept key (s, give xs w) = Inr (s', w') \<Longrightarrow> P w' \<Longrightarrow> server_run P w0 (s', w')"
| event: "server_run P w0 (s, w) \<Longrightarrow> fresh xs (s, w) \<Longrightarrow> entry s x n \<Longrightarrow>
    handle_event r x n (s, give xs w) = Inr (s', w') \<Longrightarrow> P w' \<Longrightarrow> server_run P w0 (s', w')"
| resolver: "server_run P w0 (s, w) \<Longrightarrow> key \<in> set (w_threads w) \<Longrightarrow>
    request_resolv_blocking key (s, give xs w) = Inr (s', w') \<Longrightarrow> P w' \<Longrightarrow> server_run P w0 (s', w')"

lemma give_simps [simp]: "w_socks (give xs w) = w_socks w" "w_mngs (give xs w) = w_mngs w" "w_next (give xs w) = w_next w"
    "w_config (give xs w) = w_config w" "w_events (give xs w) = w_events w" "w_answers (give xs w) = xs"
    "fds_of x (give xs w) = fds_of x w" "holds (s, give xs w) x = holds (s, w) x"
  by (simp_all add: give_def) (cases x; simp add: holds_def)+

lemma mine_UNIV: "mine UNIV x s fd \<Longrightarrow> fd \<in> F \<Longrightarrow> mine F x s fd"
  by (simp add: mine_def)

lemma entry_holds: "entry s x n \<Longrightarrow> int n \<in> holds (s, w) x"
  by (auto simp: holds_def live_def)

lemma fds_mine:
  assumes "separate (s, w)" and "entry s x n" and "fd \<in> fds_of x w" and "holds (s, w) x \<subseteq> F"
  shows "mine F x s fd"
proof (cases "0 \<le> fd")
  case True
  with assms(2,3) have "fd \<in> holds (s, w) x"
    by (auto simp: holds_def live_def)
  with assms(1,4) show ?thesis
    by (auto intro: mine_UNIV separateD)
qed (simp add: mine_def)

text \<open>What the client in \<open>b\<close> deals with in one event, and that it is its own.\<close>

definition reach :: "answer list \<Rightarrow> st \<Rightarrow> object \<Rightarrow> int set" where
  "reach xs sw x = holds sw x \<union> {fd. NewSocket fd \<in> set xs}"

lemma reach_own:
  assumes "separate (s, w)" and "fresh xs (s, w)" and "entry s (Socks_at b) n"
  shows "own (reach xs (s, w) (Socks_at b)) b (int n) (s, give xs w)"
proof -
  let ?F = "reach xs (s, w) (Socks_at b)"
  have "mine ?F (Socks_at b) s fd" if "fd \<in> fds_of (Socks_at b) w" for fd
    using fds_mine [OF assms(1,3) that] by (simp add: reach_def)
  moreover have "mine ?F (Socks_at b) s (int n)"
    using entry_holds [OF assms(3)] separateD(2) [OF assms(1)] by (auto simp: reach_def intro: mine_UNIV)
  moreover have "mine ?F (Socks_at b) s fd" if "NewSocket fd \<in> set xs" for fd
    using assms(2) that by (auto simp: fresh_def mine_def reach_def)
  ultimately show ?thesis
    by (auto simp: own_def)
qed

lemma reach_others:
  "separate (s, w) \<Longrightarrow> fresh xs (s, w) \<Longrightarrow> y \<noteq> x \<Longrightarrow> reach xs (s, w) x \<inter> holds (s, w) y = {}"
  by (auto simp: reach_def fresh_def dest: separateD(1))

section \<open>Every step keeps the descriptors apart\<close>

lemma client_event_kept:
  assumes "separate (s, w)" and "fresh xs (s, w)" and "entry s (Socks_at b) n"
    and run: "ready r (conn_key b n) (s, give xs w) = Inr (s', w')"
  defines "F \<equiv> reach xs (s, w) (Socks_at b)"
  shows "own F b (int n) (s', w') \<and> table_kept F (Socks_at b) s s' \<and> others_kept b w w'"
proof -
  have "isolated F b (int n) (s, give xs w) (s', w')"
    using run by (cases r) (auto intro!: socks5_handlers_isolated [where key = "conn_key b n", simplified])
  with reach_own [OF assms(1-3)] show ?thesis
    by (auto simp: isolated_def F_def others_kept_def)
qed

lemma client_event_separate:
  assumes sep: "separate (s, w)" and fresh: "fresh xs (s, w)" and e: "entry s (Socks_at b) n"
    and run: "ready r (conn_key b n) (s, give xs w) = Inr (s', w')"
  shows "separate (s', w')"
proof -
  let ?x = "Socks_at b"
  note kept = client_event_kept [OF sep fresh e run]
  show ?thesis
  proof (rule separate_step [OF sep, of ?x "reach xs (s, w) ?x"])
    show "fds_of y w' = fds_of y w" if "y \<noteq> ?x" for y
      using kept that by (cases y) (auto simp: others_kept_def)
    show "mine (reach xs (s, w) ?x) ?x s' fd" if "fd \<in> fds_of ?x w'" for fd
      using kept that by (auto simp: own_def split: option.splits)
    show "number ?x < w_next w'"
      using kept separateD(3) [OF sep, of ?x] e by (auto simp: others_kept_def live_def)
  qed (use kept reach_others [OF sep fresh] in \<open>auto simp: reach_def others_kept_def\<close>)
qed

lemma admin_event_kept:
  assumes sep: "separate (s, w)" and e: "entry s (Mng_at b) n"
    and run: "handle_event r (Mng_at b) n (s, give xs w) = Inr (s', w')"
  defines "F \<equiv> reach xs (s, w) (Mng_at b)"
  shows "own_admin F b (int n) (s', w') \<and> table_kept F (Mng_at b) s s' \<and> admin_kept b w w'"
proof -
  have "own_admin F b (int n) (s, give xs w)"
    using fds_mine [OF sep e, where F = F] entry_holds [OF e, of w] separateD(2) [OF sep]
    by (auto simp: own_admin_def F_def reach_def intro: mine_UNIV)
  moreover have "admin_isolated F b (int n) (s, give xs w) (s', w')"
    using mng_handlers_isolated [of "admin_key b n" "(s, give xs w)" "(s', w')" b F] run
    by (cases r) (auto simp: admin_key_def ATTACH_def)
  ultimately show ?thesis
    by (auto simp: admin_isolated_def admin_kept_def)
qed

lemma admin_event_separate:
  assumes sep: "separate (s, w)" and fresh: "fresh xs (s, w)" and e: "entry s (Mng_at b) n"
    and run: "handle_event r (Mng_at b) n (s, give xs w) = Inr (s', w')"
  shows "separate (s', w')"
proof -
  let ?x = "Mng_at b" and ?F = "reach xs (s, w) (Mng_at b)"
  note kept = admin_event_kept [OF sep e run]
  show ?thesis
  proof (rule separate_step [OF sep, of ?x ?F])
    show "fds_of y w' = fds_of y w" if "y \<noteq> ?x" for y
      using kept that by (cases y) (auto simp: admin_kept_def)
    show "mine ?F ?x s' fd" if "fd \<in> fds_of ?x w'" for fd
      using kept that by (auto simp: own_admin_def split: option.splits)
    show "number ?x < w_next w'"
      using kept separateD(3) [OF sep, of ?x] e by (auto simp: admin_kept_def live_def)
  qed (use kept reach_others [OF sep fresh] in \<open>auto simp: reach_def admin_kept_def\<close>)
qed

lemma event_separate:
  "separate (s, w) \<Longrightarrow> fresh xs (s, w) \<Longrightarrow> entry s x n \<Longrightarrow> handle_event r x n (s, give xs w) = Inr (s', w') \<Longrightarrow>
   separate (s', w')"
  by (cases x) (auto intro: client_event_separate admin_event_separate)

lemma accepted_separate:
  assumes sep: "separate (s, w)" and x: "number x = w_next w" "w_next w' = w_next w + 1"
    and c: "0 \<le> c" "registered s (nat c) = None" "\<And>y. c \<notin> holds (s, w) y"
    and table: "registered s' = (registered s)(nat c \<mapsto> (i, Some (home x), Some x))"
    and fds: "\<And>y. y \<noteq> x \<Longrightarrow> fds_of y w' = fds_of y w" "fds_of x w' \<subseteq> {c, -1}"
  shows "separate (s', w')"
proof (rule separate_step [OF sep, of x "{c}"])
  have "\<not> live s x"
    using separateD(3) [OF sep, of x] x(1) by auto
  then show "holds (s, w) x \<subseteq> {c}"
    by (simp add: holds_def)
  show "table_kept {c} x s s'"
    using c table by (intro table_written [of s' s "nat c"]) (auto simp: mine_def)
  show "mine {c} x s' fd" if "fd \<in> fds_of x w'" for fd
    using fds(2) that table by (auto simp: mine_def)
qed (use x c fds in auto)

lemma away_separate:
  assumes "separate (s, w)" and "registered s' = registered s" and "turned_away (w_next w) w w'"
  shows "separate (s', w')"
proof (rule separate_same [OF assms(1,2)])
  show "w_next w \<le> w_next w'"
    using assms(3) by (simp add: turned_away_def)
  show "fds_of x w' = fds_of x w \<or> fds_of x w' = {} \<and> number x = w_next w" for x
    using assms(3) by (cases "number x = w_next w"; cases x) (auto simp: turned_away_def)
qed

lemma client_separate:
  assumes sep: "separate (s, w)" and "fresh xs (s, w)" and "socks5_passive_accept key (s, give xs w) = Inr (s', w')"
  shows "separate (s', w')"
  using assms(3)
proof (cases rule: accept_effect)
  case away
  with sep show ?thesis
    by (intro away_separate [OF sep]) (simp_all add: turned_away_def)
next
  case (accepted client addr)
  show ?thesis
  proof (rule accepted_separate [OF sep, of "Socks_at (w_next w)" w' client])
    show "fds_of y w' = fds_of y w" if "y \<noteq> Socks_at (w_next w)" for y
      using accepted(4) that by (cases y) (auto simp: new_client_def)
  qed (use accepted assms(2) in \<open>auto simp: fresh_def new_client_def\<close>)
qed

lemma admin_separate:
  assumes sep: "separate (s, w)" and "fresh xs (s, w)" and "mng_passive_accept key (s, give xs w) = Inr (s', w')"
  shows "separate (s', w')"
  using assms(3)
proof (cases rule: mng_accept_effect)
  case away
  with sep show ?thesis
    by (intro away_separate [OF sep]) (simp_all add: turned_away_def)
next
  case (accepted client addr)
  show ?thesis
  proof (rule accepted_separate [OF sep, of "Mng_at (w_next w)" w' client])
    show "fds_of y w' = fds_of y w" if "y \<noteq> Mng_at (w_next w)" for y
      using accepted(4) that by (cases y) (auto simp: new_admin_def)
  qed (use accepted assms(2) in \<open>auto simp: fresh_def new_admin_def\<close>)
qed

text \<open>The resolver thread writes the addresses into the object, and a job into the selector.\<close>

lemma resolver_effect:
  assumes "request_resolv_blocking key (s, w) = Inr (s', w')"
  obtains b o5 o' where "w_socks w b = Some o5" "w_socks w' = (w_socks w)(b \<mapsto> o')" "registered s' = registered s"
    "s5_client_fd o' = s5_client_fd o5" "s5_final_server_fd o' = s5_final_server_fd o5"
    "s5_stm_current o' = s5_stm_current o5" "s5_client_data o' = s5_client_data o5"
    "w_mngs w' = w_mngs w" "w_config w' = w_config w" "w_next w' = w_next w" "\<exists>es. w_events w' = w_events w @ es"
proof -
  obtain b o5 x w1 ais w2 mem e where r: "w_socks w b = Some o5" "next_answer w = Inr (x, w1)"
      "w2 = put_socks b (o5\<lparr>s5_server_resolution := ais, s5_current_server_resolution := ais\<rparr>) (emit e w1)"
      "sys_memory w2 = Inr (mem, w')" "s' = snd (selector_notify_block (mem 0) s (k_fd key))"
    using assms by (auto simp: request_resolv_blocking_def Let_def elim!: bind_res_InrE split: answer.splits)
  have "registered s' = registered s"
    using r(5) by (auto simp: selector_notify_block_def fun_eq_iff registered_def get_item_def)
  moreover have "alike w w1" "alike w2 w'"
    using alike_calls(1) [OF r(2)] r(4) by (auto simp: alike_def dest: quiet_dest same_dest)
  ultimately show ?thesis
    using that [OF r(1), of "o5\<lparr>s5_server_resolution := ais, s5_current_server_resolution := ais\<rparr>"] r(3)
    by (auto simp: alike_def quiet_def same_objects_def put_socks_def emit_def)
qed

lemma resolver_separate:
  assumes sep: "separate (s, w)" and "request_resolv_blocking key (s, give xs w) = Inr (s', w')"
  shows "separate (s', w')"
  using assms(2)
proof (cases rule: resolver_effect)
  case (1 b o5 o')
  have "fds_of x w' = fds_of x w" for x
    using 1 by (cases x) auto
  with 1 show ?thesis
    by (intro separate_same [OF sep]) simp_all
qed

lemma server_run_separate: "server_run P w0 sw \<Longrightarrow> separate sw"
proof (induction rule: server_run.induct)
  case (start s)
  have "fds_of x w0 = {}" "\<not> live s x" for x
    using start(1) by (cases x; auto simp: waiting_def live_def entry_iff)+
  then show ?case
    by (simp add: separate_def holds_def)
qed (auto intro: client_separate admin_separate event_separate resolver_separate)

section \<open>Isolation in a run\<close>

text \<open>What belongs to a connection: its object, and its entries of the table.\<close>

fun same_object :: "object \<Rightarrow> world \<Rightarrow> world \<Rightarrow> bool" where
  "same_object (Socks_at b) w w' \<longleftrightarrow> w_socks w' b = w_socks w b"
| "same_object (Mng_at b) w w' \<longleftrightarrow> w_mngs w' b = w_mngs w b"

lemma event_leaves:
  assumes "separate (s, w)" and "fresh xs (s, w)" and "entry s x n"
    and "handle_event r x n (s, give xs w) = Inr (s', w')"
  shows "table_kept (reach xs (s, w) x) x s s' \<and> (y \<noteq> x \<longrightarrow> same_object y w w') \<and>
    ((\<exists>b. x = Socks_at b) \<longrightarrow> w_config w' = w_config w)"
  using client_event_kept [OF assms(1,2)] admin_event_kept [OF assms(1)] assms(3,4)
  by (cases x; cases y) (fastforce simp: others_kept_def admin_kept_def)+

text \<open>C6. Connections do not reach into each other. In every state that a run of the server can be in, with any
  number of clients and administrators, an event of one connection - a request served, bytes relayed, a
  retry, an error, its end - leaves of every other connection the object, the entries of the selector and the
  descriptors it holds as they are, and the descriptors of any two are different. Only administrators change the configuration.\<close>

theorem connections_isolated:
  assumes "server_run P w0 (s, w)" and "fresh xs (s, w)" and "entry s x n"
    and "handle_event r x n (s, give xs w) = Inr (s', w')" and "y \<noteq> x"
  shows "same_object y w w' \<and> (\<forall>k. entry s' y k \<longleftrightarrow> entry s y k) \<and>
    (\<forall>k. entry s y k \<longrightarrow> registered s' k = registered s k) \<and> holds (s', w') y = holds (s, w) y \<and>
    holds (s', w') x \<inter> holds (s', w') y = {} \<and> ((\<exists>b. x = Socks_at b) \<longrightarrow> w_config w' = w_config w)"
proof -
  note sep = server_run_separate [OF assms(1)]
  let ?F = "reach xs (s, w) x"
  have kept: "table_kept ?F x s s' \<and> same_object y w w' \<and> ((\<exists>b. x = Socks_at b) \<longrightarrow> w_config w' = w_config w)"
    using event_leaves [OF sep assms(2-4)] assms(5) by blast
  have "registered s' k = registered s k" if "entry s y k" for k
  proof -
    have "\<not> mine ?F x s (int k)"
      using that assms(5) by (auto simp: mine_def entry_iff)
    with kept show ?thesis by (simp add: table_kept_def)
  qed
  moreover have "fds_of y w' = fds_of y w"
    using kept by (cases y) auto
  ultimately show ?thesis
    using kept entry_kept [of ?F x s s' y] holds_cong(1) [of s' y s w' w] assms(5)
      separateD(1) [OF event_separate [OF sep assms(2-4)]] by blast
qed

section \<open>Runs that can be computed\<close>

text \<open>What a step is, and what is checked before it.\<close>

datatype action = New_client "answer list" | New_admin "answer list" | Event readiness object nat "answer list"

fun answers_of :: "action \<Rightarrow> answer list" where
  "answers_of (New_client xs) = xs"
| "answers_of (New_admin xs) = xs"
| "answers_of (Event r x n xs) = xs"

fun new_fds :: "answer \<Rightarrow> int list" where
  "new_fds (NewSocket fd) = [fd]"
| "new_fds (Accepted fd addr) = [fd]"
| "new_fds _ = []"

definition unheld :: "st \<Rightarrow> int \<Rightarrow> bool" where
  "unheld sw fd \<longleftrightarrow> 0 \<le> fd \<and> registered (fst sw) (nat fd) = None \<and>
     list_all (\<lambda>n. case registered (fst sw) n of Some (i, h, Some x) \<Rightarrow> fd \<notin> fds_of x (snd sw) | _ \<Rightarrow> True)
       [0..<fd_size (fst sw)]"

fun take_action :: "action \<Rightarrow> st \<Rightarrow> st result" where
  "take_action (New_client xs) sw = socks5_passive_accept \<lparr>k_fd = 3, k_data = None\<rparr> (fst sw, give xs (snd sw))"
| "take_action (New_admin xs) sw = mng_passive_accept \<lparr>k_fd = 5, k_data = None\<rparr> (fst sw, give xs (snd sw))"
| "take_action (Event r x n xs) sw =
     (if entry (fst sw) x n then handle_event r x n (fst sw, give xs (snd sw)) else Inl NoAnswer)"

fun play :: "(world \<Rightarrow> bool) \<Rightarrow> action list \<Rightarrow> st \<Rightarrow> st result" where
  "play P [] sw = Inr sw"
| "play P (a # as) sw =
     (if list_all (unheld sw) (concat (map new_fds (answers_of a))) then
        bind_res (take_action a sw) (\<lambda>sw. if P (snd sw) then play P as sw else Inl NoAnswer)
      else Inl NoAnswer)"

lemma registered_bound: "fd_size s \<le> n \<Longrightarrow> registered s n = None"
  by (auto simp: registered_def get_item_def load_at_def fd_size_def split: option.splits)

lemma unheld_not_held:
  assumes "unheld (s, w) fd"
  shows "fd \<notin> holds (s, w) x"
proof
  assume "fd \<in> holds (s, w) x"
  then obtain n where n: "entry s x n" "fd \<in> fds_of x w \<or> entry s x (nat fd)"
    by (auto simp: holds_def live_def split: if_splits)
  then obtain i where i: "registered s n = Some (i, Some (home x), Some x)"
    by (auto simp: entry_iff)
  with registered_bound [of s n] have "n < fd_size s"
    by (cases "fd_size s \<le> n") simp_all
  with i assms have "fd \<notin> fds_of x w" "registered s (nat fd) = None"
    by (force simp: unheld_def list_all_iff)+
  with n(2) show False by (simp add: entry_iff)
qed

lemma new_fds_fresh:
  assumes "list_all (unheld (s, w)) (concat (map new_fds xs))"
  shows "fresh xs (s, w)"
proof -
  have "unheld (s, w) fd" if "NewSocket fd \<in> set xs \<or> (\<exists>addr. Accepted fd addr \<in> set xs)" for fd
    using assms that by (fastforce simp: list_all_iff)
  then show ?thesis
    using unheld_not_held by (auto simp: fresh_def unheld_def)
qed

lemma play_run: "play P as sw = Inr sw' \<Longrightarrow> server_run P w0 sw \<Longrightarrow> server_run P w0 sw'"
proof (induction as arbitrary: sw)
  case (Cons a as)
  obtain s w where sw: "sw = (s, w)" by (cases sw)
  obtain s1 w1 where 1: "take_action a (s, w) = Inr (s1, w1)" "P w1" "play P as (s1, w1) = Inr sw'"
      "fresh (answers_of a) (s, w)"
    using Cons.prems(1) sw by (auto elim!: bind_res_InrE dest!: new_fds_fresh split: if_splits)
  have "server_run P w0 (s1, w1)"
    using Cons.prems(2) 1(1,2,4) sw
    by (cases a) (auto split: if_splits intro: server_run.client server_run.admin server_run.event)
  with Cons.IH 1(3) show ?case by blast
qed simp

text \<open>A server with its two kinds of passive sockets, and what \<open>accept\<close> and \<open>malloc\<close> answer.\<close>

definition passive_selector :: sel where
  "passive_selector = \<lparr>s_fds = Some (replicate 3 (zero_item\<lparr>it_fd := FD_UNUSED\<rparr>) @
       [\<lparr>it_fd = 3, it_interest = OP_READ, it_handler = Some H_socks5_passive, it_data = None\<rparr>,
        zero_item\<lparr>it_fd := FD_UNUSED\<rparr>,
        \<lparr>it_fd = 5, it_interest = OP_READ, it_handler = Some H_mng_passive, it_data = None\<rparr>] @
       replicate 4 (zero_item\<lparr>it_fd := FD_UNUSED\<rparr>)),
     s_max_fd = 5, s_master_r = {3, 5}, s_master_w = {}, s_slave_r = {}, s_slave_w = {}, s_resolution_jobs = []\<rparr>"

definition first_world :: world where
  "first_world = (example_world [])\<lparr>w_config := example_config\<lparr>cf_socks_buffer_size := 16\<rparr>,
     w_socks := Map.empty, w_next := 0\<rparr>"

definition a_client :: "int \<Rightarrow> action" where
  "a_client fd = New_client [Accepted fd (replicate 16 0), NewSocks example_socks, Bytes (replicate 16 0),
     Bytes (replicate 16 0), NioSet True]"

lemma passive_waiting: "waiting (passive_selector, first_world)"
proof -
  have "registered passive_selector n = (if n = 3 then Some (OP_READ, Some H_socks5_passive, None)
      else if n = 5 then Some (OP_READ, Some H_mng_passive, None) else None)" for n
    by (auto simp: registered_def get_item_def load_at_def passive_selector_def ITEM_USED_def FD_UNUSED_def nth_append
        nth_Cons' split: if_splits)
  then show ?thesis
    by (auto simp: waiting_def first_world_def example_world_def split: if_splits)
qed

text \<open>Two clients; what the first sends is an error, and its connection ends.\<close>

theorem connections_isolated_witness:
  "\<exists>s w s' w'. server_run (\<lambda>_. True) first_world (s, w) \<and> entry s (Socks_at 1) 7 \<and>
     handle_event Readable (Socks_at 0) 6 (s, give [RecvFails] w) = Inr (s', w') \<and> w_socks w' 0 = None \<and>
     w_socks w' 1 = w_socks w 1 \<and> entry s' (Socks_at 1) 7"
proof -
  have "case play (\<lambda>_. True) [a_client 6, a_client 7] (passive_selector, first_world) of
      Inl _ \<Rightarrow> False
    | Inr sw \<Rightarrow> entry (fst sw) (Socks_at 0) 6 \<and> entry (fst sw) (Socks_at 1) 7 \<and>
        (case handle_event Readable (Socks_at 0) 6 (fst sw, give [RecvFails] (snd sw)) of
           Inl _ \<Rightarrow> False | Inr (s', w') \<Rightarrow> w_socks w' 0 = None)"
    by code_simp
  then obtain s w s' w' where run: "play (\<lambda>_. True) [a_client 6, a_client 7] (passive_selector, first_world) = Inr (s, w)"
      "entry s (Socks_at 0) 6" "entry s (Socks_at 1) 7"
      "handle_event Readable (Socks_at 0) 6 (s, give [RecvFails] w) = Inr (s', w')" "w_socks w' 0 = None"
    by (auto split: sum.splits)
  have started: "server_run (\<lambda>_. True) first_world (s, w)"
    using play_run [OF run(1)] server_run.start [OF passive_waiting] by simp
  from connections_isolated [OF this new_fds_fresh run(2,4), of "Socks_at 1"] run(3)
  have "w_socks w' 1 = w_socks w 1" "entry s' (Socks_at 1) 7"
    by simp_all
  with started run(3-5) show ?thesis
    by blast
qed

end
