(* ===== verification/AdminConnection.thy ===== *)
theory AdminConnection
  imports MngRequests WholeServer
begin

text \<open>
  An administrator's connection from \<open>accept\<close> to its first request, or to its end when the password is not the token.
\<close>

section \<open>The login\<close>

text \<open>What \<open>accept\<close> needs to go well: a free descriptor, room for a connection, and arrays of the size they are declared with.\<close>

definition admin_acceptable :: "sel \<Rightarrow> nat \<Rightarrow> world \<Rightarrow> u8 list \<Rightarrow> mng \<Rightarrow> bool" where
  "admin_acceptable s c w addr junk \<longleftrightarrow> selector_ok s \<and> registered s c = None \<and> c < fd_size s \<and> c < ITEMS_MAX_SIZE \<and>
     sint (get_current_conn (w_metrics w)) \<le> MAX_CONNECTIONS \<and> length addr \<le> length (mg_client_addr junk) \<and>
     length (b_mem (mg_write_buffer junk)) = MNG_BUFFER_SIZE \<and> length (b_mem (mg_read_buffer junk)) = MNG_BUFFER_SIZE \<and>
     length (b_mem (mg_aux_buffer junk)) = MNG_BUFFER_SIZE"

lemma admin_key_simps [simp]: "ATTACH (admin_key b n) = Inr b" "k_fd (admin_key b n) = int n"
  by (simp_all add: admin_key_def ATTACH_def)

lemma mng_accepted:
  assumes ok: "admin_acceptable s c w addr junk"
    and ans: "w_answers w = Accepted (int c) addr # NewMng junk # NioSet True # xs"
  obtains s' m where "mng_passive_accept key (s, w) = Inr (s', put_mng (w_next w) m
      (w\<lparr>w_next := w_next w + 1, w_metrics := add_connecting_clients (w_metrics w), w_answers := xs\<rparr>))"
    "selector_ok s'" "registered s' = (registered s)(c \<mapsto> (OP_READ, Some H_mng, Some (Mng_at (w_next w))))" "fd_size s' = fd_size s"
    "mg_stm_current m = None" "mg_status m = OK" "mg_client_fd m = int c" "buffer_ok (mg_read_buffer m)" "buffer_ok (mg_write_buffer m)"
    "pending (mg_read_buffer m) = []" "pending (mg_write_buffer m) = []"
    "shape (mg_read_buffer m) = (MNG_BUFFER_SIZE + 1, MNG_BUFFER_SIZE)" "room (mg_read_buffer m) = MNG_BUFFER_SIZE"
    "shape (mg_write_buffer m) = (MNG_BUFFER_SIZE + 1, MNG_BUFFER_SIZE)" "room (mg_write_buffer m) = MNG_BUFFER_SIZE"
proof -
  let ?a = "w_next w"
  obtain s' where s': "selector_register False zero_item s (int c) (Some H_mng) OP_READ (Some (Mng_at ?a)) =
        Inr (SELECTOR_SUCCESS, s')" "selector_ok s'"
      "registered s' = (registered s)(c \<mapsto> (OP_READ, Some H_mng, Some (Mng_at ?a)))" "fd_size s' = fd_size s"
    using selector_register_ok [of s c] ok unfolding admin_acceptable_def by blast
  obtain client where client: "store_range (mg_client_addr junk) 0 addr = Inr client"
    using ok by (simp add: store_range_def admin_acceptable_def)
  let ?m = "junk\<lparr>mg_stm_current := None, mg_write_buffer := buffer_init (MNG_BUFFER_SIZE + 1) (b_mem (mg_write_buffer junk)),
    mg_read_buffer := buffer_init (MNG_BUFFER_SIZE + 1) (b_mem (mg_read_buffer junk)),
    mg_aux_buffer := buffer_init (MNG_BUFFER_SIZE + 1) (b_mem (mg_aux_buffer junk)),
    mg_client_fd := int c, mg_client_addr := client, mg_client_addr_len := length addr, mg_status := OK\<rparr>"
  have "mng_passive_accept key (s, w) = Inr (s', put_mng ?a ?m
      (w\<lparr>w_next := ?a + 1, w_metrics := add_connecting_clients (w_metrics w), w_answers := xs\<rparr>))"
    using ans ok client s'(1)
    by (simp add: mng_passive_accept_def mng_new_def next_answer_def Let_def fresh_init put_mng_simps get_mng_def
        admin_acceptable_def selector_fd_set_nio_def) (simp add: put_mng_def)
  then show ?thesis
    by (rule that [OF _ s'(2-4)]) (use ok in \<open>simp_all add: buffer_init_def buffer_dims pending_def admin_acceptable_def\<close>)
qed

text \<open>The first event starts the machine.\<close>

lemma mng_first:
  assumes "ATTACH key = Inr a" and "w_mngs w a = Some m" and "mg_stm_current m = None"
  shows "mng_deliver Mng_readable key (s, w) = mng_deliver Mng_readable key (s, put_mng a (m\<lparr>
    mg_stm_current := Some CONNECT_READ, mg_parsers := MP_connect (admin_connect_parser_init blank_connect)\<rparr>) w)"
proof -
  have "CONNECT_READ \<le> MNG_ERROR"
    by (simp add: mng_state_defs)
  with assms show ?thesis
    by (simp add: stm_handler_read_def stm_handler_def handle_first_def mng_current_def get_mng_def put_mng_def
        call_arrival_def mng_load mng_connect_read_init_def init_parser_def)
qed

definition sound_mng :: "mng \<Rightarrow> bool" where
  "sound_mng m \<longleftrightarrow> buffer_ok (mg_read_buffer m) \<and> buffer_ok (mg_write_buffer m) \<and>
     shape (mg_read_buffer m) = (MNG_BUFFER_SIZE + 1, MNG_BUFFER_SIZE) \<and>
     shape (mg_write_buffer m) = (MNG_BUFFER_SIZE + 1, MNG_BUFFER_SIZE)"

lemma admin_read_token:
  assumes s: "selector_ok s" "registered s c = Some (j, h, d)" "c < ITEMS_MAX_SIZE"
    and m: "w_mngs w a = Some m" "mg_stm_current m = None" "mg_status m = OK" "sound_mng m"
      "pending (mg_read_buffer m) = []" "room (mg_read_buffer m) = MNG_BUFFER_SIZE"
      "pending (mg_write_buffer m) = []" "room (mg_write_buffer m) = MNG_BUFFER_SIZE"
    and t: "w_answers w = RecvBytes (connect_message t) # xs" "holds_str (cf_mng_token (w_config w)) u" "t \<noteq> []" "length t < 255"
      "0 \<notin> set t"
  shows "\<exists>s' m'. mng_read (admin_key a c) (s, w) =
      Inr (s', put_mng a m' (emit (TokenChecked a (t = u)) (w\<lparr>w_answers := xs\<rparr>))) \<and>
    selector_ok s' \<and> registered s' = (registered s)(c \<mapsto> (OP_WRITE, h, d)) \<and> fd_size s' = fd_size s \<and>
    mg_stm_current m' = Some CONNECT_WRITE \<and>
    mg_status m' = (if t = u then OK else CLOSE) \<and> sound_mng m' \<and>
    pending (mg_write_buffer m') = [if t = u then 0 else 4] \<and> mg_client_fd m' = mg_client_fd m"
proof -
  let ?key = "admin_key a c" and ?p = "admin_connect_parser_init blank_connect"
  let ?m = "m\<lparr>mg_stm_current := Some CONNECT_READ, mg_parsers := MP_connect ?p\<rparr>"
  let ?w = "put_mng a ?m w"
  have "\<exists>s' b'. selector_ok s' \<and> registered s' = (registered s)(c \<mapsto> (OP_WRITE, h, d)) \<and> fd_size s' = fd_size s \<and>
      buffer_ok b' \<and> pending b' = [] \<and> shape b' = shape (mg_read_buffer ?m) \<and>
      mng_receive CONNECT_READ CONNECT_WRITE connect_parser MP_connect admin_connect_consume admin_connect_is_done connect_act ?key (s, ?w) =
        bind_res (connect_act a (connect_accepted t) (connect_failed (ac_state (connect_accepted t)))
            (?m\<lparr>mg_read_buffer := b', mg_parsers := MP_connect (connect_accepted t)\<rparr>) (?w\<lparr>w_answers := xs\<rparr>))
          (\<lambda>(err, m, w). Inr (if err then MNG_ERROR else CONNECT_WRITE, s', put_mng a m w))"
    using s m t connect_run_message [of t blank_connect "[]"]
    by (intro admin_connect.mng_receive_message [where p = ?p and bs = "connect_message t"])
      (auto simp: put_mng_def sound_mng_def connect_message_def MNG_BUFFER_SIZE_def connect_final_def connect_accepted_def
        admin_connect_consume_def)
  then obtain s' b' where s': "selector_ok s'" "registered s' = (registered s)(c \<mapsto> (OP_WRITE, h, d))"
      "buffer_ok b'" "shape b' = shape (mg_read_buffer m)" "fd_size s' = fd_size s"
      "mng_connect_read ?key (s, ?w) =
        bind_res (connect_act a (connect_accepted t) False
            (?m\<lparr>mg_read_buffer := b', mg_parsers := MP_connect (connect_accepted t)\<rparr>) (?w\<lparr>w_answers := xs\<rparr>))
          (\<lambda>(err, m, w). Inr (if err then MNG_ERROR else CONNECT_WRITE, s', put_mng a m w))"
    by (auto simp: mng_connect_read_def connect_accepted_def connect_failed_def)
  let ?m1 = "?m\<lparr>mg_read_buffer := b', mg_parsers := MP_connect (connect_accepted t)\<rparr>"
  have accepted: "ac_state (connect_accepted t) = admin_connect_done"
    by (simp add: connect_accepted_def)
  obtain wb where wb: "status_reply (mg_write_buffer m) (if t = u then 0 else 4) = Inr (1, wb)" "buffer_ok wb"
      "pending wb = [if t = u then 0 else 4]"
      "shape wb = shape (mg_write_buffer m)"
    by (rule status_reply_ok [of "mg_write_buffer m" "if t = u then 0 else 4"]) (use m in \<open>auto simp: sound_mng_def MNG_BUFFER_SIZE_def\<close>)
  let ?m2 = "?m\<lparr>mg_read_buffer := b', mg_parsers := MP_connect (connect_accepted t), mg_write_buffer := wb,
    mg_status := if t = u then OK else CLOSE\<rparr>"
  have "holds_str (cw_passwd (ac_password (connect_accepted t))) t"
    using t(5) by (auto simp: connect_accepted_def holds_str_iff)
  then have "checkToken (w_config w) (cw_passwd (ac_password (connect_accepted t))) = Inr (if t = u then 1 else 0)"
    using checkToken_ok [OF t(2)] by auto
  then have act: "connect_act a (connect_accepted t) False ?m1 (?w\<lparr>w_answers := xs\<rparr>) =
      Inr (False, ?m2, emit (TokenChecked a (t = u)) (?w\<lparr>w_answers := xs\<rparr>))"
    using wb(1) by (auto simp: connect_act_def accepted Let_def put_mng_def mng_answer_def admin_connect_marshall_def)
      (auto simp: m(3) emit_def intro!: mng.equality)
  have read: "mng_connect_read ?key (s, ?w) = Inr (CONNECT_WRITE, s', put_mng a ?m2 (emit (TokenChecked a (t = u)) (w\<lparr>w_answers := xs\<rparr>)))"
    by (subst s'(6), subst act) (simp add: put_mng_def emit_def)
  have "mng_deliver Mng_readable ?key (s, ?w) = Inr (CONNECT_WRITE, s',
      put_mng a (?m2\<lparr>mg_stm_current := Some CONNECT_WRITE\<rparr>) (emit (TokenChecked a (t = u)) (w\<lparr>w_answers := xs\<rparr>)))"
    using mng_deliver_run [of ?key a ?w ?m CONNECT_READ "mng_connect_read ?key" s] read
      mng_jump(1) [of ?key a "put_mng a ?m2 (emit (TokenChecked a (t = u)) (w\<lparr>w_answers := xs\<rparr>))" ?m2 CONNECT_READ CONNECT_WRITE s']
    by (simp add: put_mng_simps) (simp add: mng_state_defs)
  then have "mng_read ?key (s, w) = Inr (s', put_mng a (?m2\<lparr>mg_stm_current := Some CONNECT_WRITE\<rparr>)
      (emit (TokenChecked a (t = u)) (w\<lparr>w_answers := xs\<rparr>)))"
    using mng_first [of ?key a w m s] m(1,2)
    by (simp add: mng_read_def mng_ready_def) (simp add: mng_state_defs)
  with s'(1-5) wb m(3,4) show ?thesis
    by (intro exI [of _ s'] exI [of _ "?m2\<lparr>mg_stm_current := Some CONNECT_WRITE\<rparr>"]) (simp add: sound_mng_def)
qed

section \<open>The answer\<close>

lemma mng_deliver_write:
  assumes "ATTACH key = Inr a" and "w_mngs w a = Some m" and "mg_stm_current m = Some n" and "n \<le> MNG_ERROR"
    and "sd_on_write_ready (mng_state_definition key ! n) = Some f"
  shows "mng_deliver Mng_writable key (s, w) =
    bind_res (f (s, w)) (\<lambda>(ret, w). bind_res (stm_jump (mng_stm key) ret w) (\<lambda>w. Inr (ret, w)))"
  using assms by (simp add: stm_handler_write_def stm_handler_def handle_first_def mng_current_def get_mng_def
      mng_load)

text \<open>After the token the connection waits for a request; after another password it is at its end.\<close>

lemma admin_write_token:
  assumes s: "selector_ok s" "registered s c = Some (j, h, d)" "c < ITEMS_MAX_SIZE"
    and m: "w_mngs w a = Some m" "mg_stm_current m = Some CONNECT_WRITE" "sound_mng m" "pending (mg_write_buffer m) = [x]"
    and ans: "w_answers w = SentBytes 1 # xs"
  shows "\<exists>s' b'. shape b' = shape (mg_write_buffer m) \<and>
    mng_deliver Mng_writable (admin_key a c) (s, w) =
      Inr (if mg_status m = OK then REQUEST else MNG_DONE, s', put_mng a
        (m\<lparr>mg_write_buffer := b', mg_stm_current := Some (if mg_status m = OK then REQUEST else MNG_DONE)\<rparr>)
        (emit (SentTo (int c) [x]) (w\<lparr>w_answers := xs\<rparr>))) \<and>
    selector_ok s' \<and> registered s' = (if mg_status m = OK then (registered s)(c \<mapsto> (OP_READ, h, d)) else registered s) \<and>
    fd_size s' = fd_size s"
proof -
  let ?key = "admin_key a c"
  obtain b' where b': "buffer_read_adv (mg_write_buffer m) 1 = Inr b'" "buffer_ok b'" "pending b' = []"
      "shape b' = shape (mg_write_buffer m)"
    using buffer_read_adv_ok [of "mg_write_buffer m" 1] m(3,4) by (auto simp: sound_mng_def)
  obtain s' where s': "selector_set_interest s (int c) OP_READ = Inr (SELECTOR_SUCCESS, s')" "selector_ok s'"
      "registered s' = (registered s)(c \<mapsto> (OP_READ, h, d))" "fd_size s' = fd_size s"
    using selector_set_interest_ok [OF s] by blast
  let ?s = "if mg_status m = OK then s' else s" and ?t = "if mg_status m = OK then REQUEST else MNG_DONE"
  let ?w = "put_mng a (m\<lparr>mg_write_buffer := b'\<rparr>) (emit (SentTo (int c) [x]) (w\<lparr>w_answers := xs\<rparr>))"
  have le: "CONNECT_WRITE \<le> MNG_ERROR"
    by (simp add: mng_state_defs)
  have closed: "mg_status m \<noteq> OK \<longleftrightarrow> mg_status m = CLOSE"
    by (cases "mg_status m") auto
  have run: "mng_connect_write ?key (s, w) = Inr (?t, ?s, ?w)"
    using send_from_bytes [of "mg_write_buffer m" w 1 xs "int c"] m(1,3,4) ans b' s'(1)
    by (auto simp: mng_connect_write_def get_mng_def sound_mng_def Let_def can_read_iff closed)
  have "stm_jump (mng_stm ?key) ?t (?s, ?w) = Inr (?s, put_mng a (m\<lparr>mg_write_buffer := b', mg_stm_current := Some ?t\<rparr>) ?w)"
    using mng_jump(1) [of ?key a ?w "m\<lparr>mg_write_buffer := b'\<rparr>" CONNECT_WRITE ?t ?s] m(2)
    by (auto simp: put_mng_simps) (simp_all add: mng_state_defs)
  with run have "mng_deliver Mng_writable ?key (s, w) =
      Inr (?t, ?s, put_mng a (m\<lparr>mg_write_buffer := b', mg_stm_current := Some ?t\<rparr>) ?w)"
    using mng_deliver_write [of ?key a w m CONNECT_WRITE "mng_connect_write ?key" s] m(1,2) le by simp
  then show ?thesis
    using b'(4) s' s(1) by (intro exI [of _ ?s] exI [of _ b']) (simp add: put_mng_simps)
qed

section \<open>From accept on\<close>

definition admin_answers :: "nat \<Rightarrow> u8 list \<Rightarrow> mng \<Rightarrow> u8 list \<Rightarrow> answer list" where
  "admin_answers c addr junk t = [Accepted (int c) addr, NewMng junk, NioSet True, RecvBytes (connect_message t), SentBytes 1]"

text \<open>The three steps, for a password that is the token or is not.\<close>

lemma admin_login_run:
  assumes ok: "admin_acceptable s c w addr junk" and ans: "w_answers w = admin_answers c addr junk t @ xs"
    and t: "holds_str (cf_mng_token (w_config w)) u" "t \<noteq> []" "length t < 255" "0 \<notin> set t"
  defines "b \<equiv> w_next w" and "st \<equiv> if t = u then REQUEST else MNG_DONE"
  defines "w' \<equiv> \<lambda>m. put_mng b m (w\<lparr>w_next := w_next w + 1, w_metrics := add_connecting_clients (w_metrics w), w_answers := xs,
    w_events := w_events w @ [TokenChecked b (t = u), SentTo (int c) [if t = u then 0 else 4]]\<rparr>)"
  shows "\<exists>s1 s' m. bind_res (mng_passive_accept key (s, w)) (mng_read (admin_key b c)) = Inr s1 \<and>
    mng_deliver Mng_writable (admin_key b c) s1 = Inr (st, s', w' m) \<and> selector_ok s' \<and> fd_size s' = fd_size s \<and>
    (\<exists>j. registered s' = (registered s)(c \<mapsto> (j, Some H_mng, Some (Mng_at b)))) \<and>
    mg_stm_current m = Some st \<and> mg_client_fd m = int c \<and>
    shape (mg_read_buffer m) = (MNG_BUFFER_SIZE + 1, MNG_BUFFER_SIZE) \<and>
    shape (mg_write_buffer m) = (MNG_BUFFER_SIZE + 1, MNG_BUFFER_SIZE)"
proof -
  have c: "c < ITEMS_MAX_SIZE"
    using ok by (simp add: admin_acceptable_def)
  have ans': "w_answers w = Accepted (int c) addr # NewMng junk # NioSet True # RecvBytes (connect_message t) # SentBytes 1 # xs"
    using ans by (simp add: admin_answers_def)
  let ?w1 = "\<lambda>m. put_mng b m (w\<lparr>w_next := w_next w + 1, w_metrics := add_connecting_clients (w_metrics w),
    w_answers := RecvBytes (connect_message t) # SentBytes 1 # xs\<rparr>)"
  obtain s1 m1 where 1: "mng_passive_accept key (s, w) = Inr (s1, ?w1 m1)" "selector_ok s1"
      "registered s1 = (registered s)(c \<mapsto> (OP_READ, Some H_mng, Some (Mng_at b)))" "fd_size s1 = fd_size s" "mg_stm_current m1 = None"
      "mg_status m1 = OK" "sound_mng m1" "mg_client_fd m1 = int c" "pending (mg_read_buffer m1) = []"
      "room (mg_read_buffer m1) = MNG_BUFFER_SIZE" "pending (mg_write_buffer m1) = []" "room (mg_write_buffer m1) = MNG_BUFFER_SIZE"
    unfolding b_def by (rule mng_accepted [OF ok ans', of key]) (auto simp: sound_mng_def)
  obtain s2 m2 where 2: "mng_read (admin_key b c) (s1, ?w1 m1) =
        Inr (s2, put_mng b m2 (emit (TokenChecked b (t = u)) ((?w1 m1)\<lparr>w_answers := SentBytes 1 # xs\<rparr>)))" "selector_ok s2"
      "registered s2 = (registered s1)(c \<mapsto> (OP_WRITE, Some H_mng, Some (Mng_at b)))" "fd_size s2 = fd_size s1" "mg_stm_current m2 = Some CONNECT_WRITE"
      "mg_status m2 = (if t = u then OK else CLOSE)" "sound_mng m2" "pending (mg_write_buffer m2) = [if t = u then 0 else 4]"
      "mg_client_fd m2 = int c"
    using admin_read_token [OF 1(2) _ c, of OP_READ "Some H_mng" "Some (Mng_at b)" "?w1 m1" b m1 t "SentBytes 1 # xs" u] 1(3-) t
    by (auto simp: put_mng_def)
  let ?w2 = "put_mng b m2 (emit (TokenChecked b (t = u)) ((?w1 m1)\<lparr>w_answers := SentBytes 1 # xs\<rparr>))"
  obtain s3 b3 where 3: "shape b3 = shape (mg_write_buffer m2)"
      "mng_deliver Mng_writable (admin_key b c) (s2, ?w2) = Inr (st, s3, put_mng b
        (m2\<lparr>mg_write_buffer := b3, mg_stm_current := Some st\<rparr>)
        (emit (SentTo (int c) [if t = u then 0 else 4]) (?w2\<lparr>w_answers := xs\<rparr>)))"
      "selector_ok s3" "registered s3 = (if t = u then (registered s2)(c \<mapsto> (OP_READ, Some H_mng, Some (Mng_at b))) else registered s2)"
      "fd_size s3 = fd_size s2"
    using admin_write_token [OF 2(2) _ c, of OP_WRITE "Some H_mng" "Some (Mng_at b)" ?w2 b m2 "if t = u then 0 else 4" xs] 2(3-)
    by (auto simp: put_mng_def st_def emit_def)
  let ?m3 = "m2\<lparr>mg_write_buffer := b3, mg_stm_current := Some st\<rparr>"
  let ?w3 = "put_mng b ?m3 (emit (SentTo (int c) [if t = u then 0 else 4]) (?w2\<lparr>w_answers := xs\<rparr>))"
  have opened: "bind_res (mng_passive_accept key (s, w)) (mng_read (admin_key b c)) = Inr (s2, ?w2)"
    using 1(1) 2(1) by simp
  have table: "\<exists>j. registered s3 = (registered s)(c \<mapsto> (j, Some H_mng, Some (Mng_at b)))"
    using 1(3) 2(3) 3(4) by (cases "t = u") auto
  have left: "?w3 = w' ?m3"
    by (simp add: w'_def put_mng_def emit_def)
  have object: "mg_stm_current ?m3 = Some st \<and> mg_client_fd ?m3 = int c \<and>
      shape (mg_read_buffer ?m3) = (MNG_BUFFER_SIZE + 1, MNG_BUFFER_SIZE) \<and>
      shape (mg_write_buffer ?m3) = (MNG_BUFFER_SIZE + 1, MNG_BUFFER_SIZE)"
    using 2(7,9) 3(1) by (simp add: sound_mng_def)
  show ?thesis
    using opened 3(2,3) 1(4) 2(4) 3(5) table object unfolding left by metis
qed

section \<open>From accept to the first request, or to the end\<close>

definition admin_session :: "key \<Rightarrow> nat \<Rightarrow> nat \<Rightarrow> st \<Rightarrow> st result" where
  "admin_session key b c sw = bind_res (bind_res (mng_passive_accept key sw) (mng_read (admin_key b c))) (mng_write (admin_key b c))"

lemma admin_opened:
  assumes "admin_acceptable s c w addr junk" and "w_answers w = admin_answers c addr junk t @ xs"
    and "holds_str (cf_mng_token (w_config w)) t" and "t \<noteq> []" "length t < 255" "0 \<notin> set t"
  defines "b \<equiv> w_next w"
  shows "\<exists>s' w' m. admin_session key b c (s, w) = Inr (s', w') \<and> at_request (admin_key b c) b (s', w') \<and>
    w' = put_mng b m (w\<lparr>w_next := b + 1, w_metrics := add_connecting_clients (w_metrics w), w_answers := xs,
      w_events := w_events w @ [TokenChecked b True, SentTo (int c) [0]]\<rparr>) \<and> fd_size s' = fd_size s \<and>
    (\<exists>j. registered s' = (registered s)(c \<mapsto> (j, Some H_mng, Some (Mng_at b))))"
proof -
  let ?w = "\<lambda>m. put_mng b m (w\<lparr>w_next := w_next w + 1, w_metrics := add_connecting_clients (w_metrics w), w_answers := xs,
    w_events := w_events w @ [TokenChecked b True, SentTo (int c) [0]]\<rparr>)"
  obtain s1 s' m where 1: "bind_res (mng_passive_accept key (s, w)) (mng_read (admin_key b c)) = Inr s1"
      "mng_deliver Mng_writable (admin_key b c) s1 = Inr (REQUEST, s', ?w m)" "selector_ok s'" "fd_size s' = fd_size s"
      "\<exists>j. registered s' = (registered s)(c \<mapsto> (j, Some H_mng, Some (Mng_at b)))" "mg_stm_current m = Some REQUEST"
      "shape (mg_read_buffer m) = (MNG_BUFFER_SIZE + 1, MNG_BUFFER_SIZE)"
      "shape (mg_write_buffer m) = (MNG_BUFFER_SIZE + 1, MNG_BUFFER_SIZE)"
    using admin_login_run [OF assms(1-3) assms(4-6), of key] unfolding simp_thms if_True b_def by blast
  have "admin_session key b c (s, w) = Inr (s', ?w m)"
    using 1(1,2) by (simp add: admin_session_def mng_write_def mng_ready_def mng_state_defs)
  moreover have "at_request (admin_key b c) b (s', ?w m)"
    using 1(3,5-8) assms(1) by (auto simp: at_request_def admin_acceptable_def shape_def put_mng_def)
  ultimately show ?thesis
    using 1(4,5) b_def by blast
qed

text \<open>C10. An administrator who presents the token is let in: the connection is accepted and registered, the token is
  checked and answered with status 0, and after these three events the connection waits for a request, in the very
  state from which the requests are answered. The configuration and the clients are as before.\<close>

theorem admin_opens:
  assumes "admin_acceptable s c w addr junk" and "w_answers w = admin_answers c addr junk t @ xs"
    and "holds_str (cf_mng_token (w_config w)) t" and "t \<noteq> []" "length t < 255" "0 \<notin> set t"
  shows "\<exists>s' w'. admin_session key (w_next w) c (s, w) = Inr (s', w') \<and>
    at_request (admin_key (w_next w) c) (w_next w) (s', w') \<and>
    (\<exists>j. registered s' = (registered s)(c \<mapsto> (j, Some H_mng, Some (Mng_at (w_next w))))) \<and>
    w_events w' = w_events w @ [TokenChecked (w_next w) True, SentTo (int c) [0]] \<and>
    w_config w' = w_config w \<and> w_socks w' = w_socks w \<and> w_answers w' = xs"
  using admin_opened [OF assms, of key] by (auto simp: put_mng_def)

text \<open>C11. An administrator with another password is answered with status 4 and thrown out: the descriptor is closed and
  unregistered, the object is freed, and configuration and table are as before.\<close>

theorem admin_refused:
  assumes "admin_acceptable s c w addr junk" and "w_answers w = admin_answers c addr junk t @ xs"
    and "holds_str (cf_mng_token (w_config w)) u" and "t \<noteq> u" and "t \<noteq> []" "length t < 255" "0 \<notin> set t"
  shows "\<exists>s' w'. admin_session key (w_next w) c (s, w) = Inr (s', w') \<and>
    selector_ok s' \<and> registered s' = registered s \<and> w_mngs w' (w_next w) = None \<and>
    w_events w' = w_events w @ [TokenChecked (w_next w) False, SentTo (int c) [4], Closed_fd (int c)] \<and>
    w_config w' = w_config w \<and> w_answers w' = xs"
proof -
  let ?b = "w_next w"
  let ?w = "\<lambda>m. put_mng ?b m (w\<lparr>w_next := w_next w + 1, w_metrics := add_connecting_clients (w_metrics w), w_answers := xs,
    w_events := w_events w @ [TokenChecked ?b False, SentTo (int c) [4]]\<rparr>)"
  obtain s1 s2 m j where 0: "bind_res (mng_passive_accept key (s, w)) (mng_read (admin_key ?b c)) = Inr s1"
      "mng_deliver Mng_writable (admin_key ?b c) s1 = Inr (MNG_DONE, s2, ?w m)" "selector_ok s2"
      "registered s2 = (registered s)(c \<mapsto> (j, Some H_mng, Some (Mng_at ?b)))" "mg_client_fd m = int c"
    using admin_login_run [OF assms(1-3) assms(5-7), of key] assms(4) by auto
  obtain w2 where 1: "w2 = ?w m" "w_mngs w2 ?b = Some m" "w_config w2 = w_config w" "w_answers w2 = xs"
      "w_events w2 = w_events w @ [TokenChecked ?b False, SentTo (int c) [4]]"
    by (simp add: put_mng_def)
  let ?w3 = "w2\<lparr>w_metrics := end_connecting_clients (w_metrics w2)\<rparr>"
  let ?w4 = "?w3\<lparr>w_mngs := (w_mngs ?w3)(?b := None)\<rparr>"
  have free: "registered s c = None" "c < ITEMS_MAX_SIZE"
    using assms(1) by (simp_all add: admin_acceptable_def)
  have "(case close_handler H_mng of None \<Rightarrow> Inr (s2, ?w3)
      | Some f \<Rightarrow> f \<lparr>k_fd = int c, k_data = Some (Mng_at ?b)\<rparr> (s2, ?w3)) = Inr (s2, ?w4)"
    using 1(2) by (simp add: mng_close_def ATTACH_def get_mng_def)
  then obtain s3 where s3: "selector_unregister_fd close_handler (int c) (s2, ?w3) = Inr (SELECTOR_SUCCESS, s3, ?w4)"
      "selector_ok s3" "registered s3 = (registered s2)(c := None)"
    using selector_unregister_ok [where s = s2 and ?s1.0 = s2 and fd = c and j = j and h = H_mng and d = "Some (Mng_at ?b)" and
        close = close_handler and w = ?w3 and ?w1.0 = ?w4] 0(3,4) free(2) by auto
  have "admin_session key ?b c (s, w) = Inr (s3, emit (Closed_fd (int c)) ?w4)"
    using 0(1,2,5) 1(1,2) s3(1)
    by (simp add: admin_session_def mng_write_def mng_ready_def mng_state_defs mng_done_def Let_def get_mng_def)
  moreover have "registered s3 = registered s"
    using s3(3) 0(4) free(1) by (simp add: fun_upd_idem)
  ultimately show ?thesis
    using s3(2) 1(3-5) by (simp add: emit_def)
qed

text \<open>The server of the whole-server runs, with an administrator's arrays as \<open>malloc\<close> leaves them.\<close>

definition fresh_mng :: mng where
  "fresh_mng = example_mng\<lparr>mg_read_buffer := (mg_read_buffer example_mng)\<lparr>b_mem := replicate MNG_BUFFER_SIZE 0\<rparr>,
     mg_write_buffer := (mg_write_buffer example_mng)\<lparr>b_mem := replicate MNG_BUFFER_SIZE 0\<rparr>,
     mg_aux_buffer := (mg_aux_buffer example_mng)\<lparr>b_mem := replicate MNG_BUFFER_SIZE 0\<rparr>\<rparr>"

lemma passive_registered: "registered passive_selector n =
    (if n = 3 then Some (OP_READ, Some H_socks5_passive, None)
     else if n = 5 then Some (OP_READ, Some H_mng_passive, None) else None)"
  by (auto simp: registered_def get_item_def load_at_def passive_selector_def ITEM_USED_def FD_UNUSED_def nth_append
      nth_Cons' split: if_splits)

lemma passive_selector_ok: "selector_ok passive_selector"
proof -
  obtain fds where fds: "s_fds passive_selector = Some fds" "length fds = 10"
    by (simp add: passive_selector_def)
  have "ITEM_USED (fds ! i) \<longrightarrow> it_fd (fds ! i) = int i \<and> it_handler (fds ! i) \<noteq> None \<and> i \<le> 5" if "i < 10" for i
    using fds(1) that
    by (auto simp: passive_selector_def ITEM_USED_def FD_UNUSED_def nth_append nth_Cons' split: if_splits)
  then have "items_ok fds 5"
    by (simp add: items_ok_def fds(2))
  moreover have "{i. wants OP_READ passive_selector i} = {3, 5}" "{i. wants OP_WRITE passive_selector i} = {}"
    by (auto simp: wants_def passive_registered OP_READ_def OP_WRITE_def split: if_splits)
  ultimately show ?thesis
    using fds by (simp add: selector_ok_def fd_size_def) (simp add: passive_selector_def)
qed

lemma first_world_simps:
  "w_next first_world = 0" "w_events first_world = []" "w_answers first_world = []"
  "holds_str (cf_mng_token (w_config first_world)) (butlast MNG_TOKEN)"
  by code_simp+

lemma first_admin_acceptable: "admin_acceptable passive_selector 6 (give xs first_world) (replicate 16 0) fresh_mng"
proof -
  have "6 < fd_size passive_selector" "sint (get_current_conn (w_metrics first_world)) \<le> MAX_CONNECTIONS"
    by code_simp+
  then show ?thesis
    by (simp add: admin_acceptable_def passive_selector_ok passive_registered fresh_mng_def example_mng_def ITEMS_MAX_SIZE_def
        give_def)
qed

theorem admin_opens_witness:
  "\<exists>s' w'. admin_session example_key 0 6 (passive_selector,
        give (admin_answers 6 (replicate 16 0) fresh_mng (butlast MNG_TOKEN)) first_world) = Inr (s', w') \<and>
    at_request (admin_key 0 6) 0 (s', w') \<and> w_events w' = [TokenChecked 0 True, SentTo 6 [0]]"
  using admin_opens [OF first_admin_acceptable, of _ "butlast MNG_TOKEN" "[]" example_key] first_world_simps
  by (auto simp: MNG_TOKEN_def give_def)

theorem admin_refused_witness:
  "\<exists>s' w'. admin_session example_key 0 6 (passive_selector,
        give (admin_answers 6 (replicate 16 0) fresh_mng [120]) first_world) = Inr (s', w') \<and>
    registered s' = registered passive_selector \<and> w_mngs w' 0 = None \<and>
    w_events w' = [TokenChecked 0 False, SentTo 6 [4], Closed_fd 6]"
  using admin_refused [OF first_admin_acceptable, of _ "[120]" "[]" "butlast MNG_TOKEN" example_key] first_world_simps
  by (auto simp: MNG_TOKEN_def give_def)

end
