(* ===== verification/Logins.thy ===== *)
theory Logins
  imports AdminConnection
begin

text \<open>
  What the runs of the server mean for its logins: every connection of a run is a session in the sense of \<open>Socks5\<close> and
  \<open>MngHandler\<close>, since what the others do is among the steps that a session allows.
\<close>

section \<open>The log only grows\<close>

definition grows :: "st \<Rightarrow> st \<Rightarrow> bool" where
  "grows sw sw' \<longleftrightarrow> (\<exists>es. w_events (snd sw') = w_events (snd sw) @ es)"

lemma grows_refl [simp]: "grows sw sw"
  by (simp add: grows_def)

lemma grows_trans: "grows sw sw' \<Longrightarrow> grows sw' sw'' \<Longrightarrow> grows sw sw''"
  by (auto simp: grows_def)

lemma grows_relation: "reflp grows" "transp grows"
  by (auto intro: reflpI transpI grows_trans)

lemma stays_grows: "stays a w w' \<Longrightarrow> grows (s, w) (s', w')"
  by (simp add: stays_def grows_def)

lemma auth_write_grows: "auth_write key (s, w) = Inr (t, s', w') \<Longrightarrow> grows (s, w) (s', w')"
  by (auto simp: auth_write_def grows_def quiet_def put_socks_def Let_def elim!: bind_res_InrE dest!: send_from_quiet
      split: if_splits option.splits)

lemma ready_grows:
  assumes "n \<le> ERROR" and a: "ATTACHMENT key = Inr a" and run: "f (s, w) = Inr (t, s', w')"
    and ready: "sd_on_read_ready (socks_state_definition key ! n) = Some f \<or>
      sd_on_write_ready (socks_state_definition key ! n) = Some f \<or>
      sd_on_block_ready (socks_state_definition key ! n) = Some f"
  shows "grows (s, w) (s', w')"
proof (cases "f = auth_write key")
  case True
  with run show ?thesis by (simp add: auth_write_grows)
next
  case False
  note next_state = hello_read_next [OF _ a] hello_write_next [OF _ a] auth_read_next [OF _ a]
    request_read_next [OF _ a] request_resolv_done_next [OF _ a]
    request_connecting_next [OF _ a] request_write_next [OF _ a] copy_read_next [OF _ a]
    copy_write_next [OF _ a]
  have "stays a w w'"
    using socks_ready_cases [OF assms(1) ready] run False
    by (elim disjE conjE; simp) (use next_state in fastforce)+
  then show ?thesis by (rule stays_grows)
qed

lemma deliver_grows:
  assumes run: "deliver r key sw = Inr (t, sw')" and a: "ATTACHMENT key = Inr a"
  shows "grows sw sw'"
proof -
  obtain on_ready where h: "stm_handler on_ready (socks_stm key) sw = Inr (t, sw')"
      "on_ready = sd_on_read_ready \<or> on_ready = sd_on_write_ready \<or> on_ready = sd_on_block_ready"
    using run by (cases r) (auto simp: stm_handler_read_def stm_handler_write_def stm_handler_block_def)
  have load: "n \<le> ERROR \<and> d = socks_state_definition key ! n" if "load_at (stm_states (socks_stm key)) n = Inr d" for n d
    using that by (auto simp: load_at_def socks_state_definition_def socks_state_defs split: if_splits)
  have set: "grows x y" if "set_current (stm_current (socks_stm key)) c x = Inr y" for c x y
    using that by (cases x) (auto simp: socks_current_def grows_def put_socks_def elim!: bind_res_InrE)
  have arr: "grows x y" if "call_arrival (socks_stm key) n x = Inr y" for n x y
    using that load [of n] socks_arrival_cases [of n key]
    by (cases x; cases y) (auto simp: call_arrival_def grows_def hello_read_init_def auth_read_init_def request_init_def
        request_connecting_init_def copy_init_def put_socks_def Let_def elim!: bind_res_InrE split: option.splits)
  have dep: "grows x y" if "call_departure (socks_stm key) n x = Inr y" for n x y
    using that load [of n] by (auto simp: call_departure_def socks_departure elim!: bind_res_InrE split: option.splits)
  obtain n d f sw1 sw2 where 1: "grows sw sw1" "load_at (stm_states (socks_stm key)) n = Inr d" "on_ready d = Some f"
      "f sw1 = Inr (t, sw2)" "grows sw2 sw'"
    by (rule stm_handlerE [OF h(1) grows_relation]) (erule set arr dep | rule that; assumption)+
  have "grows sw1 sw2"
    using ready_grows [of n key a f "fst sw1" "snd sw1" t "fst sw2" "snd sw2"] load [OF 1(2)] h(2) 1(3,4) a by auto
  with 1(1,5) show ?thesis
    by (blast intro: grows_trans)
qed

section \<open>The end of a connection\<close>

text \<open>Objects are given back or counted, but their machines stand still.\<close>

definition closing :: "world \<Rightarrow> world \<Rightarrow> bool" where
  "closing w w' \<longleftrightarrow> w_config w' = w_config w \<and> (\<exists>es. w_events w' = w_events w @ es) \<and>
     (\<forall>a o'. w_socks w' a = Some o' \<longrightarrow> (\<exists>o5. w_socks w a = Some o5 \<and> s5_stm_current o' = s5_stm_current o5 \<and>
        s5_client_data o' = s5_client_data o5)) \<and>
     (\<forall>a m'. w_mngs w' a = Some m' \<longrightarrow> w_mngs w a = Some m')"

lemma closing_refl [simp]: "closing w w"
  by (simp add: closing_def)

lemma closing_trans:
  assumes "closing w w'" and "closing w' w''"
  shows "closing w w''"
proof -
  have "\<exists>es. w_events w'' = w_events w @ es"
    using assms by (auto simp: closing_def)
  moreover have "\<exists>o5. w_socks w a = Some o5 \<and> s5_stm_current o' = s5_stm_current o5 \<and> s5_client_data o' = s5_client_data o5"
      if "w_socks w'' a = Some o'" for a o'
    using assms that unfolding closing_def by metis
  ultimately show ?thesis
    using assms by (simp add: closing_def)
qed

lemma alike_closing: "alike w w' \<Longrightarrow> closing w w'"
  by (auto simp: alike_def quiet_def closing_def)

lemma closing_emit: "closing w w' \<Longrightarrow> closing w (emit e w')"
  by (auto simp: closing_def emit_def)

lemma closing_metrics [simp]:
  "closing w (w'\<lparr>w_metrics := m\<rparr>) = closing w w'" "closing (w\<lparr>w_metrics := m\<rparr>) w' = closing w w'"
  by (simp_all add: closing_def)

lemma close_handler_closing:
  assumes "close_handler h = Some f" and "f key (s, w) = Inr (s', w')"
  shows "closing w w'"
  using assms by (cases h) (auto simp: socks5_close_def socks5_free_def mng_close_def closing_def put_socks_def
      elim!: bind_res_InrE split: if_splits)

lemma unregister_closing: "selector_unregister_fd close_handler fd (s, w) = Inr (r, s', w') \<Longrightarrow> closing w w'"
  by (auto simp: selector_unregister_fd_def Let_def elim!: bind_res_InrE split: if_splits option.splits)
    (erule (1) close_handler_closing)

lemma unregister_all_closing: "unregister_all fds (s, w) = Inr (s', w') \<Longrightarrow> closing w w'"
proof (induction fds arbitrary: s w)
  case (Cons fd fds)
  obtain s1 w1 where 1: "unregister_all fds (s1, emit (Closed_fd fd) w1) = Inr (s', w')"
      "(s1, w1) = (s, w) \<or> (\<exists>r. selector_unregister_fd close_handler fd (s, w) = Inr (r, s1, w1))"
    using Cons.prems(1) by (auto elim!: bind_res_InrE split: if_splits)
  have "closing w w1"
    using 1(2) unregister_closing by auto
  then show ?case
    using Cons.IH [OF 1(1)] by (blast intro: closing_trans closing_emit)
qed simp

lemma log_conn_closing: "log_conn a status w = Inr w' \<Longrightarrow> closing w w'"
  by (intro alike_closing alike_calls)

lemma socks5_done_closing:
  assumes "socks5_done key (s, w) = Inr (s', w')"
  shows "closing w w'"
proof -
  let ?metrics = "\<lambda>o5. if s5_status o5 = status_close then
                let (m, err) = end_connection (w_metrics w); w = w\<lparr>w_metrics := m\<rparr> in
                if err then emit LoggedError w else w
              else w"
  obtain a o5 w1 where "w_socks w a = Some o5" and r: "log_conn a (s5_status o5) (?metrics o5) = Inr w1"
      "unregister_all [s5_client_fd o5, s5_final_server_fd o5]
         (s, w1\<lparr>w_metrics := end_connecting_clients (w_metrics w1)\<rparr>) = Inr (s', w')"
    using assms by (auto simp del: unregister_all.simps simp: socks5_done_def Let_def elim!: bind_res_InrE)
  have "closing w (?metrics o5)"
    by (auto simp: Let_def closing_emit split: prod.splits)
  then show ?thesis
    using log_conn_closing [OF r(1)] unregister_all_closing [OF r(2)] closing_trans
    unfolding closing_metrics by blast
qed

section \<open>Sessions of clients\<close>

lemma session_closing:
  assumes "session a (s, w)" and "closing w w'" and "is_auth_enabled (w_config w)"
  shows "session a (s', w')"
proof -
  obtain es where "w_events w' = w_events w @ es"
    using assms(2) by (auto simp: closing_def)
  with assms show ?thesis
    by (intro session.other [OF assms(1), of w' es]) (auto simp: closing_def)
qed

lemma session_others:
  assumes "session a (s, w)" and "grows (s, w) (s', w')" and "is_auth_enabled (w_config w')"
    and "w_socks w' a = w_socks w a"
  shows "session a (s', w')"
proof -
  obtain es where es: "w_events w' = w_events w @ es"
    using assms(2) by (auto simp: grows_def)
  show ?thesis
  proof (rule session.other [OF assms(1,3) es])
    show "\<exists>o5. w_socks w a = Some o5 \<and> s5_stm_current o' = s5_stm_current o5 \<and> s5_client_data o' = s5_client_data o5"
      if "w_socks w' a = Some o'" for o'
      using that assms(4) by simp
  qed
qed

lemma session_give: "session a (s, w) \<Longrightarrow> is_auth_enabled (w_config w) \<Longrightarrow> session a (s, give xs w)"
  by (rule session_others) (simp_all add: grows_def)

lemma ready_handlers:
  assumes "ready r key sw = Inr sw'"
  obtains t sw1 where "deliver r key sw = Inr (t, sw1)" "sw1 = sw' \<or> socks5_done key sw1 = Inr sw'"
  using assms by (cases r) (auto simp: socks5_read_def socks5_write_def socks5_block_def socks5_ready_def
      elim!: bind_res_InrE split: if_splits)

lemma ready_all_grows:
  assumes "ready r key (s, w) = Inr (s', w')" and "ATTACHMENT key = Inr a"
  shows "grows (s, w) (s', w')"
  using assms(1)
proof (cases rule: ready_handlers)
  case (1 t sw1)
  have "grows sw1 (s', w')"
    using 1(2) socks5_done_closing [of key "fst sw1" "snd sw1" s' w'] by (auto simp: grows_def closing_def)
  with deliver_grows [OF 1(1) assms(2)] show ?thesis by (rule grows_trans)
qed

text \<open>The configuration is the administrators' business.\<close>

lemma ready_session:
  assumes "session b (s, w)" and "ready r (conn_key b n) (s, w) = Inr (s', w')" and "is_auth_enabled (w_config w')"
  shows "session b (s', w')"
  using assms(2)
proof (cases rule: ready_handlers)
  case (1 t sw1)
  have "session b sw1"
    using session.event [OF assms(1) _ 1(1)] by simp
  then show ?thesis
    using 1(2) socks5_done_closing [of "conn_key b n" "fst sw1" "snd sw1" s' w'] session_closing [of b "fst sw1" "snd sw1" w' s'] assms(3)
    by (auto simp: closing_def)
qed

section \<open>Sessions of administrators\<close>

lemma mng_ready_grows:
  assumes "n \<le> MNG_ERROR" and a: "ATTACH key = Inr a" and run: "f (s, w) = Inr (t, s', w')"
    and ready: "sd_on_read_ready (mng_state_definition key ! n) = Some f \<or>
      sd_on_write_ready (mng_state_definition key ! n) = Some f \<or>
      sd_on_block_ready (mng_state_definition key ! n) = Some f"
  shows "grows (s, w) (s', w')"
proof (cases "f = mng_connect_write key")
  case True
  with run show ?thesis
    by (auto simp: mng_connect_write_def Let_def grows_def quiet_def put_mng_def elim!: bind_res_InrE
        dest!: send_from_quiet split: if_splits)
next
  case False
  have "steady a w w'"
    using mng_ready_cases [OF assms(1) ready]
  proof (elim disjE conjE)
    assume "f = mng_connect_read key" with mng_connect_read_next(1) [OF _ a] run show ?thesis by blast
  next
    assume "f = mng_request key" with mng_request_next [OF _ a] run show ?thesis by blast
  next
    assume "f = mng_replies key" with mng_replies_next [OF _ a] run show ?thesis by blast
  qed (use False request_handlers_next [where f = f and n = n and key = key, OF run a] in simp_all)
  then show ?thesis
    by (simp add: steady_def grows_def)
qed

lemma mng_deliver_grows:
  assumes run: "mng_deliver r key sw = Inr (t, sw')" and a: "ATTACH key = Inr a"
  shows "grows sw sw'"
proof -
  obtain on_ready where h: "stm_handler on_ready (mng_stm key) sw = Inr (t, sw')"
      "on_ready = sd_on_read_ready \<or> on_ready = sd_on_write_ready \<or> on_ready = sd_on_block_ready"
    using run by (rule mng_deliverE)
  have set: "grows x y" if "set_current (stm_current (mng_stm key)) c x = Inr y" for c x y
    using that by (cases x; cases y) (auto simp: grows_def put_mng_def dest!: mng_set_current)
  have arr: "grows x y" if "call_arrival (mng_stm key) n x = Inr y" for n x y
    using that by (cases x; cases y) (auto simp: grows_def put_mng_def dest!: mng_call_arrival)
  have dep: "grows x y" if "call_departure (mng_stm key) n x = Inr y" for n x y
    using mng_call_departure [OF that] by simp
  obtain n d f sw1 sw2 where 1: "grows sw sw1" "load_at (stm_states (mng_stm key)) n = Inr d" "on_ready d = Some f"
      "f sw1 = Inr (t, sw2)" "grows sw2 sw'"
    by (rule stm_handlerE [OF h(1) grows_relation]) (erule set arr dep | rule that; assumption)+
  have "grows sw1 sw2"
    using mng_ready_grows [of n key a f "fst sw1" "snd sw1" t "fst sw2" "snd sw2"] 1(2-4) h(2) a
    by (auto simp: mng_load_Inr)
  with 1(1,5) show ?thesis
    by (blast intro: grows_trans)
qed

lemma mng_done_closing: "mng_done key (s, w) = Inr (s', w') \<Longrightarrow> closing w w'"
  by (auto simp: mng_done_def Let_def closing_emit elim!: bind_res_InrE dest!: unregister_closing)

lemma mng_event_deliver:
  assumes "handle_event r (Mng_at b) n sw = Inr sw'"
  obtains m t sw1 where "mng_deliver m (admin_key b n) sw = Inr (t, sw1)"
    "sw1 = sw' \<or> mng_done (admin_key b n) sw1 = Inr sw'"
proof -
  obtain m where "mng_ready (mng_deliver m (admin_key b n) sw) (admin_key b n) = Inr sw'"
    using assms mng_deliver.simps by (cases r) (metis handle_event.simps mng_read_def mng_write_def mng_block_def)+
  with that show ?thesis
    by (auto simp: mng_ready_def elim!: bind_res_InrE split: if_splits)
qed

lemma admin_key_attached [simp]: "ATTACH (admin_key b n) = Inr b"
  by (simp add: admin_key_def ATTACH_def)

lemma handle_event_grows:
  assumes "handle_event r x n (s, w) = Inr (s', w')"
  shows "grows (s, w) (s', w')"
proof (cases x)
  case (Socks_at b)
  with assms show ?thesis by (auto intro: ready_all_grows)
next
  case (Mng_at b)
  with assms obtain m t sw1 where 1: "mng_deliver m (admin_key b n) (s, w) = Inr (t, sw1)"
      "sw1 = (s', w') \<or> mng_done (admin_key b n) sw1 = Inr (s', w')"
    using mng_event_deliver by metis
  have "grows sw1 (s', w')"
    using 1(2) mng_done_closing [of "admin_key b n" "fst sw1" "snd sw1" s' w'] by (auto simp: grows_def closing_def)
  with mng_deliver_grows [OF 1(1)] show ?thesis by (auto intro: grows_trans)
qed

lemma mng_session_others:
  assumes "mng_session a (s, w)" and "grows (s, w) (s', w')" and "w_mngs w' a = None \<or> w_mngs w' a = w_mngs w a"
  shows "mng_session a (s', w')"
proof -
  obtain es where es: "w_events w' = w_events w @ es"
    using assms(2) by (auto simp: grows_def)
  show ?thesis
  proof (rule mng_session.other [OF assms(1) es])
    show "\<exists>m. w_mngs w a = Some m \<and> mg_stm_current m' = mg_stm_current m \<and> mg_status m' = mg_status m"
      if "w_mngs w' a = Some m'" for m'
      using that assms(3) by (metis option.distinct(1))
  qed
qed

lemma mng_event_session:
  assumes "mng_session b (s, w)" and "handle_event r (Mng_at b) n (s, w) = Inr (s', w')"
  shows "mng_session b (s', w')"
  using assms(2)
proof (cases rule: mng_event_deliver)
  case (1 m t sw1)
  have sw1: "mng_session b sw1"
    using mng_session.event [OF assms(1) _ 1(1)] by simp
  from 1(2) show ?thesis
  proof
    assume "mng_done (admin_key b n) sw1 = Inr (s', w')"
    then have "closing (snd sw1) w'"
      using mng_done_closing [of "admin_key b n" "fst sw1" "snd sw1"] by simp
    then have "grows sw1 (s', w')" "w_mngs w' b = None \<or> w_mngs w' b = w_mngs (snd sw1) b"
      by (simp_all add: closing_def grows_def) (cases "w_mngs w' b"; simp)
    then show ?thesis
      using mng_session_others [of b "fst sw1" "snd sw1"] sw1 by simp
  qed (use sw1 in simp)
qed

section \<open>Every connection of a run is a session\<close>

lemma turned_away_grows: "turned_away b w w' \<Longrightarrow> grows (s, w) (s', w')"
  by (simp add: turned_away_def grows_def)

lemma accept_sessions:
  assumes run: "socks5_passive_accept key (s, w) = Inr (s', w')" and auth: "is_auth_enabled (w_config w')"
    and old: "\<And>a. w_socks w a \<noteq> None \<Longrightarrow> session a (s, w)" and a: "w_socks w' a \<noteq> None"
  shows "session a (s', w')"
  using run
proof (cases rule: accept_effect)
  case away
  then have "w_socks w' a = w_socks w a"
    using a by (cases "a = w_next w") (auto simp: turned_away_def)
  with old [of a] a away(2) auth show ?thesis
    by (metis session_others turned_away_grows)
next
  case (accepted client addr)
  show ?thesis
  proof (cases "a = w_next w")
    case True
    with accepted(4) auth show ?thesis
      by (auto simp: new_client_def intro: session.accepted)
  next
    case False
    with accepted(4) have "w_socks w' a = w_socks w a" "grows (s, w) (s', w')"
      by (auto simp: new_client_def grows_def)
    with old [of a] a auth show ?thesis by (metis session_others)
  qed
qed

lemma server_run_holds: "server_run P w0 (s, w) \<Longrightarrow> P w"
  by (erule server_run.cases; simp)

lemma ready_object: "ready r (conn_key b n) (s, w) = Inr sw' \<Longrightarrow> w_socks w b \<noteq> None"
  by (erule ready_handlers, cases r)
    (auto simp: stm_handler_read_def stm_handler_write_def stm_handler_block_def stm_handler_def handle_first_def
      socks_current_def get_socks_def split: option.splits)

lemma server_run_session:
  assumes "server_run P w0 sw" and auth: "\<And>w. P w \<Longrightarrow> is_auth_enabled (w_config w)" and "w_socks (snd sw) a \<noteq> None"
  shows "session a sw"
  using assms(1,3)
proof (induction arbitrary: a rule: server_run.induct)
  case (start s)
  then show ?case by (simp add: waiting_def)
next
  case (client s w xs key s' w')
  have "session a (s, give xs w)" if "w_socks w a \<noteq> None" for a
    using client.IH [of a] that auth [OF server_run_holds [OF client.hyps(1)]] by (simp add: session_give)
  with client show ?case
    by (intro accept_sessions [OF client.hyps(3)]) (auto intro: auth)
next
  case (admin s w xs key s' w')
  have same: "w_socks w' a = w_socks w a \<and> grows (s, w) (s', w')"
    using admin.hyps(3)
  proof (cases rule: mng_accept_effect)
    case away
    then show ?thesis
      using admin.prems by (cases "a = w_next w") (auto simp: turned_away_def grows_def)
  next
    case accepted
    then show ?thesis by (simp add: new_admin_def grows_def)
  qed
  show ?case
    by (rule session_others [OF admin.IH conjunct2 [OF same] auth [OF admin.hyps(4)] conjunct1 [OF same]])
      (use admin.prems same in simp)
next
  case (event s w xs x n r s' w')
  show ?case
  proof (cases "x = Socks_at a")
    case True
    with event have run: "ready r (conn_key a n) (s, give xs w) = Inr (s', w')" by simp
    have "w_socks w a \<noteq> None"
      using ready_object [OF run] by simp
    with event.IH [of a] have "session a (s, give xs w)"
      by (intro session_give auth server_run_holds [OF event.hyps(1)]) simp_all
    then show ?thesis
      using run auth [OF event.hyps(5)] by (rule ready_session)
  next
    case False
    then have "w_socks w' a = w_socks w a"
      using event_leaves [OF server_run_separate [OF event.hyps(1)] event.hyps(2-4), of "Socks_at a"] by simp
    moreover have "grows (s, w) (s', w')"
      using handle_event_grows [OF event.hyps(4)] by (simp add: grows_def)
    ultimately show ?thesis
      using event.IH [of a] event.prems auth [OF event.hyps(5)] session_others by simp
  qed
next
  case (resolver s w key xs s' w')
  from resolver.hyps(3) show ?case
  proof (cases rule: resolver_effect)
    case (1 b o5 o')
    then have "session a (s, w)"
      using resolver.IH [of a] resolver.prems by (auto split: if_splits)
    moreover obtain es where "w_events w' = w_events w @ es"
      using 1 by auto
    ultimately show ?thesis
      using 1 auth [OF resolver.hyps(4)] by (intro session.other [of a s w w' es]) (auto split: if_splits)
  qed
qed

lemma mng_accept_sessions:
  assumes run: "mng_passive_accept key (s, w) = Inr (s', w')"
    and old: "\<And>a. w_mngs w a \<noteq> None \<Longrightarrow> mng_session a (s, w)" and a: "w_mngs w' a \<noteq> None"
  shows "mng_session a (s', w')"
  using run
proof (cases rule: mng_accept_effect)
  case away
  then have "w_mngs w' a = w_mngs w a"
    using a by (cases "a = w_next w") (auto simp: turned_away_def)
  with old [of a] a away(2) show ?thesis
    by (metis mng_session_others turned_away_grows)
next
  case (accepted client addr)
  show ?thesis
  proof (cases "a = w_next w")
    case True
    with accepted(4) show ?thesis
      by (auto simp: new_admin_def intro: mng_session.accepted)
  next
    case False
    with accepted(4) have "w_mngs w' a = w_mngs w a" "grows (s, w) (s', w')"
      by (auto simp: new_admin_def grows_def)
    with old [of a] a show ?thesis by (metis mng_session_others)
  qed
qed

lemma mng_session_give: "mng_session a (s, w) \<Longrightarrow> mng_session a (s, give xs w)"
  by (erule mng_session_others) (simp_all add: grows_def)

lemma mng_event_object: "handle_event r (Mng_at b) n (s, w) = Inr sw' \<Longrightarrow> w_mngs w b \<noteq> None"
  by (erule mng_event_deliver) (erule mng_deliver_object, simp)

lemma server_run_mng_session:
  assumes "server_run P w0 sw" and "w_mngs (snd sw) a \<noteq> None"
  shows "mng_session a sw"
  using assms
proof (induction arbitrary: a rule: server_run.induct)
  case (start s)
  then show ?case by (simp add: waiting_def)
next
  case (client s w xs key s' w')
  have same: "w_mngs w' a = w_mngs w a \<and> grows (s, w) (s', w')"
    using client.hyps(3)
  proof (cases rule: accept_effect)
    case away
    then show ?thesis
      using client.prems by (cases "a = w_next w") (auto simp: turned_away_def grows_def)
  next
    case accepted
    then show ?thesis by (simp add: new_client_def grows_def)
  qed
  with client.IH [of a] client.prems show ?case
    using mng_session_others by simp
next
  case (admin s w xs key s' w')
  have "mng_session a (s, give xs w)" if "w_mngs w a \<noteq> None" for a
    using admin.IH [of a] that by (simp add: mng_session_give)
  with admin show ?case
    by (intro mng_accept_sessions [OF admin.hyps(3)]) auto
next
  case (event s w xs x n r s' w')
  show ?case
  proof (cases "x = Mng_at a")
    case True
    with event have run: "handle_event r (Mng_at a) n (s, give xs w) = Inr (s', w')" by simp
    have "w_mngs w a \<noteq> None"
      using mng_event_object [OF run] by simp
    with event.IH [of a] have "mng_session a (s, give xs w)"
      by (intro mng_session_give) simp_all
    then show ?thesis
      using run by (rule mng_event_session)
  next
    case False
    then have "w_mngs w' a = w_mngs w a"
      using event_leaves [OF server_run_separate [OF event.hyps(1)] event.hyps(2-4), of "Mng_at a"] by simp
    moreover have "grows (s, w) (s', w')"
      using handle_event_grows [OF event.hyps(4)] by (simp add: grows_def)
    ultimately show ?thesis
      using event.IH [of a] event.prems mng_session_others by simp
  qed
next
  case (resolver s w key xs s' w')
  from resolver.hyps(3) show ?case
  proof (cases rule: resolver_effect)
    case (1 b o5 o')
    then have "w_mngs w' a = w_mngs w a" "grows (s, w) (s', w')"
      by (auto simp: grows_def)
    with resolver.IH [of a] resolver.prems show ?thesis
      using mng_session_others by simp
  qed
qed

section \<open>Properties of every run\<close>

text \<open>C1. As long as authentication is enabled, no client of a run of the server - with any number of clients and
  administrators, whatever they send and in whatever order their events come - is in one of the states after the login (it
  reads a request, resolves, connects, replies or copies) unless \<open>checkUser\<close> was called before with a name
  and a password that this client sent, and answered that they are an account's.\<close>

theorem logins_checked:
  assumes "server_run (\<lambda>w. is_auth_enabled (w_config w)) w0 (s, w)" and "w_socks w a = Some o5"
    and "s5_stm_current o5 = Some n" and "past_login n"
  shows "\<exists>user pass. Checked a user pass True \<in> set (w_events w)"
proof -
  have "session a (s, w)"
    using server_run_session [OF assms(1), of a] assms(2) by simp
  then show ?thesis
    using assms(2-4) by (rule request_needs_login)
qed

text \<open>C8. The same for administrators: in a run of the server no administrator's connection is in one of the states
  behind its login (it chooses a request, sends one or reads the answer) unless \<open>checkToken\<close> was called for
  this connection before and found the token right.\<close>

theorem tokens_checked:
  assumes "server_run P w0 (s, w)" and "w_mngs w a = Some m" and "mg_stm_current m = Some n"
    and "REQUEST \<le> n" and "n \<le> REPLIES"
  shows "TokenChecked a True \<in> set (w_events w)"
proof -
  have "mng_session a (s, w)"
    using server_run_mng_session [OF assms(1), of a] assms(2) by simp
  then show ?thesis
    using assms(2-5) by (rule admin_needs_token)
qed

text \<open>A step changes the configuration only on behalf of an administrator who presented the token.\<close>

lemma event_config:
  assumes run: "server_run P w0 (s, w)" and "fresh xs (s, w)" and "entry s x n"
    and event: "handle_event r x n (s, give xs w) = Inr (s', w')" and change: "w_config w' \<noteq> w_config w"
  shows "\<exists>b. TokenChecked b True \<in> set (w_events w)"
proof -
  obtain b where x: "x = Mng_at b"
    using event_leaves [OF server_run_separate [OF run] assms(2-4)] change by (cases x) auto
  obtain m t sw1 where d: "mng_deliver m (admin_key b n) (s, give xs w) = Inr (t, sw1)"
      "sw1 = (s', w') \<or> mng_done (admin_key b n) sw1 = Inr (s', w')"
    using event x mng_event_deliver by metis
  have "mng_session b (s, w)"
    using server_run_mng_session [OF run, of b] mng_event_object event x by force
  then have session: "mng_session b (s, give xs w)"
    by (rule mng_session_give)
  have "w_config w' = w_config (snd sw1)"
    using d(2) mng_done_closing [of "admin_key b n" "fst sw1" "snd sw1" s' w'] by (auto simp: closing_def)
  then have "w_config (snd sw1) \<noteq> w_config (give xs w)"
    using change by simp
  then have "TokenChecked b True \<in> set (w_events (give xs w))"
    using configuring_needs_token [OF session _ , of "admin_key b n" m t "fst sw1" "snd sw1"] d(1) by simp
  then show ?thesis by auto
qed

text \<open>C9. The configuration - the accounts, the buffer size, whether clients must log in and whether the sniffer runs - is
  what it was at the start of the server as long as no administrator has presented the right token.\<close>

theorem configuration_guarded:
  assumes "server_run P w0 (s, w)" and "\<And>b. TokenChecked b True \<notin> set (w_events w)"
  shows "w_config w = w_config w0"
proof -
  have "w_config (snd sw) = w_config w0 \<or> (\<exists>b. TokenChecked b True \<in> set (w_events (snd sw)))" if "server_run P w0 sw" for sw
    using that
  proof (induction rule: server_run.induct)
    case (client s w xs key s' w')
    from client.hyps(3) show ?case
      by (cases rule: accept_effect) (use client.IH in \<open>auto simp: turned_away_def new_client_def\<close>)
  next
    case (admin s w xs key s' w')
    from admin.hyps(3) show ?case
      by (cases rule: mng_accept_effect) (use admin.IH in \<open>auto simp: turned_away_def new_admin_def\<close>)
  next
    case (event s w xs x n r s' w')
    obtain es where "w_events w' = w_events w @ es"
      using handle_event_grows [OF event.hyps(4)] by (auto simp: grows_def)
    with event.IH event_config [OF event.hyps(1-4)] show ?case
      by (cases "w_config w' = w_config w") auto
  next
    case (resolver s w key xs s' w')
    from resolver.hyps(3) show ?case
      by (cases rule: resolver_effect) (use resolver.IH in auto)
  qed simp
  from this [OF assms(1)] assms(2) show ?thesis by simp
qed

section \<open>Runs with a login\<close>

text \<open>A client that is accepted, greets and presents the credentials of the first account.\<close>

definition client_login :: "action list" where
  "client_login = [a_client 6, Event Readable (Socks_at 0) 6 [RecvBytes [5, 2, 0, 2]], Event Writable (Socks_at 0) 6 [SentBytes 2],
     Event Readable (Socks_at 0) 6 [RecvBytes [1, 1, 97, 1, 120]], Event Writable (Socks_at 0) 6 [SentBytes 2]]"

fun is_checked_token :: "event \<Rightarrow> bool" where
  "is_checked_token (TokenChecked b good) = good"
| "is_checked_token _ = False"

lemma client_login_run:
  obtains s w o5 where "server_run (\<lambda>w. is_auth_enabled (w_config w)) first_world (s, w)" "w_socks w 0 = Some o5"
    "s5_stm_current o5 = Some REQUEST_READ" "\<And>b. TokenChecked b True \<notin> set (w_events w)"
proof -
  have "left_in (\<lambda>o5 w. s5_stm_current o5 = Some REQUEST_READ \<and> list_all (\<lambda>e. \<not> is_checked_token e) (w_events w))
      (play (\<lambda>w. is_auth_enabled (w_config w)) client_login (passive_selector, first_world))"
    by code_simp
  then obtain s w o5 where run: "play (\<lambda>w. is_auth_enabled (w_config w)) client_login (passive_selector, first_world) = Inr (s, w)"
      "w_socks w 0 = Some o5" "s5_stm_current o5 = Some REQUEST_READ" "list_all (\<lambda>e. \<not> is_checked_token e) (w_events w)"
    by (auto elim!: left_inE)
  have "server_run (\<lambda>w. is_auth_enabled (w_config w)) first_world (s, w)"
    by (rule play_run [OF run(1) server_run.start [OF passive_waiting]]) code_simp
  then show ?thesis
    by (rule that) (use run in \<open>auto simp: list_all_iff\<close>)
qed

theorem logins_checked_witness:
  "\<exists>s w o5. server_run (\<lambda>w. is_auth_enabled (w_config w)) first_world (s, w) \<and> w_socks w 0 = Some o5 \<and>
     s5_stm_current o5 = Some REQUEST_READ \<and> (\<exists>user pass. Checked 0 user pass True \<in> set (w_events w))"
proof -
  obtain s w o5 where run: "server_run (\<lambda>w. is_auth_enabled (w_config w)) first_world (s, w)" "w_socks w 0 = Some o5"
      "s5_stm_current o5 = Some REQUEST_READ"
    by (rule client_login_run)
  moreover have "past_login REQUEST_READ"
    by simp
  ultimately show ?thesis
    using logins_checked [OF run] by blast
qed

theorem configuration_guarded_witness:
  "\<exists>s w o5. server_run (\<lambda>w. is_auth_enabled (w_config w)) first_world (s, w) \<and> w_socks w 0 = Some o5 \<and>
     s5_stm_current o5 = Some REQUEST_READ \<and> w_config w = w_config first_world"
proof -
  obtain s w o5 where run: "server_run (\<lambda>w. is_auth_enabled (w_config w)) first_world (s, w)" "w_socks w 0 = Some o5"
      "s5_stm_current o5 = Some REQUEST_READ" "\<And>b. TokenChecked b True \<notin> set (w_events w)"
    by (rule client_login_run) blast
  with configuration_guarded [OF run(1,4)] show ?thesis by blast
qed

text \<open>An administrator who is accepted and presents the token, each step with the answers of its own system calls.\<close>

lemma admin_login_steps:
  "\<exists>s w m. server_run (\<lambda>_. True) first_world (s, w) \<and> w_mngs w 0 = Some m \<and> mg_stm_current m = Some REQUEST"
proof -
  let ?w0 = "first_world" and ?t = "butlast MNG_TOKEN" and ?k = "admin_key 0 6"
  let ?ans = "[Accepted (int 6) (replicate 16 0), NewMng fresh_mng, NioSet True]"
  have start: "server_run (\<lambda>_. True) ?w0 (passive_selector, ?w0)"
    by (rule server_run.start [OF passive_waiting]) simp
  have fresh: "fresh ?ans (passive_selector, ?w0)"
    by (rule new_fds_fresh) (simp add: unheld_def, code_simp)
  obtain s1 m1 where 1: "mng_passive_accept example_key (passive_selector, give ?ans ?w0) =
        Inr (s1, put_mng 0 m1 (?w0\<lparr>w_next := 1, w_metrics := add_connecting_clients (w_metrics ?w0), w_answers := []\<rparr>))" "selector_ok s1"
      "registered s1 = (registered passive_selector)(6 \<mapsto> (OP_READ, Some H_mng, Some (Mng_at 0)))" "mg_stm_current m1 = None"
      "mg_status m1 = OK" "sound_mng m1" "pending (mg_read_buffer m1) = []"
      "room (mg_read_buffer m1) = MNG_BUFFER_SIZE" "pending (mg_write_buffer m1) = []" "room (mg_write_buffer m1) = MNG_BUFFER_SIZE"
    by (rule mng_accepted [OF first_admin_acceptable, of ?ans "[]" example_key])
      (auto simp: sound_mng_def first_world_simps give_def)
  let ?w1 = "put_mng 0 m1 (?w0\<lparr>w_next := 1, w_metrics := add_connecting_clients (w_metrics ?w0), w_answers := []\<rparr>)"
  have run1: "server_run (\<lambda>_. True) ?w0 (s1, ?w1)"
    by (rule server_run.admin [OF start fresh 1(1)]) simp
  have entry1: "entry s1 (Mng_at 0) 6"
    by (simp add: entry_iff 1(3))
  obtain s2 m2 where 2: "mng_read ?k (s1, give [RecvBytes (connect_message ?t)] ?w1) =
        Inr (s2, put_mng 0 m2 (emit (TokenChecked 0 True) (give [] ?w1)))" "selector_ok s2"
      "registered s2 = (registered s1)(6 \<mapsto> (OP_WRITE, Some H_mng, Some (Mng_at 0)))" "mg_stm_current m2 = Some CONNECT_WRITE"
      "mg_status m2 = OK" "sound_mng m2" "pending (mg_write_buffer m2) = [0]"
    using admin_read_token [OF 1(2) _ _, of 6 OP_READ "Some H_mng" "Some (Mng_at 0)"
        "give [RecvBytes (connect_message ?t)] ?w1" 0 m1 ?t "[]" ?t] 1(3-) first_world_simps(4)
    by (auto simp: put_mng_def give_def ITEMS_MAX_SIZE_def MNG_TOKEN_def)
  let ?w2 = "put_mng 0 m2 (emit (TokenChecked 0 True) (give [] ?w1))"
  have run2: "server_run (\<lambda>_. True) ?w0 (s2, ?w2)"
    by (rule server_run.event [OF run1 _ entry1, of _ Readable]) (use 2(1) in \<open>auto simp: fresh_def\<close>)
  have entry2: "entry s2 (Mng_at 0) 6"
    by (simp add: entry_iff 2(3))
  obtain s3 w3 m3 where 3: "mng_deliver Mng_writable ?k (s2, give [SentBytes 1] ?w2) = Inr (REQUEST, s3, w3)"
      "w_mngs w3 0 = Some m3" "mg_stm_current m3 = Some REQUEST"
    using admin_write_token [OF 2(2) _ _, of 6 OP_WRITE "Some H_mng" "Some (Mng_at 0)"
        "give [SentBytes 1] ?w2" 0 m2 0 "[]"] 2(3-)
    by (auto simp: put_mng_def give_def ITEMS_MAX_SIZE_def)
  have "handle_event Writable (Mng_at 0) 6 (s2, give [SentBytes 1] ?w2) = Inr (s3, w3)"
    using 3(1) by (simp add: mng_write_def mng_ready_def) (simp add: mng_state_defs)
  then have "server_run (\<lambda>_. True) ?w0 (s3, w3)"
    by (intro server_run.event [OF run2 _ entry2, of "[SentBytes 1]" Writable]) (simp_all add: fresh_def)
  with 3(2,3) show ?thesis by blast
qed

theorem tokens_checked_witness:
  "\<exists>s w m. server_run (\<lambda>_. True) first_world (s, w) \<and> w_mngs w 0 = Some m \<and> mg_stm_current m = Some REQUEST \<and>
     TokenChecked 0 True \<in> set (w_events w)"
proof -
  obtain s w m where run: "server_run (\<lambda>_. True) first_world (s, w)" "w_mngs w 0 = Some m" "mg_stm_current m = Some REQUEST"
    using admin_login_steps by blast
  moreover have "TokenChecked 0 True \<in> set (w_events w)"
    by (rule tokens_checked [OF run]) (simp_all add: mng_state_defs)
  ultimately show ?thesis by blast
qed

end
