(* ===== verification/Accounts.thy ===== *)
theory Accounts
  imports Connection AdminConnection
begin

text \<open>
  Both protocols in one run: an administrator adds an account, and a client logs in with it.
\<close>

section \<open>The administrator, then the client\<close>

text \<open>The events, in their order: the administrator's session, its request, the client's session.\<close>

definition account_story :: "key \<Rightarrow> nat \<Rightarrow> key \<Rightarrow> nat \<Rightarrow> nat \<Rightarrow> st \<Rightarrow> st result" where
  "account_story admin_passive k passive c f = (\<lambda>(s, w).
     let b = w_next w; a = b + 1 in
     bind_res (admin_session admin_passive b k (s, w)) (\<lambda>sw.
     bind_res (mng_deliver_all [Mng_readable, Mng_readable] (admin_key b k) sw) (\<lambda>sw.
     bind_res (socks5_passive_accept passive sw)
       (ready_all (session_steps a c @ session_steps a c @ request_steps a c f)))))"

lemma same_settings_simps:
  assumes "same_settings c c'"
  shows "is_auth_enabled c' = is_auth_enabled c" "get_socks_buffer_size c' = get_socks_buffer_size c"
  using arg_cong [OF assms [unfolded same_settings_def], of cf_auth_enabled]
    arg_cong [OF assms [unfolded same_settings_def], of cf_socks_buffer_size]
  by (simp_all add: is_auth_enabled_def get_socks_buffer_size_def)

text \<open>The administrator's part leaves a server that takes the client, with the new account.\<close>

lemma account_added:
  assumes admin: "admin_acceptable s k w kaddr kjunk" "holds_str (cf_mng_token (w_config w)) t" "t \<noteq> []" "length t < 255"
      "0 \<notin> set t"
    and ans: "w_answers w = admin_answers k kaddr kjunk t @ [RecvBytes [PUT], RecvBytes bs] @ xs"
    and put: "PUT # bs = put_message u v" "u \<noteq> []" "v \<noteq> []" "0 \<notin> set u" "0 \<notin> set v"
      "length u < MAX_USERNAME_SIZE" "length v < MAX_USERNAME_SIZE"
    and conf: "config_ok (w_config w)" "cf_users_size (w_config w) + 1 < MAX_SOCKS_USERS"
  defines "b \<equiv> w_next w"
  shows "\<exists>s1 w1 j. bind_res (admin_session key b k (s, w)) (mng_deliver_all [Mng_readable, Mng_readable] (admin_key b k)) =
      Inr (s1, w1) \<and> selector_ok s1 \<and> fd_size s1 = fd_size s \<and>
    registered s1 = (registered s)(k \<mapsto> (j, Some H_mng, Some (Mng_at b))) \<and> w_next w1 = b + 1 \<and>
    w_metrics w1 = add_connecting_clients (w_metrics w) \<and> w_answers w1 = xs \<and>
    w_events w1 = w_events w @ [TokenChecked b True, SentTo (int k) [0]] \<and> config_ok (w_config w1) \<and>
    same_settings (w_config w) (w_config w1) \<and> accounts (w_config w1) = accounts (w_config w) @ [(u, v)]"
proof -
  let ?xs = "RecvBytes [PUT] # RecvBytes bs # xs"
  have ans': "w_answers w = admin_answers k kaddr kjunk t @ ?xs"
    using ans by simp
  let ?w = "w\<lparr>w_next := b + 1, w_metrics := add_connecting_clients (w_metrics w), w_answers := ?xs,
    w_events := w_events w @ [TokenChecked b True, SentTo (int k) [0]]\<rparr>"
  obtain s0 w0 m j where 0: "admin_session key b k (s, w) = Inr (s0, w0)" "at_request (admin_key b k) b (s0, w0)"
      "w0 = put_mng b m ?w" "fd_size s0 = fd_size s" "registered s0 = (registered s)(k \<mapsto> (j, Some H_mng, Some (Mng_at b)))"
    using admin_opened [OF admin(1) ans' admin(2-5), of key] unfolding b_def by blast
  have w0: "w_config w0 = w_config w" "w_answers w0 = ?xs"
    by (simp_all add: 0(3) put_mng_def)
  obtain c' where c': "answered (admin_key b k) (s0, w0) b 0 c' xs" "config_ok c'" "same_settings (w_config w) c'"
      "accounts c' = accounts (w_config w) @ [(u, v)]"
    using put_answered [OF 0(2) w0(2) put] conf unfolding w0(1) by auto
  then obtain s1 m1 i h d where 1: "mng_deliver_all [Mng_readable, Mng_readable] (admin_key b k) (s0, w0) =
        Inr (s1, put_mng b m1 (w0\<lparr>w_config := c', w_answers := xs\<rparr>))" "selector_ok s1" "fd_size s1 = fd_size s0"
      "registered s0 k = Some (i, h, d)" "registered s1 = (registered s0)(k \<mapsto> (OP_WRITE, h, d))"
    unfolding answered_def by auto
  have "registered s1 = (registered s)(k \<mapsto> (OP_WRITE, Some H_mng, Some (Mng_at b)))"
    using 1(4,5) 0(5) by auto
  with 0(1,4) 1(1-3) c'(2-4) show ?thesis
    by (intro exI [of _ s1] exI [of _ "put_mng b m1 (w0\<lparr>w_config := c', w_answers := xs\<rparr>)"] exI [of _ OP_WRITE])
      (simp add: 0(3) put_mng_def)
qed

text \<open>C3. From one protocol to the other: an administrator who presents the token adds an account, and the client that
  comes then and logs in with that account is served, in the same run - greeted, its credentials found right, its destination
  connected, its reply sent, and the connection copies. The events are exactly these, in this order, and the
  account stands behind those that were there before.\<close>

theorem added_account_served:
  assumes admin: "admin_acceptable s k w kaddr kjunk" "holds_str (cf_mng_token (w_config w)) t" "t \<noteq> []" "length t < 255"
      "0 \<notin> set t"
    and ans: "w_answers w = admin_answers k kaddr kjunk t @ [RecvBytes [PUT], RecvBytes bs] @
      accept_answers c addr junk ra rb @ greeting_answers ms @ [RecvBytes (auth_message u v), SentBytes 2] @
      request_answers f rsv d port @ xs"
    and put: "PUT # bs = put_message u v" "u \<noteq> []" "v \<noteq> []" "0 \<notin> set u" "0 \<notin> set v"
      "length u < MAX_USERNAME_SIZE" "length v < MAX_USERNAME_SIZE"
    and conf: "config_ok (w_config w)" "cf_users_size (w_config w) + 1 < MAX_SOCKS_USERS" "is_auth_enabled (w_config w)"
    and client: "free_pair s c f" "k \<noteq> c" "k \<noteq> f" "acceptable w addr junk ra rb n" "METHOD_AUTH_REQUIRED \<in> set ms"
      "length ms < 256" "length ms + 2 \<le> n" "length (auth_message u v) \<le> n" "0 \<in> set (drop (length u) (s5_user junk))"
    and d: "is_address d" "length port = 2"
  shows "\<exists>s' w' o5 x y. account_story akey k key c f (s, w) = Inr (s', w') \<and>
    w_socks w' (w_next w + 1) = Some o5 \<and> s5_stm_current o5 = Some COPY \<and> copying o5 \<and>
    w_events w' = w_events w @ [TokenChecked (w_next w) True, SentTo (int k) [0],
      SentTo (int c) [0x05, METHOD_AUTH_REQUIRED], Checked (w_next w + 1) x y True, SentTo (int c) [0x01, AUTH_SUCCESS]] @
      request_events (w_next w + 1) c f d port \<and> holds_str x u \<and> holds_str y v \<and>
    accounts (w_config w') = accounts (w_config w) @ [(u, v)] \<and> w_answers w' = xs"
proof -
  let ?b = "w_next w" and ?xs = "accept_answers c addr junk ra rb @ greeting_answers ms @
    [RecvBytes (auth_message u v), SentBytes 2] @ request_answers f rsv d port @ xs"
  obtain s1 w1 j where 1: "bind_res (admin_session akey ?b k (s, w))
        (mng_deliver_all [Mng_readable, Mng_readable] (admin_key ?b k)) = Inr (s1, w1)" "selector_ok s1" "fd_size s1 = fd_size s"
      "registered s1 = (registered s)(k \<mapsto> (j, Some H_mng, Some (Mng_at ?b)))" "w_next w1 = ?b + 1"
      "w_metrics w1 = add_connecting_clients (w_metrics w)" "w_answers w1 = ?xs"
      "w_events w1 = w_events w @ [TokenChecked ?b True, SentTo (int k) [0]]" "config_ok (w_config w1)"
      "same_settings (w_config w) (w_config w1)" "accounts (w_config w1) = accounts (w_config w) @ [(u, v)]"
    using account_added [OF admin ans put conf(1,2), of akey] by blast
  have auth: "is_auth_enabled (w_config w1)" "needed_method (w_config w1) = METHOD_AUTH_REQUIRED"
    using same_settings_simps(1) [OF 1(10)] conf(3) by (simp_all add: needed_method_def)
  have ans1: "w_answers w1 = accept_answers c addr junk ra rb @ greeting_answers ms @
      login_answers_for (w_config w1) u v @ request_answers f rsv d port @ xs"
    by (simp add: 1(7) auth(1) login_answers_for_def)
  have fds: "free_pair s1 c f"
    using client(1-3) 1(2-4) by (auto simp: free_pair_def)
  have acc: "acceptable w1 addr junk ra rb n"
    using client(4) same_settings_simps(2) [OF 1(10)] 1(6)
    by (simp add: acceptable_def get_current_conn_def add_connecting_clients_def)
  have u: "credentials u v \<and> (u, v) \<in> set (accounts (w_config w1)) \<and>
      length (auth_message u v) \<le> n \<and> 0 \<in> set (drop (length u) (s5_user junk))"
    using put(2-7) client(8,9) 1(11) by (auto simp: credentials_def MAX_USERNAME_SIZE_def)
  obtain s' w' o5 es where 2: "bind_res (socks5_passive_accept key (s1, w1)) (ready_all (session_steps (?b + 1) c @
        login_steps (w_config w1) (?b + 1) c @ request_steps (?b + 1) c f)) = Inr (s', w')"
      "w_socks w' (?b + 1) = Some o5" "s5_stm_current o5 = Some COPY" "copying o5"
      "login_events (w_config w1) (?b + 1) c u v es" "w_config w' = w_config w1" "w_answers w' = xs"
      "w_events w' = w_events w1 @ [SentTo (int c) [0x05, METHOD_AUTH_REQUIRED]] @ es @ request_events (?b + 1) c f d port"
    using connection_opened [OF ans1 fds acc 1(9), of key] client(5-7) d u auth(2) 1(5) by auto
  obtain x y where xy: "es = [Checked (?b + 1) x y True, SentTo (int c) [0x01, AUTH_SUCCESS]]" "holds_str x u" "holds_str y v"
    using 2(5) auth(1) by (auto simp: login_events_def)
  have "account_story akey k key c f (s, w) = Inr (s', w')"
    using 1(1) 2(1) auth(1)
    by (cases "admin_session akey ?b k (s, w)") (auto simp: account_story_def Let_def login_steps_def simp del: mng_deliver_all.simps)
  with 2 xy 1(8,11) show ?thesis
    by auto
qed

section \<open>An example\<close>

definition story_answers :: "answer list" where
  "story_answers = admin_answers 5 (replicate 16 0) fresh_mng (butlast MNG_TOKEN) @
     [RecvBytes [PUT], RecvBytes [0, 1, 99, 1, 122]] @
     accept_answers 3 (replicate 16 0) example_socks (replicate 64 0) (replicate 64 0) @ greeting_answers [0, 2] @
     [RecvBytes (auth_message [99] [122]), SentBytes 2] @ request_answers 4 0 (IPv4 [127, 0, 0, 1]) [0, 80]"

theorem added_account_served_witness:
  "\<exists>s' w' o5 x y. account_story example_key 5 example_key 3 4 (wide_selector, small_world story_answers) = Inr (s', w') \<and>
    w_socks w' 2 = Some o5 \<and> s5_stm_current o5 = Some COPY \<and>
    accounts (w_config w') = [([97], [120]), ([98], [121]), ([99], [122])] \<and>
    w_events w' = [TokenChecked 1 True, SentTo 5 [0], SentTo 3 [5, 2], Checked 2 x y True, SentTo 3 [1, AUTH_SUCCESS],
      Connecting 4 ([2, 0, 0, 80, 127, 0, 0, 1] @ replicate 8 0), Logged 2 status_succeeded,
      SentTo 3 [5, 0, 0, 1, 127, 0, 0, 1, 0, 80]]"
proof -
  let ?w = "small_world story_answers"
  have table: "registered wide_selector 5 = None" "selector_ok wide_selector" "fd_size wide_selector = 8"
    using wide_selector_free
    by (auto simp: free_pair_def registered_def wide_selector_def get_item_def load_at_def ITEM_USED_def FD_UNUSED_def fd_size_def)
  have "sint (get_current_conn (w_metrics ?w)) \<le> MAX_CONNECTIONS"
    by code_simp
  then have admin: "admin_acceptable wide_selector 5 ?w (replicate 16 0) fresh_mng"
    by (simp add: admin_acceptable_def table fresh_mng_def example_mng_def ITEMS_MAX_SIZE_def)
  have token: "holds_str (cf_mng_token (w_config ?w)) (butlast MNG_TOKEN)"
    by (simp add: small_world_simps) code_simp
  have "w_answers ?w = admin_answers 5 (replicate 16 0) fresh_mng (butlast MNG_TOKEN) @
     [RecvBytes [PUT], RecvBytes [0, 1, 99, 1, 122]] @
     accept_answers 3 (replicate 16 0) example_socks (replicate 64 0) (replicate 64 0) @ greeting_answers [0, 2] @
     [RecvBytes (auth_message [99] [122]), SentBytes 2] @ request_answers 4 0 (IPv4 [127, 0, 0, 1]) [0, 80] @ []"
    by (simp add: small_world_simps story_answers_def)
  from added_account_served [OF admin token _ _ _ this, of 64 example_key example_key] wide_selector_free small_world_acceptable [of story_answers]
  show ?thesis
    by (simp add: small_world_simps MNG_TOKEN_def put_message_def PUT_def MAX_USERNAME_SIZE_def MAX_SOCKS_USERS_def
        auth_message_def METHOD_AUTH_REQUIRED_def example_socks_def example_config_ok request_events_def
        request_message_def)
      (elim exE conjE, auto simp: numeral_2_eq_2)
qed

end
