(* ===== verification/CLibrary.thy ===== *)
theory CLibrary
  imports NetUtils
begin

text \<open>
  What the command lines use of the C library: \<open>strtol\<close> and \<open>atoi\<close> in base 10, \<open>strtok\<close> with one
  delimiter, \<open>strchr\<close>. A \<open>char *\<close> into \<open>argv\<close> is the string it points to, the characters before
  the zero byte. \<open>long\<close> has 64 bits.
\<close>

section \<open>Numbers\<close>

definition LONG_MAX :: int where "LONG_MAX = 2 ^ 63 - 1"
definition LONG_MIN :: int where "LONG_MIN = - (2 ^ 63)"
definition USHRT_MAX :: int where "USHRT_MAX = 65535"

definition isspace :: "u8 \<Rightarrow> bool" where
  "isspace c \<longleftrightarrow> c = 32 \<or> 9 \<le> c \<and> c \<le> 13"

definition isdigit :: "u8 \<Rightarrow> bool" where
  "isdigit c \<longleftrightarrow> 48 \<le> c \<and> c \<le> 57"

fun number_of :: "nat \<Rightarrow> u8 list \<Rightarrow> nat" where
  "number_of acc [] = acc"
| "number_of acc (c # cs) = number_of (10 * acc + unat (c - 48)) cs"

text \<open>
  The value, and what is left of the string after the number; with no digits nothing is taken, not
  even the spaces. A value out of the range of \<open>long\<close> is the nearest bound.
\<close>

definition strtol :: "u8 list \<Rightarrow> int \<times> u8 list" where
  "strtol s =
     (let t = dropWhile isspace s;
          (neg, t) = (case t of c # cs \<Rightarrow> if c = 45 then (True, cs) else if c = 43 then (False, cs) else (False, t)
                      | [] \<Rightarrow> (False, t));
          ds = takeWhile isdigit t;
          v = int (number_of 0 ds) in
      if ds = [] then (0, s)
      else (max LONG_MIN (min LONG_MAX (if neg then - v else v)), dropWhile isdigit t))"

text \<open>The \<open>int\<close> that \<open>atoi\<close> makes of the \<open>long\<close>.\<close>

definition atoi :: "u8 list \<Rightarrow> u32" where
  "atoi s = of_int (fst (strtol s))"

section \<open>Strings\<close>

definition COLON :: u8 where "COLON = 58"

text \<open>\<open>strtok\<close>: the token, and the string that the next call goes on with.\<close>

definition strtok :: "u8 \<Rightarrow> u8 list \<Rightarrow> u8 list option \<times> u8 list" where
  "strtok d s =
     (let t = dropWhile (\<lambda>c. c = d) s in
      if t = [] then (None, [])
      else (Some (takeWhile (\<lambda>c. c \<noteq> d) t), drop 1 (dropWhile (\<lambda>c. c \<noteq> d) t)))"

text \<open>The string from the first \<open>c\<close> on.\<close>

definition strchr :: "u8 list \<Rightarrow> u8 \<Rightarrow> u8 list option" where
  "strchr s c = (case dropWhile (\<lambda>x. x \<noteq> c) s of [] \<Rightarrow> None | t \<Rightarrow> Some t)"

text \<open>A pointer that is used: the null pointer is a fault.\<close>

definition deref :: "'a option \<Rightarrow> 'a result" where
  "deref p = (case p of None \<Rightarrow> Inl NullCall | Some x \<Rightarrow> Inr x)"

lemma deref_simps [simp]: "deref (Some x) = Inr x" "deref None = Inl NullCall"
  by (simp_all add: deref_def)

section \<open>Facts\<close>

lemma takeWhile_until: "c \<notin> set xs \<Longrightarrow> takeWhile (\<lambda>x. x \<noteq> c) (xs @ c # ys) = xs"
  by (induction xs) auto

lemma dropWhile_until: "c \<notin> set xs \<Longrightarrow> dropWhile (\<lambda>x. x \<noteq> c) (xs @ c # ys) = c # ys"
  by (induction xs) auto

lemma strchr_until: "c \<notin> set xs \<Longrightarrow> strchr (xs @ c # ys) c = Some (c # ys)"
  by (simp add: strchr_def dropWhile_until)

lemma strtok_first:
  assumes "d \<notin> set xs" "xs \<noteq> []"
  shows "strtok d (xs @ d # ys) = (Some xs, ys)"
proof -
  have "dropWhile (\<lambda>c. c = d) (xs @ d # ys) = xs @ d # ys"
    using assms by (cases xs) auto
  then show ?thesis using assms by (simp add: strtok_def takeWhile_until dropWhile_until)
qed

lemma strtok_rest:
  assumes "d \<notin> set xs" "xs \<noteq> []"
  shows "strtok d xs = (Some xs, [])"
proof -
  have a: "dropWhile (\<lambda>c. c = d) xs = xs" using assms by (cases xs) auto
  have b: "takeWhile (\<lambda>c. c \<noteq> d) xs = xs" using assms(1) by (auto simp: takeWhile_eq_all_conv)
  have e: "dropWhile (\<lambda>c. c \<noteq> d) xs = []" using assms(1) by auto
  show ?thesis unfolding strtok_def Let_def a b e using assms(2) by simp
qed

lemma number_of_snoc: "number_of acc (cs @ [c]) = 10 * number_of acc cs + unat (c - 48)"
  by (induction cs arbitrary: acc) auto

lemma digit_char_digit:
  assumes "d < 10"
  shows "isdigit (digit_char d)" "\<not> isspace (digit_char d)" "digit_char d \<noteq> 45" "digit_char d \<noteq> 43"
    "unat (digit_char d - 48) = d"
proof -
  have u: "unat (digit_char d) = 48 + d" using assms using unat_of_nat_u8 [of "48 + d"] by (simp add: digit_char_def)
  show "isdigit (digit_char d)" using assms u by (simp add: isdigit_def word_le_nat_alt)
  show "\<not> isspace (digit_char d)" using assms u
    by (auto simp: isspace_def word_le_nat_alt dest: arg_cong [where f = unat])
  show "digit_char d \<noteq> 45" "digit_char d \<noteq> 43" using u by (auto dest: arg_cong [where f = unat])
  have "digit_char d = 48 + of_nat d" using assms by (simp add: digit_char_def)
  then show "unat (digit_char d - 48) = d" using assms by (simp add: unat_of_nat_u8)
qed

lemma digits_base10:
  "\<forall>c \<in> set (digits 10 n). isdigit c \<and> \<not> isspace c \<and> c \<noteq> 45 \<and> c \<noteq> 43"
  "digits 10 n \<noteq> []" "number_of 0 (digits 10 n) = n"
proof -
  have "(\<forall>c \<in> set (digits 10 n). isdigit c \<and> \<not> isspace c \<and> c \<noteq> 45 \<and> c \<noteq> 43) \<and>
        digits 10 n \<noteq> [] \<and> number_of 0 (digits 10 n) = n"
  proof (induction n rule: less_induct)
    case (less n)
    show ?case
    proof (cases "n < 10")
      case True
      then show ?thesis by (simp add: digits.simps [of 10 n] digit_char_digit)
    next
      case False
      then have "n div 10 < n" by simp
      from less.IH [OF this] False show ?thesis
        by (simp add: digits.simps [of 10 n] digit_char_digit number_of_snoc)
    qed
  qed
  then show "\<forall>c \<in> set (digits 10 n). isdigit c \<and> \<not> isspace c \<and> c \<noteq> 45 \<and> c \<noteq> 43"
    "digits 10 n \<noteq> []" "number_of 0 (digits 10 n) = n" by auto
qed

text \<open>A number in decimal digits is read back, and nothing is left of the string.\<close>

lemma strtol_digits:
  assumes "int n \<le> LONG_MAX"
  shows "strtol (digits 10 n) = (int n, [])"
proof -
  obtain c cs where d: "digits 10 n = c # cs" using digits_base10(2) [of n] by (cases "digits 10 n") auto
  have all: "takeWhile isdigit (digits 10 n) = digits 10 n" "dropWhile isdigit (digits 10 n) = []"
    using digits_base10(1) [of n] by auto
  have c: "\<not> isspace c" "c \<noteq> 45" "c \<noteq> 43" using digits_base10(1) [of n] d by auto
  have sp: "dropWhile isspace (digits 10 n) = c # cs" using c d by simp
  have "strtol (digits 10 n) =
      (max LONG_MIN (min LONG_MAX (int (number_of 0 (digits 10 n)))), [])"
    unfolding strtol_def sp using all d c by (simp add: Let_def)
  then show ?thesis using assms by (simp add: digits_base10(3) LONG_MIN_def min_def max_def)
qed

section \<open>The texts of numbers and addresses\<close>

lemma digits_no_zero: "0 \<notin> set (digits 10 n)"
  using digits_base10(1) [of n] by (auto simp: isdigit_def)

lemma ipv4_text_no_zero: "0 \<notin> set (ipv4_text bs)"
  by (auto simp: ipv4_text_def digits_no_zero)

lemma small_digit: "d < 10 \<Longrightarrow> digits 10 d = [of_nat (48 + d)]"
  by (simp add: digits.simps [of 10 d] digit_char_def)

lemma text_1234: "ipv4_text [1, 2, 3, 4] = [49, 46, 50, 46, 51, 46, 52]"
proof -
  have "[0..<4] = [0, 1, 2, 3::nat]" by (simp add: eval_nat_numeral)
  then show ?thesis by (simp add: ipv4_text_def small_digit)
qed

end
