(* ===== verification/Logger.thy ===== *)
theory Logger
  imports CLibrary
begin

text \<open>
  The log of both programs, \<^verbatim>\<open>src/logger.c\<close>, and the terminal that the client writes to. The state
  holds the two globals and the text written so far (\<open>stdout\<close> and \<open>stderr\<close> in one), with the
  conversions of the formats already made.
\<close>

definition DEBUG :: nat where "DEBUG = 0"
definition INFO :: nat where "INFO = 1"
definition LOG :: nat where "LOG = 2"
definition SPOOFING :: nat where "SPOOFING = 3"
definition LOG_ERROR :: nat where "LOG_ERROR = 4"
definition FATAL :: nat where "FATAL = 5"

lemmas level_defs = DEBUG_def INFO_def LOG_def SPOOFING_def LOG_ERROR_def FATAL_def

record logger =
  lg_current_level :: nat
  lg_error_flag :: bool
  lg_text :: "u8 list"

definition logger_start :: logger where
  "logger_start = \<lparr>lg_current_level = DEBUG, lg_error_flag = False, lg_text = []\<rparr>"

definition setLogLevel :: "int \<Rightarrow> logger \<Rightarrow> logger" where
  "setLogLevel newLevel l =
     (if int DEBUG \<le> newLevel \<and> newLevel \<le> int FATAL then l\<lparr>lg_current_level := nat newLevel\<rparr> else l)"

definition levelDescription :: "nat \<Rightarrow> string" where
  "levelDescription level =
     (if level < DEBUG \<or> level > FATAL then ''''
      else [''[DEBUG]'', ''[INFO]'', ''[LOG]'', ''[SPOOFING]'', ''[ERROR]'', ''[FATAL]''] ! level)"

text \<open>\<open>printf\<close> and \<open>fprintf\<close>.\<close>

definition put_text :: "u8 list \<Rightarrow> logger \<Rightarrow> logger" where
  "put_text t l = l\<lparr>lg_text := lg_text l @ t\<rparr>"

definition NL :: "u8 list" where "NL = [10]"

definition log_print :: "nat \<Rightarrow> u8 list \<Rightarrow> logger \<Rightarrow> logger result" where
  "log_print level msg l =
     (let l = (if level \<ge> lg_current_level l
               then put_text (chars (levelDescription level) @ chars '': '' @ msg @ NL) l else l) in
      if level = FATAL then Inl FatalExit
      else if level = LOG_ERROR then Inr (l\<lparr>lg_error_flag := True\<rparr>)
      else Inr l)"

lemma log_print_FATAL [simp]: "log_print FATAL msg l = Inl FatalExit"
  by (simp add: log_print_def)

lemma log_print_returns:
  assumes "level \<noteq> FATAL"
  obtains l1 where "log_print level msg l = Inr l1"
    "lg_error_flag l1 = (lg_error_flag l \<or> level = LOG_ERROR)"
    "lg_current_level l1 = lg_current_level l"
proof (cases "level = LOG_ERROR")
  case True
  with assms that show ?thesis by (force simp: log_print_def put_text_def Let_def)
next
  case False
  with assms that show ?thesis by (force simp: log_print_def put_text_def Let_def)
qed

lemma put_text_simps [simp]:
  "lg_error_flag (put_text t l) = lg_error_flag l"
  "lg_current_level (put_text t l) = lg_current_level l"
  "lg_text (put_text t l) = lg_text l @ t"
  by (simp_all add: put_text_def)

end
