(* ===== verification/ConnLogger.thy ===== *)
theory ConnLogger
  imports Logger Socks5
begin

text \<open>
  The line that \<^verbatim>\<open>src/conn_logger.c\<close> prints for a connection. The date is an argument (what \<open>strftime\<close> makes
  of the local time), and so is what the two arrays for the addresses hold before \<open>inet_ntop\<close> is called:
  it writes nothing for a family that it does not know, and the array is printed as it is.
\<close>

definition ip_shown :: "u8 list \<Rightarrow> u8 list \<Rightarrow> u8 list result" where
  "ip_shown junk addr = bind_res (get_ip addr) (\<lambda>t. c_str (case t of None \<Rightarrow> junk | Some ip \<Rightarrow> ip))"

text \<open>\<open>%d\<close> of a port.\<close>

definition conn_line ::
  "u8 list \<Rightarrow> u8 list \<Rightarrow> u8 list \<Rightarrow> nat \<Rightarrow> u8 list \<Rightarrow> nat \<Rightarrow> socks_response_status \<Rightarrow> u8 list" where
  "conn_line date user ip port ip_dest port_dest status =
     chars ''['' @ date @ chars '']'' @ user @ ip @ chars '':'' @ digits 10 port @ chars '' ---> '' @ ip_dest @
     chars '':'' @ digits 10 port_dest @ chars '' '' @ chars (get_status (unat (status_code status)))"

definition log_conn_line ::
  "u8 list \<Rightarrow> u8 list \<Rightarrow> u8 list \<Rightarrow> nat \<Rightarrow> socks_response_status \<Rightarrow> world \<Rightarrow> logger \<Rightarrow> logger result" where
  "log_conn_line date junk junk_dest a status w l =
     bind_res (get_socks a w) (\<lambda>o5.
     bind_res (ip_shown junk (s5_client_addr o5)) (\<lambda>ip.
     bind_res (ip_shown junk_dest (s5_final_server_addr o5)) (\<lambda>ip_dest.
     bind_res (get_port (s5_client_addr o5)) (\<lambda>port.
     bind_res (get_port (s5_final_server_addr o5)) (\<lambda>port_dest.
     if is_auth_enabled (w_config w) then
       bind_res (c_str (s5_user o5)) (\<lambda>user.
       log_print LOG (conn_line date (chars '' '' @ user @ chars '' '') ip port ip_dest port_dest status) l)
     else log_print LOG (conn_line date [9] ip port ip_dest port_dest status) l)))))"

section \<open>The line and the event\<close>

lemma ip_shown_v4:
  assumes "is_AF_INET addr" and "8 \<le> length addr"
  shows "ip_shown junk addr = Inr (ipv4_text (take 4 (drop 4 addr)))"
  using assms by (simp add: ip_shown_def get_ip_def sin_text_def load_range_def ipv4_text_no_zero)

definition port_of :: "u8 list \<Rightarrow> nat" where
  "port_of addr = unat (addr ! 2) * 256 + unat (addr ! 3)"

lemma get_port_of: "4 \<le> length addr \<Longrightarrow> get_port addr = Inr (port_of addr)"
  by (simp add: get_port_def load_range_def port_of_def)

text \<open>The line for a connection between two IPv4 addresses, in full: date, user (only while authentication is
  on), both ends in decimal, and the text of the status; nothing else is printed and no error is recorded.\<close>

theorem log_line_v4:
  assumes "w_socks w a = Some o5" and "is_AF_INET (s5_client_addr o5)" and "is_AF_INET (s5_final_server_addr o5)"
    and "8 \<le> length (s5_client_addr o5)" and "8 \<le> length (s5_final_server_addr o5)"
    and "holds_str (s5_user o5) user" and "lg_current_level l \<le> LOG"
  shows "log_conn_line date junk junk_dest a status w l =
    Inr (l\<lparr>lg_text := lg_text l @ chars ''[LOG]: ['' @ date @ chars '']'' @
      (if is_auth_enabled (w_config w) then chars '' '' @ user @ chars '' '' else [9]) @
      ipv4_text (take 4 (drop 4 (s5_client_addr o5))) @ chars '':'' @ digits 10 (port_of (s5_client_addr o5)) @
      chars '' ---> '' @
      ipv4_text (take 4 (drop 4 (s5_final_server_addr o5))) @ chars '':'' @
      digits 10 (port_of (s5_final_server_addr o5)) @ chars '' '' @
      chars (get_status (unat (status_code status))) @ NL\<rparr>)"
  using assms
  by (simp add: log_conn_line_def get_socks_def ip_shown_v4 get_port_of holds_str_def log_print_def conn_line_def
      put_text_def level_defs levelDescription_def chars_def Let_def)

text \<open>The example: 1.2.3.4, port 9090, to port 80 of the same address; the user is \<open>a\<close>.\<close>

definition logged_socks :: socks5 where
  "logged_socks = example_socks\<lparr>s5_client_addr := [2, 0, 0x23, 0x82, 1, 2, 3, 4],
     s5_final_server_addr := [2, 0, 0, 80, 1, 2, 3, 4], s5_user := 97 # 0 # replicate 253 0\<rparr>"

theorem log_line_v4_witness:
  "\<exists>l. log_conn_line (chars ''now'') [] [] 0 status_succeeded (put_socks 0 logged_socks (example_world [])) logger_start = Inr l \<and>
    lg_text l = chars ''[LOG]: [now] a 1.2.3.4:9090 ---> 1.2.3.4:80 succeeded'' @ NL"
proof -
  let ?w = "put_socks 0 logged_socks (example_world [])"
  have d: "digits 10 9090 = [57, 48, 57, 48]" "digits 10 80 = [56, 48]"
    by (simp_all add: digits.simps digit_char_def)
  have o: "w_socks ?w 0 = Some logged_socks" "is_AF_INET (s5_client_addr logged_socks)"
      "is_AF_INET (s5_final_server_addr logged_socks)" "8 \<le> length (s5_client_addr logged_socks)"
      "8 \<le> length (s5_final_server_addr logged_socks)" "holds_str (s5_user logged_socks) [97]"
      "lg_current_level logger_start \<le> LOG"
    by (simp_all add: put_socks_def logged_socks_def is_AF_INET_def AF_INET_bytes_def holds_str_def logger_start_def level_defs)
  have a: "take 4 (drop 4 (s5_client_addr logged_socks)) = [1, 2, 3, 4]" "port_of (s5_client_addr logged_socks) = 9090"
      "take 4 (drop 4 (s5_final_server_addr logged_socks)) = [1, 2, 3, 4]" "port_of (s5_final_server_addr logged_socks) = 80"
      "is_auth_enabled (w_config ?w)"
    by (simp_all add: logged_socks_def port_of_def put_socks_def example_world_def example_config_def is_auth_enabled_def)
  show ?thesis
    unfolding log_line_v4 [OF o] a text_1234 d
    by (simp add: a(5) chars_def logger_start_def get_status_def status_str_def)
qed

end
