(* ===== verification/SocketHelpers.thy ===== *)
theory SocketHelpers
  imports NetUtils CLibrary
begin

text \<open>
  \<^verbatim>\<open>src/netutils.c\<close>: the text of a socket address with its port, and the two loops that send from a
  blocking socket until everything is out. The answers of the sockets are a list here too; a call takes
  the next one, and waits for ever when there is none. \<open>NotSent e\<close> is a \<open>send\<close> that does not answer a
  positive number, with the value that \<open>errno\<close> has then.
\<close>

section \<open>The calls\<close>

datatype sock_answer = Sends nat | NotSent int | Receives "u8 list" | NotReceived

record sock_io =
  io_answers :: "sock_answer list"
  io_sent :: "(int \<times> u8 list) list"
  io_received :: "(int \<times> u8 list) list"

definition io_send :: "int \<Rightarrow> u8 list \<Rightarrow> sock_io \<Rightarrow> ((int + nat) \<times> sock_io) result" where
  "io_send fd bs io =
     (case io_answers io of
        Sends n # xs \<Rightarrow>
          if 0 < n \<and> n \<le> length bs
          then Inr (Inr n, io\<lparr>io_answers := xs, io_sent := io_sent io @ [(fd, take n bs)]\<rparr>)
          else Inl NoAnswer
      | NotSent e # xs \<Rightarrow> Inr (Inl e, io\<lparr>io_answers := xs\<rparr>)
      | _ \<Rightarrow> Inl NoAnswer)"

text \<open>\<open>None\<close> for an answer that is not positive.\<close>

definition io_recv :: "int \<Rightarrow> nat \<Rightarrow> sock_io \<Rightarrow> (u8 list option \<times> sock_io) result" where
  "io_recv fd n io =
     (case io_answers io of
        Receives bs # xs \<Rightarrow>
          if length bs \<le> n
          then Inr (if bs = [] then None else Some bs,
            io\<lparr>io_answers := xs, io_received := io_received io @ [(fd, bs)]\<rparr>)
          else Inl NoAnswer
      | NotReceived # xs \<Rightarrow> Inr (None, io\<lparr>io_answers := xs\<rparr>)
      | _ \<Rightarrow> Inl NoAnswer)"

section \<open>The loops\<close>

lemma io_send_shrinks: "io_send fd bs io = Inr (r, io') \<Longrightarrow> length (io_answers io') < length (io_answers io)"
  by (auto simp: io_send_def split: list.splits sock_answer.splits if_splits)

lemma io_recv_shrinks: "io_recv fd n io = Inr (r, io') \<Longrightarrow> length (io_answers io') < length (io_answers io)"
  by (auto simp: io_recv_def split: list.splits sock_answer.splits if_splits)

function sock_blocking_write :: "int \<Rightarrow> buffer \<Rightarrow> sock_io \<Rightarrow> (int \<times> buffer \<times> sock_io) result" where
  "sock_blocking_write fd b io =
     bind_res (buffer_read_ptr b) (\<lambda>(ptr, n).
     bind_res (load_range (b_mem b) ptr n) (\<lambda>bs.
     bind_res (io_send fd bs io) (\<lambda>(nwritten, io).
     case nwritten of
       Inl e \<Rightarrow> Inr (e, b, io)
     | Inr k \<Rightarrow>
         bind_res (buffer_read_adv b (int k)) (\<lambda>b.
         if buffer_can_read b then sock_blocking_write fd b io else Inr (0, b, io)))))"
  by pat_completeness auto

termination
  by (relation "measure (\<lambda>(_, _, io). length (io_answers io))") (auto dest: io_send_shrinks)

declare sock_blocking_write.simps [simp del]

text \<open>The inner loop of \<open>sock_blocking_copy\<close>: \<open>bs\<close> are the \<open>nread\<close> bytes from \<open>out_ptr\<close> on. The
  answer is \<open>None\<close> when all of them are out, otherwise the jump to \<open>error\<close> with \<open>errno\<close>.\<close>

function copy_out :: "int \<Rightarrow> u8 list \<Rightarrow> sock_io \<Rightarrow> (int option \<times> sock_io) result" where
  "copy_out dest bs io =
     bind_res (io_send dest bs io) (\<lambda>(nwritten, io).
     case nwritten of
       Inl e \<Rightarrow> Inr (Some e, io)
     | Inr k \<Rightarrow> if 0 < length (drop k bs) then copy_out dest (drop k bs) io else Inr (None, io))"
  by pat_completeness auto

termination
  by (relation "measure (\<lambda>(_, _, io). length (io_answers io))") (auto dest: io_send_shrinks)

declare copy_out.simps [simp del]

lemma copy_out_shrinks: "copy_out dest bs io = Inr (r, io') \<Longrightarrow> length (io_answers io') < length (io_answers io)"
proof (induction dest bs io arbitrary: r io' rule: copy_out.induct)
  case (1 dest bs io)
  from "1.prems" obtain x io1 where x: "io_send dest bs io = Inr (x, io1)"
      "(case x of Inl e \<Rightarrow> Inr (Some e, io1)
        | Inr k \<Rightarrow> if 0 < length (drop k bs) then copy_out dest (drop k bs) io1 else Inr (None, io1)) = Inr (r, io')"
    by (subst (asm) copy_out.simps) (auto elim!: bind_res_InrE)
  from x(2) show ?case
    using io_send_shrinks [OF x(1)] "1.IH" [OF x(1) refl] by (fastforce split: sum.splits if_splits)
qed

function sock_blocking_copy :: "int \<Rightarrow> int \<Rightarrow> sock_io \<Rightarrow> (int \<times> sock_io) result" where
  "sock_blocking_copy source dest io =
     bind_res (io_recv source 4096 io) (\<lambda>(r, io).
     case r of
       None \<Rightarrow> Inr (0, io)
     | Some bs \<Rightarrow>
         bind_res (copy_out dest bs io) (\<lambda>(err, io).
         case err of
           Some e \<Rightarrow> Inr (e, io)
         | None \<Rightarrow> sock_blocking_copy source dest io))"
  by pat_completeness auto

termination
  by (relation "measure (\<lambda>(_, _, io). length (io_answers io))")
    (auto dest!: io_recv_shrinks copy_out_shrinks)

declare sock_blocking_copy.simps [simp del]

section \<open>The text of an address\<close>

text \<open>\<open>strncpy\<close> pads with zero bytes; a source that is as long is not terminated.\<close>

definition c_strncpy :: "u8 list \<Rightarrow> u8 list \<Rightarrow> nat \<Rightarrow> u8 list result" where
  "c_strncpy dst s n = store_range dst 0 (take n (s @ replicate n 0))"

text \<open>\<open>strncat(buff, ":", n)\<close> for a positive \<open>n\<close>: the bound is on the source.\<close>

definition append_colon :: "u8 list \<Rightarrow> u8 list result" where
  "append_colon buff = bind_res (c_strlen buff) (\<lambda>len. store_range buff len [58, 0])"

text \<open>\<open>snprintf(buff + len, n, "%d", port)\<close>.\<close>

definition print_port :: "u8 list \<Rightarrow> nat \<Rightarrow> nat \<Rightarrow> nat \<Rightarrow> u8 list result" where
  "print_port buff len n port =
     (if n = 0 then Inr buff else store_range buff len (take (n - 1) (digits 10 port) @ [0]))"

text \<open>\<open>inet_ntop\<close> into \<open>buff\<close>, or the text that stands for its failure.\<close>

definition print_ip :: "u8 list \<Rightarrow> nat \<Rightarrow> u8 list \<Rightarrow> u8 list result" where
  "print_ip buff buffsize text =
     (if length text \<le> buffsize then store_range buff 0 text
      else bind_res (c_strncpy buff (chars ''unknown ip'') buffsize) (\<lambda>buff. store_at buff (buffsize - 1) 0))"

definition human_start :: "u8 list \<Rightarrow> nat \<Rightarrow> u8 list \<Rightarrow> u8 list result" where
  "human_start buff buffsize addr =
     (if is_AF_INET addr then bind_res (sin_text addr) (print_ip buff buffsize)
      else if is_AF_INET6 addr then bind_res (sin6_text addr) (print_ip buff buffsize)
      else c_strncpy buff (chars ''unknown'') buffsize)"

text \<open>A size of 0 makes \<open>buffsize - 1\<close> the largest index there is.\<close>

definition sockaddr_to_human :: "u8 list \<Rightarrow> nat \<Rightarrow> u8 list option \<Rightarrow> u8 list result" where
  "sockaddr_to_human buff buffsize addr =
     (case addr of
        None \<Rightarrow> c_strncpy buff (chars ''null'') buffsize
      | Some addr \<Rightarrow>
          if buffsize = 0 then Inl OutOfBounds
          else
            bind_res (human_start buff buffsize addr) (\<lambda>buff.
            bind_res (append_colon buff) (\<lambda>buff.
            bind_res (store_at buff (buffsize - 1) 0) (\<lambda>buff.
            bind_res (c_strlen buff) (\<lambda>len.
            bind_res (if is_AF_INET addr \<or> is_AF_INET6 addr
                      then bind_res (get_port addr) (print_port buff len (buffsize - len))
                      else Inr buff) (\<lambda>buff.
            store_at buff (buffsize - 1) 0))))))"

section \<open>Everything is sent\<close>

text \<open>The bytes of a log of calls.\<close>

definition stream :: "int \<Rightarrow> (int \<times> u8 list) list \<Rightarrow> u8 list" where
  "stream fd l = concat (map snd (filter (\<lambda>x. fst x = fd) l))"

lemma stream_simps [simp]: "stream fd [] = []" "stream fd (l @ m) = stream fd l @ stream fd m"
    "stream fd ((f, bs) # l) = (if f = fd then bs else []) @ stream fd l"
  by (simp_all add: stream_def)

text \<open>A cut of a number of bytes into the pieces that single calls take.\<close>

definition pieces :: "nat list \<Rightarrow> nat \<Rightarrow> bool" where
  "pieces ks n \<longleftrightarrow> (\<forall>k\<in>set ks. 0 < k) \<and> sum_list ks = n"

lemma pieces_Cons: "pieces (k # ks) n \<longleftrightarrow> 0 < k \<and> k \<le> n \<and> pieces ks (n - k)"
  by (auto simp: pieces_def)

lemma pieces_pos: "pieces ks n \<Longrightarrow> ks = [] \<longleftrightarrow> n = 0"
  by (cases ks) (auto simp: pieces_def)

lemma pieces_Nil: "pieces [] n \<longleftrightarrow> n = 0"
  by (simp add: pieces_def)

lemma sock_write_run:
  assumes "buffer_ok b" and "pending b \<noteq> []" and "pieces ks (length (pending b))"
    and "io_answers io = map Sends ks @ xs"
  shows "\<exists>b' l. sock_blocking_write fd b io = Inr (0, b', io\<lparr>io_answers := xs, io_sent := io_sent io @ l\<rparr>) \<and>
    buffer_ok b' \<and> pending b' = [] \<and> stream fd l = pending b \<and> fst ` set l \<subseteq> {fd}"
  using assms
proof (induction ks arbitrary: b io)
  case (Cons k ks)
  let ?p = "pending b"
  have k: "0 < k" "k \<le> length ?p" "pieces ks (length ?p - k)"
    using Cons.prems(3) by (auto simp: pieces_Cons)
  have ptr: "buffer_read_ptr b = Inr (b_read b, length ?p)" "load_range (b_mem b) (b_read b) (length ?p) = Inr ?p"
    using Cons.prems(1) length_pending [OF Cons.prems(1)]
    by (auto simp: buffer_read_ptr_ok load_range_def pending_def buffer_dims)
  let ?io = "io\<lparr>io_answers := map Sends ks @ xs, io_sent := io_sent io @ [(fd, take k ?p)]\<rparr>"
  have sent: "io_send fd ?p io = Inr (Inr k, ?io)"
    using Cons.prems(4) k by (simp add: io_send_def)
  obtain b1 where b1: "buffer_read_adv b (int k) = Inr b1" "buffer_ok b1" "pending b1 = drop k ?p"
    using buffer_read_adv_ok [OF Cons.prems(1) k(2)] by metis
  have step: "sock_blocking_write fd b io = (if pending b1 = [] then Inr (0, b1, ?io) else sock_blocking_write fd b1 ?io)"
    by (subst sock_blocking_write.simps) (simp add: ptr sent b1(1) can_read_iff [OF b1(2)])
  show ?case
  proof (cases "pending b1 = []")
    case True
    moreover from this have "ks = []"
      using k(3) b1(3) pieces_pos [OF k(3)] by simp
    ultimately show ?thesis
      using step b1 by (intro exI [of _ b1] exI [of _ "[(fd, take k ?p)]"]) simp
  next
    case False
    have "pieces ks (length (pending b1))" "io_answers ?io = map Sends ks @ xs"
      using k(3) b1(3) by simp_all
    from Cons.IH [OF b1(2) False this] obtain b' l where
      "sock_blocking_write fd b1 ?io = Inr (0, b', ?io\<lparr>io_answers := xs, io_sent := io_sent ?io @ l\<rparr>)"
      "buffer_ok b'" "pending b' = []" "stream fd l = pending b1" "fst ` set l \<subseteq> {fd}"
      by blast
    with step False b1(3) show ?thesis
      by (intro exI [of _ b'] exI [of _ "(fd, take k ?p) # l"]) simp
  qed
qed (simp add: pieces_Nil)

lemma copy_out_run:
  assumes "bs \<noteq> []" and "pieces ks (length bs)" and "io_answers io = map Sends ks @ xs"
  shows "\<exists>l. copy_out dest bs io = Inr (None, io\<lparr>io_answers := xs, io_sent := io_sent io @ l\<rparr>) \<and>
    stream dest l = bs \<and> fst ` set l \<subseteq> {dest}"
  using assms
proof (induction ks arbitrary: bs io)
  case (Cons k ks)
  have k: "0 < k" "k \<le> length bs" "pieces ks (length bs - k)"
    using Cons.prems(2) by (auto simp: pieces_Cons)
  let ?io = "io\<lparr>io_answers := map Sends ks @ xs, io_sent := io_sent io @ [(dest, take k bs)]\<rparr>"
  have sent: "io_send dest bs io = Inr (Inr k, ?io)"
    using Cons.prems(3) k by (simp add: io_send_def)
  have step: "copy_out dest bs io = (if drop k bs = [] then Inr (None, ?io) else copy_out dest (drop k bs) ?io)"
    by (subst copy_out.simps) (simp add: sent)
  show ?case
  proof (cases "drop k bs = []")
    case True
    then have "ks = []"
      using pieces_pos [OF k(3)] by simp
    with step True show ?thesis
      by (intro exI [of _ "[(dest, take k bs)]"]) simp
  next
    case False
    have "pieces ks (length (drop k bs))" "io_answers ?io = map Sends ks @ xs"
      using k(3) by simp_all
    from Cons.IH [OF False this] obtain l where
      "copy_out dest (drop k bs) ?io = Inr (None, ?io\<lparr>io_answers := xs, io_sent := io_sent ?io @ l\<rparr>)"
      "stream dest l = drop k bs" "fst ` set l \<subseteq> {dest}"
      by blast
    with step False show ?thesis
      by (intro exI [of _ "(dest, take k bs) # l"]) simp
  qed
qed (simp add: pieces_Nil)

text \<open>What the peers do in a whole copy: a part is received, and sent on in pieces; then the source ends.\<close>

fun copy_script :: "(u8 list \<times> nat list) list \<Rightarrow> sock_answer list" where
  "copy_script [] = [Receives []]"
| "copy_script ((bs, ks) # parts) = Receives bs # map Sends ks @ copy_script parts"

definition parts_ok :: "(u8 list \<times> nat list) list \<Rightarrow> bool" where
  "parts_ok parts \<longleftrightarrow> (\<forall>(bs, ks)\<in>set parts. bs \<noteq> [] \<and> length bs \<le> 4096 \<and> pieces ks (length bs))"

text \<open>However the kernel cuts it into single calls, \<open>sock_blocking_write\<close> sends what waits in the buffer, all of
  it and in order, on its descriptor alone; it answers 0 and leaves the buffer empty. The result is that of one call that takes everything.\<close>

theorem sock_blocking_write_all:
  assumes "buffer_ok b" and "pending b \<noteq> []" and "pieces ks (length (pending b))"
    and "io_answers io = map Sends ks @ xs"
  shows "\<exists>b' l. sock_blocking_write fd b io = Inr (0, b', io\<lparr>io_answers := xs, io_sent := io_sent io @ l\<rparr>) \<and>
    buffer_ok b' \<and> pending b' = [] \<and> fst ` set l = {fd} \<and>
    concat (map snd l) = concat (map snd [(fd, pending b)])"
proof -
  obtain b' l where w: "sock_blocking_write fd b io = Inr (0, b', io\<lparr>io_answers := xs, io_sent := io_sent io @ l\<rparr>)"
      "buffer_ok b'" "pending b' = []" "stream fd l = pending b" "fst ` set l \<subseteq> {fd}"
    using sock_write_run [OF assms] by blast
  have "filter (\<lambda>x. fst x = fd) l = l"
    using w(5) by (auto simp: filter_id_conv)
  then have l: "concat (map snd l) = pending b" "l \<noteq> []"
    using w(4) assms(2) by (auto simp: stream_def)
  then have "fst ` set l = {fd}"
    using w(5) by (metis subset_singletonD image_is_empty set_empty)
  with w l show ?thesis
    by (intro exI [of _ b'] exI [of _ l]) simp
qed

theorem sock_blocking_write_all_witness:
  "\<exists>b' l. sock_blocking_write 7 (buffer_of 8 [65, 66, 67]) \<lparr>io_answers = [Sends 1, Sends 2], io_sent = [], io_received = []\<rparr> =
      Inr (0, b', \<lparr>io_answers = [], io_sent = l, io_received = []\<rparr>) \<and>
    pending b' = [] \<and> concat (map snd l) = [65, 66, 67]"
  using sock_blocking_write_all [of "buffer_of 8 [65, 66, 67]" "[1, 2]"
      "\<lparr>io_answers = [Sends 1, Sends 2], io_sent = [], io_received = []\<rparr>" "[]" 7]
  by (auto simp: pieces_def buffer_of_ok)

text \<open>C33. \<open>sock_blocking_copy\<close> ends when its source does: whatever parts it receives, and however each is
  cut when it is sent on, it returns, with 0, and the destination was sent what the source received, in order.\<close>

theorem sock_blocking_copy_all:
  assumes "parts_ok parts" and "io_answers io = copy_script parts @ xs"
  shows "\<exists>io'. sock_blocking_copy source dest io = Inr (0, io') \<and> io_answers io' = xs \<and>
    stream dest (io_sent io') = stream dest (io_sent io) @ concat (map fst parts) \<and>
    stream source (io_received io') = stream source (io_received io) @ concat (map fst parts)"
  using assms
proof (induction parts arbitrary: io)
  case Nil
  then show ?case
    by (subst sock_blocking_copy.simps) (simp add: io_recv_def)
next
  case (Cons p parts)
  obtain bs ks where p: "p = (bs, ks)" "bs \<noteq> []" "length bs \<le> 4096" "pieces ks (length bs)" "parts_ok parts"
    using Cons.prems(1) by (cases p) (auto simp: parts_ok_def)
  let ?io = "io\<lparr>io_answers := map Sends ks @ copy_script parts @ xs, io_received := io_received io @ [(source, bs)]\<rparr>"
  have recv: "io_recv source 4096 io = Inr (Some bs, ?io)"
    using Cons.prems(2) p by (simp add: io_recv_def)
  obtain l where l: "copy_out dest bs ?io = Inr (None, ?io\<lparr>io_answers := copy_script parts @ xs, io_sent := io_sent ?io @ l\<rparr>)"
      "stream dest l = bs"
    using copy_out_run [OF p(2,4), of ?io "copy_script parts @ xs" dest] by auto
  let ?io2 = "?io\<lparr>io_answers := copy_script parts @ xs, io_sent := io_sent ?io @ l\<rparr>"
  have "sock_blocking_copy source dest io = sock_blocking_copy source dest ?io2"
    by (subst sock_blocking_copy.simps) (simp add: recv l(1))
  with Cons.IH [OF p(5), of ?io2] l(2) p(1) show ?case
    by simp
qed

theorem sock_blocking_copy_all_witness:
  "\<exists>io'. sock_blocking_copy 3 4 \<lparr>io_answers = [Receives [1, 2, 3], Sends 2, Sends 1, Receives [4], Sends 1, Receives []],
      io_sent = [], io_received = []\<rparr> = Inr (0, io') \<and>
    stream 4 (io_sent io') = [1, 2, 3, 4]"
  using sock_blocking_copy_all [of "[([1, 2, 3], [2, 1]), ([4], [1])]"
      "\<lparr>io_answers = [Receives [1, 2, 3], Sends 2, Sends 1, Receives [4], Sends 1, Receives []], io_sent = [], io_received = []\<rparr>"
      "[]" 3 4]
  by (auto simp: parts_ok_def pieces_def)

section \<open>What the text is\<close>

lemma store_range_app:
  "length xs \<le> length b \<Longrightarrow> store_range (a @ b) (length a) xs = Inr (a @ xs @ drop (length xs) b)"
  by (simp add: store_range_def)

lemma append_colon_at:
  assumes "0 \<notin> set t" and "r \<noteq> []"
  shows "append_colon (t @ 0 # r) = Inr (t @ 58 # 0 # tl r)"
  using assms store_range_app [of "[58, 0]" "0 # r" t]
  by (cases r) (simp_all add: append_colon_def c_strlen_def)

lemma append_colon_overrun: "0 \<notin> set t \<Longrightarrow> append_colon (t @ [0]) = Inl OutOfBounds"
  by (simp add: append_colon_def c_strlen_def store_range_def)

text \<open>A zero byte that is stored in a string cuts it, and behind the string it changes nothing.\<close>

lemma holds_str_cut:
  assumes "holds_str a s" and "k < length a"
  shows "holds_str (a[k := 0]) (take k s)"
proof -
  obtain r where a: "0 \<notin> set s" "a = s @ 0 # r"
    using assms(1) by (auto simp: holds_str_iff)
  show ?thesis
  proof (cases "k < length s")
    case True
    then have "a[k := 0] = take k s @ 0 # drop (Suc k) s @ 0 # r"
      by (simp add: a(2) list_update_append1 upd_conv_take_nth_drop)
    with a(1) show ?thesis
      unfolding holds_str_iff by (metis in_set_takeD)
  next
    case False
    then obtain j where j: "k = length s + j" by (metis le_Suc_ex not_less)
    have "a[k := 0] = s @ 0 # (case j of 0 \<Rightarrow> r | Suc i \<Rightarrow> r[i := 0])"
      by (simp add: a(2) j list_update_append split: nat.splits)
    with a(1) False show ?thesis
      unfolding holds_str_iff by auto
  qed
qed

lemma print_port_at:
  assumes "holds_str buff t" and "length t < n" and "n \<le> length buff"
  shows "\<exists>buff'. print_port buff (length t) (n - length t) port = Inr buff' \<and> length buff' = length buff \<and>
    holds_str buff' (take (n - 1) (t @ digits 10 port))"
proof -
  let ?p = "take (n - length t - 1) (digits 10 port)"
  obtain r where b: "0 \<notin> set t" "buff = t @ 0 # r"
    using assms(1) by (auto simp: holds_str_iff)
  let ?b = "t @ (?p @ [0]) @ drop (length (?p @ [0])) (0 # r)"
  have "length (?p @ [0]) \<le> length (0 # r)"
    using assms(2,3) b(2) by simp
  then have st: "store_range buff (length t) (?p @ [0]) = Inr ?b"
    unfolding b(2) by (rule store_range_app)
  then have pp: "print_port buff (length t) (n - length t) port = Inr ?b" and len: "length ?b = length buff"
    using assms(2) store_range_length [OF st] by (simp_all add: print_port_def)
  have "0 \<notin> set (t @ ?p)" "take (n - 1) (t @ digits 10 port) = t @ ?p"
    using b(1) digits_no_zero [of port] assms(2) by (auto dest: in_set_takeD)
  then have "holds_str ?b (take (n - 1) (t @ digits 10 port))"
    unfolding holds_str_iff by simp
  with pp len show ?thesis by blast
qed

text \<open>The text of an IPv4 address is the address, a colon and the port in decimal, cut to the size that is given;
  the array has to have one byte more than the address needs.\<close>

theorem human_text:
  assumes v4: "is_AF_INET addr" "8 \<le> length addr"
    and t: "t = ipv4_text (take 4 (drop 4 addr))"
    and port: "p = unat (addr ! 2) * 256 + unat (addr ! 3)"
    and n: "length t < n" "n \<le> length buff" "length t + 1 < length buff"
  shows "\<exists>buff'. sockaddr_to_human buff n (Some addr) = Inr buff' \<and> length buff' = length buff \<and>
    holds_str buff' (take (n - 1) (t @ 58 # digits 10 p))"
proof -
  let ?r = "drop (Suc (length t)) buff" and ?a = "t @ 58 # 0 # tl (drop (Suc (length t)) buff)"
  have t0: "0 \<notin> set t" by (simp add: t ipv4_text_no_zero)
  have r: "?r \<noteq> []" using n(3) by simp
  have start: "human_start buff n addr = Inr (t @ 0 # ?r)"
    using v4 n by (simp add: human_start_def sin_text_def load_range_def print_ip_def store_range_def t)
  have len: "length ?a = length buff" using n(3) by simp
  have "holds_str ?a (t @ [58])"
    using t0 by (auto simp: holds_str_iff)
  then have cut: "holds_str (?a[n - 1 := 0]) (take (n - 1) (t @ [58]))"
    using holds_str_cut [of ?a "t @ [58]" "n - 1"] len n(1,2) by simp
  let ?t1 = "take (n - 1) (t @ [58])" and ?b = "?a[n - 1 := 0]"
  have lb: "length ?b = length buff" "length ?t1 < n" "n \<le> length ?b" using len n by auto
  obtain buff' where pp: "print_port ?b (length ?t1) (n - length ?t1) p = Inr buff'" "length buff' = length buff"
      "holds_str buff' (take (n - 1) (?t1 @ digits 10 p))"
    using print_port_at [OF cut lb(2,3), of p] lb(1) by metis
  have cutoff: "take (n - 1) (?t1 @ digits 10 p) = take (n - 1) (t @ 58 # digits 10 p)"
    by (cases "n - 1 \<le> length t") simp_all
  have gp: "get_port addr = Inr p"
    using v4(2) by (simp add: get_port_def load_range_def port nth_append)
  have "sockaddr_to_human buff n (Some addr) = Inr (buff'[n - 1 := 0])"
    using start append_colon_at [OF t0 r] cut pp gp v4(1) n len
    by (simp add: sockaddr_to_human_def store_at_def c_strlen_def holds_str_def del: take_append)
  moreover have "holds_str (buff'[n - 1 := 0]) (take (n - 1) (t @ 58 # digits 10 p))"
    using holds_str_cut [OF pp(3), of "n - 1"] pp(2) n cutoff by simp
  ultimately show ?thesis using pp(2) by auto
qed

theorem human_text_witness:
  "\<exists>buff'. sockaddr_to_human (replicate 50 0) 11 (Some [2, 0, 0x23, 0x82, 1, 2, 3, 4]) = Inr buff' \<and>
    holds_str buff' (chars ''1.2.3.4:90'')"
proof -
  have d: "digits 10 9090 = [57, 48, 57, 48]"
    by (simp add: digits.simps digit_char_def)
  show ?thesis
    using human_text [of "[2, 0, 0x23, 0x82, 1, 2, 3, 4]" "[49, 46, 50, 46, 51, 46, 52]" 9090 11 "replicate 50 0"]
    by (auto simp: is_AF_INET_def AF_INET_bytes_def text_1234 d chars_def)
qed

text \<open>Where the text of the address fills the array, the colon is written behind its end: the bound that
  \<open>strncat\<close> is given is the size of the array, not what is left of it.\<close>

theorem human_overrun:
  assumes "is_AF_INET addr" and "8 \<le> length addr"
    and "length (ipv4_text (take 4 (drop 4 addr))) + 1 = length buff"
  shows "sockaddr_to_human buff (length buff) (Some addr) = Inl OutOfBounds"
proof -
  let ?t = "ipv4_text (take 4 (drop 4 addr))"
  have "human_start buff (length buff) addr = Inr (?t @ [0])"
    using assms by (simp add: human_start_def sin_text_def load_range_def print_ip_def store_range_def)
  moreover have "length buff \<noteq> 0" using assms(3) by linarith
  ultimately show ?thesis
    using append_colon_overrun [OF ipv4_text_no_zero] by (simp add: sockaddr_to_human_def)
qed

theorem human_overrun_witness:
  "sockaddr_to_human (replicate 8 0) 8 (Some [2, 0, 0x23, 0x82, 1, 2, 3, 4]) = Inl OutOfBounds"
proof -
  have "length (ipv4_text [1, 2, 3, 4]) = 7"
    by (simp add: text_1234)
  then show ?thesis
    using human_overrun [of "[2, 0, 0x23, 0x82, 1, 2, 3, 4]" "replicate 8 0"]
    by (simp add: is_AF_INET_def AF_INET_bytes_def)
qed

end
