(* ===== verification/Args.thy ===== *)
theory Args
  imports Logger
begin

text \<open>
  The command line of the server, \<^verbatim>\<open>src/args.c\<close>. The calls of \<open>getopt\<close> are the list of what they
  answer, an option character with its argument, and the words of the line that are left when it
  answers -1; \<open>inet_pton\<close> is an argument of the definitions. The addresses to listen on, members of
  \<open>struct config\<close>, are a record of their own: a \<open>sockaddr_in\<close> is its 16 bytes, a \<open>sockaddr_in6\<close>
  its 28 bytes.
\<close>

section \<open>State\<close>

type_synonym pton = "int \<Rightarrow> u8 list \<Rightarrow> u8 list option"
type_synonym opt = "char \<times> u8 list option"

definition AF_INET :: int where "AF_INET = 2"
definition AF_INET6 :: int where "AF_INET6 = 10"
definition DEFAULT_SOCKS_ADDRESS_V4 :: "u8 list" where "DEFAULT_SOCKS_ADDRESS_V4 = chars ''127.0.0.1''"
definition DEFAULT_SOCKS_ADDRESS_V6 :: "u8 list" where "DEFAULT_SOCKS_ADDRESS_V6 = chars ''::1''"
definition DEFAULT_SOCKS_PORT :: nat where "DEFAULT_SOCKS_PORT = 1080"
definition DEFAULT_MNG_ADDRESS_V4 :: "u8 list" where "DEFAULT_MNG_ADDRESS_V4 = chars ''127.0.0.1''"
definition DEFAULT_MNG_ADDRESS_V6 :: "u8 list" where "DEFAULT_MNG_ADDRESS_V6 = chars ''::1''"
definition DEFAULT_MNG_PORT :: nat where "DEFAULT_MNG_PORT = 8080"

record listening =
  li_socksV4 :: "u8 list"
  li_socksV4_flag :: bool
  li_socksV6 :: "u8 list"
  li_socksV6_flag :: bool
  li_mngV4 :: "u8 list"
  li_mngV4_flag :: bool
  li_mngV6 :: "u8 list"
  li_mngV6_flag :: bool

definition zero_listening :: listening where
  "zero_listening = \<lparr>li_socksV4 = replicate 16 0, li_socksV4_flag = False,
     li_socksV6 = replicate 28 0, li_socksV6_flag = False, li_mngV4 = replicate 16 0,
     li_mngV4_flag = False, li_mngV6 = replicate 28 0, li_mngV6_flag = False\<rparr>"

record parsing =
  pa_conf :: config
  pa_listen :: listening
  pa_nusers :: nat
  pa_log :: logger

section \<open>Addresses\<close>

definition htons_bytes :: "nat \<Rightarrow> u8 list" where
  "htons_bytes port = [of_nat (port div 256), of_nat port]"

definition fill_sockaddr_v4 :: "pton \<Rightarrow> nat \<Rightarrow> u8 list \<Rightarrow> u8 list result" where
  "fill_sockaddr_v4 inet_pton port ip =
     bind_res (store_range (replicate 16 0) 0 AF_INET_bytes) (\<lambda>addr.
     bind_res (case inet_pton AF_INET ip of None \<Rightarrow> Inr addr | Some bs \<Rightarrow> store_range addr 4 bs) (\<lambda>addr.
     store_range addr 2 (htons_bytes port)))"

definition fill_sockaddr_v6 :: "pton \<Rightarrow> nat \<Rightarrow> u8 list \<Rightarrow> u8 list result" where
  "fill_sockaddr_v6 inet_pton port ip =
     bind_res (store_range (replicate 28 0) 0 AF_INET6_bytes) (\<lambda>addr.
     bind_res (case inet_pton AF_INET6 ip of None \<Rightarrow> Inr addr | Some bs \<Rightarrow> store_range addr 8 bs) (\<lambda>addr.
     store_range addr 2 (htons_bytes port)))"

definition fill_ip_sockaddr ::
  "pton \<Rightarrow> u8 list \<Rightarrow> u8 list \<Rightarrow> u8 list \<Rightarrow> (int \<times> u8 list \<times> u8 list) result" where
  "fill_ip_sockaddr inet_pton ip addrV4 addrV6 =
     (case inet_pton AF_INET ip of
        Some bs \<Rightarrow> bind_res (store_range addrV4 4 bs) (\<lambda>addrV4. Inr (4, addrV4, addrV6))
      | None \<Rightarrow>
          (case inet_pton AF_INET6 ip of
             Some bs \<Rightarrow> bind_res (store_range addrV6 8 bs) (\<lambda>addrV6. Inr (6, addrV4, addrV6))
           | None \<Rightarrow> Inr (-1, addrV4, addrV6)))"

definition fill_port_sockaddr ::
  "nat \<Rightarrow> u8 list \<Rightarrow> u8 list \<Rightarrow> (u8 list \<times> u8 list) result" where
  "fill_port_sockaddr port addrV4 addrV6 =
     bind_res (store_range addrV4 2 (htons_bytes port)) (\<lambda>addrV4.
     bind_res (store_range addrV6 2 (htons_bytes port)) (\<lambda>addrV6.
     Inr (addrV4, addrV6)))"

section \<open>Arguments of the options\<close>

text \<open>
  The test with \<open>ERANGE\<close> is left out: both bounds of \<open>long\<close> fail one of the two tests that follow.
\<close>

definition port :: "u8 list \<Rightarrow> logger \<Rightarrow> (nat \<times> logger) result" where
  "port s l =
     (let (sl, end_of) = strtol s in
      if end_of = s \<or> end_of \<noteq> [] \<or> sl < 0 \<or> sl > USHRT_MAX then
        bind_res (log_print LOG_ERROR (chars ''port should in in the range of 1-65536: '' @ s @ NL) l) (\<lambda>l.
        Inr (1, l))
      else Inr (nat sl, l))"

definition cmd_user :: "u8 list \<Rightarrow> users \<Rightarrow> logger \<Rightarrow> (users \<times> logger) result" where
  "cmd_user s user l =
     (case strchr s COLON of
        None \<Rightarrow> bind_res (log_print LOG_ERROR (chars ''password not found'' @ NL) l) (\<lambda>l. Inr (user, l))
      | Some p \<Rightarrow>
          let s = takeWhile (\<lambda>c. c \<noteq> COLON) s; p = tl p in
          if length s > MAX_USERNAME_SIZE \<or> length p > MAX_USERNAME_SIZE then
            bind_res (log_print LOG_ERROR (chars ''username or password is too long, max length is '' @
                digits 10 MAX_USERNAME_SIZE) l) (\<lambda>l. Inr (user, l))
          else
            bind_res (c_strcpy (us_name user) (s @ [0])) (\<lambda>name.
            bind_res (c_strcpy (us_pass user) (p @ [0])) (\<lambda>pass.
            Inr (\<lparr>us_name = name, us_pass = pass\<rparr>, l))))"

text \<open>Both print to the terminal and exit.\<close>

definition usage :: "'a result" where "usage = Inl FatalExit"
definition version :: "'a result" where "version = Inl FatalExit"

section \<open>The line\<close>

definition set_users :: "nat \<Rightarrow> users \<Rightarrow> config \<Rightarrow> config result" where
  "set_users i u c = bind_res (store_at (cf_users c) i u) (\<lambda>us. Inr (c\<lparr>cf_users := us\<rparr>))"

text \<open>One round of the loop; the boolean is \<open>goto finally\<close>.\<close>

definition parse_opt :: "pton \<Rightarrow> opt \<Rightarrow> parsing \<Rightarrow> (parsing \<times> bool) result" where
  "parse_opt inet_pton option p =
     (let (c, optarg) = option; li = pa_listen p in
      if c = CHR ''h'' then usage
      else if c = CHR ''l'' then
        bind_res (deref optarg) (\<lambda>ip.
        bind_res (fill_ip_sockaddr inet_pton ip (li_socksV4 li) (li_socksV6 li)) (\<lambda>(ipv, v4, v6).
        let li = li\<lparr>li_socksV4 := v4, li_socksV6 := v6\<rparr> in
        if ipv = -1 then
          bind_res (log_print LOG_ERROR (chars ''invalid server ip addr: '' @ ip @ NL) (pa_log p)) (\<lambda>l.
          Inr (p\<lparr>pa_listen := li, pa_log := l\<rparr>, True))
        else
          Inr (p\<lparr>pa_listen := (if ipv = 4 then li\<lparr>li_socksV6_flag := False\<rparr>
                               else li\<lparr>li_socksV4_flag := False\<rparr>)\<rparr>, False)))
      else if c = CHR ''L'' then
        bind_res (deref optarg) (\<lambda>ip.
        bind_res (fill_ip_sockaddr inet_pton ip (li_mngV4 li) (li_mngV6 li)) (\<lambda>(ipv, v4, v6).
        let li = li\<lparr>li_mngV4 := v4, li_mngV6 := v6\<rparr> in
        if ipv = -1 then
          bind_res (log_print LOG_ERROR (chars ''invalid Mng server ip addr: '' @ ip @ NL) (pa_log p)) (\<lambda>l.
          Inr (p\<lparr>pa_listen := li, pa_log := l\<rparr>, True))
        else
          Inr (p\<lparr>pa_listen := (if ipv = 4 then li\<lparr>li_mngV6_flag := False\<rparr>
                               else li\<lparr>li_mngV4_flag := False\<rparr>)\<rparr>, False)))
      else if c = CHR ''N'' then
        Inr (p\<lparr>pa_conf := (pa_conf p)\<lparr>cf_disectors_enabled := False\<rparr>\<rparr>, False)
      else if c = CHR ''p'' then
        bind_res (deref optarg) (\<lambda>s.
        bind_res (port s (pa_log p)) (\<lambda>(n, l).
        bind_res (fill_port_sockaddr n (li_socksV4 li) (li_socksV6 li)) (\<lambda>(v4, v6).
        Inr (p\<lparr>pa_listen := li\<lparr>li_socksV4 := v4, li_socksV6 := v6\<rparr>, pa_log := l\<rparr>, False))))
      else if c = CHR ''P'' then
        bind_res (deref optarg) (\<lambda>s.
        bind_res (port s (pa_log p)) (\<lambda>(n, l).
        bind_res (fill_port_sockaddr n (li_mngV4 li) (li_mngV6 li)) (\<lambda>(v4, v6).
        Inr (p\<lparr>pa_listen := li\<lparr>li_mngV4 := v4, li_mngV6 := v6\<rparr>, pa_log := l\<rparr>, False))))
      else if c = CHR ''u'' then
        (if pa_nusers p \<ge> MAX_SOCKS_USERS then
           bind_res (log_print LOG_ERROR (chars ''maximum number of command line users reached: '' @
               digits 10 MAX_SOCKS_USERS @ chars ''.'' @ NL) (pa_log p)) (\<lambda>l.
           Inr (p\<lparr>pa_log := l\<rparr>, False))
         else
           bind_res (deref optarg) (\<lambda>s.
           bind_res (load_at (cf_users (pa_conf p)) (pa_nusers p)) (\<lambda>u.
           bind_res (cmd_user s u (pa_log p)) (\<lambda>(u, l).
           bind_res (set_users (pa_nusers p) u (pa_conf p)) (\<lambda>conf.
           Inr (p\<lparr>pa_conf := conf\<lparr>cf_users_size := pa_nusers p + 1\<rparr>, pa_nusers := pa_nusers p + 1,
                   pa_log := l\<rparr>, False))))))
      else if c = CHR ''v'' then version
      else
        bind_res (log_print LOG_ERROR (chars ''unknown argument '' @ digits 10 (of_char c) @ chars ''.'' @ NL)
            (pa_log p)) (\<lambda>l. Inr (p\<lparr>pa_log := l\<rparr>, False)))"

fun parse_opts :: "pton \<Rightarrow> opt list \<Rightarrow> parsing \<Rightarrow> (parsing \<times> bool) result" where
  "parse_opts inet_pton [] p = Inr (p, False)"
| "parse_opts inet_pton (x # xs) p =
     bind_res (parse_opt inet_pton x p) (\<lambda>(p, stop).
     if stop then Inr (p, True) else parse_opts inet_pton xs p)"

text \<open>The words that are no options.\<close>

fun refuse_rest :: "u8 list list \<Rightarrow> logger \<Rightarrow> logger result" where
  "refuse_rest [] l = Inr l"
| "refuse_rest (x # xs) l = bind_res (log_print LOG_ERROR (x @ chars '' '') l) (refuse_rest xs)"

definition parse_defaults :: "pton \<Rightarrow> listening \<Rightarrow> listening result" where
  "parse_defaults inet_pton li =
     bind_res (fill_sockaddr_v4 inet_pton DEFAULT_SOCKS_PORT DEFAULT_SOCKS_ADDRESS_V4) (\<lambda>s4.
     bind_res (fill_sockaddr_v6 inet_pton DEFAULT_SOCKS_PORT DEFAULT_SOCKS_ADDRESS_V6) (\<lambda>s6.
     bind_res (fill_sockaddr_v4 inet_pton DEFAULT_MNG_PORT DEFAULT_MNG_ADDRESS_V4) (\<lambda>m4.
     bind_res (fill_sockaddr_v6 inet_pton DEFAULT_MNG_PORT DEFAULT_MNG_ADDRESS_V6) (\<lambda>m6.
     Inr (li\<lparr>li_socksV4 := s4, li_socksV4_flag := True, li_socksV6 := s6, li_socksV6_flag := True,
             li_mngV4 := m4, li_mngV4_flag := True, li_mngV6 := m6, li_mngV6_flag := True\<rparr>)))))"

text \<open>What follows the loop, up to \<open>finally\<close>.\<close>

definition line_end :: "u8 list list \<Rightarrow> parsing \<Rightarrow> bool \<Rightarrow> parsing result" where
  "line_end rest p stop =
     (if stop then Inr p
      else
        let p = (if pa_nusers p > 0 then p\<lparr>pa_conf := (pa_conf p)\<lparr>cf_auth_enabled := True\<rparr>\<rparr> else p) in
        if rest \<noteq> [] then
          bind_res (log_print LOG_ERROR (chars ''argument not accepted: '') (pa_log p)) (\<lambda>l.
          bind_res (refuse_rest rest l) (\<lambda>l. Inr (p\<lparr>pa_log := l\<rparr>)))
        else Inr p)"

definition parse_args ::
  "pton \<Rightarrow> opt list \<Rightarrow> u8 list list \<Rightarrow> config \<Rightarrow> listening \<Rightarrow> logger \<Rightarrow> parsing result" where
  "parse_args inet_pton opts rest conf li l =
     bind_res (parse_defaults inet_pton li) (\<lambda>li.
     bind_res (parse_opts inet_pton opts \<lparr>pa_conf = conf, pa_listen = li, pa_nusers = 0, pa_log = l\<rparr>)
       (\<lambda>(p, stop).
     bind_res (line_end rest p stop) (\<lambda>p.
     if lg_error_flag (pa_log p) then Inl FatalExit else Inr p)))"

section \<open>The ports\<close>

definition listening_ok :: "listening \<Rightarrow> bool" where
  "listening_ok li \<longleftrightarrow> length (li_socksV4 li) = 16 \<and> length (li_socksV6 li) = 28 \<and>
     length (li_mngV4 li) = 16 \<and> length (li_mngV6 li) = 28"

lemma port_digits: "n \<le> 65535 \<Longrightarrow> port (digits 10 n) l = Inr (n, l)"
  using strtol_digits [of n] digits_base10(2) [of n]
  by (simp add: port_def LONG_MAX_def USHRT_MAX_def)

lemma get_port_stored:
  assumes "4 \<le> length addr" and "n \<le> 65535"
  obtains addr1 where "store_range addr 2 (htons_bytes n) = Inr addr1" "get_port addr1 = Inr n"
    "length addr1 = length addr" "take 2 addr1 = take 2 addr" "drop 4 addr1 = drop 4 addr"
proof -
  let ?a = "take 2 addr @ htons_bytes n @ drop 4 addr"
  have st: "store_range addr 2 (htons_bytes n) = Inr ?a"
    using assms(1) by (simp add: store_range_def htons_bytes_def)
  have "take 2 (drop 2 ?a) = htons_bytes n" "length ?a = length addr"
    using assms(1) by (simp_all add: htons_bytes_def)
  moreover have "unat (of_nat (n div 256) :: u8) * 256 + unat (of_nat n :: u8) = n"
    using assms(2) by (simp add: unat_of_nat)
  ultimately have "get_port ?a = Inr n"
    using assms(1) by (simp add: get_port_def load_range_def htons_bytes_def)
  then show ?thesis
    by (intro that [OF st]) (use assms(1) in \<open>simp_all add: htons_bytes_def\<close>)
qed

section \<open>The accounts\<close>

definition user_word :: "u8 list \<times> u8 list \<Rightarrow> u8 list" where
  "user_word a = fst a @ COLON # snd a"

text \<open>The accounts that the line can name without overrunning the arrays.\<close>

definition word_ok :: "u8 list \<times> u8 list \<Rightarrow> bool" where
  "word_ok a \<longleftrightarrow> COLON \<notin> set (fst a) \<and> 0 \<notin> set (fst a) \<and> 0 \<notin> set (snd a) \<and>
     length (fst a) < MAX_USERNAME_SIZE \<and> length (snd a) < MAX_USERNAME_SIZE"

lemma cmd_user_word:
  assumes w: "word_ok a" and u: "user_ok u"
  obtains v where "cmd_user (user_word a) u l = Inr (v, l)" "user_ok v"
    "terminated (us_name v)" "terminated (us_pass v)" "account v = a"
proof -
  have h: "holds_str (fst a @ [0]) (fst a)" "holds_str (snd a @ [0]) (snd a)"
    using w by (auto simp: word_ok_def holds_str_iff)
  obtain n where n: "c_strcpy (us_name u) (fst a @ [0]) = Inr n" "length n = MAX_USERNAME_SIZE"
      "holds_str n (fst a)"
    using strcpy_account [OF h(1)] u w unfolding user_ok_def word_ok_def by metis
  obtain q where q: "c_strcpy (us_pass u) (snd a @ [0]) = Inr q" "length q = MAX_USERNAME_SIZE"
      "holds_str q (snd a)"
    using strcpy_account [OF h(2)] u w unfolding user_ok_def word_ok_def by metis
  show ?thesis
  proof
    show "cmd_user (user_word a) u l = Inr (\<lparr>us_name = n, us_pass = q\<rparr>, l)"
      using n(1) q(1) w
      by (simp add: cmd_user_def user_word_def strchr_until takeWhile_until word_ok_def Let_def not_le)
    show "user_ok \<lparr>us_name = n, us_pass = q\<rparr>" using n(2) q(2) by (simp add: user_ok_def)
    show "account \<lparr>us_name = n, us_pass = q\<rparr> = a" using n(3) q(3) by (simp add: account_holds)
  qed (use n(3) q(3) terminated_holds in auto)
qed

lemma parse_user_opt:
  assumes c: "config_ok (pa_conf p)" and n: "cf_users_size (pa_conf p) = pa_nusers p"
    and room: "pa_nusers p < MAX_SOCKS_USERS" and w: "word_ok a"
  obtains conf where
    "parse_opt inet_pton (CHR ''u'', Some (user_word a)) p =
       Inr (p\<lparr>pa_conf := conf, pa_nusers := pa_nusers p + 1\<rparr>, False)"
    "config_ok conf" "accounts conf = accounts (pa_conf p) @ [a]"
    "cf_users_size conf = pa_nusers p + 1"
    "cf_auth_enabled conf = cf_auth_enabled (pa_conf p)"
proof -
  let ?c = "pa_conf p"
  have lt: "cf_users_size ?c < MAX_SOCKS_USERS" using n room by simp
  note old = config_ok_next [OF c lt]
  obtain v where v: "cmd_user (user_word a) (cf_users ?c ! pa_nusers p) (pa_log p) = Inr (v, pa_log p)"
      "user_ok v" "terminated (us_name v)" "terminated (us_pass v)" "account v = a"
    using cmd_user_word [OF w] old(2) n by metis
  let ?d = "?c\<lparr>cf_users := (cf_users ?c)[pa_nusers p := v], cf_users_size := pa_nusers p + 1\<rparr>"
  have "store_at (cf_users ?c) (pa_nusers p) v = Inr ((cf_users ?c)[pa_nusers p := v])"
    using c room by (simp add: store_at_in config_ok_def)
  then have run: "parse_opt inet_pton (CHR ''u'', Some (user_word a)) p =
      Inr (p\<lparr>pa_conf := ?d, pa_nusers := pa_nusers p + 1\<rparr>, False)"
    using room old(1) n v(1) by (simp add: parse_opt_def set_users_def not_le)
  show ?thesis
    by (rule that [OF run]) (use config_ok_grow [OF c lt v(2-4)] n v(5) in simp_all)
qed

lemma parse_users:
  assumes "config_ok (pa_conf p)" and "cf_users_size (pa_conf p) = pa_nusers p"
    and "pa_nusers p + length as \<le> MAX_SOCKS_USERS" and "\<forall>a\<in>set as. word_ok a"
  shows "\<exists>conf. parse_opts inet_pton (map (\<lambda>a. (CHR ''u'', Some (user_word a))) as) p =
      Inr (p\<lparr>pa_conf := conf, pa_nusers := pa_nusers p + length as\<rparr>, False) \<and>
    config_ok conf \<and> accounts conf = accounts (pa_conf p) @ as \<and>
    cf_auth_enabled conf = cf_auth_enabled (pa_conf p)"
  using assms
proof (induction as arbitrary: p)
  case Nil
  then show ?case by (intro exI [of _ "pa_conf p"]) simp
next
  case (Cons a as)
  from Cons.prems obtain conf where c:
    "parse_opt inet_pton (CHR ''u'', Some (user_word a)) p =
       Inr (p\<lparr>pa_conf := conf, pa_nusers := pa_nusers p + 1\<rparr>, False)"
    "config_ok conf" "accounts conf = accounts (pa_conf p) @ [a]"
    "cf_users_size conf = pa_nusers p + 1" "cf_auth_enabled conf = cf_auth_enabled (pa_conf p)"
    using parse_user_opt [of p a inet_pton] by (auto simp: Suc_le_eq)
  from Cons.IH [of "p\<lparr>pa_conf := conf, pa_nusers := pa_nusers p + 1\<rparr>"] Cons.prems c
  show ?case by auto
qed

section \<open>The lines that are accepted\<close>

definition option_accepted :: "pton \<Rightarrow> opt \<Rightarrow> bool" where
  "option_accepted inet_pton x \<longleftrightarrow>
     (case x of
        (c, None) \<Rightarrow> c = CHR ''N''
      | (c, Some s) \<Rightarrow>
          c = CHR ''N'' \<or>
          c \<in> {CHR ''l'', CHR ''L''} \<and> (inet_pton AF_INET s \<noteq> None \<or> inet_pton AF_INET6 s \<noteq> None) \<or>
          c \<in> {CHR ''p'', CHR ''P''} \<and> s \<noteq> [] \<and> snd (strtol s) = [] \<and>
            0 \<le> fst (strtol s) \<and> fst (strtol s) \<le> USHRT_MAX \<or>
          c = CHR ''u'' \<and> COLON \<in> set s \<and>
            length (takeWhile (\<lambda>c. c \<noteq> COLON) s) < MAX_USERNAME_SIZE \<and>
            length (tl (dropWhile (\<lambda>c. c \<noteq> COLON) s)) < MAX_USERNAME_SIZE)"

lemma log_error_sets: "log_print LOG_ERROR msg l = Inr l1 \<Longrightarrow> lg_error_flag l1"
  by (auto simp: log_print_def level_defs split: if_splits)

lemma refuse_rest_sets: "refuse_rest xs l = Inr l1 \<Longrightarrow> lg_error_flag l \<Longrightarrow> lg_error_flag l1"
  by (induction xs arbitrary: l) (auto elim!: bind_res_InrE dest: log_error_sets)

lemma port_accepts:
  assumes "port s l = Inr (n, l1)"
  shows "lg_error_flag l1 \<or>
    l1 = l \<and> s \<noteq> [] \<and> snd (strtol s) = [] \<and> 0 \<le> fst (strtol s) \<and> fst (strtol s) \<le> USHRT_MAX"
  using assms
  by (cases "strtol s") (auto simp: port_def elim!: bind_res_InrE dest: log_error_sets split: if_splits)

lemma dropWhile_Cons_mem: "dropWhile P xs = y # ys \<Longrightarrow> \<not> P y \<and> y \<in> set xs"
  by (metis hd_dropWhile list.distinct(1) list.sel(1) list.set_intros(1) set_dropWhileD)

lemma strchr_SomeD:
  "strchr s c = Some t \<Longrightarrow> c \<in> set s \<and> t = dropWhile (\<lambda>x. x \<noteq> c) s"
  by (fastforce simp: strchr_def dest: dropWhile_Cons_mem [OF sym] split: list.splits)

lemma c_strcpy_fits:
  assumes "c_strcpy dst (s @ [0]) = Inr d" and "0 \<notin> set s"
  shows "length s < length dst"
  using assms c_strcpy_overflow [of "s @ [0]" s dst] by (force simp: holds_str_iff)

lemma cmd_user_accepts:
  assumes "cmd_user s u l = Inr (v, l1)" and "user_ok u" and "0 \<notin> set s"
  shows "lg_error_flag l1 \<or>
    l1 = l \<and> COLON \<in> set s \<and> length (takeWhile (\<lambda>c. c \<noteq> COLON) s) < MAX_USERNAME_SIZE \<and>
      length (tl (dropWhile (\<lambda>c. c \<noteq> COLON) s)) < MAX_USERNAME_SIZE" "user_ok v"
proof -
  have n: "0 \<notin> set (takeWhile (\<lambda>c. c \<noteq> COLON) s)" "0 \<notin> set (tl (dropWhile (\<lambda>c. c \<noteq> COLON) s))"
    using assms(3) by (auto dest: set_takeWhileD set_dropWhileD list.set_sel(2) [rotated])
      (metis list.sel(2) list.set_sel(2) set_dropWhileD)
  show "lg_error_flag l1 \<or>
    l1 = l \<and> COLON \<in> set s \<and> length (takeWhile (\<lambda>c. c \<noteq> COLON) s) < MAX_USERNAME_SIZE \<and>
      length (tl (dropWhile (\<lambda>c. c \<noteq> COLON) s)) < MAX_USERNAME_SIZE"
    using assms(1,2) n
    by (auto simp: cmd_user_def Let_def user_ok_def elim!: bind_res_InrE
        dest!: log_error_sets strchr_SomeD c_strcpy_fits split: if_splits option.splits)
  show "user_ok v"
    using assms(1,2)
    by (auto simp: cmd_user_def Let_def user_ok_def c_strcpy_def elim!: bind_res_InrE
        dest!: store_range_length split: if_splits option.splits)
qed

text \<open>What one option leaves behind: either the error flag, or an option that is accepted.\<close>

definition users_fit :: "parsing \<Rightarrow> bool" where
  "users_fit p \<longleftrightarrow> (\<forall>u\<in>set (cf_users (pa_conf p)). user_ok u)"

definition opt_outcome :: "pton \<Rightarrow> opt \<Rightarrow> parsing \<Rightarrow> parsing \<Rightarrow> bool \<Rightarrow> bool" where
  "opt_outcome inet_pton x p q stop \<longleftrightarrow> users_fit q \<and>
     (lg_error_flag (pa_log p) \<longrightarrow> lg_error_flag (pa_log q)) \<and>
     (lg_error_flag (pa_log q) \<or>
      \<not> stop \<and> option_accepted inet_pton x \<and>
      (if fst x = CHR ''u'' then pa_nusers p < MAX_SOCKS_USERS \<and> pa_nusers q = pa_nusers p + 1
       else pa_nusers q = pa_nusers p))"

lemma address_opt_outcome:
  assumes "parse_opt inet_pton x p = Inr (q, stop)" and "users_fit p"
    and "fst x \<in> {CHR ''l'', CHR ''L''}"
  shows "opt_outcome inet_pton x p q stop"
  using assms
  by (cases x) (auto simp: parse_opt_def Let_def fill_ip_sockaddr_def deref_def opt_outcome_def
      users_fit_def option_accepted_def elim!: bind_res_InrE dest!: log_error_sets
      split: if_splits option.splits)

lemma port_opt_outcome:
  assumes "parse_opt inet_pton x p = Inr (q, stop)" and "users_fit p"
    and "fst x \<in> {CHR ''p'', CHR ''P''}"
  shows "opt_outcome inet_pton x p q stop"
  using assms
  by (cases x) (auto simp: parse_opt_def Let_def deref_def opt_outcome_def users_fit_def
      option_accepted_def elim!: bind_res_InrE dest!: port_accepts split: if_splits option.splits)

lemma user_opt_outcome:
  assumes "parse_opt inet_pton x p = Inr (q, stop)" and "users_fit p"
    and "fst x = CHR ''u''" and "\<forall>s. snd x = Some s \<longrightarrow> 0 \<notin> set s"
  shows "opt_outcome inet_pton x p q stop"
proof (cases "pa_nusers p \<ge> MAX_SOCKS_USERS")
  case True
  with assms show ?thesis
    by (cases x) (auto simp: parse_opt_def Let_def opt_outcome_def users_fit_def
        elim!: bind_res_InrE dest!: log_error_sets)
next
  case False
  obtain s where x: "x = (CHR ''u'', Some s)" "0 \<notin> set s"
    using assms(1,3,4) False by (cases x; cases "snd x") (auto simp: parse_opt_def)
  obtain u v l conf where run: "load_at (cf_users (pa_conf p)) (pa_nusers p) = Inr u"
    "cmd_user s u (pa_log p) = Inr (v, l)" "set_users (pa_nusers p) v (pa_conf p) = Inr conf"
    "q = p\<lparr>pa_conf := conf\<lparr>cf_users_size := pa_nusers p + 1\<rparr>, pa_nusers := pa_nusers p + 1, pa_log := l\<rparr>"
    "stop = False"
    using assms(1) False x by (auto simp: parse_opt_def elim!: bind_res_InrE)
  have u: "user_ok u"
    using run(1) assms(2) by (auto simp: load_at_def users_fit_def split: if_splits)
  have "users_fit q"
    using run(3,4) assms(2) cmd_user_accepts(2) [OF run(2) u x(2)]
    by (auto simp: users_fit_def set_users_def store_at_Inr_iff elim!: bind_res_InrE
        dest!: subsetD [OF set_update_subset_insert])
  with cmd_user_accepts(1) [OF run(2) u x(2)] run(4,5) False x show ?thesis
    by (auto simp: opt_outcome_def option_accepted_def)
qed

lemma parse_opt_outcome:
  assumes "parse_opt inet_pton x p = Inr (q, stop)" and "users_fit p"
    and "\<forall>s. snd x = Some s \<longrightarrow> 0 \<notin> set s"
  shows "opt_outcome inet_pton x p q stop"
proof -
  consider "fst x \<in> {CHR ''l'', CHR ''L''}" | "fst x \<in> {CHR ''p'', CHR ''P''}" | "fst x = CHR ''u''"
    | "fst x \<notin> {CHR ''l'', CHR ''L'', CHR ''p'', CHR ''P'', CHR ''u''}" by blast
  then show ?thesis
  proof cases
    case 4
    with assms(1,2) show ?thesis
      by (cases x) (auto simp: parse_opt_def Let_def usage_def version_def opt_outcome_def
          users_fit_def option_accepted_def elim!: bind_res_InrE dest!: log_error_sets split: if_splits option.splits)
  qed (use assms address_opt_outcome port_opt_outcome user_opt_outcome in blast)+
qed

lemma parse_opts_outcome:
  assumes "parse_opts inet_pton xs p = Inr (q, stop)" and "users_fit p"
    and "\<forall>x\<in>set xs. \<forall>s. snd x = Some s \<longrightarrow> 0 \<notin> set s"
  shows "(lg_error_flag (pa_log p) \<longrightarrow> lg_error_flag (pa_log q)) \<and>
    (lg_error_flag (pa_log q) \<or>
     \<not> stop \<and> (\<forall>x\<in>set xs. option_accepted inet_pton x) \<and>
     (pa_nusers p \<le> MAX_SOCKS_USERS \<longrightarrow> pa_nusers q \<le> MAX_SOCKS_USERS) \<and>
     pa_nusers q = pa_nusers p + length (filter (\<lambda>x. fst x = CHR ''u'') xs))"
  using assms
proof (induction xs arbitrary: p)
  case Nil
  then show ?case by auto
next
  case (Cons x xs)
  obtain p1 st where one: "parse_opt inet_pton x p = Inr (p1, st)"
      "(if st then Inr (p1, True) else parse_opts inet_pton xs p1) = Inr (q, stop)"
    using Cons.prems(1) by (auto elim!: bind_res_InrE)
  have o1: "opt_outcome inet_pton x p p1 st"
    using parse_opt_outcome [OF one(1) Cons.prems(2)] Cons.prems(3) by simp
  show ?case
  proof (cases st)
    case True
    with o1 one(2) show ?thesis by (auto simp: opt_outcome_def)
  next
    case False
    with one(2) o1 have "parse_opts inet_pton xs p1 = Inr (q, stop)" "users_fit p1"
      by (auto simp: opt_outcome_def)
    with Cons.IH [of p1] Cons.prems(3) o1 False show ?thesis
      by (auto simp: opt_outcome_def split: if_splits)
  qed
qed

section \<open>The whole line\<close>

text \<open>What the manual of \<open>inet_pton\<close> says of the length of an address.\<close>

definition pton_ok :: "pton \<Rightarrow> bool" where
  "pton_ok inet_pton \<longleftrightarrow> (\<forall>ip bs. inet_pton AF_INET ip = Some bs \<longrightarrow> length bs = 4) \<and>
     (\<forall>ip bs. inet_pton AF_INET6 ip = Some bs \<longrightarrow> length bs = 16)"

lemma fill_sockaddr_ok:
  assumes "pton_ok inet_pton"
  obtains v4 v6 where "fill_sockaddr_v4 inet_pton port4 ip4 = Inr v4" "length v4 = 16"
    "fill_sockaddr_v6 inet_pton port6 ip6 = Inr v6" "length v6 = 28"
proof -
  have "\<exists>v. fill_sockaddr_v4 inet_pton port4 ip4 = Inr v \<and> length v = 16"
    using assms by (cases "inet_pton AF_INET ip4")
      (auto simp: fill_sockaddr_v4_def store_range_def AF_INET_bytes_def htons_bytes_def pton_ok_def)
  moreover have "\<exists>v. fill_sockaddr_v6 inet_pton port6 ip6 = Inr v \<and> length v = 28"
    using assms by (cases "inet_pton AF_INET6 ip6")
      (auto simp: fill_sockaddr_v6_def store_range_def AF_INET6_bytes_def htons_bytes_def pton_ok_def)
  ultimately show ?thesis using that by blast
qed

lemma parse_defaults_ok:
  assumes "pton_ok inet_pton"
  obtains li1 where "parse_defaults inet_pton li = Inr li1" "listening_ok li1"
proof -
  obtain s4 s6 where s: "fill_sockaddr_v4 inet_pton DEFAULT_SOCKS_PORT DEFAULT_SOCKS_ADDRESS_V4 = Inr s4"
      "length s4 = 16"
      "fill_sockaddr_v6 inet_pton DEFAULT_SOCKS_PORT DEFAULT_SOCKS_ADDRESS_V6 = Inr s6" "length s6 = 28"
    using fill_sockaddr_ok [OF assms] by metis
  obtain m4 m6 where m: "fill_sockaddr_v4 inet_pton DEFAULT_MNG_PORT DEFAULT_MNG_ADDRESS_V4 = Inr m4"
      "length m4 = 16"
      "fill_sockaddr_v6 inet_pton DEFAULT_MNG_PORT DEFAULT_MNG_ADDRESS_V6 = Inr m6" "length m6 = 28"
    using fill_sockaddr_ok [OF assms] by metis
  from s m that show ?thesis by (simp add: parse_defaults_def listening_ok_def)
qed

text \<open>A line of two accounts, for an \<open>inet_pton\<close> that knows the two default addresses.\<close>

definition loopback :: pton where
  "loopback family ip =
     (if family = AF_INET \<and> ip = chars ''127.0.0.1'' then Some [127, 0, 0, 1]
      else if family = AF_INET6 \<and> ip = chars ''::1'' then Some (replicate 15 0 @ [1]) else None)"

definition start_config :: config where
  "start_config = init_config server_conf"

definition user_opts :: "(u8 list \<times> u8 list) list \<Rightarrow> opt list" where
  "user_opts as = map (\<lambda>a. (CHR ''u'', Some (user_word a))) as"

definition no_zeros :: "opt list \<Rightarrow> bool" where
  "no_zeros opts \<longleftrightarrow> (\<forall>x\<in>set opts. \<forall>s. snd x = Some s \<longrightarrow> 0 \<notin> set s)"

lemma loopback_ok: "pton_ok loopback"
  by (simp add: pton_ok_def loopback_def AF_INET_def AF_INET6_def)

lemma start_config_ok: "config_ok start_config" "cf_users_size start_config = 0"
  by (simp_all add: start_config_def init_config_def server_conf_def config_ok_def user_ok_def)

lemma config_ok_fit: "config_ok c \<Longrightarrow> users_fit \<lparr>pa_conf = c, pa_listen = li, pa_nusers = n, pa_log = l\<rparr>"
  by (simp add: config_ok_def users_fit_def)

section \<open>Properties\<close>

text \<open>A port of the command line, written in decimal, is the port that the sockets are bound
  to: after \<open>-p n\<close> both SOCKS addresses hold \<open>n\<close> in network order, nothing else has changed and no
  error is logged.\<close>

theorem port_of_the_line:
  assumes "listening_ok (pa_listen p)" and "n \<le> 65535"
  shows "\<exists>v4 v6. parse_opt inet_pton (CHR ''p'', Some (digits 10 n)) p =
      Inr (p\<lparr>pa_listen := (pa_listen p)\<lparr>li_socksV4 := v4, li_socksV6 := v6\<rparr>\<rparr>, False) \<and>
    get_port v4 = Inr n \<and> get_port v6 = Inr n \<and>
    take 2 v4 = take 2 (li_socksV4 (pa_listen p)) \<and> drop 4 v4 = drop 4 (li_socksV4 (pa_listen p)) \<and>
    take 2 v6 = take 2 (li_socksV6 (pa_listen p)) \<and> drop 4 v6 = drop 4 (li_socksV6 (pa_listen p))"
proof -
  obtain v4 where v4: "store_range (li_socksV4 (pa_listen p)) 2 (htons_bytes n) = Inr v4"
      "get_port v4 = Inr n" "take 2 v4 = take 2 (li_socksV4 (pa_listen p))"
      "drop 4 v4 = drop 4 (li_socksV4 (pa_listen p))"
    using get_port_stored [of "li_socksV4 (pa_listen p)" n] assms unfolding listening_ok_def by auto
  obtain v6 where v6: "store_range (li_socksV6 (pa_listen p)) 2 (htons_bytes n) = Inr v6"
      "get_port v6 = Inr n" "take 2 v6 = take 2 (li_socksV6 (pa_listen p))"
      "drop 4 v6 = drop 4 (li_socksV6 (pa_listen p))"
    using get_port_stored [of "li_socksV6 (pa_listen p)" n] assms unfolding listening_ok_def by auto
  show ?thesis
    using v4 v6 by (intro exI [of _ v4] exI [of _ v6])
      (simp add: parse_opt_def port_digits [OF assms(2)] fill_port_sockaddr_def Let_def)
qed

theorem port_of_the_line_witness:
  "\<exists>v4 v6. parse_opt loopback (CHR ''p'', Some (digits 10 1080))
       \<lparr>pa_conf = start_config, pa_listen = zero_listening, pa_nusers = 0, pa_log = logger_start\<rparr> =
      Inr (\<lparr>pa_conf = start_config, pa_listen = zero_listening, pa_nusers = 0, pa_log = logger_start\<rparr>
        \<lparr>pa_listen := zero_listening\<lparr>li_socksV4 := v4, li_socksV6 := v6\<rparr>\<rparr>, False) \<and>
    get_port v4 = Inr 1080 \<and> get_port v6 = Inr 1080"
  using port_of_the_line [of "\<lparr>pa_conf = start_config, pa_listen = zero_listening, pa_nusers = 0,
      pa_log = logger_start\<rparr>" 1080 loopback]
  by (force simp: listening_ok_def zero_listening_def)

text \<open>C26. A line of at most ten \<open>-u name:password\<close> options, the names without a colon and both
  words of at most nine characters, makes exactly those accounts, in that order, and turns
  authentication on if there is one; the server goes on to start.\<close>

theorem users_of_the_line:
  assumes "pton_ok inet_pton" and "config_ok conf" and "cf_users_size conf = 0"
    and "length as \<le> MAX_SOCKS_USERS" and "\<forall>a\<in>set as. word_ok a" and "\<not> lg_error_flag l"
  shows "\<exists>p. parse_args inet_pton (user_opts as) [] conf li l = Inr p \<and>
    config_ok (pa_conf p) \<and> accounts (pa_conf p) = as \<and> listening_ok (pa_listen p) \<and>
    is_auth_enabled (pa_conf p) = (as \<noteq> [] \<or> is_auth_enabled conf)"
proof -
  obtain li1 where li: "parse_defaults inet_pton li = Inr li1" "listening_ok li1"
    using parse_defaults_ok [OF assms(1)] by metis
  let ?p = "\<lparr>pa_conf = conf, pa_listen = li1, pa_nusers = 0, pa_log = l\<rparr>"
  have "accounts conf = []" using assms(3) by (simp add: accounts_def)
  then obtain c where c: "parse_opts inet_pton (user_opts as) ?p =
        Inr (?p\<lparr>pa_conf := c, pa_nusers := length as\<rparr>, False)"
      "config_ok c" "accounts c = as" "cf_auth_enabled c = cf_auth_enabled conf"
    using parse_users [of ?p as inet_pton] assms(2-5) unfolding user_opts_def by auto
  have "config_ok (c\<lparr>cf_auth_enabled := True\<rparr>)" "accounts (c\<lparr>cf_auth_enabled := True\<rparr>) = as"
    using c(2,3) by (simp_all add: config_ok_def accounts_def)
  with li c assms(6) show ?thesis
    by (auto simp: parse_args_def line_end_def is_auth_enabled_def Let_def)
qed

theorem users_of_the_line_witness:
  "\<exists>p. parse_args loopback (user_opts [([97], [120]), ([98], [])]) [] start_config zero_listening
       logger_start = Inr p \<and>
    config_ok (pa_conf p) \<and> accounts (pa_conf p) = [([97], [120]), ([98], [])] \<and>
    listening_ok (pa_listen p) \<and>
    is_auth_enabled (pa_conf p) = ([([97 :: u8], [120 :: u8]), ([98], [])] \<noteq> [] \<or> is_auth_enabled start_config)"
  by (rule users_of_the_line [OF loopback_ok start_config_ok])
    (simp_all add: MAX_SOCKS_USERS_def MAX_USERNAME_SIZE_def word_ok_def COLON_def logger_start_def)

text \<open>C23. The server starts only with a line it understands in full: when \<open>parse_args\<close> returns,
  no word of the line is left over, every option is one of the six known ones with an argument that
  is valid for it (a known address, a port from 0 to 65535, a name and a password of at most nine
  characters around the first colon), and there are at most ten accounts, as many as \<open>-u\<close> options.\<close>

theorem accepted_line:
  assumes "parse_args inet_pton opts rest conf li l = Inr p" and "config_ok conf" and "no_zeros opts"
  shows "rest = [] \<and> (\<forall>x\<in>set opts. option_accepted inet_pton x) \<and>
    pa_nusers p = length (filter (\<lambda>x. fst x = CHR ''u'') opts) \<and> pa_nusers p \<le> MAX_SOCKS_USERS \<and>
    \<not> lg_error_flag (pa_log p)"
proof -
  obtain li1 q stop where run: "parse_opts inet_pton opts
      \<lparr>pa_conf = conf, pa_listen = li1, pa_nusers = 0, pa_log = l\<rparr> = Inr (q, stop)"
    "line_end rest q stop = Inr p" "\<not> lg_error_flag (pa_log p)"
    using assms(1) by (auto simp: parse_args_def elim!: bind_res_InrE split: if_splits)
  have tail: "stop \<Longrightarrow> p = q" "\<not> stop \<Longrightarrow> rest \<noteq> [] \<Longrightarrow> lg_error_flag (pa_log p)"
    "\<not> stop \<Longrightarrow> rest = [] \<Longrightarrow> pa_log p = pa_log q \<and> pa_nusers p = pa_nusers q"
    using run(2) by (auto simp: line_end_def Let_def elim!: bind_res_InrE dest!: log_error_sets
        intro: refuse_rest_sets split: if_splits)
  from parse_opts_outcome [OF run(1) config_ok_fit [OF assms(2)]] assms(3) run(3) tail show ?thesis
    by (cases stop; cases "rest = []") (auto simp: no_zeros_def)
qed

theorem accepted_line_witness:
  "\<exists>p. parse_args loopback [(CHR ''u'', Some (user_word ([97], [120]))), (CHR ''N'', None)] []
       start_config zero_listening logger_start = Inr p \<and> pa_nusers p = 1"
proof -
  let ?run = "parse_args loopback [(CHR ''u'', Some (user_word ([97], [120]))), (CHR ''N'', None)] []
       start_config zero_listening logger_start"
  have "returns ?run" by code_simp
  then obtain p where p: "?run = Inr p" by (auto simp: returns_iff)
  then show ?thesis
    using accepted_line [OF p start_config_ok(1)] by (simp add: no_zeros_def user_word_def COLON_def)
qed

text \<open>C39. A name of ten characters passes the test on its length and overruns the array of the
  account by its zero byte.\<close>

theorem line_user_overruns:
  assumes "pton_ok inet_pton" and "config_ok conf"
    and "COLON \<notin> set u" and "length u = MAX_USERNAME_SIZE" and "length q \<le> MAX_USERNAME_SIZE"
    and "0 \<notin> set u"
  shows "parse_args inet_pton ((CHR ''u'', Some (user_word (u, q))) # opts) rest conf li l =
    Inl OutOfBounds"
proof -
  obtain li1 where li: "parse_defaults inet_pton li = Inr li1"
    using parse_defaults_ok [OF assms(1)] by metis
  have us: "load_at (cf_users conf) 0 = Inr (cf_users conf ! 0)" "user_ok (cf_users conf ! 0)"
    using assms(2) by (simp_all add: config_ok_def load_at_def MAX_SOCKS_USERS_def)
  have "c_strcpy (us_name (cf_users conf ! 0)) (u @ [0]) = Inl OutOfBounds"
    using c_strcpy_overflow [of "u @ [0]" u] assms(4,6) us(2)
    by (simp add: holds_str_iff user_ok_def)
  then have "cmd_user (user_word (u, q)) (cf_users conf ! 0) l = Inl OutOfBounds"
    using assms(3-5)
    by (simp add: cmd_user_def user_word_def strchr_until takeWhile_until Let_def)
  with li us(1) show ?thesis
    by (simp add: parse_args_def parse_opt_def MAX_SOCKS_USERS_def Let_def)
qed

theorem line_user_overruns_witness:
  "parse_args loopback ((CHR ''u'', Some (user_word (replicate 10 97, [120]))) # []) []
     start_config zero_listening logger_start = Inl OutOfBounds"
  by (rule line_user_overruns [OF loopback_ok start_config_ok(1)])
    (simp_all add: COLON_def MAX_USERNAME_SIZE_def)

end
