(* ===== verification/Server.thy ===== *)
theory Server
  imports Socks5 MngHandler Args
begin

text \<open>
  The program \<^verbatim>\<open>src/server.c\<close>: the passive sockets, their registration, the loop over
  \<open>selector_select\<close>, and the way out through \<open>finally\<close>. What the system calls of the start answer
  is a record; the rounds of the loop are the list of the answers of \<open>pselect\<close>, which ends where a
  signal has set \<open>done\<close>. Lines that are logged at the level \<open>INFO\<close> are left out.
\<close>

section \<open>The handlers by name\<close>

fun handlers :: "hname \<Rightarrow> (hname, object, world) fd_handler" where
  "handlers H_socks5_passive = socks5_passive_handler"
| "handlers H_socks5 = socks5_handler"
| "handlers H_mng_passive = mng_passive_handler"
| "handlers H_mng = mng_handler"

text \<open>The table of the members \<open>handle_close\<close> that \<open>socks5_done\<close> and the like use is this one.\<close>

lemma handlers_close: "handle_close (handlers h) = close_handler h"
  by (cases h) (simp_all add: socks5_passive_handler_def socks5_handler_def mng_passive_handler_def
      mng_handler_def)

section \<open>The passive sockets\<close>

definition SOCKS_V4 :: nat where "SOCKS_V4 = 0"
definition SOCKS_V6 :: nat where "SOCKS_V6 = 1"
definition MNG_V4 :: nat where "MNG_V4 = 2"
definition MNG_V6 :: nat where "MNG_V6 = 3"
definition MAX_FD :: nat where "MAX_FD = 1024"
definition passive_fds_size :: nat where "passive_fds_size = 4"

lemmas passive_defs = SOCKS_V4_def SOCKS_V6_def MNG_V4_def MNG_V6_def passive_fds_size_def

text \<open>What \<open>socket\<close>, \<open>bind\<close> (of an address) and \<open>listen\<close> answer, and whether \<open>fcntl\<close> succeeds on the socket.\<close>

record socket_answers =
  sa_socket :: int
  sa_bind :: "u8 list \<Rightarrow> bool"
  sa_listen :: bool
  sa_nio :: bool

record start_answers =
  st_sockets :: "socket_answers list"
  st_masked :: bool      \<comment> \<open>\<open>sigprocmask\<close>\<close>
  st_installed :: bool   \<comment> \<open>\<open>sigaction\<close>\<close>
  st_memory1 :: bool
  st_memory2 :: bool
  st_junk :: "(hname, object) item"

text \<open>The message (or \<open>None\<close> for \<open>NULL\<close>), the descriptor, and what is bound to it.\<close>

definition init_server_v4 ::
  "socket_answers \<Rightarrow> u8 list \<Rightarrow> world \<Rightarrow> (string option \<times> int \<times> world) result" where
  "init_server_v4 os addr w =
     (let fd = sa_socket os in
      if fd < 0 then Inr (Some ''unable to create socket'', fd, w)
      else if \<not> sa_bind os addr then Inr (Some ''unable to bind socket_v4'', fd, w)
      else if \<not> sa_listen os then Inr (Some ''unable to listen'', fd, w)
      else
        bind_res (sin_text addr) (\<lambda>ip.
        bind_res (get_port addr) (\<lambda>port. Inr (None, fd, w))))"

definition init_server_v6 ::
  "socket_answers \<Rightarrow> u8 list \<Rightarrow> world \<Rightarrow> (string option \<times> int \<times> world) result" where
  "init_server_v6 os addr w =
     (let fd = sa_socket os in
      if fd < 0 then Inr (Some ''unable to create socket'', fd, w)
      else if \<not> sa_bind os addr then Inr (Some ''unable to bind socket_v6'', fd, w)
      else if \<not> sa_listen os then Inr (Some ''unable to listen'', fd, w)
      else
        bind_res (sin6_text addr) (\<lambda>ip.
        bind_res (get_port addr) (\<lambda>port. Inr (None, fd, w))))"

text \<open>
  The four blocks in a row: the flag of the configuration, the function with its address, and the
  place in \<open>passive_fds\<close>. The first message ends the sequence.
\<close>

fun open_passive ::
  "(bool \<times> nat \<times> (world \<Rightarrow> (string option \<times> int \<times> world) result)) list \<Rightarrow> int list \<Rightarrow> world \<Rightarrow>
   (string option \<times> int list \<times> world) result" where
  "open_passive [] fds w = Inr (None, fds, w)"
| "open_passive ((flag, i, init) # xs) fds w =
     (if \<not> flag then open_passive xs fds w
      else
        bind_res (init w) (\<lambda>(err_msg, fd, w).
        let fds = fds[i := fd] in
        if err_msg \<noteq> None then Inr (err_msg, fds, w) else open_passive xs fds w))"

definition open_all ::
  "start_answers \<Rightarrow> listening \<Rightarrow> world \<Rightarrow> (string option \<times> int list \<times> world) result" where
  "open_all os li w =
     open_passive
       [(li_socksV4_flag li, SOCKS_V4, init_server_v4 (st_sockets os ! SOCKS_V4) (li_socksV4 li)),
        (li_socksV6_flag li, SOCKS_V6, init_server_v6 (st_sockets os ! SOCKS_V6) (li_socksV6 li)),
        (li_mngV4_flag li, MNG_V4, init_server_v4 (st_sockets os ! MNG_V4) (li_mngV4 li)),
        (li_mngV6_flag li, MNG_V6, init_server_v6 (st_sockets os ! MNG_V6) (li_mngV6 li))]
       (replicate passive_fds_size (-1)) w"

text \<open>The loop that registers them; \<open>n\<close> is the number of rounds that are left.\<close>

fun register_passive ::
  "start_answers \<Rightarrow> int list \<Rightarrow> nat \<Rightarrow> nat \<Rightarrow> sel \<Rightarrow> (string option \<times> selector_status \<times> sel) result" where
  "register_passive os fds i 0 s = Inr (None, SELECTOR_SUCCESS, s)"
| "register_passive os fds i (Suc n) s =
     (if fds ! i = -1 then register_passive os fds (Suc i) n s
      else if \<not> sa_nio (st_sockets os ! i) then
        Inr (Some ''getting server socket flags'', SELECTOR_SUCCESS, s)
      else
        bind_res
          (selector_register False (st_junk os) s (fds ! i)
            (Some (if i = SOCKS_V4 \<or> i = SOCKS_V6 then H_socks5_passive else H_mng_passive)) OP_READ None)
          (\<lambda>(ss, s).
        if ss \<noteq> SELECTOR_SUCCESS then Inr (Some ''registering fd'', ss, s)
        else register_passive os fds (Suc i) n s))"

section \<open>The loop and the way out\<close>

fun serve :: "select_answer list \<Rightarrow> st \<Rightarrow> (string option \<times> selector_status \<times> st) result" where
  "serve [] sw = Inr (None, SELECTOR_SUCCESS, sw)"
| "serve (x # xs) sw =
     bind_res (selector_select handlers x sw) (\<lambda>(ss, sw).
     if ss \<noteq> SELECTOR_SUCCESS then Inr (Some ''serving'', ss, sw) else serve xs sw)"

text \<open>What \<open>SIGTERM\<close> and \<open>SIGINT\<close> do: a line, and \<open>done\<close> is set, which ends the list of the rounds.\<close>

definition sigterm_handler :: "nat \<Rightarrow> bool \<times> logger \<Rightarrow> (bool \<times> logger) result" where
  "sigterm_handler sig d =
     bind_res (log_print INFO (chars ''signal '' @ digits 10 sig @ chars '', cleaning up and exiting '') (snd d)) (\<lambda>l.
     Inr (True, l))"

fun close_passive :: "int list \<Rightarrow> world \<Rightarrow> world" where
  "close_passive [] w = w"
| "close_passive (fd # fds) w = close_passive fds (if fd \<noteq> -1 then emit (Closed_fd fd) w else w)"

definition server_finally ::
  "string option \<Rightarrow> selector_status \<Rightarrow> int list \<Rightarrow> sel option \<Rightarrow> world \<Rightarrow> (int \<times> world) result" where
  "server_finally err_msg ss fds selector w =
     (let ret = (if ss \<noteq> SELECTOR_SUCCESS then 2 else if err_msg \<noteq> None then 1 else 0);
          w = (if ret \<noteq> 0 then emit LoggedError w else w) in
      bind_res (case selector of None \<Rightarrow> Inr w | Some s \<Rightarrow> selector_destroy close_handler (s, w)) (\<lambda>w.
      Inr (ret, close_passive fds w)))"

text \<open>The signal of the resolver threads, \<open>SIGALRM\<close>, and ten seconds for each round.\<close>

definition selector_conf :: selector_init where
  "selector_conf = \<lparr>si_signal = 14, si_select_timeout = (10, 0)\<rparr>"

definition signals_start :: selector_globals where
  "signals_start = \<lparr>sg_conf = None, sg_emptyset = {}, sg_blockset = {}, sg_blocked = {}, sg_woken_by = {}\<rparr>"

lemma selector_starts: "fst (selector_init_run True True c g) = SELECTOR_SUCCESS"
  by (simp add: selector_init_run_def Let_def)

definition run_server ::
  "start_answers \<Rightarrow> select_answer list \<Rightarrow> listening \<Rightarrow> world \<Rightarrow> (int \<times> world) result" where
  "run_server os rounds li w =
     bind_res (open_all os li w) (\<lambda>(err_msg, fds, w).
     if err_msg \<noteq> None then server_finally err_msg SELECTOR_SUCCESS fds None w
     else if fst (selector_init_run (st_masked os) (st_installed os) selector_conf signals_start) \<noteq> SELECTOR_SUCCESS then
       server_finally (Some ''initializing selector'') SELECTOR_SUCCESS fds None w
     else
       bind_res (selector_new (st_memory1 os) (st_memory2 os) (st_junk os) MAX_FD) (\<lambda>selector.
       case selector of
         None \<Rightarrow> server_finally (Some ''unable to create selector'') SELECTOR_SUCCESS fds None w
       | Some s \<Rightarrow>
           bind_res (register_passive os fds 0 passive_fds_size s) (\<lambda>(err_msg, ss, s).
           if err_msg \<noteq> None then server_finally err_msg ss fds (Some s) w
           else
             bind_res (serve rounds (s, w)) (\<lambda>(err_msg, ss, s, w).
             server_finally err_msg ss fds (Some s) w))))"

definition server_main ::
  "pton \<Rightarrow> opt list \<Rightarrow> u8 list list \<Rightarrow> start_answers \<Rightarrow> select_answer list \<Rightarrow> world \<Rightarrow> (int \<times> world) result"
  where
  "server_main inet_pton opts rest os rounds w =
     (let w = w\<lparr>w_metrics := init_metrics (w_metrics w)\<rparr> in
      bind_res (parse_args inet_pton opts rest (init_config (w_config w)) zero_listening logger_start) (\<lambda>p.
      let w = emit (Closed_fd 1) (emit (Closed_fd 0) (w\<lparr>w_config := pa_conf p\<rparr>)) in
      run_server os rounds (pa_listen p) w))"

section \<open>The start\<close>

lemma selector_new_jobs:
  "selector_new m1 m2 junk n = Inr (Some s) \<Longrightarrow> s_resolution_jobs s = []"
  by (auto simp: selector_new_def ensure_capacity_def Let_def elim!: bind_res_InrE split: if_splits option.splits)

lemma ensure_capacity_jobs:
  "ensure_capacity mem junk s n = Inr (r, s1) \<Longrightarrow> s_resolution_jobs s1 = s_resolution_jobs s"
  by (auto simp: ensure_capacity_def elim!: bind_res_InrE split: if_splits option.splits)

lemma selector_register_jobs:
  assumes "selector_register mem junk s fd h i d = Inr (r, s1)"
  shows "s_resolution_jobs s1 = s_resolution_jobs s"
  using assms
  by (auto simp: selector_register_def set_item_def items_update_fdset_for_fd_def Let_def elim!: bind_res_InrE
      dest!: ensure_capacity_jobs split: if_splits option.splits)

text \<open>Four sockets that are opened, bound, made to listen and set to non-blocking.\<close>

definition sockets_open :: "start_answers \<Rightarrow> nat \<Rightarrow> nat \<Rightarrow> nat \<Rightarrow> nat \<Rightarrow> bool" where
  "sockets_open os a b c d \<longleftrightarrow> length (st_sockets os) = 4 \<and>
     map sa_socket (st_sockets os) = map int [a, b, c, d] \<and> distinct [a, b, c, d] \<and>
     (\<forall>x\<in>set (st_sockets os). sa_bind x = (\<lambda>_. True) \<and> sa_listen x \<and> sa_nio x) \<and>
     (\<forall>n\<in>set [a, b, c, d]. n < ITEMS_MAX_SIZE) \<and>
     st_masked os \<and> st_installed os \<and> st_memory1 os \<and> st_memory2 os"

definition all_flags :: "listening \<Rightarrow> bool" where
  "all_flags li \<longleftrightarrow> li_socksV4_flag li \<and> li_socksV6_flag li \<and> li_mngV4_flag li \<and> li_mngV6_flag li"

text \<open>The table of the selector when the loop starts.\<close>

definition passive_table :: "nat \<Rightarrow> nat \<Rightarrow> nat \<Rightarrow> nat \<Rightarrow> (hname, object) table" where
  "passive_table a b c d =
     [a \<mapsto> (OP_READ, Some H_socks5_passive, None), b \<mapsto> (OP_READ, Some H_socks5_passive, None),
      c \<mapsto> (OP_READ, Some H_mng_passive, None), d \<mapsto> (OP_READ, Some H_mng_passive, None)]"

lemma sockets_open_list:
  assumes "sockets_open os a b c d"
  obtains x y z u where "st_sockets os = [x, y, z, u]" "sa_socket x = int a" "sa_socket y = int b"
    "sa_socket z = int c" "sa_socket u = int d"
    "\<forall>v\<in>{x, y, z, u}. sa_bind v = (\<lambda>_. True) \<and> sa_listen v \<and> sa_nio v"
  using assms by (auto simp: sockets_open_def length_Suc_conv eval_nat_numeral)

lemma init_server_ok:
  assumes "sa_bind os = (\<lambda>_. True)" "sa_listen os" "sa_socket os = int n"
  shows "length addr = 16 \<Longrightarrow> init_server_v4 os addr w = Inr (None, int n, w)"
    "length addr = 28 \<Longrightarrow> init_server_v6 os addr w = Inr (None, int n, w)"
  using assms
  by (simp_all add: init_server_v4_def init_server_v6_def sin_text_def sin6_text_def get_port_def load_range_def)

lemma open_all_ok:
  assumes os: "sockets_open os a b c d" and li: "all_flags li" "listening_ok li"
  shows "open_all os li w = Inr (None, [int a, int b, int c, int d], w)"
proof -
  obtain x y z u where s: "st_sockets os = [x, y, z, u]" "sa_socket x = int a" "sa_socket y = int b"
      "sa_socket z = int c" "sa_socket u = int d"
      "\<forall>v\<in>{x, y, z, u}. sa_bind v = (\<lambda>_. True) \<and> sa_listen v \<and> sa_nio v"
    using sockets_open_list [OF os] by metis
  have "init_server_v4 x (li_socksV4 li) w = Inr (None, int a, w)"
    "init_server_v6 y (li_socksV6 li) w = Inr (None, int b, w)"
    "init_server_v4 z (li_mngV4 li) w = Inr (None, int c, w)"
    "init_server_v6 u (li_mngV6 li) w = Inr (None, int d, w)"
    using s li(2) init_server_ok by (simp_all add: listening_ok_def)
  with s(1) li(1) show ?thesis
    by (simp add: open_all_def all_flags_def passive_defs eval_nat_numeral)
qed

lemma register_step:
  assumes "i < 4" "fds ! i = int n" "sa_nio (st_sockets os ! i)" "n < ITEMS_MAX_SIZE" "n < fd_size s"
    and "selector_ok s" "registered s n = None"
  obtains s1 where "register_passive os fds i (Suc k) s = register_passive os fds (Suc i) k s1"
    "selector_ok s1" "fd_size s1 = fd_size s" "s_resolution_jobs s1 = s_resolution_jobs s"
    "registered s1 = (registered s)(n \<mapsto>
      (OP_READ, Some (if i = SOCKS_V4 \<or> i = SOCKS_V6 then H_socks5_passive else H_mng_passive), None))"
proof -
  let ?h = "if i = SOCKS_V4 \<or> i = SOCKS_V6 then H_socks5_passive else H_mng_passive"
  obtain s1 where s1: "selector_register False (st_junk os) s (int n) (Some ?h) OP_READ None =
        Inr (SELECTOR_SUCCESS, s1)"
      "selector_ok s1" "registered s1 = (registered s)(n \<mapsto> (OP_READ, Some ?h, None))" "fd_size s1 = fd_size s"
    using selector_register_ok [OF assms(6,5,4,7)] by metis
  have "register_passive os fds i (Suc k) s = register_passive os fds (Suc i) k s1"
    using assms(2,3) s1(1) by simp
  then show ?thesis
    using s1(2,4,3) selector_register_jobs [OF s1(1)] that by blast
qed

lemma register_all:
  assumes os: "sockets_open os a b c d" and s: "selector_ok s" "fd_size s = 1025" "registered s = (\<lambda>_. None)"
  obtains s4 where "register_passive os [int a, int b, int c, int d] 0 passive_fds_size s =
      Inr (None, SELECTOR_SUCCESS, s4)"
    "selector_ok s4" "fd_size s4 = 1025" "s_resolution_jobs s4 = s_resolution_jobs s"
    "registered s4 = passive_table a b c d"
proof -
  let ?fds = "[int a, int b, int c, int d]"
  have nio: "\<And>i. i < 4 \<Longrightarrow> sa_nio (st_sockets os ! i)" and dist: "distinct [a, b, c, d]"
    and lt: "a < ITEMS_MAX_SIZE" "b < ITEMS_MAX_SIZE" "c < ITEMS_MAX_SIZE" "d < ITEMS_MAX_SIZE"
    using os by (auto simp: sockets_open_def)
  then have sz: "a < 1025" "b < 1025" "c < 1025" "d < 1025"
    by (simp_all add: ITEMS_MAX_SIZE_def)
  obtain s1 where s1: "register_passive os ?fds 0 4 s = register_passive os ?fds 1 3 s1" "selector_ok s1"
      "fd_size s1 = 1025" "s_resolution_jobs s1 = s_resolution_jobs s"
      "registered s1 = [a \<mapsto> (OP_READ, Some H_socks5_passive, None)]"
    using register_step [of 0 ?fds a os s 3] nio [of 0] lt sz s
    by (auto simp: eval_nat_numeral SOCKS_V4_def)
  obtain s2 where s2: "register_passive os ?fds 1 3 s1 = register_passive os ?fds 2 2 s2" "selector_ok s2"
      "fd_size s2 = 1025" "s_resolution_jobs s2 = s_resolution_jobs s"
      "registered s2 = [a \<mapsto> (OP_READ, Some H_socks5_passive, None), b \<mapsto> (OP_READ, Some H_socks5_passive, None)]"
    using register_step [of 1 ?fds b os s1 2] nio [of 1] lt sz s1 dist
    by (auto simp: eval_nat_numeral SOCKS_V4_def SOCKS_V6_def)
  obtain s3 where s3: "register_passive os ?fds 2 2 s2 = register_passive os ?fds 3 1 s3" "selector_ok s3"
      "fd_size s3 = 1025" "s_resolution_jobs s3 = s_resolution_jobs s"
      "registered s3 = [a \<mapsto> (OP_READ, Some H_socks5_passive, None), b \<mapsto> (OP_READ, Some H_socks5_passive, None),
        c \<mapsto> (OP_READ, Some H_mng_passive, None)]"
    using register_step [of 2 ?fds c os s2 1] nio [of 2] lt sz s2 dist
    by (auto simp: eval_nat_numeral SOCKS_V4_def SOCKS_V6_def)
  obtain s4 where s4: "register_passive os ?fds 3 1 s3 = register_passive os ?fds 4 0 s4" "selector_ok s4"
      "fd_size s4 = 1025" "s_resolution_jobs s4 = s_resolution_jobs s" "registered s4 = passive_table a b c d"
    using register_step [of 3 ?fds d os s3 0] nio [of 3] lt sz s3 dist
    by (auto simp: eval_nat_numeral SOCKS_V4_def SOCKS_V6_def passive_table_def)
  show ?thesis
    using s1(1) s2(1) s3(1) s4 that by (simp add: passive_fds_size_def)
qed

section \<open>Rounds in which nothing happens, and the end\<close>

definition idle :: "select_answer \<Rightarrow> bool" where
  "idle x \<longleftrightarrow> x = Interrupted \<or> x = Ready {} {}"

lemma handle_iteration_idle:
  "s_slave_r s = {} \<Longrightarrow> s_slave_w s = {} \<Longrightarrow> i + n \<le> fd_size s \<Longrightarrow>
   handle_iteration_loop hs i n (s, w) = Inr (s, w)"
proof (induction n arbitrary: i)
  case (Suc n)
  then obtain it where "get_item s i = Inr it"
    using fd_sizeD [of s] by (auto simp: get_item_def load_at_def)
  with Suc show ?case by (simp add: dispatch_def Let_def)
qed simp

lemma select_idle:
  assumes "idle x" "selector_ok s" "s_resolution_jobs s = []"
  obtains s1 where "selector_select hs x (s, w) = Inr (SELECTOR_SUCCESS, s1, w)" "selector_ok s1"
    "s_resolution_jobs s1 = []" "fd_size s1 = fd_size s" "registered s1 = registered s"
proof -
  let ?s = "s\<lparr>s_slave_r := {}, s_slave_w := {}\<rparr>" and ?t = "s\<lparr>s_slave_r := s_master_r s, s_slave_w := s_master_w s\<rparr>"
  have "0 + (s_max_fd s + 1) \<le> fd_size ?s"
    using assms(2) by (simp add: selector_ok_def fd_size_def)
  then have run: "handle_iteration hs (?s, w) = Inr (?s, w)"
    using handle_iteration_idle [of ?s 0 "s_max_fd s + 1" hs w] unfolding handle_iteration_def fst_conv by simp
  have same: "selector_ok (s\<lparr>s_slave_r := A, s_slave_w := B, s_resolution_jobs := []\<rparr>)"
    "fd_size (s\<lparr>s_slave_r := A, s_slave_w := B, s_resolution_jobs := []\<rparr>) = fd_size s" for A B
    using assms(2) by (auto simp: selector_ok_def fd_size_def wants_def)
  show ?thesis
  proof (cases "x = Interrupted")
    case True
    with assms(3) same that [of "?t\<lparr>s_resolution_jobs := []\<rparr>"] show ?thesis
      by (simp add: selector_select_def handle_block_notifications_def Let_def)
  next
    case False
    then have "x = Ready {} {}" using assms(1) by (simp add: idle_def)
    with assms(3) same that [of "?s\<lparr>s_resolution_jobs := []\<rparr>"] run show ?thesis
      by (simp add: selector_select_def handle_block_notifications_def Let_def)
  qed
qed

lemma serve_idle:
  "\<forall>x\<in>set xs. idle x \<Longrightarrow> selector_ok s \<Longrightarrow> s_resolution_jobs s = [] \<Longrightarrow>
   \<exists>s1. serve xs (s, w) = Inr (None, SELECTOR_SUCCESS, s1, w) \<and> selector_ok s1 \<and> fd_size s1 = fd_size s \<and>
     registered s1 = registered s"
proof (induction xs arbitrary: s)
  case (Cons x xs)
  then obtain s1 where "selector_select handlers x (s, w) = Inr (SELECTOR_SUCCESS, s1, w)" "selector_ok s1"
      "s_resolution_jobs s1 = []" "fd_size s1 = fd_size s" "registered s1 = registered s"
    using select_idle [of x s handlers w] by auto
  with Cons.IH [of s1] Cons.prems(1) show ?case by auto
qed simp

lemma destroy_loop_passive:
  assumes "selector_ok s" and "i + n \<le> fd_size s"
    and "\<forall>j x h d. registered s j = Some (x, h, d) \<longrightarrow>
      j < ITEMS_MAX_SIZE \<and> (\<forall>h'. h = Some h' \<longrightarrow> close h' = None)"
  shows "\<exists>s1. selector_destroy_loop close i n (s, w) = Inr (s1, w)"
  using assms
proof (induction n arbitrary: i s)
  case (Suc n)
  obtain fds where fds: "s_fds s = Some fds" "fd_size s = length fds" "items_ok fds (s_max_fd s)"
    using Suc.prems(1) by (rule selector_ok_fds)
  then have it: "get_item s i = Inr (fds ! i)" "i < length fds"
    using Suc.prems(2) by (auto simp: get_item_def load_at_def)
  show ?case
  proof (cases "ITEM_USED (fds ! i)")
    case False
    with Suc.IH [of s "Suc i"] Suc.prems it show ?thesis by auto
  next
    case True
    with fds it obtain h where reg: "registered s i = Some (it_interest (fds ! i), Some h, it_data (fds ! i))"
      by (auto simp: registered_fds items_ok_def)
    then have lt: "i < ITEMS_MAX_SIZE" "close h = None" using Suc.prems(3) by blast+
    obtain s1 where s1: "selector_unregister_fd close (int i) (s, w) = Inr (SELECTOR_SUCCESS, s1, w)"
        "selector_ok s1" "registered s1 = (registered s)(i := None)" "fd_size s1 = fd_size s"
      using selector_unregister_ok [where close = close and w = w and ?s1.0 = s and ?w1.0 = w, OF reg lt(1)] lt(2) Suc.prems(1) reg by auto
    have "\<exists>s2. selector_destroy_loop close (Suc i) n (s1, w) = Inr (s2, w)"
      by (rule Suc.IH) (use s1 Suc.prems in \<open>auto split: if_splits\<close>)
    with True it(1) s1(1) show ?thesis by simp
  qed
qed simp

lemma selector_destroy_passive:
  assumes "selector_ok s" "registered s = passive_table a b c d" "\<forall>n\<in>{a, b, c, d}. n < ITEMS_MAX_SIZE"
  shows "selector_destroy close_handler (s, w) = Inr w"
proof -
  obtain fds where fds: "s_fds s = Some fds" "fd_size s = length fds"
    using assms(1) by (rule selector_ok_fds)
  have "\<exists>s1. selector_destroy_loop close_handler 0 (length fds) (s, w) = Inr (s1, w)"
    by (rule destroy_loop_passive)
      (use assms fds in \<open>auto simp: passive_table_def split: if_splits\<close>)
  with fds show ?thesis by (auto simp: selector_destroy_def)
qed

section \<open>Properties\<close>

text \<open>C24. The start: when the four sockets can be opened, the loop begins with a selector in which
  exactly their descriptors are registered, for reading only, the first two with the handler that
  accepts SOCKS connections, the others with the one that accepts management connections.\<close>

theorem server_start:
  assumes "sockets_open os a b c d" and "all_flags li" and "listening_ok li"
  shows "\<exists>s s4. open_all os li w = Inr (None, [int a, int b, int c, int d], w) \<and>
    selector_new (st_memory1 os) (st_memory2 os) (st_junk os) MAX_FD = Inr (Some s) \<and>
    register_passive os [int a, int b, int c, int d] 0 passive_fds_size s = Inr (None, SELECTOR_SUCCESS, s4) \<and>
    selector_ok s4 \<and> registered s4 = passive_table a b c d"
proof -
  have mem: "st_memory1 os" "st_memory2 os" using assms(1) by (simp_all add: sockets_open_def)
  obtain s where s: "selector_new True True (st_junk os) 1024 = Inr (Some s)" "selector_ok s"
      "registered s = (\<lambda>_. None)" "fd_size s = 1025"
    by (rule selector_new_server)
  obtain s4 where "register_passive os [int a, int b, int c, int d] 0 passive_fds_size s =
      Inr (None, SELECTOR_SUCCESS, s4)" "selector_ok s4" "registered s4 = passive_table a b c d"
    using register_all [OF assms(1) s(2,4,3)] by metis
  then show ?thesis
    using open_all_ok [OF assms] s(1) mem by (simp add: MAX_FD_def)
qed

text \<open>C25. A server without clients runs as long as it is left alone and ends cleanly: through any
  number of rounds that time out or are interrupted nothing changes, and on the signal it closes its
  four sockets and returns 0.\<close>

theorem idle_server_ends:
  assumes "sockets_open os a b c d" and "all_flags li" and "listening_ok li" and "\<forall>x\<in>set rounds. idle x"
  shows "run_server os rounds li w =
    Inr (0, w\<lparr>w_events := w_events w @ map (\<lambda>n. Closed_fd (int n)) [a, b, c, d]\<rparr>)"
proof -
  have os: "st_memory1 os" "st_memory2 os" "st_masked os" "st_installed os" "\<forall>n\<in>{a, b, c, d}. n < ITEMS_MAX_SIZE"
    using assms(1) by (simp_all add: sockets_open_def)
  obtain s where s: "selector_new True True (st_junk os) 1024 = Inr (Some s)" "selector_ok s"
      "registered s = (\<lambda>_. None)" "fd_size s = 1025"
    by (rule selector_new_server)
  obtain s4 where s4: "register_passive os [int a, int b, int c, int d] 0 passive_fds_size s =
      Inr (None, SELECTOR_SUCCESS, s4)" "selector_ok s4" "s_resolution_jobs s4 = []"
      "registered s4 = passive_table a b c d"
    using register_all [OF assms(1) s(2,4,3)] selector_new_jobs [OF s(1)] by metis
  obtain s5 where s5: "serve rounds (s4, w) = Inr (None, SELECTOR_SUCCESS, s5, w)" "selector_ok s5"
      "registered s5 = passive_table a b c d"
    using serve_idle [OF assms(4) s4(2,3), of w] s4(4) by auto
  have "server_finally None SELECTOR_SUCCESS [int a, int b, int c, int d] (Some s5) w =
      Inr (0, w\<lparr>w_events := w_events w @ map (\<lambda>n. Closed_fd (int n)) [a, b, c, d]\<rparr>)"
    using selector_destroy_passive [OF s5(2,3) os(5)] by (simp add: server_finally_def emit_def)
  with open_all_ok [OF assms(1-3), of w] os s(1) s4(1) s5(1) show ?thesis
    by (simp add: run_server_def MAX_FD_def selector_starts)
qed

definition example_start :: start_answers where
  "example_start = \<lparr>st_sockets = map (\<lambda>fd. \<lparr>sa_socket = fd, sa_bind = \<lambda>_. True, sa_listen = True, sa_nio = True\<rparr>)
       [0, 1, 3, 4],
     st_masked = True, st_installed = True, st_memory1 = True, st_memory2 = True, st_junk = zero_item\<rparr>"

definition example_listening :: listening where
  "example_listening = zero_listening\<lparr>li_socksV4_flag := True, li_socksV6_flag := True, li_mngV4_flag := True,
     li_mngV6_flag := True\<rparr>"

lemma example_start_ok:
  "sockets_open example_start 0 1 3 4" "all_flags example_listening" "listening_ok example_listening"
  by (simp_all add: sockets_open_def example_start_def ITEMS_MAX_SIZE_def all_flags_def listening_ok_def
      example_listening_def zero_listening_def)

theorem server_start_witness:
  "\<exists>s s4. open_all example_start example_listening (example_world []) = Inr (None, [int 0, int 1, int 3, int 4],
      example_world []) \<and>
    selector_new True True zero_item MAX_FD = Inr (Some s) \<and>
    register_passive example_start [int 0, int 1, int 3, int 4] 0 passive_fds_size s =
      Inr (None, SELECTOR_SUCCESS, s4) \<and>
    selector_ok s4 \<and> registered s4 = passive_table 0 1 3 4"
  using server_start [OF example_start_ok, of "example_world []"] by (simp add: example_start_def)

theorem idle_server_ends_witness:
  "run_server example_start [Interrupted, Ready {} {}] example_listening (example_world []) =
    Inr (0, (example_world [])\<lparr>w_events := w_events (example_world []) @ map (\<lambda>n. Closed_fd (int n)) [0, 1, 3, 4]\<rparr>)"
  by (rule idle_server_ends [OF example_start_ok]) (simp add: idle_def)

end
