(* ===== verification/Rounds.thy ===== *)
theory Rounds
  imports Server Connection
begin

text \<open>
  A round of \<open>selector_select\<close> (\<^verbatim>\<open>src/selector.c\<close>) with handlers that change the selector while it
  goes through its table and that may fail: what is called, in which order, with which entries. The
  handlers of the server are of this kind.
\<close>

section \<open>What a round calls\<close>

text \<open>
  The calls for a table that is a map. A descriptor is offered to the handler that its entry names
  when its turn comes, if that entry wants it; the key that the handlers of a turn get is made at the
  beginning of the turn.
\<close>

definition offer ::
  "('h \<Rightarrow> ('h, 'd, 'w) callback option) \<Rightarrow> fd_interest \<Rightarrow> nat \<Rightarrow> 'd selector_key \<Rightarrow>
   ('h, 'd) selector \<times> 'w \<Rightarrow> (('h, 'd) selector \<times> 'w) result" where
  "offer handler op i key st =
     (case registered (fst st) i of
        Some (interest, Some h, _) \<Rightarrow>
          if interest AND op \<noteq> 0 then
            (case handler h of None \<Rightarrow> Inl AssertFailed | Some f \<Rightarrow> f key st)
          else Inr st
      | _ \<Rightarrow> Inr st)"

definition turn ::
  "('h \<Rightarrow> ('h, 'd, 'w) fd_handler) \<Rightarrow> nat set \<Rightarrow> nat set \<Rightarrow> nat \<Rightarrow> ('h, 'd) selector \<times> 'w \<Rightarrow>
   (('h, 'd) selector \<times> 'w) result" where
  "turn H R W i st =
     (case registered (fst st) i of
        None \<Rightarrow> Inr st
      | Some (_, _, d) \<Rightarrow>
          let key = \<lparr>k_fd = int i, k_data = d\<rparr> in
          bind_res (if i \<in> R then offer (\<lambda>h. handle_read (H h)) OP_READ i key st else Inr st) (\<lambda>st.
          if i \<in> W then offer (\<lambda>h. handle_write (H h)) OP_WRITE i key st else Inr st))"

fun turns ::
  "('h \<Rightarrow> ('h, 'd, 'w) fd_handler) \<Rightarrow> nat set \<Rightarrow> nat set \<Rightarrow> nat list \<Rightarrow> ('h, 'd) selector \<times> 'w \<Rightarrow>
   (('h, 'd) selector \<times> 'w) result" where
  "turns H R W [] st = Inr st"
| "turns H R W (i # is) st = bind_res (turn H R W i st) (turns H R W is)"

text \<open>The pending notifications: the last one that came is the first.\<close>

fun notified ::
  "('h \<Rightarrow> ('h, 'd, 'w) fd_handler) \<Rightarrow> nat list \<Rightarrow> ('h, 'd) selector \<times> 'w \<Rightarrow>
   (('h, 'd) selector \<times> 'w) result" where
  "notified H [] st = Inr st"
| "notified H (i # is) st =
     bind_res
       (case registered (fst st) i of
          Some (_, Some h, d) \<Rightarrow>
            (case handle_block (H h) of
               None \<Rightarrow> Inl NullCall
             | Some f \<Rightarrow> f \<lparr>k_fd = int i, k_data = d\<rparr> st)
        | _ \<Rightarrow> Inr st)
       (notified H is)"

section \<open>The table during a round\<close>

text \<open>
  The table is as large as it can get, so that it never moves, and what is not in use has no interest:
  the entry that a handler gives back is not offered again through the pointer that the loop keeps.
\<close>

definition table_ok :: "('h, 'd) selector \<Rightarrow> bool" where
  "table_ok s \<longleftrightarrow> selector_ok s \<and> ITEMS_MAX_SIZE < fd_size s \<and>
     (\<forall>fds. s_fds s = Some fds \<longrightarrow> (\<forall>it \<in> set fds. \<not> ITEM_USED it \<longrightarrow> it_interest it = OP_NOOP))"

text \<open>What every handler keeps, in such a table.\<close>

definition moved :: "('h, 'd) selector \<Rightarrow> ('h, 'd) selector \<Rightarrow> bool" where
  "moved s s' \<longleftrightarrow> (table_ok s \<longrightarrow> table_ok s' \<and> fd_size s' = fd_size s \<and> s_slave_r s' = s_slave_r s \<and>
     s_slave_w s' = s_slave_w s \<and> s_resolution_jobs s' = s_resolution_jobs s)"

lemma moved_refl [simp]: "moved s s"
  by (simp add: moved_def)

lemma moved_trans: "moved s s' \<Longrightarrow> moved s' s'' \<Longrightarrow> moved s s''"
  by (simp add: moved_def)

lemma table_ok_fds:
  assumes "table_ok s"
  obtains fds where "s_fds s = Some fds" "fd_size s = length fds" "items_ok fds (s_max_fd s)"
    "s_max_fd s < length fds" "\<forall>i < length fds. \<not> ITEM_USED (fds ! i) \<longrightarrow> it_interest (fds ! i) = OP_NOOP"
proof -
  have "selector_ok s"
    using assms by (simp add: table_ok_def)
  then obtain fds where fds: "s_fds s = Some fds" "fd_size s = length fds" "items_ok fds (s_max_fd s)"
      "s_max_fd s < length fds"
    by (rule selector_ok_fds)
  show ?thesis
    by (rule that [OF fds]) (use assms fds in \<open>auto simp: table_ok_def\<close>)
qed

lemma dispatch_offer:
  assumes ok: "table_ok s" and i: "i < fd_size s"
  shows "dispatch handler op slave i i (fd_size s) key (s, w) =
    (if i \<in> slave then offer handler op i key (s, w) else Inr (s, w))"
proof -
  obtain fds where fds: "s_fds s = Some fds" "fd_size s = length fds" "items_ok fds (s_max_fd s)"
      "s_max_fd s < length fds" "\<forall>i < length fds. \<not> ITEM_USED (fds ! i) \<longrightarrow> it_interest (fds ! i) = OP_NOOP"
    using ok by (rule table_ok_fds)
  have "get_item s i = Inr (fds ! i)"
    using i fds by (simp add: get_item_def load_at_def)
  then show ?thesis
    using i fds by (auto simp: dispatch_def offer_def registered_fds [OF fds(1)] items_ok_def OP_NOOP_def
        and.commute [of op] split: option.splits)
qed

section \<open>A round, for handlers that keep the table\<close>

locale event_handlers =
  fixes H :: "'h \<Rightarrow> ('h, 'd, 'w) fd_handler"
  assumes handlers_move: "handle_read (H h) = Some f \<or> handle_write (H h) = Some f \<or> handle_block (H h) = Some f \<Longrightarrow>
    f key (s, w) = Inr (s', w') \<Longrightarrow> moved s s'"
begin

lemma offer_moved:
  assumes "offer handler op i key (s, w) = Inr (s', w')"
    and "\<And>h f. handler h = Some f \<Longrightarrow> handle_read (H h) = Some f \<or> handle_write (H h) = Some f"
  shows "moved s s'"
  using assms by (auto simp: offer_def split: option.splits if_splits) (blast intro: handlers_move)

lemma turn_moved:
  assumes "turn H R W i (s, w) = Inr (s', w')"
  shows "moved s s'"
  using assms
  by (auto simp: turn_def Let_def elim!: bind_res_InrE split: option.splits if_splits
      dest!: offer_moved intro: moved_trans)

lemma handle_iteration_loop_turns:
  assumes "table_ok s" and "i + n \<le> fd_size s"
  shows "handle_iteration_loop H i n (s, w) = turns H (s_slave_r s) (s_slave_w s) [i..<i + n] (s, w)"
  using assms
proof (induction n arbitrary: i s w)
  case (Suc n)
  obtain fds where fds: "s_fds s = Some fds" "fd_size s = length fds" "items_ok fds (s_max_fd s)"
    using Suc.prems(1) by (rule table_ok_fds)
  have i: "i < length fds" "get_item s i = Inr (fds ! i)"
    using Suc.prems(2) fds(1,2) by (auto simp: get_item_def load_at_def)
  have one: "(if ITEM_USED (fds ! i) then
          let key = \<lparr>k_fd = it_fd (fds ! i), k_data = it_data (fds ! i)\<rparr> in
          bind_res (dispatch (\<lambda>h. handle_read (H h)) OP_READ (s_slave_r (fst (s, w)))
            (nat (it_fd (fds ! i))) i (fd_size (fst (s, w))) key (s, w)) (\<lambda>st'.
          dispatch (\<lambda>h. handle_write (H h)) OP_WRITE (s_slave_w (fst st')) i i (fd_size (fst (s, w))) key st')
        else Inr (s, w)) = turn H (s_slave_r s) (s_slave_w s) i (s, w)"
  proof (cases "ITEM_USED (fds ! i)")
    case False
    then show ?thesis
      using i by (simp add: turn_def registered_fds [OF fds(1)])
  next
    case True
    then have fd: "it_fd (fds ! i) = int i"
      using fds(3) i(1) by (simp add: items_ok_def)
    let ?key = "\<lparr>k_fd = int i, k_data = it_data (fds ! i)\<rparr>"
    have late: "dispatch (\<lambda>h. handle_write (H h)) OP_WRITE (s_slave_w s1) i i (fd_size s) ?key (s1, w1) =
        (if i \<in> s_slave_w s then offer (\<lambda>h. handle_write (H h)) OP_WRITE i ?key (s1, w1) else Inr (s1, w1))"
      if "moved s s1" for s1 w1
      using that dispatch_offer [of s1 i "\<lambda>h. handle_write (H h)" OP_WRITE "s_slave_w s" ?key w1] Suc.prems i(1) fds(2)
      by (simp add: moved_def)
    have "bind_res (dispatch (\<lambda>h. handle_read (H h)) OP_READ (s_slave_r s) i i (fd_size s) ?key (s, w)) (\<lambda>st'.
          dispatch (\<lambda>h. handle_write (H h)) OP_WRITE (s_slave_w (fst st')) i i (fd_size s) ?key st') =
        bind_res (if i \<in> s_slave_r s then offer (\<lambda>h. handle_read (H h)) OP_READ i ?key (s, w) else Inr (s, w)) (\<lambda>st.
          if i \<in> s_slave_w s then offer (\<lambda>h. handle_write (H h)) OP_WRITE i ?key st else Inr st)"
    proof (rule bind_res_cong)
      fix x
      assume x: "(if i \<in> s_slave_r s then offer (\<lambda>h. handle_read (H h)) OP_READ i ?key (s, w) else Inr (s, w)) = Inr x"
      then have "moved s (fst x)"
        by (cases x) (auto split: if_splits dest!: offer_moved)
      from late [OF this, of "snd x"]
      show "dispatch (\<lambda>h. handle_write (H h)) OP_WRITE (s_slave_w (fst x)) i i (fd_size s) ?key x =
          (if i \<in> s_slave_w s then offer (\<lambda>h. handle_write (H h)) OP_WRITE i ?key x else Inr x)"
        by simp
    qed (use dispatch_offer [of s i "\<lambda>h. handle_read (H h)" OP_READ "s_slave_r s" ?key w] Suc.prems(1) i(1) fds(2) in simp)
    with True i fd show ?thesis
      by (simp add: turn_def registered_fds [OF fds(1)] Let_def)
  qed
  have "bind_res (turn H (s_slave_r s) (s_slave_w s) i (s, w)) (handle_iteration_loop H (Suc i) n) =
      bind_res (turn H (s_slave_r s) (s_slave_w s) i (s, w)) (turns H (s_slave_r s) (s_slave_w s) [Suc i..<Suc i + n])"
  proof (rule bind_res_cong [OF refl])
    fix x
    assume "turn H (s_slave_r s) (s_slave_w s) i (s, w) = Inr x"
    then have "moved s (fst x)"
      by (cases x) (simp add: turn_moved)
    then have "table_ok (fst x)" "fd_size (fst x) = fd_size s" "s_slave_r (fst x) = s_slave_r s" "s_slave_w (fst x) = s_slave_w s"
      using Suc.prems(1) by (simp_all add: moved_def)
    with Suc.IH [of "fst x" "Suc i" "snd x"] Suc.prems(2)
    show "handle_iteration_loop H (Suc i) n x = turns H (s_slave_r s) (s_slave_w s) [Suc i..<Suc i + n] x"
      by simp
  qed
  with one i(2) show ?case
    by (simp add: upt_conv_Cons del: upt_Suc)
qed simp

lemma notify_loop_notified:
  assumes "table_ok s" and "\<forall>fd \<in> set jobs. 0 \<le> fd \<and> nat fd < fd_size s"
  shows "notify_loop H jobs (s, w) = notified H (map nat jobs) (s, w)"
  using assms
proof (induction jobs arbitrary: s w)
  case (Cons fd jobs)
  obtain fds where fds: "s_fds s = Some fds" "fd_size s = length fds" "items_ok fds (s_max_fd s)"
    using Cons.prems(1) by (rule table_ok_fds)
  have i: "0 \<le> fd" "nat fd < length fds" "get_item s (nat fd) = Inr (fds ! nat fd)"
    using Cons.prems(2) fds(1,2) by (auto simp: get_item_def load_at_def)
  let ?call = "case registered s (nat fd) of
          Some (_, Some h, d) \<Rightarrow>
            (case handle_block (H h) of None \<Rightarrow> Inl NullCall | Some f \<Rightarrow> f \<lparr>k_fd = int (nat fd), k_data = d\<rparr> (s, w))
        | _ \<Rightarrow> Inr (s, w)"
  have one: "notify_loop H (fd # jobs) (s, w) = bind_res ?call (notify_loop H jobs)"
    using i fds(3) by (auto simp: registered_fds [OF fds(1)] items_ok_def split: option.splits)
  have "bind_res ?call (notify_loop H jobs) = bind_res ?call (notified H (map nat jobs))"
  proof (rule bind_res_cong [OF refl])
    fix x
    assume "?call = Inr x"
    then have "moved s (fst x)"
      by (cases x) (auto split: option.splits intro: handlers_move)
    then have "table_ok (fst x)" "fd_size (fst x) = fd_size s"
      using Cons.prems(1) by (simp_all add: moved_def)
    with Cons.IH [of "fst x" "snd x"] Cons.prems(2) show "notify_loop H jobs x = notified H (map nat jobs) x"
      by simp
  qed
  with one show ?case by simp
qed simp

lemma turns_moved: "turns H R W is (s, w) = Inr (s', w') \<Longrightarrow> moved s s'"
proof (induction "is" arbitrary: s w)
  case (Cons i "is")
  then obtain s1 w1 where "turn H R W i (s, w) = Inr (s1, w1)" "turns H R W is (s1, w1) = Inr (s', w')"
    by (auto elim!: bind_res_InrE)
  with Cons.IH show ?case
    by (blast intro: moved_trans turn_moved)
qed simp

lemma notified_moved: "notified H is (s, w) = Inr (s', w') \<Longrightarrow> moved s s'"
proof (induction "is" arbitrary: s w)
  case (Cons i "is")
  let ?call = "case registered s i of
          Some (_, Some h, d) \<Rightarrow>
            (case handle_block (H h) of None \<Rightarrow> Inl NullCall | Some f \<Rightarrow> f \<lparr>k_fd = int i, k_data = d\<rparr> (s, w))
        | _ \<Rightarrow> Inr (s, w)"
  obtain s1 w1 where 1: "?call = Inr (s1, w1)" "notified H is (s1, w1) = Inr (s', w')"
    using Cons.prems by (auto elim!: bind_res_InrE)
  from 1(1) have "moved s s1"
    by (auto split: option.splits intro: handlers_move)
  from moved_trans [OF this Cons.IH [OF 1(2)]] show ?case .
qed simp

text \<open>Descriptors that are not ready are passed over.\<close>

lemma turns_filter: "turns H R W is st = turns H R W (filter (\<lambda>i. i \<in> R \<union> W) is) st"
proof (induction "is" arbitrary: st)
  case (Cons i "is")
  have "turn H R W i st = Inr st" if "i \<notin> R \<union> W"
    using that by (simp add: turn_def split: option.splits)
  moreover have "turns H R W is = turns H R W (filter (\<lambda>i. i \<in> R \<union> W) is)"
    using Cons.IH by (rule ext)
  ultimately show ?case by simp
qed simp

lemma turns_ready:
  assumes "R \<union> W \<subseteq> {..<n}"
  shows "turns H R W [0..<n] st = turns H R W (sorted_list_of_set (R \<union> W)) st"
proof -
  have "finite (R \<union> W)"
    using assms finite_lessThan by (rule finite_subset)
  then have "sorted_list_of_set (R \<union> W) = filter (\<lambda>i. i \<in> R \<union> W) [0..<n]"
    using assms by (intro sorted_distinct_set_unique) (auto intro: sorted_wrt_filter)
  then show ?thesis
    using turns_filter [of R W "[0..<n]"] by simp
qed

lemma selector_select_turns:
  assumes ok: "table_ok s" and jobs: "\<forall>fd \<in> set (s_resolution_jobs s). 0 \<le> fd \<and> nat fd < fd_size s"
    and R: "R = r \<inter> {i. wants OP_READ s i}" and W: "W = wr \<inter> {i. wants OP_WRITE s i}"
  shows "selector_select H (Ready r wr) (s, w) =
    bind_res (turns H R W (sorted_list_of_set (R \<union> W)) (s\<lparr>s_slave_r := R, s_slave_w := W\<rparr>, w)) (\<lambda>st.
    bind_res (notified H (map nat (s_resolution_jobs s)) st) (\<lambda>(s, w).
    Inr (SELECTOR_SUCCESS, s\<lparr>s_resolution_jobs := []\<rparr>, w)))"
proof -
  let ?s = "s\<lparr>s_slave_r := R, s_slave_w := W\<rparr>"
  obtain fds where fds: "s_fds s = Some fds" "fd_size s = length fds" "items_ok fds (s_max_fd s)"
      "s_max_fd s < length fds"
    using ok by (rule table_ok_fds)
  have master: "s_master_r s = {i. wants OP_READ s i}" "s_master_w s = {i. wants OP_WRITE s i}"
    using ok by (simp_all add: table_ok_def selector_ok_def)
  have below: "R \<union> W \<subseteq> {..<Suc (s_max_fd s)}"
    using fds(3) by (auto simp: R W wants_def registered_fds [OF fds(1)] items_ok_def split: if_splits)
  have ok1: "table_ok ?s"
    using ok by (simp add: table_ok_def selector_ok_def wants_def fd_size_def)
  have "handle_iteration H (?s, w) = turns H R W [0..<Suc (s_max_fd s)] (?s, w)"
    using handle_iteration_loop_turns [OF ok1, of 0 "Suc (s_max_fd s)" w] fds(2,4)
    by (simp add: handle_iteration_def fd_size_def del: handle_iteration_loop.simps upt_Suc)
  then have run: "handle_iteration H (?s, w) = turns H R W (sorted_list_of_set (R \<union> W)) (?s, w)"
    using turns_ready [OF below] by simp
  have "handle_block_notifications H x = bind_res (notified H (map nat (s_resolution_jobs s)) x) (\<lambda>(s, w).
      Inr (s\<lparr>s_resolution_jobs := []\<rparr>, w))" if x: "handle_iteration H (?s, w) = Inr x" for x
  proof -
    have "moved ?s (fst x)"
      using x run by (cases x) (simp add: turns_moved)
    then have "table_ok (fst x)" "fd_size (fst x) = fd_size s" "s_resolution_jobs (fst x) = s_resolution_jobs s"
      using ok1 by (simp_all add: moved_def fd_size_def)
    with notify_loop_notified [of "fst x" "s_resolution_jobs s" "snd x"] jobs show ?thesis
      by (simp add: handle_block_notifications_def)
  qed
  then have "bind_res (handle_block_notifications H x) (\<lambda>st. Inr (SELECTOR_SUCCESS, st)) =
      bind_res (notified H (map nat (s_resolution_jobs s)) x) (\<lambda>(s, w).
      Inr (SELECTOR_SUCCESS, s\<lparr>s_resolution_jobs := []\<rparr>, w))" if "handle_iteration H (?s, w) = Inr x" for x
    using that by (cases "notified H (map nat (s_resolution_jobs s)) x") (simp_all add: case_prod_beta)
  then have "bind_res (handle_iteration H (?s, w)) (\<lambda>st. bind_res (handle_block_notifications H st) (\<lambda>st. Inr (SELECTOR_SUCCESS, st))) =
      bind_res (handle_iteration H (?s, w)) (\<lambda>st.
      bind_res (notified H (map nat (s_resolution_jobs s)) st) (\<lambda>(s, w).
      Inr (SELECTOR_SUCCESS, s\<lparr>s_resolution_jobs := []\<rparr>, w)))"
    by (rule bind_res_cong [OF refl])
  with run show ?thesis
    by (simp add: selector_select_def Let_def R W master Int_commute)
qed

lemma selector_select_keeps:
  assumes "selector_select H (Ready r wr) (s, w) = Inr (ss, s', w')"
    and ok: "table_ok s" and jobs: "\<forall>fd \<in> set (s_resolution_jobs s). 0 \<le> fd \<and> nat fd < fd_size s"
  shows "ss = SELECTOR_SUCCESS \<and> table_ok s' \<and> fd_size s' = fd_size s \<and> s_resolution_jobs s' = []"
proof -
  obtain R W where RW: "R = r \<inter> {i. wants OP_READ s i}" "W = wr \<inter> {i. wants OP_WRITE s i}"
    by blast
  let ?s = "s\<lparr>s_slave_r := R, s_slave_w := W\<rparr>"
  obtain s1 w1 s2 w2 where run: "turns H R W (sorted_list_of_set (R \<union> W)) (?s, w) = Inr (s1, w1)"
      "notified H (map nat (s_resolution_jobs s)) (s1, w1) = Inr (s2, w2)" "ss = SELECTOR_SUCCESS"
      "s' = s2\<lparr>s_resolution_jobs := []\<rparr>"
    using assms(1) unfolding selector_select_turns [OF ok jobs RW] by (auto elim!: bind_res_InrE)
  have "table_ok ?s" "fd_size ?s = fd_size s"
    using ok by (simp_all add: table_ok_def selector_ok_def wants_def fd_size_def)
  moreover have "moved ?s s2"
    using turns_moved [OF run(1)] notified_moved [OF run(2)] by (rule moved_trans)
  ultimately have "table_ok s2" "fd_size s2 = fd_size s"
    by (simp_all add: moved_def)
  then show ?thesis
    using run(3,4) by (simp add: table_ok_def selector_ok_def wants_def fd_size_def registered_def get_item_def)
qed

end

section \<open>The operations of the selector keep the table\<close>

text \<open>One entry is written, if any.\<close>

definition wrote :: "('h, 'd) selector \<Rightarrow> ('h, 'd) selector \<Rightarrow> bool" where
  "wrote s s' \<longleftrightarrow> s' = s \<or>
     (\<exists>fds n it. s_fds s = Some fds \<and> s_fds s' = Some (fds[n := it]) \<and> (ITEM_USED it \<or> it_interest it = OP_NOOP) \<and>
       s_slave_r s' = s_slave_r s \<and> s_slave_w s' = s_slave_w s \<and> s_resolution_jobs s' = s_resolution_jobs s)"

lemma wrote_refl [simp]: "wrote s s"
  by (simp add: wrote_def)

lemma wroteI:
  "s_fds s = Some fds \<Longrightarrow> s_fds s' = Some fds' \<Longrightarrow> fds' = fds[n := it] \<Longrightarrow> ITEM_USED it \<or> it_interest it = OP_NOOP \<Longrightarrow>
   s_slave_r s' = s_slave_r s \<Longrightarrow> s_slave_w s' = s_slave_w s \<Longrightarrow> s_resolution_jobs s' = s_resolution_jobs s \<Longrightarrow>
   wrote s s'"
  unfolding wrote_def by metis

lemma wrote_moved:
  assumes w: "table_ok s \<Longrightarrow> wrote s s'" and ok: "table_ok s \<Longrightarrow> selector_ok s'"
  shows "moved s s'"
  unfolding moved_def
proof
  assume t: "table_ok s"
  show "table_ok s' \<and> fd_size s' = fd_size s \<and> s_slave_r s' = s_slave_r s \<and> s_slave_w s' = s_slave_w s \<and>
      s_resolution_jobs s' = s_resolution_jobs s"
    using w [OF t] ok [OF t] t set_update_subset_insert
    by (fastforce simp: wrote_def table_ok_def fd_size_def)
qed

lemma items_update_simps [simp]:
  "s_fds (items_update_fdset_for_fd s it) = s_fds s" "s_slave_r (items_update_fdset_for_fd s it) = s_slave_r s"
  "s_slave_w (items_update_fdset_for_fd s it) = s_slave_w s"
  "s_resolution_jobs (items_update_fdset_for_fd s it) = s_resolution_jobs s"
  by (simp_all add: items_update_fdset_for_fd_def Let_def)

lemma valid_fd:
  assumes "\<not> INVALID_FD fd"
  obtains n where "fd = int n" "n < ITEMS_MAX_SIZE"
  using assms that [of "nat fd"] by (auto simp: INVALID_FD_def)

lemma register_moved:
  assumes run: "selector_register mem junk s fd h i d = Inr (ss, s')"
  shows "moved s s'"
proof (cases "INVALID_FD fd \<or> h = None")
  case True
  with run show ?thesis
    by (auto simp: selector_register_def)
next
  case False
  then obtain n h' where n: "fd = int n" "n < ITEMS_MAX_SIZE" "h = Some h'"
    by (auto elim: valid_fd)
  show ?thesis
  proof (rule wrote_moved)
    assume t: "table_ok s"
    then have size: "ITEMS_MAX_SIZE < fd_size s" and sel: "selector_ok s"
      by (simp_all add: table_ok_def)
    show "wrote s s'"
      using run size n
      by (auto simp: selector_register_def set_item_def store_at_def Let_def ITEM_USED_def FD_UNUSED_def
          elim!: bind_res_InrE split: if_splits option.splits)
        (erule wroteI, simp, rule refl, simp_all add: ITEM_USED_def FD_UNUSED_def)+
    show "selector_ok s'"
    proof (cases "registered s n = None")
      case True
      with run selector_register_ok [OF sel, of n mem junk h' i d] size n show ?thesis by auto
    next
      case False
      with run selector_register_in_use [of s n mem junk h' i d] sel n show ?thesis by auto
    qed
  qed
qed

lemma set_interest_moved:
  assumes run: "selector_set_interest s fd i = Inr (ss, s')"
  shows "moved s s'"
proof (cases "INVALID_FD fd")
  case True
  with run show ?thesis
    by (simp add: selector_set_interest_def)
next
  case False
  then obtain n where n: "fd = int n" "n < ITEMS_MAX_SIZE"
    by (rule valid_fd)
  show ?thesis
  proof (rule wrote_moved)
    assume t: "table_ok s"
    then have size: "ITEMS_MAX_SIZE < fd_size s" and sel: "selector_ok s"
      by (simp_all add: table_ok_def)
    show "wrote s s'"
      using run
      by (auto simp: selector_set_interest_def set_item_def store_at_def Let_def ITEM_USED_def
          elim!: bind_res_InrE split: if_splits option.splits)
        (erule wroteI, simp, rule refl, simp_all add: ITEM_USED_def FD_UNUSED_def)+
    show "selector_ok s'"
    proof (cases "registered s n")
      case None
      with run selector_set_interest_unknown [of s n i] size sel n show ?thesis by simp
    next
      case (Some e)
      with run selector_set_interest_ok [OF sel, of n _ _ _ i] n show ?thesis
        by (cases e) fastforce
    qed
  qed
qed

lemma set_interest_key_moved: "selector_set_interest_key s key i = Inr (ss, s') \<Longrightarrow> moved s s'"
  by (auto simp: selector_set_interest_key_def set_interest_moved split: if_splits)

text \<open>The two functions that are called when an entry is given back do not touch the selector.\<close>

lemma close_handler_same: "close_handler h = Some f \<Longrightarrow> f key (s, w) = Inr (s', w') \<Longrightarrow> s' = s"
  by (cases h) (auto simp: socks5_close_def mng_close_def elim!: bind_res_InrE split: if_splits)

lemma unregister_moved:
  assumes run: "selector_unregister_fd close_handler fd (s, w) = Inr (ss, s', w')"
  shows "moved s s'"
proof (cases "INVALID_FD fd")
  case True
  with run show ?thesis
    by (simp add: selector_unregister_fd_def)
next
  case False
  then obtain n where n: "fd = int n" "n < ITEMS_MAX_SIZE"
    by (rule valid_fd)
  have written: "\<exists>s'. selector_unregister_fd close_handler fd (s, w) = Inr (ss, s', w') \<and> selector_ok s' \<and> wrote s s'"
    if t: "table_ok s"
  proof (cases "registered s n")
    case None
    with t run selector_unregister_unknown [of s n close_handler w] n show ?thesis
      by (auto simp: table_ok_def)
  next
    case (Some e)
    have sel: "selector_ok s"
      using t by (simp add: table_ok_def)
    with Some obtain j h d where reg: "registered s n = Some (j, Some h, d)"
      using registered_handler [OF sel] by (cases e) blast
    obtain fds where fds: "s_fds s = Some fds" "fd_size s = length fds" "items_ok fds (s_max_fd s)"
      using sel by (rule selector_ok_fds)
    have at: "get_item s n = Inr (fds ! n)" "n < length fds" "ITEM_USED (fds ! n)" "it_handler (fds ! n) = Some h"
        "it_data (fds ! n) = d" "it_fd (fds ! n) = int n"
      using reg fds(3) by (auto simp: registered_fds [OF fds(1)] get_item_def fds(1) load_at_def items_ok_def split: if_splits)
    obtain s1 w1 where "(case close_handler h of None \<Rightarrow> Inr (s, w) | Some f \<Rightarrow> f \<lparr>k_fd = int n, k_data = d\<rparr> (s, w)) = Inr (s1, w1)"
      using run False at n by (auto simp: selector_unregister_fd_def Let_def elim!: bind_res_InrE cong: option.case_cong)
    moreover from this have "s1 = s"
      by (auto dest: close_handler_same split: option.splits)
    ultimately have close: "(case close_handler h of None \<Rightarrow> Inr (s, w) | Some f \<Rightarrow> f \<lparr>k_fd = int n, k_data = d\<rparr> (s, w)) = Inr (s, w1)"
      by simp
    have "selector_ok s'"
      using selector_unregister_ok [where close = close_handler, OF reg n(2) close sel sel refl] reg run n(1) by auto
    moreover have "wrote s s'"
      using run False at n(1) close fds(1,2)
      by (auto simp: selector_unregister_fd_def set_item_def store_at_def Let_def item_init_def zero_item_def OP_NOOP_def
          elim!: bind_res_InrE split: if_splits cong: option.case_cong)
        (erule wroteI, simp, rule refl, simp_all add: OP_NOOP_def)
    ultimately show ?thesis
      using run by blast
  qed
  show ?thesis
    by (rule wrote_moved) (use written run in auto)
qed

section \<open>The handlers of the clients\<close>

lemmas operations_move = set_interest_moved set_interest_key_moved register_moved unregister_moved

lemma handshake_moved:
  "hello_read key (s, w) = Inr (t, s', w') \<Longrightarrow> moved s s'"
  "hello_write key (s, w) = Inr (t, s', w') \<Longrightarrow> moved s s'"
  "auth_read key (s, w) = Inr (t, s', w') \<Longrightarrow> moved s s'"
  "auth_write key (s, w) = Inr (t, s', w') \<Longrightarrow> moved s s'"
     apply (auto simp: hello_read_def Let_def elim!: bind_res_InrE dest!: operations_move split: if_splits prod.splits) [1]
    apply (auto simp: hello_write_def Let_def elim!: bind_res_InrE dest!: operations_move split: if_splits) [1]
   apply (auto simp: auth_read_def Let_def elim!: bind_res_InrE dest!: operations_move split: if_splits prod.splits) [1]
  apply (auto simp: auth_write_def Let_def elim!: bind_res_InrE dest!: operations_move split: if_splits option.splits)
  done

lemma request_write_moved: "request_write key (s, w) = Inr (t, s', w') \<Longrightarrow> moved s s'"
  by (auto simp: request_write_def Let_def elim!: bind_res_InrE dest!: operations_move split: if_splits)
    (erule (1) moved_trans)+

lemma copy_determine_interests_moved: "copy_determine_interests s o5 data = Inr (r, s') \<Longrightarrow> moved s s'"
  by (auto simp: copy_determine_interests_def Let_def elim!: bind_res_InrE dest!: operations_move)

lemma copy_finish_moved: "copy_finish a sd ret (s, w) = Inr (t, s', w') \<Longrightarrow> moved s s'"
  by (auto simp: copy_finish_def elim!: bind_res_InrE dest!: copy_determine_interests_moved intro: moved_trans)

lemma copy_moved:
  "copy_read key (s, w) = Inr (t, s', w') \<Longrightarrow> moved s s'"
  "copy_write key (s, w) = Inr (t, s', w') \<Longrightarrow> moved s s'"
  by (auto simp: copy_read_def copy_write_def Let_def elim!: bind_res_InrE dest!: copy_finish_moved split: if_splits)

lemma drop_old_fd_moved: "drop_old_fd a (s, w) = Inr (s', w') \<Longrightarrow> moved s s'"
  by (auto simp: drop_old_fd_def Let_def elim!: bind_res_InrE dest!: operations_move split: if_splits)

lemma connect_in_progress_moved: "connect_in_progress key a (s, w) = Inr (t, s', w') \<Longrightarrow> moved s s'"
  by (auto simp: connect_in_progress_def elim!: bind_res_InrE dest!: operations_move split: if_splits intro: moved_trans)

lemma connect_reply_moved: "connect_reply a (s, w) = Inr (t, s', w') \<Longrightarrow> moved s s'"
  by (auto simp: connect_reply_def Let_def elim!: bind_res_InrE dest!: operations_move)

lemma request_connect_moved:
  assumes "request_connect fuel key a (s, w) = Inr (t, s', w')"
  shows "moved s s'"
  using assms
proof (induction fuel arbitrary: s w)
  case (0 s w)
  then show ?case
    by (auto simp: request_connect.simps [of 0] Let_def elim!: bind_res_InrE split: if_splits option.splits
        dest!: drop_old_fd_moved connect_in_progress_moved connect_reply_moved)
      (erule (1) moved_trans)+
next
  case (Suc fuel s w)
  from Suc.prems show ?case
    by (auto simp: request_connect.simps [of "Suc fuel"] Let_def elim!: bind_res_InrE split: if_splits option.splits
        dest!: drop_old_fd_moved connect_in_progress_moved connect_reply_moved Suc.IH)
      (erule (1) moved_trans)+
qed

lemma start_connect_moved: "start_connect key a (s, w) = Inr (t, s', w') \<Longrightarrow> moved s s'"
  by (auto simp: start_connect_def elim!: bind_res_InrE dest!: request_connect_moved)

lemma request_process_moved: "request_process key a r (s, w) = Inr (t, s', w') \<Longrightarrow> moved s s'"
  by (auto simp: request_process_def connect_to_def request_resolve_def request_refuse_def Let_def elim!: bind_res_InrE
      dest!: start_connect_moved operations_move split: if_splits answer.splits)

lemma request_read_moved: "request_read key (s, w) = Inr (t, s', w') \<Longrightarrow> moved s s'"
  by (auto simp: request_read_def Let_def elim!: bind_res_InrE dest!: request_process_moved split: if_splits prod.splits)

lemma request_resolv_done_moved: "request_resolv_done key (s, w) = Inr (t, s', w') \<Longrightarrow> moved s s'"
  by (auto simp: request_resolv_done_def elim!: bind_res_InrE dest!: start_connect_moved)

lemma request_connecting_moved: "request_connecting key (s, w) = Inr (t, s', w') \<Longrightarrow> moved s s'"
  by (auto simp: request_connecting_def request_connecting_reply_def Let_def elim!: bind_res_InrE
      dest!: start_connect_moved operations_move split: if_splits answer.splits)
    (erule (1) moved_trans)+

lemma socks_ready_moved:
  assumes n: "n \<le> ERROR"
    and ready: "sd_on_read_ready (socks_state_definition key ! n) = Some f \<or>
      sd_on_write_ready (socks_state_definition key ! n) = Some f \<or>
      sd_on_block_ready (socks_state_definition key ! n) = Some f"
    and run: "f (s, w) = Inr (t, s', w')"
  shows "moved s s'"
  using socks_ready_cases [OF n ready] run
  by (elim disjE conjE; simp only:) (erule handshake_moved request_read_moved request_resolv_done_moved
      request_connecting_moved request_write_moved copy_moved)+

lemma moved_relation: "reflp (\<lambda>x y. moved (fst x) (fst y))" "transp (\<lambda>x y. moved (fst x) (fst y))"
  by (auto intro: reflpI transpI moved_trans)

lemma deliver_moved:
  assumes run: "deliver r key sw = Inr (t, sw')"
  shows "moved (fst sw) (fst sw')"
proof -
  let ?R = "\<lambda>x y. moved (fst x) (fst y)"
  obtain on_ready where h: "stm_handler on_ready (socks_stm key) sw = Inr (t, sw')"
      "on_ready = sd_on_read_ready \<or> on_ready = sd_on_write_ready \<or> on_ready = sd_on_block_ready"
    using run by (cases r) (auto simp: stm_handler_read_def stm_handler_write_def stm_handler_block_def)
  have load: "n \<le> ERROR \<and> d = socks_state_definition key ! n" if "load_at (stm_states (socks_stm key)) n = Inr d" for n d
    using that by (auto simp: load_at_def socks_state_definition_def socks_state_defs split: if_splits)
  have set: "?R x y" if "set_current (stm_current (socks_stm key)) c x = Inr y" for c x y
    using that by (cases x) (auto simp: socks_current_def elim!: bind_res_InrE)
  have dep: "?R x y" if "call_departure (socks_stm key) n x = Inr y" for n x y
    using that load [of n] by (auto simp: call_departure_def socks_departure elim!: bind_res_InrE split: option.splits)
  have arr: "?R x y" if call: "call_arrival (socks_stm key) n x = Inr y" for n x y
  proof -
    obtain d where d: "load_at (stm_states (socks_stm key)) n = Inr d"
        "(case sd_on_arrival d of None \<Rightarrow> Inr x | Some f \<Rightarrow> f (sd_state d) x) = Inr y"
      using call by (auto simp: call_arrival_def elim!: bind_res_InrE)
    show ?thesis
    proof (cases "sd_on_arrival d")
      case None
      with d(2) show ?thesis by simp
    next
      case (Some f)
      with d(2) have "f (sd_state d) x = Inr y"
        by simp
      then show ?thesis
        using socks_arrival_cases [of n key f] load [OF d(1)] Some by (cases x) (auto simp: hello_read_init_def
            auth_read_init_def request_init_def request_connecting_init_def copy_init_def Let_def elim!: bind_res_InrE)
    qed
  qed
  obtain n d f sw1 sw2 where 1: "?R sw sw1" "load_at (stm_states (socks_stm key)) n = Inr d" "on_ready d = Some f"
      "f sw1 = Inr (t, sw2)" "?R sw2 sw'"
    by (rule stm_handlerE [OF h(1) moved_relation]) (erule set arr dep | rule that; assumption)+
  have "?R sw1 sw2"
    using socks_ready_moved [of n key f "fst sw1" "snd sw1" t "fst sw2" "snd sw2"] load [OF 1(2)] h(2) 1(3,4) by auto
  with 1(1,5) show ?thesis
    by (blast intro: moved_trans)
qed

lemma unregister_all_moved: "unregister_all fds (s, w) = Inr (s', w') \<Longrightarrow> moved s s'"
proof (induction fds arbitrary: s w)
  case (Cons fd fds)
  then show ?case
    by (auto elim!: bind_res_InrE dest!: unregister_moved Cons.IH split: if_splits) (erule (1) moved_trans)
qed simp

lemma socks5_done_moved: "socks5_done key (s, w) = Inr (s', w') \<Longrightarrow> moved s s'"
  by (auto simp del: unregister_all.simps simp: socks5_done_def Let_def elim!: bind_res_InrE dest!: unregister_all_moved)

lemma stm_init_same: "stm_init (socks_stm key) (s, w) = Inr (s', w') \<Longrightarrow> s' = s"
  by (auto simp: stm_init_iff socks_current_def elim!: bind_res_InrE)

lemma socks5_passive_accept_moved: "socks5_passive_accept key (s, w) = Inr (s', w') \<Longrightarrow> moved s s'"
  by (auto simp: socks5_passive_accept_def socks5_new_def accept_failed_def Let_def elim!: bind_res_InrE
      dest!: register_moved stm_init_same split: answer.splits option.splits if_splits)

lemma socks5_handler_moved:
  assumes "handle_read socks5_handler = Some f \<or> handle_write socks5_handler = Some f \<or> handle_block socks5_handler = Some f"
    and run: "f key (s, w) = Inr (s', w')"
  shows "moved s s'"
proof -
  obtain r where "socks5_ready (deliver r key (s, w)) key = Inr (s', w')"
    using assms by (auto simp: socks5_handler_def socks5_read_def socks5_write_def socks5_block_def)
      (metis deliver.simps)+
  then obtain t s1 w1 where "deliver r key (s, w) = Inr (t, s1, w1)" "(s', w') = (s1, w1) \<or> socks5_done key (s1, w1) = Inr (s', w')"
    by (auto simp: socks5_ready_def elim!: bind_res_InrE split: if_splits)
  then show ?thesis
    using deliver_moved [of r key "(s, w)"] socks5_done_moved [of key s1 w1] by (auto intro: moved_trans)
qed

section \<open>The handlers of the administrators\<close>

lemma mng_handshake_moved:
  "mng_receive here after get_member member consume is_done act key (s, w) = Inr (t, s', w') \<Longrightarrow> moved s s'"
  "mng_connect_write key (s, w) = Inr (t, s', w') \<Longrightarrow> moved s s'"
  "mng_request key (s, w) = Inr (t, s', w') \<Longrightarrow> moved s s'"
  "mng_replies key (s, w) = Inr (t, s', w') \<Longrightarrow> moved s s'"
     apply (auto simp: mng_receive_def Let_def elim!: bind_res_InrE dest!: operations_move split: if_splits prod.splits) [1]
    apply (auto simp: mng_connect_write_def Let_def elim!: bind_res_InrE dest!: operations_move split: if_splits) [1]
   apply (auto simp: mng_request_def Let_def elim!: bind_res_InrE split: if_splits option.splits list.splits) [1]
  apply (auto simp: mng_replies_def Let_def elim!: bind_res_InrE dest!: operations_move split: if_splits)
  done

lemma mng_ready_moved:
  assumes n: "n \<le> MNG_ERROR"
    and ready: "sd_on_read_ready (mng_state_definition key ! n) = Some f \<or>
      sd_on_write_ready (mng_state_definition key ! n) = Some f \<or>
      sd_on_block_ready (mng_state_definition key ! n) = Some f"
    and run: "f (s, w) = Inr (t, s', w')"
  shows "moved s s'"
  using mng_ready_cases [OF n ready] run
  by (elim disjE conjE; simp only: mng_connect_read_def request_handler_defs) (erule mng_handshake_moved)+

lemma mng_deliver_moved:
  assumes run: "mng_deliver r key sw = Inr (t, sw')"
  shows "moved (fst sw) (fst sw')"
proof -
  let ?R = "\<lambda>x y. moved (fst x) (fst y)"
  obtain on_ready where h: "stm_handler on_ready (mng_stm key) sw = Inr (t, sw')"
      "on_ready = sd_on_read_ready \<or> on_ready = sd_on_write_ready \<or> on_ready = sd_on_block_ready"
    using run by (rule mng_deliverE)
  have set: "?R x y" if "set_current (stm_current (mng_stm key)) c x = Inr y" for c x y
    using that by (cases x; cases y) (auto dest!: mng_set_current)
  have arr: "?R x y" if "call_arrival (mng_stm key) n x = Inr y" for n x y
    using that by (cases x; cases y) (auto dest!: mng_call_arrival)
  have dep: "?R x y" if "call_departure (mng_stm key) n x = Inr y" for n x y
    using mng_call_departure [OF that] by simp
  obtain n d f sw1 sw2 where 1: "?R sw sw1" "load_at (stm_states (mng_stm key)) n = Inr d" "on_ready d = Some f"
      "f sw1 = Inr (t, sw2)" "?R sw2 sw'"
    by (rule stm_handlerE [OF h(1) moved_relation]) (erule set arr dep | rule that; assumption)+
  have "?R sw1 sw2"
    using mng_ready_moved [of n key f "fst sw1" "snd sw1" t "fst sw2" "snd sw2"] 1(2-4) h(2)
    by (auto simp: mng_load_Inr)
  with 1(1,5) show ?thesis
    by (blast intro: moved_trans)
qed

lemma mng_done_moved: "mng_done key (s, w) = Inr (s', w') \<Longrightarrow> moved s s'"
  by (auto simp: mng_done_def Let_def elim!: bind_res_InrE dest!: unregister_moved)

lemma mng_init_same: "stm_init (mng_stm key) (s, w) = Inr (s', w') \<Longrightarrow> s' = s"
  by (auto simp: stm_init_iff mng_current_def elim!: bind_res_InrE)

lemma mng_passive_accept_moved: "mng_passive_accept key (s, w) = Inr (s', w') \<Longrightarrow> moved s s'"
  by (auto simp: mng_passive_accept_def mng_new_def mng_accept_failed_def Let_def elim!: bind_res_InrE
      dest!: register_moved mng_init_same split: answer.splits option.splits if_splits)

lemma mng_handler_moved:
  assumes "handle_read mng_handler = Some f \<or> handle_write mng_handler = Some f \<or> handle_block mng_handler = Some f"
    and run: "f key (s, w) = Inr (s', w')"
  shows "moved s s'"
proof -
  obtain r where "mng_ready (mng_deliver r key (s, w)) key = Inr (s', w')"
    using assms by (auto simp: mng_handler_def mng_read_def mng_write_def mng_block_def) (metis mng_deliver.simps)+
  then obtain t s1 w1 where "mng_deliver r key (s, w) = Inr (t, s1, w1)" "(s', w') = (s1, w1) \<or> mng_done key (s1, w1) = Inr (s', w')"
    by (auto simp: mng_ready_def elim!: bind_res_InrE split: if_splits)
  then show ?thesis
    using mng_deliver_moved [of r key "(s, w)"] mng_done_moved [of key s1 w1] by (auto intro: moved_trans)
qed

section \<open>The handlers of the server\<close>

interpretation served: event_handlers handlers
proof
  fix h f key s w s' w'
  assume "handle_read (handlers h) = Some f \<or> handle_write (handlers h) = Some f \<or> handle_block (handlers h) = Some f"
    and "f key (s, w) = Inr (s', w')"
  then show "moved s s'"
    by (cases h) (auto simp: socks5_passive_handler_def mng_passive_handler_def
        intro: socks5_passive_accept_moved mng_passive_accept_moved socks5_handler_moved mng_handler_moved)
qed

section \<open>The tables of the server\<close>

lemma selector_new_table:
  "selector_new m1 m2 junk MAX_FD = Inr (Some s) \<Longrightarrow> s_fds s = Some (map item_init (replicate 1025 zero_item))"
  by (auto simp: selector_new_def ensure_capacity_def fd_size_def ITEMS_MAX_SIZE_def next_capacity_def MAX_FD_def
      bit_count_1024 items_init_def Let_def split: if_splits)

lemma selector_new_table_ok:
  assumes new: "selector_new m1 m2 junk MAX_FD = Inr (Some s)"
  shows "table_ok s"
proof -
  obtain s1 where s1: "selector_new True True junk 1024 = Inr (Some s1)" "selector_ok s1" "fd_size s1 = 1025"
    by (rule selector_new_server)
  have "m1 \<and> m2"
    using new by (auto simp: selector_new_def ensure_capacity_def fd_size_def ITEMS_MAX_SIZE_def next_capacity_def MAX_FD_def
        bit_count_1024 Let_def split: if_splits)
  with new s1(1) have "s = s1"
    by (simp add: MAX_FD_def)
  with s1 selector_new_table [OF new] show ?thesis
    by (simp add: table_ok_def ITEMS_MAX_SIZE_def item_init_def zero_item_def OP_NOOP_def)
qed

lemma register_passive_moved: "register_passive os fds i n s = Inr (msg, ss, s') \<Longrightarrow> moved s s'"
proof (induction n arbitrary: i s)
  case (Suc n)
  then show ?case
    by (auto elim!: bind_res_InrE dest!: register_moved Suc.IH split: if_splits) (erule (1) moved_trans)+
qed simp

text \<open>All the rounds of the loop, for whatever \<open>pselect\<close> answers, are rounds with such a table.\<close>

lemma table_ok_slaves:
  "table_ok (s\<lparr>s_slave_r := A, s_slave_w := B\<rparr>) = table_ok s" "table_ok (s\<lparr>s_resolution_jobs := j\<rparr>) = table_ok s"
  "table_ok (s\<lparr>s_slave_r := A, s_slave_w := B, s_resolution_jobs := j\<rparr>) = table_ok s"
  by (simp_all add: table_ok_def selector_ok_def wants_def fd_size_def registered_def get_item_def)

lemma serve_tables:
  "serve rounds (s, w) = Inr (msg, ss, s', w') \<Longrightarrow> table_ok s \<Longrightarrow> s_resolution_jobs s = [] \<Longrightarrow> table_ok s'"
proof (induction rounds arbitrary: s w)
  case (Cons x rounds)
  obtain ss1 s1 w1 where 1: "selector_select handlers x (s, w) = Inr (ss1, s1, w1)"
      "if ss1 \<noteq> SELECTOR_SUCCESS then s' = s1 else serve rounds (s1, w1) = Inr (msg, ss, s', w')"
    using Cons.prems(1) by (auto elim!: bind_res_InrE split: if_splits)
  have "table_ok s1 \<and> (ss1 = SELECTOR_SUCCESS \<longrightarrow> s_resolution_jobs s1 = [])"
  proof (cases x)
    case (Ready r wr)
    with 1(1) served.selector_select_keeps [of r wr s w ss1 s1 w1] Cons.prems(2,3) show ?thesis by simp
  next
    case Interrupted
    with 1(1) Cons.prems(2,3) show ?thesis
      by (auto simp: selector_select_def handle_block_notifications_def table_ok_slaves Let_def)
  next
    case BadDescriptor
    with 1(1) Cons.prems(2,3) show ?thesis by (auto simp: selector_select_def table_ok_slaves Let_def)
  next
    case SelectFails
    with 1(1) Cons.prems(2,3) show ?thesis by (auto simp: selector_select_def table_ok_slaves Let_def)
  qed
  with 1(2) Cons.IH [of s1 w1] show ?case
    by (auto split: if_splits)
qed simp

section \<open>A round of the server\<close>

text \<open>C29. One round of \<open>select\<close> with the handlers of the server, which change the interests, register and unregister
  descriptors, free objects and may go wrong. The descriptors that are ready and wanted to be at the beginning of the
  round get their turns in ascending order: the handler for reading, then the one for writing, each once and only if
  the entry that the descriptor has at that moment, its own or that of a connection that was given the same number
  earlier in the round, still wants it; a descriptor that was unregistered meanwhile is passed over, and no other is
  called. Then the notifications are handed out, each to the handler its descriptor has at that moment. A handler
  that goes wrong ends the round; a round that returns leaves a table of the same kind and no notification.\<close>

theorem selector_select_dispatches:
  assumes "table_ok s" and "\<forall>fd \<in> set (s_resolution_jobs s). 0 \<le> fd \<and> nat fd < fd_size s"
    and "R = r \<inter> {i. wants OP_READ s i}" and "W = wr \<inter> {i. wants OP_WRITE s i}"
  shows "selector_select handlers (Ready r wr) (s, w) =
      bind_res (turns handlers R W (sorted_list_of_set (R \<union> W)) (s\<lparr>s_slave_r := R, s_slave_w := W\<rparr>, w)) (\<lambda>st.
      bind_res (notified handlers (map nat (s_resolution_jobs s)) st) (\<lambda>(s, w).
      Inr (SELECTOR_SUCCESS, s\<lparr>s_resolution_jobs := []\<rparr>, w))) \<and>
    (\<forall>ss s' w'. selector_select handlers (Ready r wr) (s, w) = Inr (ss, s', w') \<longrightarrow>
      ss = SELECTOR_SUCCESS \<and> table_ok s' \<and> fd_size s' = fd_size s \<and> s_resolution_jobs s' = [])"
  using served.selector_select_turns [OF assms(1-4)] served.selector_select_keeps [OF _ assms(1,2)] by blast

text \<open>
  The table with which the loop starts. In the round of the example a client arrives on the first passive
  socket, so that the handler registers descriptor 5 while the round is under way, and the second call of
  \<open>accept\<close> fails.
\<close>

lemma started_table:
  obtains s where "table_ok s" "registered s = passive_table 0 1 3 4" "fd_size s = 1025" "s_resolution_jobs s = []"
proof -
  obtain s where s: "selector_new True True (st_junk example_start) 1024 = Inr (Some s)" "selector_ok s"
      "registered s = (\<lambda>_. None)" "fd_size s = 1025"
    by (rule selector_new_server)
  obtain s4 where s4: "register_passive example_start [int 0, int 1, int 3, int 4] 0 passive_fds_size s =
      Inr (None, SELECTOR_SUCCESS, s4)" "fd_size s4 = 1025" "s_resolution_jobs s4 = s_resolution_jobs s"
      "registered s4 = passive_table 0 1 3 4"
    using register_all [OF example_start_ok(1) s(2,4,3)] by metis
  have "table_ok s"
    using selector_new_table_ok [of True True "st_junk example_start" s] s(1) by (simp add: MAX_FD_def)
  then have "table_ok s4"
    using register_passive_moved [OF s4(1)] by (simp add: moved_def)
  with s4(2-4) selector_new_jobs [OF s(1)] that show ?thesis by metis
qed

definition round_answers :: "answer list" where
  "round_answers = accept_answers 5 (replicate 16 0) example_socks (replicate 64 0) (replicate 64 0) @ [AcceptFails]"

theorem selector_select_dispatches_witness:
  "\<exists>s s' w'. selector_select handlers (Ready {0, 1, 9} {7}) (s, small_world round_answers) = Inr (SELECTOR_SUCCESS, s', w') \<and>
     registered s = passive_table 0 1 3 4 \<and>
     registered s' = (registered s)(5 \<mapsto> (OP_READ, Some H_socks5, Some (Socks_at 1))) \<and>
     w_events w' = [Closed_fd (-1)]"
proof -
  obtain s where s: "table_ok s" "registered s = passive_table 0 1 3 4" "fd_size s = 1025" "s_resolution_jobs s = []"
    by (rule started_table)
  have R: "{0, 1} = {0, 1, 9} \<inter> {i. wants OP_READ s i}" and W: "{} = {7} \<inter> {i. wants OP_WRITE s i}"
    by (auto simp: wants_def s(2) passive_table_def op_defs split: if_splits)
  let ?s = "s\<lparr>s_slave_r := {0, 1}, s_slave_w := {}\<rparr>" and ?w = "small_world round_answers"
  let ?key = "\<lambda>n. \<lparr>k_fd = n, k_data = None\<rparr> :: key"
  have reg: "registered ?s = passive_table 0 1 3 4"
    using s(2) by (simp add: registered_slave)
  have sel: "selector_ok ?s" "5 < fd_size ?s"
    using s(1,3) table_ok_slaves(1) [where s = s and A = "{0, 1}" and B = "{}"] by (simp_all add: table_ok_def fd_size_def)
  have free: "registered ?s 5 = None"
    using reg by (simp add: passive_table_def)
  have ans: "w_answers ?w = Accepted (int 5) (replicate 16 0) # NewSocks example_socks # Bytes (replicate 64 0) #
      Bytes (replicate 64 0) # NioSet True # [AcceptFails]"
    by (simp add: small_world_simps round_answers_def accept_answers_def)
  have acc: "acceptable ?w (replicate 16 0) example_socks (replicate 64 0) (replicate 64 0) 64"
    by (rule small_world_acceptable)
  obtain s1 o5 where "socks5_passive_accept (?key 0) (?s, ?w) = Inr (s1, put_socks (w_next ?w) o5
      (?w\<lparr>w_next := w_next ?w + 1, w_metrics := add_connecting_clients (w_metrics ?w), w_answers := [AcceptFails]\<rparr>))"
      "watch ?s (w_next ?w) 5 OP_READ s1"
    by (rule accept_step [OF ans sel(1) free sel(2), of 64 "?key 0"]) (use acc in \<open>simp_all add: acceptable_def ITEMS_MAX_SIZE_def\<close>)
  then obtain w1 where first: "socks5_passive_accept (?key 0) (?s, ?w) = Inr (s1, w1)"
      "registered s1 = (passive_table 0 1 3 4)(5 \<mapsto> (OP_READ, Some H_socks5, Some (Socks_at 1)))"
      "w_answers w1 = [AcceptFails]" "w_events w1 = []"
    using reg by (simp add: watch_def small_world_simps put_socks_def)
  have second: "socks5_passive_accept (?key 1) (s1, w1) = Inr (s1, emit (Closed_fd (-1)) (w1\<lparr>w_answers := []\<rparr>))"
    using first(3) by (simp add: socks5_passive_accept_def next_answer_def accept_failed_def)
  have one: "turn handlers {0, 1} {} 0 (?s, ?w) = Inr (s1, w1)"
    using reg first(1) by (simp add: turn_def offer_def passive_table_def socks5_passive_handler_def op_defs)
  have two: "turn handlers {0, 1} {} 1 (s1, w1) = Inr (s1, emit (Closed_fd (-1)) (w1\<lparr>w_answers := []\<rparr>))"
    using first(2) second by (simp add: turn_def offer_def passive_table_def socks5_passive_handler_def op_defs)
  have "selector_select handlers (Ready {0, 1, 9} {7}) (s, ?w) =
      Inr (SELECTOR_SUCCESS, s1\<lparr>s_resolution_jobs := []\<rparr>, emit (Closed_fd (-1)) (w1\<lparr>w_answers := []\<rparr>))"
    using selector_select_dispatches [OF s(1) _ R W, of ?w] s(4) one two by simp
  moreover have "registered (s1\<lparr>s_resolution_jobs := []\<rparr>) = registered s1"
    by (simp add: registered_def get_item_def fun_eq_iff)
  ultimately show ?thesis
    using s(2) first(2,4)
    by - (rule exI [of _ s], rule exI [of _ "s1\<lparr>s_resolution_jobs := []\<rparr>"], rule exI, intro conjI, assumption, simp_all add: emit_def)
qed

end
