(* ===== verification/ClientArgs.thy ===== *)
theory ClientArgs
  imports Args
begin

text \<open>
  The command line of the management client, \<^verbatim>\<open>management_protocol/args_handler.c\<close>. As for the
  server, the calls of \<open>getopt\<close> are the list of their answers. A \<open>char *\<close> of the arguments is the
  string, or \<open>None\<close> for the null pointer.
\<close>

record manage_args =
  ma_authorized :: bool
  ma_mng_addr :: "u8 list"
  ma_mng_port :: nat
  ma_try_password :: "u8 list option"
  ma_get_flag :: bool
  ma_get_option :: "u8 list option"
  ma_add_flag :: bool
  ma_add_username :: "u8 list option"
  ma_add_password :: "u8 list option"
  ma_delete_flag :: bool
  ma_delete_username :: "u8 list option"
  ma_edit_flag :: bool
  ma_edit_username :: "u8 list option"
  ma_edit_attribute :: u32
  ma_edit_value :: "u8 list option"
  ma_toggle_flag :: bool
  ma_toggle_option :: "u8 list option"
  ma_toggle_status :: "u8 list option"
  ma_set_flag :: bool
  ma_set_size :: u32

text \<open>The \<open>memset\<close>, then the two defaults.\<close>

definition default_args :: manage_args where
  "default_args = \<lparr>ma_authorized = False, ma_mng_addr = DEFAULT_MNG_ADDRESS_V4,
     ma_mng_port = DEFAULT_MNG_PORT, ma_try_password = None, ma_get_flag = False,
     ma_get_option = None, ma_add_flag = False, ma_add_username = None, ma_add_password = None,
     ma_delete_flag = False, ma_delete_username = None, ma_edit_flag = False,
     ma_edit_username = None, ma_edit_attribute = 0, ma_edit_value = None, ma_toggle_flag = False,
     ma_toggle_option = None, ma_toggle_status = None, ma_set_flag = False, ma_set_size = 0\<rparr>"

definition usage_lines :: "string list" where
  "usage_lines = [
    '''',
    ''   -h                  Prints help and end.'',
    ''   -L <GRUPO6 addr>    '',
    ''   -P <GRUPO6 port>    '',
    ''   -a <token>          Auth token to access the system.'',
    ''   -g <OPTION>         Shows info of the selected option.'',
    ''                       Where option can be: '',
    ''                            users, '',
    ''                            passwords, '',
    ''                            spoofstatus, '',
    ''                            authstatus, '',
    ''                            sentbytes, '',
    ''                            rrcvbytes, '',
    ''                            historic or, '',
    ''                            concurrent'',
    ''   -e user:attr:value  Edits the <attr> attribute of the user with the passed value '',
    ''   -d <username>       Deletes the user with the specified username'',
    ''   -i user:pass        Adds a user with <user> as username and <pass> as password'',
    ''   -t option:status    To the option (spoof or auth) sets the status (on or off)'',
    ''   -b <SIZE>           Sets the size of the system buffer to be <SIZE>'',
    ''   -v                  Gives information of the current version and ends.'',
    ''   '']"

definition mng_usage :: "u8 list \<Rightarrow> logger \<Rightarrow> logger" where
  "mng_usage command l =
     put_text (chars ''Usage: '' @ command @ chars '' [OPTION]...'' @
       concat (map (\<lambda>s. NL @ chars s) usage_lines)) l"

definition client_port :: "u8 list \<Rightarrow> logger \<Rightarrow> (nat \<times> logger) result" where
  "client_port s l =
     (let (sl, end_of) = strtol s in
      if end_of = s \<or> end_of \<noteq> [] \<or> sl < 0 \<or> sl > USHRT_MAX then
        bind_res (log_print LOG_ERROR (chars ''port should in in the range of 1-65536: '' @ s @ NL) l) (\<lambda>l.
        Inr (1, l))
      else Inr (nat sl, l))"

definition handle_opt ::
  "u8 list \<Rightarrow> opt \<Rightarrow> manage_args \<times> logger \<Rightarrow> (manage_args \<times> logger) result" where
  "handle_opt command option st =
     (let (c, optarg) = option; (m, l) = st in
      if c = CHR ''h'' then Inr (m, mng_usage command l)
      else if c = CHR ''L'' then bind_res (deref optarg) (\<lambda>s. Inr (m\<lparr>ma_mng_addr := s\<rparr>, l))
      else if c = CHR ''P'' then
        bind_res (deref optarg) (\<lambda>s.
        bind_res (client_port s l) (\<lambda>(n, l). Inr (m\<lparr>ma_mng_port := n\<rparr>, l)))
      else if c = CHR ''a'' then Inr (m\<lparr>ma_try_password := optarg\<rparr>, l)
      else if c = CHR ''g'' then Inr (m\<lparr>ma_get_flag := True, ma_get_option := optarg\<rparr>, l)
      else if c = CHR ''e'' then
        bind_res (deref optarg) (\<lambda>s.
        let (username, s) = strtok COLON s; (attr, s) = strtok COLON s in
        bind_res (deref attr) (\<lambda>attr.
        let (val, s) = strtok COLON s in
        Inr (m\<lparr>ma_edit_flag := True, ma_edit_username := username, ma_edit_attribute := atoi attr,
               ma_edit_value := val\<rparr>, l)))
      else if c = CHR ''d'' then Inr (m\<lparr>ma_delete_flag := True, ma_delete_username := optarg\<rparr>, l)
      else if c = CHR ''i'' then
        bind_res (deref optarg) (\<lambda>s.
        let (username, s) = strtok COLON s; (pass, s) = strtok COLON s in
        Inr (m\<lparr>ma_add_flag := True, ma_add_username := username, ma_add_password := pass\<rparr>, l))
      else if c = CHR ''t'' then
        bind_res (deref optarg) (\<lambda>s.
        let (opt, s) = strtok COLON s; (status, s) = strtok COLON s in
        Inr (m\<lparr>ma_toggle_flag := True, ma_toggle_option := opt, ma_toggle_status := status\<rparr>, l))
      else if c = CHR ''b'' then
        bind_res (deref optarg) (\<lambda>s. Inr (m\<lparr>ma_set_flag := True, ma_set_size := atoi s\<rparr>, l))
      else if c = CHR ''v'' then Inl FatalExit
      else Inr (m, l))"

fun handle_opts ::
  "u8 list \<Rightarrow> opt list \<Rightarrow> manage_args \<times> logger \<Rightarrow> (manage_args \<times> logger) result" where
  "handle_opts command [] st = Inr st"
| "handle_opts command (x # xs) st = bind_res (handle_opt command x st) (handle_opts command xs)"

definition parse_args_handler ::
  "u8 list \<Rightarrow> opt list \<Rightarrow> logger \<Rightarrow> (manage_args \<times> logger) result" where
  "parse_args_handler command opts l = handle_opts command opts (default_args, l)"

text \<open>The words of the line, and what they become.\<close>

lemma handle_opt_login [simp]:
  "handle_opt command (CHR ''a'', Some t) (m, l) = Inr (m\<lparr>ma_try_password := Some t\<rparr>, l)"
  by (simp add: handle_opt_def)

lemma handle_opt_add:
  assumes "COLON \<notin> set u" "u \<noteq> []" "COLON \<notin> set q" "q \<noteq> []"
  shows "handle_opt command (CHR ''i'', Some (u @ COLON # q)) (m, l) =
    Inr (m\<lparr>ma_add_flag := True, ma_add_username := Some u, ma_add_password := Some q\<rparr>, l)"
  using assms by (simp add: handle_opt_def strtok_first strtok_rest)

lemma handle_opt_set:
  assumes "n < 2 ^ 31"
  shows "handle_opt command (CHR ''b'', Some (digits 10 n)) (m, l) =
    Inr (m\<lparr>ma_set_flag := True, ma_set_size := of_nat n\<rparr>, l)"
  using assms strtol_digits [of n] by (simp add: handle_opt_def atoi_def LONG_MAX_def)

end
