(* ===== verification/Client.thy ===== *)
theory Client
  imports ClientArgs
begin

text \<open>
  The management client: \<^verbatim>\<open>management_protocol/management_protocol_handler.c\<close> and
  \<^verbatim>\<open>management_protocol_client.c\<close>. The operating system is a list of answers, as for the server;
  the events are what reaches the socket, and the logger holds the text of the terminal (what
  \<open>perror\<close> prints is left out). An array on the stack and memory from \<open>realloc\<close> hold what the
  answer \<open>Bytes\<close> says until they are written. \<open>exit\<close>, also through \<open>log_print(FATAL, ..)\<close>, is the
  fault \<open>FatalExit\<close>.
\<close>

section \<open>System calls\<close>

record cworld =
  cw_answers :: "answer list"
  cw_events :: "event list"
  cw_log :: logger

definition c_answer :: "cworld \<Rightarrow> (answer \<times> cworld) result" where
  "c_answer w =
     (case cw_answers w of [] \<Rightarrow> Inl NoAnswer | x # xs \<Rightarrow> Inr (x, w\<lparr>cw_answers := xs\<rparr>))"

definition c_emit :: "event \<Rightarrow> cworld \<Rightarrow> cworld" where
  "c_emit e w = w\<lparr>cw_events := cw_events w @ [e]\<rparr>"

definition c_print :: "u8 list \<Rightarrow> cworld \<Rightarrow> cworld" where
  "c_print t w = w\<lparr>cw_log := put_text t (cw_log w)\<rparr>"

definition c_log :: "nat \<Rightarrow> u8 list \<Rightarrow> cworld \<Rightarrow> cworld result" where
  "c_log level msg w = bind_res (log_print level msg (cw_log w)) (\<lambda>l. Inr (w\<lparr>cw_log := l\<rparr>))"

definition int_text :: "int \<Rightarrow> u8 list" where
  "int_text i = (if i < 0 then 45 # digits 10 (nat (- i)) else digits 10 (nat i))"

text \<open>\<open>n\<close> bytes that were not initialised, on the stack or from the allocator.\<close>

definition c_array :: "nat \<Rightarrow> cworld \<Rightarrow> (u8 list \<times> cworld) result" where
  "c_array n w =
     bind_res (c_answer w) (\<lambda>(x, w).
     case x of Bytes bs \<Rightarrow> if length bs = n then Inr (bs, w) else Inl NoAnswer | _ \<Rightarrow> Inl NoAnswer)"

definition c_alloc :: "nat \<Rightarrow> cworld \<Rightarrow> (u8 list option \<times> cworld) result" where
  "c_alloc n w =
     bind_res (c_answer w) (\<lambda>(x, w).
     case x of
       Bytes bs \<Rightarrow> if length bs = n then Inr (Some bs, w) else Inl NoAnswer
     | NoMemory \<Rightarrow> Inr (None, w)
     | _ \<Rightarrow> Inl NoAnswer)"

definition c_send :: "int \<Rightarrow> u8 list \<Rightarrow> cworld \<Rightarrow> (int \<times> cworld) result" where
  "c_send fd bs w =
     bind_res (c_answer w) (\<lambda>(x, w).
     case x of
       SentBytes n \<Rightarrow>
         if n \<le> length bs then Inr (int n, c_emit (SentTo fd (take n bs)) w) else Inl NoAnswer
     | SendFails \<Rightarrow> Inr (-1, w)
     | _ \<Rightarrow> Inl NoAnswer)"

text \<open>\<open>recv\<close> of at most \<open>n\<close> bytes to the start of an array.\<close>

definition c_recv :: "int \<Rightarrow> u8 list \<Rightarrow> nat \<Rightarrow> cworld \<Rightarrow> (int \<times> u8 list \<times> cworld) result" where
  "c_recv fd a n w =
     bind_res (c_answer w) (\<lambda>(x, w).
     case x of
       RecvBytes bs \<Rightarrow>
         if length bs \<le> n then
           bind_res (store_range a 0 bs) (\<lambda>a. Inr (int (length bs), a, w))
         else Inl NoAnswer
     | RecvFails \<Rightarrow> Inr (-1, a, w)
     | _ \<Rightarrow> Inl NoAnswer)"

definition error_quit :: "int \<Rightarrow> u8 list \<Rightarrow> cworld \<Rightarrow> cworld result" where
  "error_quit fd msg w = c_log FATAL msg (c_emit (Closed_fd fd) w)"

lemma error_quit_exits [simp]: "error_quit fd msg w = Inl FatalExit"
  by (simp add: error_quit_def c_log_def)

section \<open>Constants\<close>

definition SERVER_ERROR :: u8 where "SERVER_ERROR = 0xFF"
definition STATUS_OK :: u8 where "STATUS_OK = 0x00"
definition CONN_STATUS_OK :: u8 where "CONN_STATUS_OK = 0x00"
definition CONN_STATUS_ERROR_IN_VERSION :: u8 where "CONN_STATUS_ERROR_IN_VERSION = 0x01"
definition CONN_STATUS_ERROR_IN_PASSLEN :: u8 where "CONN_STATUS_ERROR_IN_PASSLEN = 0x02"
definition CONN_STATUS_ERROR_IN_PASS :: u8 where "CONN_STATUS_ERROR_IN_PASS = 0x03"

definition GET_MSG_SIZE :: nat where "GET_MSG_SIZE = 4"
definition PUT_MSG_SIZE :: nat where "PUT_MSG_SIZE = 5"
definition EDIT_MSG_SIZE :: nat where "EDIT_MSG_SIZE = 8"
definition DELETE_MSG_SIZE :: nat where "DELETE_MSG_SIZE = 6"
definition CONFIGSTATUS_MSG_SIZE :: nat where "CONFIGSTATUS_MSG_SIZE = 5"
definition CONFIGBUFFSIZE_MGS_SIZE :: nat where "CONFIGBUFFSIZE_MGS_SIZE = 5"
definition GETOPTSIZE :: nat where "GETOPTSIZE = 9"

definition get_cmds :: "string list" where
  "get_cmds = [''users'', ''passwords'', ''buffersize'', ''authstatus'', ''spoofstatus'', ''sentbytes'',
     ''rcvbytes'', ''historic'', ''concurrent'']"

definition get_msg :: "string list" where
  "get_msg = [''Success'', ''Invalid action'', ''Invalid option'', ''Error'']"

definition put_msg :: "string list" where
  "put_msg = [''Success'', ''Invalid action'', ''Invalid username length'', ''Invalid password length'',
     ''Error'']"

definition edit_msg :: "string list" where
  "edit_msg = [''Success'', ''Invalid action'', ''Invalid field'', ''Invalid username length'',
     ''Invalid attribute'', ''Invalid value length'', ''Error'', ''Unknown user'']"

definition delete_msg :: "string list" where
  "delete_msg = [''Success'', ''Invalid action'', ''Invalid field'', ''Invalid username length'', ''Error'',
     ''Unknown user fail'']"

definition configstatus_msg :: "string list" where
  "configstatus_msg = [''Success'', ''Invalid action'', ''Invalid field'', ''Invalid status'', ''Error'']"

definition configbuffsize_msg :: "string list" where
  "configbuffsize_msg = [''Success'', ''Invalid action'', ''Invalid buffer size length'',
     ''Invalid buffer size'', ''Error'']"

section \<open>What is printed\<close>

text \<open>The body that the six functions share; \<open>tag\<close> is the action, \<open>tag2\<close> the one of the second text.\<close>

definition print_response ::
  "string \<Rightarrow> string \<Rightarrow> string list \<Rightarrow> nat \<Rightarrow> u8 \<Rightarrow> cworld \<Rightarrow> cworld result" where
  "print_response tag tag2 msgs msgs_size status w =
     (if unat status < msgs_size then
        bind_res (load_at msgs (unat status)) (\<lambda>t.
        c_log INFO (chars ''Response: ['' @ chars tag @ chars ''] '' @ chars t @ NL) w)
      else Inr (c_print (chars ''['' @ chars tag2 @ chars ''] Unknown status'' @ NL) w))"

definition print_get_response :: "u8 \<Rightarrow> cworld \<Rightarrow> cworld result" where
  "print_get_response = print_response ''GET'' ''GET'' get_msg GET_MSG_SIZE"

definition print_put_response :: "u8 \<Rightarrow> cworld \<Rightarrow> cworld result" where
  "print_put_response = print_response ''PUT'' ''PUT'' put_msg PUT_MSG_SIZE"

definition print_edit_response :: "u8 \<Rightarrow> cworld \<Rightarrow> cworld result" where
  "print_edit_response = print_response ''EDIT'' ''EDIT'' edit_msg EDIT_MSG_SIZE"

definition print_configstatus_response :: "u8 \<Rightarrow> cworld \<Rightarrow> cworld result" where
  "print_configstatus_response =
     print_response ''CONFIGSTATUS'' ''CONFIGSTATUS'' configstatus_msg CONFIGSTATUS_MSG_SIZE"

definition print_configbuffsize_response :: "u8 \<Rightarrow> cworld \<Rightarrow> cworld result" where
  "print_configbuffsize_response =
     print_response ''CONFIGBUFFSIZE'' ''CONFIGSTATUS'' configbuffsize_msg CONFIGBUFFSIZE_MGS_SIZE"

definition print_delete_response :: "u8 \<Rightarrow> cworld \<Rightarrow> cworld result" where
  "print_delete_response = print_response ''DELETE'' ''DELETE'' delete_msg DELETE_MSG_SIZE"

section \<open>Login\<close>

definition login :: "int \<Rightarrow> manage_args \<Rightarrow> cworld \<Rightarrow> (manage_args \<times> cworld) result" where
  "login fd args w =
     bind_res (deref (ma_try_password args)) (\<lambda>password.
     let password_len = length password in
     if password_len > 255 then Inl FatalExit
     else
       bind_res (c_alloc (2 + password_len + 2) w) (\<lambda>(msg, w).
       bind_res (deref msg) (\<lambda>msg.
       bind_res (store_at msg 0 0x00) (\<lambda>msg.
       bind_res (store_at msg 1 (of_nat password_len)) (\<lambda>msg.
       bind_res (store_range msg 2 (password @ [0])) (\<lambda>msg.
       bind_res (load_range msg 0 (password_len + 4)) (\<lambda>out.
       bind_res (c_send fd out w) (\<lambda>(bytes, w).
       let w = c_print (chars ''bytes sent: '' @ int_text bytes @ NL) w in
       bind_res (c_array 1 w) (\<lambda>(res, w).
       bind_res (c_recv fd res 1 w) (\<lambda>(_, res, w).
       bind_res (load_at res 0) (\<lambda>r.
       if r = CONN_STATUS_OK then
         Inr (args\<lparr>ma_authorized := True\<rparr>, c_print (chars ''[INFO] AUTHORIZED'' @ NL) w)
       else if r = CONN_STATUS_ERROR_IN_VERSION then
         Inr (args, c_print (chars ''[ERROR] VERSION NOT SUPPORTED'' @ NL) w)
       else if r = CONN_STATUS_ERROR_IN_PASSLEN then
         Inr (args, c_print (chars ''[ERROR] INCORRECT TOKEN'' @ NL) w)
       else if r = CONN_STATUS_ERROR_IN_PASS then
         Inr (args, c_print (chars ''[ERROR] INCORRECT PASSWORD'' @ NL) w)
       else Inr (args, c_print (chars ''[ERROR] UNKNOWN RESPONSE'' @ NL) w))))))))))))"

section \<open>GET\<close>

definition send_get_request :: "int \<Rightarrow> u8 \<Rightarrow> cworld \<Rightarrow> (int \<times> cworld) result" where
  "send_get_request fd command w = c_send fd [0x00, command] w"

text \<open>The status, and the bytes of the reply with a zero byte after them, or \<open>None\<close> for \<open>NULL\<close>.\<close>

definition receive_get_request ::
  "int \<Rightarrow> cworld \<Rightarrow> (u8 \<times> u8 list option \<times> cworld) result" where
  "receive_get_request fd w =
     bind_res (c_array 2 w) (\<lambda>(info, w).
     bind_res (c_recv fd info 2 w) (\<lambda>(recv_bytes, info, w).
     bind_res (if recv_bytes \<le> 0 then error_quit fd (chars ''GET: Server error'') w else Inr w) (\<lambda>w.
     if recv_bytes < 2 then Inr (SERVER_ERROR, None, w)
     else
       bind_res (load_at info 0) (\<lambda>status.
       if status \<noteq> STATUS_OK then Inr (status, None, w)
       else
         bind_res (load_at info 1) (\<lambda>len_byte.
         let rta_len = unat len_byte in
         bind_res (c_alloc (rta_len + 1) w) (\<lambda>(rta, w).
         case rta of
           None \<Rightarrow> Inr (status, None, c_print (chars ''[GET] Not enough space for buffer'') w)
         | Some rta \<Rightarrow>
             bind_res (c_recv fd rta (rta_len + 1) w) (\<lambda>(_, rta, w).
             bind_res (store_at rta rta_len 0) (\<lambda>rta. Inr (status, Some rta, w)))))))))"

definition send_receive_get :: "int \<Rightarrow> u8 \<Rightarrow> cworld \<Rightarrow> (u8 list option \<times> cworld) result" where
  "send_receive_get fd command w =
     bind_res (send_get_request fd command w) (\<lambda>(sent_bytes, w).
     if sent_bytes \<le> 0 then Inl FatalExit
     else
       bind_res (receive_get_request fd w) (\<lambda>(status, reply, w).
       bind_res
         (if reply = None then
            if status \<noteq> STATUS_OK then print_get_response status w
            else error_quit fd (chars ''GET: Server error'') w
          else Inr w) (\<lambda>w.
       Inr (reply, w))))"

definition cl_get_users :: "int \<Rightarrow> cworld \<Rightarrow> cworld result" where
  "cl_get_users fd w =
     bind_res (send_receive_get fd 0x00 w) (\<lambda>(users_list, w).
     case users_list of
       None \<Rightarrow> Inr w
     | Some r \<Rightarrow>
         bind_res (c_str r) (\<lambda>t.
         Inr (c_print (t @ NL) (c_print (chars ''USER LIST'' @ NL @ NL) w))))"

definition cl_get_passwords :: "int \<Rightarrow> cworld \<Rightarrow> cworld result" where
  "cl_get_passwords fd w =
     bind_res (send_receive_get fd 0x01 w) (\<lambda>(passwords_list, w).
     case passwords_list of
       None \<Rightarrow> Inr w
     | Some r \<Rightarrow>
         bind_res (c_str r) (\<lambda>t.
         Inr (c_print (t @ NL) (c_print (chars ''PASSWORD LIST'' @ NL @ NL) w))))"

text \<open>The four bytes of a reply as a number, as \<open>get_connections\<close> and \<open>get_buffer_size\<close> read them.\<close>

definition reply_number :: "u8 list \<Rightarrow> u32 result" where
  "reply_number reply =
     bind_res (load_at reply 3) (\<lambda>r3.
     bind_res (load_at reply 2) (\<lambda>r2.
     bind_res (load_at reply 1) (\<lambda>r1.
     bind_res (load_at reply 0) (\<lambda>r0.
     Inr (ucast r3 OR push_bit 8 (ucast r2) OR push_bit 16 (ucast r1) OR push_bit 24 (ucast r0))))))"

definition get_connections :: "int \<Rightarrow> u8 \<Rightarrow> string \<Rightarrow> cworld \<Rightarrow> cworld result" where
  "get_connections fd command msg w =
     bind_res (send_receive_get fd command w) (\<lambda>(reply, w).
     case reply of
       None \<Rightarrow> Inr w
     | Some r \<Rightarrow>
         bind_res (reply_number r) (\<lambda>bytes.
         Inr (c_print (chars msg @ chars '': '' @ digits 10 (unat bytes) @ NL) w)))"

definition get_historical_connections :: "int \<Rightarrow> cworld \<Rightarrow> cworld result" where
  "get_historical_connections fd w = get_connections fd 0x07 ''HISTORICAL CONNECTIONS'' w"

definition get_concurrent_conections :: "int \<Rightarrow> cworld \<Rightarrow> cworld result" where
  "get_concurrent_conections fd w = get_connections fd 0x08 ''CURRENT CONNECTIONS'' w"

definition get_buffer_size :: "int \<Rightarrow> cworld \<Rightarrow> cworld result" where
  "get_buffer_size fd w =
     bind_res (send_receive_get fd 0x02 w) (\<lambda>(reply, w).
     case reply of
       None \<Rightarrow> Inr w
     | Some r \<Rightarrow>
         bind_res (reply_number r) (\<lambda>n.
         Inr (c_print (chars ''Buffer size: '' @ digits 10 (unat n) @ NL) w)))"

definition cl_get_status :: "int \<Rightarrow> u8 \<Rightarrow> string \<Rightarrow> cworld \<Rightarrow> cworld result" where
  "cl_get_status fd command msg w =
     bind_res (send_receive_get fd command w) (\<lambda>(reply, w).
     case reply of
       None \<Rightarrow> Inr w
     | Some r \<Rightarrow>
         bind_res (load_at r 0) (\<lambda>b.
         Inr (c_print (chars msg @ chars '': '' @ chars (if b = 0x00 then ''on'' else ''off'') @ NL) w)))"

definition cl_get_auth_status :: "int \<Rightarrow> cworld \<Rightarrow> cworld result" where
  "cl_get_auth_status fd w = cl_get_status fd 0x03 ''Auth status'' w"

definition get_spoof_status :: "int \<Rightarrow> cworld \<Rightarrow> cworld result" where
  "get_spoof_status fd w = cl_get_status fd 0x04 ''Spoof status'' w"

text \<open>
  The bytes are promoted to \<open>int\<close>, of 32 bits, before the shift; the sum is extended with its sign
  to the 64 bits of \<open>reply_bytes\<close>. \<open>n\<close> is the number of rounds that are left.
\<close>

fun get_bytes_loop :: "u8 list \<Rightarrow> nat \<Rightarrow> nat \<Rightarrow> u64 \<Rightarrow> u64 result" where
  "get_bytes_loop reply i 0 reply_bytes = Inr reply_bytes"
| "get_bytes_loop reply i (Suc n) reply_bytes =
     bind_res (load_at reply i) (\<lambda>b.
     if 56 - i * 8 \<ge> 32 then Inl BadShift
     else get_bytes_loop reply (Suc i) n
       (reply_bytes OR scast (push_bit (56 - i * 8) (ucast b) :: u32)))"

definition get_bytes :: "int \<Rightarrow> u8 \<Rightarrow> string \<Rightarrow> cworld \<Rightarrow> cworld result" where
  "get_bytes fd command msg w =
     bind_res (send_receive_get fd command w) (\<lambda>(reply, w).
     case reply of
       None \<Rightarrow> Inr w
     | Some r \<Rightarrow>
         bind_res (get_bytes_loop r 0 8 0) (\<lambda>n.
         Inr (c_print (chars msg @ chars '': '' @ digits 10 (unat n) @ NL) w)))"

definition cl_get_sent_bytes :: "int \<Rightarrow> cworld \<Rightarrow> cworld result" where
  "cl_get_sent_bytes fd w = get_bytes fd 0x05 ''Sent Bytes'' w"

definition cl_get_received_bytes :: "int \<Rightarrow> cworld \<Rightarrow> cworld result" where
  "cl_get_received_bytes fd w = get_bytes fd 0x06 ''Received Bytes'' w"

section \<open>PUT\<close>

definition send_put_request :: "int \<Rightarrow> u8 list \<Rightarrow> u8 list \<Rightarrow> cworld \<Rightarrow> (int \<times> cworld) result" where
  "send_put_request fd username password w =
     (let username_len = length username; password_len = length password in
      bind_res (if username_len > 10 then error_quit fd (chars ''PUT: Username too long (max 10).'') w
                else Inr w) (\<lambda>w.
      bind_res (if password_len > 10 then error_quit fd (chars ''PUT: Password too long (max 10).'') w
                else Inr w) (\<lambda>w.
      bind_res (c_alloc (2 + 2 * 4 + username_len + password_len + 1) w) (\<lambda>(request, w).
      bind_res (deref request) (\<lambda>request.
      bind_res (store_at request 0 0x01) (\<lambda>request.
      bind_res (store_at request 1 0x00) (\<lambda>request.
      bind_res (store_at request 2 (of_nat username_len)) (\<lambda>request.
      bind_res (store_range request 3 (username @ [0])) (\<lambda>request.
      bind_res (store_at request (3 + username_len) (of_nat password_len)) (\<lambda>request.
      bind_res (store_range request (4 + username_len) (password @ [0])) (\<lambda>request.
      bind_res (load_range request 0 (username_len + password_len + 4)) (\<lambda>out.
      c_send fd out w))))))))))))"

text \<open>The status is not written.\<close>

definition receive_put_reply :: "int \<Rightarrow> cworld \<Rightarrow> (int \<times> cworld) result" where
  "receive_put_reply fd w =
     bind_res (c_array 1 w) (\<lambda>(reply, w).
     bind_res (c_recv fd reply 1 w) (\<lambda>(rcv_bytes, reply, w).
     Inr (rcv_bytes, w)))"

definition send_receive_put :: "int \<Rightarrow> u8 list \<Rightarrow> u8 list \<Rightarrow> cworld \<Rightarrow> cworld result" where
  "send_receive_put fd username password w =
     bind_res (send_put_request fd username password w) (\<lambda>(sent_bytes, w).
     bind_res (if sent_bytes \<le> 0 then error_quit fd (chars ''PUT: Error in sending request'') w
               else Inr w) (\<lambda>w.
     let status = 0 in
     bind_res (receive_put_reply fd w) (\<lambda>(rcv_bytes, w).
     bind_res (if rcv_bytes \<le> 0 then error_quit fd (chars ''PUT: Server error'') w else Inr w) (\<lambda>w.
     print_put_response status w))))"

definition cl_add_user :: "int \<Rightarrow> u8 list \<Rightarrow> u8 list \<Rightarrow> cworld \<Rightarrow> cworld result" where
  "cl_add_user fd username password w =
     send_receive_put fd username password (c_print (chars ''ADD USER ACTION REQUESTED'' @ NL) w)"

section \<open>EDIT\<close>

definition send_edit_request ::
  "int \<Rightarrow> u8 list \<Rightarrow> u8 \<Rightarrow> u8 list \<Rightarrow> cworld \<Rightarrow> (int \<times> cworld) result" where
  "send_edit_request fd username attribute val w =
     (let username_len = length username; value_len = length val in
      bind_res (if username_len > 10 then error_quit fd (chars ''EDIT: Username too long (max 10).'') w
                else Inr w) (\<lambda>w.
      bind_res (if value_len > 10 then error_quit fd (chars ''EDIT: Value too long (max 10).'') w
                else Inr w) (\<lambda>w.
      bind_res (c_alloc (5 + username_len + value_len + 1) w) (\<lambda>(request, w).
      bind_res (deref request) (\<lambda>request.
      bind_res (store_at request 0 0x02) (\<lambda>request.
      bind_res (store_at request 1 0x00) (\<lambda>request.
      bind_res (store_at request 2 (of_nat username_len)) (\<lambda>request.
      bind_res (store_range request 3 (username @ [0])) (\<lambda>request.
      bind_res (store_at request (3 + username_len) attribute) (\<lambda>request.
      bind_res (store_at request (4 + username_len) (of_nat value_len)) (\<lambda>request.
      bind_res (store_range request (5 + username_len) (val @ [0])) (\<lambda>request.
      bind_res (load_range request 0 (username_len + value_len + 6)) (\<lambda>out.
      c_send fd out w)))))))))))))"

text \<open>The result of \<open>recv\<close> goes through \<open>uint8_t\<close>: -1 becomes 255. The array keeps what it held.\<close>

definition receive_edit_reply :: "int \<Rightarrow> cworld \<Rightarrow> (u8 \<times> u8 \<times> cworld) result" where
  "receive_edit_reply fd w =
     bind_res (c_array 1 w) (\<lambda>(reply, w).
     bind_res (c_recv fd reply 1 w) (\<lambda>(rcv_bytes, reply, w).
     bind_res (load_at reply 0) (\<lambda>status.
     Inr (of_int rcv_bytes, status, w))))"

definition send_receive_edit ::
  "int \<Rightarrow> u8 list \<Rightarrow> u8 \<Rightarrow> u8 list \<Rightarrow> cworld \<Rightarrow> (int \<times> cworld) result" where
  "send_receive_edit fd username attribute val w =
     bind_res (send_edit_request fd username attribute val w) (\<lambda>(sent_bytes, w).
     bind_res (if sent_bytes \<le> 0 then error_quit fd (chars ''EDIT: Error in sending the request'') w
               else Inr w) (\<lambda>w.
     bind_res (receive_edit_reply fd w) (\<lambda>(rcv_bytes, status, w).
     bind_res (if uint rcv_bytes \<le> 0 then error_quit fd (chars ''EDIT: Server error'') w else Inr w) (\<lambda>w.
     bind_res (print_edit_response status w) (\<lambda>w.
     Inr (if status \<noteq> 0 then -1 else 0, w))))))"

definition edit :: "int \<Rightarrow> u8 list \<Rightarrow> u8 list \<Rightarrow> u8 \<Rightarrow> string \<Rightarrow> cworld \<Rightarrow> cworld result" where
  "edit fd username new_field command msg w =
     bind_res (send_receive_edit fd username command new_field w) (\<lambda>(num, w).
     Inr (if num = 0 then c_print (chars msg @ chars '': '' @ new_field @ NL) w else w))"

definition cl_edit_username :: "int \<Rightarrow> u8 list \<Rightarrow> u8 list \<Rightarrow> cworld \<Rightarrow> cworld result" where
  "cl_edit_username fd username new_username w =
     edit fd username new_username 0x00 ''Username changed to'' w"

definition cl_edit_password :: "int \<Rightarrow> u8 list \<Rightarrow> u8 list \<Rightarrow> cworld \<Rightarrow> cworld result" where
  "cl_edit_password fd username new_password w =
     edit fd username new_password 0x01 ''Password changed to'' w"

section \<open>CONFIGBUFFSIZE\<close>

definition send_configbuffsize_request :: "int \<Rightarrow> u32 \<Rightarrow> cworld \<Rightarrow> (int \<times> cworld) result" where
  "send_configbuffsize_request fd sz w =
     c_send fd [0x03, ucast (drop_bit 24 sz AND 0xFF), ucast (drop_bit 16 sz AND 0xFF),
       ucast (drop_bit 8 sz AND 0xFF), ucast (sz AND 0xFF)] w"

definition receive_configbuffsize_reply :: "int \<Rightarrow> cworld \<Rightarrow> (u8 \<times> u8 \<times> cworld) result" where
  "receive_configbuffsize_reply fd w =
     bind_res (c_array 1 w) (\<lambda>(reply, w).
     bind_res (c_recv fd reply 1 w) (\<lambda>(rcv_bytes, reply, w).
     bind_res (load_at reply 0) (\<lambda>status.
     Inr (of_int rcv_bytes, status, w))))"

definition send_receive_configbuffsize :: "int \<Rightarrow> u32 \<Rightarrow> cworld \<Rightarrow> cworld result" where
  "send_receive_configbuffsize fd sz w =
     bind_res (send_configbuffsize_request fd sz w) (\<lambda>(sent_bytes, w).
     if sent_bytes \<le> 0 then Inl FatalExit
     else
       bind_res (receive_configbuffsize_reply fd w) (\<lambda>(recv_bytes, status, w).
       bind_res (if uint recv_bytes \<le> 0 then error_quit fd (chars ''CONFIGBUFFSIZE: Server error'') w
                 else Inr w) (\<lambda>w.
       print_configbuffsize_response status w)))"

definition set_buffer_size :: "int \<Rightarrow> u32 \<Rightarrow> cworld \<Rightarrow> cworld result" where
  "set_buffer_size fd sz w =
     bind_res (send_receive_configbuffsize fd sz w) (\<lambda>w.
     Inr (c_print (chars ''New buffer size set to: '' @ int_text (sint sz) @ NL) w))"

section \<open>CONFIGSTATUS\<close>

definition send_configstatus_request :: "int \<Rightarrow> u8 \<Rightarrow> u8 \<Rightarrow> cworld \<Rightarrow> (int \<times> cworld) result" where
  "send_configstatus_request fd field status w = c_send fd [0x04, field, status] w"

definition receive_configstatus_reply :: "int \<Rightarrow> cworld \<Rightarrow> (u8 \<times> u8 \<times> cworld) result" where
  "receive_configstatus_reply fd w =
     bind_res (c_array 1 w) (\<lambda>(reply, w).
     bind_res (c_recv fd reply 1 w) (\<lambda>(rcv_bytes, reply, w).
     bind_res (load_at reply 0) (\<lambda>status.
     Inr (of_int rcv_bytes, status, w))))"

text \<open>What is printed is the status that was asked for, not the one of the reply.\<close>

definition send_receive_configstatus :: "int \<Rightarrow> u8 \<Rightarrow> u8 \<Rightarrow> cworld \<Rightarrow> cworld result" where
  "send_receive_configstatus fd field status w =
     bind_res (send_configstatus_request fd field status w) (\<lambda>(sent_bytes, w).
     if sent_bytes \<le> 0 then Inl FatalExit
     else
       bind_res (receive_configstatus_reply fd w) (\<lambda>(recv_bytes, reply_status, w).
       bind_res (if uint recv_bytes \<le> 0 then error_quit fd (chars ''CONFIGSTATUS: Server error'') w
                 else Inr w) (\<lambda>w.
       print_configstatus_response status w)))"

definition config_status :: "int \<Rightarrow> u8 \<Rightarrow> u8 \<Rightarrow> string \<Rightarrow> cworld \<Rightarrow> cworld result" where
  "config_status fd status command msg w =
     bind_res (send_receive_configstatus fd command status w) (\<lambda>w.
     Inr (c_print (chars msg @ chars '': '' @ chars (if status = 0 then ''on'' else ''off'') @ NL) w))"

definition config_auth :: "int \<Rightarrow> u8 \<Rightarrow> cworld \<Rightarrow> cworld result" where
  "config_auth fd status w = config_status fd status 0x03 ''Auth status changed to'' w"

definition config_spoof :: "int \<Rightarrow> u8 \<Rightarrow> cworld \<Rightarrow> cworld result" where
  "config_spoof fd status w = config_status fd status 0x04 ''Spoof status changed to'' w"

section \<open>DELETE\<close>

definition send_delete_request :: "int \<Rightarrow> u8 list \<Rightarrow> cworld \<Rightarrow> (u8 \<times> cworld) result" where
  "send_delete_request fd username w =
     (let username_len = length username in
      bind_res (if username_len > 10 then error_quit fd (chars ''DELETE: Username too long (max 10).'') w
                else Inr w) (\<lambda>w.
      bind_res (c_alloc (3 + username_len + 1) w) (\<lambda>(request, w).
      bind_res (deref request) (\<lambda>request.
      bind_res (store_at request 0 0x05) (\<lambda>request.
      bind_res (store_at request 1 0x00) (\<lambda>request.
      bind_res (store_at request 2 (of_nat username_len)) (\<lambda>request.
      bind_res (store_range request 3 (username @ [0])) (\<lambda>request.
      bind_res (load_range request 0 (username_len + 3)) (\<lambda>out.
      bind_res (c_send fd out w) (\<lambda>(sent_bytes, w).
      Inr (of_int sent_bytes, w)))))))))))"

definition receive_delete_reply :: "int \<Rightarrow> cworld \<Rightarrow> (u8 \<times> u8 \<times> cworld) result" where
  "receive_delete_reply fd w =
     bind_res (c_array 1 w) (\<lambda>(reply, w).
     bind_res (c_recv fd reply 1 w) (\<lambda>(rcv_bytes, reply, w).
     bind_res (load_at reply 0) (\<lambda>status.
     Inr (of_int rcv_bytes, status, w))))"

definition send_receive_delete :: "int \<Rightarrow> u8 list \<Rightarrow> cworld \<Rightarrow> cworld result" where
  "send_receive_delete fd username w =
     bind_res (send_delete_request fd username w) (\<lambda>(sent_bytes, w).
     if uint sent_bytes \<le> 0 then Inl FatalExit
     else
       bind_res (receive_delete_reply fd w) (\<lambda>(recv_bytes, status, w).
       bind_res (if uint recv_bytes \<le> 0 then error_quit fd (chars ''DELETE: Server error'') w
                 else Inr w) (\<lambda>w.
       print_delete_response status w)))"

definition cl_delete_user :: "int \<Rightarrow> u8 list \<Rightarrow> cworld \<Rightarrow> cworld result" where
  "cl_delete_user fd username w =
     send_receive_delete fd username (c_print (chars ''DELETE USER ACTION REQUESTED'' @ NL) w)"

section \<open>The commands of the line\<close>

fun hash_get_loop :: "u8 list \<Rightarrow> nat \<Rightarrow> nat \<Rightarrow> int" where
  "hash_get_loop opt i 0 = -1"
| "hash_get_loop opt i (Suc n) =
     (if opt = chars (get_cmds ! i) then int i else hash_get_loop opt (Suc i) n)"

definition hash_get :: "u8 list \<Rightarrow> int" where
  "hash_get opt = hash_get_loop opt 0 GETOPTSIZE"

definition run_get :: "int \<Rightarrow> int \<Rightarrow> cworld \<Rightarrow> cworld result" where
  "run_get fd n w =
     (if n = 0 then cl_get_users fd w
      else if n = 1 then cl_get_passwords fd w
      else if n = 2 then get_buffer_size fd w
      else if n = 3 then cl_get_auth_status fd w
      else if n = 4 then get_spoof_status fd w
      else if n = 5 then cl_get_sent_bytes fd w
      else if n = 6 then cl_get_received_bytes fd w
      else if n = 7 then get_historical_connections fd w
      else if n = 8 then get_concurrent_conections fd w
      else error_quit fd (chars ''GET: Invalid command'') w)"

definition run_toggle :: "int \<Rightarrow> manage_args \<Rightarrow> cworld \<Rightarrow> cworld result" where
  "run_toggle fd args w =
     bind_res (deref (ma_toggle_option args)) (\<lambda>option.
     if option = chars ''auth'' then
       bind_res (deref (ma_toggle_status args)) (\<lambda>status.
       if status = chars ''on'' then config_auth fd 0x00 w
       else if status = chars ''off'' then config_auth fd 0x01 w
       else error_quit fd (chars ''CONFIGSTATUS: Invalid auth status'') w)
     else if option = chars ''spoof'' then
       bind_res (deref (ma_toggle_status args)) (\<lambda>status.
       if status = chars ''on'' then config_spoof fd 0x00 w
       else if status = chars ''off'' then config_spoof fd 0x01 w
       else error_quit fd (chars ''CONFIGSTATUS: Invalid spoofing status'') w)
     else error_quit fd (chars ''CONFIGSTATUS: Invalid toggle option (only auth and spoof)'') w)"

definition execute_commands :: "int \<Rightarrow> manage_args \<Rightarrow> cworld \<Rightarrow> cworld result" where
  "execute_commands fd args w =
     bind_res
       (case (ma_add_flag args, ma_add_username args, ma_add_password args) of
          (True, Some u, Some p) \<Rightarrow> cl_add_user fd u p w
        | _ \<Rightarrow> Inr w) (\<lambda>w.
     bind_res
       (if ma_set_flag args then
          bind_res (c_log INFO (chars ''set buff size'') w) (set_buffer_size fd (ma_set_size args))
        else Inr w) (\<lambda>w.
     bind_res
       (case (ma_delete_flag args, ma_delete_username args) of
          (True, Some u) \<Rightarrow> cl_delete_user fd u w
        | _ \<Rightarrow> Inr w) (\<lambda>w.
     bind_res
       (case (ma_edit_flag args, ma_edit_username args, ma_edit_value args) of
          (True, Some u, Some v) \<Rightarrow>
            if ma_edit_attribute args = 0 then cl_edit_username fd u v w
            else if ma_edit_attribute args = 1 then cl_edit_password fd u v w
            else error_quit fd (chars ''EDIT: Invalid attribute'') w
        | _ \<Rightarrow> Inr w) (\<lambda>w.
     bind_res (if ma_toggle_flag args then run_toggle fd args w else Inr w) (\<lambda>w.
     if ma_get_flag args then
       bind_res (deref (ma_get_option args)) (\<lambda>option. run_get fd (hash_get option) w)
     else Inr w)))))"

section \<open>The program\<close>

text \<open>The address structures are not cleared: the bytes that are not stored are the stack's.\<close>

definition connect_ipv4 :: "pton \<Rightarrow> manage_args \<Rightarrow> cworld \<Rightarrow> (int \<times> cworld) result" where
  "connect_ipv4 inet_pton args w =
     bind_res (c_answer w) (\<lambda>(x, w).
     case x of
       NewSocket fd \<Rightarrow>
         bind_res (c_array 16 w) (\<lambda>(addr, w).
         bind_res (store_range addr 2 (htons_bytes (ma_mng_port args))) (\<lambda>addr.
         bind_res (store_range addr 0 AF_INET_bytes) (\<lambda>addr.
         bind_res (case inet_pton AF_INET (ma_mng_addr args) of None \<Rightarrow> Inr addr
                   | Some bs \<Rightarrow> store_range addr 4 bs) (\<lambda>addr.
         bind_res (c_answer (c_emit (Connecting fd addr) w)) (\<lambda>(x, w).
         case x of
           ConnectDone \<Rightarrow> Inr (fd, w)
         | ConnectFails _ \<Rightarrow> Inr (-1, w)
         | _ \<Rightarrow> Inl NoAnswer)))))
     | OpenFails \<Rightarrow> Inr (-1, w)
     | _ \<Rightarrow> Inl NoAnswer)"

definition connect_ipv6 :: "pton \<Rightarrow> manage_args \<Rightarrow> cworld \<Rightarrow> (int \<times> cworld) result" where
  "connect_ipv6 inet_pton args w =
     bind_res (c_answer w) (\<lambda>(x, w).
     case x of
       NewSocket fd \<Rightarrow>
         bind_res (c_array 28 w) (\<lambda>(addr, w).
         bind_res (store_range addr 2 (htons_bytes (ma_mng_port args))) (\<lambda>addr.
         bind_res (store_range addr 0 AF_INET6_bytes) (\<lambda>addr.
         bind_res (case inet_pton AF_INET6 (ma_mng_addr args) of None \<Rightarrow> Inr addr
                   | Some bs \<Rightarrow> store_range addr 8 bs) (\<lambda>addr.
         bind_res (c_answer (c_emit (Connecting fd addr) w)) (\<lambda>(x, w).
         case x of
           ConnectDone \<Rightarrow> Inr (fd, w)
         | ConnectFails _ \<Rightarrow> Inr (-1, w)
         | _ \<Rightarrow> Inl NoAnswer)))))
     | OpenFails \<Rightarrow> Inr (-1, w)
     | _ \<Rightarrow> Inl NoAnswer)"

definition client_main :: "pton \<Rightarrow> u8 list \<Rightarrow> opt list \<Rightarrow> cworld \<Rightarrow> cworld result" where
  "client_main inet_pton command opts w =
     bind_res (parse_args_handler command opts (cw_log w)) (\<lambda>(args, l).
     let w = w\<lparr>cw_log := l\<rparr>; args = args\<lparr>ma_authorized := False\<rparr> in
     bind_res
       (if inet_pton AF_INET (ma_mng_addr args) \<noteq> None then connect_ipv4 inet_pton args w
        else if inet_pton AF_INET6 (ma_mng_addr args) \<noteq> None then connect_ipv6 inet_pton args w
        else bind_res (c_log FATAL (chars ''Invalid IP address provided.'') w) (\<lambda>w. Inr (-1, w)))
       (\<lambda>(fd, w).
     bind_res (if fd = -1 then c_log FATAL (chars ''Connection failed.'') w else Inr w) (\<lambda>w.
     bind_res (if ma_try_password args = None then
                 c_log FATAL (chars ''Authentication required'') (c_emit (Closed_fd fd) w)
               else Inr w) (\<lambda>w.
     bind_res (login fd args w) (\<lambda>(args, w).
     bind_res (if \<not> ma_authorized args then
                 c_log FATAL (chars ''Authentication failed'') (c_emit (Closed_fd fd) w)
               else Inr w) (\<lambda>w.
     bind_res (execute_commands fd args w) (\<lambda>w.
     Inr (c_emit (Closed_fd fd) w))))))))"

text \<open>The handler of the client's signals; nothing reads \<open>done\<close>.\<close>

definition client_sigterm_handler :: "nat \<Rightarrow> bool \<times> logger \<Rightarrow> bool \<times> logger" where
  "client_sigterm_handler sig d =
     (True, put_text (chars ''signal '' @ digits 10 sig @ chars '', cleaning up and exiting'' @ NL) (snd d))"

end
