(* ===== verification/ClientServer.thy ===== *)
theory ClientServer
  imports Client MngRequests
begin

text \<open>
  The client and the server together: what the requests of the client are for the parsers and
  handlers of the server, and what the replies of the server are for the client.
\<close>

section \<open>Stores one after the other\<close>

lemma store_at_append: "length xs = i \<Longrightarrow> store_at (xs @ y # ys) i v = Inr (xs @ v # ys)"
  by (simp add: store_at_def list_update_append)

lemma store_range_append:
  "length xs = i \<Longrightarrow> length vs \<le> length ys \<Longrightarrow>
   store_range (xs @ ys) i vs = Inr (xs @ vs @ drop (length vs) ys)"
  by (simp add: store_range_def)

lemma load_range_append: "length xs = n \<Longrightarrow> load_range (xs @ ys) 0 n = Inr xs"
  by (simp add: load_range_def)

lemma split_at:
  assumes "n \<le> length ys"
  obtains xs zs where "ys = xs @ zs" "length xs = n"
  using assms by (metis append_take_drop_id length_take min.absorb2)

text \<open>
  Three bytes, a string, its zero byte overwritten by what follows, a second string: the requests that
  carry names are built in this way.
\<close>

lemma three_bytes:
  assumes "3 \<le> length mem"
  obtains r where
    "bind_res (store_at mem 0 x) (\<lambda>m. bind_res (store_at m 1 y) (\<lambda>m. bind_res (store_at m 2 z) k)) =
      k ([x, y, z] @ r)" "length r = length mem - 3"
proof -
  obtain a b c r where mem: "mem = a # b # c # r"
    using assms by (metis Suc_le_length_iff numeral_3_eq_3)
  show ?thesis
    by (rule that [of r]) (simp_all add: mem store_at_def)
qed

text \<open>\<open>hdr\<close> bytes are in place; the string goes behind them.\<close>

lemma put_string:
  assumes "length hdr = n" and "length s < length r"
  obtains r1 where "store_range (hdr @ r) n (s @ [0]) = Inr ((hdr @ s) @ 0 # r1)"
    "length r1 = length r - Suc (length s)"
  by (rule that [of "drop (Suc (length s)) r"]) (use assms in \<open>simp_all add: store_range_append\<close>)

section \<open>The calls of the client when they succeed\<close>

lemma c_send_all:
  "cw_answers w = SentBytes (length bs) # xs \<Longrightarrow>
   c_send fd bs w = Inr (int (length bs), w\<lparr>cw_answers := xs, cw_events := cw_events w @ [SentTo fd bs]\<rparr>)"
  by (simp add: c_send_def c_answer_def c_emit_def)

lemma c_array_ok:
  "cw_answers w = Bytes bs # xs \<Longrightarrow> length bs = n \<Longrightarrow> c_array n w = Inr (bs, w\<lparr>cw_answers := xs\<rparr>)"
  by (simp add: c_array_def c_answer_def)

lemma c_alloc_ok:
  "cw_answers w = Bytes bs # xs \<Longrightarrow> length bs = n \<Longrightarrow> c_alloc n w = Inr (Some bs, w\<lparr>cw_answers := xs\<rparr>)"
  by (simp add: c_alloc_def c_answer_def)

lemma c_recv_one:
  "cw_answers w = RecvBytes [c] # xs \<Longrightarrow> length a = 1 \<Longrightarrow> c_recv fd a 1 w = Inr (1, [c], w\<lparr>cw_answers := xs\<rparr>)"
  by (simp add: c_recv_def c_answer_def store_range_def)

lemma c_recv_fails:
  "cw_answers w = RecvFails # xs \<Longrightarrow> c_recv fd a n w = Inr (-1, a, w\<lparr>cw_answers := xs\<rparr>)"
  by (simp add: c_recv_def c_answer_def)

section \<open>The requests\<close>

lemma send_put_ok:
  assumes len: "length u \<le> 10" "length v \<le> 10"
    and ans: "cw_answers w = Bytes mem # SentBytes (length u + length v + 4) # xs"
    and mem: "length mem = 11 + length u + length v"
  shows "send_put_request fd u v w = Inr (int (length u + length v + 4),
    w\<lparr>cw_answers := xs, cw_events := cw_events w @ [SentTo fd (put_message u v)]\<rparr>)"
proof -
  define k where "k = (\<lambda>request.
      bind_res (store_range request 3 (u @ [0])) (\<lambda>request.
      bind_res (store_at request (3 + length u) (of_nat (length v))) (\<lambda>request.
      bind_res (store_range request (4 + length u) (v @ [0])) (\<lambda>request.
      bind_res (load_range request 0 (length u + length v + 4)) (\<lambda>out.
      c_send fd out (w\<lparr>cw_answers := SentBytes (length u + length v + 4) # xs\<rparr>))))))"
  obtain r where r: "bind_res (store_at mem 0 0x01) (\<lambda>m. bind_res (store_at m 1 0x00)
      (\<lambda>m. bind_res (store_at m 2 (of_nat (length u))) k)) = k ([0x01, 0x00, of_nat (length u)] @ r)"
      "length r = 8 + length u + length v"
    by (rule three_bytes [of mem "0x01" "0x00" "of_nat (length u)" k]) (use mem in auto)
  let ?h = "[0x01, 0x00, of_nat (length u)]"
  obtain r1 where r1: "store_range (?h @ r) 3 (u @ [0]) = Inr ((?h @ u) @ 0 # r1)" "length r1 = 7 + length v"
    by (rule put_string [of ?h 3 u r]) (use r(2) in auto)
  have s: "store_at ((?h @ u) @ 0 # r1) (3 + length u) (of_nat (length v)) =
      Inr ((?h @ u) @ of_nat (length v) # r1)"
    by (rule store_at_append) simp
  let ?h2 = "?h @ u @ [of_nat (length v)]"
  obtain r2 where r2: "store_range (?h2 @ r1) (4 + length u) (v @ [0]) = Inr ((?h2 @ v) @ 0 # r2)"
    by (rule put_string [of ?h2 "4 + length u" v r1]) (use r1(2) in auto)
  have "load_range ((?h2 @ v) @ 0 # r2) 0 (length u + length v + 4) = Inr (put_message u v)"
    using load_range_append [of "?h2 @ v" "length u + length v + 4" "0 # r2"]
    by (simp add: put_message_def)
  then have "k (?h @ r) = Inr (int (length u + length v + 4),
      w\<lparr>cw_answers := xs, cw_events := cw_events w @ [SentTo fd (put_message u v)]\<rparr>)"
    using r1(1) s r2 c_send_all [of "w\<lparr>cw_answers := SentBytes (length u + length v + 4) # xs\<rparr>"
        "put_message u v" xs fd]
    by (simp add: k_def put_message_def)
  moreover have "c_alloc (2 + 2 * 4 + length u + length v + 1) w =
      Inr (Some mem, w\<lparr>cw_answers := SentBytes (length u + length v + 4) # xs\<rparr>)"
    by (rule c_alloc_ok [OF ans]) (simp add: mem)
  ultimately show ?thesis
    using len r(1) unfolding send_put_request_def Let_def by (simp add: k_def)
qed

lemma send_edit_ok:
  assumes len: "length u \<le> 10" "length v \<le> 10"
    and ans: "cw_answers w = Bytes mem # SentBytes (length u + length v + 6) # xs"
    and mem: "length mem = 6 + length u + length v"
  shows "send_edit_request fd u (attribute_code t) v w = Inr (int (length u + length v + 6),
    w\<lparr>cw_answers := xs, cw_events := cw_events w @ [SentTo fd (edit_message u t v @ [0])]\<rparr>)"
proof -
  let ?a = "attribute_code t" and ?w = "w\<lparr>cw_answers := SentBytes (length u + length v + 6) # xs\<rparr>"
  define k where "k = (\<lambda>request.
      bind_res (store_range request 3 (u @ [0])) (\<lambda>request.
      bind_res (store_at request (3 + length u) ?a) (\<lambda>request.
      bind_res (store_at request (4 + length u) (of_nat (length v))) (\<lambda>request.
      bind_res (store_range request (5 + length u) (v @ [0])) (\<lambda>request.
      bind_res (load_range request 0 (length u + length v + 6)) (\<lambda>out. c_send fd out ?w))))))"
  let ?h = "[0x02, 0x00, of_nat (length u)]"
  obtain r where r: "bind_res (store_at mem 0 0x02) (\<lambda>m. bind_res (store_at m 1 0x00)
      (\<lambda>m. bind_res (store_at m 2 (of_nat (length u))) k)) = k (?h @ r)"
      "length r = 3 + length u + length v"
    by (rule three_bytes [of mem "0x02" "0x00" "of_nat (length u)" k]) (use mem in auto)
  obtain r1 where r1: "store_range (?h @ r) 3 (u @ [0]) = Inr ((?h @ u) @ 0 # r1)" "length r1 = 2 + length v"
    by (rule put_string [of ?h 3 u r]) (use r(2) in auto)
  then obtain x r3 where r3: "r1 = x # r3" "length r3 = 1 + length v"
    by (cases r1) auto
  have s: "store_at ((?h @ u) @ 0 # r1) (3 + length u) ?a = Inr ((?h @ u @ [?a]) @ x # r3)"
    using store_at_append [of "?h @ u" "3 + length u" 0 r1 ?a] r3 by simp
  let ?h2 = "?h @ u @ [?a, of_nat (length v)]"
  have s2: "store_at ((?h @ u @ [?a]) @ x # r3) (4 + length u) (of_nat (length v)) = Inr (?h2 @ r3)"
    using store_at_append [of "?h @ u @ [?a]" "4 + length u" x r3 "of_nat (length v)"] by simp
  obtain r2 where r2: "store_range (?h2 @ r3) (5 + length u) (v @ [0]) = Inr ((?h2 @ v) @ 0 # r2)"
    by (rule put_string [of ?h2 "5 + length u" v r3]) (use r3(2) in auto)
  have "load_range ((?h2 @ v) @ 0 # r2) 0 (length u + length v + 6) = Inr (edit_message u t v @ [0])"
    using load_range_append [of "?h2 @ v @ [0]" "length u + length v + 6" r2]
    by (simp add: edit_message_def)
  then have "k (?h @ r) = Inr (int (length u + length v + 6),
      w\<lparr>cw_answers := xs, cw_events := cw_events w @ [SentTo fd (edit_message u t v @ [0])]\<rparr>)"
    using r1(1) s s2 r2 c_send_all [of ?w "edit_message u t v @ [0]" xs fd]
    by (simp add: k_def edit_message_def)
  moreover have "c_alloc (5 + length u + length v + 1) w = Inr (Some mem, ?w)"
    by (rule c_alloc_ok [OF ans]) (simp add: mem)
  ultimately show ?thesis
    using len r(1) unfolding send_edit_request_def Let_def by (simp add: k_def)
qed

lemma send_delete_ok:
  assumes len: "length u \<le> 10" and ans: "cw_answers w = Bytes mem # SentBytes (length u + 3) # xs"
    and mem: "length mem = 4 + length u"
  shows "send_delete_request fd u w = Inr (of_nat (length u + 3),
    w\<lparr>cw_answers := xs, cw_events := cw_events w @ [SentTo fd (delete_message u)]\<rparr>)"
proof -
  let ?w = "w\<lparr>cw_answers := SentBytes (length u + 3) # xs\<rparr>"
  define k where "k = (\<lambda>request.
      bind_res (store_range request 3 (u @ [0])) (\<lambda>request.
      bind_res (load_range request 0 (length u + 3)) (\<lambda>out.
      bind_res (c_send fd out ?w) (\<lambda>(n, w). Inr (of_int n :: u8, w)))))"
  let ?h = "[0x05, 0x00, of_nat (length u)]"
  obtain r where r: "bind_res (store_at mem 0 0x05) (\<lambda>m. bind_res (store_at m 1 0x00)
      (\<lambda>m. bind_res (store_at m 2 (of_nat (length u))) k)) = k (?h @ r)" "length r = 1 + length u"
    by (rule three_bytes [of mem "0x05" "0x00" "of_nat (length u)" k]) (use mem in auto)
  obtain r1 where r1: "store_range (?h @ r) 3 (u @ [0]) = Inr ((?h @ u) @ 0 # r1)"
    by (rule put_string [of ?h 3 u r]) (use r(2) in auto)
  have "load_range ((?h @ u) @ 0 # r1) 0 (length u + 3) = Inr (delete_message u)"
    using load_range_append [of "?h @ u" "length u + 3" "0 # r1"] by (simp add: delete_message_def)
  then have "k (?h @ r) = Inr (of_nat (length u + 3),
      w\<lparr>cw_answers := xs, cw_events := cw_events w @ [SentTo fd (delete_message u)]\<rparr>)"
    using r1(1) c_send_all [of ?w "delete_message u" xs fd] by (simp add: k_def delete_message_def)
  moreover have "c_alloc (3 + length u + 1) w = Inr (Some mem, ?w)"
    by (rule c_alloc_ok [OF ans]) (simp add: mem)
  ultimately show ?thesis
    using len r(1) unfolding send_delete_request_def Let_def by (simp add: k_def)
qed

text \<open>What \<open>login\<close> sends when there is memory and the socket takes everything.\<close>

definition login_out :: "u8 list \<Rightarrow> u8 \<Rightarrow> u8 list" where
  "login_out t x = connect_message t @ [0, x]"

lemma login_ok:
  assumes len: "length t \<le> 255"
    and ans: "cw_answers w = Bytes mem # SentBytes (length t + 4) # Bytes res # RecvBytes [r] # xs"
    and mem: "length mem = length t + 4" "length res = 1" and pw: "ma_try_password args = Some t"
  obtains w1 where "login fd args w = Inr (if r = 0 then args\<lparr>ma_authorized := True\<rparr> else args, w1)"
    "cw_events w1 = cw_events w @ [SentTo fd (login_out t (last mem))]" "cw_answers w1 = xs"
proof -
  let ?w = "w\<lparr>cw_answers := SentBytes (length t + 4) # Bytes res # RecvBytes [r] # xs\<rparr>"
  let ?h = "[0x00, of_nat (length t)]"
  obtain a b m where m: "mem = a # b # m" "length m = length t + 2"
    using mem(1) by (cases mem; cases "tl mem") auto
  obtain y z where z: "m = y @ [z]" "length y = length t + 1"
    using m(2) by (cases m rule: rev_cases) auto
  have hdr: "store_at mem 0 0x00 = Inr (0x00 # b # m)"
    "store_at (0x00 # b # m) 1 (of_nat (length t)) = Inr (?h @ m)"
    by (simp_all add: m store_at_def)
  have str: "store_range (?h @ m) 2 (t @ [0]) = Inr ((?h @ t @ [0, z]) @ [])"
    using store_range_append [of ?h 2 "t @ [0]" m] z m(2) by simp
  have z_last: "z = last mem"
    using m z by simp
  have out: "load_range ((?h @ t @ [0, z]) @ []) 0 (length t + 4) = Inr (login_out t (last mem))"
    using load_range_append [of "?h @ t @ [0, z]" "length t + 4" "[]"] z_last
    by (simp add: login_out_def connect_message_def)
  have sent: "c_send fd (login_out t (last mem)) ?w = Inr (int (length t + 4),
      w\<lparr>cw_answers := Bytes res # RecvBytes [r] # xs,
        cw_events := cw_events w @ [SentTo fd (login_out t (last mem))]\<rparr>)" (is "_ = Inr (_, ?w1)")
    using c_send_all [of ?w "login_out t (last mem)" "Bytes res # RecvBytes [r] # xs" fd]
    by (simp add: login_out_def connect_message_def)
  let ?p = "c_print (chars ''bytes sent: '' @ int_text (int (length t + 4)) @ NL) ?w1"
  have arr: "c_array 1 ?p = Inr (res, ?p\<lparr>cw_answers := RecvBytes [r] # xs\<rparr>)"
    by (rule c_array_ok) (simp_all add: c_print_def mem)
  have rec: "c_recv fd res 1 (?p\<lparr>cw_answers := RecvBytes [r] # xs\<rparr>) = Inr (1, [r], ?p\<lparr>cw_answers := xs\<rparr>)"
    using c_recv_one [of "?p\<lparr>cw_answers := RecvBytes [r] # xs\<rparr>" r xs res fd] mem(2) by simp
  have alloc: "c_alloc (2 + length t + 2) w = Inr (Some mem, ?w)"
    by (rule c_alloc_ok [OF ans]) (simp add: mem)
  have "\<exists>w1. login fd args w = Inr (if r = 0 then args\<lparr>ma_authorized := True\<rparr> else args, w1) \<and>
    cw_events w1 = cw_events w @ [SentTo fd (login_out t (last mem))] \<and> cw_answers w1 = xs"
    unfolding login_def Let_def pw deref_simps bind_res.simps
    by (simp only: alloc bind_res.simps deref_simps split_conv hdr str out sent arr rec)
      (use len in \<open>simp add: load_at_def CONN_STATUS_OK_def CONN_STATUS_ERROR_IN_VERSION_def
        CONN_STATUS_ERROR_IN_PASSLEN_def CONN_STATUS_ERROR_IN_PASS_def c_print_def\<close>)
  then show ?thesis using that by blast
qed

section \<open>The replies\<close>

lemma print_response_returns:
  assumes "sz \<le> length msgs"
  obtains w1 where "print_response tag tag2 msgs sz status w = Inr w1" "cw_answers w1 = cw_answers w"
    "cw_events w1 = cw_events w"
proof (cases "unat status < sz")
  case True
  with assms have "load_at msgs (unat status) = Inr (msgs ! unat status)"
    by (simp add: load_at_def)
  with True that show ?thesis
    by (force simp: print_response_def c_log_def log_print_def level_defs Let_def)
next
  case False
  with that show ?thesis by (force simp: print_response_def c_print_def)
qed

lemma put_reply_unread:
  assumes "length u \<le> 10" "length v \<le> 10" "length mem = 11 + length u + length v" "length b = 1"
    and "cw_answers w = Bytes mem # SentBytes (length u + length v + 4) # Bytes b # RecvBytes [status] # xs"
  shows "cl_add_user fd u v w = Inr (w\<lparr>cw_answers := xs,
    cw_events := cw_events w @ [SentTo fd (put_message u v)],
    cw_log := (cw_log w)\<lparr>lg_text := lg_text (cw_log w) @ chars ''ADD USER ACTION REQUESTED'' @ NL @
      (if lg_current_level (cw_log w) \<le> INFO then chars ''[INFO]: Response: [PUT] Success'' @ NL @ NL else [])\<rparr>\<rparr>)"
proof -
  let ?w = "c_print (chars ''ADD USER ACTION REQUESTED'' @ NL) w"
  have "cw_answers ?w = Bytes mem # SentBytes (length u + length v + 4) # Bytes b # RecvBytes [status] # xs"
    using assms(5) by (simp add: c_print_def)
  from send_put_ok [OF assms(1,2) this assms(3)] assms(4) show ?thesis
    by (simp add: cl_add_user_def send_receive_put_def receive_put_reply_def c_array_def c_answer_def c_recv_def
        store_range_def print_put_response_def print_response_def PUT_MSG_SIZE_def put_msg_def load_at_def c_log_def
        log_print_def level_defs levelDescription_def c_print_def put_text_def chars_def)
qed

lemma receive_get_ok:
  assumes ans: "cw_answers w = Bytes info # RecvBytes [0, n] # Bytes mem # RecvBytes (t @ [0]) # xs"
    and len: "length info = 2" "n = of_nat (Suc (length t))" "length mem = length t + 2" "length t < 255"
  shows "receive_get_request fd w = Inr (0, Some (t @ [0, 0]), w\<lparr>cw_answers := xs\<rparr>)"
proof -
  obtain i j where info: "info = [i, j]"
    using len(1) by (auto simp: length_Suc_conv eval_nat_numeral)
  have n: "unat n = Suc (length t)"
    using len(2,4) by (simp only: unat_of_nat_u8)
  obtain y z where mem: "mem = y @ [z]" "length y = length t + 1"
    using len(3) by (cases mem rule: rev_cases) auto
  have st: "store_range mem 0 (t @ [0]) = Inr (t @ [0, z])"
    using mem by (simp add: store_range_def)
  have s0: "store_at (t @ [0, z]) (Suc (length t)) 0 = Inr (t @ [0, 0])"
    using store_at_append [of "t @ [0]" "Suc (length t)" z "[]" 0] by simp
  show ?thesis
    using ans n len(3) st s0
    by (simp add: receive_get_request_def c_array_def c_alloc_def c_answer_def c_recv_def info store_range_def
        load_at_def STATUS_OK_def Let_def)
qed

lemma listing_nonzero: "0 \<notin> set (listing (accounts c))"
  by (auto simp: listing_def accounts_def account_def str_of_def dest: set_takeWhileD)

lemma get_users_shown:
  assumes "cw_answers w = SentBytes 2 # Bytes info # RecvBytes r1 # Bytes mem # RecvBytes r2 # xs"
    and "r1 @ r2 = [0, of_nat (Suc (length t))] @ t @ [0]" "length r1 = 2"
    and "length info = 2" "length mem = length r2 + 1" "length t < 255" "0 \<notin> set t"
  shows "cl_get_users fd w = Inr (w\<lparr>cw_answers := xs,
    cw_events := cw_events w @ [SentTo fd [0x00, 0x00]],
    cw_log := (cw_log w)\<lparr>lg_text := lg_text (cw_log w) @ chars ''USER LIST'' @ NL @ NL @ t @ NL\<rparr>\<rparr>)"
proof -
  have r: "r1 = [0, of_nat (Suc (length t))]" "r2 = t @ [0]"
    using assms(2,3) by (auto simp: length_Suc_conv eval_nat_numeral)
  let ?w = "w\<lparr>cw_answers := Bytes info # RecvBytes r1 # Bytes mem # RecvBytes r2 # xs,
    cw_events := cw_events w @ [SentTo fd [0x00, 0x00]]\<rparr>"
  have "receive_get_request fd ?w = Inr (0, Some (t @ [0, 0]), ?w\<lparr>cw_answers := xs\<rparr>)"
    by (rule receive_get_ok) (use assms r in simp_all)
  then show ?thesis
    using c_send_all [of w "[0x00, 0x00]" _ fd] assms(1,7)
    by (simp add: cl_get_users_def send_receive_get_def send_get_request_def STATUS_OK_def c_print_def put_text_def)
qed

section \<open>Properties\<close>

text \<open>C36. What the client sends to log in is the login message with two bytes more, the zero byte of
  the string and a byte that was never written: the server's parser accepts the token and leaves
  those two. The client is authorised exactly when the reply is 0.\<close>

theorem login_message:
  assumes "t \<noteq> []" and "length t < 255" and "0 \<notin> set t" and "ma_try_password args = Some t"
    and "cw_answers w = Bytes mem # SentBytes (length t + 4) # Bytes res # RecvBytes [r] # xs"
    and "length mem = length t + 4" and "length res = 1"
  shows "\<exists>w1 out q. login fd args w = Inr (if r = 0 then args\<lparr>ma_authorized := True\<rparr> else args, w1) \<and>
    cw_events w1 = cw_events w @ [SentTo fd out] \<and>
    parse_run admin_connect_parser_feed (\<lambda>p. connect_final (ac_state p)) (admin_connect_parser_init p) out =
      Inr (q, [0, last mem]) \<and>
    ac_state q = admin_connect_done \<and> holds_str (cw_passwd (ac_password q)) t"
proof -
  have len: "length t \<le> 255" "0 < length t"
    using assms(1,2) by simp_all
  obtain w1 where w1: "login fd args w = Inr (if r = 0 then args\<lparr>ma_authorized := True\<rparr> else args, w1)"
      "cw_events w1 = cw_events w @ [SentTo fd (login_out t (last mem))]"
    using login_ok [OF len(1) assms(5-7,4)] by blast
  have "holds_str (cw_passwd (ac_password (connect_accepted t))) t"
    using assms(3) by (auto simp: connect_accepted_def holds_str_def)
  then show ?thesis
    using w1 connect_run_message [OF len(2) assms(2), of p "[0, last mem]"]
    by (intro exI [of _ w1] exI [of _ "login_out t (last mem)"] exI [of _ "connect_accepted t"])
      (simp add: login_out_def connect_accepted_def)
qed

definition example_cworld :: "answer list \<Rightarrow> cworld" where
  "example_cworld answers = \<lparr>cw_answers = answers, cw_events = [], cw_log = logger_start\<rparr>"

theorem login_message_witness:
  "\<exists>w1 out q. login 3 (default_args\<lparr>ma_try_password := Some [97, 98]\<rparr>)
      (example_cworld [Bytes [7, 7, 7, 7, 7, 9], SentBytes 6, Bytes [5], RecvBytes [4]]) =
      Inr (default_args\<lparr>ma_try_password := Some [97, 98]\<rparr>, w1) \<and>
    cw_events w1 = [SentTo 3 out] \<and>
    parse_run admin_connect_parser_feed (\<lambda>p. connect_final (ac_state p))
      (admin_connect_parser_init blank_connect) out = Inr (q, [0, 9]) \<and>
    ac_state q = admin_connect_done \<and> holds_str (cw_passwd (ac_password q)) [97, 98]"
  using login_message [of "[97, 98]" "default_args\<lparr>ma_try_password := Some [97, 98]\<rparr>"
      "example_cworld [Bytes [7, 7, 7, 7, 7, 9], SentBytes 6, Bytes [5], RecvBytes [4]]"
      "[7, 7, 7, 7, 7, 9]" "[5]" 4 "[]" 3 blank_connect]
  by (simp add: example_cworld_def)

text \<open>C35. The client's requests are the messages that the server's parsers accept: the account to
  add and the name to delete arrive as they were typed; behind an edit one byte is left over, the
  zero byte of the new value, which the client sends too.\<close>

theorem client_requests_parse:
  assumes "u \<noteq> []" and "v \<noteq> []" and "length u \<le> 10" and "length v \<le> 10"
    and "cw_answers w1 = Bytes mem1 # SentBytes (length u + length v + 4) # xs1"
    and "length mem1 = 11 + length u + length v"
    and "cw_answers w2 = Bytes mem2 # SentBytes (length u + length v + 6) # xs2"
    and "length mem2 = 6 + length u + length v"
    and "cw_answers w3 = Bytes mem3 # SentBytes (length u + 3) # xs3" and "length mem3 = 4 + length u"
  shows "(\<exists>out n w'. send_put_request fd u v w1 = Inr (n, w') \<and>
      cw_events w' = cw_events w1 @ [SentTo fd out] \<and>
      parse_run admin_put_parser_feed (\<lambda>p. put_final (aput_state p)) (admin_put_parser_init blank_put) out =
        Inr (put_accepted blank_put u v, [])) \<and>
    (\<exists>out n w'. send_edit_request fd u (attribute_code t) v w2 = Inr (n, w') \<and>
      cw_events w' = cw_events w2 @ [SentTo fd out] \<and>
      parse_run admin_edit_parser_feed (\<lambda>p. edit_final (ae_state p)) (admin_edit_parser_init blank_edit) out =
        Inr (edit_accepted blank_edit u t v, [0])) \<and>
    (\<exists>out n w'. send_delete_request fd u w3 = Inr (n, w') \<and>
      cw_events w' = cw_events w3 @ [SentTo fd out] \<and>
      parse_run admin_delete_parser_feed (\<lambda>p. delete_final (adel_state p))
        (admin_delete_parser_init blank_delete) out = Inr (delete_accepted blank_delete u, []))"
proof -
  have len: "0 < length u" "length u < 255" "0 < length v" "length v < 255"
    using assms(1-4) by auto
  have blank: "length (ae_username blank_edit) = 255" "length (ae_value blank_edit) = 255"
      "length (adel_username blank_delete) = 255"
    by (simp_all add: blank_edit_def blank_delete_def)
  show ?thesis
    using send_put_ok [OF assms(3,4,5,6), of fd] put_run_message [OF len, where rest = "[]" and p = blank_put]
      send_edit_ok [OF assms(3,4,7,8), of fd t] edit_run_message [OF len blank(1,2), of t "[0]"]
      send_delete_ok [OF assms(3,9,10), of fd] delete_run_message [OF len(1,2) blank(3), of "[]"]
    by simp
qed

theorem client_requests_parse_witness:
  "(\<exists>out n w'. send_put_request 3 [99] [122, 122] (example_cworld [Bytes (replicate 14 7), SentBytes 7]) = Inr (n, w') \<and>
      cw_events w' = [SentTo 3 out] \<and>
      parse_run admin_put_parser_feed (\<lambda>p. put_final (aput_state p)) (admin_put_parser_init blank_put) out =
        Inr (put_accepted blank_put [99] [122, 122], [])) \<and>
    (\<exists>out n w'. send_edit_request 3 [99] (attribute_code attr_password) [122, 122]
        (example_cworld [Bytes (replicate 9 7), SentBytes 9]) = Inr (n, w') \<and>
      cw_events w' = [SentTo 3 out] \<and>
      parse_run admin_edit_parser_feed (\<lambda>p. edit_final (ae_state p)) (admin_edit_parser_init blank_edit) out =
        Inr (edit_accepted blank_edit [99] attr_password [122, 122], [0])) \<and>
    (\<exists>out n w'. send_delete_request 3 [99] (example_cworld [Bytes (replicate 5 7), SentBytes 4]) = Inr (n, w') \<and>
      cw_events w' = [SentTo 3 out] \<and>
      parse_run admin_delete_parser_feed (\<lambda>p. delete_final (adel_state p))
        (admin_delete_parser_init blank_delete) out = Inr (delete_accepted blank_delete [99], []))"
  using client_requests_parse [of "[99]" "[122, 122]" "example_cworld [Bytes (replicate 14 7), SentBytes 7]"
      "replicate 14 7" "[]" "example_cworld [Bytes (replicate 9 7), SentBytes 9]" "replicate 9 7" "[]"
      "example_cworld [Bytes (replicate 5 7), SentBytes 4]" "replicate 5 7" "[]" 3 attr_password]
  by (simp add: example_cworld_def)

text \<open>C12. Adding an account from end to end: what the client sends, delivered to a connection that
  waits for requests (the action byte is read on its own), adds the account behind the others with
  status 0, or is refused with status 5 when nine accounts exist. The client prints success in both
  cases: whatever the byte of the reply, the text is the same.\<close>

theorem add_user_end_to_end:
  assumes "u \<noteq> []" and "v \<noteq> []" and "0 \<notin> set u" and "0 \<notin> set v"
    and "length u < MAX_USERNAME_SIZE" and "length v < MAX_USERNAME_SIZE"
    and "cw_answers cw = Bytes mem # SentBytes (length u + length v + 4) # Bytes b # RecvBytes [status] # ys"
    and "length mem = 11 + length u + length v" and "length b = 1"
    and "at_request key a (s, w)" and "config_ok (w_config w)"
    and "w_answers w = RecvBytes (take 1 (put_message u v)) # RecvBytes (drop 1 (put_message u v)) # xs"
  shows "\<exists>cw' c'. cl_add_user fd u v cw = Inr cw' \<and>
    cw_events cw' = cw_events cw @ [SentTo fd (put_message u v)] \<and>
    lg_text (cw_log cw') = lg_text (cw_log cw) @ chars ''ADD USER ACTION REQUESTED'' @ NL @
      (if lg_current_level (cw_log cw) \<le> INFO then chars ''[INFO]: Response: [PUT] Success'' @ NL @ NL else []) \<and>
    answered key (s, w) a (if cf_users_size (w_config w) + 1 < MAX_SOCKS_USERS then 0 else 5) c' xs \<and>
    accounts c' = accounts (w_config w) @
      (if cf_users_size (w_config w) + 1 < MAX_SOCKS_USERS then [(u, v)] else [])"
proof -
  have len: "length u \<le> 10" "length v \<le> 10"
    using assms(5,6) by (simp_all add: MAX_USERNAME_SIZE_def)
  have hd: "take 1 (put_message u v) = [PUT]" "PUT # drop 1 (put_message u v) = put_message u v"
    by (simp_all add: put_message_def PUT_def)
  from assms(12) have "w_answers w = RecvBytes [PUT] # RecvBytes (drop 1 (put_message u v)) # xs"
    by (simp only: hd(1))
  from put_answered [OF assms(10) this hd(2) assms(1-6,11)]
    put_reply_unread [OF len assms(8,9,7), of fd]
  show ?thesis by auto
qed

theorem add_user_end_to_end_witness:
  "\<exists>cw' c'. cl_add_user 3 [99] [122] (example_cworld [Bytes (replicate 13 7), SentBytes 6, Bytes [7],
      RecvBytes [5]]) = Inr cw' \<and>
    cw_events cw' = [SentTo 3 [1, 0, 1, 99, 1, 122]] \<and>
    answered mng_key (requesting [RecvBytes [1], RecvBytes [0, 1, 99, 1, 122]]) 0 0 c' [] \<and>
    accounts c' = [([97], [120]), ([98], [121]), ([99], [122])]"
proof -
  let ?cw = "example_cworld [Bytes (replicate 13 7), SentBytes 6, Bytes [7], RecvBytes [5]]"
    and ?answers = "[RecvBytes [1], RecvBytes [0, 1, 99, 1, 122]]"
  show ?thesis
    using add_user_end_to_end [of "[99]" "[122]" ?cw "replicate 13 7" "[7]" 5 "[]" mng_key 0 mng_selector
        "snd (requesting ?answers)" "[]" 3] requesting_ok [of ?answers] requesting_simps [of ?answers]
      example_config_ok
    by (auto simp: put_message_def MAX_USERNAME_SIZE_def MAX_SOCKS_USERS_def example_cworld_def
        simp del: mng_deliver_all.simps)
qed

text \<open>C16. The list of accounts from end to end: the client shows the accounts of the server, each as
  its name, a space and its password on a line of its own, when the reply arrives whole, its two
  header bytes first.\<close>

theorem get_users_end_to_end:
  assumes "at_request key a (s, w)" and "w_answers w = RecvBytes [GET] # RecvBytes [0] # Bytes junk # xs"
    and "length junk = MAX_RES_SIZE" and "config_ok (w_config w)"
    and "mng_deliver_all [Mng_readable, Mng_readable] key (s, w) = Inr (s', w')" and "w_mngs w' a = Some m'"
    and "pending (mg_write_buffer m') = r1 @ r2" and "length r1 = 2"
    and "cw_answers cw = SentBytes 2 # Bytes info # RecvBytes r1 # Bytes mem # RecvBytes r2 # ys"
    and "length info = 2" and "length mem = length r2 + 1"
  shows "\<exists>cw'. cl_get_users fd cw = Inr cw' \<and> cw_events cw' = cw_events cw @ [SentTo fd [GET, 0]] \<and>
    lg_text (cw_log cw') = lg_text (cw_log cw) @ chars ''USER LIST'' @ NL @ NL @
      listing (accounts (w_config w)) @ NL"
proof -
  let ?l = "listing (accounts (w_config w))"
  have r: "r1 @ r2 = [0, of_nat (Suc (length ?l))] @ ?l @ [0]" "length ?l < 255"
    using get_users_answered [OF assms(1-4)] assms(5-7) by (auto simp: Let_def simp del: mng_deliver_all.simps)
  from get_users_shown [OF assms(9) r(1) assms(8,10,11) r(2) listing_nonzero, of fd] show ?thesis
    by (simp add: GET_def)
qed

theorem get_users_end_to_end_witness:
  "\<exists>cw'. cl_get_users 3 (example_cworld [SentBytes 2, Bytes [7, 7], RecvBytes [0, 9], Bytes (replicate 10 7),
      RecvBytes [97, 32, 120, 10, 98, 32, 121, 10, 0]]) = Inr cw' \<and> cw_events cw' = [SentTo 3 [GET, 0]] \<and>
    lg_text (cw_log cw') = chars ''USER LIST'' @ NL @ NL @ [97, 32, 120, 10, 98, 32, 121, 10] @ NL"
proof -
  let ?cw = "example_cworld [SentBytes 2, Bytes [7, 7], RecvBytes [0, 9], Bytes (replicate 10 7),
      RecvBytes [97, 32, 120, 10, 98, 32, 121, 10, 0]]"
    and ?answers = "[RecvBytes [GET], RecvBytes [0], Bytes (replicate 255 7)]"
  have req: "at_request mng_key 0 (mng_selector, snd (requesting ?answers))"
    using requesting_ok [of ?answers] requesting_simps(1) [of ?answers] by simp
  have conf: "w_config (snd (requesting ?answers)) = example_config"
    by (rule requesting_simps)
  obtain s' w' m' where run: "mng_deliver_all [Mng_readable, Mng_readable] mng_key
        (mng_selector, snd (requesting ?answers)) = Inr (s', w')" "w_mngs w' 0 = Some m'"
      "pending (mg_write_buffer m') = [0, 9] @ [97, 32, 120, 10, 98, 32, 121, 10, 0]"
    using get_users_answered [OF req, of "replicate 255 7" "[]"] requesting_simps(2) [of ?answers] conf
      example_config_ok(1,2)
    by (auto simp: Let_def listing_def MAX_RES_SIZE_def simp del: mng_deliver_all.simps)
  show ?thesis
    using get_users_end_to_end [OF req _ _ _ run, of "replicate 255 7" "[]" ?cw "[7, 7]" "replicate 10 7" "[]" 3]
      requesting_simps(2) [of ?answers] conf example_config_ok(1,2)
    by (simp add: listing_def MAX_RES_SIZE_def example_cworld_def logger_start_def)
qed

text \<open>C37. The buffer size from end to end: the number \<open>n\<close> of the client's option \<open>-b\<close>, from 1 to
  2147483647 and written in decimal, is the one that the server sets.\<close>

theorem buffer_size_end_to_end:
  assumes "0 < n" and "n < 2 ^ 31" and "cw_answers cw = SentBytes 5 # xs"
  shows "\<exists>m1 cw' out q. handle_opt command (CHR ''b'', Some (digits 10 n)) (m, l) = Inr (m1, l) \<and>
    send_configbuffsize_request fd (ma_set_size m1) cw = Inr (5, cw') \<and>
    cw_events cw' = cw_events cw @ [SentTo fd out] \<and>
    parse_run admin_configbuff_parser_feed (\<lambda>p. configbuff_final (ab_state p))
      (admin_configbuff_parser_init blank_configbuff) out = Inr (q, []) \<and>
    ab_state q = admin_configbuff_done \<and>
    set_buff_size c (ab_size q) = Inr (int n, c\<lparr>cf_socks_buffer_size := of_nat n\<rparr>)"
proof -
  let ?n = "of_nat n :: u32"
  let ?s = "[ucast (drop_bit 24 ?n), ucast (drop_bit 16 ?n), ucast (drop_bit 8 ?n), ucast ?n] :: u8 list"
  have "unat ?n = n"
    using assms(2) by (simp add: unat_of_nat)
  then have n: "?n \<noteq> 0" "sint ?n = int n"
    using assms(1,2) by (auto simp: signed_of_nat signed_take_bit_int_eq_self)
  have "send_configbuffsize_request fd ?n cw =
      Inr (5, cw\<lparr>cw_answers := xs, cw_events := cw_events cw @ [SentTo fd (0x03 # ?s)]\<rparr>)"
    using c_send_all [of cw "0x03 # ?s" xs fd] assms(3)
    by (simp add: send_configbuffsize_request_def ucast_and_FF)
  moreover have "length (ab_size blank_configbuff) = 4"
    by (simp add: blank_configbuff_def)
  ultimately show ?thesis
    using handle_opt_set [OF assms(2), of command m l] n configbuff_run_message [of blank_configbuff _ _ _ _ "[]"]
    by (simp add: be32_bytes set_buff_size_def four_bytes_to_num_def load_at_def)
qed

theorem buffer_size_end_to_end_witness:
  "\<exists>m1 cw' out q. handle_opt [] (CHR ''b'', Some (digits 10 70000)) (default_args, logger_start) =
      Inr (m1, logger_start) \<and>
    send_configbuffsize_request 3 (ma_set_size m1) (example_cworld [SentBytes 5]) = Inr (5, cw') \<and>
    cw_events cw' = [SentTo 3 out] \<and>
    parse_run admin_configbuff_parser_feed (\<lambda>p. configbuff_final (ab_state p))
      (admin_configbuff_parser_init blank_configbuff) out = Inr (q, []) \<and>
    ab_state q = admin_configbuff_done \<and>
    set_buff_size example_config (ab_size q) =
      Inr (70000, example_config\<lparr>cf_socks_buffer_size := of_nat 70000\<rparr>)"
  using buffer_size_end_to_end [of 70000 "example_cworld [SentBytes 5]" "[]" "[]" default_args logger_start 3
      example_config]
  by (simp add: example_cworld_def)

text \<open>A connection that breaks before the reply to an edit is not noticed: the -1 of \<open>recv\<close>
  becomes 255 on its way through \<open>uint8_t\<close>, the byte that the array on the stack happened to hold
  is taken for the status, and if it is 0 the client reports the change as made.\<close>

theorem edit_reply_lost:
  assumes "length u \<le> 10" and "length v \<le> 10"
    and "cw_answers w = Bytes mem # SentBytes (length u + length v + 6) # Bytes [x] # RecvFails # xs"
    and "length mem = 6 + length u + length v"
  shows "\<exists>w'. cl_edit_username fd u v w = Inr w' \<and> cw_answers w' = xs \<and>
    (x = 0 \<longrightarrow> (\<exists>t. lg_text (cw_log w') = t @ chars ''Username changed to: '' @ v @ NL))"
proof -
  let ?w = "w\<lparr>cw_answers := Bytes [x] # RecvFails # xs,
    cw_events := cw_events w @ [SentTo fd (edit_message u attr_username v @ [0])]\<rparr>"
  have sent: "send_edit_request fd u 0x00 v w = Inr (int (length u + length v + 6), ?w)"
    using send_edit_ok [OF assms, of fd attr_username] by simp
  have reply: "receive_edit_reply fd ?w = Inr (0xFF, x, ?w\<lparr>cw_answers := xs\<rparr>)"
    by (simp add: receive_edit_reply_def c_array_def c_answer_def c_recv_def load_at_def)
  obtain w1 where w1: "print_edit_response x (?w\<lparr>cw_answers := xs\<rparr>) = Inr w1" "cw_answers w1 = xs"
    using print_response_returns [of EDIT_MSG_SIZE edit_msg "''EDIT''" "''EDIT''" x "?w\<lparr>cw_answers := xs\<rparr>"]
    by (auto simp: print_edit_response_def EDIT_MSG_SIZE_def edit_msg_def)
  have "cl_edit_username fd u v w =
      Inr (if x = 0 then c_print (chars ''Username changed to'' @ chars '': '' @ v @ NL) w1 else w1)"
    using sent reply w1(1) by (simp add: cl_edit_username_def edit_def send_receive_edit_def)
  with w1(2) show ?thesis
    by (auto simp: c_print_def chars_def)
qed

theorem edit_reply_lost_witness:
  "\<exists>w'. cl_edit_username 3 [97] [98] (example_cworld [Bytes (replicate 8 7), SentBytes 8, Bytes [0], RecvFails]) =
      Inr w' \<and> (\<exists>t. lg_text (cw_log w') = t @ chars ''Username changed to: '' @ [98] @ NL)"
  using edit_reply_lost [of "[97]" "[98]"
      "example_cworld [Bytes (replicate 8 7), SentBytes 8, Bytes [0], RecvFails]" "replicate 8 7" 0 "[]" 3]
  by (auto simp: example_cworld_def)

end
