(* ===== verification/Spec2Isabelle.thy ===== *)
theory Spec2Isabelle
  imports
    Buffer ParserLoop HelloParser AuthParser RequestParser
    AdminConnect AdminGet AdminPut AdminEdit AdminDelete AdminConfigBuff AdminConfigStatus
    ServerConfig Stm Selector ListGeneric Pop3Sniffer World
    NetUtils Socks5Hello Socks5Auth Socks5Request Socks5Copy Socks5
    Mng MngHandler MngRequests Relay Handshake Connection CopyProgress Retries Dialling
    Isolation AdminIsolation Accepting WholeServer AdminConnection Logins Accounts
    CLibrary Logger ConnLogger SocketHelpers Args Server Rounds ClientArgs Client ClientServer
begin

text \<open>
  The SOCKS5 proxy of this repository and its management protocol, modelled from the C sources under
  \<^verbatim>\<open>src/src\<close>, \<^verbatim>\<open>src/include\<close> and \<^verbatim>\<open>src/management_protocol\<close>.

  \<^bold>\<open>The program.\<close> One thread waits in \<open>selector_select\<close> for descriptors that are ready. Each descriptor has a
  handler: two passive sockets for SOCKS clients, two for administrators, and the connections accepted
  from them. A SOCKS connection is an object \<open>struct socks5\<close> with a state machine (greeting, login,
  request, name resolution, connecting, reply, copying); an administrator's connection is an object
  \<open>struct mng\<close> with another (login with a token, action byte, six requests, reply). Both read their
  messages with byte-at-a-time parsers from a buffer of their object and write the replies through another one. What
  they share is global: the configuration with the accounts, the counters, and the list of the POP3 credentials
  that the sniffer found in copied data. A second program is the administrator's client, which logs
  in, sends the requests that its command line asks for, and prints the replies.

  \<^bold>\<open>The model.\<close>
  A C function that may not return a value is a function into \<open>fault + 'a\<close> (\<open>Prelude\<close>):
  an access outside an array, an \<open>assert\<close>, \<open>abort\<close>, a shift that is too wide, a use of memory that was
  freed, a read of another union member than the one written, a null pointer. Machine integers that can wrap
  are words; arrays are lists of a fixed length; a \<open>char *\<close> is the list of the bytes it points to (\<open>CStrings\<close>).
  The operating system is a list of answers that the calls use up, one each; what the program does to the outside is a
  list of events (\<open>World\<close>). Every interleaving of handlers, threads and clients is a sequence of steps on one state.

  \<^item> \<open>Buffer\<close> is \<^verbatim>\<open>buffer.c\<close>: limit, read and write pointer over an array. The invariant is
    \<open>buffer_ok\<close>; the specification is a bounded queue of bytes, which every sequence of calls refines.
  \<^item> \<open>ParserLoop\<close> is the loop that every \<open>*_consume\<close> has; the locale \<open>byte_parser\<close> is what it needs
    of a parser, \<open>counted_field\<close> and its extensions what a state that collects a field of an announced length does.
    \<open>HelloParser\<close>, \<open>AuthParser\<close>, \<open>RequestParser\<close> and \<open>AdminConnect\<close>, \<open>AdminGet\<close>, \<open>AdminPut\<close>, \<open>AdminEdit\<close>,
    \<open>AdminDelete\<close>, \<open>AdminConfigBuff\<close>, \<open>AdminConfigStatus\<close> are the parsers of \<^verbatim>\<open>parsers/\<close>, each with
    interpretations, the language it accepts, and the marshalling functions (\<open>AdminReply\<close>).
  \<^item> \<open>Metrics\<close> and \<open>ServerConfig\<close> are \<^verbatim>\<open>metrics.c\<close> and \<^verbatim>\<open>server_config.c\<close>: counters, accounts,
    settings and the values that GET reports. The locale \<open>account_store\<close> is the contract between the two protocols.
  \<^item> \<open>Stm\<close> is the engine \<^verbatim>\<open>stm.c\<close>; its locale \<open>stm_user\<close> turns a proof about each handler alone into an
    invariant of the machine. It is interpreted for both kinds of connection.
  \<^item> \<open>Selector\<close> is \<^verbatim>\<open>selector.c\<close>: the table of descriptors refines a map. \<open>Rounds\<close> shows what a round of
    \<open>select\<close> calls: its locale \<open>event_handlers\<close> asks of the handlers that they keep the table, and is interpreted
    for those of the server.
  \<^item> \<open>ListGeneric\<close> and \<open>Pop3Sniffer\<close> are \<^verbatim>\<open>listgeneric.c\<close> and \<^verbatim>\<open>pop3_sniffer.c\<close>.
  \<^item> \<open>World\<close> has the objects, the globals, the system calls; \<open>NetUtils\<close> the texts of addresses
    (\<^verbatim>\<open>conn_logger.c\<close>, \<open>ip_to_str\<close>).
  \<^item> \<open>Socks5Hello\<close>, \<open>Socks5Auth\<close>, \<open>Socks5Request\<close>, \<open>Socks5Copy\<close> are the files of the same names, \<open>Socks5\<close> is
    \<^verbatim>\<open>socks5.c\<close>: table of states, acceptance, the end of a connection.
  \<^item> \<open>Mng\<close> is \<^verbatim>\<open>mng.c\<close>, \<open>MngHandler\<close> is \<^verbatim>\<open>mng_handler.c\<close>, \<open>MngRequests\<close> shows what the requests do.
  \<^item> \<open>Relay\<close> follows the bytes of a connection that copies, through any interleaving of its four handlers.
  \<^item> \<open>Handshake\<close> has the steps of a connection from the greeting to COPY when the calls succeed, \<open>Connection\<close> puts
    them together: whole connections that are served, refused or given up. \<open>CopyProgress\<close> shows what a connection that
    copies can do: it goes on or ends, and faults only when \<open>recv\<close> fills the byte that the limit of the buffer has too
    many. \<open>Retries\<close> is about the recursion of \<open>request_connect\<close>, \<open>Dialling\<close> about all the attempts of a connection for a name,
    over all its events. \<open>AdminConnection\<close> is the
    same for an administrator, from \<open>accept\<close> to the first request or to the end. \<open>Accounts\<close> has both in one run.
  \<^item> \<open>WholeServer\<close> is the server as a whole: runs (\<open>server_run\<close>) in which new clients and administrators, events of any
    connection and resolver threads come in any order, and a simulator (\<open>play\<close>) of such runs. It rests on \<open>Ownership\<close> (which
    entries of the table belong to which object), \<open>Isolation\<close> and \<open>AdminIsolation\<close> (a handler touches nothing of another
    object) and \<open>Accepting\<close> (what \<open>accept\<close> adds). \<open>Logins\<close> draws the conclusions for the logins and the configuration.
  \<^item> \<open>ConnLogger\<close> is the line of \<^verbatim>\<open>conn_logger.c\<close>, \<open>SocketHelpers\<close> is \<^verbatim>\<open>netutils.c\<close>, with a list of answers
    of its own.
  \<^item> \<open>CLibrary\<close> holds the functions of the C library that the sources call (\<open>strtol\<close>, \<open>strtok\<close>, \<open>strchr\<close>),
    \<open>Logger\<close> is \<^verbatim>\<open>logger.c\<close>, \<open>Args\<close> is \<^verbatim>\<open>args.c\<close>: an option of the line is its letter with its argument, as
    \<open>getopt\<close> delivers it. \<open>Server\<close> is \<^verbatim>\<open>server.c\<close>: the sockets, the selector that starts with them, and the main loop.
  \<^item> \<open>ClientArgs\<close> and \<open>Client\<close> are the sources of \<^verbatim>\<open>management_protocol/\<close>, with answers and events of
    their own. \<open>ClientServer\<close> runs the client's messages through the parsers and handlers of the server, and the server's
    replies through the client.

  \<^bold>\<open>What is shown.\<close>
  Safety over all runs of the server, with any number of clients and administrators: no client gets past the login without a
  successful check of its credentials (while authentication is on), no administrator gets behind the login without the token, the
  configuration is that of the start until an administrator has presented the token, and an event of one connection leaves
  object, descriptors and entries of every other as they are. Refinement: buffer and selector. Parsers: one whole message
  for every way its bytes are split over reads, and the inputs on which they leave their arrays. Accounts: adding, editing and
  deleting, seen from the logins. Requests of administrators from the bytes received to the configuration and the reply, and from the
  options of the client to its printed answer. Copied bytes: nothing is lost, added, or reordered between the two sides, and the copying handlers go wrong in one case only, the byte behind the array. Whole
  connections: from \<open>accept\<close> to COPY with every event in order, and a login that is refused, down to the memory that is freed; administrators
  with the right and with a wrong token; an account that an administrator adds, and the client that logs in with it. The
  attempts to connect end, and where they go. The
  command line: what a server that starts has accepted, and the accounts and ports it then has. The main loop: what is
  registered at the start, that an idle server lives until the signal, and which handlers a round calls.
  Where the code breaks its contract, the theorem says so.

  \<^bold>\<open>Bounds and fuel.\<close> The consume loop terminates because each turn shortens the pending bytes. Loops over
  the accounts, the table of descriptors and the list of a resolution carry the number of turns that are left, which the
  callers set to the length of what they walk over; for the retries it is proved that more turns change nothing. The loops of
  \<open>SocketHelpers\<close> terminate because each turn takes an answer. The table of descriptors has at most \<open>ITEMS_MAX_SIZE\<close> = 1024 entries.
  The main loop runs over the list of what \<open>pselect\<close> answered, one element for each round. The runs of \<open>WholeServer\<close> are an
  inductive relation without a bound; each step is given the answers of its own system calls.

  \<^bold>\<open>Not modelled.\<close> The time-out of \<open>pselect\<close>, and the mutex of the resolver's notifications: the resolver thread is a step
  of its own that may happen at any time after it was started, and data races inside one step are outside the model. The log lines of
  the server at the levels \<open>DEBUG\<close> and \<open>INFO\<close>, the texts of \<open>-h\<close> and \<open>-v\<close>, and what \<open>perror\<close> and the loop
  of \<open>selector_select\<close> after \<open>EBADF\<close> print. A failing \<open>malloc\<close> in \<open>request_marshalll\<close>, and \<open>freeSniffer\<close> at the end of \<open>main\<close>. \<open>getopt\<close>, \<open>inet_pton\<close>,
  \<open>getaddrinfo\<close>, \<open>gethostbyname\<close> and the calls on sockets are not code of this repository: arguments and answers. \<open>cmd_resolve\<close> in
  \<^verbatim>\<open>parsers/request.c\<close> and the functions of \<^verbatim>\<open>netutils.c\<close> are modelled although nothing but the tests calls them.
\<close>

end
